(* ===== verification/Prelude.thy ===== *)
theory Prelude
  imports
    Complex_Main
    "HOL-Library.AList"
    "HOL-Library.Char_ord"
    "HOL-Library.List_Lexorder"
    "HOL-Library.Product_Lexorder"
    "HOL-Library.Multiset"
begin

text \<open>
  Shared vocabulary of the development: the parts of the JavaScript standard library that the
  modelled code calls (\<open>Math.round\<close>, \<open>%\<close>, insertion-ordered \<open>Map\<close>s and objects), lemmas on
  sums, lists and association lists that several components use, and the generic notion of a
  transition system with its reachable states and inductive invariants.

  Numbers: a JavaScript number that the code uses as a count, an amount in cents or a time in
  milliseconds is an \<^typ>\<open>int\<close>; a number that may be fractional (a quantity, a percentage) is a
  \<^typ>\<open>rat\<close>. Strings compare by code unit, which on the ASCII strings the code orders (ISO dates,
  "HH:MM" clocks, identifiers) is the lexicographic order of \<^typ>\<open>string\<close>.
\<close>

named_theorems js_defs \<open>definitions of the JavaScript primitives\<close>
named_theorems step_defs \<open>definitions of handlers and transactions\<close>

section \<open>JavaScript arithmetic\<close>

text \<open>\<open>Math.round\<close> rounds halves towards positive infinity.\<close>

definition js_round :: "rat \<Rightarrow> int" where
  [js_defs]: "js_round x = \<lfloor>x + 1 / 2\<rfloor>"

text \<open>The remainder operator \<open>%\<close> takes the sign of the dividend.\<close>

definition js_rem :: "int \<Rightarrow> int \<Rightarrow> int" where
  [js_defs]: "js_rem a b = sgn a * (\<bar>a\<bar> mod \<bar>b\<bar>)"

lemma js_round_of_int [simp]: "js_round (of_int n) = n"
  unfolding js_round_def by linarith

lemma js_round_mono: "x \<le> y \<Longrightarrow> js_round x \<le> js_round y"
  unfolding js_round_def by (intro floor_mono) simp

lemma js_round_nonneg: "0 \<le> x \<Longrightarrow> 0 \<le> js_round x"
  unfolding js_round_def by simp

lemma js_round_nearest: "\<bar>of_int (js_round x) - x\<bar> \<le> 1 / 2"
  unfolding js_round_def by linarith

lemma js_rem_nonneg: "0 \<le> a \<Longrightarrow> 0 < b \<Longrightarrow> js_rem a b = a mod b"
  by (cases "a = 0") (simp_all add: js_rem_def)

section \<open>Sums and lists\<close>

lemma sum_list_map_nonneg:
  fixes f :: "'a \<Rightarrow> int"
  shows "(\<And>x. x \<in> set xs \<Longrightarrow> 0 \<le> f x) \<Longrightarrow> 0 \<le> sum_list (map f xs)"
  by (induction xs) auto

lemma sum_list_int_nonneg: "(\<And>x. x \<in> set xs \<Longrightarrow> 0 \<le> x) \<Longrightarrow> 0 \<le> sum_list (xs :: int list)"
  by (induction xs) auto

lemma member_le_sum_list_int:
  fixes xs :: "int list"
  assumes "\<And>x. x \<in> set xs \<Longrightarrow> 0 \<le> x" and "x \<in> set xs"
  shows "x \<le> sum_list xs"
  using assms by (induction xs) (auto intro: add_increasing2 add_increasing sum_list_int_nonneg)

lemma sum_list_map_add:
  "sum_list (map (\<lambda>x. f x + g x) xs) = sum_list (map f xs) + sum_list (map g xs :: int list)"
  by (induction xs) auto

lemma sum_list_map_swap:
  fixes f :: "'a \<Rightarrow> 'b \<Rightarrow> int"
  shows "sum_list (map (\<lambda>x. sum_list (map (f x) ys)) xs)
       = sum_list (map (\<lambda>y. sum_list (map (\<lambda>x. f x y) xs)) ys)"
  by (induction xs) (auto simp: sum_list_map_add sum_list_addf)

lemma sum_list_filter_zero:
  fixes f :: "'a \<Rightarrow> int"
  shows "(\<And>x. x \<in> set xs \<Longrightarrow> \<not> P x \<Longrightarrow> f x = 0) \<Longrightarrow>
    sum_list (map f (filter P xs)) = sum_list (map f xs)"
  by (induction xs) auto

lemma sum_list_map_if:
  fixes f :: "'a \<Rightarrow> int"
  shows "sum_list (map (\<lambda>x. if P x then f x else 0) xs) = sum_list (map f (filter P xs))"
  by (induction xs) auto

lemma sum_list_map2_minus:
  "length xs = length ys \<Longrightarrow>
    sum_list (map2 (-) xs ys) = sum_list xs - sum_list (ys :: int list)"
  by (induction xs ys rule: list_induct2) auto

text \<open>\<open>[...new Set(xs)]\<close> keeps the first of equal elements.\<close>

definition js_unique :: "'a list \<Rightarrow> 'a list" where
  [js_defs]: "js_unique xs = rev (remdups (rev xs))"

lemma distinct_js_unique [simp]: "distinct (js_unique xs)"
  by (simp add: js_unique_def)

lemma set_js_unique [simp]: "set (js_unique xs) = set xs"
  by (simp add: js_unique_def)

lemma js_unique_eq_Nil [simp]: "js_unique xs = [] \<longleftrightarrow> xs = []"
  by (simp add: js_unique_def)

lemma find_SomeD: "find P xs = Some x \<Longrightarrow> x \<in> set xs \<and> P x"
  by (auto simp: find_Some_iff)

lemma set_map_filter: "set (List.map_filter f xs) = {y. \<exists>x\<in>set xs. f x = Some y}"
  by (force simp: List.map_filter_def)

text \<open>\<open>trim\<close>, over the white space of Latin-1.\<close>

definition is_space :: "char \<Rightarrow> bool" where
  "is_space c \<longleftrightarrow> c \<in> {CHR '' '', CHR 0x09, CHR 0x0A, CHR 0x0B, CHR 0x0C, CHR 0x0D, CHR 0xA0}"

definition js_trim :: "string \<Rightarrow> string" where
  "js_trim s = rev (dropWhile is_space (rev (dropWhile is_space s)))"

section \<open>Decimal numerals and JSON values\<close>

definition digit_char :: "nat \<Rightarrow> char" where
  "digit_char n = char_of (48 + n)"

fun dec :: "nat \<Rightarrow> string" where
  "dec n = (if n < 10 then [digit_char n] else dec (n div 10) @ [digit_char (n mod 10)])"

declare dec.simps [simp del]

lemma digit_char_inj: "m < 10 \<Longrightarrow> n < 10 \<Longrightarrow> digit_char m = digit_char n \<Longrightarrow> m = n"
  by (drule arg_cong [where f = "of_char :: char \<Rightarrow> nat"]) (simp add: digit_char_def)

lemma dec_not_Nil: "dec n \<noteq> []" "[] \<noteq> dec n"
  by (subst dec.simps, simp)+

lemma dec_inj: "dec m = dec n \<Longrightarrow> m = n"
proof (induction m arbitrary: n rule: dec.induct)
  case (1 m)
  have step: "dec k = (if k < 10 then [digit_char k] else dec (k div 10) @ [digit_char (k mod 10)])" for k
    by (subst dec.simps) simp
  show ?case
  proof (cases "m < 10"; cases "n < 10")
    assume "m < 10" "n < 10"
    with 1(2) show ?thesis using digit_char_inj by (simp add: step)
  next
    assume "m < 10" "\<not> n < 10"
    with 1(2) show ?thesis by (simp add: step [of m] step [of n] dec_not_Nil)
  next
    assume "\<not> m < 10" "n < 10"
    with 1(2) show ?thesis by (simp add: step [of m] step [of n] dec_not_Nil)
  next
    assume big: "\<not> m < 10" "\<not> n < 10"
    with 1(2) have "dec (m div 10) = dec (n div 10)" "digit_char (m mod 10) = digit_char (n mod 10)"
      by (simp_all add: step [of m] step [of n])
    with 1(1) [OF big(1)] have "m div 10 = n div 10" "m mod 10 = n mod 10"
      using digit_char_inj [of "m mod 10" "n mod 10"] by auto
    then show ?thesis by (metis div_mult_mod_eq)
  qed
qed

text \<open>\<open>String(n)\<close> of an integer.\<close>

definition int_string :: "int \<Rightarrow> string" where
  "int_string n = (if n < 0 then ''-'' @ dec (nat (- n)) else dec (nat n))"

datatype json =
    J_Null
  | J_Bool bool
  | J_Num rat
  | J_Str string
  | J_Arr "json list"
  | J_Obj "(string \<times> json) list"

text \<open>Reading a member: \<open>None\<close> for a value that has no members or lacks this one.\<close>

fun json_member :: "string \<Rightarrow> json \<Rightarrow> json option" where
  "json_member k (J_Obj ms) = map_of (rev ms) k"
| "json_member k _ = None"

text \<open>\<open>Number.isSafeInteger\<close>, with the integer.\<close>

fun safe_integer :: "json \<Rightarrow> int option" where
  "safe_integer (J_Num x) =
    (if of_int \<lfloor>x\<rfloor> = x \<and> \<bar>x\<bar> \<le> 9007199254740991 then Some \<lfloor>x\<rfloor> else None)"
| "safe_integer _ = None"

text \<open>\<open>Array.isArray(v) \<and> v.every((id) => typeof id === "string")\<close>, with the strings.\<close>

fun json_strings :: "json \<Rightarrow> string list option" where
  "json_strings (J_Arr vs) =
    (if \<forall>v\<in>set vs. (case v of J_Str _ \<Rightarrow> True | _ \<Rightarrow> False)
     then Some (map (\<lambda>v. case v of J_Str s \<Rightarrow> s | _ \<Rightarrow> []) vs) else None)"
| "json_strings _ = None"

section \<open>Insertion-ordered maps\<close>

text \<open>
  A JavaScript \<open>Map\<close> (and an object whose keys are not array indices) keeps its keys in the order
  of their first insertion; setting a present key keeps its place. \<open>AList.update\<close> is that
  operation on an association list, and \<open>map_of\<close> the lookup.
\<close>

type_synonym ('k, 'v) js_map = "('k \<times> 'v) list"

definition from_entries :: "('k \<times> 'v) list \<Rightarrow> ('k, 'v) js_map" where
  [js_defs]: "from_entries es = foldl (\<lambda>m (k, v). AList.update k v m) [] es"

lemma map_of_foldl_update:
  "map_of (foldl (\<lambda>m (k, v). AList.update k v m) m es) = map_of m ++ map_of (rev es)"
  by (induction es arbitrary: m) (auto simp: update_conv' map_add_def split: option.splits)

lemma AList_update_append_fresh:
  "k \<notin> fst ` set m \<Longrightarrow> AList.update k v m = m @ [(k, v)]"
  by (induction m) auto

lemma foldl_update_distinct:
  "distinct (map fst (m @ es)) \<Longrightarrow> foldl (\<lambda>m (k, v). AList.update k v m) m es = m @ es"
proof (induction es arbitrary: m)
  case (Cons e es)
  obtain k v where e: "e = (k, v)" by (cases e)
  with Cons.prems have "k \<notin> fst ` set m" by auto
  then have "AList.update k v m = m @ [e]" by (simp add: AList_update_append_fresh e)
  with Cons.prems Cons.IH [of "m @ [e]"] show ?case by (simp add: e)
qed simp

lemma from_entries_distinct: "distinct (map fst es) \<Longrightarrow> from_entries es = es"
  using foldl_update_distinct [of "[]" es] by (simp add: from_entries_def)

lemma set_update_subset: "set (AList.update k v xs) \<subseteq> insert (k, v) (set xs)"
  by (induction xs) auto

lemma foldl_update_keys:
  "distinct (map fst m) \<Longrightarrow> distinct (map fst (foldl (\<lambda>m (k, v). AList.update k v m) m es))"
  by (induction es arbitrary: m) (auto simp: distinct_update)

lemma foldl_update_set: "set (foldl (\<lambda>m (k, v). AList.update k v m) m es) \<subseteq> set m \<union> set es"
proof (induction es arbitrary: m)
  case (Cons e es)
  show ?case using Cons [of "AList.update (fst e) (snd e) m"] set_update_subset [of "fst e" "snd e" m]
    by (cases e) auto
qed simp

lemma distinct_from_entries [simp]: "distinct (map fst (from_entries es))"
  using foldl_update_keys [of "[]" es] by (simp add: from_entries_def)

lemma set_from_entries: "set (from_entries es) \<subseteq> set es"
  using foldl_update_set [of "[]" es] by (simp add: from_entries_def)

section \<open>Transition systems\<close>

text \<open>
  A component with several writers (tabs, timers, network answers) is a relation between its
  states. The reachable states are the least set closed under the relation.
\<close>

inductive reach :: "('s \<Rightarrow> bool) \<Rightarrow> ('s \<Rightarrow> 's \<Rightarrow> bool) \<Rightarrow> 's \<Rightarrow> bool"
  for initial :: "'s \<Rightarrow> bool" and step :: "'s \<Rightarrow> 's \<Rightarrow> bool" where
  reach_init: "initial s \<Longrightarrow> reach initial step s"
| reach_step: "reach initial step s \<Longrightarrow> step s t \<Longrightarrow> reach initial step t"

text \<open>The interface of an inductive invariant: it holds initially and every step keeps it.\<close>

locale inductive_invariant =
  fixes initial :: "'s \<Rightarrow> bool"
    and step :: "'s \<Rightarrow> 's \<Rightarrow> bool"
    and inv :: "'s \<Rightarrow> bool"
  assumes initial_inv: "initial s \<Longrightarrow> inv s"
    and step_inv: "inv s \<Longrightarrow> step s t \<Longrightarrow> inv t"
begin

lemma reach_inv: "reach initial step s \<Longrightarrow> inv s"
  by (induction rule: reach.induct) (auto intro: initial_inv step_inv)

lemma steps_inv: "step\<^sup>*\<^sup>* s t \<Longrightarrow> inv s \<Longrightarrow> inv t"
  by (induction rule: rtranclp_induct) (auto intro: step_inv)

end

end
