(* ===== verification/Taxes.thy ===== *)
theory Taxes
  imports Prelude
begin

text \<open>
  The tax engine of the shared view-model layer: the generated rate table
  (\<open>app-core/src/taxRates.ts\<close>) and the functions of \<open>app-core/src/domain/taxes.ts\<close> that pick a
  province's rates on a business day, work a line's tax out per code (tax added on top or
  included in the price), and decide whether a business collects tax.

  Labels are worded by \<open>Intl\<close> and the string catalogue, so \<open>taxRateLabel\<close> is the argument
  \<open>rate_label\<close> of the definitions that print one.
\<close>

section \<open>The rate table\<close>

record rate_row =
  row_province :: string
  row_code :: string
  row_ppm :: int
  row_from :: string

record doc_rate =
  rate_code :: string
  rate_ppm :: int

definition federal_tax_codes :: "string list" where
  "federal_tax_codes = [''GST'', ''HST'']"

definition row_of :: "string \<Rightarrow> string \<Rightarrow> int \<Rightarrow> string \<Rightarrow> rate_row" where
  "row_of p c r f = \<lparr>row_province = p, row_code = c, row_ppm = r, row_from = f\<rparr>"

definition tax_rates :: "rate_row list" where
  "tax_rates =
    [row_of ''AB'' ''GST'' 50000 ''2008-01-01'',
     row_of ''BC'' ''GST'' 50000 ''2008-01-01'',
     row_of ''BC'' ''PST'' 70000 ''2013-04-01'',
     row_of ''MB'' ''GST'' 50000 ''2008-01-01'',
     row_of ''MB'' ''RST'' 70000 ''2019-07-01'',
     row_of ''NB'' ''HST'' 150000 ''2016-07-01'',
     row_of ''NL'' ''HST'' 150000 ''2016-07-01'',
     row_of ''NS'' ''HST'' 150000 ''2010-07-01'',
     row_of ''NS'' ''HST'' 140000 ''2025-04-01'',
     row_of ''NT'' ''GST'' 50000 ''2008-01-01'',
     row_of ''NU'' ''GST'' 50000 ''2008-01-01'',
     row_of ''ON'' ''HST'' 130000 ''2010-07-01'',
     row_of ''PE'' ''HST'' 150000 ''2016-10-01'',
     row_of ''QC'' ''GST'' 50000 ''2008-01-01'',
     row_of ''QC'' ''QST'' 99750 ''2013-01-01'',
     row_of ''SK'' ''GST'' 50000 ''2008-01-01'',
     row_of ''SK'' ''PST'' 60000 ''2017-03-23'',
     row_of ''YT'' ''GST'' 50000 ''2008-01-01'']"

definition is_federal :: "string \<Rightarrow> bool" where
  "is_federal c = (c \<in> set federal_tax_codes)"

section \<open>The rates on a day\<close>

text \<open>
  One turn of the loop of \<open>ratesOn\<close> over the table: rows of another province or not yet in force
  are passed over, and a row replaces the one seen for its code only when it starts later.
\<close>

definition rates_step ::
  "string option \<Rightarrow> string \<Rightarrow> (string, rate_row) js_map \<Rightarrow> rate_row \<Rightarrow> (string, rate_row) js_map" where
  "rates_step prov day current row =
    (if Some (row_province row) \<noteq> prov \<or> row_from row > day then current
     else case map_of current (row_code row) of
            None \<Rightarrow> AList.update (row_code row) row current
          | Some seen \<Rightarrow> if row_from row > row_from seen then AList.update (row_code row) row current
                         else current)"

definition rates_in_force ::
  "rate_row list \<Rightarrow> string option \<Rightarrow> string \<Rightarrow> (string, rate_row) js_map" where
  "rates_in_force table prov day = foldl (rates_step prov day) [] table"

definition rates_of_table :: "rate_row list \<Rightarrow> string option \<Rightarrow> string \<Rightarrow> doc_rate list" where
  "rates_of_table table prov day =
    map (\<lambda>r. \<lparr>rate_code = row_code r, rate_ppm = row_ppm r\<rparr>)
      (filter (\<lambda>r. row_ppm r > 0) (map snd (rates_in_force table prov day)))"

definition rates_on :: "string option \<Rightarrow> string \<Rightarrow> doc_rate list" where
  "rates_on prov day = rates_of_table tax_rates prov day"

section \<open>A line's tax\<close>

datatype item_tax_class = Standard | Federal_Only | Exempt

fun as_tax_class :: "string option \<Rightarrow> item_tax_class" where
  "as_tax_class v =
    (if v = Some ''federal_only'' then Federal_Only
     else if v = Some ''exempt'' then Exempt
     else Standard)"

definition half_up :: "int \<Rightarrow> int \<Rightarrow> int" where
  "half_up num den =
    (let whole = (2 * \<bar>num\<bar> + den) div (2 * den)
     in if num < 0 then 0 - whole else whole)"

definition applied_rates :: "item_tax_class \<Rightarrow> doc_rate list \<Rightarrow> doc_rate list" where
  "applied_rates cls rates =
    (if cls = Exempt then []
     else filter (\<lambda>r. cls = Standard \<or> is_federal (rate_code r)) rates)"

definition tax_den :: "doc_rate list \<Rightarrow> bool \<Rightarrow> int" where
  "tax_den applied inclusive =
    1000000 + (if inclusive then sum_list (map rate_ppm applied) else 0)"

definition line_tax ::
  "int \<Rightarrow> item_tax_class \<Rightarrow> doc_rate list \<Rightarrow> bool \<Rightarrow> (string, int) js_map" where
  "line_tax amount cls rates inclusive =
    (let applied = applied_rates cls rates;
         den = tax_den applied inclusive
     in from_entries (map (\<lambda>r. (rate_code r, half_up (amount * rate_ppm r) den)) applied))"

definition tax_lines_for :: "string option \<Rightarrow> string \<Rightarrow> doc_rate list" where
  "tax_lines_for prov day =
    (let rates = rates_on prov day in if rates \<noteq> [] then rates else rates_on (Some ''AB'') day)"

text \<open>Today's setup (\<open>useTaxSetup\<close>): the business row may not have synced yet.\<close>

record business_tax_row =
  bt_province :: "string option"
  bt_registered :: "int option"
  bt_registered_on :: "string option"

record tax_setup =
  ts_province :: "string option"
  ts_rates :: "doc_rate list"
  ts_registered :: bool
  ts_ready :: bool

definition use_tax_setup :: "business_tax_row option \<Rightarrow> string \<Rightarrow> tax_setup" where
  "use_tax_setup row day =
    (let since = Option.bind row bt_registered_on;
         prov = Option.bind row bt_province
     in \<lparr>ts_province = prov,
         ts_rates = rates_on prov day,
         ts_registered = Option.bind row bt_registered \<noteq> Some 0
           \<and> (case since of None \<Rightarrow> True | Some s \<Rightarrow> s \<le> day),
         ts_ready = row \<noteq> None\<rparr>)"

text \<open>The worked example of the tax screen: the lines shown and the total, on a sale of \<open>cents\<close>.\<close>

definition tax_example ::
  "(doc_rate \<Rightarrow> string) \<Rightarrow> item_tax_class \<Rightarrow> string option \<Rightarrow> bool \<Rightarrow> string \<Rightarrow> int
    \<Rightarrow> (string \<times> int) list \<times> int" where
  "tax_example rate_label cls prov collect day cents =
    (let by_code = if collect then line_tax cents cls (tax_lines_for prov day) False else [];
         lines = map (\<lambda>r. (rate_label r, case map_of by_code (rate_code r) of None \<Rightarrow> 0 | Some c \<Rightarrow> c))
           (filter (\<lambda>r. map_of by_code (rate_code r) \<noteq> None) (tax_lines_for prov day))
     in (lines, cents + sum_list (map snd lines)))"

section \<open>Half-up rounding\<close>

lemma half_up_nonneg_eq: "0 \<le> num \<Longrightarrow> half_up num den = (2 * num + den) div (2 * den)"
  by (simp add: half_up_def)

lemma half_up_minus: "half_up (- num) den = - half_up num den"
  by (cases "num = 0"; cases "num < 0") (simp_all add: half_up_def Let_def div_pos_pos_trivial)

lemma half_up_zero [simp]: "0 < den \<Longrightarrow> half_up 0 den = 0"
  by (simp add: half_up_def div_pos_pos_trivial)

lemma half_up_nearest_nonneg:
  assumes "0 < den" "0 \<le> num"
  shows "2 * num - den < 2 * den * half_up num den" "2 * den * half_up num den \<le> 2 * num + den"
proof -
  let ?q = "(2 * num + den) div (2 * den)"
  have "2 * den * ?q + (2 * num + den) mod (2 * den) = 2 * num + den"
    by (rule mult_div_mod_eq)
  moreover have "0 \<le> (2 * num + den) mod (2 * den)" "(2 * num + den) mod (2 * den) < 2 * den"
    using assms by simp_all
  ultimately have "2 * num - den < 2 * den * ?q" "2 * den * ?q \<le> 2 * num + den"
    by linarith+
  then show "2 * num - den < 2 * den * half_up num den"
    "2 * den * half_up num den \<le> 2 * num + den"
    by (simp_all only: half_up_nonneg_eq [OF assms(2)])
qed

lemma half_up_nearest: "0 < den \<Longrightarrow> \<bar>2 * den * half_up num den - 2 * num\<bar> \<le> den"
  using half_up_nearest_nonneg [of den num] half_up_nearest_nonneg [of den "- num"]
  by (cases "0 \<le> num") (auto simp: half_up_minus abs_le_iff)

lemma half_up_nonneg: "0 < den \<Longrightarrow> 0 \<le> num \<Longrightarrow> 0 \<le> half_up num den"
  by (simp add: half_up_nonneg_eq pos_imp_zdiv_nonneg_iff)

lemma half_up_le: "0 < den \<Longrightarrow> 0 \<le> num \<Longrightarrow> num \<le> k * den \<Longrightarrow> half_up num den \<le> k"
proof -
  assume den: "0 < den" and "0 \<le> num" and le: "num \<le> k * den"
  then have "2 * den * half_up num den \<le> 2 * num + den"
    by (intro half_up_nearest_nonneg(2))
  also have "\<dots> < 2 * den * (k + 1)"
    using le den by (simp add: algebra_simps)
  finally show ?thesis using den by simp
qed

section \<open>Picking the rates in force\<close>

definition in_force :: "string option \<Rightarrow> string \<Rightarrow> rate_row \<Rightarrow> bool" where
  "in_force prov day r \<longleftrightarrow> Some (row_province r) = prov \<and> row_from r \<le> day"

text \<open>What the loop knows about one code after a prefix of the table.\<close>

fun latest_row ::
  "string option \<Rightarrow> string \<Rightarrow> rate_row list \<Rightarrow> string \<Rightarrow> rate_row option \<Rightarrow> bool" where
  "latest_row prov day seen c None \<longleftrightarrow>
    (\<forall>r\<in>set seen. in_force prov day r \<longrightarrow> row_code r \<noteq> c)"
| "latest_row prov day seen c (Some r) \<longleftrightarrow> r \<in> set seen \<and> in_force prov day r \<and> row_code r = c \<and>
    (\<forall>r'\<in>set seen. in_force prov day r' \<and> row_code r' = c \<longrightarrow> row_from r' \<le> row_from r)"

lemma latest_row_code: "latest_row prov day seen c (Some r) \<Longrightarrow> row_code r = c"
  by simp

definition newer_row :: "rate_row \<Rightarrow> rate_row option \<Rightarrow> rate_row" where
  "newer_row row old =
    (case old of None \<Rightarrow> row | Some seen \<Rightarrow> if row_from row > row_from seen then row else seen)"

lemma map_of_rates_step:
  "map_of (rates_step prov day m row) c =
    (if in_force prov day row \<and> row_code row = c then Some (newer_row row (map_of m c))
     else map_of m c)"
  by (auto simp: rates_step_def in_force_def newer_row_def not_less update_conv' split: option.split)

lemma latest_row_newer:
  assumes "latest_row prov day seen c old" "in_force prov day row" "row_code row = c"
  shows "latest_row prov day (seen @ [row]) c (Some (newer_row row old))"
proof (cases old)
  case None
  with assms show ?thesis by (auto simp: newer_row_def)
next
  case (Some r)
  show ?thesis
  proof (cases "row_from r < row_from row")
    case True
    then have "row_from r' \<le> row_from row" if "row_from r' \<le> row_from r" for r' :: rate_row
      using that by order
    with True Some assms show ?thesis by (auto simp: newer_row_def)
  next
    case False
    with Some assms show ?thesis by (auto simp: newer_row_def)
  qed
qed

lemma latest_row_skip:
  "latest_row prov day seen c old \<Longrightarrow> \<not> (in_force prov day row \<and> row_code row = c) \<Longrightarrow>
    latest_row prov day (seen @ [row]) c old"
  by (cases old) auto

lemma latest_row_in_force:
  "latest_row prov day table c (map_of (rates_in_force table prov day) c)"
  unfolding rates_in_force_def
proof (induction table rule: rev_induct)
  case (snoc row table)
  then show ?case
    by (simp add: map_of_rates_step latest_row_newer latest_row_skip del: latest_row.simps)
qed simp

lemma distinct_rates_in_force: "distinct (map fst (rates_in_force table prov day))"
  unfolding rates_in_force_def
  by (induction table rule: rev_induct)
    (auto simp: rates_step_def distinct_update split: option.split)

lemma rates_in_force_iff:
  "(c, r) \<in> set (rates_in_force table prov day) \<longleftrightarrow>
    map_of (rates_in_force table prov day) c = Some r"
  by (simp add: distinct_rates_in_force)

lemma rates_in_force_code: "(c, r) \<in> set (rates_in_force table prov day) \<Longrightarrow> row_code r = c"
  by (metis rates_in_force_iff latest_row_in_force latest_row_code)

lemma rates_of_table_mem:
  "r \<in> set (rates_of_table table prov day) \<longleftrightarrow>
    (\<exists>row. map_of (rates_in_force table prov day) (rate_code r) = Some row
      \<and> row_ppm row = rate_ppm r \<and> 0 < rate_ppm r)" (is "?lhs \<longleftrightarrow> ?rhs")
proof
  assume ?lhs
  then obtain c row where "(c, row) \<in> set (rates_in_force table prov day)" "0 < row_ppm row"
    "r = \<lparr>rate_code = row_code row, rate_ppm = row_ppm row\<rparr>"
    by (auto simp: rates_of_table_def)
  then show ?rhs using rates_in_force_code [of c row] rates_in_force_iff [of c row] by auto
next
  assume ?rhs
  then obtain row where row: "(rate_code r, row) \<in> set (rates_in_force table prov day)"
    "row_ppm row = rate_ppm r" "0 < rate_ppm r"
    using rates_in_force_iff by blast
  then have "r = \<lparr>rate_code = row_code row, rate_ppm = row_ppm row\<rparr>"
    using rates_in_force_code [OF row(1)] by simp
  moreover have "row \<in> set (map snd (rates_in_force table prov day))"
    using row(1) by force
  then have "row \<in> set (filter (\<lambda>r. row_ppm r > 0) (map snd (rates_in_force table prov day)))"
    using row(2,3) by simp
  ultimately show ?lhs
    unfolding rates_of_table_def set_map by (rule image_eqI)
qed

lemma distinct_map_filter_snd:
  "distinct (map f xs) \<Longrightarrow> distinct (map f (filter P xs))"
  by (induction xs) auto

lemma distinct_rates_of_table: "distinct (map rate_code (rates_of_table table prov day))"
proof -
  have "map row_code (map snd (rates_in_force table prov day))
      = map fst (rates_in_force table prov day)"
    by (auto dest: rates_in_force_code)
  then have "distinct (map row_code (map snd (rates_in_force table prov day)))"
    by (simp only: distinct_rates_in_force)
  then have "distinct (map row_code (filter (\<lambda>r. row_ppm r > 0) (map snd (rates_in_force table prov day))))"
    by (rule distinct_map_filter_snd)
  then show ?thesis by (simp add: rates_of_table_def comp_def)
qed

lemma distinct_rates_on [simp]: "distinct (map rate_code (rates_on prov day))"
  by (simp add: rates_on_def distinct_rates_of_table)

text \<open>No two rows of the bundled table start a code of a province on the same day.\<close>

lemma tax_rates_keys_distinct:
  "distinct (map (\<lambda>r. (row_province r, row_code r, row_from r)) tax_rates)"
  by (simp add: tax_rates_def row_of_def)

lemma distinct_map_eq:
  "distinct (map f xs) \<Longrightarrow> x \<in> set xs \<Longrightarrow> y \<in> set xs \<Longrightarrow> f x = f y \<Longrightarrow> x = y"
  by (auto simp: distinct_map inj_on_def)

section \<open>What the table charges\<close>

lemma tax_rates_row_unique:
  "r \<in> set tax_rates \<Longrightarrow> r' \<in> set tax_rates \<Longrightarrow> row_province r = row_province r' \<Longrightarrow>
    row_code r = row_code r' \<Longrightarrow> row_from r = row_from r' \<Longrightarrow> r = r'"
  by (rule distinct_map_eq [OF tax_rates_keys_distinct]) simp_all

text \<open>On any day, a province is charged a code at a rate exactly when that is the positive rate
  of the latest row of the table for the code that is in force on the day, and no code is charged
  twice.\<close>

theorem rates_on_latest_in_force:
  "distinct (map rate_code (rates_on prov day)) \<and>
   (r \<in> set (rates_on prov day) \<longleftrightarrow>
     0 < rate_ppm r \<and> (\<exists>row\<in>set tax_rates. in_force prov day row \<and> row_code row = rate_code r
       \<and> row_ppm row = rate_ppm r \<and> \<not> (\<exists>later\<in>set tax_rates. in_force prov day later
           \<and> row_code later = rate_code r \<and> row_from row < row_from later)))"
proof -
  let ?m = "map_of (rates_in_force tax_rates prov day) (rate_code r)"
  have m: "latest_row prov day tax_rates (rate_code r) ?m"
    by (rule latest_row_in_force)
  have "?m = Some row \<longleftrightarrow> row \<in> set tax_rates \<and> in_force prov day row \<and> row_code row = rate_code r
      \<and> \<not> (\<exists>later\<in>set tax_rates. in_force prov day later \<and> row_code later = rate_code r
          \<and> row_from row < row_from later)" (is "_ \<longleftrightarrow> ?latest row") for row
  proof
    assume "?m = Some row"
    with m show "?latest row" by (auto simp: not_less)
  next
    assume row: "?latest row"
    then obtain row' where row': "?m = Some row'"
      using m by (cases ?m) auto
    with m row have "row_from row = row_from row'"
      by (auto simp: not_less intro: order.antisym)
    with m row row' have "row = row'"
      by (intro tax_rates_row_unique) (auto simp: in_force_def)
    with row' show "?m = Some row" by simp
  qed
  then show ?thesis
    by (auto simp: rates_on_def rates_of_table_mem distinct_rates_of_table)
qed

text \<open>The thirteen provinces and territories of \<open>ProvinceCode\<close>.\<close>

definition province_codes :: "string list" where
  "province_codes = [''AB'', ''BC'', ''MB'', ''NB'', ''NL'', ''NS'', ''NT'', ''NU'', ''ON'', ''PE'', ''QC'', ''SK'', ''YT'']"

lemmas rates_on_eval = rates_on_def rates_of_table_def rates_in_force_def tax_rates_def
  rates_step_def row_of_def is_federal_def federal_tax_codes_def

text \<open>Only the rows of the province matter, so a concrete province leaves one or two of them.\<close>

lemma rates_in_force_province:
  "rates_in_force table (Some p) day =
    rates_in_force (filter (\<lambda>r. row_province r = p) table) (Some p) day"
proof -
  have "foldl (rates_step (Some p) day) m table =
      foldl (rates_step (Some p) day) m (filter (\<lambda>r. row_province r = p) table)" for m
    by (induction table arbitrary: m) (simp_all add: rates_step_def)
  then show ?thesis by (simp add: rates_in_force_def)
qed

lemma tax_rates_provinces: "map row_province tax_rates =
  [''AB'', ''BC'', ''BC'', ''MB'', ''MB'', ''NB'', ''NL'', ''NS'', ''NS'', ''NT'', ''NU'', ''ON'', ''PE'',
   ''QC'', ''QC'', ''SK'', ''SK'', ''YT'']"
  by (simp add: tax_rates_def row_of_def)

lemma rates_on_unknown:
  assumes "p \<notin> set province_codes"
  shows "rates_on (Some p) day = []"
proof -
  have "row_province ` set tax_rates = set province_codes"
    by (simp add: set_map [symmetric] tax_rates_provinces province_codes_def insert_commute del: set_map)
  with assms have "filter (\<lambda>r. row_province r = p) tax_rates = []"
    by (auto simp: filter_empty_conv)
  then show ?thesis
    by (simp add: rates_on_def rates_of_table_def rates_in_force_province [of tax_rates])
      (simp add: rates_in_force_def)
qed

lemma rates_on_None: "rates_on None day = []"
  by (simp add: rates_on_eval)

definition total_ppm :: "doc_rate list \<Rightarrow> int" where
  "total_ppm rates = sum_list (map rate_ppm rates)"

definition federal_count :: "doc_rate list \<Rightarrow> nat" where
  "federal_count rates = length (filter (\<lambda>r. is_federal (rate_code r)) rates)"

lemmas province_eval = rates_on_def rates_of_table_def rates_in_force_province [of tax_rates]
  rates_in_force_def [of "_ # _"] rates_in_force_def [of "[]"] rates_step_def row_of_def
  is_federal_def federal_tax_codes_def total_ppm_def federal_count_def tax_rates_def

lemma province_total:
  assumes "p \<in> set province_codes"
  shows "total_ppm (rates_on (Some p) day) \<le> 150000"
  using assms unfolding province_codes_def list.set insert_iff empty_iff
  by (elim disjE FalseE) (simp_all add: province_eval)

lemma province_federal:
  assumes "p \<in> set province_codes" and "''2016-10-01'' \<le> day"
  shows "federal_count (rates_on (Some p) day) = 1"
proof -
  have "s \<le> day" if "s \<le> ''2016-10-01''" for s :: string
    using that assms(2) by (rule order.trans)
  then have "''2008-01-01'' \<le> day" "''2010-07-01'' \<le> day" "''2016-07-01'' \<le> day"
    by simp_all
  with assms show ?thesis
    unfolding province_codes_def list.set insert_iff empty_iff
    by (elim disjE FalseE) (simp_all add: province_eval leD)
qed

text \<open>Whatever the province and the day, the taxes charged add up to at most 15%, and from
  October 2016 on each province and territory charges exactly one federal tax.\<close>

theorem rates_on_bounds:
  "total_ppm (rates_on prov day) \<le> 150000
   \<and> (\<forall>p\<in>set province_codes. ''2016-10-01'' \<le> day \<longrightarrow>
       federal_count (rates_on (Some p) day) = 1)"
proof (cases prov)
  case None
  then show ?thesis by (simp add: rates_on_None total_ppm_def province_federal)
next
  case (Some p)
  then have "total_ppm (rates_on prov day) \<le> 150000"
    by (cases "p \<in> set province_codes") (auto simp: province_total rates_on_unknown intro: order.trans [of _ 0] simp: total_ppm_def [of "[]"])
  then show ?thesis by (simp add: province_federal)
qed

theorem rates_on_bounds_witness:
  "''ON'' \<in> set province_codes \<and> ''2016-10-01'' \<le> ''2026-07-01''
   \<and> federal_count (rates_on (Some ''ON'') ''2026-07-01'') = 1"
  using rates_on_bounds [where prov = "Some ''ON''" and day = "''2026-07-01''"] by (simp add: province_codes_def)

section \<open>The tax of one line\<close>

lemma applied_rates_subset: "r \<in> set (applied_rates cls rates) \<Longrightarrow> r \<in> set rates"
  by (auto simp: applied_rates_def split: if_splits)

lemma distinct_applied_rates:
  "distinct (map rate_code rates) \<Longrightarrow> distinct (map rate_code (applied_rates cls rates))"
  by (simp add: applied_rates_def distinct_map_filter_snd)

lemma line_tax_entries:
  "distinct (map rate_code rates) \<Longrightarrow> line_tax amount cls rates inclusive =
    map (\<lambda>r. (rate_code r, half_up (amount * rate_ppm r) (tax_den (applied_rates cls rates) inclusive)))
      (applied_rates cls rates)"
  using distinct_applied_rates [of rates cls]
  by (simp add: line_tax_def Let_def from_entries_distinct comp_def)

lemma tax_den_pos: "(\<And>r. r \<in> set rates \<Longrightarrow> 0 \<le> rate_ppm r) \<Longrightarrow> 0 < tax_den (applied_rates cls rates) inclusive"
  using sum_list_map_nonneg [of "applied_rates cls rates" rate_ppm] applied_rates_subset
  by (fastforce simp: tax_den_def)

lemma map_of_line_tax:
  assumes "distinct (map rate_code rates)" "r \<in> set (applied_rates cls rates)"
  shows "map_of (line_tax amount cls rates inclusive) (rate_code r) =
    Some (half_up (amount * rate_ppm r) (tax_den (applied_rates cls rates) inclusive))"
proof -
  have "distinct (map fst (line_tax amount cls rates inclusive))"
    using distinct_applied_rates [OF assms(1), of cls]
    by (simp add: line_tax_entries [OF assms(1)] comp_def)
  then show ?thesis
    using assms(2) by (simp add: line_tax_entries [OF assms(1)])
qed

lemma line_tax_none:
  "distinct (map rate_code rates) \<Longrightarrow> c \<notin> rate_code ` set (applied_rates cls rates) \<Longrightarrow>
    map_of (line_tax amount cls rates inclusive) c = None"
  by (auto simp: line_tax_entries map_of_eq_None_iff)

lemma line_tax_minus:
  "distinct (map rate_code rates) \<Longrightarrow>
    line_tax (- amount) cls rates inclusive = map (\<lambda>(c, t). (c, - t)) (line_tax amount cls rates inclusive)"
  by (simp add: line_tax_entries half_up_minus)

text \<open>C1: a line's tax has one entry for every rate its class is charged and no other; the entry is
  within half a cent of the exact share, in both the added and the included reading; a refunded
  (negated) line carries exactly the negated tax.\<close>

theorem line_tax_correct:
  fixes cls :: item_tax_class and amount :: int and inclusive :: bool and rates :: "doc_rate list"
  assumes "distinct (map rate_code rates)" and "\<And>r. r \<in> set rates \<Longrightarrow> 0 \<le> rate_ppm r"
  defines "applied \<equiv> applied_rates cls rates"
  shows "map fst (line_tax amount cls rates inclusive) = map rate_code applied
    \<and> (\<forall>r\<in>set applied. \<exists>t. map_of (line_tax amount cls rates inclusive) (rate_code r) = Some t
        \<and> \<bar>2 * tax_den applied inclusive * t - 2 * (amount * rate_ppm r)\<bar> \<le> tax_den applied inclusive)
    \<and> line_tax (- amount) cls rates inclusive =
        map (\<lambda>(c, t). (c, - t)) (line_tax amount cls rates inclusive)"
  using assms(1) tax_den_pos [OF assms(2)]
  by (simp add: applied_def map_of_line_tax half_up_nearest line_tax_minus)
    (simp add: line_tax_entries comp_def)

theorem line_tax_correct_witness:
  "map_of (line_tax 10000 Standard [\<lparr>rate_code = ''GST'', rate_ppm = 50000\<rparr>, \<lparr>rate_code = ''QST'', rate_ppm = 99750\<rparr>] False) ''QST''
    = Some 998
   \<and> \<bar>2 * 1000000 * 998 - 2 * (10000 * 99750)\<bar> \<le> (1000000 :: int)"
proof -
  let ?rates = "[\<lparr>rate_code = ''GST'', rate_ppm = 50000\<rparr>, \<lparr>rate_code = ''QST'', rate_ppm = 99750\<rparr>]"
  have "distinct (map rate_code ?rates)" and "\<And>r. r \<in> set ?rates \<Longrightarrow> 0 \<le> rate_ppm r" by auto
  from line_tax_correct [OF this, where cls = Standard and inclusive = False and amount = 10000]
  have "\<exists>t. map_of (line_tax 10000 Standard ?rates False) ''QST'' = Some t
      \<and> \<bar>2 * 1000000 * t - 2 * (10000 * 99750)\<bar> \<le> 1000000"
    by (simp add: applied_rates_def tax_den_def del: map_of_eq_Some_iff)
  moreover have "map_of (line_tax 10000 Standard ?rates False) ''QST'' = Some 998"
    by code_simp
  ultimately show ?thesis by simp
qed

section \<open>Tax collected today\<close>

lemma use_tax_setup_registered:
  "ts_registered (use_tax_setup row day) \<longleftrightarrow>
    (case row of None \<Rightarrow> True
     | Some b \<Rightarrow> bt_registered b \<noteq> Some 0 \<and> (\<forall>s. bt_registered_on b = Some s \<longrightarrow> s \<le> day))"
  by (auto simp: use_tax_setup_def Let_def split: option.split bind_split)

lemma use_tax_setup_day_mono:
  "day \<le> day' \<Longrightarrow> ts_registered (use_tax_setup row day) \<Longrightarrow> ts_registered (use_tax_setup row day')"
  by (auto simp: use_tax_setup_registered split: option.splits)

lemma tax_example_exempt:
  "tax_example lbl Exempt prov collect day cents = ([], cents)"
  by (simp add: tax_example_def line_tax_def applied_rates_def from_entries_def Let_def)

end
