(* ===== verification/Pricing.thy ===== *)
theory Pricing
  imports Taxes
begin

text \<open>
  The pricing of invoices and estimates (\<open>app-core/src/domain/billing.ts\<close>): discounts, the split of
  a document discount over the lines, and the totals per line, per tax code and per document.

  Amounts are whole cents. \<open>Math.floor (a / b)\<close> of two integers below \<open>2 ^ 53\<close> is exact (the rounded
  quotient cannot reach the next integer), so it is \<open>div\<close>; a percentage is a \<^typ>\<open>rat\<close>.
\<close>

section \<open>Discounts\<close>

datatype discount_kind = Percent | Amount

record sale_discount =
  disc_kind :: discount_kind
  disc_value :: rat
  disc_reason :: "string option"

definition member_discount_reason :: string where
  "member_discount_reason = ''Member discount''"

definition member_discount :: "int \<Rightarrow> sale_discount" where
  "member_discount bps =
    \<lparr>disc_kind = Percent, disc_value = of_int bps / 100, disc_reason = Some member_discount_reason\<rparr>"

text \<open>\<open>withMemberDiscount\<close>, as the discount a line leaves with.\<close>

definition with_member_discount ::
  "sale_discount option \<Rightarrow> bool \<Rightarrow> int option \<Rightarrow> sale_discount option" where
  "with_member_discount disc retail bps =
    (let member = (case disc of None \<Rightarrow> False | Some d \<Rightarrow> disc_reason d = Some member_discount_reason)
     in if \<not> retail \<or> (disc \<noteq> None \<and> \<not> member) then disc
        else case bps of
               None \<Rightarrow> if member then None else disc
             | Some b \<Rightarrow> Some (member_discount b))"

definition discount_cents :: "int \<Rightarrow> sale_discount option \<Rightarrow> int" where
  "discount_cents base disc =
    (case disc of
       None \<Rightarrow> 0
     | Some d \<Rightarrow>
         if base \<le> 0 then 0
         else min base (max 0 (case disc_kind d of
             Percent \<Rightarrow> \<lfloor>(of_int base * disc_value d * 2 + 100) / 200\<rfloor>
           | Amount \<Rightarrow> \<lfloor>disc_value d\<rfloor>)))" \<comment> \<open>an amount is stored in whole cents\<close>

text \<open>A discount read from its stored columns.\<close>

definition stored_discount ::
  "string option \<Rightarrow> rat option \<Rightarrow> string option \<Rightarrow> sale_discount option" where
  "stored_discount kind val reason =
    (if kind \<noteq> Some ''percent'' \<and> kind \<noteq> Some ''amount'' then None
     else case val of
            None \<Rightarrow> None
          | Some v \<Rightarrow> if v \<le> 0 then None
                     else Some \<lparr>disc_kind = (if kind = Some ''percent'' then Percent else Amount),
                                disc_value = v, disc_reason = reason\<rparr>)"

section \<open>Splitting an amount by weight\<close>

text \<open>The loop that hands the left-over cents out in the order of the remainders.\<close>

fun hand_out :: "(nat \<times> int) list \<Rightarrow> int \<Rightarrow> int list \<Rightarrow> int list" where
  "hand_out [] left parts = parts"
| "hand_out ((i, r) # order) left parts =
    (if left \<le> 0 then parts else hand_out order (left - 1) (parts[i := parts ! i + 1]))"

definition remainder_order :: "int \<Rightarrow> int list \<Rightarrow> (nat \<times> int) list" where
  "remainder_order amt weights =
    sort_key (\<lambda>(i, r). (- r, i))
      (map (\<lambda>(i, w). (i, js_rem (amt * w) (sum_list weights))) (enumerate 0 weights))"

definition floor_parts :: "int \<Rightarrow> int list \<Rightarrow> int list" where
  "floor_parts amt weights = map (\<lambda>w. (amt * w) div sum_list weights) weights"

definition allocate :: "int \<Rightarrow> int list \<Rightarrow> int list" where
  "allocate amt weights =
    (if amt = 0 \<or> sum_list weights \<le> 0 then map (\<lambda>_. 0) weights
     else let parts = floor_parts amt weights
          in hand_out (remainder_order amt weights) (amt - sum_list parts) parts)"

section \<open>Pricing a document\<close>

record priced_line =
  pl_amount :: int
  pl_class :: item_tax_class
  pl_included :: bool

record line_pricing =
  lp_tax_by_code :: "(string, int) js_map"
  lp_tax :: int
  lp_base :: int
  lp_codes :: "string list"

record doc_tax =
  dt_code :: string
  dt_label :: string
  dt_base :: int
  dt_cents :: int

record doc_pricing =
  dp_lines :: "line_pricing list"
  dp_taxes :: "doc_tax list"
  dp_subtotal :: int
  dp_tax :: int
  dp_total :: int

definition doc_rates :: "doc_rate list \<Rightarrow> bool \<Rightarrow> doc_rate list" where
  "doc_rates rates registered = (if registered then rates else [])"

definition price_line :: "doc_rate list \<Rightarrow> bool \<Rightarrow> priced_line \<Rightarrow> line_pricing" where
  "price_line rates inclusive l =
    (let by_code = line_tax (pl_amount l) (pl_class l) rates inclusive;
         tax = sum_list (map snd by_code)
     in \<lparr>lp_tax_by_code = by_code, lp_tax = tax,
         lp_base = (if inclusive then pl_amount l - tax else pl_amount l),
         lp_codes = map fst by_code\<rparr>)"

definition code_tax :: "line_pricing \<Rightarrow> string \<Rightarrow> int" where
  "code_tax t c = (case map_of (lp_tax_by_code t) c of None \<Rightarrow> 0 | Some x \<Rightarrow> x)"

definition tax_row :: "(string \<Rightarrow> rat \<Rightarrow> string) \<Rightarrow> line_pricing list \<Rightarrow> doc_rate \<Rightarrow> doc_tax" where
  "tax_row rate_label kept r =
    (let on = filter (\<lambda>t. map_of (lp_tax_by_code t) (rate_code r) \<noteq> None) kept
     in \<lparr>dt_code = rate_code r, dt_label = rate_label (rate_code r) (of_int (rate_ppm r) / 100),
         dt_base = sum_list (map lp_base on),
         dt_cents = sum_list (map (\<lambda>t. code_tax t (rate_code r)) on)\<rparr>)"

definition price_doc ::
  "(string \<Rightarrow> rat \<Rightarrow> string) \<Rightarrow> priced_line list \<Rightarrow> doc_rate list \<Rightarrow> bool \<Rightarrow> doc_pricing" where
  "price_doc rate_label lines rates inclusive =
    (let priced = map (price_line rates inclusive) lines;
         kept = map snd (filter (pl_included \<circ> fst) (zip lines priced));
         taxes = filter (\<lambda>t. dt_cents t \<noteq> 0) (map (tax_row rate_label kept) rates);
         subtotal = sum_list (map lp_base kept);
         tax = sum_list (map dt_cents taxes)
     in \<lparr>dp_lines = priced, dp_taxes = taxes, dp_subtotal = subtotal, dp_tax = tax,
         dp_total = subtotal + tax\<rparr>)"

text \<open>The taxes of an issued document: the journal's cents, with the computed labels and bases.\<close>

definition issued_taxes ::
  "(string \<Rightarrow> string) \<Rightarrow> doc_tax list \<Rightarrow> (string \<times> int) list \<Rightarrow> doc_tax list" where
  "issued_taxes tax_name taxes journal =
    (if journal = [] then taxes
     else map (\<lambda>(c, cents).
         case find (\<lambda>x. dt_code x = c) taxes of
           None \<Rightarrow> \<lparr>dt_code = c, dt_label = tax_name c, dt_base = 0, dt_cents = cents\<rparr>
         | Some x \<Rightarrow> \<lparr>dt_code = c, dt_label = dt_label x, dt_base = dt_base x, dt_cents = cents\<rparr>)
       (filter (\<lambda>(c, cents). cents \<noteq> 0) journal))"

section \<open>Discounts never exceed their base\<close>

lemma discount_cents_bounds: "0 \<le> discount_cents base disc" "discount_cents base disc \<le> max 0 base"
  by (auto simp: discount_cents_def split: option.split)

lemma discount_cents_le: "0 \<le> base \<Longrightarrow> discount_cents base disc \<le> base"
  using discount_cents_bounds(2) [of base disc] by simp

lemma percent_half_up:
  "\<bar>of_int \<lfloor>(x * 2 + 100) / 200\<rfloor> - x / 100\<bar> \<le> (1 / 2 :: rat)"
proof -
  have "(x * 2 + 100) / 200 = x / 100 + 1 / 2" by (simp add: field_simps)
  then show ?thesis by linarith
qed

lemma with_member_discount_idem:
  "with_member_discount (with_member_discount disc retail bps) retail bps = with_member_discount disc retail bps"
  by (auto simp: with_member_discount_def member_discount_def Let_def split: option.split)

section \<open>The split adds up\<close>

lemma length_hand_out [simp]: "length (hand_out order left parts) = length parts"
  by (induction order left parts rule: hand_out.induct) auto

lemma sum_list_bump:
  "i < length xs \<Longrightarrow> sum_list (xs[i := xs ! i + 1]) = sum_list xs + (1 :: int)"
  by (induction xs arbitrary: i) (auto split: nat.split)

lemma sum_hand_out:
  "(\<forall>p\<in>set order. fst p < length parts) \<Longrightarrow> 0 \<le> left \<Longrightarrow> left \<le> int (length order) \<Longrightarrow>
    sum_list (hand_out order left parts) = sum_list parts + left"
  by (induction order left parts rule: hand_out.induct) (auto simp: sum_list_bump)

text \<open>A part keeps its floor, and only one of the first \<open>left\<close> parts of the order gains a cent.\<close>

lemma hand_out_nth:
  "distinct (map fst order) \<Longrightarrow> (\<forall>p\<in>set order. fst p < length parts) \<Longrightarrow> j < length parts \<Longrightarrow>
    hand_out order left parts ! j =
      parts ! j + (if j \<in> fst ` set (take (nat left) order) then 1 else 0)"
proof (induction order left parts rule: hand_out.induct)
  case (2 i r order left parts)
  show ?case
  proof (cases "left \<le> 0")
    case False
    then obtain n where n: "nat left = Suc n" "nat (left - 1) = n"
      by (metis gr0_implies_Suc nat_diff_distrib' not_le diff_Suc_1 nat_1 zero_less_nat_eq zless_nat_eq_int_zless
          One_nat_def nat_minus_as_int zero_le_one less_imp_le)
    have "i \<notin> fst ` set (take n order)"
      using 2(2) by (auto dest: in_set_takeD)
    then show ?thesis
      using 2 False n by (auto simp: nth_list_update)
  qed simp
qed simp

lemma length_allocate [simp]: "length (allocate amt weights) = length weights"
  by (simp add: allocate_def floor_parts_def Let_def)

lemma remainder_order_mset:
  "mset (remainder_order amt weights) =
    mset (map (\<lambda>(i, w). (i, js_rem (amt * w) (sum_list weights))) (enumerate 0 weights))"
  by (simp add: remainder_order_def)

lemma remainder_order_set:
  "set (remainder_order amt weights) =
    {(i, js_rem (amt * weights ! i) (sum_list weights)) | i. i < length weights}"
  using arg_cong [where f = set_mset, OF remainder_order_mset [of amt weights]]
  by (force simp: set_mset_mset in_set_conv_nth nth_enumerate_eq image_iff)

lemma remainder_order_distinct: "distinct (map fst (remainder_order amt weights))"
proof -
  let ?es = "map (\<lambda>(i, w). (i, js_rem (amt * w) (sum_list weights))) (enumerate 0 weights)"
  have "mset (map fst (remainder_order amt weights)) = mset (map fst ?es)"
    unfolding mset_map remainder_order_def mset_sort ..
  moreover have "map fst ?es = [0..<length weights]"
    by (simp add: comp_def case_prod_beta map_fst_enumerate [of 0 weights, simplified comp_def])
  ultimately have "mset (map fst (remainder_order amt weights)) = mset [0..<length weights]"
    by (simp only:)
  then show ?thesis by (metis mset_eq_imp_distinct_iff distinct_upt)
qed

lemma length_remainder_order [simp]: "length (remainder_order amt weights) = length weights"
  by (simp add: remainder_order_def)

lemma sum_floor_parts:
  "sum_list weights * sum_list (floor_parts amt weights)
    + sum_list (map (\<lambda>w. (amt * w) mod sum_list weights) weights) = amt * sum_list weights"
proof -
  have "S * sum_list (map (\<lambda>w. (amt * w) div S) ws) + sum_list (map (\<lambda>w. (amt * w) mod S) ws)
      = amt * sum_list ws" for S and ws :: "int list"
    by (induction ws) (auto simp: algebra_simps)
  then show ?thesis by (simp add: floor_parts_def)
qed

lemma sum_remainder_order:
  assumes "0 \<le> amt" "\<And>w. w \<in> set weights \<Longrightarrow> 0 \<le> w" "0 < sum_list weights"
  shows "sum_list (map snd (remainder_order amt weights)) =
    sum_list (map (\<lambda>w. (amt * w) mod sum_list weights) weights)"
proof -
  let ?S = "sum_list weights"
  have "mset (map snd (remainder_order amt weights))
      = mset (map snd (map (\<lambda>(i, w). (i, js_rem (amt * w) ?S)) (enumerate 0 weights)))"
    unfolding mset_map remainder_order_def mset_sort ..
  also have "map snd (map (\<lambda>(i, w). (i, js_rem (amt * w) ?S)) (enumerate 0 weights))
      = map (\<lambda>w. js_rem (amt * w) ?S) (map snd (enumerate 0 weights))"
    unfolding map_map by (rule map_cong) auto
  also have "map snd (enumerate 0 weights) = weights" by (rule map_snd_enumerate)
  also have "map (\<lambda>w. js_rem (amt * w) ?S) weights = map (\<lambda>w. (amt * w) mod ?S) weights"
    using assms by (simp add: js_rem_nonneg)
  finally show ?thesis by (metis sum_mset_sum_list)
qed

text \<open>The cents left after flooring are fewer than the parts.\<close>

lemma left_over_bounds:
  assumes pos: "0 < sum_list weights"
  shows "0 \<le> amt - sum_list (floor_parts amt weights)"
    and "amt - sum_list (floor_parts amt weights) \<le> int (length weights)"
proof -
  let ?S = "sum_list weights" and ?left = "amt - sum_list (floor_parts amt weights)"
  let ?R = "sum_list (map (\<lambda>w. (amt * w) mod sum_list weights) weights)"
  have R: "?S * ?left = ?R"
    using sum_floor_parts [of weights amt] by (simp add: algebra_simps)
  have "0 \<le> ?R" using pos by (intro sum_list_map_nonneg) simp
  with R pos show "0 \<le> ?left" by (metis mult_less_0_iff not_le not_less_iff_gr_or_eq)
  have "sum_list (map (\<lambda>w. (amt * w) mod S) ws) \<le> S * int (length ws)" if "0 < S" for S and ws :: "int list"
  proof (induction ws)
    case (Cons w ws)
    have "(amt * w) mod S < S" using that by simp
    with Cons show ?case by (simp add: algebra_simps)
  qed simp
  from this [OF pos] R have "?S * ?left \<le> ?S * int (length weights)" by simp
  with pos show "?left \<le> int (length weights)" by simp
qed

lemma sum_allocate:
  assumes "0 < sum_list weights"
  shows "sum_list (allocate amt weights) = amt"
proof (cases "amt = 0")
  case False
  have "\<forall>p\<in>set (remainder_order amt weights). fst p < length (floor_parts amt weights)"
    by (auto simp: remainder_order_set floor_parts_def)
  from sum_hand_out [OF this] left_over_bounds [OF assms, of amt] False assms
  show ?thesis by (simp add: allocate_def Let_def)
qed (simp add: allocate_def)

section \<open>No part exceeds its weight\<close>

lemma remainder_order_sorted: "sorted (map (\<lambda>(i, r). (- r, i)) (remainder_order amt weights))"
  by (simp add: remainder_order_def)

lemma remainder_order_desc:
  assumes "m \<le> n" "n < length (remainder_order amt weights)"
  shows "snd (remainder_order amt weights ! n) \<le> snd (remainder_order amt weights ! m)"
  using sorted_nth_mono [OF remainder_order_sorted [of amt weights] assms(1)] assms
  by (auto simp: case_prod_beta less_eq_prod_def)

lemma sum_le_count:
  fixes xs :: "int list"
  assumes "\<And>x. x \<in> set xs \<Longrightarrow> 0 \<le> x \<and> x < S"
  shows "sum_list xs \<le> S * int (length (filter (\<lambda>x. 0 < x) xs))"
  using assms
proof (induction xs)
  case (Cons x xs)
  then have "x < S" "0 \<le> x" "sum_list xs \<le> S * int (length (filter (\<lambda>x. 0 < x) xs))" by auto
  then show ?case by (cases "0 < x") (auto simp: algebra_simps)
qed simp

lemma length_filter_desc:
  fixes xs :: "int list"
  assumes "\<And>i j. i \<le> j \<Longrightarrow> j < length xs \<Longrightarrow> xs ! j \<le> xs ! i" and "m < length xs" "xs ! m \<le> 0"
  shows "length (filter (\<lambda>x. 0 < x) xs) \<le> m"
proof -
  have "x \<le> 0" if "x \<in> set (drop m xs)" for x
  proof -
    from that obtain i where "m + i < length xs" "x = xs ! (m + i)"
      by (auto simp: in_set_conv_nth) (metis add.commute less_diff_conv)
    then show ?thesis using assms(1) [of m "m + i"] assms(3) by simp
  qed
  then have "filter (\<lambda>x. 0 < x) (drop m xs) = []" by (auto simp: filter_empty_conv not_less)
  then have "filter (\<lambda>x. 0 < x) xs = filter (\<lambda>x. 0 < x) (take m xs)"
    by (metis append_Nil2 append_take_drop_id filter_append)
  moreover have "length (filter (\<lambda>x. 0 < x) (take m xs)) \<le> length (take m xs)"
    by (rule length_filter_le)
  ultimately show ?thesis by simp
qed

text \<open>Only a part with a remainder gains a cent.\<close>

lemma bumped_remainder:
  assumes nonneg: "0 \<le> amt" "\<And>w. w \<in> set weights \<Longrightarrow> 0 \<le> w" and pos: "0 < sum_list weights"
    and m: "m < length weights" "int m < amt - sum_list (floor_parts amt weights)"
  shows "0 < snd (remainder_order amt weights ! m)"
proof (rule ccontr)
  let ?S = "sum_list weights" and ?rs = "map snd (remainder_order amt weights)"
  assume "\<not> 0 < snd (remainder_order amt weights ! m)"
  then have "length (filter (\<lambda>x. 0 < x) ?rs) \<le> m"
    using m(1) remainder_order_desc by (intro length_filter_desc) auto
  moreover have "0 \<le> r \<and> r < ?S" if "r \<in> set ?rs" for r
    using that assms by (auto simp: remainder_order_set js_rem_nonneg)
  then have "sum_list ?rs \<le> ?S * int (length (filter (\<lambda>x. 0 < x) ?rs))"
    by (rule sum_le_count)
  ultimately have "sum_list ?rs \<le> ?S * int m"
    using pos by (meson mult_left_mono of_nat_mono order.trans less_imp_le)
  moreover have "?S * (amt - sum_list (floor_parts amt weights)) = sum_list ?rs"
    using sum_floor_parts [of weights amt] sum_remainder_order [OF nonneg pos]
    by (simp add: algebra_simps)
  ultimately have "amt - sum_list (floor_parts amt weights) \<le> int m"
    using pos by (metis mult_le_cancel_left_pos)
  with m show False by simp
qed

lemma allocate_nth:
  assumes "0 < sum_list weights" "amt \<noteq> 0" "j < length weights"
  shows "allocate amt weights ! j = (amt * weights ! j) div sum_list weights +
    (if j \<in> fst ` set (take (nat (amt - sum_list (floor_parts amt weights))) (remainder_order amt weights))
     then 1 else 0)"
proof -
  have "\<forall>p\<in>set (remainder_order amt weights). fst p < length (floor_parts amt weights)"
    by (auto simp: remainder_order_set floor_parts_def)
  from hand_out_nth [OF remainder_order_distinct this, of j] assms show ?thesis
    by (simp add: allocate_def Let_def floor_parts_def)
qed

lemma allocate_nonneg:
  assumes nonneg: "0 \<le> amt" "\<And>w. w \<in> set weights \<Longrightarrow> 0 \<le> w" and p: "p \<in> set (allocate amt weights)"
  shows "0 \<le> p"
proof (cases "amt = 0 \<or> sum_list weights \<le> 0")
  case True
  with p show ?thesis by (auto simp: allocate_def)
next
  case False
  from p obtain j where j: "j < length weights" "p = allocate amt weights ! j"
    by (auto simp: in_set_conv_nth)
  have "0 \<le> (amt * weights ! j) div sum_list weights"
    using False nonneg j by (simp add: pos_imp_zdiv_nonneg_iff)
  with False j show ?thesis by (simp add: allocate_nth)
qed

lemma allocate_nth_bounds:
  assumes nonneg: "0 \<le> amt" "\<And>w. w \<in> set weights \<Longrightarrow> 0 \<le> w"
    and le: "amt \<le> sum_list weights" and j: "j < length weights"
  shows "0 \<le> allocate amt weights ! j \<and> allocate amt weights ! j \<le> weights ! j"
proof (cases "amt = 0 \<or> sum_list weights \<le> 0")
  case True
  then show ?thesis using nonneg j by (auto simp: allocate_def)
next
  case False
  let ?S = "sum_list weights" and ?w = "weights ! j"
  let ?q = "(amt * ?w) div ?S"
  have S: "0 < ?S" and w: "0 \<le> ?w" using False nonneg j by auto
  have le_w: "amt * ?w \<le> ?S * ?w" using le w by (simp add: mult_right_mono)
  have q: "0 \<le> ?q" "?q \<le> ?w"
    using S w nonneg(1) zdiv_mono1 [OF le_w S] by (simp_all add: pos_imp_zdiv_nonneg_iff)
  show ?thesis
  proof (cases "j \<in> fst ` set (take (nat (amt - sum_list (floor_parts amt weights))) (remainder_order amt weights))")
    case True
    then obtain m where m: "m < length weights" "int m < amt - sum_list (floor_parts amt weights)"
      and jm: "fst (remainder_order amt weights ! m) = j"
      by (auto simp: in_set_conv_nth)
    have "remainder_order amt weights ! m \<in> set (remainder_order amt weights)"
      using m by simp
    then have "snd (remainder_order amt weights ! m) = js_rem (amt * ?w) ?S"
      using jm by (auto simp: remainder_order_set)
    with bumped_remainder [OF nonneg S m] have "0 < (amt * ?w) mod ?S"
      using S w nonneg(1) by (simp add: js_rem_nonneg)
    then have "?S * ?q < amt * ?w"
      by (metis less_add_same_cancel1 mult_div_mod_eq)
    then have "?S * ?q < ?S * ?w" using le_w by linarith
    then have "?q < ?w" using S by simp
    with True q False j S show ?thesis by (simp add: allocate_nth)
  qed (use q False j S in \<open>simp add: allocate_nth\<close>)
qed

text \<open>C2: splitting an amount of cents over weights gives as many parts as weights; they add up to
  the amount exactly; each part is its exact share rounded down, or one cent more; and an amount
  no larger than the weights never takes more from a part than its weight.\<close>

theorem allocate_fair:
  assumes "\<And>w. w \<in> set weights \<Longrightarrow> 0 \<le> w" and "0 < sum_list weights" and "0 \<le> amt"
  shows "length (allocate amt weights) = length weights
    \<and> sum_list (allocate amt weights) = amt
    \<and> (\<forall>j<length weights.
        allocate amt weights ! j - (amt * weights ! j) div sum_list weights \<in> {0, 1}
        \<and> (amt \<le> sum_list weights \<longrightarrow> 0 \<le> allocate amt weights ! j \<and> allocate amt weights ! j \<le> weights ! j))"
proof (cases "amt = 0")
  case True
  then show ?thesis using assms by (auto simp: allocate_def)
next
  case False
  with assms show ?thesis
    using allocate_nth_bounds [OF assms(3,1)] by (auto simp: sum_allocate allocate_nth)
qed

theorem allocate_fair_witness:
  "allocate 100 [1, 1, 1] = [34, 33, 33] \<and> sum_list (allocate 100 [1, 1, 1]) = 100"
proof -
  have "\<And>w. w \<in> set [1, 1, 1 :: int] \<Longrightarrow> 0 \<le> w" "0 < sum_list [1, 1, 1 :: int]" "0 \<le> (100 :: int)"
    by auto
  from allocate_fair [OF this] have "sum_list (allocate 100 [1, 1, 1]) = 100" by blast
  moreover have "allocate 100 [1, 1, 1] = [34, 33, 33]" by code_simp
  ultimately show ?thesis by simp
qed

section \<open>The interface of a split\<close>

text \<open>
  What the sale and the document composer rely on when they share a discount over the lines: as
  many parts as weights, an exact sum, and no part outside its weight.
\<close>

locale fair_split =
  fixes split :: "int \<Rightarrow> int list \<Rightarrow> int list"
  assumes split_length: "length (split amt ws) = length ws"
    and split_sum: "(\<And>w. w \<in> set ws \<Longrightarrow> 0 \<le> w) \<Longrightarrow> 0 \<le> amt \<Longrightarrow> amt \<le> sum_list ws \<Longrightarrow>
      sum_list (split amt ws) = amt"
    and split_part: "(\<And>w. w \<in> set ws \<Longrightarrow> 0 \<le> w) \<Longrightarrow> 0 \<le> amt \<Longrightarrow> amt \<le> sum_list ws \<Longrightarrow>
      j < length ws \<Longrightarrow> 0 \<le> split amt ws ! j \<and> split amt ws ! j \<le> ws ! j"
begin

lemma net_sum:
  assumes "\<And>w. w \<in> set ws \<Longrightarrow> 0 \<le> w" "0 \<le> amt" "amt \<le> sum_list ws"
  shows "sum_list (map2 (-) ws (split amt ws)) = sum_list ws - amt"
  using split_sum [OF assms] by (simp add: sum_list_map2_minus split_length)

lemma net_nonneg:
  assumes "\<And>w. w \<in> set ws \<Longrightarrow> 0 \<le> w" "0 \<le> amt" "amt \<le> sum_list ws"
    and "x \<in> set (map2 (-) ws (split amt ws))"
  shows "0 \<le> x"
  using split_part [OF assms(1-3)] assms(4) by (auto simp: in_set_conv_nth split_length)

lemma share_nonneg:
  assumes "\<And>w. w \<in> set ws \<Longrightarrow> 0 \<le> w" "0 \<le> amt" "amt \<le> sum_list ws" "x \<in> set (split amt ws)"
  shows "0 \<le> x"
  using split_part [OF assms(1-3)] assms(4) by (auto simp: in_set_conv_nth split_length)

end

interpretation alloc: fair_split allocate
proof (unfold_locales, goal_cases)
  case (2 ws amt)
  have "0 \<le> sum_list ws" using 2(1) by (rule sum_list_int_nonneg)
  with 2 show ?case
    by (cases "sum_list ws = 0") (auto simp: sum_allocate, simp add: allocate_def)
next
  case (3 ws amt j)
  then show ?case by (intro allocate_nth_bounds) auto
qed simp

section \<open>A document's totals\<close>

lemma code_tax_line:
  assumes "distinct (map rate_code rates)"
  shows "sum_list (map (\<lambda>r. code_tax (price_line rates inclusive l) (rate_code r)) rates)
    = lp_tax (price_line rates inclusive l)"
proof -
  let ?applied = "applied_rates (pl_class l) rates"
  let ?tax = "\<lambda>r. half_up (pl_amount l * rate_ppm r) (tax_den ?applied inclusive)"
  have inj: "r \<in> set ?applied" if "r \<in> set rates" "rate_code r \<in> rate_code ` set ?applied" for r
    using that distinct_map_eq [OF assms] applied_rates_subset by blast
  have "code_tax (price_line rates inclusive l) (rate_code r) = (if r \<in> set ?applied then ?tax r else 0)"
    if "r \<in> set rates" for r
  proof (cases "r \<in> set ?applied")
    case True
    with assms show ?thesis
      by (simp add: code_tax_def price_line_def Let_def map_of_line_tax)
  next
    case False
    with that inj have "map_of (line_tax (pl_amount l) (pl_class l) rates inclusive) (rate_code r) = None"
      by (intro line_tax_none [OF assms]) blast
    with False show ?thesis by (simp add: code_tax_def price_line_def Let_def)
  qed
  then have "sum_list (map (\<lambda>r. code_tax (price_line rates inclusive l) (rate_code r)) rates)
      = sum_list (map (\<lambda>r. if r \<in> set ?applied then ?tax r else 0) rates)"
    by (simp cong: map_cong)
  also have "\<dots> = sum_list (map ?tax (filter (\<lambda>r. r \<in> set ?applied) rates))"
    by (rule sum_list_map_if)
  also have "filter (\<lambda>r. r \<in> set ?applied) rates = ?applied"
    by (auto simp: applied_rates_def intro!: filter_cong)
  also have "sum_list (map ?tax ?applied) = lp_tax (price_line rates inclusive l)"
    by (simp add: price_line_def Let_def line_tax_entries [OF assms] comp_def)
  finally show ?thesis .
qed

lemma tax_row_cents:
  "dt_cents (tax_row lbl kept r) = sum_list (map (\<lambda>t. code_tax t (rate_code r)) kept)"
  unfolding tax_row_def Let_def doc_tax.simps
  by (rule sum_list_filter_zero) (simp add: code_tax_def)

lemma kept_lines:
  "map snd (filter (pl_included \<circ> fst) (zip lines (map f lines))) = map f (filter pl_included lines)"
  by (induction lines) auto

lemma price_doc_tax:
  assumes "distinct (map rate_code rates)"
  shows "dp_tax (price_doc lbl lines rates inclusive)
    = sum_list (map (\<lambda>l. lp_tax (price_line rates inclusive l)) (filter pl_included lines))"
proof -
  let ?kept = "map (price_line rates inclusive) (filter pl_included lines)"
  have "dp_tax (price_doc lbl lines rates inclusive)
      = sum_list (map dt_cents (filter (\<lambda>t. dt_cents t \<noteq> 0) (map (tax_row lbl ?kept) rates)))"
    unfolding price_doc_def Let_def kept_lines by simp
  also have "\<dots> = sum_list (map dt_cents (map (tax_row lbl ?kept) rates))"
    by (rule sum_list_filter_zero) simp
  also have "\<dots> = sum_list (map (\<lambda>r. sum_list (map (\<lambda>t. code_tax t (rate_code r)) ?kept)) rates)"
    by (simp add: tax_row_cents comp_def)
  also have "\<dots> = sum_list (map (\<lambda>t. sum_list (map (\<lambda>r. code_tax t (rate_code r)) rates)) ?kept)"
    by (rule sum_list_map_swap)
  also have "\<dots> = sum_list (map (\<lambda>l. lp_tax (price_line rates inclusive l)) (filter pl_included lines))"
    by (simp add: code_tax_line [OF assms] comp_def)
  finally show ?thesis .
qed

lemma price_doc_subtotal:
  "dp_subtotal (price_doc lbl lines rates inclusive)
    = sum_list (map (\<lambda>l. lp_base (price_line rates inclusive l)) (filter pl_included lines))"
  unfolding price_doc_def Let_def kept_lines by (simp add: comp_def)

lemma price_doc_total:
  "dp_total (price_doc lbl lines rates inclusive)
    = dp_subtotal (price_doc lbl lines rates inclusive) + dp_tax (price_doc lbl lines rates inclusive)"
  by (simp add: price_doc_def Let_def)

lemma price_doc_base_subtotal:
  "dp_subtotal (price_doc lbl lines rates False) = sum_list (map pl_amount (filter pl_included lines))"
  by (simp add: price_doc_subtotal price_line_def Let_def)

lemma price_doc_inclusive_total:
  assumes "distinct (map rate_code rates)"
  shows "dp_total (price_doc lbl lines rates True) = sum_list (map pl_amount (filter pl_included lines))"
proof -
  have "sum_list (map (\<lambda>l. lp_base (price_line rates True l)) ls)
      + sum_list (map (\<lambda>l. lp_tax (price_line rates True l)) ls) = sum_list (map pl_amount ls)" for ls
    by (induction ls) (auto simp: price_line_def Let_def)
  then show ?thesis by (simp add: price_doc_tax [OF assms] price_doc_subtotal price_doc_total)
qed

text \<open>C3: a document's tax by code is the tax of its included lines, no cent lost between the two
  sums; prices that include tax total exactly the amounts of the included lines, and prices before
  tax total those amounts plus the lines' tax.\<close>

theorem price_doc_reconciles:
  assumes "distinct (map rate_code rates)"
  shows "dp_tax (price_doc lbl lines rates inclusive)
      = sum_list (map (\<lambda>l. lp_tax (price_line rates inclusive l)) (filter pl_included lines))
    \<and> dp_total (price_doc lbl lines rates True) = sum_list (map pl_amount (filter pl_included lines))
    \<and> dp_subtotal (price_doc lbl lines rates False) = sum_list (map pl_amount (filter pl_included lines))
    \<and> dp_total (price_doc lbl lines rates inclusive)
        = dp_subtotal (price_doc lbl lines rates inclusive) + dp_tax (price_doc lbl lines rates inclusive)"
  by (intro conjI price_doc_tax [OF assms] price_doc_inclusive_total [OF assms]
      price_doc_base_subtotal price_doc_total)

theorem price_doc_reconciles_witness:
  "dp_total (price_doc (\<lambda>c r. c)
      [\<lparr>pl_amount = 1130, pl_class = Standard, pl_included = True\<rparr>,
       \<lparr>pl_amount = 500, pl_class = Exempt, pl_included = True\<rparr>,
       \<lparr>pl_amount = 99, pl_class = Standard, pl_included = False\<rparr>]
      (rates_on (Some ''ON'') ''2026-07-01'') True) = 1630"
proof -
  let ?lines = "[\<lparr>pl_amount = 1130, pl_class = Standard, pl_included = True\<rparr>,
       \<lparr>pl_amount = 500, pl_class = Exempt, pl_included = True\<rparr>,
       \<lparr>pl_amount = 99, pl_class = Standard, pl_included = False\<rparr>]"
  have "distinct (map rate_code (rates_on (Some ''ON'') ''2026-07-01''))" by simp
  from price_doc_reconciles [OF this]
  have "dp_total (price_doc (\<lambda>c r. c) ?lines (rates_on (Some ''ON'') ''2026-07-01'') True)
      = sum_list (map pl_amount (filter pl_included ?lines))" by blast
  then show ?thesis by simp
qed

section \<open>Signs\<close>

lemma price_line_tax_nonneg:
  assumes "\<And>r. r \<in> set rates \<Longrightarrow> 0 \<le> rate_ppm r" "distinct (map rate_code rates)" "0 \<le> pl_amount l"
  shows "0 \<le> lp_tax (price_line rates inclusive l)"
proof -
  have "0 \<le> half_up (pl_amount l * rate_ppm r) (tax_den (applied_rates (pl_class l) rates) inclusive)"
    if "r \<in> set (applied_rates (pl_class l) rates)" for r
    using that assms(1,3) applied_rates_subset tax_den_pos [OF assms(1)]
    by (intro half_up_nonneg mult_nonneg_nonneg) blast+
  then show ?thesis
    by (auto simp: price_line_def Let_def line_tax_entries [OF assms(2)] comp_def
        intro!: sum_list_map_nonneg)
qed

lemma price_doc_tax_nonneg:
  assumes "\<And>r. r \<in> set rates \<Longrightarrow> 0 \<le> rate_ppm r" "distinct (map rate_code rates)"
    and "\<And>l. l \<in> set lines \<Longrightarrow> 0 \<le> pl_amount l"
  shows "0 \<le> dp_tax (price_doc lbl lines rates inclusive)"
  unfolding price_doc_tax [OF assms(2)]
  using assms by (intro sum_list_map_nonneg price_line_tax_nonneg) auto

end
