(* ===== verification/Sale.thy ===== *)
theory Sale
  imports Pricing
begin

text \<open>
  The register's arithmetic (\<open>app-core/src/domain/pos.ts\<close>): \<open>priceSale\<close> prices a ticket (line
  discounts, then the sale discount shared by value, then tax on the net), \<open>issuedSale\<close> shows a
  completed sale as issued, \<open>tipShares\<close> divides a tip, and \<open>saleTotalLines\<close> lists the totals.

  Captions come from the string catalogue, the argument \<open>d\<close> from a catalogue key to its text.
\<close>

section \<open>Tickets\<close>

record sale_line =
  sl_key :: string
  sl_item :: "string option"
  sl_kind :: string
  sl_description :: string
  sl_unit :: int
  sl_quantity :: rat
  sl_tax_class :: string
  sl_staff :: "string option"
  sl_booking :: "string option"
  sl_color :: "string option"
  sl_image :: "string option"
  sl_discount :: "sale_discount option"

record sale_priced_line =
  pr_line :: sale_line
  pr_gross :: int
  pr_line_discount :: int
  pr_sale_share :: int
  pr_net :: int
  pr_tax :: int

record sale_totals =
  st_gross :: int
  st_line_discount :: int
  st_sale_discount :: int
  st_discount :: int
  st_subtotal :: int
  st_taxes :: "doc_tax list"
  st_tax :: int
  st_tip :: int
  st_total :: int
  st_deposit :: int
  st_gift_card :: int
  st_due :: int

record priced_sale =
  ps_lines :: "sale_priced_line list"
  ps_totals :: sale_totals

datatype tip_choice = Tip_None | Tip_Percent int | Tip_Custom int

section \<open>Pricing a ticket\<close>

fun tip_cents_for :: "tip_choice \<Rightarrow> int \<Rightarrow> int" where
  "tip_cents_for (Tip_Percent pct) subtotal = js_round (of_int (subtotal * pct) / 100)"
| "tip_cents_for (Tip_Custom cents) subtotal = max 0 cents"
| "tip_cents_for Tip_None subtotal = 0"

definition sale_gross :: "sale_line list \<Rightarrow> int list" where
  "sale_gross lines = map (\<lambda>l. js_round (of_int (sl_unit l) * sl_quantity l)) lines"

definition sale_line_off :: "sale_line list \<Rightarrow> int list" where
  "sale_line_off lines = map2 (\<lambda>l g. discount_cents g (sl_discount l)) lines (sale_gross lines)"

definition sale_bases :: "sale_line list \<Rightarrow> int list" where
  "sale_bases lines = map2 (-) (sale_gross lines) (sale_line_off lines)"

definition sale_off :: "sale_line list \<Rightarrow> sale_discount option \<Rightarrow> int" where
  "sale_off lines disc = discount_cents (sum_list (sale_bases lines)) disc"

definition sale_shares :: "sale_line list \<Rightarrow> sale_discount option \<Rightarrow> int list" where
  "sale_shares lines disc = allocate (sale_off lines disc) (sale_bases lines)"

definition sale_net :: "sale_line list \<Rightarrow> sale_discount option \<Rightarrow> int list" where
  "sale_net lines disc = map2 (-) (sale_bases lines) (sale_shares lines disc)"

definition sale_doc ::
  "(string \<Rightarrow> rat \<Rightarrow> string) \<Rightarrow> sale_line list \<Rightarrow> sale_discount option \<Rightarrow> doc_rate list \<Rightarrow> bool \<Rightarrow> doc_pricing" where
  "sale_doc rate_label lines disc rates registered =
    price_doc rate_label
      (map2 (\<lambda>l n. \<lparr>pl_amount = n, pl_class = as_tax_class (Some (sl_tax_class l)), pl_included = True\<rparr>)
        lines (sale_net lines disc))
      (doc_rates rates registered) False"

definition price_sale ::
  "(string \<Rightarrow> rat \<Rightarrow> string) \<Rightarrow> sale_line list \<Rightarrow> sale_discount option \<Rightarrow> doc_rate list \<Rightarrow> bool
    \<Rightarrow> tip_choice \<Rightarrow> int \<Rightarrow> int \<Rightarrow> priced_sale" where
  "price_sale rate_label lines disc rates registered tip deposit_cents gift_cents =
    (let gross = sale_gross lines; line_off = sale_line_off lines; off = sale_off lines disc;
         shares = sale_shares lines disc; net = sale_net lines disc;
         doc = sale_doc rate_label lines disc rates registered;
         tip_cents = tip_cents_for tip (dp_subtotal doc);
         total_cents = dp_total doc + tip_cents;
         deposit = min deposit_cents (dp_total doc);
         gift = min gift_cents (total_cents - deposit)
     in \<lparr>ps_lines = map (\<lambda>(l, g, lo, sh, n, p).
              \<lparr>pr_line = l, pr_gross = g, pr_line_discount = lo, pr_sale_share = sh,
               pr_net = n, pr_tax = lp_tax p\<rparr>)
            (zip lines (zip gross (zip line_off (zip shares (zip net (dp_lines doc)))))),
         ps_totals = \<lparr>st_gross = sum_list gross, st_line_discount = sum_list line_off,
           st_sale_discount = off, st_discount = sum_list line_off + off,
           st_subtotal = dp_subtotal doc, st_taxes = dp_taxes doc, st_tax = dp_tax doc,
           st_tip = tip_cents, st_total = total_cents, st_deposit = deposit, st_gift_card = gift,
           st_due = max 0 (total_cents - deposit - gift)\<rparr>\<rparr>)"

text \<open>A completed sale as issued: the stored line tax, the journal's tax by code, the issued totals.\<close>

record issued_totals =
  it_subtotal :: int
  it_tax :: int
  it_total :: int

definition issued_sale ::
  "(string \<Rightarrow> rat \<Rightarrow> string) \<Rightarrow> (string \<Rightarrow> string) \<Rightarrow> (sale_line \<times> int option) list \<Rightarrow> sale_discount option
    \<Rightarrow> doc_rate list \<Rightarrow> int \<Rightarrow> (string \<times> int) list \<Rightarrow> issued_totals \<Rightarrow> priced_sale" where
  "issued_sale rate_label tax_name lines disc rates tip_cents journal issued =
    (let registered = (\<exists>l\<in>set lines. (case snd l of None \<Rightarrow> 0 | Some t \<Rightarrow> t) > 0);
         priced = price_sale rate_label (map fst lines) disc rates registered (Tip_Custom tip_cents) 0 0;
         total_cents = it_total issued + tip_cents
     in \<lparr>ps_lines = map2 (\<lambda>p l. p\<lparr>pr_tax := (case snd l of None \<Rightarrow> pr_tax p | Some t \<Rightarrow> t)\<rparr>)
            (ps_lines priced) lines,
         ps_totals = (ps_totals priced)
           \<lparr>st_subtotal := it_subtotal issued,
            st_taxes := issued_taxes tax_name (st_taxes (ps_totals priced)) journal,
            st_tax := it_tax issued, st_total := total_cents, st_deposit := 0, st_gift_card := 0,
            st_due := total_cents\<rparr>\<rparr>)"

section \<open>The printed totals\<close>

datatype total_kind = Subtotal_Row | Credit_Row | Tax_Row | Total_Row | Balance_Row

record total_line =
  tl_key :: string
  tl_label :: string
  tl_cents :: int
  tl_kind :: total_kind
  tl_hint :: "string option"

definition total_row :: "string \<Rightarrow> string \<Rightarrow> int \<Rightarrow> total_kind \<Rightarrow> total_line" where
  "total_row k lbl c kind = \<lparr>tl_key = k, tl_label = lbl, tl_cents = c, tl_kind = kind, tl_hint = None\<rparr>"

definition sale_total_lines ::
  "(string \<Rightarrow> string) \<Rightarrow> string option \<Rightarrow> bool \<Rightarrow> sale_totals \<Rightarrow> total_line list" where
  "sale_total_lines d reason show_tip t =
    (if st_discount t > 0 then
       total_row ''gross'' (d ''itemsTotal'') (st_gross t) Subtotal_Row
       # (if st_line_discount t > 0
          then [total_row ''lineDisc'' (d ''lineDiscounts'') (st_line_discount t) Credit_Row] else [])
       @ (if st_sale_discount t > 0
          then [(total_row ''saleDisc'' (d ''saleDiscount'') (st_sale_discount t) Credit_Row)\<lparr>tl_hint := reason\<rparr>]
          else [])
     else [])
    @ [total_row ''subtotal'' (d ''subtotal'') (st_subtotal t) Subtotal_Row]
    @ map (\<lambda>x. total_row (dt_code x) (dt_label x) (dt_cents x) Tax_Row) (st_taxes t)
    @ (if show_tip \<or> st_tip t > 0
       then [(total_row ''tip'' (d ''tip'') (st_tip t) Subtotal_Row)
               \<lparr>tl_hint := (if st_taxes t \<noteq> [] then Some (d ''tipNoTax'') else None)\<rparr>] else [])
    @ [total_row ''total'' (d ''total'') (st_total t)
         (if st_deposit t > 0 \<or> st_gift_card t > 0 then Total_Row else Balance_Row)]
    @ (if st_deposit t > 0 then [total_row ''deposit'' (d ''depositPaid'') (st_deposit t) Credit_Row] else [])
    @ (if st_gift_card t > 0 then [total_row ''gift'' (d ''giftCardPaid'') (st_gift_card t) Credit_Row] else [])
    @ (if st_deposit t > 0 \<or> st_gift_card t > 0
       then [total_row ''due'' (d ''dueNow'') (st_due t) Balance_Row] else [])"

section \<open>Previewing a discount\<close>

datatype discount_scope = Scope_Sale | Scope_Lines

record discount_change =
  dc_scope :: discount_scope
  dc_line_keys :: "string list"
  dc_discount :: "sale_discount option"

record discount_preview =
  dv_before :: sale_totals
  dv_after :: sale_totals
  dv_off :: int
  dv_tax_change :: int

definition preview_discount ::
  "(string \<Rightarrow> rat \<Rightarrow> string) \<Rightarrow> sale_line list \<Rightarrow> sale_discount option \<Rightarrow> doc_rate list \<Rightarrow> bool
    \<Rightarrow> discount_change \<Rightarrow> discount_preview" where
  "preview_discount rate_label lines disc rates registered change =
    (let before = ps_totals (price_sale rate_label lines disc rates registered Tip_None 0 0);
         next_lines = map (\<lambda>l. if dc_scope change = Scope_Lines \<and> sl_key l \<in> set (dc_line_keys change)
                          then l\<lparr>sl_discount := dc_discount change\<rparr> else l) lines;
         after = ps_totals (price_sale rate_label next_lines
                   (if dc_scope change = Scope_Sale then dc_discount change else disc)
                   rates registered Tip_None 0 0)
     in \<lparr>dv_before = before, dv_after = after, dv_off = st_discount after - st_discount before,
         dv_tax_change = st_tax after - st_tax before\<rparr>)"

section \<open>Dividing a tip\<close>

datatype tip_split_mode = By_Service | One_Person

record tip_share =
  ts_staff :: string
  ts_name :: string
  ts_color :: "string option"
  ts_cents :: int

record sale_staff_row =
  ss_id :: string
  ss_name :: string
  ss_color :: "string option"

definition tip_share_of :: "(string \<Rightarrow> string) \<Rightarrow> sale_staff_row list \<Rightarrow> string \<Rightarrow> int \<Rightarrow> tip_share" where
  "tip_share_of d staff i cents =
    (case find (\<lambda>s. ss_id s = i) staff of
       None \<Rightarrow> \<lparr>ts_staff = i, ts_name = d ''noStaff'', ts_color = None, ts_cents = cents\<rparr>
     | Some row \<Rightarrow> \<lparr>ts_staff = i, ts_name = ss_name row, ts_color = ss_color row, ts_cents = cents\<rparr>)"

definition served_lines :: "sale_priced_line list \<Rightarrow> sale_priced_line list" where
  "served_lines lines = filter (\<lambda>l. sl_staff (pr_line l) \<noteq> None \<and> pr_net l > 0) lines"

definition served_ids :: "sale_priced_line list \<Rightarrow> string list" where
  "served_ids lines = js_unique (List.map_filter (\<lambda>l. sl_staff (pr_line l)) (served_lines lines))"

definition staff_net :: "sale_priced_line list \<Rightarrow> string \<Rightarrow> int" where
  "staff_net lines i = sum_list (map pr_net (filter (\<lambda>l. sl_staff (pr_line l) = Some i) (served_lines lines)))"

definition tip_shares ::
  "(string \<Rightarrow> string) \<Rightarrow> sale_priced_line list \<Rightarrow> int \<Rightarrow> tip_split_mode \<Rightarrow> string option
    \<Rightarrow> sale_staff_row list \<Rightarrow> tip_share list" where
  "tip_shares d lines tip_cents mode tip_to staff =
    (if tip_cents \<le> 0 then []
     else let ids = served_ids lines
          in case (mode, tip_to) of
               (One_Person, Some i) \<Rightarrow> [tip_share_of d staff i tip_cents]
             | _ \<Rightarrow> if ids = [] then []
                   else map2 (tip_share_of d staff) ids (allocate tip_cents (map (staff_net lines) ids)))"

section \<open>Well-formed tickets\<close>

definition sale_ok :: "sale_line list \<Rightarrow> bool" where
  "sale_ok lines \<longleftrightarrow> (\<forall>l\<in>set lines. 0 \<le> sl_unit l \<and> 0 \<le> sl_quantity l)"

definition rates_ok :: "doc_rate list \<Rightarrow> bool" where
  "rates_ok rates \<longleftrightarrow> distinct (map rate_code rates) \<and> (\<forall>r\<in>set rates. 0 \<le> rate_ppm r)"

lemma rates_ok_rates_on [simp]: "rates_ok (rates_on prov day)"
  by (auto simp: rates_ok_def rates_on_def rates_of_table_mem distinct_rates_of_table)

lemma rates_ok_doc_rates [simp]: "rates_ok rates \<Longrightarrow> rates_ok (doc_rates rates registered)"
  by (simp add: rates_ok_def doc_rates_def)

lemma sale_lengths [simp]:
  "length (sale_gross lines) = length lines" "length (sale_line_off lines) = length lines"
  "length (sale_bases lines) = length lines" "length (sale_shares lines disc) = length lines"
  "length (sale_net lines disc) = length lines"
  by (simp_all add: sale_gross_def sale_line_off_def sale_bases_def sale_shares_def sale_net_def)

lemma sale_gross_nonneg: "sale_ok lines \<Longrightarrow> g \<in> set (sale_gross lines) \<Longrightarrow> 0 \<le> g"
  by (auto simp: sale_gross_def sale_ok_def intro!: js_round_nonneg)

lemma sale_bases_nonneg:
  assumes "sale_ok lines" "b \<in> set (sale_bases lines)"
  shows "0 \<le> b"
proof -
  from assms(2) obtain i where i: "i < length lines" "b = sale_gross lines ! i - sale_line_off lines ! i"
    by (auto simp: sale_bases_def in_set_conv_nth)
  have "0 \<le> sale_gross lines ! i"
    using assms(1) i(1) by (intro sale_gross_nonneg) auto
  with i show ?thesis
    by (simp add: sale_line_off_def discount_cents_le)
qed

lemma sale_off_bounds:
  assumes "sale_ok lines"
  shows "0 \<le> sale_off lines disc" "sale_off lines disc \<le> sum_list (sale_bases lines)"
proof -
  have "0 \<le> sum_list (sale_bases lines)"
    using assms sale_bases_nonneg by (intro sum_list_int_nonneg)
  then show "0 \<le> sale_off lines disc" "sale_off lines disc \<le> sum_list (sale_bases lines)"
    by (simp_all add: sale_off_def discount_cents_bounds discount_cents_le)
qed

lemma sale_net_nonneg: "sale_ok lines \<Longrightarrow> n \<in> set (sale_net lines disc) \<Longrightarrow> 0 \<le> n"
  unfolding sale_net_def sale_shares_def
  by (rule alloc.net_nonneg [OF sale_bases_nonneg sale_off_bounds])

lemma sum_sale_net:
  assumes "sale_ok lines"
  shows "sum_list (sale_net lines disc)
    = sum_list (sale_gross lines) - (sum_list (sale_line_off lines) + sale_off lines disc)"
proof -
  have "sum_list (sale_net lines disc) = sum_list (sale_bases lines) - sale_off lines disc"
    unfolding sale_net_def sale_shares_def
    by (rule alloc.net_sum) (use assms in \<open>auto intro: sale_bases_nonneg sale_off_bounds\<close>)
  then show ?thesis by (simp add: sale_bases_def sum_list_map2_minus)
qed

lemma map2_field: "length xs = length ys \<Longrightarrow> (\<And>x y. f (g x y) = y) \<Longrightarrow> map f (map2 g xs ys) = ys"
  by (induction xs ys rule: list_induct2) auto

lemma sale_doc_amounts:
  "map pl_amount (filter pl_included (map2 (\<lambda>l n. \<lparr>pl_amount = n, pl_class = cls l, pl_included = True\<rparr>)
    lines (sale_net lines disc))) = sale_net lines disc"
proof -
  have "filter pl_included (map2 (\<lambda>l n. \<lparr>pl_amount = n, pl_class = cls l, pl_included = True\<rparr>) xs ys)
      = map2 (\<lambda>l n. \<lparr>pl_amount = n, pl_class = cls l, pl_included = True\<rparr>) xs ys" for xs and ys :: "int list"
    by (auto simp: filter_id_conv)
  then show ?thesis by (simp only:) (rule map2_field, simp_all)
qed

lemma sale_doc_subtotal:
  "rates_ok rates \<Longrightarrow> dp_subtotal (sale_doc lbl lines disc rates registered) = sum_list (sale_net lines disc)"
  unfolding sale_doc_def
  by (simp add: price_doc_base_subtotal sale_doc_amounts)

lemma sale_doc_total:
  "dp_total (sale_doc lbl lines disc rates registered) = dp_subtotal (sale_doc lbl lines disc rates registered)
    + dp_tax (sale_doc lbl lines disc rates registered)"
  by (simp add: sale_doc_def price_doc_total)

lemma sale_doc_tax_nonneg:
  assumes "sale_ok lines" "rates_ok rates"
  shows "0 \<le> dp_tax (sale_doc lbl lines disc rates registered)"
  unfolding sale_doc_def
proof (rule price_doc_tax_nonneg)
  show "0 \<le> rate_ppm r" if "r \<in> set (doc_rates rates registered)" for r
    using that rates_ok_doc_rates [OF assms(2)] by (auto simp: rates_ok_def)
  show "distinct (map rate_code (doc_rates rates registered))"
    using rates_ok_doc_rates [OF assms(2)] by (simp add: rates_ok_def)
  show "0 \<le> pl_amount l"
    if "l \<in> set (map2 (\<lambda>l n. \<lparr>pl_amount = n, pl_class = as_tax_class (Some (sl_tax_class l)), pl_included = True\<rparr>)
      lines (sale_net lines disc))" for l
    using that assms(1) by (auto dest!: set_zip_rightD intro: sale_net_nonneg)
qed

lemma tip_cents_nonneg: "0 \<le> subtotal \<Longrightarrow> (\<And>p. tip = Tip_Percent p \<Longrightarrow> 0 \<le> p) \<Longrightarrow> 0 \<le> tip_cents_for tip subtotal"
  by (cases tip) (auto intro!: js_round_nonneg)

lemma price_sale_totals:
  fixes dep gift :: int
  defines "t \<equiv> \<lambda>lbl lines disc rates registered tip dep gift.
    ps_totals (price_sale lbl lines disc rates registered tip dep gift)"
  shows "st_gross (t lbl lines disc rates registered tip dep gift) = sum_list (sale_gross lines)"
    "st_discount (t lbl lines disc rates registered tip dep gift) = sum_list (sale_line_off lines) + sale_off lines disc"
    "st_line_discount (t lbl lines disc rates registered tip dep gift) = sum_list (sale_line_off lines)"
    "st_sale_discount (t lbl lines disc rates registered tip dep gift) = sale_off lines disc"
    "st_subtotal (t lbl lines disc rates registered tip dep gift) = dp_subtotal (sale_doc lbl lines disc rates registered)"
    "st_tax (t lbl lines disc rates registered tip dep gift) = dp_tax (sale_doc lbl lines disc rates registered)"
    "st_tip (t lbl lines disc rates registered tip dep gift)
      = tip_cents_for tip (dp_subtotal (sale_doc lbl lines disc rates registered))"
    "st_total (t lbl lines disc rates registered tip dep gift) = dp_total (sale_doc lbl lines disc rates registered)
      + tip_cents_for tip (dp_subtotal (sale_doc lbl lines disc rates registered))"
    "st_deposit (t lbl lines disc rates registered tip dep gift)
      = min dep (dp_total (sale_doc lbl lines disc rates registered))"
    "st_gift_card (t lbl lines disc rates registered tip dep gift)
      = min gift (st_total (t lbl lines disc rates registered tip dep gift) - st_deposit (t lbl lines disc rates registered tip dep gift))"
    "st_due (t lbl lines disc rates registered tip dep gift)
      = max 0 (st_total (t lbl lines disc rates registered tip dep gift)
          - st_deposit (t lbl lines disc rates registered tip dep gift)
          - st_gift_card (t lbl lines disc rates registered tip dep gift))"
  by (simp_all add: t_def price_sale_def Let_def)

lemma map_pr_net: "map pr_net (ps_lines (price_sale lbl lines disc rates registered tip dep gift)) = sale_net lines disc"
proof -
  have "length (dp_lines (sale_doc lbl lines disc rates registered)) = length lines"
    by (simp add: sale_doc_def price_doc_def Let_def)
  then show ?thesis
    by (intro nth_equalityI) (simp_all add: price_sale_def Let_def case_prod_beta)
qed

text \<open>C4: the amounts of a priced ticket reconcile. The subtotal is the gross less every discount and
  the sum of the lines' net, none of which is negative; the total adds tax and tip; and what is due,
  the deposit and the gift card together are the total.\<close>

theorem price_sale_reconciles:
  fixes lbl lines disc rates registered tip dep gift
  assumes "sale_ok lines" and "rates_ok rates"
  defines "p \<equiv> price_sale lbl lines disc rates registered tip dep gift"
  defines "t \<equiv> ps_totals p"
  shows "st_subtotal t = st_gross t - st_discount t
    \<and> st_subtotal t = sum_list (map pr_net (ps_lines p))
    \<and> (\<forall>l\<in>set (ps_lines p). 0 \<le> pr_net l)
    \<and> st_total t = st_subtotal t + st_tax t + st_tip t
    \<and> 0 \<le> st_tax t \<and> 0 \<le> st_discount t \<and> 0 \<le> st_due t
    \<and> st_due t + st_deposit t + st_gift_card t = st_total t"
proof -
  have net: "0 \<le> pr_net l" if "l \<in> set (ps_lines p)" for l
  proof -
    have "pr_net l \<in> set (sale_net lines disc)"
      using that by (simp add: p_def flip: map_pr_net [of lbl lines disc rates registered tip dep gift])
    then show ?thesis by (rule sale_net_nonneg [OF assms(1)])
  qed
  have "0 \<le> sum_list (sale_line_off lines)"
    by (auto simp: sale_line_off_def intro!: sum_list_int_nonneg discount_cents_bounds)
  with net show ?thesis
    using assms(1,2) sale_off_bounds(1) [OF assms(1), of disc]
    by (auto simp: t_def p_def price_sale_totals map_pr_net sale_doc_subtotal sum_sale_net
        sale_doc_tax_nonneg sale_doc_total)
qed

theorem price_sale_reconciles_witness:
  "let lines = [\<lparr>sl_key = ''sl1'', sl_item = None, sl_kind = ''service'', sl_description = ''Groom'', sl_unit = 6500,
         sl_quantity = 1, sl_tax_class = ''standard'', sl_staff = Some ''m1'', sl_booking = None, sl_color = None,
         sl_image = None, sl_discount = Some \<lparr>disc_kind = Percent, disc_value = 10, disc_reason = None\<rparr>\<rparr>];
       t = ps_totals (price_sale (\<lambda>c r. c) lines None (rates_on (Some ''ON'') ''2026-07-01'') True (Tip_Percent 15) 1000 500)
   in st_due t + st_deposit t + st_gift_card t = st_total t \<and> st_total t = st_subtotal t + st_tax t + st_tip t"
proof -
  let ?lines = "[\<lparr>sl_key = ''sl1'', sl_item = None, sl_kind = ''service'', sl_description = ''Groom'', sl_unit = 6500,
         sl_quantity = 1, sl_tax_class = ''standard'', sl_staff = Some ''m1'', sl_booking = None, sl_color = None,
         sl_image = None, sl_discount = Some \<lparr>disc_kind = Percent, disc_value = 10, disc_reason = None\<rparr>\<rparr>]"
  have "sale_ok ?lines" by (simp add: sale_ok_def)
  moreover have "rates_ok (rates_on (Some ''ON'') ''2026-07-01'')" by simp
  ultimately show ?thesis
    unfolding Let_def by (intro conjI) (blast dest: price_sale_reconciles)+
qed

section \<open>The printed totals end in what is due\<close>

text \<open>The totals a ticket prints name one balance, the last row, and it is the amount due.\<close>

theorem sale_total_lines_balance:
  assumes "0 \<le> st_deposit t" "0 \<le> st_gift_card t"
    and "st_due t + st_deposit t + st_gift_card t = st_total t"
  shows "tl_kind (last (sale_total_lines d reason show_tip t)) = Balance_Row
    \<and> tl_cents (last (sale_total_lines d reason show_tip t)) = st_due t
    \<and> length (filter (\<lambda>r. tl_kind r = Balance_Row) (sale_total_lines d reason show_tip t)) = 1"
proof -
  have "filter (\<lambda>r. tl_kind r = Balance_Row) (map (\<lambda>x. total_row (dt_code x) (dt_label x) (dt_cents x) Tax_Row) ts) = []" for ts
    by (auto simp: filter_empty_conv total_row_def)
  with assms show ?thesis
    by (auto simp: sale_total_lines_def total_row_def)
qed

theorem sale_total_lines_balance_witness:
  "tl_cents (last (sale_total_lines id None False
     \<lparr>st_gross = 6500, st_line_discount = 0, st_sale_discount = 0, st_discount = 0, st_subtotal = 6500,
      st_taxes = [], st_tax = 0, st_tip = 0, st_total = 6500, st_deposit = 1000, st_gift_card = 0,
      st_due = 5500\<rparr>)) = 5500"
  using sale_total_lines_balance [of "\<lparr>st_gross = 6500, st_line_discount = 0, st_sale_discount = 0,
      st_discount = 0, st_subtotal = 6500, st_taxes = [], st_tax = 0, st_tip = 0, st_total = 6500,
      st_deposit = 1000, st_gift_card = 0, st_due = 5500\<rparr>" id None False]
  by simp

section \<open>A divided tip adds up\<close>

lemma served_ids_props:
  "distinct (served_ids lines)" "i \<in> set (served_ids lines) \<Longrightarrow> 0 < staff_net lines i"
proof -
  show "distinct (served_ids lines)" by (simp add: served_ids_def)
  assume "i \<in> set (served_ids lines)"
  then obtain l where l: "l \<in> set (served_lines lines)" "sl_staff (pr_line l) = Some i" "0 < pr_net l"
    by (auto simp: served_ids_def served_lines_def set_map_filter)
  have "pr_net l \<le> staff_net lines i"
    unfolding staff_net_def using l
    by (intro member_le_sum_list_int) (auto simp: served_lines_def)
  with l(3) show "0 < staff_net lines i" by simp
qed

lemma staff_share_simps [simp]:
  "ts_staff (tip_share_of d staff i c) = i" "ts_cents (tip_share_of d staff i c) = c"
  by (simp_all add: tip_share_of_def split: option.split)

text \<open>A tip is divided to the cent. Whatever the mode, the shares of a positive tip add up to it
  as soon as someone receives one; no share is negative, no member appears twice, and by service only
  the members who served a line with a price share in it.\<close>

theorem tip_shares_add_up:
  assumes "tip_shares d lines tip mode tip_to staff \<noteq> []"
  shows "sum_list (map ts_cents (tip_shares d lines tip mode tip_to staff)) = tip
    \<and> (\<forall>s\<in>set (tip_shares d lines tip mode tip_to staff). 0 \<le> ts_cents s)
    \<and> distinct (map ts_staff (tip_shares d lines tip mode tip_to staff))
    \<and> (mode = By_Service \<longrightarrow> map ts_staff (tip_shares d lines tip mode tip_to staff) = served_ids lines)"
proof -
  let ?ids = "served_ids lines" and ?w = "map (staff_net lines) (served_ids lines)"
  have w: "0 \<le> x" if "x \<in> set ?w" for x
    using that served_ids_props(2) by (auto intro: less_imp_le)
  have tip: "0 < tip" using assms by (auto simp: tip_shares_def not_le split: if_splits)
  have by_value: "?thesis"
    if ids: "?ids \<noteq> []" and eq: "tip_shares d lines tip mode tip_to staff = map2 (tip_share_of d staff) ?ids (allocate tip ?w)"
  proof -
    let ?i = "hd ?ids"
    have i: "?i \<in> set ?ids" using ids by simp
    then have "staff_net lines ?i \<in> set ?w" by simp
    with w have "staff_net lines ?i \<le> sum_list ?w" by (rule member_le_sum_list_int)
    with served_ids_props(2) [OF i] have pos: "0 < sum_list ?w" by simp
    have parts: "0 \<le> p" if "p \<in> set (allocate tip ?w)" for p
      by (rule allocate_nonneg [OF less_imp_le [OF tip] w that])
    let ?shares = "tip_shares d lines tip mode tip_to staff"
    have cents: "map ts_cents ?shares = allocate tip ?w" and ids: "map ts_staff ?shares = ?ids"
      unfolding eq by (auto intro!: nth_equalityI)
    have "0 \<le> ts_cents s" if "s \<in> set ?shares" for s
      using that by (intro parts) (simp flip: cents)
    then show ?thesis
      using sum_allocate [OF pos] served_ids_props(1) by (simp only: cents ids) blast
  qed
  show ?thesis
  proof (cases "mode = One_Person \<and> tip_to \<noteq> None")
    case True
    then obtain i where i: "mode = One_Person" "tip_to = Some i" by auto
    with tip show ?thesis by (simp add: tip_shares_def Let_def)
  next
    case False
    then have "?ids \<noteq> []" "tip_shares d lines tip mode tip_to staff = map2 (tip_share_of d staff) ?ids (allocate tip ?w)"
      using assms tip by (cases mode; cases tip_to; auto simp: tip_shares_def Let_def split: if_splits)+
    then show ?thesis by (rule by_value)
  qed
qed

theorem tip_shares_add_up_witness:
  "let l = \<lparr>sl_key = ''a'', sl_item = None, sl_kind = ''service'', sl_description = ''x'', sl_unit = 100, sl_quantity = 1,
        sl_tax_class = ''standard'', sl_staff = Some ''m1'', sl_booking = None, sl_color = None, sl_image = None,
        sl_discount = None\<rparr>;
      p = \<lparr>pr_line = l, pr_gross = 100, pr_line_discount = 0, pr_sale_share = 0, pr_net = 100, pr_tax = 0\<rparr>;
      shares = tip_shares id [p, p\<lparr>pr_line := l\<lparr>sl_staff := Some ''m2''\<rparr>, pr_net := 200\<rparr>] 100 By_Service None []
   in map ts_cents shares = [33, 67] \<and> sum_list (map ts_cents shares) = 100"
proof -
  let ?l = "\<lparr>sl_key = ''a'', sl_item = None, sl_kind = ''service'', sl_description = ''x'', sl_unit = 100, sl_quantity = 1,
        sl_tax_class = ''standard'', sl_staff = Some ''m1'', sl_booking = None, sl_color = None, sl_image = None,
        sl_discount = None\<rparr>"
  let ?p = "\<lparr>pr_line = ?l, pr_gross = 100, pr_line_discount = 0, pr_sale_share = 0, pr_net = 100, pr_tax = 0\<rparr>"
  let ?shares = "tip_shares id [?p, ?p\<lparr>pr_line := ?l\<lparr>sl_staff := Some ''m2''\<rparr>, pr_net := 200\<rparr>] 100 By_Service None []"
  have cents: "map ts_cents ?shares = [33, 67]" by code_simp
  then have "?shares \<noteq> []" by (metis list.simps(3) list.simps(8))
  from tip_shares_add_up [OF this] have "sum_list (map ts_cents ?shares) = 100" by blast
  with cents show ?thesis unfolding Let_def by (intro conjI)
qed

end
