(* ===== verification/Hours_Outbox.thy ===== *)
theory Hours_Outbox
  imports Prelude
begin

text \<open>
  The durable outbox of working weeks (\<open>packages/sync/src/hours.ts\<close>): offline edits of a member's
  weekly hours wait in the table \<open>hours_outbox\<close> of the on-device replica and are uploaded one at
  a time, under optimistic concurrency on the member's \<open>hours_revision\<close>.

  Each \<open>writeTransaction\<close> is one function from the database to the database; an exception inside
  it rolls it back, so it is an error value and no new database. A payload is kept as the request it
  encodes (it is written by \<open>JSON.stringify\<close> from a fixed shape, so equal texts are equal requests).
  The device's preferences are keyed by a constructor per key template. \<open>Date.now()\<close>,
  \<open>crypto.randomUUID()\<close>, \<open>Math.random()\<close> and the server's answers are arguments.
\<close>

section \<open>The replica's tables\<close>

record week_day =
  wd_weekday :: nat
  wd_available :: bool
  wd_start :: "string option"
  wd_end :: "string option"

record week_request =
  wr_version :: nat
  wr_device :: string
  wr_operation :: string
  wr_business :: string
  wr_created :: string
  wr_expected :: int
  wr_days :: "week_day list"

datatype outbox_state = Queued | Sending | Accepted | Rejected

record outbox_row =
  ob_id :: string
  ob_business :: string
  ob_staff :: string
  ob_actor :: string
  ob_payload :: week_request
  ob_base :: "week_day list"
  ob_state :: outbox_state
  ob_predecessor :: "string option"
  ob_result :: "int option"
  ob_attempts :: nat
  ob_retry_at :: rat
  ob_error :: "string option"
  ob_created :: string
  ob_sequence :: int

datatype pref_key =
    Sync_Identity
  | Sync_Device
  | Sync_Accepted string
  | Sync_Replication_Delay
  | Hours_Stranded string string

datatype pref_value = P_Json json | P_Text string | P_Millis int | P_Ids "string list"

record replica_db =
  db_outbox :: "outbox_row list"
  db_prefs :: "pref_key \<rightharpoonup> pref_value"
  db_staff :: "string \<times> string \<rightharpoonup> int" \<comment> \<open>(business, member) to \<open>hours_revision\<close>\<close>

section \<open>SQL on the outbox\<close>

definition update_rows :: "(outbox_row \<Rightarrow> bool) \<Rightarrow> (outbox_row \<Rightarrow> outbox_row) \<Rightarrow> outbox_row list \<Rightarrow> outbox_row list" where
  "update_rows P f rows = map (\<lambda>r. if P r then f r else r) rows"

definition delete_rows :: "(outbox_row \<Rightarrow> bool) \<Rightarrow> outbox_row list \<Rightarrow> outbox_row list" where
  "delete_rows P rows = filter (\<lambda>r. \<not> P r) rows"

text \<open>\<open>ORDER BY sequence LIMIT 1\<close> and \<open>ORDER BY sequence DESC LIMIT 1\<close>.\<close>

definition first_by_sequence :: "outbox_row list \<Rightarrow> outbox_row option" where
  "first_by_sequence rows = (case sort_key ob_sequence rows of [] \<Rightarrow> None | r # _ \<Rightarrow> Some r)"

definition last_by_sequence :: "outbox_row list \<Rightarrow> outbox_row option" where
  "last_by_sequence rows = (if rows = [] then None else Some (last (sort_key ob_sequence rows)))"

definition in_group :: "string \<Rightarrow> string \<Rightarrow> outbox_row \<Rightarrow> bool" where
  "in_group business staff r \<longleftrightarrow> ob_business r = business \<and> ob_staff r = staff"

definition next_sequence :: "outbox_row list \<Rightarrow> int" where
  "next_sequence rows = (if rows = [] then 0 else Max (set (map ob_sequence rows))) + 1"

definition row_by_id :: "outbox_row list \<Rightarrow> string \<Rightarrow> outbox_row option" where
  "row_by_id rows i = find (\<lambda>r. ob_id r = i) rows"

text \<open>The user a claimed replica belongs to (\<open>lifecycle.ts\<close>): the last element of the identity.\<close>

fun replica_owner :: "json \<Rightarrow> string option" where
  "replica_owner (J_Arr parts) =
    (if parts = [] then None else case last parts of J_Str s \<Rightarrow> Some s | _ \<Rightarrow> None)"
| "replica_owner _ = None"

section \<open>Proposing a week\<close>

datatype hours_error =
    No_Identity
  | Missing_Owner
  | Still_Uploading
  | Changed_Elsewhere
  | Needs_Review
  | Not_Ready_To_Discard

record enqueue_input =
  en_staff :: string
  en_business :: string
  en_revision :: int
  en_days :: "week_day list"
  en_base :: "week_day list"
  en_repair :: bool
  en_predecessor :: "(string \<times> week_request) option"

record enqueue_env =
  ev_device :: string  \<comment> \<open>the identifier drawn for a device that has none\<close>
  ev_operation :: string \<comment> \<open>the identifier drawn for the operation\<close>
  ev_now :: string \<comment> \<open>the ISO timestamp of the proposal\<close>

record enqueued =
  eq_id :: string
  eq_revision :: int
  eq_payload :: week_request

definition stale_predecessor :: "outbox_row option \<Rightarrow> (string \<times> week_request) option \<Rightarrow> bool" where
  "stale_predecessor previous pred =
    (case previous of None \<Rightarrow> False
     | Some p \<Rightarrow> map_option fst pred \<noteq> Some (ob_id p) \<or> map_option snd pred \<noteq> Some (ob_payload p))"

definition device_of :: "enqueue_env \<Rightarrow> replica_db \<Rightarrow> string \<times> replica_db" where
  "device_of env db =
    (case db_prefs db Sync_Device of
       Some (P_Text d) \<Rightarrow> (d, db)
     | _ \<Rightarrow> (ev_device env, db\<lparr>db_prefs := (db_prefs db)(Sync_Device \<mapsto> P_Text (ev_device env))\<rparr>))"

text \<open>A proposal not sent yet is edited in place.\<close>

definition edit_unsent :: "enqueue_input \<Rightarrow> outbox_row \<Rightarrow> replica_db \<Rightarrow> replica_db \<times> enqueued" where
  "edit_unsent inp p db =
    (let body = (ob_payload p)\<lparr>wr_days := en_days inp\<rparr>
     in (db\<lparr>db_outbox := update_rows (\<lambda>r. ob_id r = ob_id p) (\<lambda>r. r\<lparr>ob_payload := body\<rparr>) (db_outbox db)\<rparr>,
         \<lparr>eq_id = ob_id p, eq_revision = wr_expected body + 1, eq_payload = body\<rparr>))"

definition chained_revision :: "enqueue_input \<Rightarrow> outbox_row option \<Rightarrow> int" where
  "chained_revision inp previous =
    (case previous of None \<Rightarrow> en_revision inp
     | Some p \<Rightarrow> (case ob_result p of Some v \<Rightarrow> v | None \<Rightarrow> wr_expected (ob_payload p) + 1))"

definition append_week ::
  "enqueue_env \<Rightarrow> enqueue_input \<Rightarrow> string \<Rightarrow> outbox_row option \<Rightarrow> replica_db \<Rightarrow> replica_db \<times> enqueued" where
  "append_week env inp actor previous db0 =
    (let (device, db) = device_of env db0;
         body = \<lparr>wr_version = 2, wr_device = device, wr_operation = ev_operation env,
                 wr_business = en_business inp, wr_created = ev_now env,
                 wr_expected = chained_revision inp previous, wr_days = en_days inp\<rparr>;
         row = \<lparr>ob_id = ev_operation env, ob_business = en_business inp, ob_staff = en_staff inp,
                ob_actor = actor, ob_payload = body,
                ob_base = (case previous of None \<Rightarrow> en_base inp | Some p \<Rightarrow> wr_days (ob_payload p)),
                ob_state = Queued, ob_predecessor = map_option ob_id previous, ob_result = None,
                ob_attempts = 0, ob_retry_at = 0, ob_error = None, ob_created = ev_now env,
                ob_sequence = next_sequence (db_outbox db)\<rparr>
     in (db\<lparr>db_outbox := db_outbox db @ [row]\<rparr>,
         \<lparr>eq_id = ev_operation env, eq_revision = wr_expected body + 1, eq_payload = body\<rparr>))"

definition enqueue_hours ::
  "enqueue_env \<Rightarrow> enqueue_input \<Rightarrow> replica_db \<Rightarrow> hours_error + (replica_db \<times> enqueued)" where
  [step_defs]: "enqueue_hours env inp db0 =
    (case db_prefs db0 Sync_Identity of
       Some (P_Json claim) \<Rightarrow>
        (case replica_owner claim of
           None \<Rightarrow> Inl Missing_Owner
         | Some actor \<Rightarrow>
            if en_repair inp \<and> (\<exists>r\<in>set (db_outbox db0).
                 in_group (en_business inp) (en_staff inp) r \<and> ob_state r = Sending)
            then Inl Still_Uploading
            else
             let db = (if en_repair inp
                       then db0\<lparr>db_outbox := delete_rows (in_group (en_business inp) (en_staff inp)) (db_outbox db0)\<rparr>
                       else db0);
                 previous = last_by_sequence (filter (in_group (en_business inp) (en_staff inp)) (db_outbox db))
             in if stale_predecessor previous (en_predecessor inp) then Inl Changed_Elsewhere
                else case previous of
                       Some p \<Rightarrow>
                         if ob_state p = Rejected then Inl Needs_Review
                         else if ob_state p = Queued \<and> ob_attempts p = 0 then Inr (edit_unsent inp p db)
                         else Inr (append_week env inp actor previous db)
                     | None \<Rightarrow> Inr (append_week env inp actor previous db))
     | _ \<Rightarrow> Inl No_Identity)"

section \<open>Discarding\<close>

definition discard_rejected_hours :: "string \<Rightarrow> string \<Rightarrow> replica_db \<Rightarrow> hours_error + replica_db" where
  [step_defs]: "discard_rejected_hours business staff db =
    (let rows = filter (in_group business staff) (db_outbox db)
     in if \<not> (\<exists>r\<in>set rows. ob_state r = Rejected) \<or> (\<exists>r\<in>set rows. ob_state r = Sending)
        then Inl Not_Ready_To_Discard
        else Inr (db\<lparr>db_outbox := delete_rows (in_group business staff) (db_outbox db)\<rparr>))"

fun discard_groups :: "(string \<times> string) list \<Rightarrow> replica_db \<Rightarrow> hours_error + replica_db" where
  "discard_groups [] db = Inr db"
| "discard_groups ((business, staff) # groups) db =
    (if \<exists>r\<in>set (db_outbox db). in_group business staff r \<and> ob_state r = Sending then Inl Still_Uploading
     else discard_groups groups
       (db\<lparr>db_outbox := delete_rows (\<lambda>r. in_group business staff r \<and> ob_state r \<noteq> Accepted) (db_outbox db)\<rparr>))"

definition discard_rejected_queue :: "replica_db \<Rightarrow> hours_error + replica_db" where
  [step_defs]: "discard_rejected_queue db =
    discard_groups
      (js_unique (map (\<lambda>r. (ob_business r, ob_staff r)) (filter (\<lambda>r. ob_state r = Rejected) (db_outbox db)))) db"

section \<open>Uploading\<close>

subsection \<open>Accepted weeks whose member is no longer replicated\<close>

definition unseen :: "int \<Rightarrow> replica_db \<Rightarrow> outbox_row \<Rightarrow> bool" where
  "unseen now db r \<longleftrightarrow> ob_state r = Accepted \<and> db_staff db (ob_business r, ob_staff r) = None
    \<and> ob_retry_at r \<le> of_int now"

definition probe_begin :: "int \<Rightarrow> replica_db \<Rightarrow> replica_db \<times> outbox_row option" where
  [step_defs]: "probe_begin now db =
    (case first_by_sequence (filter (unseen now db) (db_outbox db)) of
       None \<Rightarrow> (db, None)
     | Some u \<Rightarrow>
        (db\<lparr>db_outbox := update_rows (\<lambda>r. ob_id r = ob_id u)
              (\<lambda>r. r\<lparr>ob_retry_at := of_int (now + 60000)\<rparr>) (db_outbox db)\<rparr>, Some u))"

definition unlink_children :: "string \<Rightarrow> outbox_row list \<Rightarrow> outbox_row list" where
  "unlink_children i = update_rows (\<lambda>r. ob_predecessor r = Some i) (\<lambda>r. r\<lparr>ob_predecessor := None\<rparr>)"

text \<open>The answer to the probe: the status, or \<open>None\<close> for a transport failure.\<close>

definition probe_end :: "outbox_row \<Rightarrow> int option \<Rightarrow> replica_db \<Rightarrow> replica_db" where
  [step_defs]: "probe_end u status db =
    (if status = Some 403 \<or> status = Some 404
     then db\<lparr>db_outbox := delete_rows (\<lambda>r. ob_id r = ob_id u \<and> ob_state r = Accepted)
                (unlink_children (ob_id u) (db_outbox db))\<rparr>
     else db)"

subsection \<open>Claiming the next week\<close>

text \<open>Accepted weeks the replica has caught up with.\<close>

definition observed :: "replica_db \<Rightarrow> outbox_row \<Rightarrow> bool" where
  "observed db r \<longleftrightarrow> ob_state r = Accepted \<and>
    (case (db_staff db (ob_business r, ob_staff r), ob_result r) of
       (Some revision, Some result) \<Rightarrow> revision \<ge> result
     | _ \<Rightarrow> False)"

text \<open>A child of an observed week is released; one never sent expects the accepted revision.\<close>

definition release_child :: "outbox_row \<Rightarrow> outbox_row \<Rightarrow> outbox_row" where
  "release_child parent child =
    child\<lparr>ob_predecessor := None,
      ob_payload := (case (ob_attempts child, ob_result parent) of
          (0, Some v) \<Rightarrow> (ob_payload child)\<lparr>wr_expected := v\<rparr>
        | _ \<Rightarrow> ob_payload child)\<rparr>"

definition note_delay :: "int \<Rightarrow> string \<Rightarrow> (pref_key \<rightharpoonup> pref_value) \<Rightarrow> (pref_key \<rightharpoonup> pref_value)" where
  "note_delay now i prefs =
    (case prefs (Sync_Accepted i) of
       Some (P_Millis accepted) \<Rightarrow>
         (prefs(Sync_Replication_Delay \<mapsto> P_Millis (max 0 (now - accepted))))(Sync_Accepted i := None)
     | _ \<Rightarrow> prefs)"

definition settle_observed :: "int \<Rightarrow> outbox_row \<Rightarrow> replica_db \<Rightarrow> replica_db" where
  "settle_observed now parent db =
    db\<lparr>db_outbox := delete_rows (\<lambda>r. ob_id r = ob_id parent)
         (update_rows (\<lambda>r. ob_predecessor r = Some (ob_id parent)) (release_child parent) (db_outbox db)),
       db_prefs := note_delay now (ob_id parent) (db_prefs db)\<rparr>"

definition settle_all :: "int \<Rightarrow> replica_db \<Rightarrow> replica_db" where
  "settle_all now db =
    foldl (\<lambda>d parent. settle_observed now parent d) db (filter (observed db) (db_outbox db))"

definition sendable :: "int \<Rightarrow> outbox_row list \<Rightarrow> outbox_row \<Rightarrow> bool" where
  "sendable now rows r \<longleftrightarrow> ob_state r \<in> {Queued, Sending} \<and> ob_retry_at r \<le> of_int now \<and>
    (ob_predecessor r = None
     \<or> (\<exists>p\<in>set rows. ob_predecessor r = Some (ob_id p) \<and> ob_state p = Accepted)
     \<or> ob_attempts r > 0)"

text \<open>The request as it goes out: a first attempt after a predecessor expects its revision.\<close>

definition outgoing_payload :: "outbox_row list \<Rightarrow> outbox_row \<Rightarrow> week_request" where
  "outgoing_payload rows r =
    (if ob_attempts r = 0 then
       case Option.bind (ob_predecessor r) (row_by_id rows) of
         Some p \<Rightarrow> (case ob_result p of Some v \<Rightarrow> (ob_payload r)\<lparr>wr_expected := v\<rparr> | None \<Rightarrow> ob_payload r)
       | None \<Rightarrow> ob_payload r
     else ob_payload r)"

definition claimed_row :: "int \<Rightarrow> outbox_row list \<Rightarrow> outbox_row \<Rightarrow> outbox_row" where
  "claimed_row now rows r =
    r\<lparr>ob_state := Sending, ob_payload := outgoing_payload rows r,
      ob_attempts := ob_attempts r + 1, ob_retry_at := of_int (now + 20000)\<rparr>"

definition claim_next :: "int \<Rightarrow> replica_db \<Rightarrow> replica_db \<times> outbox_row option" where
  [step_defs]: "claim_next now db0 =
    (let db = settle_all now db0; rows = db_outbox db
     in case first_by_sequence (filter (sendable now rows) rows) of
          None \<Rightarrow> (db, None)
        | Some r \<Rightarrow>
            (db\<lparr>db_outbox := update_rows (\<lambda>x. ob_id x = ob_id r) (\<lambda>_. claimed_row now rows r) rows\<rparr>,
             Some (claimed_row now rows r)))"

subsection \<open>The server's answer\<close>

datatype retry_after = No_Header | Delta_Seconds rat | Http_Date int | Unreadable_Header

record http_response =
  rs_status :: int
  rs_retry_after :: retry_after
  rs_body :: "json option" \<comment> \<open>\<open>None\<close> when reading it fails\<close>

datatype upload_outcome = Answered http_response | Broke

record answer_env =
  an_now :: int
  an_random :: rat
  an_aborted :: bool
  an_iso :: string

definition response_ok :: "http_response \<Rightarrow> bool" where
  "response_ok r \<longleftrightarrow> 200 \<le> rs_status r \<and> rs_status r \<le> 299"

definition plan_retry_ms :: rat where "plan_retry_ms = 15 * 60000"

definition connection_failures :: "string list" where
  "connection_failures = [''transport'', ''paused'']"

definition backoff_ms :: "nat \<Rightarrow> int" where
  "backoff_ms attempts = min 300000 (1000 * 2 ^ min attempts 8)"

definition retry_week ::
  "answer_env \<Rightarrow> outbox_row \<Rightarrow> string \<Rightarrow> rat option \<Rightarrow> replica_db \<Rightarrow> replica_db" where
  "retry_week env row errcode delay db =
    db\<lparr>db_outbox := update_rows (\<lambda>r. ob_id r = ob_id row \<and> ob_state r = Sending)
      (\<lambda>r. r\<lparr>ob_state := Queued, ob_error := Some errcode,
             ob_retry_at := of_int (an_now env) +
               (case delay of Some d \<Rightarrow> d
                | None \<Rightarrow> of_int (backoff_ms (ob_attempts row)) * (8 / 10 + an_random env * (4 / 10)))\<rparr>)
      (db_outbox db)\<rparr>"

definition http_code :: "int \<Rightarrow> string" where
  "http_code status = ''http_'' @ int_string status"

definition reject_week :: "outbox_row \<Rightarrow> json option \<Rightarrow> int \<Rightarrow> replica_db \<Rightarrow> replica_db" where
  "reject_week row body status db =
    db\<lparr>db_outbox := update_rows (\<lambda>r. ob_id r = ob_id row \<and> ob_state r \<noteq> Accepted)
      (\<lambda>r. r\<lparr>ob_state := Rejected,
             ob_error := Some (case Option.bind body (json_member ''error'') of
                 Some (J_Str e) \<Rightarrow> e | _ \<Rightarrow> http_code status)\<rparr>)
      (db_outbox db)\<rparr>"

text \<open>The result of an accepted week; a malformed one is thrown and retried like a lost connection.\<close>

definition week_result :: "json option \<Rightarrow> (int \<times> string list) option" where
  "week_result body =
    (case (Option.bind (Option.bind body (json_member ''revision'')) safe_integer,
           Option.bind (Option.bind body (json_member ''stranded'')) json_strings) of
       (Some revision, Some stranded) \<Rightarrow> Some (revision, stranded)
     | _ \<Rightarrow> None)"

definition accept_week ::
  "answer_env \<Rightarrow> outbox_row \<Rightarrow> int \<Rightarrow> string list \<Rightarrow> replica_db \<Rightarrow> replica_db" where
  "accept_week env row revision stranded db =
    (let key = Hours_Stranded (ob_business row) (ob_staff row);
         prefs = (if db_prefs db (Sync_Accepted (ob_id row)) = None
                  then (db_prefs db)(Sync_Accepted (ob_id row) \<mapsto> P_Millis (an_now env)) else db_prefs db)
     in db\<lparr>db_outbox := update_rows (\<lambda>r. ob_id r = ob_id row)
              (\<lambda>r. r\<lparr>ob_state := Accepted, ob_result := Some revision, ob_error := None\<rparr>) (db_outbox db),
           db_prefs := prefs(key := if stranded \<noteq> [] then Some (P_Ids stranded) else None)\<rparr>)"

text \<open>The wait a \<open>Retry-After\<close> header asks for, held between a second and five minutes.\<close>

fun header_delay :: "int \<Rightarrow> retry_after \<Rightarrow> rat option" where
  "header_delay now (Delta_Seconds s) = Some (max 1000 (min (s * 1000) 300000))"
| "header_delay now (Http_Date until) = Some (max 1000 (min (of_int (until - now)) 300000))"
| "header_delay now No_Header = None"
| "header_delay now Unreadable_Header = None"

definition lost_code :: "answer_env \<Rightarrow> string" where
  "lost_code env = (if an_aborted env then ''paused'' else ''transport'')"

definition finish_upload :: "answer_env \<Rightarrow> outbox_row \<Rightarrow> upload_outcome \<Rightarrow> replica_db \<Rightarrow> replica_db" where
  [step_defs]: "finish_upload env row outcome db =
    (case outcome of
       Broke \<Rightarrow> retry_week env row (lost_code env) None db
     | Answered r \<Rightarrow>
        if response_ok r then
          (case week_result (rs_body r) of
             None \<Rightarrow> retry_week env row (lost_code env) None db
           | Some (revision, stranded) \<Rightarrow> accept_week env row revision stranded db)
        else if rs_status r = 402 then
          (if Option.bind (rs_body r) (json_member ''error'') = Some (J_Str ''plan_required'')
           then retry_week env row ''plan_required'' (Some plan_retry_ms) db
           else reject_week row (rs_body r) (rs_status r) db)
        else if rs_status r \<in> {401, 408, 429} \<or> rs_status r \<ge> 500 then
          retry_week env row (http_code (rs_status r)) (header_delay (an_now env) (rs_retry_after r)) db
        else reject_week row (rs_body r) (rs_status r) db)"

text \<open>The connection is back: weeks that waited out its loss go out on the next pass.\<close>

definition retry_now :: "replica_db \<Rightarrow> replica_db" where
  [step_defs]: "retry_now db =
    db\<lparr>db_outbox := update_rows
      (\<lambda>r. ob_state r = Queued \<and> (\<exists>e\<in>set connection_failures. ob_error r = Some e))
      (\<lambda>r. r\<lparr>ob_retry_at := 0\<rparr>) (db_outbox db)\<rparr>"

section \<open>The system of writers\<close>

text \<open>
  Tabs edit, discard, claim and answer in any order; between a claim (a probe) and its answer any
  other transaction may run, and the same week may be claimed again once its lease is over. The
  rows whose answer is outstanding are kept as they were claimed. An identifier drawn by
  \<open>randomUUID\<close> is not in use. The sync stream may report any revision for any member.
\<close>

record hours_system =
  hs_db :: replica_db
  hs_sent :: "outbox_row list"
  hs_probed :: "outbox_row list"

definition fresh_id :: "string \<Rightarrow> hours_system \<Rightarrow> bool" where
  "fresh_id i s \<longleftrightarrow> i \<notin> ob_id ` (set (db_outbox (hs_db s)) \<union> set (hs_sent s) \<union> set (hs_probed s))"

definition hours_initial :: "hours_system \<Rightarrow> bool" where
  "hours_initial s \<longleftrightarrow> db_outbox (hs_db s) = [] \<and> hs_sent s = [] \<and> hs_probed s = []"

inductive hours_step :: "hours_system \<Rightarrow> hours_system \<Rightarrow> bool" where
  step_enqueue: "enqueue_hours env inp (hs_db s) = Inr (db, out) \<Longrightarrow> fresh_id (ev_operation env) s \<Longrightarrow>
    hours_step s (s\<lparr>hs_db := db\<rparr>)"
| step_discard: "discard_rejected_hours business staff (hs_db s) = Inr db \<Longrightarrow> hours_step s (s\<lparr>hs_db := db\<rparr>)"
| step_discard_queue: "discard_rejected_queue (hs_db s) = Inr db \<Longrightarrow> hours_step s (s\<lparr>hs_db := db\<rparr>)"
| step_probe: "probe_begin now (hs_db s) = (db, Some u) \<Longrightarrow>
    hours_step s (s\<lparr>hs_db := db, hs_probed := u # hs_probed s\<rparr>)"
| step_probe_end: "u \<in> set (hs_probed s) \<Longrightarrow>
    hours_step s (s\<lparr>hs_db := probe_end u status (hs_db s), hs_probed := remove1 u (hs_probed s)\<rparr>)"
| step_idle: "claim_next now (hs_db s) = (db, None) \<Longrightarrow> hours_step s (s\<lparr>hs_db := db\<rparr>)"
| step_claim: "claim_next now (hs_db s) = (db, Some r) \<Longrightarrow>
    hours_step s (s\<lparr>hs_db := db, hs_sent := r # hs_sent s\<rparr>)"
| step_answer: "r \<in> set (hs_sent s) \<Longrightarrow>
    hours_step s (s\<lparr>hs_db := finish_upload env r outcome (hs_db s), hs_sent := remove1 r (hs_sent s)\<rparr>)"
| step_retry_now: "hours_step s (s\<lparr>hs_db := retry_now (hs_db s)\<rparr>)"
| step_replicate: "hours_step s (s\<lparr>hs_db := (hs_db s)\<lparr>db_staff := staff\<rparr>\<rparr>)"

section \<open>The outbox invariant\<close>

definition same_member :: "outbox_row \<Rightarrow> outbox_row \<Rightarrow> bool" where
  "same_member r q \<longleftrightarrow> ob_business r = ob_business q \<and> ob_staff r = ob_staff q"

definition row_ok :: "outbox_row \<Rightarrow> bool" where
  "row_ok r \<longleftrightarrow> (ob_state r = Accepted \<longleftrightarrow> ob_result r \<noteq> None) \<and> (ob_attempts r = 0 \<longrightarrow> ob_state r = Queued)"

text \<open>A row's predecessor is an older row of the member, accepted once the row has been sent.\<close>

definition link_ok :: "outbox_row list \<Rightarrow> outbox_row \<Rightarrow> bool" where
  "link_ok rows r \<longleftrightarrow> (\<forall>p. ob_predecessor r = Some p \<longrightarrow>
    (\<exists>q\<in>set rows. ob_id q = p \<and> same_member q r \<and> ob_sequence q < ob_sequence r
      \<and> (0 < ob_attempts r \<longrightarrow> ob_state q = Accepted)))"

text \<open>
  Weeks of a member are sent in the order they were proposed: every older week is accepted before a
  week is sent or loses its predecessor, and a predecessor is the next older week.
\<close>

definition order_ok :: "outbox_row list \<Rightarrow> outbox_row \<Rightarrow> outbox_row \<Rightarrow> bool" where
  "order_ok rows q r \<longleftrightarrow> (0 < ob_attempts r \<or> ob_predecessor r = None \<longrightarrow> ob_state q = Accepted)
    \<and> (\<forall>w\<in>set rows. ob_predecessor r = Some (ob_id w) \<longrightarrow> ob_sequence q \<le> ob_sequence w)"

definition outbox_inv :: "outbox_row list \<Rightarrow> bool" where
  "outbox_inv rows \<longleftrightarrow>
    sorted_wrt (\<lambda>r q. ob_sequence r < ob_sequence q) rows
    \<and> distinct (map ob_id rows)
    \<and> (\<forall>r\<in>set rows. row_ok r \<and> link_ok rows r)
    \<and> (\<forall>r\<in>set rows. \<forall>q\<in>set rows. same_member r q \<and> ob_sequence r < ob_sequence q \<longrightarrow>
        0 < ob_attempts r \<and> order_ok rows r q)"

lemma outbox_invD:
  assumes "outbox_inv rows"
  shows "sorted_wrt (\<lambda>r q. ob_sequence r < ob_sequence q) rows" "distinct (map ob_id rows)"
    "r \<in> set rows \<Longrightarrow> row_ok r" "r \<in> set rows \<Longrightarrow> link_ok rows r"
    "r \<in> set rows \<Longrightarrow> q \<in> set rows \<Longrightarrow> same_member r q \<Longrightarrow> ob_sequence r < ob_sequence q \<Longrightarrow> 0 < ob_attempts r"
    "r \<in> set rows \<Longrightarrow> q \<in> set rows \<Longrightarrow> same_member r q \<Longrightarrow> ob_sequence r < ob_sequence q \<Longrightarrow> order_ok rows r q"
  using assms by (auto simp: outbox_inv_def)

lemma outbox_inv_Nil [simp]: "outbox_inv []"
  by (simp add: outbox_inv_def)

lemma outbox_id_inj: "outbox_inv rows \<Longrightarrow> r \<in> set rows \<Longrightarrow> q \<in> set rows \<Longrightarrow> ob_id r = ob_id q \<Longrightarrow> r = q"
  using outbox_invD(2) by (auto simp: distinct_map inj_on_def)

lemma sent_not_unsent: "row_ok r \<Longrightarrow> ob_state r \<noteq> Queued \<Longrightarrow> 0 < ob_attempts r"
  by (auto simp: row_ok_def)

lemma outbox_link:
  assumes inv: "outbox_inv rows" and "r \<in> set rows" "q \<in> set rows" "ob_predecessor r = Some (ob_id q)"
  shows "same_member q r" "ob_sequence q < ob_sequence r" "0 < ob_attempts r \<Longrightarrow> ob_state q = Accepted"
proof -
  obtain q' where q': "q' \<in> set rows" "ob_id q' = ob_id q" "same_member q' r" "ob_sequence q' < ob_sequence r"
    "0 < ob_attempts r \<longrightarrow> ob_state q' = Accepted"
    using outbox_invD(4) [OF inv assms(2)] assms(4) by (auto simp: link_ok_def)
  then have "q' = q" using outbox_id_inj [OF inv] assms(3) by simp
  with q' show "same_member q r" "ob_sequence q < ob_sequence r" "0 < ob_attempts r \<Longrightarrow> ob_state q = Accepted"
    by simp_all
qed

lemma outbox_sequence_inj:
  assumes "outbox_inv rows" "r \<in> set rows" "q \<in> set rows" "ob_sequence r = ob_sequence q"
  shows "r = q"
  using outbox_invD(1) [OF assms(1)] assms(2-4)
  by (auto simp: sorted_wrt_iff_nth_less in_set_conv_nth) (metis less_irrefl linorder_neqE_nat)

lemma accepted_below_predecessor:
  assumes inv: "outbox_inv rows" and r: "r \<in> set rows" and q: "q \<in> set rows"
    and older: "same_member q r" "ob_sequence q < ob_sequence r"
    and p: "p \<in> set rows" "ob_predecessor r = Some (ob_id p)" "ob_state p = Accepted"
  shows "ob_state q = Accepted"
proof (cases "q = p")
  case False
  have "ob_sequence q \<le> ob_sequence p"
    using outbox_invD(6) [OF inv q r older] p(1,2) by (simp add: order_ok_def)
  moreover have "ob_sequence q \<noteq> ob_sequence p"
    using False outbox_sequence_inj [OF inv q p(1)] by blast
  moreover have "same_member q p"
    using older(1) outbox_link(1) [OF inv r p(1,2)] by (simp add: same_member_def)
  moreover have "0 < ob_attempts p"
    using sent_not_unsent [OF outbox_invD(3) [OF inv p(1)]] p(3) by simp
  ultimately show ?thesis using outbox_invD(6) [OF inv q p(1)] by (simp add: order_ok_def)
qed (use p in simp)

text \<open>
  Every transaction but a proposal rewrites rows in place and deletes some. Such a step keeps the
  invariant when it keeps each row's identity, forgets no attempt and no acceptance, adds no link,
  and deletes no row that a remaining one still points to.
\<close>

definition keeps_identity :: "(outbox_row \<Rightarrow> outbox_row) \<Rightarrow> outbox_row \<Rightarrow> bool" where
  "keeps_identity g r \<longleftrightarrow> ob_id (g r) = ob_id r \<and> ob_business (g r) = ob_business r
    \<and> ob_staff (g r) = ob_staff r \<and> ob_sequence (g r) = ob_sequence r"

definition parent_accepted :: "outbox_row list \<Rightarrow> outbox_row \<Rightarrow> bool" where
  "parent_accepted rows r \<longleftrightarrow>
    (\<exists>q\<in>set rows. ob_predecessor r = Some (ob_id q) \<and> ob_state q = Accepted)"

definition row_step_ok :: "outbox_row list \<Rightarrow> (outbox_row \<Rightarrow> outbox_row) \<Rightarrow> outbox_row \<Rightarrow> bool" where
  "row_step_ok rows g r \<longleftrightarrow> keeps_identity g r \<and> row_ok (g r) \<and> ob_attempts r \<le> ob_attempts (g r)
    \<and> (ob_state r = Accepted \<longrightarrow> ob_state (g r) = Accepted)
    \<and> (if ob_predecessor (g r) = None then ob_predecessor r = None \<or> parent_accepted rows r
        else ob_predecessor (g r) = ob_predecessor r
          \<and> (0 < ob_attempts (g r) \<longrightarrow> 0 < ob_attempts r \<or> parent_accepted rows r))"

lemma outbox_inv_rewrite:
  assumes inv: "outbox_inv rows"
    and ok: "\<And>r. r \<in> set rows \<Longrightarrow> row_step_ok rows g r"
    and kept: "\<And>r q. r \<in> set rows \<Longrightarrow> q \<in> set rows \<Longrightarrow> K (g r) \<Longrightarrow>
      ob_predecessor (g r) = Some (ob_id q) \<Longrightarrow> K (g q)"
  shows "outbox_inv (filter K (map g rows))"
proof -
  have ident: "ob_id (g r) = ob_id r \<and> ob_sequence (g r) = ob_sequence r
      \<and> ob_business (g r) = ob_business r \<and> ob_staff (g r) = ob_staff r"
    and attempts: "ob_attempts r \<le> ob_attempts (g r)" if "r \<in> set rows" for r
    using ok [OF that] by (auto simp: row_step_ok_def keeps_identity_def)
  have "sorted_wrt (\<lambda>r q. ob_sequence r < ob_sequence q) (map g rows)"
    using outbox_invD(1) [OF inv] ident by (auto simp: sorted_wrt_map intro: sorted_wrt_mono_rel [rotated])
  then have sorted: "sorted_wrt (\<lambda>r q. ob_sequence r < ob_sequence q) (filter K (map g rows))"
    by (rule sorted_wrt_filter)
  have "map ob_id (map g rows) = map ob_id rows" using ident by simp
  then have ids: "distinct (map ob_id (filter K (map g rows)))"
    using outbox_invD(2) [OF inv] by (metis distinct_map_filter)
  have link: "link_ok (filter K (map g rows)) (g r)" if r: "r \<in> set rows" "K (g r)" for r
    unfolding link_ok_def
  proof (intro allI impI)
    fix p assume p: "ob_predecessor (g r) = Some p"
    with ok [OF r(1)] have p': "ob_predecessor r = Some p"
      and sent: "0 < ob_attempts (g r) \<Longrightarrow> 0 < ob_attempts r
          \<or> (\<exists>q\<in>set rows. ob_id q = p \<and> ob_state q = Accepted)"
      by (auto simp: row_step_ok_def parent_accepted_def)
    obtain q where q: "q \<in> set rows" "ob_id q = p" "same_member q r" "ob_sequence q < ob_sequence r"
      and acc: "0 < ob_attempts r \<Longrightarrow> ob_state q = Accepted"
      using outbox_invD(4) [OF inv r(1)] p' by (auto simp: link_ok_def)
    have "ob_state q = Accepted" if "0 < ob_attempts (g r)"
    proof -
      from sent [OF that] show ?thesis
      proof
        assume "\<exists>q'\<in>set rows. ob_id q' = p \<and> ob_state q' = Accepted"
        then obtain q' where q': "q' \<in> set rows" "ob_id q' = p" "ob_state q' = Accepted" by blast
        with q have "q' = q" by (intro outbox_id_inj [OF inv]) simp_all
        with q' show ?thesis by simp
      qed (rule acc)
    qed
    then have "ob_state (g q) = Accepted" if "0 < ob_attempts (g r)"
      using that ok [OF q(1)] by (simp add: row_step_ok_def)
    moreover have "K (g q)" using kept [OF r(1) q(1) r(2)] p q by simp
    ultimately show "\<exists>q\<in>set (filter K (map g rows)). ob_id q = p \<and> same_member q (g r)
        \<and> ob_sequence q < ob_sequence (g r) \<and> (0 < ob_attempts (g r) \<longrightarrow> ob_state q = Accepted)"
      using q ident [OF q(1)] ident [OF r(1)] by (intro bexI [of _ "g q"]) (auto simp: same_member_def)
  qed
  have sent: "0 < ob_attempts (g r)"
    if "r \<in> set rows" "q \<in> set rows" "same_member (g r) (g q)" "ob_sequence (g r) < ob_sequence (g q)" for r q
  proof -
    have "0 < ob_attempts r"
      using that ident [OF that(1)] ident [OF that(2)]
      by (intro outbox_invD(5) [OF inv that(1,2)]) (auto simp: same_member_def)
    with attempts [OF that(1)] show ?thesis by simp
  qed
  have order: "order_ok (filter K (map g rows)) (g q) (g r)"
    if r: "r \<in> set rows" and q: "q \<in> set rows" and older: "same_member (g q) (g r)" "ob_sequence (g q) < ob_sequence (g r)"
    for r q
  proof -
    have older': "same_member q r" "ob_sequence q < ob_sequence r"
      using older ident [OF r] ident [OF q] by (auto simp: same_member_def)
    note old = outbox_invD(6) [OF inv q r older']
    have below: "parent_accepted rows r \<Longrightarrow> ob_state q = Accepted"
      using accepted_below_predecessor [OF inv r q older'] by (auto simp: parent_accepted_def)
    have "ob_state q = Accepted" if "0 < ob_attempts (g r) \<or> ob_predecessor (g r) = None"
      using that ok [OF r] old below by (auto simp: row_step_ok_def order_ok_def split: if_splits)
    moreover have "ob_state q = Accepted \<Longrightarrow> ob_state (g q) = Accepted"
      using ok [OF q] by (simp add: row_step_ok_def)
    moreover have "ob_sequence (g q) \<le> ob_sequence (g w)"
      if "w \<in> set rows" "ob_predecessor (g r) = Some (ob_id (g w))" for w
    proof -
      have "ob_predecessor r = Some (ob_id w)"
        using that(2) ok [OF r] ident [OF that(1)] by (simp add: row_step_ok_def)
      with old that(1) have "ob_sequence q \<le> ob_sequence w" by (simp add: order_ok_def)
      with ident [OF q] ident [OF that(1)] show ?thesis by simp
    qed
    ultimately show ?thesis by (auto simp: order_ok_def)
  qed
  have image: "\<exists>r\<in>set rows. x = g r \<and> K (g r)" if "x \<in> set (filter K (map g rows))" for x
    using that by auto
  have "row_ok x \<and> link_ok (filter K (map g rows)) x" if "x \<in> set (filter K (map g rows))" for x
  proof -
    from image [OF that] obtain r where r: "r \<in> set rows" "x = g r" "K (g r)" by blast
    show ?thesis using ok [OF r(1)] link [OF r(1,3)] unfolding r(2) row_step_ok_def by blast
  qed
  moreover have "0 < ob_attempts x \<and> order_ok (filter K (map g rows)) x y"
    if "x \<in> set (filter K (map g rows))" "y \<in> set (filter K (map g rows))"
      "same_member x y" "ob_sequence x < ob_sequence y" for x y
  proof -
    from image [OF that(1)] image [OF that(2)] obtain r q
      where "r \<in> set rows" "x = g r" "q \<in> set rows" "y = g q" by blast
    with that(3,4) sent order show ?thesis by simp
  qed
  ultimately show ?thesis
    using sorted ids unfolding outbox_inv_def by blast
qed

lemma distinct_filter_keys: "distinct (map f xs) \<Longrightarrow> distinct (map f (filter P xs))"
  by (induction xs) auto

lemma row_step_ok_id: "row_ok r \<Longrightarrow> row_step_ok rows (\<lambda>r. r) r"
  by (simp add: row_step_ok_def keeps_identity_def)

lemma outbox_inv_delete:
  assumes inv: "outbox_inv rows"
    and kept: "\<And>r q. r \<in> set rows \<Longrightarrow> q \<in> set rows \<Longrightarrow> \<not> D r \<Longrightarrow>
      ob_predecessor r = Some (ob_id q) \<Longrightarrow> \<not> D q"
  shows "outbox_inv (delete_rows D rows)"
proof -
  have "outbox_inv (filter (\<lambda>r. \<not> D r) (map (\<lambda>r. r) rows))"
  proof (rule outbox_inv_rewrite [OF inv])
    show "row_step_ok rows (\<lambda>r. r) r" if "r \<in> set rows" for r
      using outbox_invD(3) [OF inv that] by (rule row_step_ok_id)
  qed (rule kept)
  then show ?thesis by (simp add: delete_rows_def)
qed

lemma outbox_inv_update:
  assumes inv: "outbox_inv rows"
    and ok: "\<And>r. r \<in> set rows \<Longrightarrow> P r \<Longrightarrow> row_step_ok rows f r"
  shows "outbox_inv (update_rows P f rows)"
proof -
  have "outbox_inv (filter (\<lambda>_. True) (map (\<lambda>r. if P r then f r else r) rows))"
  proof (rule outbox_inv_rewrite [OF inv])
    show "row_step_ok rows (\<lambda>r. if P r then f r else r) r" if r: "r \<in> set rows" for r
    proof (cases "P r")
      case True with ok [OF r True] show ?thesis by (simp add: row_step_ok_def keeps_identity_def)
    next
      case False with outbox_invD(3) [OF inv r] show ?thesis by (simp add: row_step_ok_def keeps_identity_def)
    qed
  qed simp
  then show ?thesis by (simp add: update_rows_def)
qed

lemma in_group_same: "same_member q r \<Longrightarrow> in_group b s q \<longleftrightarrow> in_group b s r"
  by (simp add: same_member_def in_group_def)

section \<open>Every transaction keeps the invariant\<close>

lemma outbox_inv_discard_group: "outbox_inv rows \<Longrightarrow> outbox_inv (delete_rows (in_group b s) rows)"
  by (rule outbox_inv_delete) (auto dest: outbox_link(1) simp: in_group_same)

lemma outbox_inv_discard_unaccepted:
  assumes inv: "outbox_inv rows"
  shows "outbox_inv (delete_rows (\<lambda>r. in_group b s r \<and> ob_state r \<noteq> Accepted) rows)"
proof (rule outbox_inv_delete [OF inv])
  fix r q assume r: "r \<in> set rows" "q \<in> set rows" "\<not> (in_group b s r \<and> ob_state r \<noteq> Accepted)"
    "ob_predecessor r = Some (ob_id q)"
  note link = outbox_link [OF inv r(1,2,4)]
  show "\<not> (in_group b s q \<and> ob_state q \<noteq> Accepted)"
  proof (cases "in_group b s r")
    case True
    with r(3) have "0 < ob_attempts r" using sent_not_unsent [OF outbox_invD(3) [OF inv r(1)]] by simp
    with link(3) show ?thesis by simp
  next
    case False with in_group_same [OF link(1)] show ?thesis by simp
  qed
qed

lemma in_update_rows: "x \<in> set (update_rows P f rows) \<longleftrightarrow> (\<exists>r\<in>set rows. x = (if P r then f r else r))"
  by (auto simp: update_rows_def)

lemma in_update_rowsE:
  assumes "x \<in> set (update_rows P f rows)"
  obtains r where "r \<in> set rows" "P r" "x = f r" | "x \<in> set rows" "\<not> P x"
  using assms by (auto simp: update_rows_def)

lemma in_delete_rows: "x \<in> set (delete_rows D rows) \<longleftrightarrow> x \<in> set rows \<and> \<not> D x"
  by (simp add: delete_rows_def)

text \<open>
  \<open>carried rows rows'\<close>: every row of \<open>rows'\<close> comes from one of \<open>rows\<close> with the same identifier, has
  forgotten no attempt, and is still accepted if that one was.
\<close>

definition carried :: "outbox_row list \<Rightarrow> outbox_row list \<Rightarrow> bool" where
  "carried rows rows' \<longleftrightarrow> (\<forall>r'\<in>set rows'. \<exists>r\<in>set rows. ob_id r = ob_id r' \<and> ob_attempts r \<le> ob_attempts r'
    \<and> (ob_state r = Accepted \<longrightarrow> ob_state r' = Accepted))"

named_theorems carried \<open>transactions that carry the rows over\<close>

text \<open>The rows with the identifier of a week that was sent, or was seen accepted.\<close>

definition was_sent :: "outbox_row list \<Rightarrow> outbox_row \<Rightarrow> bool" where
  "was_sent rows u \<longleftrightarrow> (\<forall>r\<in>set rows. ob_id r = ob_id u \<longrightarrow> 0 < ob_attempts r)"

definition was_accepted :: "outbox_row list \<Rightarrow> outbox_row \<Rightarrow> bool" where
  "was_accepted rows u \<longleftrightarrow> (\<forall>r\<in>set rows. ob_id r = ob_id u \<longrightarrow> ob_state r = Accepted)"

lemma carried_refl [carried]: "carried rows rows"
  by (auto simp: carried_def)

lemma carried_trans: "carried a b \<Longrightarrow> carried b c \<Longrightarrow> carried a c"
  unfolding carried_def by (metis order_trans)

lemma carried_delete [carried]: "carried rows rows' \<Longrightarrow> carried rows (delete_rows D rows')"
  by (auto simp: carried_def delete_rows_def)

lemma carried_update:
  assumes "\<And>r. r \<in> set rows \<Longrightarrow> P r \<Longrightarrow> ob_id (f r) = ob_id r \<and> ob_attempts r \<le> ob_attempts (f r)
    \<and> (ob_state r = Accepted \<longrightarrow> ob_state (f r) = Accepted)"
  shows "carried rows (update_rows P f rows)"
  using assms by (fastforce simp: carried_def in_update_rows)

lemma was_sent_carried: "was_sent rows u \<Longrightarrow> carried rows rows' \<Longrightarrow> was_sent rows' u"
  unfolding was_sent_def carried_def by (metis order_less_le_trans)

lemma was_accepted_carried: "was_accepted rows u \<Longrightarrow> carried rows rows' \<Longrightarrow> was_accepted rows' u"
  unfolding was_accepted_def carried_def by metis

lemma carried_settle_observed [carried]: "carried (db_outbox db) (db_outbox (settle_observed now parent db))"
  unfolding settle_observed_def
  by simp (intro carried_delete carried_update, simp add: release_child_def)

text \<open>Removing a row after its children were released.\<close>

lemma outbox_inv_release:
  assumes inv: "outbox_inv rows"
    and free: "\<And>r. ob_predecessor (f r) = None"
    and same: "\<And>r. keeps_identity f r \<and> ob_state (f r) = ob_state r \<and> ob_attempts (f r) = ob_attempts r
      \<and> ob_result (f r) = ob_result r"
    and acc: "\<And>q. q \<in> set rows \<Longrightarrow> ob_id q = i \<Longrightarrow> ob_state q = Accepted"
    and D: "\<And>r. D r \<Longrightarrow> ob_id r = i"
  shows "outbox_inv (delete_rows D (update_rows (\<lambda>r. ob_predecessor r = Some i) f rows))"
proof (rule outbox_inv_delete)
  show "outbox_inv (update_rows (\<lambda>r. ob_predecessor r = Some i) f rows)"
  proof (rule outbox_inv_update [OF inv])
    fix r assume r: "r \<in> set rows" "ob_predecessor r = Some i"
    then obtain q where "q \<in> set rows" "ob_id q = i"
      using outbox_invD(4) [OF inv r(1)] by (auto simp: link_ok_def)
    with acc r(2) have "parent_accepted rows r" by (auto simp: parent_accepted_def)
    with outbox_invD(3) [OF inv r(1)] show "row_step_ok rows f r"
      by (simp add: row_step_ok_def row_ok_def free same)
  qed
next
  fix r q :: outbox_row assume "r \<in> set (update_rows (\<lambda>r. ob_predecessor r = Some i) f rows)"
    and link: "ob_predecessor r = Some (ob_id q)"
  then obtain x where "r = (if ob_predecessor x = Some i then f x else x)"
    unfolding in_update_rows by blast
  then have "ob_predecessor r \<noteq> Some i"
    using free [of x] by (cases "ob_predecessor x = Some i") simp_all
  with link D show "\<not> D q" by auto
qed

lemma outbox_inv_settle_observed:
  assumes "outbox_inv (db_outbox db)" "was_accepted (db_outbox db) parent"
  shows "outbox_inv (db_outbox (settle_observed now parent db))"
proof -
  have "outbox_inv (delete_rows (\<lambda>r. ob_id r = ob_id parent)
      (update_rows (\<lambda>r. ob_predecessor r = Some (ob_id parent)) (release_child parent) (db_outbox db)))"
    using assms(2)
    by (intro outbox_inv_release [OF assms(1)]) (simp_all add: release_child_def keeps_identity_def was_accepted_def)
  then show ?thesis by (simp add: settle_observed_def)
qed

lemma was_accepted_observed:
  "outbox_inv (db_outbox db) \<Longrightarrow> r \<in> set (db_outbox db) \<Longrightarrow> observed db r \<Longrightarrow> was_accepted (db_outbox db) r"
  using outbox_id_inj by (fastforce simp: was_accepted_def observed_def)

lemma outbox_inv_settle_all:
  assumes "outbox_inv (db_outbox db)"
  shows "outbox_inv (db_outbox (settle_all now db))"
proof -
  have "outbox_inv (db_outbox (foldl (\<lambda>d parent. settle_observed now parent d) db ps))"
    if "outbox_inv (db_outbox db)" "\<And>u. u \<in> set ps \<Longrightarrow> was_accepted (db_outbox db) u" for ps
    using that
  proof (induction ps arbitrary: db)
    case (Cons u ps)
    have "outbox_inv (db_outbox (settle_observed now u db))"
      using Cons.prems by (simp add: outbox_inv_settle_observed)
    moreover have "was_accepted (db_outbox (settle_observed now u db)) v" if "v \<in> set ps" for v
      using was_accepted_carried [OF _ carried_settle_observed] Cons.prems(2) that by simp
    ultimately show ?case using Cons.IH by simp
  qed simp
  from this [OF assms, of "filter (observed db) (db_outbox db)"] show ?thesis
    using was_accepted_observed [OF assms] unfolding settle_all_def by simp
qed

lemma outbox_inv_probe_end:
  assumes "outbox_inv (db_outbox db)" "was_accepted (db_outbox db) u"
  shows "outbox_inv (db_outbox (probe_end u status db))"
proof -
  have "outbox_inv (delete_rows (\<lambda>r. ob_id r = ob_id u \<and> ob_state r = Accepted)
      (unlink_children (ob_id u) (db_outbox db)))"
    unfolding unlink_children_def using assms(2)
    by (intro outbox_inv_release [OF assms(1)]) (simp_all add: keeps_identity_def was_accepted_def)
  with assms show ?thesis by (simp add: probe_end_def)
qed

lemma first_by_sequence_Some:
  assumes "first_by_sequence rows = Some r"
  shows "r \<in> set rows" "q \<in> set rows \<Longrightarrow> ob_sequence r \<le> ob_sequence q"
proof -
  obtain rs where s: "sort_key ob_sequence rows = r # rs"
    using assms by (auto simp: first_by_sequence_def split: list.splits)
  from s have set: "set (r # rs) = set rows" by (metis set_sort)
  then show "r \<in> set rows" by auto
  have "sorted (map ob_sequence (r # rs))" using sorted_sort_key [of ob_sequence rows] s by simp
  then show "q \<in> set rows \<Longrightarrow> ob_sequence r \<le> ob_sequence q"
    unfolding set [symmetric] by auto
qed

lemma first_by_sequence_None: "first_by_sequence rows = None \<longleftrightarrow> rows = []"
  by (auto simp: first_by_sequence_def split: list.splits) (metis set_empty set_sort)

lemma last_by_sequence_Some:
  assumes "last_by_sequence rows = Some r"
  shows "r \<in> set rows" "q \<in> set rows \<Longrightarrow> ob_sequence q \<le> ob_sequence r"
proof -
  let ?s = "sort_key ob_sequence rows"
  have ne: "?s \<noteq> []" and r: "r = last ?s"
    using assms by (auto simp: last_by_sequence_def split: if_splits dest: arg_cong [where f = set])
  then show "r \<in> set rows" by (metis last_in_set set_sort)
  have "sorted (map ob_sequence ?s)" by simp
  moreover assume "q \<in> set rows"
  then obtain i where "i < length ?s" "?s ! i = q" by (metis in_set_conv_nth set_sort)
  ultimately show "ob_sequence q \<le> ob_sequence r"
    using ne r by (auto simp: last_conv_nth sorted_iff_nth_mono)
qed

lemma last_by_sequence_None: "last_by_sequence rows = None \<longleftrightarrow> rows = []"
  by (simp add: last_by_sequence_def)

lemma outbox_inv_claim:
  assumes inv: "outbox_inv rows" and r: "r \<in> set rows" "sendable now rows r"
  shows "outbox_inv (update_rows (\<lambda>x. ob_id x = ob_id r) (\<lambda>_. claimed_row now rows r) rows)"
proof (rule outbox_inv_update [OF inv])
  fix x assume x: "x \<in> set rows" "ob_id x = ob_id r"
  then have "x = r" using outbox_id_inj [OF inv] r(1) by simp
  moreover have "ob_result r = None" "ob_state r \<noteq> Accepted"
    using outbox_invD(3) [OF inv r(1)] r(2) by (auto simp: row_ok_def sendable_def)
  ultimately show "row_step_ok rows (\<lambda>_. claimed_row now rows r) x"
    using r(2)
    by (auto simp: row_step_ok_def keeps_identity_def claimed_row_def row_ok_def sendable_def parent_accepted_def)
qed

lemma outbox_inv_claim_next: "outbox_inv (db_outbox db) \<Longrightarrow> outbox_inv (db_outbox (fst (claim_next now db)))"
  by (auto simp: claim_next_def Let_def outbox_inv_settle_all split: option.split
      intro!: outbox_inv_claim dest!: first_by_sequence_Some(1))

lemma outbox_inv_probe_begin: "outbox_inv (db_outbox db) \<Longrightarrow> outbox_inv (db_outbox (fst (probe_begin now db)))"
  by (auto simp: probe_begin_def split: option.split
      intro!: outbox_inv_update dest: outbox_invD(3) simp: row_step_ok_def keeps_identity_def row_ok_def)

lemma outbox_inv_retry_now: "outbox_inv (db_outbox db) \<Longrightarrow> outbox_inv (db_outbox (retry_now db))"
  by (auto simp: retry_now_def intro!: outbox_inv_update dest: outbox_invD(3)
      simp: row_step_ok_def keeps_identity_def row_ok_def)

lemma outbox_inv_retry_week:
  "outbox_inv (db_outbox db) \<Longrightarrow> was_sent (db_outbox db) u \<Longrightarrow>
    outbox_inv (db_outbox (retry_week env u code delay db))"
  by (auto simp: retry_week_def was_sent_def intro!: outbox_inv_update dest: outbox_invD(3)
      simp: row_step_ok_def keeps_identity_def row_ok_def)

lemma outbox_inv_reject_week:
  "outbox_inv (db_outbox db) \<Longrightarrow> was_sent (db_outbox db) u \<Longrightarrow>
    outbox_inv (db_outbox (reject_week u body status db))"
  by (auto simp: reject_week_def was_sent_def intro!: outbox_inv_update dest: outbox_invD(3)
      simp: row_step_ok_def keeps_identity_def row_ok_def)

lemma outbox_inv_accept_week:
  "outbox_inv (db_outbox db) \<Longrightarrow> was_sent (db_outbox db) u \<Longrightarrow>
    outbox_inv (db_outbox (accept_week env u revision stranded db))"
  by (auto simp: accept_week_def was_sent_def Let_def intro!: outbox_inv_update dest: outbox_invD(3)
      simp: row_step_ok_def keeps_identity_def row_ok_def)

lemmas outbox_inv_answers = outbox_inv_retry_week outbox_inv_reject_week outbox_inv_accept_week

text \<open>Every answer is one of three writes.\<close>

definition try_later :: "int \<Rightarrow> bool" where
  "try_later status \<longleftrightarrow> status \<in> {401, 408, 429} \<or> status \<ge> 500"

definition plan_lapsed :: "http_response \<Rightarrow> bool" where
  "plan_lapsed r \<longleftrightarrow> Option.bind (rs_body r) (json_member ''error'') = Some (J_Str ''plan_required'')"

lemma finish_upload_answers:
  "finish_upload env u Broke db = retry_week env u (lost_code env) None db"
  "response_ok r \<Longrightarrow> week_result (rs_body r) = None \<Longrightarrow>
    finish_upload env u (Answered r) db = retry_week env u (lost_code env) None db"
  "response_ok r \<Longrightarrow> week_result (rs_body r) = Some (revision, stranded) \<Longrightarrow>
    finish_upload env u (Answered r) db = accept_week env u revision stranded db"
  "\<not> response_ok r \<Longrightarrow> rs_status r = 402 \<Longrightarrow> plan_lapsed r \<Longrightarrow>
    finish_upload env u (Answered r) db = retry_week env u ''plan_required'' (Some plan_retry_ms) db"
  "\<not> response_ok r \<Longrightarrow> rs_status r = 402 \<Longrightarrow> \<not> plan_lapsed r \<Longrightarrow>
    finish_upload env u (Answered r) db = reject_week u (rs_body r) (rs_status r) db"
  "\<not> response_ok r \<Longrightarrow> rs_status r \<noteq> 402 \<Longrightarrow> try_later (rs_status r) \<Longrightarrow>
    finish_upload env u (Answered r) db =
      retry_week env u (http_code (rs_status r)) (header_delay (an_now env) (rs_retry_after r)) db"
  "\<not> response_ok r \<Longrightarrow> rs_status r \<noteq> 402 \<Longrightarrow> \<not> try_later (rs_status r) \<Longrightarrow>
    finish_upload env u (Answered r) db = reject_week u (rs_body r) (rs_status r) db"
  by (simp_all add: finish_upload_def try_later_def plan_lapsed_def)

lemma finish_upload_cases:
  "(\<exists>code delay. finish_upload env u outcome db = retry_week env u code delay db)
   \<or> (\<exists>body status. finish_upload env u outcome db = reject_week u body status db)
   \<or> (\<exists>r revision stranded. outcome = Answered r \<and> response_ok r
        \<and> week_result (rs_body r) = Some (revision, stranded)
        \<and> finish_upload env u outcome db = accept_week env u revision stranded db)"
proof (cases outcome)
  case Broke then show ?thesis using finish_upload_answers(1) by blast
next
  case (Answered r)
  show ?thesis
  proof (cases "response_ok r")
    case True
    show ?thesis
    proof (cases "week_result (rs_body r)")
      case None then show ?thesis using finish_upload_answers(2) [OF True] Answered by blast
    next
      case (Some p) then show ?thesis using finish_upload_answers(3) [OF True] Answered True by (cases p) blast
    qed
  next
    case False
    then show ?thesis unfolding Answered
      using finish_upload_answers(4-7) [OF False]
      by (cases "rs_status r = 402"; cases "plan_lapsed r"; cases "try_later (rs_status r)") blast+
  qed
qed

lemma outbox_inv_finish_upload:
  "outbox_inv (db_outbox db) \<Longrightarrow> was_sent (db_outbox db) u \<Longrightarrow>
    outbox_inv (db_outbox (finish_upload env u outcome db))"
  using finish_upload_cases [of env u outcome db] by (elim disjE exE conjE) (simp_all add: outbox_inv_answers)

lemma outbox_inv_discard_rejected:
  "discard_rejected_hours b s db = Inr db' \<Longrightarrow> outbox_inv (db_outbox db) \<Longrightarrow> outbox_inv (db_outbox db')"
  by (auto simp: discard_rejected_hours_def Let_def outbox_inv_discard_group split: if_splits)

lemma outbox_inv_discard_groups:
  "discard_groups gs db = Inr db' \<Longrightarrow> outbox_inv (db_outbox db) \<Longrightarrow> outbox_inv (db_outbox db')"
  by (induction gs db rule: discard_groups.induct)
    (auto simp: outbox_inv_discard_unaccepted split: if_splits)

subsection \<open>A proposal\<close>

lemma outbox_inv_append:
  assumes inv: "outbox_inv rows"
    and seq: "\<And>r. r \<in> set rows \<Longrightarrow> ob_sequence r < ob_sequence new"
    and id: "ob_id new \<notin> ob_id ` set rows"
    and row: "ob_state new = Queued" "ob_result new = None" "ob_attempts new = 0"
    and pred: "\<And>p. ob_predecessor new = Some p \<Longrightarrow> \<exists>q\<in>set rows. ob_id q = p \<and> same_member q new"
    and older: "\<And>r. r \<in> set rows \<Longrightarrow> same_member r new \<Longrightarrow> 0 < ob_attempts r
      \<and> (\<exists>p\<in>set rows. ob_predecessor new = Some (ob_id p) \<and> ob_sequence r \<le> ob_sequence p)"
  shows "outbox_inv (rows @ [new])"
proof -
  have "link_ok (rows @ [new]) r" if "r \<in> set rows" for r
    using outbox_invD(4) [OF inv that] by (fastforce simp: link_ok_def)
  moreover have "link_ok (rows @ [new]) new"
    using pred seq row by (fastforce simp: link_ok_def)
  moreover have "0 < ob_attempts r \<and> order_ok (rows @ [new]) r q"
    if "r \<in> set (rows @ [new])" "q \<in> set (rows @ [new])" "same_member r q" "ob_sequence r < ob_sequence q" for r q
  proof -
    have "r \<noteq> new" using that(2,4) seq [of q] by auto
    then have r: "r \<in> set rows" using that(1) by simp
    show ?thesis
    proof (cases "q = new")
      case True
      with older [OF r] that(3) obtain p where p: "0 < ob_attempts r" "p \<in> set rows"
        "ob_predecessor new = Some (ob_id p)" "ob_sequence r \<le> ob_sequence p" by blast
      have "w = p" if "w \<in> set (rows @ [new])" "ob_id w = ob_id p" for w
        using that id p(2) outbox_id_inj [OF inv] by (cases "w = new") auto
      then have "ob_sequence r \<le> ob_sequence w" if "w \<in> set (rows @ [new])" "ob_predecessor new = Some (ob_id w)" for w
        using that p(3,4) by (metis option.inject)
      moreover have "ob_predecessor new \<noteq> None" using p(3) by simp
      ultimately show ?thesis using row(3) p(1) unfolding True order_ok_def by auto
    next
      case False
      with that(2) have q: "q \<in> set rows" by simp
      have "\<not> ob_predecessor q = Some (ob_id new)"
        using outbox_invD(4) [OF inv q] id unfolding link_ok_def by (metis image_eqI)
      then show ?thesis
        using outbox_invD(5,6) [OF inv r q that(3,4)] by (auto simp: order_ok_def)
    qed
  qed
  ultimately have "\<forall>r\<in>set (rows @ [new]). \<forall>q\<in>set (rows @ [new]). same_member r q \<and> ob_sequence r < ob_sequence q \<longrightarrow>
      0 < ob_attempts r \<and> order_ok (rows @ [new]) r q" "\<forall>r\<in>set (rows @ [new]). link_ok (rows @ [new]) r"
    by (blast, auto)
  then show ?thesis
    using outbox_invD(1-3) [OF inv] seq id row
    unfolding outbox_inv_def by (simp add: sorted_wrt_append row_ok_def)
qed

lemma next_sequence_greater: "r \<in> set rows \<Longrightarrow> ob_sequence r < next_sequence rows"
  by (cases "rows = []") (simp_all add: next_sequence_def less_add_one add1_zle_eq [symmetric])

lemma outbox_inv_edit_unsent: "outbox_inv (db_outbox db) \<Longrightarrow> outbox_inv (db_outbox (fst (edit_unsent inp p db)))"
  by (auto simp: edit_unsent_def Let_def intro!: outbox_inv_update dest: outbox_invD(3)
      simp: row_step_ok_def keeps_identity_def row_ok_def)

definition after_repair :: "enqueue_input \<Rightarrow> replica_db \<Rightarrow> replica_db" where
  "after_repair inp db =
    (if en_repair inp
     then db\<lparr>db_outbox := delete_rows (in_group (en_business inp) (en_staff inp)) (db_outbox db)\<rparr> else db)"

definition newest_week :: "string \<Rightarrow> string \<Rightarrow> outbox_row list \<Rightarrow> outbox_row option" where
  "newest_week business staff rows = last_by_sequence (filter (in_group business staff) rows)"

lemma newest_weekD:
  assumes "newest_week b s rows = Some p"
  shows "p \<in> set rows" "in_group b s p"
    "r \<in> set rows \<Longrightarrow> in_group b s r \<Longrightarrow> ob_sequence r \<le> ob_sequence p"
  using last_by_sequence_Some [OF assms [unfolded newest_week_def]] by auto

lemma newest_week_None: "newest_week b s rows = None \<longleftrightarrow> (\<forall>r\<in>set rows. \<not> in_group b s r)"
  by (auto simp: newest_week_def last_by_sequence_None filter_empty_conv)

lemma enqueue_hours_cases:
  assumes "enqueue_hours env inp db0 = Inr (db', out)"
  obtains (edit) p where "newest_week (en_business inp) (en_staff inp) (db_outbox (after_repair inp db0)) = Some p"
      "en_predecessor inp = Some (ob_id p, ob_payload p)" "ob_state p = Queued" "ob_attempts p = 0"
      "(db', out) = edit_unsent inp p (after_repair inp db0)"
  | (first) actor where
      "newest_week (en_business inp) (en_staff inp) (db_outbox (after_repair inp db0)) = None"
      "(db', out) = append_week env inp actor None (after_repair inp db0)"
  | (chain) actor p where
      "newest_week (en_business inp) (en_staff inp) (db_outbox (after_repair inp db0)) = Some p"
      "en_predecessor inp = Some (ob_id p, ob_payload p)"
      "ob_state p \<noteq> Rejected" "\<not> (ob_state p = Queued \<and> ob_attempts p = 0)"
      "(db', out) = append_week env inp actor (Some p) (after_repair inp db0)"
proof -
  let ?db = "after_repair inp db0"
  let ?prev = "newest_week (en_business inp) (en_staff inp) (db_outbox ?db)"
  obtain actor where run: "(if stale_predecessor ?prev (en_predecessor inp) then Inl Changed_Elsewhere
      else case ?prev of
             Some p \<Rightarrow> if ob_state p = Rejected then Inl Needs_Review
               else if ob_state p = Queued \<and> ob_attempts p = 0 then Inr (edit_unsent inp p ?db)
               else Inr (append_week env inp actor ?prev ?db)
           | None \<Rightarrow> Inr (append_week env inp actor ?prev ?db)) = Inr (db', out)"
    using assms
    by (auto simp: enqueue_hours_def Let_def after_repair_def newest_week_def
        split: option.splits pref_value.splits if_splits)
  show thesis
  proof (cases ?prev)
    case None
    with run have "(db', out) = append_week env inp actor None ?db" by (simp add: stale_predecessor_def)
    with None first show thesis by blast
  next
    case (Some p)
    with run have "en_predecessor inp = Some (ob_id p, ob_payload p)"
      by (auto simp: stale_predecessor_def split: if_splits)
    then have fresh: "\<not> stale_predecessor (Some p) (en_predecessor inp)" by (simp add: stale_predecessor_def)
    have ok: "ob_state p \<noteq> Rejected" using run Some fresh by (auto split: if_splits)
    show thesis
    proof (cases "ob_state p = Queued \<and> ob_attempts p = 0")
      case True
      with run Some fresh ok have "(db', out) = edit_unsent inp p ?db" by simp
      with edit Some True \<open>en_predecessor inp = _\<close> show thesis by blast
    next
      case False
      with run Some fresh ok have "(db', out) = append_week env inp actor (Some p) ?db"
        by (simp only: if_False option.case sum.inject)
      with chain Some False ok \<open>en_predecessor inp = _\<close> show thesis by blast
    qed
  qed
qed

lemma device_of_outbox [simp]: "db_outbox (snd (device_of env db)) = db_outbox db"
  by (simp add: device_of_def split: option.split pref_value.split)

definition new_week :: "enqueue_env \<Rightarrow> enqueue_input \<Rightarrow> string \<Rightarrow> outbox_row option \<Rightarrow> replica_db \<Rightarrow> outbox_row" where
  "new_week env inp actor previous db = last (db_outbox (fst (append_week env inp actor previous db)))"

lemma append_week_outbox:
  "db_outbox (fst (append_week env inp actor previous db)) = db_outbox db @ [new_week env inp actor previous db]"
  by (simp add: new_week_def append_week_def Let_def split_beta)

lemma new_week_fields:
  "ob_id (new_week env inp actor previous db) = ev_operation env"
  "ob_business (new_week env inp actor previous db) = en_business inp"
  "ob_staff (new_week env inp actor previous db) = en_staff inp"
  "ob_state (new_week env inp actor previous db) = Queued"
  "ob_attempts (new_week env inp actor previous db) = 0"
  "ob_result (new_week env inp actor previous db) = None"
  "ob_retry_at (new_week env inp actor previous db) = 0"
  "ob_predecessor (new_week env inp actor previous db) = map_option ob_id previous"
  "ob_sequence (new_week env inp actor previous db) = next_sequence (db_outbox db)"
  "wr_days (ob_payload (new_week env inp actor previous db)) = en_days inp"
  "wr_expected (ob_payload (new_week env inp actor previous db)) = chained_revision inp previous"
  by (simp_all add: new_week_def append_week_def Let_def split_beta)

lemma outbox_inv_after_repair: "outbox_inv (db_outbox db) \<Longrightarrow> outbox_inv (db_outbox (after_repair inp db))"
  by (simp add: after_repair_def outbox_inv_discard_group)

lemma set_after_repair: "set (db_outbox (after_repair inp db)) \<subseteq> set (db_outbox db)"
  by (auto simp: after_repair_def delete_rows_def)

lemma outbox_inv_append_week:
  assumes inv: "outbox_inv (db_outbox db)" and fresh: "ev_operation env \<notin> ob_id ` set (db_outbox db)"
    and prev: "newest_week (en_business inp) (en_staff inp) (db_outbox db) = previous"
    and sent: "\<And>p. previous = Some p \<Longrightarrow> 0 < ob_attempts p"
  shows "outbox_inv (db_outbox (fst (append_week env inp actor previous db)))"
  unfolding append_week_outbox
proof (rule outbox_inv_append [OF inv])
  fix p assume "ob_predecessor (new_week env inp actor previous db) = Some p"
  then obtain q where q: "previous = Some q" "ob_id q = p" by (auto simp: new_week_fields)
  with prev show "\<exists>q\<in>set (db_outbox db). ob_id q = p \<and> same_member q (new_week env inp actor previous db)"
    by (intro bexI [of _ q])
      (auto simp: same_member_def new_week_fields in_group_def dest: newest_weekD(1,2))
next
  fix r assume r: "r \<in> set (db_outbox db)" "same_member r (new_week env inp actor previous db)"
  then have g: "in_group (en_business inp) (en_staff inp) r"
    by (simp add: same_member_def in_group_def new_week_fields)
  then obtain p where p: "previous = Some p" using prev r(1) newest_week_None by (cases previous) blast+
  note top = newest_weekD [OF prev [unfolded p]]
  have "0 < ob_attempts r"
  proof (cases "r = p")
    case True with sent p show ?thesis by simp
  next
    case False
    have "same_member r p" using g top(2) by (simp add: same_member_def in_group_def)
    moreover have "ob_sequence r \<noteq> ob_sequence p"
      using False outbox_sequence_inj [OF inv r(1) top(1)] by blast
    ultimately show ?thesis
      using outbox_invD(5) [OF inv r(1) top(1)] top(3) [OF r(1) g] by simp
  qed
  moreover have "ob_predecessor (new_week env inp actor previous db) = Some (ob_id p)"
    by (simp add: new_week_fields p)
  ultimately show "0 < ob_attempts r \<and> (\<exists>p\<in>set (db_outbox db).
      ob_predecessor (new_week env inp actor previous db) = Some (ob_id p) \<and> ob_sequence r \<le> ob_sequence p)"
    using top(1) top(3) [OF r(1) g] by blast
qed (use fresh in \<open>simp_all add: new_week_fields next_sequence_greater\<close>)

lemma outbox_inv_enqueue:
  assumes "enqueue_hours env inp db = Inr (db', out)" "outbox_inv (db_outbox db)"
    "ev_operation env \<notin> ob_id ` set (db_outbox db)"
  shows "outbox_inv (db_outbox db')"
  using assms(1)
proof (cases rule: enqueue_hours_cases)
  case (edit p)
  then show ?thesis
    using outbox_inv_edit_unsent [OF outbox_inv_after_repair [OF assms(2)]] by (metis fst_conv)
next
  case (first actor)
  then show ?thesis
    using outbox_inv_append_week [OF outbox_inv_after_repair [OF assms(2)] _ first(1)] assms(3) set_after_repair
    by (metis fst_conv image_mono option.distinct(1) subsetD)
next
  case (chain actor p)
  have "0 < ob_attempts p"
    using chain(4) outbox_invD(3) [OF outbox_inv_after_repair [OF assms(2)] newest_weekD(1) [OF chain(1)]]
    by (auto simp: row_ok_def)
  then have "outbox_inv (db_outbox (fst (append_week env inp actor (Some p) (after_repair inp db))))"
    using assms(3) set_after_repair
    by (intro outbox_inv_append_week [OF outbox_inv_after_repair [OF assms(2)] _ chain(1)]) auto
  then show ?thesis using chain(5) by (metis fst_conv)
qed

section \<open>The system invariant\<close>

lemma carried_settle_all [carried]: "carried (db_outbox db) (db_outbox (settle_all now db))"
proof -
  have "carried (db_outbox db) (db_outbox (foldl (\<lambda>d parent. settle_observed now parent d) db ps))" for ps
  proof (induction ps arbitrary: db)
    case (Cons p ps)
    show ?case using carried_trans [OF carried_settle_observed Cons.IH] by simp
  qed (simp add: carried_refl)
  then show ?thesis by (simp add: settle_all_def)
qed

lemma settle_all_staff: "db_staff (settle_all now db) = db_staff db"
proof -
  have "db_staff (foldl (\<lambda>d parent. settle_observed now parent d) db ps) = db_staff db" for ps
    by (induction ps arbitrary: db) (simp_all add: settle_observed_def)
  then show ?thesis by (simp add: settle_all_def)
qed

lemma claim_next_Some:
  assumes "claim_next now db = (db', Some r)"
  obtains q where "q \<in> set (db_outbox (settle_all now db))" "sendable now (db_outbox (settle_all now db)) q"
    "r = claimed_row now (db_outbox (settle_all now db)) q"
    "\<And>x. x \<in> set (db_outbox (settle_all now db)) \<Longrightarrow> sendable now (db_outbox (settle_all now db)) x \<Longrightarrow>
      ob_sequence q \<le> ob_sequence x"
    "db_outbox db' = update_rows (\<lambda>x. ob_id x = ob_id q) (\<lambda>_. r) (db_outbox (settle_all now db))"
proof -
  let ?rows = "db_outbox (settle_all now db)"
  obtain q where q: "first_by_sequence (filter (sendable now ?rows) ?rows) = Some q"
    and r: "r = claimed_row now ?rows q"
    and db': "db_outbox db' = update_rows (\<lambda>x. ob_id x = ob_id q) (\<lambda>_. r) ?rows"
    using assms by (auto simp: claim_next_def Let_def split: option.splits)
  show thesis using that [OF _ _ r _ db'] first_by_sequence_Some [OF q] by auto
qed

lemma carried_claim_next [carried]:
  assumes "outbox_inv (db_outbox db)"
  shows "carried (db_outbox db) (db_outbox (fst (claim_next now db)))"
proof (rule carried_trans [OF carried_settle_all])
  let ?rows = "db_outbox (settle_all now db)"
  show "carried ?rows (db_outbox (fst (claim_next now db)))"
  proof (cases "snd (claim_next now db)")
    case None
    then have "fst (claim_next now db) = settle_all now db"
      by (auto simp: claim_next_def Let_def split: option.splits)
    then show ?thesis by (simp add: carried_refl)
  next
    case (Some r)
    then have "claim_next now db = (fst (claim_next now db), Some r)" by (metis prod.collapse)
    then obtain q where q: "q \<in> set ?rows" "sendable now ?rows q" "r = claimed_row now ?rows q"
      "db_outbox (fst (claim_next now db)) = update_rows (\<lambda>x. ob_id x = ob_id q) (\<lambda>_. r) ?rows"
      by (rule claim_next_Some)
    have "ob_id r = ob_id x \<and> ob_attempts x \<le> ob_attempts r \<and> (ob_state x = Accepted \<longrightarrow> ob_state r = Accepted)"
      if x: "x \<in> set ?rows" "ob_id x = ob_id q" for x
    proof -
      have "x = q" using outbox_id_inj [OF outbox_inv_settle_all [OF assms]] q(1) x by blast
      with q(2) show ?thesis by (auto simp: q(3) claimed_row_def sendable_def)
    qed
    then show ?thesis unfolding q(4) by (intro carried_update) blast
  qed
qed

lemma carried_probe_begin [carried]: "carried (db_outbox db) (db_outbox (fst (probe_begin now db)))"
  by (auto simp: probe_begin_def carried_refl split: option.split intro!: carried_update)

lemma carried_probe_end [carried]: "carried (db_outbox db) (db_outbox (probe_end u status db))"
  by (auto simp: probe_end_def unlink_children_def carried_refl intro!: carried_delete carried_update)

lemma carried_retry_now [carried]: "carried (db_outbox db) (db_outbox (retry_now db))"
  by (auto simp: retry_now_def intro!: carried_update)

lemma carried_finish_upload [carried]: "carried (db_outbox db) (db_outbox (finish_upload env u outcome db))"
  using finish_upload_cases [of env u outcome db]
  by (elim disjE exE conjE)
    (auto simp: retry_week_def reject_week_def accept_week_def Let_def intro!: carried_update)

lemma carried_discard [carried]:
  "discard_rejected_hours b s db = Inr db' \<Longrightarrow> carried (db_outbox db) (db_outbox db')"
  by (auto simp: discard_rejected_hours_def Let_def carried_delete carried_refl split: if_splits)

lemma carried_discard_groups [carried]:
  "discard_groups gs db = Inr db' \<Longrightarrow> carried (db_outbox db) (db_outbox db')"
proof (induction gs db rule: discard_groups.induct)
  case (2 b s gs db)
  show ?case
  proof (rule carried_trans)
    show "carried (db_outbox db) (delete_rows (\<lambda>r. in_group b s r \<and> ob_state r \<noteq> Accepted) (db_outbox db))"
      by (intro carried)
  qed (use 2 in \<open>auto split: if_splits\<close>)
qed (simp add: carried_refl)

lemma enqueue_carried:
  assumes "enqueue_hours env inp db = Inr (db', out)" "r' \<in> set (db_outbox db')"
  shows "ob_id r' = ev_operation env \<or> (\<exists>r\<in>set (db_outbox db). ob_id r = ob_id r'
    \<and> ob_attempts r = ob_attempts r' \<and> ob_state r = ob_state r')"
proof -
  have sub: "set (db_outbox (after_repair inp db)) \<subseteq> set (db_outbox db)" by (rule set_after_repair)
  from assms(1) show ?thesis
  proof (cases rule: enqueue_hours_cases)
    case (edit p)
    then have "db' = fst (edit_unsent inp p (after_repair inp db))" by (metis fst_conv)
    with assms(2) sub show ?thesis
      by (auto simp: edit_unsent_def Let_def in_update_rows split: if_splits) force+
  next
    case (first actor)
    then have "db' = fst (append_week env inp actor None (after_repair inp db))" by (metis fst_conv)
    with assms(2) sub show ?thesis by (auto simp: append_week_outbox new_week_fields)
  next
    case (chain actor p)
    then have "db' = fst (append_week env inp actor (Some p) (after_repair inp db))" by (metis fst_conv)
    with assms(2) sub show ?thesis by (auto simp: append_week_outbox new_week_fields)
  qed
qed

definition hours_inv :: "hours_system \<Rightarrow> bool" where
  "hours_inv s \<longleftrightarrow> outbox_inv (db_outbox (hs_db s))
    \<and> (\<forall>u\<in>set (hs_sent s). was_sent (db_outbox (hs_db s)) u)
    \<and> (\<forall>u\<in>set (hs_probed s). was_accepted (db_outbox (hs_db s)) u)"

lemma hours_invI:
  assumes "hours_inv s" "outbox_inv (db_outbox db)" "carried (db_outbox (hs_db s)) (db_outbox db)"
  shows "hours_inv (s\<lparr>hs_db := db\<rparr>)"
  using assms was_sent_carried was_accepted_carried by (fastforce simp: hours_inv_def)

lemma hours_inv_sent:
  "hours_inv s \<Longrightarrow> (\<And>u. u \<in> set us \<Longrightarrow> u \<in> set (hs_sent s) \<or> was_sent (db_outbox (hs_db s)) u) \<Longrightarrow>
    hours_inv (s\<lparr>hs_sent := us\<rparr>)"
  by (auto simp: hours_inv_def)

lemma hours_inv_probed:
  "hours_inv s \<Longrightarrow> (\<And>u. u \<in> set us \<Longrightarrow> u \<in> set (hs_probed s) \<or> was_accepted (db_outbox (hs_db s)) u) \<Longrightarrow>
    hours_inv (s\<lparr>hs_probed := us\<rparr>)"
  by (auto simp: hours_inv_def)

lemma probe_begin_Some:
  assumes "probe_begin now db = (db', Some u)"
  shows "u \<in> set (db_outbox db)" "unseen now db u"
    "db_outbox db' = update_rows (\<lambda>r. ob_id r = ob_id u) (\<lambda>r. r\<lparr>ob_retry_at := of_int (now + 60000)\<rparr>) (db_outbox db)"
proof -
  obtain v where v: "first_by_sequence (filter (unseen now db) (db_outbox db)) = Some v"
    using assms by (auto simp: probe_begin_def split: option.splits)
  with assms have "u = v" by (simp add: probe_begin_def)
  with assms v first_by_sequence_Some(1) [OF v] show "u \<in> set (db_outbox db)" "unseen now db u"
    "db_outbox db' = update_rows (\<lambda>r. ob_id r = ob_id u) (\<lambda>r. r\<lparr>ob_retry_at := of_int (now + 60000)\<rparr>) (db_outbox db)"
    by (auto simp: probe_begin_def)
qed

lemma hours_inv_enqueue:
  assumes inv: "hours_inv s" and run: "enqueue_hours env inp (hs_db s) = Inr (db, out)"
    and fresh: "fresh_id (ev_operation env) s"
  shows "hours_inv (s\<lparr>hs_db := db\<rparr>)"
proof -
  note rows = enqueue_carried [OF run]
  have "was_sent (db_outbox db) u" if "u \<in> set (hs_sent s)" for u
    using inv that rows fresh unfolding hours_inv_def was_sent_def fresh_id_def
    by (metis (no_types, lifting) UnI1 UnI2 image_eqI)
  moreover have "was_accepted (db_outbox db) u" if "u \<in> set (hs_probed s)" for u
    using inv that rows fresh unfolding hours_inv_def was_accepted_def fresh_id_def
    by (metis (no_types, lifting) UnI2 image_eqI)
  moreover have "outbox_inv (db_outbox db)"
    using inv fresh by (intro outbox_inv_enqueue [OF run]) (auto simp: hours_inv_def fresh_id_def)
  ultimately show ?thesis by (simp add: hours_inv_def)
qed

lemma hours_step_inv: "hours_step s t \<Longrightarrow> hours_inv s \<Longrightarrow> hours_inv t"
proof (induction rule: hours_step.induct)
  case (step_enqueue env inp s db out)
  then show ?case by (rule hours_inv_enqueue [rotated])
next
  case (step_discard business staff s db)
  then show ?case
    by (intro hours_invI) (auto simp: hours_inv_def intro: outbox_inv_discard_rejected carried_discard)
next
  case (step_discard_queue s db)
  then show ?case unfolding discard_rejected_queue_def
    by (intro hours_invI) (auto simp: hours_inv_def intro: outbox_inv_discard_groups carried_discard_groups)
next
  case (step_probe now s db u)
  then have db: "db = fst (probe_begin now (hs_db s))" by simp
  from step_probe have inv: "hours_inv (s\<lparr>hs_db := db\<rparr>)"
    by (intro hours_invI) (auto simp: hours_inv_def db intro: outbox_inv_probe_begin carried_probe_begin)
  have "was_accepted (db_outbox (hs_db s)) u"
    using probe_begin_Some [OF step_probe(1)] step_probe(2) outbox_id_inj
    by (fastforce simp: was_accepted_def hours_inv_def unseen_def)
  then have "was_accepted (db_outbox db) u" unfolding db by (rule was_accepted_carried) (rule carried_probe_begin)
  with hours_inv_probed [OF inv, of "u # hs_probed s"] show ?case by (auto simp: hours_inv_def)
next
  case (step_probe_end u s status)
  then have "hours_inv (s\<lparr>hs_db := probe_end u status (hs_db s)\<rparr>)"
    by (intro hours_invI) (auto simp: hours_inv_def intro: outbox_inv_probe_end carried_probe_end)
  then show ?case
    by (rule hours_inv_probed [of _ "remove1 u (hs_probed s)", simplified]) (rule disjI1, simp, erule set_mp [OF set_remove1_subset])
next
  case (step_idle now s db)
  then have db: "db = fst (claim_next now (hs_db s))" by simp
  from step_idle show ?case
    by (intro hours_invI) (auto simp: hours_inv_def db intro: outbox_inv_claim_next carried_claim_next)
next
  case (step_claim now s db r)
  then have db: "db = fst (claim_next now (hs_db s))" by simp
  from step_claim have inv: "hours_inv (s\<lparr>hs_db := db\<rparr>)"
    by (intro hours_invI) (auto simp: hours_inv_def db intro: outbox_inv_claim_next carried_claim_next)
  obtain q where "r = claimed_row now (db_outbox (settle_all now (hs_db s))) q"
    "db_outbox db = update_rows (\<lambda>x. ob_id x = ob_id q) (\<lambda>_. r) (db_outbox (settle_all now (hs_db s)))"
    using claim_next_Some [OF step_claim(1)] by metis
  then have "was_sent (db_outbox db) r"
    by (auto simp: was_sent_def in_update_rows claimed_row_def split: if_splits)
  with hours_inv_sent [OF inv, of "r # hs_sent s"] show ?case by (auto simp: hours_inv_def)
next
  case (step_answer r s env outcome)
  then have "hours_inv (s\<lparr>hs_db := finish_upload env r outcome (hs_db s)\<rparr>)"
    by (intro hours_invI) (auto simp: hours_inv_def intro: outbox_inv_finish_upload carried_finish_upload)
  then show ?case
    by (rule hours_inv_sent [of _ "remove1 r (hs_sent s)", simplified]) (rule disjI1, simp, erule set_mp [OF set_remove1_subset])
next
  case (step_retry_now s)
  then show ?case
    by (intro hours_invI) (auto simp: hours_inv_def intro: outbox_inv_retry_now carried_retry_now)
next
  case (step_replicate s staff)
  then show ?case by (simp add: hours_inv_def)
qed

interpretation hours: inductive_invariant hours_initial hours_step hours_inv
proof unfold_locales
  show "hours_initial s \<Longrightarrow> hours_inv s" for s by (simp add: hours_initial_def hours_inv_def)
qed (rule hours_step_inv)

lemma reachable_outbox: "reach hours_initial hours_step s \<Longrightarrow> outbox_inv (db_outbox (hs_db s))"
  using hours.reach_inv by (auto simp: hours_inv_def)

end
