(* ===== verification/Hours_Guarantees.thy ===== *)
theory Hours_Guarantees
  imports Hours_Outbox
begin

text \<open>
  What the working-week outbox guarantees: the order of a member's weeks, the claim, the treatment
  of the server's answers, proposals and discards. The statements speak about the reachable states
  of the system of writers, or about one transaction on a database that satisfies the outbox
  invariant; they rest on the lemmas of \<open>Hours_Outbox\<close>.
\<close>

section \<open>What the outbox guarantees\<close>

text \<open>C5: in every reachable state, a member's weeks go out in the order they were proposed: a week
  older than another one of the same member has been attempted, and once the younger one has been
  attempted the older one is accepted by the server (with the revision it produced). Identifiers and
  sequence numbers of the queued weeks are unique.\<close>

theorem outbox_weeks_in_order:
  assumes "reach hours_initial hours_step s" "q \<in> set (db_outbox (hs_db s))" "r \<in> set (db_outbox (hs_db s))"
  shows "(same_member q r \<and> ob_sequence q < ob_sequence r \<longrightarrow>
      0 < ob_attempts q \<and> (0 < ob_attempts r \<longrightarrow> ob_state q = Accepted \<and> ob_result q \<noteq> None))
    \<and> (ob_id q = ob_id r \<or> ob_sequence q = ob_sequence r \<longrightarrow> q = r)"
proof (rule conjI)
  note inv = reachable_outbox [OF assms(1)]
  show "same_member q r \<and> ob_sequence q < ob_sequence r \<longrightarrow>
      0 < ob_attempts q \<and> (0 < ob_attempts r \<longrightarrow> ob_state q = Accepted \<and> ob_result q \<noteq> None)"
    using outbox_invD(5,6) [OF inv assms(2,3)] outbox_invD(3) [OF inv assms(2)]
    by (auto simp: order_ok_def row_ok_def)
  show "ob_id q = ob_id r \<or> ob_sequence q = ob_sequence r \<longrightarrow> q = r"
    using outbox_id_inj [OF inv assms(2,3)] outbox_sequence_inj [OF inv assms(2,3)] by blast
qed

text \<open>A run for the witnesses: a week is proposed, claimed and, while it travels, a second one is
  proposed after it; the first is then accepted and the second claimed.\<close>

definition demo_env :: "string \<Rightarrow> enqueue_env" where
  "demo_env i = \<lparr>ev_device = ''dev'', ev_operation = i, ev_now = ''2026-01-01T00:00:00Z''\<rparr>"

definition demo_day :: "string \<Rightarrow> week_day" where
  "demo_day opens = \<lparr>wd_weekday = 0, wd_available = True, wd_start = Some opens, wd_end = Some ''17:00''\<rparr>"

definition demo_input :: "string \<Rightarrow> (string \<times> week_request) option \<Rightarrow> enqueue_input" where
  "demo_input opens pred = \<lparr>en_staff = ''staff'', en_business = ''biz'', en_revision = 4,
     en_days = [demo_day opens], en_base = [demo_day ''09:00''], en_repair = False, en_predecessor = pred\<rparr>"

definition demo_db :: replica_db where
  "demo_db = \<lparr>db_outbox = [], db_prefs = [Sync_Identity \<mapsto> P_Json (J_Arr [J_Str ''user''])], db_staff = Map.empty\<rparr>"

definition demo_proposed :: "replica_db \<times> enqueued" where
  "demo_proposed = projr (enqueue_hours (demo_env ''op1'') (demo_input ''10:00'' None) demo_db)"

definition demo_claimed :: "replica_db \<times> outbox_row" where
  "demo_claimed = map_prod id the (claim_next 0 (fst demo_proposed))"

definition demo_chained :: "replica_db \<times> enqueued" where
  "demo_chained = projr (enqueue_hours (demo_env ''op2'')
     (demo_input ''11:00'' (Some (ob_id (snd demo_claimed), ob_payload (snd demo_claimed)))) (fst demo_claimed))"

definition demo_answer :: answer_env where
  "demo_answer = \<lparr>an_now = 500, an_random = 1 / 2, an_aborted = False, an_iso = ''2026-01-01T00:00:01Z''\<rparr>"

definition demo_accepted :: replica_db where
  "demo_accepted = finish_upload demo_answer (snd demo_claimed)
     (Answered \<lparr>rs_status = 200, rs_retry_after = No_Header,
        rs_body = Some (J_Obj [(''revision'', J_Num 7), (''stranded'', J_Arr [])])\<rparr>) (fst demo_chained)"

lemma demo_runs:
  "enqueue_hours (demo_env ''op1'') (demo_input ''10:00'' None) demo_db = Inr demo_proposed"
  "claim_next 0 (fst demo_proposed) = (fst demo_claimed, Some (snd demo_claimed))"
  "enqueue_hours (demo_env ''op2'')
     (demo_input ''11:00'' (Some (ob_id (snd demo_claimed), ob_payload (snd demo_claimed)))) (fst demo_claimed)
     = Inr demo_chained"
proof -
  have "\<not> isl (enqueue_hours (demo_env ''op1'') (demo_input ''10:00'' None) demo_db)" by code_simp
  then show "enqueue_hours (demo_env ''op1'') (demo_input ''10:00'' None) demo_db = Inr demo_proposed"
    by (simp add: demo_proposed_def)
  have "snd (claim_next 0 (fst demo_proposed)) \<noteq> None" by code_simp
  then show "claim_next 0 (fst demo_proposed) = (fst demo_claimed, Some (snd demo_claimed))"
    by (simp add: demo_claimed_def prod_eq_iff)
  have "\<not> isl (enqueue_hours (demo_env ''op2'')
     (demo_input ''11:00'' (Some (ob_id (snd demo_claimed), ob_payload (snd demo_claimed)))) (fst demo_claimed))"
    by code_simp
  then show "enqueue_hours (demo_env ''op2'')
     (demo_input ''11:00'' (Some (ob_id (snd demo_claimed), ob_payload (snd demo_claimed)))) (fst demo_claimed)
     = Inr demo_chained"
    by (simp add: demo_chained_def)
qed

definition demo_chained_state :: hours_system where
  "demo_chained_state = \<lparr>hs_db = fst demo_chained, hs_sent = [snd demo_claimed], hs_probed = []\<rparr>"

definition demo_accepted_state :: hours_system where
  "demo_accepted_state = \<lparr>hs_db = demo_accepted, hs_sent = [], hs_probed = []\<rparr>"

lemma demo_reach: "reach hours_initial hours_step demo_chained_state" "hours_step demo_chained_state demo_accepted_state"
proof -
  have "reach hours_initial hours_step \<lparr>hs_db = demo_db, hs_sent = [], hs_probed = []\<rparr>"
    by (rule reach_init) (simp add: hours_initial_def demo_db_def)
  moreover have "hours_step \<lparr>hs_db = demo_db, hs_sent = [], hs_probed = []\<rparr>
      \<lparr>hs_db = fst demo_proposed, hs_sent = [], hs_probed = []\<rparr>"
    using step_enqueue [of "demo_env ''op1''" "demo_input ''10:00'' None"
        "\<lparr>hs_db = demo_db, hs_sent = [], hs_probed = []\<rparr>" "fst demo_proposed" "snd demo_proposed"]
    by (simp add: demo_runs fresh_id_def) (simp add: demo_db_def)
  moreover have "hours_step \<lparr>hs_db = fst demo_proposed, hs_sent = [], hs_probed = []\<rparr>
      \<lparr>hs_db = fst demo_claimed, hs_sent = [snd demo_claimed], hs_probed = []\<rparr>"
    using step_claim [of 0 "\<lparr>hs_db = fst demo_proposed, hs_sent = [], hs_probed = []\<rparr>"] by (simp add: demo_runs)
  moreover have "fresh_id (ev_operation (demo_env ''op2''))
      \<lparr>hs_db = fst demo_claimed, hs_sent = [snd demo_claimed], hs_probed = []\<rparr>" by code_simp
  then have "hours_step \<lparr>hs_db = fst demo_claimed, hs_sent = [snd demo_claimed], hs_probed = []\<rparr> demo_chained_state"
    using step_enqueue [of "demo_env ''op2''"
        "demo_input ''11:00'' (Some (ob_id (snd demo_claimed), ob_payload (snd demo_claimed)))"
        "\<lparr>hs_db = fst demo_claimed, hs_sent = [snd demo_claimed], hs_probed = []\<rparr>"
        "fst demo_chained" "snd demo_chained"]
    by (simp add: demo_runs demo_chained_state_def)
  ultimately show "reach hours_initial hours_step demo_chained_state" by (meson reach_step)
  show "hours_step demo_chained_state demo_accepted_state"
    using step_answer [of "snd demo_claimed" demo_chained_state demo_answer]
    by (simp add: demo_chained_state_def demo_accepted_state_def demo_accepted_def)
qed

lemma demo_accepted_reach: "reach hours_initial hours_step demo_accepted_state"
  using demo_reach by (rule reach_step)

lemma demo_rows:
  "case db_outbox demo_accepted of
     [a, b] \<Rightarrow> same_member a b \<and> ob_sequence a < ob_sequence b \<and> ob_state a = Accepted \<and> ob_state b = Queued
   | _ \<Rightarrow> False"
  by code_simp

lemma demo_rowsE:
  obtains a b where "db_outbox demo_accepted = [a, b]" "same_member a b" "ob_sequence a < ob_sequence b"
    "ob_state a = Accepted" "ob_state b = Queued"
  using demo_rows by (auto split: list.splits)

theorem outbox_weeks_in_order_witness:
  "\<exists>a b. db_outbox demo_accepted = [a, b] \<and> 0 < ob_attempts a \<and> ob_id a \<noteq> ob_id b"
proof -
  obtain a b where rows: "db_outbox demo_accepted = [a, b]" "same_member a b" "ob_sequence a < ob_sequence b"
    using demo_rowsE by metis
  then have "a \<in> set (db_outbox (hs_db demo_accepted_state))" "b \<in> set (db_outbox (hs_db demo_accepted_state))"
    by (simp_all add: demo_accepted_state_def)
  from outbox_weeks_in_order [OF demo_accepted_reach this] rows show ?thesis by auto
qed

section \<open>Claiming\<close>

lemma claim_next_result:
  assumes inv: "outbox_inv (db_outbox db)" and run: "claim_next now db = (db', Some r)"
  shows "r \<in> set (db_outbox db')" "ob_state r = Sending" "ob_retry_at r = of_int (now + 20000)" "0 < ob_attempts r"
    "x \<in> set (db_outbox db') \<Longrightarrow> sendable now (db_outbox db') x \<Longrightarrow> ob_sequence r < ob_sequence x"
    "ob_attempts r = 1 \<Longrightarrow> ob_predecessor r = Some i \<Longrightarrow> \<exists>p\<in>set (db_outbox db'). ob_id p = i
        \<and> same_member p r \<and> ob_state p = Accepted \<and> ob_result p = Some (wr_expected (ob_payload r))"
proof -
  let ?rows = "db_outbox (settle_all now db)"
  obtain q where q: "q \<in> set ?rows" "sendable now ?rows q" "r = claimed_row now ?rows q"
    "\<And>x. x \<in> set ?rows \<Longrightarrow> sendable now ?rows x \<Longrightarrow> ob_sequence q \<le> ob_sequence x"
    "db_outbox db' = update_rows (\<lambda>x. ob_id x = ob_id q) (\<lambda>_. r) ?rows"
    using claim_next_Some [OF run] by metis
  note sinv = outbox_inv_settle_all [OF inv, of now]
  have mem: "x \<in> set (db_outbox db') \<longleftrightarrow> x = r \<or> x \<in> set ?rows \<and> ob_id x \<noteq> ob_id q" for x
    using q(1) unfolding q(5) in_update_rows by (metis (full_types))
  show r: "r \<in> set (db_outbox db')" using mem by simp
  show "ob_state r = Sending" "ob_retry_at r = of_int (now + 20000)" "0 < ob_attempts r"
    by (simp_all add: q(3) claimed_row_def)
  show "ob_sequence r < ob_sequence x" if x: "x \<in> set (db_outbox db')" "sendable now (db_outbox db') x"
  proof -
    have "x \<noteq> r" using x(2) by (auto simp: sendable_def q(3) claimed_row_def)
    with x(1) mem have xr: "x \<in> set ?rows" "ob_id x \<noteq> ob_id q" by blast+
    have "p \<in> set ?rows" if "p \<in> set (db_outbox db')" "ob_state p = Accepted" for p
      using that mem by (auto simp: q(3) claimed_row_def)
    with x(2) have "sendable now ?rows x" by (auto simp: sendable_def)
    with q(4) xr(1) have "ob_sequence q \<le> ob_sequence x" by blast
    moreover have "ob_sequence q \<noteq> ob_sequence x"
      using outbox_sequence_inj [OF sinv q(1) xr(1)] xr(2) by auto
    ultimately show ?thesis by (simp add: q(3) claimed_row_def)
  qed
  assume first: "ob_attempts r = 1" "ob_predecessor r = Some i"
  then have q0: "ob_attempts q = 0" "ob_predecessor q = Some i" by (simp_all add: q(3) claimed_row_def)
  with q(2) obtain p where p: "p \<in> set ?rows" "ob_id p = i" "ob_state p = Accepted"
    by (auto simp: sendable_def)
  have link: "same_member p q" "ob_sequence p < ob_sequence q"
    using outbox_link [OF sinv q(1) p(1)] q0 p(2) by simp_all
  obtain v where v: "ob_result p = Some v" using outbox_invD(3) [OF sinv p(1)] p(3) by (auto simp: row_ok_def)
  have "row_by_id ?rows i = Some p"
  proof -
    obtain p' where p': "row_by_id ?rows i = Some p'"
      using p(1,2) by (cases "row_by_id ?rows i") (auto simp: row_by_id_def find_None_iff)
    with find_SomeD [of _ ?rows p'] have "p' \<in> set ?rows" "ob_id p' = i" by (auto simp: row_by_id_def)
    with p' p outbox_id_inj [OF sinv] show ?thesis by metis
  qed
  then have "wr_expected (ob_payload r) = v"
    by (simp add: q(3) claimed_row_def outgoing_payload_def q0 v)
  moreover have "p \<in> set (db_outbox db')" using mem p(1) link(2) outbox_id_inj [OF sinv p(1) q(1)] by force
  ultimately show "\<exists>p\<in>set (db_outbox db'). ob_id p = i
        \<and> same_member p r \<and> ob_state p = Accepted \<and> ob_result p = Some (wr_expected (ob_payload r))"
    using p link(1) v by (intro bexI [of _ p]) (simp_all add: q(3) claimed_row_def same_member_def)
qed

lemma settle_observed_origin:
  assumes "x \<in> set (db_outbox (settle_observed now u db))"
  shows "\<exists>q\<in>set (db_outbox db). ob_id q = ob_id x \<and> ob_state q = ob_state x \<and> ob_retry_at q = ob_retry_at x
    \<and> ob_attempts q = ob_attempts x \<and> wr_days (ob_payload q) = wr_days (ob_payload x)"
  using assms
  by (auto simp: settle_observed_def in_delete_rows release_child_def split: nat.splits option.splits elim!: in_update_rowsE intro: bexI [rotated])

text \<open>Catching up drops weeks and releases their children; what stays is due as it was before.\<close>

lemma settle_all_origin:
  assumes "x \<in> set (db_outbox (settle_all now db))"
  shows "\<exists>q\<in>set (db_outbox db). ob_id q = ob_id x \<and> ob_state q = ob_state x \<and> ob_retry_at q = ob_retry_at x
    \<and> ob_attempts q = ob_attempts x \<and> wr_days (ob_payload q) = wr_days (ob_payload x)"
proof -
  have "\<exists>q\<in>set (db_outbox db). ob_id q = ob_id x \<and> ob_state q = ob_state x \<and> ob_retry_at q = ob_retry_at x
      \<and> ob_attempts q = ob_attempts x \<and> wr_days (ob_payload q) = wr_days (ob_payload x)"
    if "x \<in> set (db_outbox (foldl (\<lambda>d parent. settle_observed now parent d) db ps))" for ps
    using that
  proof (induction ps arbitrary: db)
    case (Cons u ps)
    then obtain q where "q \<in> set (db_outbox (settle_observed now u db))" "ob_id q = ob_id x" "ob_state q = ob_state x"
      "ob_retry_at q = ob_retry_at x" "ob_attempts q = ob_attempts x" "wr_days (ob_payload q) = wr_days (ob_payload x)" by auto
    then show ?case using settle_observed_origin [of q now u db] by simp
  qed auto
  then show ?thesis using assms unfolding settle_all_def by blast
qed

lemma claim_next_origin:
  assumes "claim_next now db = (db', Some r)"
  shows "\<exists>q\<in>set (db_outbox db). ob_id q = ob_id r \<and> (ob_state q = Queued \<or> ob_state q = Sending) \<and> ob_retry_at q \<le> of_int now
    \<and> ob_attempts r = ob_attempts q + 1 \<and> wr_days (ob_payload q) = wr_days (ob_payload r)"
proof -
  let ?rows = "db_outbox (settle_all now db)"
  obtain x where x: "x \<in> set ?rows" "sendable now ?rows x" "r = claimed_row now ?rows x"
    using claim_next_Some [OF assms] by metis
  have r: "ob_id r = ob_id x" "ob_attempts r = ob_attempts x + 1" "wr_days (ob_payload r) = wr_days (ob_payload x)"
    by (auto simp: x(3) claimed_row_def outgoing_payload_def split: option.splits)
  from settle_all_origin [OF x(1)] obtain q where "q \<in> set (db_outbox db)" "ob_id q = ob_id x" "ob_state q = ob_state x"
    "ob_retry_at q = ob_retry_at x" "ob_attempts q = ob_attempts x" "wr_days (ob_payload q) = wr_days (ob_payload x)" by blast
  with x(2) show ?thesis by (intro bexI [of _ q]) (auto simp: sendable_def r)
qed



section \<open>Answers\<close>

lemma header_delay_bounds: "header_delay now h = Some d \<Longrightarrow> 1000 \<le> d \<and> d \<le> 300000"
  by (cases h) auto

lemma backoff_bounds: "1 \<le> n \<Longrightarrow> 2000 \<le> backoff_ms n \<and> backoff_ms n \<le> 300000"
proof -
  assume "1 \<le> n"
  then have "(2::int) ^ 1 \<le> 2 ^ min n 8" by (intro power_increasing) auto
  then show ?thesis by (simp add: backoff_ms_def)
qed

lemma jitter_bounds:
  fixes r :: rat
  assumes "0 \<le> r" "r < 1" "1 \<le> n"
  shows "1600 \<le> of_int (backoff_ms n) * (8 / 10 + r * (4 / 10))"
    "of_int (backoff_ms n) * (8 / 10 + r * (4 / 10)) \<le> 360000"
proof -
  have b: "(2000 :: rat) \<le> of_int (backoff_ms n)" "of_int (backoff_ms n) \<le> (300000 :: rat)"
    using backoff_bounds [OF assms(3)] by (metis of_int_le_iff of_int_numeral)+
  have "(2000 :: rat) * (8 / 10) \<le> of_int (backoff_ms n) * (8 / 10 + r * (4 / 10))"
    using b assms by (intro mult_mono) auto
  then show "1600 \<le> of_int (backoff_ms n) * (8 / 10 + r * (4 / 10))" by simp
  have "of_int (backoff_ms n) * (8 / 10 + r * (4 / 10)) \<le> (300000 :: rat) * (12 / 10)"
    using b assms by (intro mult_mono) auto
  then show "of_int (backoff_ms n) * (8 / 10 + r * (4 / 10)) \<le> 360000" by simp
qed

lemma retry_week_waits:
  assumes "0 \<le> an_random env" "an_random env < 1" "1 \<le> ob_attempts u"
    and delay: "\<And>d. delay = Some d \<Longrightarrow> 1000 \<le> d \<and> d \<le> 900000"
    and x: "x \<in> set (db_outbox (retry_week env u code delay db))" "ob_id x = ob_id u"
  shows "ob_state x \<noteq> Sending \<and> (ob_state x = Queued \<longrightarrow> x \<in> set (db_outbox db) \<or>
    of_int (an_now env) + 1000 \<le> ob_retry_at x \<and> ob_retry_at x \<le> of_int (an_now env) + 900000)"
proof -
  from x obtain r where r: "r \<in> set (db_outbox db)" "ob_id r = ob_id u"
    and xr: "x = (if ob_id r = ob_id u \<and> ob_state r = Sending
      then r\<lparr>ob_state := Queued, ob_error := Some code, ob_retry_at := of_int (an_now env) +
               (case delay of Some d \<Rightarrow> d
                | None \<Rightarrow> of_int (backoff_ms (ob_attempts u)) * (8 / 10 + an_random env * (4 / 10)))\<rparr> else r)"
    by (auto simp: retry_week_def in_update_rows split: if_splits)
  show ?thesis
  proof (cases "ob_state r = Sending")
    case True
    show ?thesis
    proof (cases delay)
      case None
      with jitter_bounds [OF assms(1-3)] show ?thesis using xr r True by auto
    next
      case (Some d)
      with delay have "1000 \<le> d" "d \<le> 900000" by blast+
      with xr r True Some show ?thesis by simp
    qed
  next
    case False
    with xr r show ?thesis by auto
  qed
qed

text \<open>An answer does one of three things to the outbox, and what it makes a retry wait is within bounds.\<close>

lemma finish_upload_rule:
  assumes retry: "\<And>code delay. (\<And>d. delay = Some d \<Longrightarrow> 1000 \<le> d \<and> d \<le> 900000) \<Longrightarrow> P (retry_week env u code delay db)"
    and reject: "\<And>body status. P (reject_week u body status db)"
    and accept: "\<And>revision stranded. P (accept_week env u revision stranded db)"
  shows "P (finish_upload env u outcome db)"
proof (cases outcome)
  case Broke
  then show ?thesis using retry [where delay = None] by (simp add: finish_upload_answers)
next
  case (Answered r)
  note answers = finish_upload_answers(2-7) [of r, where env = env and u = u and db = db]
  consider "response_ok r" | "\<not> response_ok r" "rs_status r = 402" | "\<not> response_ok r" "rs_status r \<noteq> 402" by blast
  then show ?thesis
  proof cases
    case 1
    then show ?thesis using Answered retry [where delay = None] accept answers(1,2)
      by (cases "week_result (rs_body r)") auto
  next
    case 2
    then show ?thesis using Answered retry [where delay = "Some plan_retry_ms"] reject answers(3,4)
      by (cases "plan_lapsed r") (auto simp: plan_retry_ms_def)
  next
    case 3
    have "P (retry_week env u code (header_delay (an_now env) (rs_retry_after r)) db)" for code
      by (rule retry) (use header_delay_bounds in fastforce)
    with 3 show ?thesis using Answered reject answers(5,6) by (cases "try_later (rs_status r)") auto
  qed
qed

lemma update_rows_ids: "(\<And>r. ob_id (f r) = ob_id r) \<Longrightarrow> map ob_id (update_rows P f rows) = map ob_id rows"
  by (simp add: update_rows_def)

lemma update_rows_others:
  "(\<And>r. P r \<Longrightarrow> ob_id r = i) \<Longrightarrow> (\<And>r. ob_id (f r) = ob_id r) \<Longrightarrow>
    filter (\<lambda>r. ob_id r \<noteq> i) (update_rows P f rows) = filter (\<lambda>r. ob_id r \<noteq> i) rows"
  by (induction rows) (auto simp: update_rows_def)

lemma finish_upload_others:
  "map ob_id (db_outbox (finish_upload env u outcome db)) = map ob_id (db_outbox db)"
  "filter (\<lambda>r. ob_id r \<noteq> ob_id u) (db_outbox (finish_upload env u outcome db)) = filter (\<lambda>r. ob_id r \<noteq> ob_id u) (db_outbox db)"
  by (rule finish_upload_rule [where P = "\<lambda>D. map ob_id (db_outbox D) = map ob_id (db_outbox db)"];
      simp add: retry_week_def reject_week_def accept_week_def Let_def update_rows_ids)
    (rule finish_upload_rule [where P = "\<lambda>D. filter (\<lambda>r. ob_id r \<noteq> ob_id u) (db_outbox D) = filter (\<lambda>r. ob_id r \<noteq> ob_id u) (db_outbox db)"];
      simp add: retry_week_def reject_week_def accept_week_def Let_def; rule update_rows_others; simp)

text \<open>What an outcome makes of the uploaded week.\<close>

definition upload_verdict :: "upload_outcome \<Rightarrow> replica_db \<Rightarrow> outbox_row \<Rightarrow> bool" where
  "upload_verdict outcome db x =
    (case outcome of
       Broke \<Rightarrow> ob_state x = Rejected \<longrightarrow> x \<in> set (db_outbox db)
     | Answered a \<Rightarrow>
         if 200 \<le> rs_status a \<and> rs_status a \<le> 299
         then (case week_result (rs_body a) of
                 Some (revision, _) \<Rightarrow> ob_state x = Accepted \<and> ob_result x = Some revision
               | None \<Rightarrow> ob_state x = Rejected \<longrightarrow> x \<in> set (db_outbox db))
         else if rs_status a \<in> {401, 408, 429} \<or> 500 \<le> rs_status a then ob_state x = Rejected \<longrightarrow> x \<in> set (db_outbox db)
         else rs_status a \<noteq> 402 \<longrightarrow> ob_state x = Rejected \<or> ob_state x = Accepted)"

lemma finish_upload_verdict:
  assumes "x \<in> set (db_outbox (finish_upload env u outcome db))" "ob_id x = ob_id u"
  shows "upload_verdict outcome db x"
proof -
  have retried: "ob_state x = Rejected \<longrightarrow> x \<in> set (db_outbox db)" if "x \<in> set (db_outbox (retry_week env u code delay db))" for code delay
    using that by (auto simp: retry_week_def elim!: in_update_rowsE)
  have refused: "ob_state x = Rejected \<or> ob_state x = Accepted" if "x \<in> set (db_outbox (reject_week u body status db))" for body status
    using that assms(2) by (auto simp: reject_week_def elim!: in_update_rowsE)
  have taken: "ob_state x = Accepted \<and> ob_result x = Some revision" if "x \<in> set (db_outbox (accept_week env u revision stranded db))" for revision stranded
    using that assms(2) by (auto simp: accept_week_def Let_def elim!: in_update_rowsE)
  show ?thesis
    using assms(1) retried refused taken
    by (cases outcome) (auto simp: upload_verdict_def finish_upload_def response_ok_def split: if_splits option.splits)
qed



section \<open>Acceptance is final\<close>

lemma hours_step_carried:
  assumes "hours_step s t" "hours_inv s" "r \<in> set (db_outbox (hs_db s))" "x \<in> set (db_outbox (hs_db t))" "ob_id x = ob_id r"
  shows "ob_attempts r \<le> ob_attempts x \<and> (ob_state r = Accepted \<longrightarrow> ob_state x = Accepted)"
proof -
  have inv: "outbox_inv (db_outbox (hs_db s))" using assms(2) by (simp add: hours_inv_def)
  have same: "y = r" if "y \<in> set (db_outbox (hs_db s))" "ob_id y = ob_id x" for y
    using outbox_id_inj [OF inv that(1) assms(3)] that(2) assms(5) by simp
  have moved: ?thesis if "carried (db_outbox (hs_db s)) (db_outbox (hs_db t))"
    using that assms(4) same unfolding carried_def by metis
  from assms(1) show ?thesis
  proof cases
    case (step_enqueue env inp db out)
    then have "ob_id x \<noteq> ev_operation env" using assms(3,5) by (metis UnI1 fresh_id_def image_eqI)
    with enqueue_carried [OF step_enqueue(2), of x] step_enqueue(1) assms(4) same show ?thesis by auto
  next
    case (step_probe now db u)
    then have "db = fst (probe_begin now (hs_db s))" by simp
    with step_probe(1) show ?thesis by (intro moved) (simp add: carried_probe_begin)
  next
    case (step_idle now db)
    then have "db = fst (claim_next now (hs_db s))" by simp
    with step_idle(1) show ?thesis by (intro moved) (simp add: carried_claim_next [OF inv])
  next
    case (step_claim now db q)
    then have "db = fst (claim_next now (hs_db s))" by simp
    with step_claim(1) show ?thesis by (intro moved) (simp add: carried_claim_next [OF inv])
  next
    case (step_discard business staff db)
    then show ?thesis by (intro moved) (simp add: carried_discard)
  next
    case (step_discard_queue db)
    then show ?thesis by (intro moved) (simp add: discard_rejected_queue_def carried_discard_groups)
  next
    case (step_probe_end u status)
    then show ?thesis by (intro moved) (simp add: carried_probe_end)
  next
    case (step_answer u env outcome)
    then show ?thesis by (intro moved) (simp add: carried_finish_upload)
  next
    case step_retry_now
    then show ?thesis by (intro moved) (simp add: carried_retry_now)
  next
    case (step_replicate staff)
    then show ?thesis by (intro moved) (simp add: carried_refl)
  qed
qed

text \<open>Acceptance is final. In a reachable state, no step of any writer (a late answer to an upload of
  the same week, a retry, a rejection, a new proposal, a discard) turns an accepted week back into a
  queued, sending or rejected one, and no step forgets an attempt.\<close>

theorem acceptance_is_final:
  assumes "reach hours_initial hours_step s" "hours_step s t"
    "r \<in> set (db_outbox (hs_db s))" "x \<in> set (db_outbox (hs_db t))" "ob_id x = ob_id r"
  shows "ob_attempts r \<le> ob_attempts x \<and> (ob_state r = Accepted \<longrightarrow> ob_state x = Accepted)"
  using hours_step_carried [OF assms(2) hours.reach_inv [OF assms(1)] assms(3-5)] .

theorem acceptance_is_final_witness:
  "\<exists>a b. db_outbox demo_accepted = [a, b] \<and> a \<in> set (db_outbox (retry_now demo_accepted))
     \<and> 0 < ob_attempts a \<and> ob_state a = Accepted"
proof -
  obtain a b where rows: "db_outbox demo_accepted = [a, b]" "ob_state a = Accepted" using demo_rowsE by metis
  have step: "hours_step demo_accepted_state (demo_accepted_state\<lparr>hs_db := retry_now demo_accepted\<rparr>)"
    using step_retry_now [of demo_accepted_state] by (simp add: demo_accepted_state_def)
  have a: "a \<in> set (db_outbox (retry_now demo_accepted))"
    using rows by (simp add: retry_now_def update_rows_def)
  with acceptance_is_final [OF demo_accepted_reach step, of a a] rows
  have "ob_state a = Accepted" by (simp add: demo_accepted_state_def)
  moreover have "0 < ob_attempts a"
    using sent_not_unsent outbox_invD(3) [OF reachable_outbox [OF demo_accepted_reach]] rows
    by (simp add: demo_accepted_state_def)
  ultimately show ?thesis using rows a by blast
qed

section \<open>Catching up with the server\<close>

lemma settle_survives:
  assumes "outbox_inv (db_outbox db)" "r \<in> set (db_outbox db)" "\<not> observed db r"
  shows "\<exists>x\<in>set (db_outbox (settle_all now db)). ob_id x = ob_id r"
proof -
  have "\<exists>x\<in>set (db_outbox (foldl (\<lambda>d parent. settle_observed now parent d) d ps)). ob_id x = i"
    if "\<exists>x\<in>set (db_outbox d). ob_id x = i" "\<And>u. u \<in> set ps \<Longrightarrow> ob_id u \<noteq> i" for ps d i
    using that
  proof (induction ps arbitrary: d)
    case (Cons u ps)
    obtain x where x: "x \<in> set (db_outbox d)" "ob_id x = i" using Cons.prems(1) by blast
    let ?y = "if ob_predecessor x = Some (ob_id u) then release_child u x else x"
    have "?y \<in> set (update_rows (\<lambda>r. ob_predecessor r = Some (ob_id u)) (release_child u) (db_outbox d))" "ob_id ?y = i"
      using x by (auto simp: update_rows_def release_child_def)
    then have "\<exists>x\<in>set (db_outbox (settle_observed now u d)). ob_id x = i"
      using Cons.prems(2) [of u] by (intro bexI [of _ ?y]) (simp_all add: settle_observed_def in_delete_rows split del: if_split)
    with Cons.prems show ?case using Cons.IH by simp
  qed simp
  moreover have "ob_id u \<noteq> ob_id r" if "u \<in> set (filter (observed db) (db_outbox db))" for u
    using that assms(3) outbox_id_inj [OF assms(1) _ assms(2)] by auto
  ultimately show ?thesis using assms(2) unfolding settle_all_def by blast
qed

lemma claim_next_keeps_ids:
  "ob_id ` set (db_outbox (fst (claim_next now db))) = ob_id ` set (db_outbox (settle_all now db))"
proof -
  have "ob_id ` set (update_rows (\<lambda>x. ob_id x = ob_id q) (\<lambda>_. claimed_row now rows q) rows) = ob_id ` set rows" for q rows
  proof -
    have "map ob_id (update_rows (\<lambda>x. ob_id x = ob_id q) (\<lambda>_. claimed_row now rows q) rows) = map ob_id rows"
      by (simp add: update_rows_def claimed_row_def)
    then show ?thesis by (metis set_map)
  qed
  then show ?thesis by (auto simp: claim_next_def Let_def split: option.split)
qed

text \<open>An upload pass takes a week out of the outbox only once it is accepted and the replica already
  shows the member at the revision the week produced (or a later one); every other week stays.\<close>

theorem settled_only_when_observed:
  assumes "reach hours_initial hours_step s" "r \<in> set (db_outbox (hs_db s))"
    "\<forall>x\<in>set (db_outbox (fst (claim_next now (hs_db s)))). ob_id x \<noteq> ob_id r"
  shows "ob_state r = Accepted \<and> (\<exists>revision result. db_staff (hs_db s) (ob_business r, ob_staff r) = Some revision
    \<and> ob_result r = Some result \<and> result \<le> revision)"
proof -
  have "ob_id r \<notin> ob_id ` set (db_outbox (settle_all now (hs_db s)))"
    using assms(3) by (auto simp flip: claim_next_keeps_ids)
  then have "observed (hs_db s) r"
    using settle_survives [OF reachable_outbox [OF assms(1)] assms(2), of now] by (metis image_eqI)
  then show ?thesis by (auto simp: observed_def split: option.splits)
qed

theorem settled_only_when_observed_witness:
  "ob_state (hd (db_outbox (demo_accepted\<lparr>db_staff := [(''biz'', ''staff'') \<mapsto> 7]\<rparr>))) = Accepted"
proof -
  let ?s = "demo_accepted_state\<lparr>hs_db := (hs_db demo_accepted_state)\<lparr>db_staff := [(''biz'', ''staff'') \<mapsto> 7]\<rparr>\<rparr>"
  let ?r = "hd (db_outbox (hs_db ?s))"
  have "reach hours_initial hours_step ?s" using demo_accepted_reach step_replicate by (rule reach_step)
  moreover have "?r \<in> set (db_outbox (hs_db ?s))" by code_simp
  moreover have "\<forall>x\<in>set (db_outbox (fst (claim_next 0 (hs_db ?s)))). ob_id x \<noteq> ob_id ?r" by code_simp
  ultimately have "ob_state ?r = Accepted" by (rule settled_only_when_observed [THEN conjunct1])
  then show ?thesis by (simp add: demo_accepted_state_def)
qed

section \<open>Proposals and discards\<close>

lemma filter_map_same:
  assumes "\<And>x. x \<in> set xs \<Longrightarrow> f x = x \<or> \<not> P x \<and> \<not> P (f x)"
  shows "filter P (map f xs) = filter P xs"
  using assms
proof (induction xs)
  case (Cons a xs)
  then consider "f a = a" | "\<not> P a" "\<not> P (f a)" by auto
  then show ?case by cases (use Cons in simp_all)
qed simp

lemma newest_week_eq:
  assumes inv: "outbox_inv rows" and r: "r \<in> set rows" "in_group b s r"
    and top: "\<And>x. x \<in> set rows \<Longrightarrow> in_group b s x \<Longrightarrow> ob_sequence x \<le> ob_sequence r"
  shows "newest_week b s rows = Some r"
proof -
  obtain p where p: "newest_week b s rows = Some p" using r newest_week_None by (cases "newest_week b s rows") blast+
  note np = newest_weekD [OF p]
  have "ob_sequence p = ob_sequence r" using np(3) [OF r] top [OF np(1,2)] by simp
  then have "p = r" using outbox_sequence_inj [OF inv np(1) r(1)] by simp
  with p show ?thesis by simp
qed

lemma edit_unsent_newest:
  assumes inv: "outbox_inv (db_outbox db)" and p: "newest_week b s (db_outbox db) = Some p"
  shows "newest_week b s (db_outbox (fst (edit_unsent inp p db))) = Some (p\<lparr>ob_payload := (ob_payload p)\<lparr>wr_days := en_days inp\<rparr>\<rparr>)"
proof (rule newest_week_eq)
  note np = newest_weekD [OF p]
  let ?p = "p\<lparr>ob_payload := (ob_payload p)\<lparr>wr_days := en_days inp\<rparr>\<rparr>"
  show "outbox_inv (db_outbox (fst (edit_unsent inp p db)))" using inv by (rule outbox_inv_edit_unsent)
  show "?p \<in> set (db_outbox (fst (edit_unsent inp p db)))"
    using np(1) by (auto simp: edit_unsent_def Let_def in_update_rows intro!: bexI [of _ p])
  show "in_group b s ?p" using np(2) by (simp add: in_group_def)
  fix x assume "x \<in> set (db_outbox (fst (edit_unsent inp p db)))" "in_group b s x"
  then show "ob_sequence x \<le> ob_sequence ?p"
    using np(3) by (auto simp: edit_unsent_def Let_def in_group_def elim!: in_update_rowsE)
qed

lemma append_week_newest:
  assumes inv: "outbox_inv (db_outbox (fst (append_week env inp actor previous db)))"
  shows "newest_week (en_business inp) (en_staff inp) (db_outbox (fst (append_week env inp actor previous db)))
    = Some (new_week env inp actor previous db)"
proof (rule newest_week_eq [OF inv])
  fix x assume "x \<in> set (db_outbox (fst (append_week env inp actor previous db)))"
  then show "ob_sequence x \<le> ob_sequence (new_week env inp actor previous db)"
    using next_sequence_greater [of x "db_outbox db"] by (auto simp: append_week_outbox new_week_fields)
qed (simp_all add: append_week_outbox new_week_fields in_group_def)

lemma append_week_out:
  "eq_id (snd (append_week env inp actor previous db)) = ev_operation env"
  "eq_payload (snd (append_week env inp actor previous db)) = ob_payload (new_week env inp actor previous db)"
  by (simp_all add: new_week_def append_week_def Let_def split_beta)

lemma enqueue_newest:
  assumes "reach hours_initial hours_step s" "fresh_id (ev_operation env) s"
    "enqueue_hours env inp (hs_db s) = Inr (db', out)"
  shows "\<exists>r. newest_week (en_business inp) (en_staff inp) (db_outbox db') = Some r
      \<and> ob_state r = Queued \<and> ob_attempts r = 0 \<and> wr_days (ob_payload r) = en_days inp
      \<and> ob_id r = eq_id out \<and> ob_payload r = eq_payload out
      \<and> \<not> stale_predecessor (Some r) (Some (eq_id out, eq_payload out))
    \<and> filter (\<lambda>x. \<not> in_group (en_business inp) (en_staff inp) x) (db_outbox db')
      = filter (\<lambda>x. \<not> in_group (en_business inp) (en_staff inp) x) (db_outbox (hs_db s))"
proof -
  let ?db = "after_repair inp (hs_db s)"
  let ?other = "\<lambda>x. \<not> in_group (en_business inp) (en_staff inp) x"
  have inv0: "outbox_inv (db_outbox (hs_db s))" using assms(1) by (rule reachable_outbox)
  then have inv: "outbox_inv (db_outbox ?db)" by (rule outbox_inv_after_repair)
  have others: "filter ?other (db_outbox ?db) = filter ?other (db_outbox (hs_db s))"
    by (simp add: after_repair_def delete_rows_def)
  have inv': "outbox_inv (db_outbox db')"
    using assms(2) by (intro outbox_inv_enqueue [OF assms(3) inv0]) (auto simp: fresh_id_def)
  have appended: ?thesis if "(db', out) = append_week env inp actor previous ?db" for actor previous
  proof -
    have eq: "db' = fst (append_week env inp actor previous ?db)" "out = snd (append_week env inp actor previous ?db)"
      using that by (metis fst_conv, metis snd_conv)
    have "newest_week (en_business inp) (en_staff inp) (db_outbox db') = Some (new_week env inp actor previous ?db)"
      using inv' unfolding eq(1) by (rule append_week_newest)
    moreover have "filter ?other (db_outbox db') = filter ?other (db_outbox (hs_db s))"
      unfolding eq(1) append_week_outbox filter_append others by (simp add: in_group_def new_week_fields)
    ultimately show ?thesis
      by (simp add: eq(2) append_week_out new_week_fields stale_predecessor_def)
  qed
  from assms(3) show ?thesis
  proof (cases rule: enqueue_hours_cases)
    case (edit p)
    have eq: "db' = fst (edit_unsent inp p ?db)" "out = snd (edit_unsent inp p ?db)"
      using edit(5) by (metis fst_conv, metis snd_conv)
    note np = newest_weekD [OF edit(1)]
    have "filter ?other (db_outbox db') = filter ?other (db_outbox ?db)"
    proof -
      have same: "x = p" if "x \<in> set (db_outbox ?db)" "ob_id x = ob_id p" for x
        using outbox_id_inj [OF inv that(1) np(1) that(2)] .
      let ?f = "\<lambda>r. if ob_id r = ob_id p then r\<lparr>ob_payload := (ob_payload p)\<lparr>wr_days := en_days inp\<rparr>\<rparr> else r"
      have "filter ?other (map ?f (db_outbox ?db)) = filter ?other (db_outbox ?db)"
        using same np(2) by (intro filter_map_same) (auto simp: in_group_def)
      then show ?thesis by (simp add: eq(1) edit_unsent_def Let_def update_rows_def)
    qed
    with others edit_unsent_newest [OF inv edit(1), of inp] edit(3,4) show ?thesis
      by (simp add: eq stale_predecessor_def) (simp add: edit_unsent_def Let_def)
  next
    case (first actor) from appended [OF first(2)] show ?thesis .
  next
    case (chain actor p) from appended [OF chain(5)] show ?thesis .
  qed
qed

lemma discard_groups_rows:
  "discard_groups gs db = Inr db' \<Longrightarrow>
    db_outbox db' = filter (\<lambda>r. ob_state r = Accepted \<or> (ob_business r, ob_staff r) \<notin> set gs) (db_outbox db)"
  by (induction gs db rule: discard_groups.induct)
    (auto simp: delete_rows_def in_group_def split: if_splits intro!: filter_cong)

lemma discard_groups_sending:
  "discard_groups gs db = Inr db' \<Longrightarrow> r \<in> set (db_outbox db) \<Longrightarrow> (ob_business r, ob_staff r) \<in> set gs \<Longrightarrow>
    ob_state r \<noteq> Sending"
proof (induction gs db rule: discard_groups.induct)
  case (2 b s gs db)
  show ?case
  proof
    assume sending: "ob_state r = Sending"
    with 2(2,3) have none: "\<not> (\<exists>r\<in>set (db_outbox db). in_group b s r \<and> ob_state r = Sending)" by (auto split: if_splits)
    with sending 2(3) have r: "\<not> in_group b s r" by blast
    then have "(ob_business r, ob_staff r) \<in> set gs" using 2(4) by (auto simp: in_group_def)
    with 2(1) [OF none] none 2(2,3) r sending show False by (simp add: in_delete_rows split: if_splits)
  qed
qed simp

text \<open>Discarding the rejected weeks removes exactly the queued and rejected weeks of the members that
  have a rejected week: nothing rejected remains, every accepted week and every week of another member
  stays in its place, and it is refused rather than dropping a week whose upload is under way.\<close>

theorem discard_rejected_queue_exact:
  assumes "discard_rejected_queue db = Inr db'"
  shows "db_outbox db' = filter (\<lambda>r. ob_state r = Accepted \<or>
      (\<forall>q\<in>set (db_outbox db). same_member q r \<longrightarrow> ob_state q \<noteq> Rejected)) (db_outbox db)
    \<and> (\<forall>r\<in>set (db_outbox db'). ob_state r \<noteq> Rejected)
    \<and> (\<forall>r\<in>set (db_outbox db). ob_state r = Sending \<longrightarrow> r \<in> set (db_outbox db'))"
proof -
  let ?gs = "js_unique (map (\<lambda>r. (ob_business r, ob_staff r)) (filter (\<lambda>r. ob_state r = Rejected) (db_outbox db)))"
  note run = assms [unfolded discard_rejected_queue_def]
  have group: "(ob_business r, ob_staff r) \<in> set ?gs \<longleftrightarrow>
      (\<exists>q\<in>set (db_outbox db). same_member q r \<and> ob_state q = Rejected)" for r
    by (auto simp: same_member_def image_iff)
  have rows: "db_outbox db' = filter (\<lambda>r. ob_state r = Accepted \<or>
      (\<forall>q\<in>set (db_outbox db). same_member q r \<longrightarrow> ob_state q \<noteq> Rejected)) (db_outbox db)"
    unfolding discard_groups_rows [OF run] group by (rule filter_cong) auto
  moreover have "ob_state r \<noteq> Rejected" if "r \<in> set (db_outbox db')" for r
    using that unfolding rows by (auto simp: same_member_def)
  moreover have "r \<in> set (db_outbox db')" if "r \<in> set (db_outbox db)" "ob_state r = Sending" for r
    using discard_groups_sending [OF run that(1)] that group [of r] unfolding rows by auto
  ultimately show ?thesis by blast
qed

theorem discard_rejected_queue_exact_witness:
  "filter (\<lambda>r. ob_state r = Rejected)
     (db_outbox (projr (discard_rejected_queue (reject_week (snd demo_claimed) None 422 (fst demo_chained))))) = []"
proof -
  have "\<not> isl (discard_rejected_queue (reject_week (snd demo_claimed) None 422 (fst demo_chained)))" by code_simp
  then have "discard_rejected_queue (reject_week (snd demo_claimed) None 422 (fst demo_chained))
      = Inr (projr (discard_rejected_queue (reject_week (snd demo_claimed) None 422 (fst demo_chained))))" by simp
  from discard_rejected_queue_exact [OF this] show ?thesis unfolding filter_empty_conv by blast
qed

end
