(* ===== verification/Hours_Queue.thy ===== *)
theory Hours_Queue
  imports Hours_Guarantees
begin

text \<open>
  What the hours outbox promises, apart from its rows: for every member a queue of weeks waiting for the server,
  oldest first. The transactions of \<open>Hours_Outbox\<close> refine it, and it drains when the server answers.
\<close>

section \<open>Refinement\<close>

text \<open>Runs of a system whose steps are labelled, and a system whose steps, seen through \<open>view\<close>, are what a function of the
  label makes of the view.\<close>

inductive trace :: "('s \<Rightarrow> 'e \<Rightarrow> 's \<Rightarrow> bool) \<Rightarrow> 's \<Rightarrow> 'e list \<Rightarrow> 's \<Rightarrow> bool"
  for step :: "'s \<Rightarrow> 'e \<Rightarrow> 's \<Rightarrow> bool" where
  trace_nil: "trace step s [] s"
| trace_step: "step s e t \<Longrightarrow> trace step t es u \<Longrightarrow> trace step s (e # es) u"

locale refinement =
  fixes step :: "'c \<Rightarrow> 'e \<Rightarrow> 'c \<Rightarrow> bool" and inv :: "'c \<Rightarrow> bool"
    and abs_do :: "'e \<Rightarrow> 'a \<Rightarrow> 'a" and view :: "'c \<Rightarrow> 'a"
  assumes labelled_inv: "inv s \<Longrightarrow> step s e t \<Longrightarrow> inv t"
    and view_step: "inv s \<Longrightarrow> step s e t \<Longrightarrow> view t = abs_do e (view s)"
begin

lemma view_trace: "trace step s es t \<Longrightarrow> inv s \<Longrightarrow> view t = fold abs_do es (view s) \<and> inv t"
  by (induction rule: trace.induct) (auto simp: view_step intro: labelled_inv)

end

section \<open>The abstract queue\<close>

text \<open>What happens to the outbox, by the weeks it happens to: a member proposes days (starting over, where it is a repair),
  the rejected weeks are dropped, a week goes out, the server takes it, refuses it or its answer is put off.\<close>

datatype hours_event =
    Ev_Proposed string string bool string "week_day list"
  | Ev_Discarded string string
  | Ev_Discarded_Refused
  | Ev_Went_Out string
  | Ev_Taken string
  | Ev_Refused string
  | Ev_Put_Back string
  | Ev_Quiet

record pending_week =
  pw_id :: string
  pw_days :: "week_day list"
  pw_sent :: bool
  pw_refused :: bool

text \<open>The queue of one member. A proposal goes to the end, unless the last week has never gone out, whose days it replaces.
  Only the first week goes out, is taken or is refused; only a queue with a refused week is dropped.\<close>

definition queue_first :: "string \<Rightarrow> (pending_week \<Rightarrow> pending_week list) \<Rightarrow> pending_week list \<Rightarrow> pending_week list" where
  "queue_first i f q = (case q of [] \<Rightarrow> [] | w # ws \<Rightarrow> if pw_id w = i then f w @ ws else w # ws)"

fun queue_do :: "string \<Rightarrow> string \<Rightarrow> hours_event \<Rightarrow> pending_week list \<Rightarrow> pending_week list" where
  "queue_do b m (Ev_Proposed b' m' repair i days) q =
    (let new = \<lparr>pw_id = i, pw_days = days, pw_sent = False, pw_refused = False\<rparr>
     in if (b', m') \<noteq> (b, m) then q
        else if repair then [new]
        else if q \<noteq> [] \<and> \<not> pw_sent (last q) then butlast q @ [(last q)\<lparr>pw_days := days\<rparr>]
        else q @ [new])"
| "queue_do b m (Ev_Discarded b' m') q = (if (b', m') = (b, m) \<and> list_ex pw_refused q then [] else q)"
| "queue_do b m Ev_Discarded_Refused q = (if list_ex pw_refused q then [] else q)"
| "queue_do b m (Ev_Went_Out i) q = queue_first i (\<lambda>w. [w\<lparr>pw_sent := True, pw_refused := False\<rparr>]) q"
| "queue_do b m (Ev_Taken i) q = queue_first i (\<lambda>w. []) q"
| "queue_do b m (Ev_Refused i) q = queue_first i (\<lambda>w. [w\<lparr>pw_refused := True\<rparr>]) q"
| "queue_do b m (Ev_Put_Back i) q = q"
| "queue_do b m Ev_Quiet q = q"

text \<open>The transactions of the system of writers, each with its event.\<close>

definition answer_event :: "outbox_row \<Rightarrow> upload_outcome \<Rightarrow> hours_event" where
  "answer_event u outcome =
    (case outcome of
       Broke \<Rightarrow> Ev_Put_Back (ob_id u)
     | Answered r \<Rightarrow>
        if response_ok r then (if week_result (rs_body r) = None then Ev_Put_Back (ob_id u) else Ev_Taken (ob_id u))
        else if if rs_status r = 402 then plan_lapsed r else try_later (rs_status r) then Ev_Put_Back (ob_id u)
        else Ev_Refused (ob_id u))"

inductive hours_tr :: "hours_system \<Rightarrow> hours_event \<Rightarrow> hours_system \<Rightarrow> bool" where
  tr_enqueue: "enqueue_hours env inp (hs_db s) = Inr (db, out) \<Longrightarrow> fresh_id (ev_operation env) s \<Longrightarrow>
    hours_tr s (Ev_Proposed (en_business inp) (en_staff inp) (en_repair inp) (ev_operation env) (en_days inp)) (s\<lparr>hs_db := db\<rparr>)"
| tr_discard: "discard_rejected_hours business staff (hs_db s) = Inr db \<Longrightarrow>
    hours_tr s (Ev_Discarded business staff) (s\<lparr>hs_db := db\<rparr>)"
| tr_discard_queue: "discard_rejected_queue (hs_db s) = Inr db \<Longrightarrow> hours_tr s Ev_Discarded_Refused (s\<lparr>hs_db := db\<rparr>)"
| tr_probe: "probe_begin now (hs_db s) = (db, Some u) \<Longrightarrow>
    hours_tr s Ev_Quiet (s\<lparr>hs_db := db, hs_probed := u # hs_probed s\<rparr>)"
| tr_probe_end: "u \<in> set (hs_probed s) \<Longrightarrow>
    hours_tr s Ev_Quiet (s\<lparr>hs_db := probe_end u status (hs_db s), hs_probed := remove1 u (hs_probed s)\<rparr>)"
| tr_idle: "claim_next now (hs_db s) = (db, None) \<Longrightarrow> hours_tr s Ev_Quiet (s\<lparr>hs_db := db\<rparr>)"
| tr_claim: "claim_next now (hs_db s) = (db, Some r) \<Longrightarrow>
    hours_tr s (Ev_Went_Out (ob_id r)) (s\<lparr>hs_db := db, hs_sent := r # hs_sent s\<rparr>)"
| tr_answer: "r \<in> set (hs_sent s) \<Longrightarrow>
    hours_tr s (answer_event r outcome) (s\<lparr>hs_db := finish_upload env r outcome (hs_db s), hs_sent := remove1 r (hs_sent s)\<rparr>)"
| tr_retry_now: "hours_tr s Ev_Quiet (s\<lparr>hs_db := retry_now (hs_db s)\<rparr>)"
| tr_replicate: "hours_tr s Ev_Quiet (s\<lparr>hs_db := (hs_db s)\<lparr>db_staff := staff\<rparr>\<rparr>)"

text \<open>The events label the steps of the system and leave none out.\<close>

lemma hours_tr_step: "hours_tr s e t \<Longrightarrow> hours_step s t"
  by (induction rule: hours_tr.induct) (auto intro: hours_step.intros)

lemma hours_step_tr: "hours_step s t \<Longrightarrow> \<exists>e. hours_tr s e t"
  by (induction rule: hours_step.induct) (blast intro: hours_tr.intros)+

lemma hours_run_trace: "hours_step\<^sup>*\<^sup>* s t \<Longrightarrow> \<exists>es. trace hours_tr s es t"
  by (induction rule: converse_rtranclp_induct) (blast intro: trace.intros dest: hours_step_tr)+

definition waiting :: "outbox_row \<Rightarrow> bool" where
  "waiting r \<longleftrightarrow> ob_state r \<noteq> Accepted"

definition pending_of :: "outbox_row \<Rightarrow> pending_week" where
  "pending_of r = \<lparr>pw_id = ob_id r, pw_days = wr_days (ob_payload r), pw_sent = 0 < ob_attempts r, pw_refused = (ob_state r = Rejected)\<rparr>"

text \<open>The weeks a member has waiting, oldest first.\<close>

definition pending_weeks :: "string \<Rightarrow> string \<Rightarrow> outbox_row list \<Rightarrow> pending_week list" where
  "pending_weeks business staff rows = map pending_of (filter (\<lambda>r. waiting r \<and> in_group business staff r) rows)"

section \<open>Transactions that leave the waiting weeks as they are\<close>

text \<open>What a waiting row is to its member and to the uploader, apart from where it stands in its chain.\<close>

definition row_view :: "outbox_row \<Rightarrow> string \<times> string \<times> pending_week \<times> outbox_state \<times> rat" where
  "row_view r = (ob_business r, ob_staff r, pending_of r, ob_state r, ob_retry_at r)"

definition waiting_views :: "outbox_row list \<Rightarrow> (string \<times> string \<times> pending_week \<times> outbox_state \<times> rat) list" where
  "waiting_views rows = map row_view (filter waiting rows)"

lemma pending_weeks_views:
  "pending_weeks b s rows = map (\<lambda>(b', s', w, st, due). w) (filter (\<lambda>(b', s', w, st, due). b' = b \<and> s' = s) (waiting_views rows))"
  by (induction rows) (simp_all add: pending_weeks_def waiting_views_def row_view_def in_group_def)

lemma pending_weeks_map:
  assumes "\<And>r. r \<in> set rows \<Longrightarrow> P r \<Longrightarrow> ob_business (f r) = ob_business r \<and> ob_staff (f r) = ob_staff r
    \<and> pending_of (f r) = pending_of r \<and> (waiting (f r) \<longleftrightarrow> waiting r)"
  shows "pending_weeks b s (update_rows P f rows) = pending_weeks b s rows"
  using assms
  by (induction rows) (auto simp: pending_weeks_def update_rows_def in_group_def)

lemma pending_weeks_delete:
  assumes "\<And>r. r \<in> set rows \<Longrightarrow> D r \<Longrightarrow> waiting r \<Longrightarrow> \<not> in_group b s r"
  shows "pending_weeks b s (delete_rows D rows) = pending_weeks b s rows"
  using assms by (induction rows) (auto simp: pending_weeks_def delete_rows_def)

lemma release_child_view [simp]: "row_view (release_child u r) = row_view r" "waiting (release_child u r) = waiting r"
  "ob_id (release_child u r) = ob_id r" "ob_state (release_child u r) = ob_state r"
  by (simp_all add: row_view_def pending_of_def waiting_def release_child_def split: nat.splits option.splits)

lemma waiting_views_settle:
  assumes "was_accepted (db_outbox db) u"
  shows "waiting_views (db_outbox (settle_observed now u db)) = waiting_views (db_outbox db)"
proof -
  have "waiting_views (delete_rows (\<lambda>r. ob_id r = ob_id u)
      (update_rows (\<lambda>r. ob_predecessor r = Some (ob_id u)) (release_child u) rows)) = waiting_views rows"
    if "\<And>r. r \<in> set rows \<Longrightarrow> ob_id r = ob_id u \<Longrightarrow> ob_state r = Accepted" for rows
    using that
    by (induction rows) (auto simp: waiting_views_def delete_rows_def update_rows_def waiting_def)
  with assms show ?thesis by (simp add: settle_observed_def was_accepted_def)
qed

lemma waiting_views_settle_all:
  assumes "outbox_inv (db_outbox db)"
  shows "waiting_views (db_outbox (settle_all now db)) = waiting_views (db_outbox db)"
proof -
  have "waiting_views (db_outbox (foldl (\<lambda>d parent. settle_observed now parent d) db ps)) = waiting_views (db_outbox db)"
    if "\<And>u. u \<in> set ps \<Longrightarrow> was_accepted (db_outbox db) u" for ps
    using that
  proof (induction ps arbitrary: db)
    case (Cons u ps)
    have "was_accepted (db_outbox (settle_observed now u db)) v" if "v \<in> set ps" for v
      using was_accepted_carried [OF _ carried_settle_observed] Cons.prems that by simp
    then show ?case using Cons waiting_views_settle by simp
  qed simp
  from this [of "filter (observed db) (db_outbox db)"] show ?thesis
    using was_accepted_observed [OF assms] unfolding settle_all_def by simp
qed

lemma pending_settle_all:
  assumes "outbox_inv (db_outbox db)"
  shows "pending_weeks b s (db_outbox (settle_all now db)) = pending_weeks b s (db_outbox db)"
  using waiting_views_settle_all [OF assms] by (simp add: pending_weeks_views)

lemma pending_claim_none:
  assumes "outbox_inv (db_outbox db)" "claim_next now db = (db', None)"
  shows "pending_weeks b s (db_outbox db') = pending_weeks b s (db_outbox db)"
  using assms(2) pending_settle_all [OF assms(1)] by (auto simp: claim_next_def Let_def split: option.splits)

lemma pending_probe:
  "probe_begin now db = (db', out) \<Longrightarrow> pending_weeks b s (db_outbox db') = pending_weeks b s (db_outbox db)"
  "pending_weeks b s (db_outbox (probe_end u status db)) = pending_weeks b s (db_outbox db)"
  "pending_weeks b s (db_outbox (retry_now db)) = pending_weeks b s (db_outbox db)"
proof -
  show "probe_begin now db = (db', out) \<Longrightarrow> pending_weeks b s (db_outbox db') = pending_weeks b s (db_outbox db)"
    by (auto simp: probe_begin_def waiting_def pending_of_def intro!: pending_weeks_map split: option.splits)
  have "pending_weeks b s (delete_rows (\<lambda>r. ob_id r = ob_id u \<and> ob_state r = Accepted) rows) = pending_weeks b s rows" for rows
    by (rule pending_weeks_delete) (simp add: waiting_def)
  moreover have "pending_weeks b s (unlink_children i rows) = pending_weeks b s rows" for i rows
    unfolding unlink_children_def by (rule pending_weeks_map) (simp add: waiting_def pending_of_def)
  ultimately show "pending_weeks b s (db_outbox (probe_end u status db)) = pending_weeks b s (db_outbox db)"
    by (simp add: probe_end_def)
  show "pending_weeks b s (db_outbox (retry_now db)) = pending_weeks b s (db_outbox db)"
    by (auto simp: retry_now_def waiting_def pending_of_def intro!: pending_weeks_map)
qed


section \<open>Transactions that change the queue\<close>

text \<open>A week with an attempt has only accepted weeks of its member before it: it is the first one waiting.\<close>

lemma pending_first:
  assumes inv: "outbox_inv (xs @ r # ys)" and r: "0 < ob_attempts r" "waiting r" "in_group b s r"
  shows "pending_weeks b s xs = []"
proof -
  have "\<not> (waiting x \<and> in_group b s x)" if "x \<in> set xs" for x
  proof
    assume x: "waiting x \<and> in_group b s x"
    have "ob_sequence x < ob_sequence r"
      using outbox_invD(1) [OF inv] that by (auto simp: sorted_wrt_append)
    moreover have "same_member x r" using x r(3) by (simp add: in_group_def same_member_def)
    ultimately have "order_ok (xs @ r # ys) x r" using outbox_invD(6) [OF inv] that by simp
    with x r(1) show False by (simp add: order_ok_def waiting_def)
  qed
  then show ?thesis by (simp add: pending_weeks_def filter_empty_conv)
qed

lemma pending_weeks_append: "pending_weeks b s (xs @ ys) = pending_weeks b s xs @ pending_weeks b s ys"
  by (simp add: pending_weeks_def)

lemma pending_weeks_Cons:
  "pending_weeks b s (r # rows)
    = (if waiting r \<and> in_group b s r then [pending_of r] else []) @ pending_weeks b s rows"
  by (simp add: pending_weeks_def)

lemma pending_weeks_outside:
  assumes "\<And>r. r \<in> set rows \<Longrightarrow> P r \<Longrightarrow> \<not> (waiting r \<and> in_group b s r) \<and> \<not> (waiting (f r) \<and> in_group b s (f r))"
  shows "pending_weeks b s (update_rows P f rows) = pending_weeks b s rows"
  using assms by (induction rows) (auto simp: pending_weeks_def update_rows_def)

lemma distinct_key_others: "distinct (map f (xs @ r # ys)) \<Longrightarrow> x \<in> set xs \<union> set ys \<Longrightarrow> f x \<noteq> f r"
  by (simp, metis imageI)

lemma update_rows_one:
  assumes "\<And>x. x \<in> set xs \<union> set ys \<Longrightarrow> \<not> P x" "P r"
  shows "update_rows P f (xs @ r # ys) = xs @ f r # ys"
proof -
  have "map (\<lambda>x. if P x then f x else x) zs = zs" if "\<And>x. x \<in> set zs \<Longrightarrow> \<not> P x" for zs
    using that by (induction zs) auto
  from this [of xs] this [of ys] assms show ?thesis by (simp add: update_rows_def)
qed

text \<open>What happens to a week that went out happens to the first of its member's queue, and to no other member's.\<close>

lemma queue_first_absent:
  "(\<And>r. r \<in> set rows \<Longrightarrow> waiting r \<Longrightarrow> in_group b s r \<Longrightarrow> ob_id r \<noteq> i) \<Longrightarrow> queue_first i f (pending_weeks b s rows) = pending_weeks b s rows"
  by (cases "filter (\<lambda>r. waiting r \<and> in_group b s r) rows")
    (auto simp: queue_first_def pending_weeks_def pending_of_def filter_eq_Cons_iff)

lemma pending_update_first:
  assumes inv: "outbox_inv rows" and sent: "\<And>r. r \<in> set rows \<Longrightarrow> P r \<Longrightarrow> 0 < ob_attempts r"
    and P: "\<And>r. r \<in> set rows \<Longrightarrow> P r \<Longrightarrow> ob_id r = i" "\<And>r. r \<in> set rows \<Longrightarrow> waiting r \<Longrightarrow> ob_id r = i \<Longrightarrow> P r"
    and f: "\<And>r. in_group b s (f r) = in_group b s r"
      "\<And>r. r \<in> set rows \<Longrightarrow> waiting r \<Longrightarrow> P r \<Longrightarrow> (if waiting (f r) then [pending_of (f r)] else []) = g (pending_of r)"
      "\<And>r. r \<in> set rows \<Longrightarrow> P r \<Longrightarrow> waiting (f r) \<Longrightarrow> waiting r"
  shows "pending_weeks b s (update_rows P f rows) = queue_first i g (pending_weeks b s rows)"
proof (cases "\<exists>r\<in>set rows. waiting r \<and> in_group b s r \<and> ob_id r = i")
  case True
  then obtain r where r: "r \<in> set rows" "waiting r" "in_group b s r" "ob_id r = i" by blast
  then have Pr: "P r" using P(2) by blast
  obtain xs ys where rows: "rows = xs @ r # ys" using r(1) by (auto dest: split_list)
  have xs: "pending_weeks b s xs = []" using pending_first inv r(2,3) sent [OF r(1) Pr] unfolding rows by blast
  have "\<not> P x" if "x \<in> set xs \<union> set ys" for x
    using distinct_key_others [OF outbox_invD(2) [OF inv, unfolded rows] that] P(1) [of x] that r(4) by (auto simp: rows)
  then have "update_rows P f rows = xs @ f r # ys" unfolding rows using Pr by (intro update_rows_one) auto
  moreover have "pw_id (pending_of r) = i" using r(4) by (simp add: pending_of_def)
  ultimately show ?thesis using xs r f(1) f(2) [OF r(1,2) Pr]
    by (simp add: rows pending_weeks_append pending_weeks_Cons queue_first_def)
next
  case False
  then have "pending_weeks b s (update_rows P f rows) = pending_weeks b s rows"
    using P(1) f(1,3) by (intro pending_weeks_outside) blast
  also have "\<dots> = queue_first i g (pending_weeks b s rows)" using False by (intro queue_first_absent [symmetric]) blast
  finally show ?thesis .
qed

lemma pending_claim:
  assumes inv: "outbox_inv (db_outbox db)" and claim: "claim_next now db = (db', Some r)"
  shows "pending_weeks b s (db_outbox db') = queue_do b s (Ev_Went_Out (ob_id r)) (pending_weeks b s (db_outbox db))"
proof -
  let ?rows = "db_outbox (settle_all now db)" and ?g = "\<lambda>w. [w\<lparr>pw_sent := True, pw_refused := False\<rparr>]"
  obtain q where q: "q \<in> set ?rows" "sendable now ?rows q" "r = claimed_row now ?rows q"
    "db_outbox db' = update_rows (\<lambda>x. ob_id x = ob_id q) (\<lambda>_. r) ?rows"
    using claim by (rule claim_next_Some)
  have inv': "outbox_inv (db_outbox db')" using outbox_inv_claim_next [OF inv, of now] claim by simp
  obtain xs ys where rows: "?rows = xs @ q # ys" using q(1) by (auto dest: split_list)
  have "ob_id x \<noteq> ob_id q" if "x \<in> set xs \<union> set ys" for x
    using distinct_key_others [OF outbox_invD(2) [OF outbox_inv_settle_all [OF inv, of now], unfolded rows] that] .
  moreover have "ob_id r = ob_id q" by (simp add: q(3) claimed_row_def)
  ultimately have absent: "\<And>x. x \<in> set xs \<union> set ys \<Longrightarrow> ob_id x \<noteq> ob_id r" and new: "db_outbox db' = xs @ r # ys"
    unfolding q(4) rows by (simp, intro update_rows_one) auto
  have r: "waiting r" "in_group b s r = in_group b s q" "0 < ob_attempts r" "waiting q" "pw_id (pending_of q) = ob_id r"
    "[pending_of r] = ?g (pending_of q)"
    using q(2) by (auto simp: q(3) claimed_row_def outgoing_payload_def sendable_def waiting_def in_group_def pending_of_def split: option.splits)
  have "pending_weeks b s (xs @ r # ys) = queue_first (ob_id r) ?g (pending_weeks b s (xs @ q # ys))"
  proof (cases "in_group b s r")
    case True
    then have "pending_weeks b s xs = []" using pending_first inv' r(1,3) unfolding new by blast
    with True r show ?thesis by (simp add: pending_weeks_append pending_weeks_Cons queue_first_def)
  next
    case False
    with r(2) have "queue_first (ob_id r) ?g (pending_weeks b s (xs @ q # ys)) = pending_weeks b s (xs @ q # ys)"
      using absent by (intro queue_first_absent) auto
    with False r(2) show ?thesis by (simp add: pending_weeks_append pending_weeks_Cons)
  qed
  with pending_settle_all [OF inv, of b s now] show ?thesis by (simp add: new rows)
qed

lemma pending_finish_upload:
  assumes inv: "outbox_inv (db_outbox db)" and sent: "was_sent (db_outbox db) u"
  shows "pending_weeks b s (db_outbox (finish_upload env u outcome db))
    = queue_do b s (answer_event u outcome) (pending_weeks b s (db_outbox db))"
proof -
  have retry: "pending_weeks b s (db_outbox (retry_week env u code delay db)) = pending_weeks b s (db_outbox db)" for code delay
    unfolding retry_week_def by (simp, rule pending_weeks_map) (simp add: waiting_def pending_of_def)
  have reject: "pending_weeks b s (db_outbox (reject_week u body status db))
      = queue_do b s (Ev_Refused (ob_id u)) (pending_weeks b s (db_outbox db))" for body status
    unfolding reject_week_def queue_do.simps using sent
    by (simp, intro pending_update_first [OF inv]) (auto simp: was_sent_def waiting_def in_group_def pending_of_def)
  have accept: "pending_weeks b s (db_outbox (accept_week env u revision stranded db))
      = queue_do b s (Ev_Taken (ob_id u)) (pending_weeks b s (db_outbox db))" for revision stranded
    unfolding accept_week_def queue_do.simps using sent
    by (simp add: Let_def, intro pending_update_first [OF inv]) (auto simp: was_sent_def waiting_def in_group_def)
  show ?thesis
    using retry reject accept
    by (auto simp: answer_event_def finish_upload_answers split: upload_outcome.split)
qed

lemma pending_delete_group: "pending_weeks b s (delete_rows (in_group b' s') rows) = (if b = b' \<and> s = s' then [] else pending_weeks b s rows)"
  by (induction rows) (auto simp: pending_weeks_def delete_rows_def in_group_def)

lemma refused_pending: "list_ex pw_refused (pending_weeks b s rows) \<longleftrightarrow> (\<exists>r\<in>set rows. in_group b s r \<and> ob_state r = Rejected)"
  by (auto simp: list_ex_iff pending_weeks_def pending_of_def waiting_def)

lemma pending_discard:
  "discard_rejected_hours b' s' db = Inr db' \<Longrightarrow>
    pending_weeks b s (db_outbox db') = queue_do b s (Ev_Discarded b' s') (pending_weeks b s (db_outbox db))"
  by (auto simp: discard_rejected_hours_def Let_def pending_delete_group refused_pending split: if_splits)

lemma pending_discard_queue:
  assumes "discard_rejected_queue db = Inr db'"
  shows "pending_weeks b s (db_outbox db') = queue_do b s Ev_Discarded_Refused (pending_weeks b s (db_outbox db))"
proof -
  let ?ok = "\<lambda>r. ob_state r = Accepted \<or> (\<forall>q\<in>set (db_outbox db). same_member q r \<longrightarrow> ob_state q \<noteq> Rejected)"
  have "db_outbox db' = filter ?ok (db_outbox db)" using discard_rejected_queue_exact [OF assms] by blast
  moreover have "filter (\<lambda>r. waiting r \<and> in_group b s r) (filter ?ok rows)
      = (if \<exists>q\<in>set (db_outbox db). in_group b s q \<and> ob_state q = Rejected then [] else filter (\<lambda>r. waiting r \<and> in_group b s r) rows)"
    for rows by (induction rows) (auto simp: waiting_def in_group_def same_member_def)
  ultimately show ?thesis by (auto simp: refused_pending) (auto simp: pending_weeks_def)
qed

lemma pending_newest:
  assumes inv: "outbox_inv rows" and p: "newest_week b s rows = Some p" "waiting p"
  obtains ws where "pending_weeks b s rows = ws @ [pending_of p]"
    "pending_weeks b s (update_rows (\<lambda>r. ob_id r = ob_id p) (\<lambda>r. r\<lparr>ob_payload := (ob_payload p)\<lparr>wr_days := w\<rparr>\<rparr>) rows)
      = ws @ [(pending_of p)\<lparr>pw_days := w\<rparr>]"
proof -
  note pD = newest_weekD [OF p(1)]
  obtain xs ys where rows: "rows = xs @ p # ys" using pD(1) by (auto dest: split_list)
  have "\<not> in_group b s y" if "y \<in> set ys" for y
    using outbox_invD(1) [OF inv] pD(3) [of y] that by (fastforce simp: rows sorted_wrt_append)
  then have ys: "pending_weeks b s ys = []" by (simp add: pending_weeks_def filter_empty_conv)
  have absent: "ob_id x \<noteq> ob_id p" if "x \<in> set xs \<union> set ys" for x
    using distinct_key_others [OF outbox_invD(2) [OF inv, unfolded rows] that] .
  show thesis
  proof (rule that [of "pending_weeks b s xs"])
    show "pending_weeks b s rows = pending_weeks b s xs @ [pending_of p]"
      using ys pD(2) p(2) by (simp add: rows pending_weeks_append pending_weeks_Cons)
    let ?f = "\<lambda>r. r\<lparr>ob_payload := (ob_payload p)\<lparr>wr_days := w\<rparr>\<rparr>"
    have "update_rows (\<lambda>r. ob_id r = ob_id p) ?f rows = xs @ ?f p # ys"
      unfolding rows using absent by (intro update_rows_one) auto
    moreover have "waiting (?f p)" "in_group b s (?f p)" "pending_of (?f p) = (pending_of p)\<lparr>pw_days := w\<rparr>"
      using pD(2) p(2) by (simp_all add: in_group_def waiting_def pending_of_def)
    ultimately show "pending_weeks b s (update_rows (\<lambda>r. ob_id r = ob_id p) ?f rows) = pending_weeks b s xs @ [(pending_of p)\<lparr>pw_days := w\<rparr>]"
      using ys by (simp only: pending_weeks_append pending_weeks_Cons) simp
  qed
qed


lemma pending_after_repair:
  "pending_weeks (en_business inp) (en_staff inp) (db_outbox (after_repair inp db))
    = (if en_repair inp then [] else pending_weeks (en_business inp) (en_staff inp) (db_outbox db))"
  by (simp add: after_repair_def pending_delete_group)

lemma pending_enqueue_others:
  assumes "enqueue_hours env inp db = Inr (db', out)" "(b, s) \<noteq> (en_business inp, en_staff inp)"
    "outbox_inv (db_outbox db)"
  shows "pending_weeks b s (db_outbox db') = pending_weeks b s (db_outbox db)"
proof -
  have repair: "pending_weeks b s (db_outbox (after_repair inp db)) = pending_weeks b s (db_outbox db)"
    using assms(2) by (auto simp: after_repair_def pending_delete_group)
  have appended: "pending_weeks b s (db_outbox (fst (append_week env inp actor prev (after_repair inp db)))) = pending_weeks b s (db_outbox db)" for actor prev
    using repair assms(2)
    by (auto simp: append_week_outbox pending_weeks_append pending_weeks_Cons in_group_def new_week_fields pending_weeks_def [of _ _ "[]"])
  from assms(1) show ?thesis
  proof (cases rule: enqueue_hours_cases)
    case (edit p)
    then have db': "db_outbox db' = update_rows (\<lambda>r. ob_id r = ob_id p)
        (\<lambda>r. r\<lparr>ob_payload := (ob_payload p)\<lparr>wr_days := en_days inp\<rparr>\<rparr>) (db_outbox (after_repair inp db))"
      by (simp add: edit_unsent_def Let_def)
    note p = newest_weekD(1,2) [OF edit(1)]
    have "\<not> in_group b s x" if "x \<in> set (db_outbox (after_repair inp db))" "ob_id x = ob_id p" for x
      using outbox_id_inj [OF outbox_inv_after_repair [OF assms(3)] that(1) p(1) that(2)] p(2) assms(2) by (auto simp: in_group_def)
    then show ?thesis unfolding db' repair [symmetric]
      by (intro pending_weeks_outside) (auto simp: in_group_def)
  qed (use appended in \<open>metis fst_conv\<close>)+
qed

text \<open>Once the newest week of a member has gone out, so have all.\<close>

lemma pending_all_sent:
  assumes inv: "outbox_inv rows" and p: "newest_week b s rows = Some p" "0 < ob_attempts p"
  shows "\<forall>w\<in>set (pending_weeks b s rows). pw_sent w"
proof -
  note pD = newest_weekD [OF p(1)]
  have "0 < ob_attempts r" if r: "r \<in> set rows" "in_group b s r" for r
  proof (cases "r = p")
    case False
    then have "ob_sequence r < ob_sequence p" using pD(3) [OF r] outbox_sequence_inj [OF inv r(1) pD(1)] by force
    then show ?thesis using outbox_invD(5) [OF inv r(1) pD(1)] r(2) pD(2) by (simp add: same_member_def in_group_def)
  qed (use p(2) in simp)
  then show ?thesis by (auto simp: pending_weeks_def pending_of_def)
qed

lemma pending_enqueue:
  assumes "enqueue_hours env inp db = Inr (db', out)" "outbox_inv (db_outbox db)"
  shows "pending_weeks b s (db_outbox db')
    = queue_do b s (Ev_Proposed (en_business inp) (en_staff inp) (en_repair inp) (ev_operation env) (en_days inp)) (pending_weeks b s (db_outbox db))"
proof (cases "(b, s) = (en_business inp, en_staff inp)")
  case False
  then show ?thesis using pending_enqueue_others [OF assms(1) False assms(2)] by auto
next
  case True
  then have bs: "en_business inp = b" "en_staff inp = s" by simp_all
  let ?db = "after_repair inp db" and ?old = "pending_weeks b s (db_outbox db)"
  let ?mid = "pending_weeks b s (db_outbox ?db)" and ?new = "\<lparr>pw_id = ev_operation env, pw_days = en_days inp, pw_sent = False, pw_refused = False\<rparr>"
  note inv = outbox_inv_after_repair [OF assms(2), of inp]
  have mid: "?mid = (if en_repair inp then [] else ?old)" using True pending_after_repair by simp
  have new: "pending_weeks b s (db_outbox (fst (append_week env inp actor prev ?db))) = ?mid @ [?new]" for actor prev
    using True by (simp add: append_week_outbox pending_weeks_append pending_weeks_Cons in_group_def new_week_fields
        waiting_def pending_of_def pending_weeks_def [of _ _ "[]"])
  have appended: ?thesis if "(db', out) = append_week env inp actor prev ?db" "\<forall>w\<in>set ?mid. pw_sent w" for actor prev
  proof -
    have "db' = fst (append_week env inp actor prev ?db)" using that(1) by (metis fst_conv)
    moreover have "?old \<noteq> [] \<Longrightarrow> \<not> en_repair inp \<Longrightarrow> pw_sent (last ?old)" using that(2) mid by simp
    ultimately show ?thesis using mid new by (auto simp: Let_def bs)
  qed
  from assms(1) show ?thesis
  proof (cases rule: enqueue_hours_cases)
    case (edit p)
    have "waiting p" using edit(3) by (simp add: waiting_def)
    with edit(1) True obtain ws where ws: "?mid = ws @ [pending_of p]"
      "pending_weeks b s (update_rows (\<lambda>r. ob_id r = ob_id p)
         (\<lambda>r. r\<lparr>ob_payload := (ob_payload p)\<lparr>wr_days := en_days inp\<rparr>\<rparr>) (db_outbox ?db)) = ws @ [(pending_of p)\<lparr>pw_days := en_days inp\<rparr>]"
      using pending_newest [OF inv] by (metis fst_conv snd_conv)
    then have "?old = ws @ [pending_of p]" "\<not> en_repair inp" using mid by (auto split: if_splits)
    moreover have "\<not> pw_sent (pending_of p)" using edit(4) by (simp add: pending_of_def)
    moreover have "db_outbox db' = update_rows (\<lambda>r. ob_id r = ob_id p)
         (\<lambda>r. r\<lparr>ob_payload := (ob_payload p)\<lparr>wr_days := en_days inp\<rparr>\<rparr>) (db_outbox ?db)"
      using edit(5) by (simp add: edit_unsent_def Let_def)
    ultimately show ?thesis using ws(2) by (simp add: Let_def bs)
  next
    case (first actor)
    then have "?mid = []" using True by (auto simp: newest_week_None pending_weeks_def filter_empty_conv)
    then show ?thesis using appended [OF first(2)] by simp
  next
    case (chain actor p)
    have "0 < ob_attempts p" using chain(4) outbox_invD(3) [OF inv newest_weekD(1) [OF chain(1)]] by (auto simp: row_ok_def)
    then show ?thesis using appended [OF chain(5)] pending_all_sent [OF inv chain(1)] by (simp add: bs)
  qed
qed

interpretation week_queue: refinement hours_tr hours_inv "queue_do business staff" "\<lambda>s. pending_weeks business staff (db_outbox (hs_db s))"
proof (unfold_locales, goal_cases)
  case (1 s e t) then show ?case using hours.step_inv [OF _ hours_tr_step] by blast
next
  case (2 s e t)
  note inv = 2(1)
  have rows: "outbox_inv (db_outbox (hs_db s))" using inv by (simp add: hours_inv_def)
  from 2(2) show ?case
  proof (cases rule: hours_tr.cases)
    case (tr_answer r outcome env)
    then have "was_sent (db_outbox (hs_db s)) r" using inv by (simp add: hours_inv_def)
    with tr_answer show ?thesis using pending_finish_upload [OF rows] by simp
  next
    case tr_enqueue then show ?thesis using pending_enqueue [OF _ rows] by simp
  next
    case tr_discard then show ?thesis using pending_discard by simp
  next
    case tr_discard_queue then show ?thesis using pending_discard_queue by simp
  next
    case tr_claim then show ?thesis using pending_claim [OF rows] by simp
  qed (simp_all add: pending_claim_none [OF rows] pending_probe)
qed




section \<open>The queue drains\<close>

text \<open>One pass of the uploader (\<open>uploadHoursOnce\<close>) with what the clock, the probe and the server answer.\<close>

record upload_pass =
  up_now :: int
  up_probe :: "int option"
  up_env :: answer_env
  up_answer :: upload_outcome

definition upload_once :: "upload_pass \<Rightarrow> replica_db \<Rightarrow> replica_db \<times> bool" where
  "upload_once p db0 =
    (let (db1, gone) = probe_begin (up_now p) db0;
         db2 = (case gone of Some u \<Rightarrow> probe_end u (up_probe p) db1 | None \<Rightarrow> db1)
     in case claim_next (up_now p) db2 of
          (db, None) \<Rightarrow> (db, False)
        | (db, Some r) \<Rightarrow> (finish_upload (up_env p) r (up_answer p) db, True))"

definition takes_week :: "upload_outcome \<Rightarrow> bool" where
  "takes_week out \<longleftrightarrow> (case out of Answered r \<Rightarrow> response_ok r \<and> week_result (rs_body r) \<noteq> None | Broke \<Rightarrow> False)"

text \<open>Every waiting week may go out by now: none was refused, none waits out a backoff or a lease.\<close>

definition all_due :: "int \<Rightarrow> outbox_row list \<Rightarrow> bool" where
  "all_due now rows \<longleftrightarrow> list_all (\<lambda>(b, s, w, st, due). st \<noteq> Rejected \<and> due \<le> of_int now) (waiting_views rows)"

lemma all_dueD: "all_due now rows \<Longrightarrow> r \<in> set rows \<Longrightarrow> waiting r \<Longrightarrow> ob_state r \<noteq> Rejected \<and> ob_retry_at r \<le> of_int now"
  by (auto simp: all_due_def waiting_views_def row_view_def list_all_iff)

lemma waiting_views_update:
  assumes "\<And>r. r \<in> set rows \<Longrightarrow> P r \<Longrightarrow> \<not> waiting r \<and> \<not> waiting (f r) \<or> row_view (f r) = row_view r \<and> waiting (f r) = waiting r"
  shows "waiting_views (update_rows P f rows) = waiting_views rows"
  using assms by (induction rows) (auto simp: waiting_views_def update_rows_def)

lemma waiting_views_delete:
  "(\<And>r. r \<in> set rows \<Longrightarrow> D r \<Longrightarrow> \<not> waiting r) \<Longrightarrow> waiting_views (delete_rows D rows) = waiting_views rows"
  by (induction rows) (auto simp: waiting_views_def delete_rows_def)

lemma waiting_views_probe:
  assumes inv: "outbox_inv (db_outbox db)" and probe: "probe_begin now db = (db1, gone)"
  shows "waiting_views (db_outbox (case gone of Some u \<Rightarrow> probe_end u status db1 | None \<Rightarrow> db1)) = waiting_views (db_outbox db)"
    (is ?views)
    and "outbox_inv (db_outbox (case gone of Some u \<Rightarrow> probe_end u status db1 | None \<Rightarrow> db1))" (is ?inv)
proof -
  have inv1: "outbox_inv (db_outbox db1)" using outbox_inv_probe_begin [OF inv, of now] probe by simp
  have "?views \<and> ?inv"
  proof (cases gone)
    case None
    then have "db1 = db" using probe by (auto simp: probe_begin_def split: option.splits)
    with None inv show ?thesis by simp
  next
    case (Some u)
    note u = probe_begin_Some [OF probe [unfolded Some]]
    have accepted: "was_accepted (db_outbox db) u"
      using outbox_id_inj [OF inv _ u(1)] u(2) by (auto simp: was_accepted_def unseen_def)
    have carried: "carried (db_outbox db) (db_outbox db1)" using carried_probe_begin [of db now] probe by simp
    have "waiting_views (db_outbox db1) = waiting_views (db_outbox db)"
      unfolding u(3) using accepted by (intro waiting_views_update) (auto simp: was_accepted_def waiting_def)
    moreover have "waiting_views (delete_rows (\<lambda>r. ob_id r = ob_id u \<and> ob_state r = Accepted) rows) = waiting_views rows" for rows
      by (rule waiting_views_delete) (simp add: waiting_def)
    moreover have "waiting_views (unlink_children i rows) = waiting_views rows" for i rows
      unfolding unlink_children_def by (rule waiting_views_update) (simp add: waiting_def row_view_def pending_of_def)
    ultimately have "waiting_views (db_outbox (probe_end u status db1)) = waiting_views (db_outbox db)"
      by (simp add: probe_end_def)
    moreover have "outbox_inv (db_outbox (probe_end u status db1))"
      using inv1 was_accepted_carried [OF accepted carried] by (rule outbox_inv_probe_end)
    ultimately show ?thesis by (simp add: Some)
  qed
  then show ?views ?inv by simp_all
qed

text \<open>The oldest waiting week of all has nothing before it but accepted weeks.\<close>

lemma due_week_sendable:
  assumes inv: "outbox_inv rows" and due: "all_due now rows" and r: "r \<in> set rows" "waiting r" and "now \<le> now'"
  shows "\<exists>q\<in>set rows. sendable now' rows q"
proof -
  obtain q where "q \<in> set (filter waiting rows)" and least: "\<And>x. x \<in> set (filter waiting rows) \<Longrightarrow> ob_sequence q \<le> ob_sequence x"
    using r ex_min_if_finite [of "ob_sequence ` set (filter waiting rows)"] by (auto simp: not_less)
  then have q: "q \<in> set rows" "waiting q" by simp_all
  have state: "ob_state q \<in> {Queued, Sending}" "ob_retry_at q \<le> of_int now'"
    using all_dueD [OF due q] q(2) assms(5) by (cases "ob_state q"; simp add: waiting_def; linarith)+
  have "\<exists>p\<in>set rows. ob_predecessor q = Some (ob_id p) \<and> ob_state p = Accepted" if linked: "ob_predecessor q \<noteq> None"
  proof -
    obtain p where p: "p \<in> set rows" "ob_predecessor q = Some (ob_id p)" "ob_sequence p < ob_sequence q"
      using outbox_invD(4) [OF inv q(1)] linked by (auto simp: link_ok_def)
    then have "\<not> waiting p" using least [of p] by force
    with p show ?thesis by (auto simp: waiting_def)
  qed
  with state q(1) show ?thesis by (auto simp: sendable_def)
qed

lemma upload_once_takes:
  assumes inv: "outbox_inv (db_outbox db)" and due: "all_due now (db_outbox db)" and "now \<le> up_now p" "takes_week (up_answer p)"
  defines "rows \<equiv> db_outbox (fst (upload_once p db))"
  shows "outbox_inv rows \<and> all_due now rows
    \<and> length (waiting_views rows) = length (waiting_views (db_outbox db)) - 1"
proof -
  obtain db1 gone where probe: "probe_begin (up_now p) db = (db1, gone)" by fastforce
  define db2 where "db2 = (case gone of Some u \<Rightarrow> probe_end u (up_probe p) db1 | None \<Rightarrow> db1)"
  define old where "old = db_outbox (settle_all (up_now p) db2)"
  have inv2: "outbox_inv (db_outbox db2)" and views2: "waiting_views (db_outbox db2) = waiting_views (db_outbox db)"
    unfolding db2_def using waiting_views_probe [OF inv probe] by simp_all
  have inv3: "outbox_inv old" and views: "waiting_views old = waiting_views (db_outbox db)"
    unfolding old_def using outbox_inv_settle_all [OF inv2] waiting_views_settle_all [OF inv2] views2 by simp_all
  have due3: "all_due now old" using due views by (simp add: all_due_def)
  have once: "upload_once p db = (case claim_next (up_now p) db2 of (d, None) \<Rightarrow> (d, False)
      | (d, Some r) \<Rightarrow> (finish_upload (up_env p) r (up_answer p) d, True))"
    by (simp add: upload_once_def probe db2_def)
  obtain d out where claim: "claim_next (up_now p) db2 = (d, out)" by fastforce
  show ?thesis
  proof (cases out)
    case None
    then have "first_by_sequence (filter (sendable (up_now p) old) old) = None" "d = settle_all (up_now p) db2"
      using claim by (auto simp: claim_next_def old_def Let_def split: option.splits)
    then have "\<not> sendable (up_now p) old q" if "q \<in> set old" for q
      using that by (simp add: first_by_sequence_None filter_empty_conv)
    then have "waiting_views old = []"
      using due_week_sendable [OF inv3 due3 _ _ assms(3)] by (auto simp: waiting_views_def filter_empty_conv)
    moreover have "rows = old" by (simp add: rows_def once claim None old_def \<open>d = _\<close>)
    ultimately show ?thesis using inv3 due3 views by simp
  next
    case (Some r)
    obtain q where q: "q \<in> set old" "sendable (up_now p) old q" "r = claimed_row (up_now p) old q"
      "db_outbox d = update_rows (\<lambda>x. ob_id x = ob_id q) (\<lambda>_. r) old"
      using claim [unfolded Some] unfolding old_def by (rule claim_next_Some)
    obtain res revision stranded where res: "up_answer p = Answered res" "response_ok res" "week_result (rs_body res) = Some (revision, stranded)"
      using assms(4) by (auto simp: takes_week_def split: upload_outcome.splits)
    let ?f = "\<lambda>r. r\<lparr>ob_state := Accepted, ob_result := Some revision, ob_error := None\<rparr>"
    have r: "ob_id r = ob_id q" by (simp add: q(3) claimed_row_def)
    have rows: "rows = update_rows (\<lambda>x. ob_id x = ob_id q) ?f (db_outbox d)"
      by (simp add: rows_def once claim Some res(1) finish_upload_answers(3) [OF res(2,3)] accept_week_def Let_def r)
    obtain xs ys where old: "old = xs @ q # ys" using q(1) by (auto dest: split_list)
    have others: "ob_id x \<noteq> ob_id q" if "x \<in> set xs \<union> set ys" for x
      using distinct_key_others [OF outbox_invD(2) [OF inv3, unfolded old] that] .
    then have "db_outbox d = xs @ r # ys" unfolding q(4) old by (intro update_rows_one) auto
    then have new: "rows = xs @ ?f r # ys" unfolding rows using others r by (auto intro!: update_rows_one)
    have "waiting q" using q(2) by (auto simp: sendable_def waiting_def)
    then have left: "waiting_views rows = waiting_views xs @ waiting_views ys"
      "waiting_views old = waiting_views xs @ row_view q # waiting_views ys"
      by (simp_all add: new old waiting_views_def waiting_def)
    have "outbox_inv (db_outbox d)" using outbox_inv_claim_next [OF inv2, of "up_now p"] claim by simp
    moreover have "was_sent (db_outbox d) r"
      using others r unfolding \<open>db_outbox d = xs @ r # ys\<close> by (auto simp: was_sent_def q(3) claimed_row_def)
    ultimately have "outbox_inv rows"
      unfolding rows_def by (simp add: once claim Some outbox_inv_finish_upload)
    moreover have "all_due now rows" using due3 by (simp add: all_due_def left)
    moreover have "length (waiting_views rows) = length (waiting_views (db_outbox db)) - 1"
      by (simp add: views [symmetric] left)
    ultimately show ?thesis by blast
  qed
qed

lemma uploads_take_all:
  assumes "outbox_inv (db_outbox db)" "all_due now (db_outbox db)"
    "\<And>p. p \<in> set passes \<Longrightarrow> now \<le> up_now p \<and> takes_week (up_answer p)"
  shows "length (waiting_views (db_outbox (foldl (\<lambda>db p. fst (upload_once p db)) db passes)))
    = length (waiting_views (db_outbox db)) - length passes"
  using assms
proof (induction passes arbitrary: db)
  case (Cons p passes)
  then show ?case using upload_once_takes [of db now p] by simp
qed simp

text \<open>C9: The outbox empties once the server takes what it is sent. When no week was refused and none waits out a
  delay, as many passes of the uploader as there are weeks waiting leave none waiting, whoever they belong to and
  however they hang together, whatever the sync stream has observed and the probes answer meanwhile: the guards
  that hold a week back for its predecessor never block the queue for good.\<close>

theorem uploads_drain:
  assumes "reach hours_initial hours_step s" "all_due now (db_outbox (hs_db s))"
    "\<And>p. p \<in> set passes \<Longrightarrow> now \<le> up_now p \<and> takes_week (up_answer p)"
    "length (filter waiting (db_outbox (hs_db s))) \<le> length passes"
  shows "filter waiting (db_outbox (foldl (\<lambda>db p. fst (upload_once p db)) (hs_db s) passes)) = []"
proof -
  let ?db = "foldl (\<lambda>db p. fst (upload_once p db)) (hs_db s) passes"
  have "length (waiting_views (db_outbox ?db)) = 0"
    using uploads_take_all [OF reachable_outbox [OF assms(1)] assms(2,3)] assms(4) by (simp add: waiting_views_def)
  then show ?thesis by (simp add: waiting_views_def)
qed

definition demo_pass :: "int \<Rightarrow> upload_pass" where
  "demo_pass revision = \<lparr>up_now = 30000, up_probe = None, up_env = demo_answer,
     up_answer = Answered \<lparr>rs_status = 200, rs_retry_after = No_Header,
       rs_body = Some (J_Obj [(''revision'', J_Num (of_int revision)), (''stranded'', J_Arr [])])\<rparr>\<rparr>"

text \<open>Two chained weeks, the first of them claimed by a tab that died: its lease is over at thirty seconds.\<close>

theorem uploads_drain_witness:
  "filter waiting (db_outbox (foldl (\<lambda>db p. fst (upload_once p db)) (hs_db demo_chained_state) [demo_pass 5, demo_pass 6])) = []
    \<and> length (filter waiting (db_outbox (hs_db demo_chained_state))) = 2"
proof -
  have "all_due 30000 (db_outbox (hs_db demo_chained_state))"
    "length (filter waiting (db_outbox (hs_db demo_chained_state))) = 2" by code_simp+
  moreover have "30000 \<le> up_now p \<and> takes_week (up_answer p)" if "p \<in> set [demo_pass 5, demo_pass 6]" for p
  proof -
    have "takes_week (up_answer (demo_pass 5))" "takes_week (up_answer (demo_pass 6))" by code_simp+
    then show ?thesis using that by (auto simp: demo_pass_def)
  qed
  ultimately show ?thesis
    using uploads_drain [OF demo_reach(1), of 30000 "[demo_pass 5, demo_pass 6]"] by simp
qed

end
