(* ===== verification/Calendar.thy ===== *)
theory Calendar
  imports Prelude
begin

text \<open>
  The calendar arithmetic of JavaScript's \<open>Date\<close> (ECMA-262, "Time Values and Time Range"): the proleptic
  Gregorian calendar on integer days since 1970-01-01, \<open>Date.UTC\<close> with its roll-over of months, days,
  hours and minutes and its reading of the years 0 to 99, and the UTC fields of a time value. Time
  values are unbounded integers here; the standard's limit of 100,000,000 days around the epoch, where
  a date becomes invalid, is far outside any instant the program handles.
\<close>

section \<open>Years\<close>

definition leap :: "int \<Rightarrow> bool" where
  "leap y \<longleftrightarrow> 4 dvd y \<and> (\<not> 100 dvd y \<or> 400 dvd y)"

text \<open>Days from 0001-01-01 to the first of January of a year.\<close>

definition year_start :: "int \<Rightarrow> int" where
  "year_start y = 365 * (y - 1) + (y - 1) div 4 - (y - 1) div 100 + (y - 1) div 400"

definition year_length :: "int \<Rightarrow> int" where
  "year_length y = (if leap y then 366 else 365)"

lemma div_bracket:
  assumes "0 < (c::int)"
  shows "c * (a div c) \<le> a \<and> a < c * (a div c + 1)"
proof -
  have "a = c * (a div c) + a mod c" "0 \<le> a mod c" "a mod c < c" using assms by simp_all
  then show ?thesis by (simp only: distrib_left mult_1_right) linarith
qed

lemma div_step: "0 < (c::int) \<Longrightarrow> (k + 1) div c = k div c + (if c dvd k + 1 then 1 else 0)"
proof (cases "c dvd k + 1")
  case True
  assume c: "0 < c"
  from True obtain j where j: "k + 1 = c * j" by (elim dvdE)
  then have "k = c * (j - 1) + (c - 1)" by (simp add: algebra_simps)
  then have "k div c = j - 1" using c by simp
  with j c show ?thesis using True by simp
next
  case False
  assume c: "0 < c"
  let ?q = "k div c" and ?r = "k mod c"
  have k: "k = c * ?q + ?r" "0 \<le> ?r" "?r < c" using c by simp_all
  have "?r \<noteq> c - 1"
  proof
    assume "?r = c - 1"
    with k(1) have "k + 1 = c * (?q + 1)" by (simp add: algebra_simps)
    with False show False by (metis dvd_triv_left)
  qed
  with k have "(k + 1) div c = ?q" by (intro int_div_pos_eq [of _ _ _ "?r + 1"]) auto
  with False show ?thesis by simp
qed

lemma year_start_Suc: "year_start (y + 1) = year_start y + year_length y"
proof -
  have d: "y div 4 = (y - 1) div 4 + (if 4 dvd y then 1 else 0)"
    "y div 100 = (y - 1) div 100 + (if 100 dvd y then 1 else 0)"
    "y div 400 = (y - 1) div 400 + (if 400 dvd y then 1 else 0)"
    using div_step [of _ "y - 1"] by simp_all
  have "year_start (y + 1) = 365 * y + y div 4 - y div 100 + y div 400"
    by (simp add: year_start_def)
  then have "year_start (y + 1) - year_start y = 365 + (if 4 dvd y then 1 else 0) - (if 100 dvd y then 1 else 0)
      + (if 400 dvd y then 1 else 0)"
    unfolding d by (simp add: year_start_def)
  moreover have "400 dvd y \<Longrightarrow> 100 dvd y" "100 dvd y \<Longrightarrow> 4 dvd y" by (erule dvd_trans [rotated], simp)+
  ultimately show ?thesis
    by (cases "4 dvd y"; cases "100 dvd y"; cases "400 dvd y") (simp_all add: year_length_def leap_def)
qed

lemma year_start_mono_strict: "y < z \<Longrightarrow> year_start y + year_length y \<le> year_start z"
proof (induction z rule: int_gr_induct)
  case base show ?case by (simp add: year_start_Suc)
next
  case (step i) then show ?case by (simp add: year_start_Suc year_length_def split: if_splits)
qed

text \<open>The year a day lies in: an estimate by the mean length of a year, late by at most one.\<close>

definition year_of_day :: "int \<Rightarrow> int" where
  "year_of_day n = (let y = (400 * n) div 146097 + 1 in if year_start (y + 1) \<le> n then y + 1 else y)"

lemma year_start_mean:
  "400 * year_start (k + 1) = 146097 * k - 100 * (k mod 4) + 4 * (k mod 100) - k mod 400"
proof -
  obtain a b c a' b' c' where abc: "a = k div 4" "b = k div 100" "c = k div 400"
    "a' = k mod 4" "b' = k mod 100" "c' = k mod 400" by blast
  then have "4 * a = k - a'" "100 * b = k - b'" "400 * c = k - c'"
    by (simp_all only: minus_mod_eq_mult_div)
  moreover have "year_start (k + 1) = 365 * k + a - b + c" by (simp add: year_start_def abc)
  ultimately show ?thesis unfolding abc [symmetric] by linarith
qed

lemma year_start_mean_bounds:
  "146097 * k - 699 \<le> 400 * year_start (k + 1) \<and> 400 * year_start (k + 1) \<le> 146097 * k + 396"
proof -
  obtain a b c where abc: "a = k mod 4" "b = k mod 100" "c = k mod 400" by blast
  then have "0 \<le> a" "a < 4" "0 \<le> b" "b < 100" "0 \<le> c" "c < 400" by simp_all
  then show ?thesis unfolding year_start_mean abc [symmetric] by linarith
qed

lemma year_of_day_bounds: "year_start (year_of_day n) \<le> n \<and> n < year_start (year_of_day n + 1)"
proof -
  obtain k where k: "k = (400 * n) div 146097" by blast
  have est: "146097 * k \<le> 400 * n" "400 * n < 146097 * (k + 1)"
    using div_bracket [of 146097 "400 * n"] unfolding k by simp_all
  have lo: "year_start (k + 1) \<le> n"
    using est(1) year_start_mean_bounds [of k] by linarith
  have "n \<le> year_start (k + 1 + 1) + 1"
    using est(2) year_start_mean_bounds [of "k + 1"] by linarith
  moreover have "year_start (k + 1 + 1) + 365 \<le> year_start (k + 1 + 1 + 1)"
    unfolding year_start_Suc [of "k + 1 + 1"] by (simp add: year_length_def)
  ultimately have "n < year_start (k + 1 + 1 + 1)" by linarith
  with lo show ?thesis by (simp add: year_of_day_def Let_def k [symmetric])
qed

lemma year_of_day_unique:
  assumes "year_start y \<le> n" "n < year_start (y + 1)"
  shows "year_of_day n = y"
proof (rule ccontr)
  assume "year_of_day n \<noteq> y"
  then consider "year_of_day n < y" | "y < year_of_day n" by linarith
  then show False
  proof cases
    case 1 with year_start_mono_strict [OF 1] year_of_day_bounds [of n] assms show False
      by (simp add: year_start_Suc)
  next
    case 2 with year_start_mono_strict [OF 2] year_of_day_bounds [of n] assms show False
      by (simp add: year_start_Suc)
  qed
qed

section \<open>Months\<close>

text \<open>Months count from 1 here; \<open>month_start l m\<close> is the day of the year its first day is, from 0.\<close>

definition month_starts :: "bool \<Rightarrow> int list" where
  "month_starts l = (if l then [0, 31, 60, 91, 121, 152, 182, 213, 244, 274, 305, 335, 366]
                     else [0, 31, 59, 90, 120, 151, 181, 212, 243, 273, 304, 334, 365])"

definition month_start :: "bool \<Rightarrow> int \<Rightarrow> int" where
  "month_start l m = month_starts l ! nat (m - 1)"

definition month_length :: "int \<Rightarrow> int \<Rightarrow> int" where
  "month_length y m = month_start (leap y) (m + 1) - month_start (leap y) m"

definition month_of :: "bool \<Rightarrow> int \<Rightarrow> int" where
  "month_of l doy = int (length (filter (\<lambda>s. s \<le> doy) (tl (month_starts l)))) + 1"

lemma month_cases:
  assumes "1 \<le> m" "m \<le> (12 :: int)"
  obtains "m = 1" | "m = 2" | "m = 3" | "m = 4" | "m = 5" | "m = 6" | "m = 7" | "m = 8" | "m = 9"
    | "m = 10" | "m = 11" | "m = 12"
proof -
  have "m \<in> set [1..12]" using assms by simp
  also have "[1..12 :: int] = [1, 2, 3, 4, 5, 6, 7, 8, 9, 10, 11, 12]" by code_simp
  finally show thesis using that by auto
qed

lemma sorted_scan:
  assumes "sorted xs" "a \<le> d" "\<exists>x\<in>set xs. d < x"
  shows "length (filter (\<lambda>s. s \<le> d) xs) < length xs \<and> (a # xs) ! length (filter (\<lambda>s. s \<le> d) xs) \<le> d
    \<and> d < xs ! length (filter (\<lambda>s. s \<le> (d::int)) xs)"
  using assms
proof (induction xs arbitrary: a)
  case (Cons x xs)
  show ?case
  proof (cases "x \<le> d")
    case True with Cons.prems Cons.IH [of x] show ?thesis by auto
  next
    case False
    then have "filter (\<lambda>s. s \<le> d) xs = []" using Cons.prems(1) by (auto simp: filter_empty_conv)
    with False Cons.prems show ?thesis by simp
  qed
qed simp

lemma month_of_bounds:
  assumes "0 \<le> doy" "doy < (if l then 366 else 365)"
  shows "1 \<le> month_of l doy \<and> month_of l doy \<le> 12
    \<and> month_start l (month_of l doy) \<le> doy \<and> doy < month_start l (month_of l doy + 1)"
proof -
  let ?k = "length (filter (\<lambda>s. s \<le> doy) (tl (month_starts l)))"
  have starts: "month_starts l = 0 # tl (month_starts l)" "length (tl (month_starts l)) = 12"
    "sorted (tl (month_starts l))" "last (tl (month_starts l)) = (if l then 366 else 365)"
    by (cases l; simp add: month_starts_def)+
  have "\<exists>x\<in>set (tl (month_starts l)). doy < x"
    using assms(2) by (cases l) (simp_all add: month_starts_def)
  from sorted_scan [OF starts(3) assms(1) this]
  have scan: "?k < 12" "month_starts l ! ?k \<le> doy" "doy < tl (month_starts l) ! ?k"
    unfolding starts(1) [symmetric] starts(2) by blast+
  moreover have "tl (month_starts l) ! ?k = month_starts l ! Suc ?k"
    by (rule nth_tl) (simp only: starts(2) scan(1))
  ultimately show ?thesis by (simp add: month_of_def month_start_def nat_add_distrib)
qed

lemma month_of_unique:
  assumes "1 \<le> m" "m \<le> 12" "month_start l m \<le> doy" "doy < month_start l (m + 1)"
  shows "month_of l doy = m"
  using assms(1,2)
  by (rule month_cases; cases l) (use assms(3,4) in \<open>auto simp: month_of_def month_starts_def month_start_def\<close>)

lemma month_length_bounds: "1 \<le> m \<Longrightarrow> m \<le> 12 \<Longrightarrow> 28 \<le> month_length y m \<and> month_length y m \<le> 31"
  by (erule (1) month_cases; cases "leap y") (simp_all add: month_length_def month_start_def month_starts_def)

lemma month_in_year:
  "1 \<le> m \<Longrightarrow> m \<le> 12 \<Longrightarrow> 0 \<le> month_start (leap y) m \<and> month_start (leap y) (m + 1) \<le> year_length y"
  by (erule (1) month_cases; cases "leap y") (simp_all add: year_length_def month_start_def month_starts_def)

section \<open>Days and civil dates\<close>

definition epoch_day :: int where "epoch_day = 719162"

lemma epoch_day_year_start: "epoch_day = year_start 1970"
  by (simp add: epoch_day_def year_start_def)

text \<open>The number of the day \<open>y-m-d\<close> from 1970-01-01 (\<open>MakeDay\<close>): months roll over into years, days run on.\<close>

definition make_day :: "int \<Rightarrow> int \<Rightarrow> int \<Rightarrow> int" where
  "make_day y m d = (let y' = y + (m - 1) div 12; m' = (m - 1) mod 12 + 1
     in year_start y' + month_start (leap y') m' + (d - 1) - epoch_day)"

definition civil :: "int \<Rightarrow> int \<times> int \<times> int" where
  "civil n = (let y = year_of_day (n + epoch_day); doy = n + epoch_day - year_start y; m = month_of (leap y) doy
     in (y, m, doy - month_start (leap y) m + 1))"

definition valid_date :: "int \<Rightarrow> int \<Rightarrow> int \<Rightarrow> bool" where
  "valid_date y m d \<longleftrightarrow> 1 \<le> m \<and> m \<le> 12 \<and> 1 \<le> d \<and> d \<le> month_length y m"

lemma make_day_in_year:
  "1 \<le> m \<Longrightarrow> m \<le> 12 \<Longrightarrow> make_day y m d = year_start y + month_start (leap y) m + (d - 1) - epoch_day"
  by (simp add: make_day_def)

lemma civil_correct:
  assumes "civil n = (y, m, d)"
  shows "valid_date y m d" "make_day y m d = n"
proof -
  let ?n = "n + epoch_day"
  have y: "y = year_of_day ?n" and m: "m = month_of (leap y) (?n - year_start y)"
    and d: "d = ?n - year_start y - month_start (leap y) m + 1"
    using assms by (auto simp: civil_def Let_def)
  have "0 \<le> ?n - year_start y \<and> ?n - year_start y < (if leap y then 366 else 365)"
    using year_of_day_bounds [of ?n] unfolding y [symmetric] by (simp add: year_start_Suc year_length_def)
  from month_of_bounds [OF this [THEN conjunct1] this [THEN conjunct2]]
  have b: "1 \<le> m" "m \<le> 12" "month_start (leap y) m \<le> ?n - year_start y" "?n - year_start y < month_start (leap y) (m + 1)"
    by (simp_all add: m)
  show "valid_date y m d" unfolding valid_date_def month_length_def using b d by simp
  show "make_day y m d = n" using b(1,2) d by (simp add: make_day_in_year)
qed

lemma civil_make_day:
  assumes "valid_date y m d"
  shows "civil (make_day y m d) = (y, m, d)"
proof -
  have v: "1 \<le> m" "m \<le> 12" "1 \<le> d" "d \<le> month_start (leap y) (m + 1) - month_start (leap y) m"
    using assms by (simp_all add: valid_date_def month_length_def)
  let ?doy = "month_start (leap y) m + (d - 1)"
  have n: "make_day y m d + epoch_day = year_start y + ?doy"
    using v(1,2) by (simp add: make_day_in_year)
  have doy: "0 \<le> ?doy" "?doy < year_length y" "month_start (leap y) m \<le> ?doy" "?doy < month_start (leap y) (m + 1)"
    using month_in_year [OF v(1,2), of y] v(3,4) by auto
  have "year_of_day (make_day y m d + epoch_day) = y"
    unfolding n using doy(1,2) by (intro year_of_day_unique) (simp_all add: year_start_Suc)
  moreover have "month_of (leap y) ?doy = m" using v(1,2) doy(3,4) by (rule month_of_unique)
  ultimately show ?thesis by (simp add: civil_def Let_def n)
qed

lemma make_day_add: "make_day y m (d + n) = make_day y m d + n"
  by (simp add: make_day_def Let_def)

lemma make_day_inj:
  "valid_date y m d \<Longrightarrow> valid_date y' m' d' \<Longrightarrow> make_day y m d = make_day y' m' d' \<longleftrightarrow> y = y' \<and> m = m' \<and> d = d'"
  using civil_make_day [of y m d] civil_make_day [of y' m' d'] by (metis Pair_inject)

text \<open>The weekday of a day, 0 being Sunday (1970-01-01 was a Thursday).\<close>

definition weekday_of :: "int \<Rightarrow> int" where
  "weekday_of n = (n + 4) mod 7"

section \<open>Time values\<close>

definition ms_per_min :: int where "ms_per_min = 60000"
definition ms_per_day :: int where "ms_per_day = 86400000"

text \<open>\<open>Date.UTC(y, m - 1, d, h, mi)\<close>: a year from 0 to 99 is read as one of the twentieth century.\<close>

definition full_year :: "int \<Rightarrow> int" where
  "full_year y = (if 0 \<le> y \<and> y \<le> 99 then 1900 + y else y)"

definition date_utc :: "int \<Rightarrow> int \<Rightarrow> int \<Rightarrow> int \<Rightarrow> int \<Rightarrow> int" where
  "date_utc y m d h mi = make_day (full_year y) m d * ms_per_day + h * 3600000 + mi * ms_per_min"

definition day_of :: "int \<Rightarrow> int" where "day_of t = t div ms_per_day"

definition utc_hours :: "int \<Rightarrow> int" where "utc_hours t = t mod ms_per_day div 3600000"

definition utc_minutes :: "int \<Rightarrow> int" where "utc_minutes t = t mod 3600000 div ms_per_min"

lemma day_of_date_utc:
  assumes "0 \<le> h * 60 + mi" "h * 60 + mi < 1440"
  shows "day_of (date_utc y m d h mi) = make_day (full_year y) m d"
  using assms unfolding day_of_def date_utc_def ms_per_day_def ms_per_min_def
  by (intro int_div_pos_eq [of _ _ _ "h * 3600000 + mi * 60000"]) auto

lemma date_utc_day_start: "date_utc y m d 0 0 = make_day (full_year y) m d * ms_per_day"
  by (simp add: date_utc_def)

end
