(* ===== verification/Datetime.thy ===== *)
theory Datetime
  imports Calendar
begin

text \<open>
  Wall clocks in a business's zone (\<open>packages/app-core/src/datetime.ts\<close>). A zone is a list of
  \<open>(UTC second, minutes)\<close> rules from the server's table; instants are milliseconds. Every function that
  the code gives a \<open>zone\<close> takes the offsets in force, \<open>off zone time\<close>, as its first argument: the code's
  own \<open>offset_at\<close> is one such function, over a table and the device's \<open>Intl\<close> clock. The memo tables of
  the file only repeat these results (their entries are functions of their keys) and are not modelled,
  nor is the wording of dates by \<open>Intl\<close>, which is a parameter where a result carries it.
\<close>

section \<open>Strings of digits\<close>

definition pad2 :: "int \<Rightarrow> string" where
  "pad2 n = (let s = int_string n in if length s < 2 then replicate (2 - length s) (CHR ''0'') @ s else s)"

definition is_digit :: "char \<Rightarrow> bool" where
  "is_digit c \<longleftrightarrow> 48 \<le> (of_char c :: nat) \<and> (of_char c :: nat) \<le> 57"

definition digit_value :: "char \<Rightarrow> int" where
  "digit_value c = int (of_char c) - 48"

definition decimal :: "string \<Rightarrow> int" where
  "decimal s = foldl (\<lambda>n c. 10 * n + digit_value c) 0 s"

text \<open>\<open>Number(s)\<close> of a numeral: the empty text is 0; \<open>None\<close> stands for \<open>NaN\<close>. (Other spellings that
  \<open>Number\<close> accepts, signs, exponents and fractions, do not occur in the clocks and versions read here.)\<close>

definition js_number :: "string \<Rightarrow> int option" where
  "js_number s = (if \<forall>c\<in>set s. is_digit c then Some (decimal s) else None)"

fun split_on :: "char \<Rightarrow> string \<Rightarrow> string list" where
  "split_on c [] = [[]]"
| "split_on c (x # xs) = (if x = c then [] # split_on c xs
     else case split_on c xs of w # ws \<Rightarrow> (x # w) # ws | [] \<Rightarrow> [[x]])"

text \<open>\<open>const [a = x, \<dots>] = parts.map(Number)\<close>: the \<open>i\<close>th number, with a default for a missing part.\<close>

definition part :: "string list \<Rightarrow> nat \<Rightarrow> int \<Rightarrow> int option" where
  "part ps i x = (if i < length ps then js_number (ps ! i) else Some x)"

section \<open>The zone table\<close>

type_synonym zone_rules = "(int \<times> int) list"

record zone_table =
  zt_version :: string
  zt_zones :: "(string \<times> zone_rules) list"

definition number_differs :: "int option \<Rightarrow> int option \<Rightarrow> bool" where
  "number_differs a b \<longleftrightarrow> a = None \<or> b = None \<or> a \<noteq> b"

definition number_greater :: "int option \<Rightarrow> int option \<Rightarrow> bool" where
  "number_greater a b = (case (a, b) of (Some x, Some y) \<Rightarrow> x > y | _ \<Rightarrow> False)"

definition newer :: "string \<Rightarrow> string \<Rightarrow> bool" where
  "newer a b =
    (let as = split_on (CHR ''.'') a; bs = split_on (CHR ''.'') b;
         ay = part as 0 0; ar = part as 1 0; by' = part bs 0 0; br = part bs 1 0
     in if number_differs ay by' then number_greater ay by' else number_greater ar br)"

text \<open>The table in force after the server sent one, and whether it was taken.\<close>

definition adopt_zone_table :: "zone_table \<Rightarrow> zone_table \<Rightarrow> zone_table \<times> bool" where
  "adopt_zone_table current table =
    (if newer (zt_version table) (zt_version current) then (table, True) else (current, False))"

text \<open>The binary search for the last rule that starts at or before a second.\<close>

function rule_search :: "zone_rules \<Rightarrow> int \<Rightarrow> nat \<Rightarrow> nat \<Rightarrow> nat" where
  "rule_search rules second lo hi =
    (if lo < hi then
       let mid = (lo + hi + 1) div 2
       in if (if mid < length rules then fst (rules ! mid) else 0) \<le> second
          then rule_search rules second mid hi else rule_search rules second lo (mid - 1)
     else lo)"
  by pat_completeness auto

termination by (relation "measure (\<lambda>(rules, second, lo, hi). hi - lo)") auto

declare rule_search.simps [simp del]

definition rules_offset :: "zone_rules \<Rightarrow> int \<Rightarrow> int" where
  "rules_offset rules time =
    (let lo = rule_search rules (time div 1000) 0 (length rules - 1)
     in (if lo < length rules then snd (rules ! lo) else 0) * ms_per_min)"

text \<open>The device's \<open>Intl\<close> clock: the fields a zone shows at an instant, asked once a quarter hour.\<close>

type_synonym device_clock = "string \<Rightarrow> int \<Rightarrow> int \<times> int \<times> int \<times> int \<times> int"

definition ms_per_quarter :: int where "ms_per_quarter = 15 * ms_per_min"

definition device_offset_at :: "device_clock \<Rightarrow> int \<Rightarrow> string \<Rightarrow> int" where
  "device_offset_at dev time zone =
    (let start = time div ms_per_quarter * ms_per_quarter; (y, m, d, h, mi) = dev zone start
     in date_utc y m d (js_rem h 24) mi - start)"

definition calendar_zone :: string where "calendar_zone = ''UTC''"

definition offset_at :: "zone_table \<Rightarrow> device_clock \<Rightarrow> string \<Rightarrow> int \<Rightarrow> int" where
  "offset_at table dev zone time =
    (if zone = calendar_zone then 0
     else case map_of (zt_zones table) zone of
       None \<Rightarrow> device_offset_at dev time zone
     | Some rules \<Rightarrow> rules_offset rules time)"

section \<open>Wall clocks\<close>

type_synonym offsets = "string \<Rightarrow> int \<Rightarrow> int"

record wall =
  wl_year :: int
  wl_month :: int
  wl_day :: int
  wl_hour :: int
  wl_minute :: int
  wl_weekday :: int

definition wall_time :: "offsets \<Rightarrow> int \<Rightarrow> string \<Rightarrow> wall" where
  "wall_time off d zone =
    (let local = d + off zone d; (y, m, dd) = civil (day_of local)
     in \<lparr>wl_year = y, wl_month = m, wl_day = dd, wl_hour = utc_hours local, wl_minute = utc_minutes local,
         wl_weekday = weekday_of (day_of local)\<rparr>)"

definition zoned_date :: "offsets \<Rightarrow> int \<Rightarrow> int \<Rightarrow> int \<Rightarrow> int \<Rightarrow> int \<Rightarrow> string \<Rightarrow> int" where
  "zoned_date off y m d h mi zone =
    (let local = date_utc y m d h mi; first = local - off zone local in local - off zone first)"

definition start_of_day :: "offsets \<Rightarrow> int \<Rightarrow> string \<Rightarrow> int" where
  "start_of_day off d zone =
    (let w = wall_time off d zone in zoned_date off (wl_year w) (wl_month w) (wl_day w) 0 0 zone)"

definition add_days :: "offsets \<Rightarrow> int \<Rightarrow> int \<Rightarrow> string \<Rightarrow> int" where
  "add_days off d n zone =
    (let w = wall_time off d zone in zoned_date off (wl_year w) (wl_month w) (wl_day w + n) 0 0 zone)"

text \<open>Both locales of the product start weeks on Monday.\<close>

definition first_weekday :: int where "first_weekday = 1"

definition start_of_week :: "offsets \<Rightarrow> int \<Rightarrow> string \<Rightarrow> int" where
  "start_of_week off d zone =
    (let diff = js_rem (wl_weekday (wall_time off d zone) - first_weekday + 7) 7 in add_days off d (- diff) zone)"

definition start_of_month :: "offsets \<Rightarrow> int \<Rightarrow> string \<Rightarrow> int" where
  "start_of_month off d zone = (let w = wall_time off d zone in zoned_date off (wl_year w) (wl_month w) 1 0 0 zone)"

definition date_key :: "offsets \<Rightarrow> int \<Rightarrow> string \<Rightarrow> string" where
  "date_key off d zone =
    (let w = wall_time off d zone in int_string (wl_year w) @ ''-'' @ pad2 (wl_month w) @ ''-'' @ pad2 (wl_day w))"

text \<open>\<open>toISOString().slice(0, 10)\<close>: a year outside 0 to 9999 is written with a sign and six digits.\<close>

definition pad_to :: "nat \<Rightarrow> string \<Rightarrow> string" where
  "pad_to n s = replicate (n - length s) (CHR ''0'') @ s"

definition day_key :: "int \<Rightarrow> int \<Rightarrow> int \<Rightarrow> string" where
  "day_key year month day =
    (let (y, m, d) = civil (day_of (date_utc year month day 0 0));
         iso_year = (if 0 \<le> y \<and> y \<le> 9999 then pad_to 4 (int_string y)
                     else (if y < 0 then ''-'' else ''+'') @ pad_to 6 (int_string \<bar>y\<bar>))
     in take 10 (iso_year @ ''-'' @ pad2 m @ ''-'' @ pad2 d))"

definition same_day :: "offsets \<Rightarrow> int \<Rightarrow> int \<Rightarrow> string \<Rightarrow> bool" where
  "same_day off a b zone \<longleftrightarrow> date_key off a zone = date_key off b zone"

definition year_of :: "offsets \<Rightarrow> int \<Rightarrow> string \<Rightarrow> int" where
  "year_of off d zone = wl_year (wall_time off d zone)"

definition clock_key :: "offsets \<Rightarrow> int \<Rightarrow> string \<Rightarrow> string" where
  "clock_key off d zone = (let w = wall_time off d zone in pad2 (wl_hour w) @ '':'' @ pad2 (wl_minute w))"

definition same_clock :: "offsets \<Rightarrow> string \<Rightarrow> string \<Rightarrow> int \<Rightarrow> bool" where
  "same_clock off a b t \<longleftrightarrow> a = b \<or> off a t = off b t"

definition day_number :: "string \<Rightarrow> int option" where
  "day_number key =
    (let ps = split_on (CHR ''-'') key
     in case (part ps 0 1970, part ps 1 1, part ps 2 1) of
          (Some y, Some m, Some d) \<Rightarrow> Some (make_day (full_year y) m d)
        | _ \<Rightarrow> None)"

definition days_until :: "offsets \<Rightarrow> int \<Rightarrow> string \<Rightarrow> int \<Rightarrow> int option" where
  "days_until off d zone now =
    (case (day_number (date_key off d zone), day_number (date_key off now zone)) of
       (Some a, Some b) \<Rightarrow> Some (a - b) | _ \<Rightarrow> None)"

text \<open>\<open>/^(\d{4})-(\d{2})-(\d{2})$/\<close>: the three numbers.\<close>

definition key_fields :: "string \<Rightarrow> (int \<times> int \<times> int) option" where
  "key_fields s =
    (if length s = 10 \<and> s ! 4 = CHR ''-'' \<and> s ! 7 = CHR ''-''
        \<and> (\<forall>c\<in>set (take 4 s @ take 2 (drop 5 s) @ drop 8 s). is_digit c)
     then Some (decimal (take 4 s), decimal (take 2 (drop 5 s)), decimal (drop 8 s)) else None)"

definition parse_date_key :: "offsets \<Rightarrow> string \<Rightarrow> string \<Rightarrow> int option" where
  "parse_date_key off key zone =
    (case key_fields key of
       None \<Rightarrow> None
     | Some (y, m, d) \<Rightarrow>
        (case civil (day_of (date_utc y m d 0 0)) of (cy, cm, cd) \<Rightarrow>
           if cm \<noteq> m \<or> cd \<noteq> d then None else Some (zoned_date off y m d 0 0 zone)))"

text \<open>\<open>const [h = 0, m = 0] = hhmm.split(":").map(Number)\<close>.\<close>

definition clock_fields :: "string \<Rightarrow> (int \<times> int) option" where
  "clock_fields hhmm =
    (let ps = split_on (CHR '':'') hhmm
     in case (part ps 0 0, part ps 1 0) of (Some h, Some m) \<Rightarrow> Some (h, m) | _ \<Rightarrow> None)"

definition combine_key_and_time :: "offsets \<Rightarrow> string \<Rightarrow> string \<Rightarrow> string \<Rightarrow> int option" where
  "combine_key_and_time off day hhmm zone =
    (let ps = split_on (CHR ''-'') day
     in case (clock_fields hhmm, part ps 0 1970, part ps 1 1, part ps 2 1) of
          (Some (h, m), Some y, Some mo, Some d) \<Rightarrow> Some (zoned_date off y mo d h m zone)
        | _ \<Rightarrow> None)"

definition combine_day_and_time :: "offsets \<Rightarrow> int \<Rightarrow> string \<Rightarrow> string \<Rightarrow> int option" where
  "combine_day_and_time off day hhmm zone =
    (case clock_fields hhmm of
       Some (h, m) \<Rightarrow> (let w = wall_time off day zone in Some (zoned_date off (wl_year w) (wl_month w) (wl_day w) h m zone))
     | None \<Rightarrow> None)"

definition minutes_into :: "offsets \<Rightarrow> int \<Rightarrow> int \<Rightarrow> string \<Rightarrow> int" where
  "minutes_into off d minutes zone =
    (let w = wall_time off d zone in zoned_date off (wl_year w) (wl_month w) (wl_day w) 0 minutes zone)"

text \<open>Day 0 of the month after is the last day of a month.\<close>

definition add_months :: "offsets \<Rightarrow> int \<Rightarrow> int \<Rightarrow> string \<Rightarrow> int" where
  "add_months off d n zone =
    (let w = wall_time off d zone;
         last = snd (snd (civil (day_of (date_utc (wl_year w) (wl_month w + n + 1) 0 0 0))))
     in zoned_date off (wl_year w) (wl_month w + n) (min (wl_day w) last) 0 0 zone)"

section \<open>The month grid\<close>

record calendar_day =
  cd_key :: string
  cd_day :: int
  cd_in_month :: bool
  cd_today :: bool
  cd_selected :: bool
  cd_disabled :: bool
  cd_label :: string

definition out_of_bounds :: "string \<Rightarrow> string option \<Rightarrow> string option \<Rightarrow> bool" where
  "out_of_bounds key mn mx \<longleftrightarrow>
    (case mn of None \<Rightarrow> False | Some a \<Rightarrow> a \<noteq> [] \<and> key < a) \<or> (case mx of None \<Rightarrow> False | Some b \<Rightarrow> b \<noteq> [] \<and> key > b)"

definition month_weeks ::
  "offsets \<Rightarrow> (int \<Rightarrow> string \<Rightarrow> string) \<Rightarrow> int \<Rightarrow> string \<Rightarrow> string option \<Rightarrow> string option \<Rightarrow> string \<Rightarrow> int \<Rightarrow> calendar_day list list" where
  "month_weeks off full_date month selected mn mx zone now =
    (let first = start_of_week off (start_of_month off month zone) zone;
         shown = wl_month (wall_time off month zone); today = date_key off now zone
     in map (\<lambda>w. map (\<lambda>i.
          let d = add_days off first (w * 7 + i) zone; key = date_key off d zone; fields = wall_time off d zone
          in \<lparr>cd_key = key, cd_day = wl_day fields, cd_in_month = (wl_month fields = shown), cd_today = (key = today),
              cd_selected = (key = selected), cd_disabled = out_of_bounds key mn mx, cd_label = full_date d zone\<rparr>)
          [0..6]) [0..5])"

definition week_order :: "int list" where
  "week_order = map (\<lambda>i. js_rem (first_weekday + i) 7) [0..6]"

section \<open>Clock choices\<close>

definition clock_text :: "int \<Rightarrow> string" where
  "clock_text minutes = pad2 (minutes div 60) @ '':'' @ pad2 (js_rem minutes 60)"

definition is_clock :: "string \<Rightarrow> bool" where
  "is_clock s \<longleftrightarrow> length s = 5 \<and> s ! 2 = CHR '':'' \<and> (\<forall>c\<in>set (take 2 s @ drop 3 s). is_digit c)"

definition minutes_of :: "string \<Rightarrow> int option" where
  "minutes_of hhmm = map_option (\<lambda>(h, m). h * 60 + m) (clock_fields hhmm)"

text \<open>\<open>for (let t = from; t <= to; t += Math.max(step, 1))\<close>.\<close>

function steps_between :: "int \<Rightarrow> int \<Rightarrow> int \<Rightarrow> int list" where
  "steps_between step from to = (if from \<le> to then from # steps_between step (from + max step 1) to else [])"
  by pat_completeness auto

termination by (relation "measure (\<lambda>(step, from, to). nat (to + 1 - from))") auto

declare steps_between.simps [simp del]

definition clock_options :: "(string \<Rightarrow> string) \<Rightarrow> int \<Rightarrow> string \<Rightarrow> string \<Rightarrow> string \<Rightarrow> (string \<times> string) list" where
  "clock_options format_clock step mn mx keep =
    (let keys = (case (minutes_of mn, minutes_of mx) of
           (Some from, Some to) \<Rightarrow> map clock_text (steps_between step from to) | _ \<Rightarrow> []);
         keys' = (if is_clock keep \<and> keep \<notin> set keys then sort (keys @ [keep]) else keys)
     in map (\<lambda>key. (key, format_clock key)) keys')"

section \<open>The rule in force\<close>

text \<open>\<open>rule_at rules t i\<close>: the \<open>i\<close>th rule governs the instant \<open>t\<close>; the first one reaches back forever.\<close>

definition rule_at :: "zone_rules \<Rightarrow> int \<Rightarrow> nat \<Rightarrow> bool" where
  "rule_at rules t i \<longleftrightarrow> i < length rules \<and> (i = 0 \<or> fst (rules ! i) * 1000 \<le> t)
    \<and> (Suc i < length rules \<longrightarrow> t < fst (rules ! Suc i) * 1000)"

lemma rule_search_bracket:
  assumes "sorted_wrt (<) (map fst rules)" "lo \<le> hi" "hi < length rules"
    "lo = 0 \<or> fst (rules ! lo) \<le> second" "Suc hi < length rules \<Longrightarrow> second < fst (rules ! Suc hi)"
  shows "rule_search rules second lo hi < length rules
    \<and> (rule_search rules second lo hi = 0 \<or> fst (rules ! rule_search rules second lo hi) \<le> second)
    \<and> (Suc (rule_search rules second lo hi) < length rules \<longrightarrow> second < fst (rules ! Suc (rule_search rules second lo hi)))"
  using assms
proof (induction rules second lo hi rule: rule_search.induct)
  case (1 rules second lo hi)
  show ?case
  proof (cases "lo < hi")
    case True
    let ?mid = "(lo + hi + 1) div 2"
    have mid: "lo < ?mid" "?mid \<le> hi" "?mid < length rules" using True 1(5) by auto
    show ?thesis
    proof (cases "fst (rules ! ?mid) \<le> second")
      case le: True
      have "rule_search rules second lo hi = rule_search rules second ?mid hi"
        using True mid le by (subst rule_search.simps) (simp add: Let_def)
      with 1(1) [OF True refl] mid le 1(3-7) show ?thesis by simp
    next
      case gt: False
      have "rule_search rules second lo hi = rule_search rules second lo (?mid - 1)"
        using True mid gt by (subst rule_search.simps) (simp add: Let_def)
      moreover have "Suc (?mid - 1) = ?mid" using mid(1) by simp
      ultimately show ?thesis using 1(2) [OF True refl] mid gt 1(3-7) by simp
    qed
  next
    case False
    with 1(4) have "lo = hi" by simp
    with False 1(4-7) show ?thesis by (simp add: rule_search.simps)
  qed
qed

lemma seconds_le: "s \<le> t div 1000 \<longleftrightarrow> s * 1000 \<le> (t :: int)"
  using div_bracket [of 1000 t] by linarith

lemma rules_offset_at:
  assumes "sorted_wrt (<) (map fst rules)" "rules \<noteq> []"
  obtains i where "rule_at rules t i" "rules_offset rules t = snd (rules ! i) * ms_per_min"
proof -
  let ?i = "rule_search rules (t div 1000) 0 (length rules - 1)"
  have "length rules - 1 < length rules" using assms(2) by simp
  from rule_search_bracket [OF assms(1) _ this, of 0 "t div 1000"]
  have "rule_at rules t ?i" by (auto simp: rule_at_def seconds_le [symmetric] not_le [symmetric])
  then show thesis using that by (auto simp: rules_offset_def rule_at_def)
qed

lemma rule_starts_mono:
  assumes "sorted_wrt (<) (map fst rules)" "i < j" "j < length rules"
  shows "fst (rules ! i) < fst (rules ! j)"
  using sorted_wrt_nth_less [OF assms(1), of i j] assms(2,3) by simp

lemma rule_at_mono:
  assumes "sorted_wrt (<) (map fst rules)" "rule_at rules t i" "rule_at rules u j" "t \<le> u"
  shows "i \<le> j"
proof (rule ccontr)
  assume "\<not> i \<le> j"
  then have "Suc j \<le> i" by simp
  then have "fst (rules ! Suc j) \<le> fst (rules ! i)"
    using rule_starts_mono [OF assms(1), of "Suc j" i] assms(2) by (cases "Suc j = i") (auto simp: rule_at_def)
  moreover have "u < fst (rules ! Suc j) * 1000" "fst (rules ! i) * 1000 \<le> t"
    using \<open>Suc j \<le> i\<close> assms(2,3) by (auto simp: rule_at_def)
  ultimately show False using assms(4) by simp
qed

lemma rule_at_unique:
  "sorted_wrt (<) (map fst rules) \<Longrightarrow> rule_at rules t i \<Longrightarrow> rule_at rules t j \<Longrightarrow> i = j"
  using rule_at_mono [of rules t i t j] rule_at_mono [of rules t j t i] by simp

lemma rules_offset_eq:
  "sorted_wrt (<) (map fst rules) \<Longrightarrow> rule_at rules t i \<Longrightarrow> rules_offset rules t = snd (rules ! i) * ms_per_min"
  using rules_offset_at [of rules t] rule_at_unique [of rules t] by (metis list.size(3) not_less0 rule_at_def)

section \<open>Zones without surprises\<close>

text \<open>
  What the tables of the supported zones satisfy: offsets under a day, rules more than two days apart,
  and no change that skips a midnight.
\<close>

definition keeps_midnight :: "int \<times> int \<Rightarrow> int \<times> int \<Rightarrow> bool" where
  "keeps_midnight before after = (let a = fst after + snd before * 60; b = fst after + snd after * 60
     in b \<le> a \<or> (a - 1) div 86400 = (b - 1) div 86400)"

fun steps_ok :: "zone_rules \<Rightarrow> bool" where
  "steps_ok (a # b # rules) \<longleftrightarrow> 172800 < fst b - fst a \<and> keeps_midnight a b \<and> steps_ok (b # rules)"
| "steps_ok _ \<longleftrightarrow> True"

definition rules_ok :: "zone_rules \<Rightarrow> bool" where
  "rules_ok rules \<longleftrightarrow> rules \<noteq> [] \<and> (\<forall>r\<in>set rules. \<bar>snd r\<bar> < 1440) \<and> steps_ok rules"

lemma steps_ok_nth:
  "steps_ok rules \<Longrightarrow> Suc i < length rules \<Longrightarrow>
    172800 < fst (rules ! Suc i) - fst (rules ! i) \<and> keeps_midnight (rules ! i) (rules ! Suc i)"
proof (induction rules arbitrary: i rule: steps_ok.induct)
  case (1 a b rules) then show ?case by (cases i) auto
qed auto

lemma steps_ok_sorted: "steps_ok rules \<Longrightarrow> sorted_wrt (<) (map fst rules)"
proof (induction rules rule: steps_ok.induct)
  case (1 a b rules)
  then have "sorted_wrt (<) (map fst (b # rules))" by simp
  with 1 show ?case by auto
qed auto

text \<open>The interface of zone clocks: what the calendar functions need of the offsets.\<close>

locale zone_clock =
  fixes off :: offsets and zones :: "string set"
  assumes small: "zone \<in> zones \<Longrightarrow> \<bar>off zone t\<bar> < ms_per_day"
    and one_change: "zone \<in> zones \<Longrightarrow> \<bar>a - b\<bar> \<le> 2 * ms_per_day \<Longrightarrow> \<bar>b - c\<bar> \<le> 2 * ms_per_day \<Longrightarrow>
      \<bar>a - c\<bar> \<le> 2 * ms_per_day \<Longrightarrow> off zone a = off zone b \<or> off zone b = off zone c \<or> off zone a = off zone c"

locale midnight_clock = zone_clock +
  assumes midnight: "zone \<in> zones \<Longrightarrow> \<exists>s. s + off zone s = n * ms_per_day"

lemma rules_two_values:
  assumes ok: "rules_ok rules" and "a \<le> b" "b \<le> c" "c - a \<le> 2 * ms_per_day"
  shows "rules_offset rules a = rules_offset rules b \<or> rules_offset rules b = rules_offset rules c"
proof -
  have so: "steps_ok rules" "rules \<noteq> []" using ok by (simp_all add: rules_ok_def)
  note srt = steps_ok_sorted [OF so(1)]
  obtain i j k where i: "rule_at rules a i" "rules_offset rules a = snd (rules ! i) * ms_per_min"
    and j: "rule_at rules b j" "rules_offset rules b = snd (rules ! j) * ms_per_min"
    and k: "rule_at rules c k" "rules_offset rules c = snd (rules ! k) * ms_per_min"
    using rules_offset_at [OF srt so(2)] by metis
  have le: "i \<le> j" "j \<le> k" using rule_at_mono [OF srt] i j k assms(2,3) by blast+
  show ?thesis
  proof (rule ccontr)
    assume "\<not> ?thesis"
    with i j k have "i \<noteq> j" "j \<noteq> k" by auto
    with le have lt: "i < j" "j < k" by simp_all
    have len: "k < length rules" using k(1) by (simp add: rule_at_def)
    have "a < fst (rules ! Suc i) * 1000" using i(1) lt len by (auto simp: rule_at_def)
    moreover have "fst (rules ! Suc i) \<le> fst (rules ! j)"
      using rule_starts_mono [OF srt, of "Suc i" j] lt len by (cases "Suc i = j") auto
    ultimately have lo: "a < fst (rules ! j) * 1000" by linarith
    have "fst (rules ! Suc j) \<le> fst (rules ! k)"
      using rule_starts_mono [OF srt, of "Suc j" k] lt len by (cases "Suc j = k") auto
    moreover have "172800 < fst (rules ! Suc j) - fst (rules ! j)" using steps_ok_nth [OF so(1)] lt len by simp
    moreover have "fst (rules ! k) * 1000 \<le> c" using k(1) lt by (auto simp: rule_at_def)
    ultimately show False using lo assms(4) by (simp add: ms_per_day_def)
  qed
qed

lemma ms_per_day_pos: "0 < ms_per_day"
  by (simp add: ms_per_day_def)

lemma rules_one_change:
  assumes ok: "rules_ok rules" and "\<bar>a - b\<bar> \<le> 2 * ms_per_day" "\<bar>b - c\<bar> \<le> 2 * ms_per_day" "\<bar>a - c\<bar> \<le> 2 * ms_per_day"
  shows "rules_offset rules a = rules_offset rules b \<or> rules_offset rules b = rules_offset rules c
    \<or> rules_offset rules a = rules_offset rules c"
proof -
  consider "a \<le> b" "b \<le> c" | "a \<le> c" "c \<le> b" | "b \<le> a" "a \<le> c" | "b \<le> c" "c \<le> a" | "c \<le> a" "a \<le> b" | "c \<le> b" "b \<le> a"
    by linarith
  then show ?thesis
    using rules_two_values [OF ok, of a b c] rules_two_values [OF ok, of a c b] rules_two_values [OF ok, of b a c]
      rules_two_values [OF ok, of b c a] rules_two_values [OF ok, of c a b] rules_two_values [OF ok, of c b a] assms(2-4)
    by cases (simp_all add: eq_commute, (metis)+)
qed

lemma rules_small:
  assumes "rules_ok rules" shows "\<bar>rules_offset rules t\<bar> < ms_per_day"
proof -
  have so: "steps_ok rules" "rules \<noteq> []" using assms by (simp_all add: rules_ok_def)
  obtain i where i: "rule_at rules t i" "rules_offset rules t = snd (rules ! i) * ms_per_min"
    using rules_offset_at [OF steps_ok_sorted [OF so(1)] so(2)] by metis
  then have "rules ! i \<in> set rules" by (simp add: rule_at_def)
  with assms have "\<bar>snd (rules ! i)\<bar> < 1440" by (simp add: rules_ok_def)
  then show ?thesis unfolding i(2) ms_per_min_def ms_per_day_def by linarith
qed

lemma same_quotient_no_multiple:
  fixes n :: int
  assumes "(a - 1) div d = (b - 1) div d" "0 < d" "a \<le> n * d" shows "b \<le> n * d"
proof (rule ccontr)
  assume "\<not> b \<le> n * d"
  let ?q = "(b - 1) div d"
  have "d * ?q \<le> a - 1" "b - 1 < d * (?q + 1)"
    using div_bracket [OF assms(2), of "a - 1"] div_bracket [OF assms(2), of "b - 1"] unfolding assms(1) by simp_all
  with assms(3) \<open>\<not> b \<le> n * d\<close> have "d * ?q < d * n" "d * n < d * (?q + 1)" by (simp_all add: mult.commute [of n d])
  then show False using assms(2) by (simp add: mult_less_cancel_left_pos)
qed

lemma rules_midnight:
  assumes ok: "rules_ok rules"
  shows "\<exists>s. s + rules_offset rules s = n * ms_per_day"
proof -
  have so: "steps_ok rules" "rules \<noteq> []" using ok by (simp_all add: rules_ok_def)
  note srt = steps_ok_sorted [OF so(1)]
  let ?L = "n * ms_per_day"
  let ?shows = "\<lambda>i. i = 0 \<or> fst (rules ! i) * 1000 + snd (rules ! i) * ms_per_min \<le> ?L"
  define i where "i = Max {i. i < length rules \<and> ?shows i}"
  have fin: "finite {i. i < length rules \<and> ?shows i}" by simp
  have ne: "0 \<in> {i. i < length rules \<and> ?shows i}" using so(2) by simp
  have i: "i < length rules" "?shows i" using Max_in [OF fin] ne unfolding i_def by blast+
  have above: "\<not> ?shows j" if "i < j" "j < length rules" for j
  proof
    assume "?shows j"
    with that have "j \<in> {i. i < length rules \<and> ?shows i}" by blast
    from Max_ge [OF fin this] that show False unfolding i_def by simp
  qed
  let ?s = "?L - snd (rules ! i) * ms_per_min"
  have "?s < fst (rules ! Suc i) * 1000" if len: "Suc i < length rules"
  proof -
    let ?T = "fst (rules ! Suc i)"
    have below: "?L < ?T * 1000 + snd (rules ! Suc i) * ms_per_min" using above [of "Suc i"] len by simp
    have keep: "keeps_midnight (rules ! i) (rules ! Suc i)" using steps_ok_nth [OF so(1) len] by simp
    show ?thesis
    proof (rule ccontr)
      assume "\<not> ?thesis"
      then have gap: "(?T + snd (rules ! i) * 60) * 1000 \<le> ?L" by (simp add: ms_per_min_def)
      have L: "?L = (n * 86400) * 1000" by (simp add: ms_per_day_def)
      from gap have a: "?T + snd (rules ! i) * 60 \<le> n * 86400" unfolding L by simp
      from below have b: "n * 86400 < ?T + snd (rules ! Suc i) * 60" unfolding L by (simp add: ms_per_min_def)
      with keep a show False
        using same_quotient_no_multiple [of "?T + snd (rules ! i) * 60" 86400 "?T + snd (rules ! Suc i) * 60" n]
        by (auto simp: keeps_midnight_def Let_def)
    qed
  qed
  with i have "rule_at rules ?s i" by (auto simp: rule_at_def)
  then have "?s + rules_offset rules ?s = ?L" using rules_offset_eq [OF srt] by simp
  then show ?thesis by blast
qed

text \<open>A table of such rules gives such clocks for its zones, and so does UTC.\<close>

definition table_ok :: "zone_table \<Rightarrow> bool" where
  "table_ok table \<longleftrightarrow> (\<forall>(zone, rules)\<in>set (zt_zones table). rules_ok rules) \<and> distinct (map fst (zt_zones table))"

definition table_zones :: "zone_table \<Rightarrow> string set" where
  "table_zones table = insert calendar_zone (fst ` set (zt_zones table))"

lemma offset_at_cases:
  assumes "table_ok table" "zone \<in> table_zones table"
  obtains "offset_at table dev zone = (\<lambda>_. 0)"
  | rules where "rules_ok rules" "offset_at table dev zone = rules_offset rules"
proof (cases "zone = calendar_zone")
  case True then show thesis using that(1) by (simp add: offset_at_def fun_eq_iff)
next
  case False
  then obtain rules where "(zone, rules) \<in> set (zt_zones table)" using assms(2) by (auto simp: table_zones_def)
  with assms(1) have "map_of (zt_zones table) zone = Some rules" "rules_ok rules"
    by (auto simp: table_ok_def)
  with False that(2) show thesis by (simp add: offset_at_def fun_eq_iff)
qed

lemma table_midnight_clock:
  assumes "table_ok table"
  shows "midnight_clock (offset_at table dev) (table_zones table)"
proof unfold_locales
  fix zone t assume "zone \<in> table_zones table"
  then show "\<bar>offset_at table dev zone t\<bar> < ms_per_day"
    by (rule offset_at_cases [OF assms, where dev = dev]) (simp_all add: rules_small ms_per_day_pos)
next
  fix zone a b c assume "zone \<in> table_zones table" and d: "\<bar>a - b\<bar> \<le> 2 * ms_per_day" "\<bar>b - c\<bar> \<le> 2 * ms_per_day" "\<bar>a - c\<bar> \<le> 2 * ms_per_day"
  then show "offset_at table dev zone a = offset_at table dev zone b \<or> offset_at table dev zone b = offset_at table dev zone c
      \<or> offset_at table dev zone a = offset_at table dev zone c"
    using rules_one_change [OF _ d] by (rule_tac offset_at_cases [OF assms, where dev = dev and zone = zone]) simp_all
next
  fix zone n assume "zone \<in> table_zones table"
  then show "\<exists>s. s + offset_at table dev zone s = n * ms_per_day"
    by (rule offset_at_cases [OF assms, where dev = dev]) (simp_all add: rules_midnight)
qed
section \<open>Reading back a wall clock\<close>

definition local_day :: "offsets \<Rightarrow> int \<Rightarrow> string \<Rightarrow> int" where
  "local_day off d zone = day_of (d + off zone d)"

text \<open>The years that \<open>Date.UTC\<close> does not read as years of the twentieth century.\<close>

definition plain_year :: "int \<Rightarrow> bool" where
  "plain_year y \<longleftrightarrow> y < 0 \<or> 99 < y"

lemma full_year_plain: "plain_year y \<Longrightarrow> full_year y = y"
  by (auto simp: plain_year_def full_year_def)

lemma wall_time_day:
  "civil (local_day off d zone) = (y, m, dd) \<Longrightarrow>
    wl_year (wall_time off d zone) = y \<and> wl_month (wall_time off d zone) = m \<and> wl_day (wall_time off d zone) = dd
    \<and> wl_weekday (wall_time off d zone) = weekday_of (local_day off d zone)"
  by (simp add: wall_time_def local_day_def Let_def)

lemma local_day_wall:
  "make_day (wl_year (wall_time off d zone)) (wl_month (wall_time off d zone)) (wl_day (wall_time off d zone)) = local_day off d zone"
  "valid_date (wl_year (wall_time off d zone)) (wl_month (wall_time off d zone)) (wl_day (wall_time off d zone))"
  by (cases "civil (local_day off d zone)"; simp add: wall_time_day civil_correct)+

lemma utc_fields_date_utc:
  assumes "0 \<le> h" "h < 24" "0 \<le> mi" "mi < 60"
  shows "day_of (date_utc y m d h mi) = make_day (full_year y) m d" "utc_hours (date_utc y m d h mi) = h"
    "utc_minutes (date_utc y m d h mi) = mi"
proof -
  let ?n = "make_day (full_year y) m d"
  show "day_of (date_utc y m d h mi) = ?n" using assms by (intro day_of_date_utc) auto
  have "date_utc y m d h mi mod ms_per_day = h * 3600000 + mi * 60000"
    using assms unfolding date_utc_def ms_per_day_def ms_per_min_def
    by (simp add: add.assoc)
  then have "utc_hours (date_utc y m d h mi) = (h * 3600000 + mi * 60000) div 3600000" by (simp add: utc_hours_def)
  also have "\<dots> = h" using assms by (intro int_div_pos_eq [of _ _ _ "mi * 60000"]) auto
  finally show "utc_hours (date_utc y m d h mi) = h" .
  have "date_utc y m d h mi = (?n * 24 + h) * 3600000 + mi * 60000"
    by (simp add: date_utc_def ms_per_day_def ms_per_min_def algebra_simps)
  also have "\<dots> mod 3600000 = mi * 60000" by (subst mod_mult_self3) (use assms in simp)
  finally show "utc_minutes (date_utc y m d h mi) = mi" by (simp add: utc_minutes_def ms_per_min_def)
qed

context zone_clock
begin

text \<open>Two corrections are enough: the code's guess shows a local time whenever some instant shows it.\<close>

lemma second_guess:
  assumes zone: "zone \<in> zones" and "s + off zone s = date_utc y m d h mi"
  shows "zoned_date off y m d h mi zone + off zone (zoned_date off y m d h mi zone) = date_utc y m d h mi"
proof -
  let ?local = "date_utc y m d h mi"
  let ?first = "?local - off zone ?local"
  have s: "s = ?local - off zone s" using assms(2) by simp
  have "\<bar>?local - ?first\<bar> \<le> 2 * ms_per_day" "\<bar>?first - s\<bar> \<le> 2 * ms_per_day" "\<bar>?local - s\<bar> \<le> 2 * ms_per_day"
    using small [OF zone, of ?local] small [OF zone, of s] s by linarith+
  from one_change [OF zone this] show ?thesis using s by (auto simp: zoned_date_def Let_def)
qed

lemma wall_time_zoned_date:
  assumes zone: "zone \<in> zones" and shown: "s + off zone s = date_utc y m d h mi"
    and valid: "valid_date y m d" "plain_year y" "0 \<le> h" "h < 24" "0 \<le> mi" "mi < 60"
  shows "wall_time off (zoned_date off y m d h mi zone) zone =
    \<lparr>wl_year = y, wl_month = m, wl_day = d, wl_hour = h, wl_minute = mi, wl_weekday = weekday_of (make_day y m d)\<rparr>"
proof -
  let ?t = "zoned_date off y m d h mi zone"
  have t: "?t + off zone ?t = date_utc y m d h mi" by (rule second_guess [OF zone shown])
  show ?thesis
    using valid by (simp add: wall_time_def t utc_fields_date_utc full_year_plain civil_make_day)
qed

end

context midnight_clock
begin

lemma zoned_midnight:
  assumes "zone \<in> zones" "plain_year y"
  shows "local_day off (zoned_date off y m d 0 0 zone) zone = make_day y m d"
    and "zoned_date off y m d 0 0 zone + off zone (zoned_date off y m d 0 0 zone) = make_day y m d * ms_per_day"
proof -
  obtain s where "s + off zone s = make_day y m d * ms_per_day" using midnight [OF assms(1)] by blast
  then have "s + off zone s = date_utc y m d 0 0" by (simp add: date_utc_day_start full_year_plain assms(2))
  from second_guess [OF assms(1) this]
  show z: "zoned_date off y m d 0 0 zone + off zone (zoned_date off y m d 0 0 zone) = make_day y m d * ms_per_day"
    by (simp add: date_utc_day_start full_year_plain assms(2))
  show "local_day off (zoned_date off y m d 0 0 zone) zone = make_day y m d"
    unfolding local_day_def z by (simp add: day_of_def ms_per_day_def)
qed

lemma add_days_day:
  assumes "zone \<in> zones" "plain_year (year_of off d zone)"
  shows "local_day off (add_days off d n zone) zone = local_day off d zone + n"
proof -
  let ?w = "wall_time off d zone"
  have "make_day (wl_year ?w) (wl_month ?w) (wl_day ?w + n) = local_day off d zone + n"
    by (simp add: make_day_add local_day_wall)
  then show ?thesis
    using zoned_midnight(1) [OF assms(1)] assms(2) by (simp add: add_days_def Let_def year_of_def)
qed

lemma add_days_midnight:
  assumes "zone \<in> zones" "plain_year (year_of off d zone)"
  shows "add_days off d n zone + off zone (add_days off d n zone) = (local_day off d zone + n) * ms_per_day"
proof -
  let ?w = "wall_time off d zone"
  have "make_day (wl_year ?w) (wl_month ?w) (wl_day ?w + n) = local_day off d zone + n"
    by (simp add: make_day_add local_day_wall)
  then show ?thesis
    using zoned_midnight(2) [OF assms(1)] assms(2) by (simp add: add_days_def Let_def year_of_def)
qed

lemma start_of_month_day:
  assumes "zone \<in> zones" "plain_year (year_of off d zone)"
  shows "local_day off (start_of_month off d zone) zone
    = make_day (wl_year (wall_time off d zone)) (wl_month (wall_time off d zone)) 1"
  using zoned_midnight(1) [OF assms(1)] assms(2) by (simp add: start_of_month_def Let_def year_of_def)

end

section \<open>Keys and numerals\<close>

lemma digit_char_facts: "n < 10 \<Longrightarrow> is_digit (digit_char n) \<and> digit_value (digit_char n) = int n"
  by (simp add: is_digit_def digit_value_def digit_char_def)

lemma decimal_snoc: "decimal (s @ [c]) = 10 * decimal s + digit_value c"
  by (simp add: decimal_def)

lemma dec_correct: "(\<forall>c\<in>set (dec n). is_digit c) \<and> decimal (dec n) = int n \<and> dec n \<noteq> []"
proof (induction n rule: dec.induct)
  case (1 n)
  show ?case
  proof (cases "n < 10")
    case True
    then have "dec n = [digit_char n]" by (subst dec.simps) simp
    then show ?thesis using digit_char_facts [OF True] by (simp add: decimal_def)
  next
    case False
    have d: "dec n = dec (n div 10) @ [digit_char (n mod 10)]" using False by (subst dec.simps) simp
    have "10 * int (n div 10) + int (n mod 10) = int n" by presburger
    with 1 [OF False] digit_char_facts [of "n mod 10"] show ?thesis by (simp add: d decimal_snoc)
  qed
qed

lemma zero_digit: "is_digit (CHR ''0'')" "digit_value (CHR ''0'') = 0"
  by (simp_all add: is_digit_def digit_value_def)

lemma decimal_zeros: "decimal (replicate k (CHR ''0'') @ s) = decimal s"
  by (induction k) (simp_all add: decimal_def zero_digit)

lemma int_string_number:
  assumes "0 \<le> n"
  shows "js_number (int_string n) = Some n" "\<forall>c\<in>set (int_string n). is_digit c" "decimal (int_string n) = n"
  using assms dec_correct [of "nat n"] by (simp_all add: int_string_def js_number_def)

lemma pad2_number:
  assumes "0 \<le> n"
  shows "js_number (pad2 n) = Some n" "\<forall>c\<in>set (pad2 n). is_digit c" "decimal (pad2 n) = n"
  using int_string_number [OF assms] zero_digit
  by (auto simp: pad2_def Let_def js_number_def decimal_zeros [of "2 - length (int_string n)"])

lemma length_dec: "1 \<le> length (dec n)" "n < 100 \<Longrightarrow> length (dec n) \<le> 2"
  "1000 \<le> n \<Longrightarrow> n < 10000 \<Longrightarrow> length (dec n) = 4"
proof -
  have rec: "length (dec n) = (if n < 10 then 1 else Suc (length (dec (n div 10))))" for n
    by (subst dec.simps) simp
  show "1 \<le> length (dec n)" by (subst rec) simp
  show "length (dec n) \<le> 2" if "n < 100"
  proof -
    have "n div 10 < 10" using that by simp
    then show ?thesis by (subst rec) (simp add: rec [of "n div 10"])
  qed
  assume n: "1000 \<le> n" "n < 10000"
  obtain a b c where abc: "a = n div 10" "b = a div 10" "c = b div 10" by blast
  then have "100 \<le> a" "a < 1000" using n by auto
  then have "10 \<le> b" "b < 100" using abc(2) by auto
  then have "1 \<le> c" "c < 10" using abc(3) by auto
  then have "length (dec c) = 1" by (subst rec) simp
  then have "length (dec b) = 2" using \<open>10 \<le> b\<close> rec [of b] abc(3) by simp
  then have "length (dec a) = 3" using \<open>100 \<le> a\<close> rec [of a] abc(2) by simp
  then show "length (dec n) = 4" using n rec [of n] abc(1) by simp
qed

lemma length_pad2: "0 \<le> n \<Longrightarrow> n < 100 \<Longrightarrow> length (pad2 n) = 2"
  using length_dec(1,2) [of "nat n"] by (auto simp: pad2_def Let_def int_string_def)

lemma digit_not_separator: "is_digit c \<Longrightarrow> c \<noteq> CHR ''-'' \<and> c \<noteq> CHR '':'' \<and> c \<noteq> CHR ''.''"
  by (auto simp: is_digit_def)

lemma split_on_word: "c \<notin> set a \<Longrightarrow> split_on c a = [a]"
  by (induction a) auto

lemma split_on_append: "c \<notin> set a \<Longrightarrow> split_on c (a @ c # rest) = a # split_on c rest"
  by (induction a) auto

text \<open>The key of a day number.\<close>

definition key_of_day :: "int \<Rightarrow> string" where
  "key_of_day n = (case civil n of (y, m, d) \<Rightarrow> int_string y @ ''-'' @ pad2 m @ ''-'' @ pad2 d)"

lemma date_key_day: "date_key off d zone = key_of_day (local_day off d zone)"
  by (cases "civil (local_day off d zone)") (simp add: date_key_def key_of_day_def Let_def wall_time_day)

lemma civil_bounds: "civil n = (y, m, d) \<Longrightarrow> 1 \<le> m \<and> m \<le> 12 \<and> 1 \<le> d \<and> d \<le> 31"
  using civil_correct(1) month_length_bounds [of m y] by (fastforce simp: valid_date_def)

lemma key_parts:
  assumes "civil n = (y, m, d)" "0 \<le> y"
  shows "split_on (CHR ''-'') (key_of_day n) = [int_string y, pad2 m, pad2 d]"
proof -
  have "0 \<le> m" "0 \<le> d" using civil_bounds [OF assms(1)] by simp_all
  then have "CHR ''-'' \<notin> set (int_string y)" "CHR ''-'' \<notin> set (pad2 m)" "CHR ''-'' \<notin> set (pad2 d)"
    using int_string_number(2) [OF assms(2)] pad2_number(2) digit_not_separator by blast+
  then show ?thesis by (simp add: key_of_day_def assms(1) split_on_append split_on_word)
qed

lemma day_number_key:
  assumes "99 < fst (civil n)"
  shows "day_number (key_of_day n) = Some n"
proof -
  obtain y m d where c: "civil n = (y, m, d)" by (cases "civil n")
  with assms have y: "99 < y" by simp
  have md: "0 \<le> m" "0 \<le> d" using civil_bounds [OF c] by simp_all
  from y have "0 \<le> y" by simp
  note parts = key_parts [OF c this]
  have "day_number (key_of_day n) = Some (make_day (full_year y) m d)"
    using y md by (simp add: day_number_def parts part_def int_string_number pad2_number Let_def)
  then show ?thesis using y civil_correct(2) [OF c] by (simp add: full_year_def)
qed

lemma key_of_day_inj: "99 < fst (civil a) \<Longrightarrow> 99 < fst (civil b) \<Longrightarrow> key_of_day a = key_of_day b \<Longrightarrow> a = b"
  using day_number_key by (metis option.inject)

lemma key_fields_key:
  assumes c: "civil n = (y, m, d)" and y: "1000 \<le> y" "y \<le> 9999"
  shows "key_fields (key_of_day n) = Some (y, m, d)"
proof -
  have b: "0 \<le> m" "m < 100" "0 \<le> d" "d < 100" using civil_bounds [OF c] by simp_all
  have len: "length (int_string y) = 4" using length_dec(3) [of "nat y"] y by (simp add: int_string_def)
  note lens = len length_pad2 [OF b(1,2)] length_pad2 [OF b(3,4)]
  have key: "key_of_day n = int_string y @ ''-'' @ pad2 m @ ''-'' @ pad2 d" by (simp add: key_of_day_def c)
  have t: "take 4 (key_of_day n) = int_string y" "take 2 (drop 5 (key_of_day n)) = pad2 m" "drop 8 (key_of_day n) = pad2 d"
    "key_of_day n ! 4 = CHR ''-''" "key_of_day n ! 7 = CHR ''-''" "length (key_of_day n) = 10"
    unfolding key by (simp_all add: lens nth_append)
  have dig: "\<forall>c\<in>set (int_string y @ pad2 m @ pad2 d). is_digit c"
    using int_string_number(2) [of y] pad2_number(2) b y by auto
  show ?thesis
    unfolding key_fields_def t using dig b y by (simp add: int_string_number pad2_number)
qed

section \<open>The month around a day\<close>

text \<open>Of the days within two weeks of a month, those with the month's number are the days of the month.\<close>

lemma month_start_close: "1 \<le> m \<Longrightarrow> m \<le> 12 \<Longrightarrow> \<bar>month_start a m - month_start b m\<bar> \<le> 1"
  by (erule (1) month_cases; cases a; cases b) (simp_all add: month_start_def month_starts_def)

lemma in_month_iff:
  assumes y: "valid_date y m 1" and n: "make_day y m 1 - 6 \<le> n" "n \<le> make_day y m 1 + 41"
  shows "fst (snd (civil n)) = m \<longleftrightarrow> make_day y m 1 \<le> n \<and> n < make_day y m 1 + month_length y m"
proof -
  obtain y' m' d' where c: "civil n = (y', m', d')" by (cases "civil n")
  note v = civil_correct [OF c]
  have m: "1 \<le> m" "m \<le> 12" using y by (simp_all add: valid_date_def)
  show ?thesis
  proof
    assume "fst (snd (civil n)) = m"
    then have m': "m' = m" by (simp add: c)
    have d': "1 \<le> d'" "d' \<le> 31" using civil_bounds [OF c] by simp_all
    have n': "n = year_start y' + month_start (leap y') m + (d' - 1) - epoch_day"
      using v(2) m m' by (simp add: make_day_in_year)
    have S: "make_day y m 1 = year_start y + month_start (leap y) m - epoch_day" using m by (simp add: make_day_in_year)
    have near: "\<bar>month_start (leap y) m - month_start (leap y') m\<bar> \<le> 1" by (rule month_start_close [OF m])
    have "year_start y' + 365 \<le> year_start y" if "y' < y"
      using year_start_mono_strict [OF that] by (simp add: year_length_def split: if_splits)
    moreover have "year_start y + 365 \<le> year_start y'" if "y < y'"
      using year_start_mono_strict [OF that] by (simp add: year_length_def split: if_splits)
    ultimately have "y' = y" using n' S near d' n by linarith
    with v m' have "make_day y m d' = n" "valid_date y m d'" by simp_all
    then show "make_day y m 1 \<le> n \<and> n < make_day y m 1 + month_length y m"
      using m make_day_in_year [of m y] by (auto simp: valid_date_def)
  next
    assume r: "make_day y m 1 \<le> n \<and> n < make_day y m 1 + month_length y m"
    let ?d = "n - make_day y m 1 + 1"
    have "valid_date y m ?d" using m r by (simp add: valid_date_def)
    moreover have "make_day y m ?d = n" using m by (simp add: make_day_in_year)
    ultimately show "fst (snd (civil n)) = m" using civil_make_day by fastforce
  qed
qed

lemma day_in_month:
  assumes "valid_date y m 1" "make_day y m 1 \<le> n" "n < make_day y m 1 + month_length y m"
  shows "civil n = (y, m, n - make_day y m 1 + 1)"
proof -
  let ?d = "n - make_day y m 1 + 1"
  have m: "1 \<le> m" "m \<le> 12" using assms by (simp_all add: valid_date_def)
  then have "valid_date y m ?d" using assms by (simp add: valid_date_def)
  moreover have "make_day y m ?d = n" using m by (simp add: make_day_in_year)
  ultimately show ?thesis using civil_make_day by fastforce
qed

lemma filter_upto: "a \<le> lo \<Longrightarrow> lo \<le> hi + 1 \<Longrightarrow> hi \<le> b \<Longrightarrow> filter (\<lambda>k. lo \<le> k \<and> k \<le> hi) [a..b] = [lo..hi]" for a b :: int
  by (rule sorted_distinct_set_unique) (auto simp: sorted_wrt_filter)

lemma concat_grid: "concat (map (\<lambda>w. map (\<lambda>i. f (w * 7 + i)) [0..6]) [0..5]) = map f [0..41 :: int]"
proof -
  have "map f [0..41 :: int] = map f (concat (map (\<lambda>w. map (\<lambda>i. w * 7 + i) [0..6]) [0..5]))"
    by (rule arg_cong [where f = "map f"]) code_simp
  then show ?thesis by (simp add: map_concat comp_def)
qed

context midnight_clock
begin

lemma parse_date_key_date_key:
  assumes "zone \<in> zones" "1000 \<le> year_of off d zone" "year_of off d zone \<le> 9999"
  shows "parse_date_key off (date_key off d zone) zone = Some (start_of_day off d zone)"
proof -
  obtain y m dd where c: "civil (local_day off d zone) = (y, m, dd)" by (cases "civil (local_day off d zone)")
  note w = wall_time_day [OF c]
  have y: "1000 \<le> y" "y \<le> 9999" using assms(2,3) w by (simp_all add: year_of_def)
  note v = civil_correct [OF c]
  have "civil (day_of (date_utc y m dd 0 0)) = (y, m, dd)"
    using y v(1) by (simp add: utc_fields_date_utc full_year_def civil_make_day)
  then show ?thesis
    using w by (simp add: parse_date_key_def date_key_day key_fields_key [OF c y] start_of_day_def Let_def)
qed

lemma add_days_until:
  assumes "zone \<in> zones" "plain_year (year_of off d zone)" "99 < year_of off d zone"
    "99 < year_of off (add_days off d n zone) zone"
  shows "days_until off (add_days off d n zone) zone d = Some n"
proof -
  have fields: "year_of off t zone = fst (civil (local_day off t zone))" for t
    by (cases "civil (local_day off t zone)") (simp add: year_of_def wall_time_day)
  show ?thesis
    using assms day_number_key [of "local_day off d zone"] day_number_key [of "local_day off d zone + n"]
    by (simp add: days_until_def date_key_day fields add_days_day)
qed

lemma start_of_week_monday:
  assumes "zone \<in> zones" "plain_year (year_of off d zone)"
  shows "weekday_of (local_day off (start_of_week off d zone) zone) = 1"
    "local_day off (start_of_week off d zone) zone \<le> local_day off d zone"
    "local_day off d zone - 6 \<le> local_day off (start_of_week off d zone) zone"
proof -
  let ?n = "local_day off d zone"
  have w: "wl_weekday (wall_time off d zone) = weekday_of ?n"
    by (cases "civil ?n") (simp add: wall_time_day)
  have wb: "0 \<le> weekday_of ?n" "weekday_of ?n < 7" by (simp_all add: weekday_of_def)
  let ?diff = "(weekday_of ?n + 6) mod 7"
  have "js_rem (weekday_of ?n - first_weekday + 7) 7 = ?diff"
    using wb by (subst js_rem_nonneg) (simp_all add: first_weekday_def add.commute [of 6])
  then have day: "local_day off (start_of_week off d zone) zone = ?n - ?diff"
    using add_days_day [OF assms] by (simp add: start_of_week_def w)
  have "0 \<le> ?diff" "?diff < 7" by simp_all
  then show "local_day off (start_of_week off d zone) zone \<le> ?n" "?n - 6 \<le> local_day off (start_of_week off d zone) zone"
    unfolding day by linarith+
  have "(?n - ?diff + 4) mod 7 = 1" unfolding weekday_of_def by presburger
  then show "weekday_of (local_day off (start_of_week off d zone) zone) = 1" unfolding day weekday_of_def .
qed

lemma month_grid:
  assumes zone: "zone \<in> zones" and year: "100 < year_of off month zone"
    and cells_def: "cells = concat (month_weeks off full_date month selected mn mx zone now)"
  obtains F where "weekday_of F = 1" "map cd_key cells = map (\<lambda>k. key_of_day (F + k)) [0..41]"
    "map cd_day (filter cd_in_month cells)
      = [1..month_length (wl_year (wall_time off month zone)) (wl_month (wall_time off month zone))]"
proof -
  let ?w = "wall_time off month zone"
  let ?y = "wl_year ?w" and ?m = "wl_month ?w"
  let ?s = "start_of_month off month zone"
  let ?f = "start_of_week off ?s zone"
  let ?S = "make_day ?y ?m 1" and ?len = "month_length ?y ?m"
  have plain: "plain_year (year_of off month zone)" using year by (simp add: plain_year_def)
  have valid1: "valid_date ?y ?m 1"
    using local_day_wall(2) [of off month zone] by (auto simp: valid_date_def)
  have len: "28 \<le> ?len" "?len \<le> 31" using month_length_bounds [of ?m ?y] valid1 by (simp_all add: valid_date_def)
  have S: "local_day off ?s zone = ?S" using start_of_month_day [OF zone plain] by simp
  have "civil ?S = (?y, ?m, 1)" by (rule civil_make_day [OF valid1])
  then have sy: "year_of off ?s zone = ?y" using wall_time_day [of off ?s zone] S by (simp add: year_of_def)
  then have splain: "plain_year (year_of off ?s zone)" using year by (simp add: plain_year_def year_of_def)
  let ?F = "local_day off ?f zone"
  note monday = start_of_week_monday [OF zone splain, unfolded S]
  obtain fy fm fd where cF: "civil ?F = (fy, fm, fd)" by (cases "civil ?F")
  have "?y - 1 \<le> fy"
  proof (rule ccontr)
    assume "\<not> ?thesis"
    then have "fy + 1 < ?y" by simp
    then have "year_start (fy + 1) + year_length (fy + 1) \<le> year_start ?y" by (rule year_start_mono_strict)
    moreover have "?F < year_start (fy + 1) - epoch_day"
      using year_of_day_bounds [of "?F + epoch_day"] cF by (simp add: civil_def Let_def)
    moreover have "year_start ?y - epoch_day \<le> ?S"
      using valid1 month_in_year [of ?m ?y] by (simp add: make_day_in_year valid_date_def)
    ultimately show False using monday(3) by (simp add: year_length_def split: if_splits)
  qed
  then have fplain: "plain_year (year_of off ?f zone)"
    using year wall_time_day [OF cF] by (simp add: plain_year_def year_of_def)
  have day: "local_day off (add_days off ?f k zone) zone = ?F + k" for k
    by (rule add_days_day [OF zone fplain])
  let ?cell = "\<lambda>k. \<lparr>cd_key = key_of_day (?F + k), cd_day = snd (snd (civil (?F + k))),
      cd_in_month = (fst (snd (civil (?F + k))) = ?m), cd_today = (key_of_day (?F + k) = date_key off now zone),
      cd_selected = (key_of_day (?F + k) = selected), cd_disabled = out_of_bounds (key_of_day (?F + k)) mn mx,
      cd_label = full_date (add_days off ?f k zone) zone\<rparr>"
  have fields: "wl_day (wall_time off t zone) = snd (snd (civil (local_day off t zone)))"
    "wl_month (wall_time off t zone) = fst (snd (civil (local_day off t zone)))" for t
    by (cases "civil (local_day off t zone)"; simp add: wall_time_day)+
  have cells: "cells = map ?cell [0..41]"
    unfolding cells_def month_weeks_def Let_def concat_grid [symmetric]
    by (simp add: date_key_day day fields)
  let ?lo = "?S - ?F"
  have lo: "0 \<le> ?lo" "?lo \<le> 6" using monday(2,3) by simp_all
  have "cd_in_month (?cell k) \<longleftrightarrow> ?lo \<le> k \<and> k \<le> ?lo + ?len - 1" if "k \<in> set [0..41]" for k
  proof -
    have "fst (snd (civil (?F + k))) = ?m \<longleftrightarrow> ?S \<le> ?F + k \<and> ?F + k < ?S + ?len"
      using that lo by (intro in_month_iff [OF valid1]) auto
    then show ?thesis by auto
  qed
  then have "filter cd_in_month cells = map ?cell (filter (\<lambda>k. ?lo \<le> k \<and> k \<le> ?lo + ?len - 1) [0..41])"
    unfolding cells filter_map by (auto intro!: arg_cong [where f = "map _"] filter_cong)
  also have "filter (\<lambda>k. ?lo \<le> k \<and> k \<le> ?lo + ?len - 1) [0..41] = [?lo..?lo + ?len - 1]"
    using lo len by (intro filter_upto) auto
  finally have "map cd_day (filter cd_in_month cells) = map (\<lambda>k. snd (snd (civil (?F + k)))) [?lo..?lo + ?len - 1]"
    by simp
  also have "\<dots> = map (\<lambda>k. k - ?lo + 1) [?lo..?lo + ?len - 1]"
    by (rule map_cong [OF refl]) (use day_in_month [OF valid1] in auto)
  also have "\<dots> = [1..?len]"
    by (rule nth_equalityI) auto
  finally have "map cd_day (filter cd_in_month cells) = [1..?len]" .
  moreover have "map cd_key cells = map (\<lambda>k. key_of_day (?F + k)) [0..41]" by (simp add: cells)
  ultimately show thesis using that monday(1) by blast
qed

end

end
