(* ===== verification/Timestamps.thy ===== *)
theory Timestamps
  imports Datetime "HOL-Library.Monad_Syntax"
begin

text \<open>
  Instants as text: \<open>parseTimestamp\<close> of \<open>app-core/src/datetime.ts\<close>, which reads the server's and the replica's
  timestamps, with the ISO 8601 form of ECMA-262's \<open>Date\<close> and \<open>toISOString\<close>. A text outside that form is
  left to the engine's own formats, the parameter \<open>other\<close> (\<open>None\<close> stands for an invalid date).
\<close>

section \<open>Reading a timestamp\<close>

definition take_number :: "nat \<Rightarrow> string \<Rightarrow> (int \<times> string) option" where
  "take_number n s =
    (if n \<le> length s \<and> (\<forall>c\<in>set (take n s). is_digit c) then Some (decimal (take n s), drop n s) else None)"

definition expect_char :: "char \<Rightarrow> string \<Rightarrow> string option" where
  "expect_char c s = (case s of x # xs \<Rightarrow> if x = c then Some xs else None | [] \<Rightarrow> None)"

definition fraction_ms :: "string \<Rightarrow> int" where
  "fraction_ms ds = decimal (take 3 (ds @ ''000''))"

text \<open>The optional seconds with their optional fraction.\<close>

definition take_seconds :: "string \<Rightarrow> (int \<times> int \<times> string) option" where
  "take_seconds s =
    (case expect_char (CHR '':'') s of
       None \<Rightarrow> Some (0, 0, s)
     | Some r \<Rightarrow> do {
         (sec, t) \<leftarrow> take_number 2 r;
         (case expect_char (CHR ''.'') t of
            Some u \<Rightarrow> if takeWhile is_digit u = [] then None
                      else Some (sec, fraction_ms (takeWhile is_digit u), dropWhile is_digit u)
          | None \<Rightarrow> Some (sec, 0, t))
       })"

definition zone_minutes :: "string \<Rightarrow> int option" where
  "zone_minutes s =
    (if s = ''Z'' then Some 0
     else case s of
       [] \<Rightarrow> None
     | c # r \<Rightarrow>
         if c \<noteq> CHR ''+'' \<and> c \<noteq> CHR ''-'' then None
         else do {
           (h, t) \<leftarrow> take_number 2 r;
           u \<leftarrow> expect_char (CHR '':'') t;
           (m, v) \<leftarrow> take_number 2 u;
           if v = [] \<and> h \<le> 23 \<and> m \<le> 59 then Some (if c = CHR ''-'' then - (h * 60 + m) else h * 60 + m) else None
         })"

definition iso_instant :: "string \<Rightarrow> int option" where
  "iso_instant s = do {
     (y, s1) \<leftarrow> take_number 4 s; s2 \<leftarrow> expect_char (CHR ''-'') s1;
     (m, s3) \<leftarrow> take_number 2 s2; s4 \<leftarrow> expect_char (CHR ''-'') s3;
     (d, s5) \<leftarrow> take_number 2 s4; s6 \<leftarrow> expect_char (CHR ''T'') s5;
     (h, s7) \<leftarrow> take_number 2 s6; s8 \<leftarrow> expect_char (CHR '':'') s7;
     (mi, s9) \<leftarrow> take_number 2 s8;
     (sec, ms, rest) \<leftarrow> take_seconds s9;
     off \<leftarrow> zone_minutes rest;
     if valid_date y m d \<and> h \<le> 23 \<and> mi \<le> 59 \<and> sec \<le> 59
     then Some (make_day y m d * ms_per_day + ((h * 60 + mi - off) * 60 + sec) * 1000 + ms) else None
   }"

definition is_sign :: "char \<Rightarrow> bool" where
  "is_sign c \<longleftrightarrow> c = CHR ''+'' \<or> c = CHR ''-''"

text \<open>\<open>/([+-]\d{2})$/\<close> and \<open>/([zZ]|[+-]\d{2}:\d{2})$/\<close>, read from the end of the text.\<close>

definition ends_with_hours :: "string \<Rightarrow> bool" where
  "ends_with_hours s = (case rev s of b # a # c # _ \<Rightarrow> is_digit a \<and> is_digit b \<and> is_sign c | _ \<Rightarrow> False)"

definition ends_with_zone :: "string \<Rightarrow> bool" where
  "ends_with_zone s =
    (case rev s of
       [] \<Rightarrow> False
     | z # r \<Rightarrow> z = CHR ''z'' \<or> z = CHR ''Z'' \<or>
         (case z # r of e # d # q # b # a # c # _ \<Rightarrow>
            is_digit a \<and> is_digit b \<and> q = CHR '':'' \<and> is_digit d \<and> is_digit e \<and> is_sign c | _ \<Rightarrow> False))"

fun replace_first :: "char \<Rightarrow> char \<Rightarrow> string \<Rightarrow> string" where
  "replace_first a b [] = []"
| "replace_first a b (c # cs) = (if c = a then b # cs else c # replace_first a b cs)"

definition zoned_text :: "string \<Rightarrow> string" where
  "zoned_text s =
    (let iso = (if CHR ''T'' \<in> set s then s else replace_first (CHR '' '') (CHR ''T'') s);
         full = (if ends_with_hours iso then iso @ '':00'' else iso)
     in if ends_with_zone full then full else full @ ''Z'')"

definition parse_timestamp :: "(string \<Rightarrow> int option) \<Rightarrow> string \<Rightarrow> int option" where
  "parse_timestamp other s =
    (case iso_instant (zoned_text s) of Some t \<Rightarrow> Some t | None \<Rightarrow> other (zoned_text s))"

text \<open>\<open>readDate\<close>: a bare day is that day in the zone.\<close>

definition read_date :: "offsets \<Rightarrow> (string \<Rightarrow> int option) \<Rightarrow> string \<Rightarrow> string \<Rightarrow> int option" where
  "read_date off other s zone =
    (case (if length s = 10 then parse_date_key off s zone else None) of
       Some t \<Rightarrow> Some t | None \<Rightarrow> parse_timestamp other s)"

section \<open>Writing one\<close>

definition iso_year :: "int \<Rightarrow> string" where
  "iso_year y = (if 0 \<le> y \<and> y \<le> 9999 then pad_to 4 (int_string y)
     else (if y < 0 then ''-'' else ''+'') @ pad_to 6 (int_string \<bar>y\<bar>))"

definition utc_seconds :: "int \<Rightarrow> int" where "utc_seconds t = t mod ms_per_min div 1000"

definition to_iso :: "int \<Rightarrow> string" where
  "to_iso t =
    (case civil (day_of t) of (y, m, d) \<Rightarrow>
       iso_year y @ ''-'' @ pad2 m @ ''-'' @ pad2 d @ ''T'' @ pad2 (utc_hours t) @ '':'' @ pad2 (utc_minutes t)
       @ '':'' @ pad2 (utc_seconds t) @ ''.'' @ pad_to 3 (int_string (t mod 1000)) @ ''Z'')"

text \<open>The text PowerSync keeps of a Postgres timestamp: a space for the \<open>T\<close> and hours alone for the zone.\<close>

definition stored_timestamp :: "int \<Rightarrow> string" where
  "stored_timestamp t =
    (case civil (day_of t) of (y, m, d) \<Rightarrow>
       iso_year y @ ''-'' @ pad2 m @ ''-'' @ pad2 d @ '' '' @ pad2 (utc_hours t) @ '':'' @ pad2 (utc_minutes t)
       @ '':'' @ pad2 (utc_seconds t) @ ''+00'')"

section \<open>Round trips\<close>

lemma take_number_digits:
  "length ds = n \<Longrightarrow> \<forall>c\<in>set ds. is_digit c \<Longrightarrow> take_number n (ds @ s) = Some (decimal ds, s)"
  by (auto simp: take_number_def)

lemma take_number_pad2: "0 \<le> n \<Longrightarrow> n < 100 \<Longrightarrow> take_number 2 (pad2 n @ s) = Some (n, s)"
  using take_number_digits [OF length_pad2 pad2_number(2)] pad2_number(3) by simp

lemma length_dec_le: "n < 10 ^ Suc k \<Longrightarrow> length (dec n) \<le> Suc k"
proof (induction k arbitrary: n)
  case 0
  then show ?case by (subst dec.simps) simp
next
  case (Suc k)
  then have "n div 10 < 10 ^ Suc k" by (simp add: less_mult_imp_div_less mult.commute)
  from Suc.IH [OF this] show ?case by (subst dec.simps) simp
qed

lemma pad_to_number:
  assumes "0 \<le> n" "nat n < 10 ^ Suc k"
  shows "length (pad_to (Suc k) (int_string n)) = Suc k" "\<forall>c\<in>set (pad_to (Suc k) (int_string n)). is_digit c"
    "decimal (pad_to (Suc k) (int_string n)) = n"
  using assms length_dec_le [OF assms(2)] int_string_number [OF assms(1)] zero_digit
  by (auto simp: pad_to_def int_string_def decimal_zeros)

lemma expect_char_Cons [simp]: "expect_char c (d # s) = (if d = c then Some s else None)"
  by (simp add: expect_char_def)

lemma clock_sum:
  fixes a :: int
  shows "h * 3600000 + x = a \<Longrightarrow> m * 60000 + y = x \<Longrightarrow> s * 1000 + z = y \<Longrightarrow> ((h * 60 + m) * 60 + s) * 1000 + z = a"
  by simp

lemma day_parts:
  "0 \<le> utc_hours t" "utc_hours t \<le> 23" "0 \<le> utc_minutes t" "utc_minutes t \<le> 59" "0 \<le> utc_seconds t" "utc_seconds t \<le> 59"
  "day_of t * ms_per_day + ((utc_hours t * 60 + utc_minutes t) * 60 + utc_seconds t) * 1000 + t mod 1000 = t"
proof -
  define a where "a = t mod ms_per_day"
  have a: "0 \<le> a" "a < 86400000" by (simp_all add: a_def ms_per_day_def)
  have m: "t mod 3600000 = a mod 3600000" "t mod 60000 = a mod 60000" "t mod 1000 = a mod 1000"
    by (simp_all add: a_def ms_per_day_def mod_mod_cancel)
  have hours: "utc_hours t = a div 3600000" and minutes: "utc_minutes t = a mod 3600000 div 60000"
    and seconds: "utc_seconds t = a mod 60000 div 1000"
    by (simp_all add: utc_hours_def utc_minutes_def utc_seconds_def m ms_per_min_def a_def)
  show "0 \<le> utc_hours t" "utc_hours t \<le> 23" "0 \<le> utc_minutes t" "utc_minutes t \<le> 59" "0 \<le> utc_seconds t" "utc_seconds t \<le> 59"
    unfolding hours minutes seconds using a by linarith+
  have h1: "a div 3600000 * 3600000 + a mod 3600000 = a" by (rule div_mult_mod_eq)
  have c: "a mod 3600000 mod 60000 = a mod 60000" "a mod 60000 mod 1000 = a mod 1000"
    by (rule mod_mod_cancel, simp)+
  have h2: "a mod 3600000 div 60000 * 60000 + a mod 60000 = a mod 3600000"
    using div_mult_mod_eq [of "a mod 3600000" 60000] unfolding c .
  have h3: "a mod 60000 div 1000 * 1000 + a mod 1000 = a mod 60000"
    using div_mult_mod_eq [of "a mod 60000" 1000] unfolding c .
  have "((utc_hours t * 60 + utc_minutes t) * 60 + utc_seconds t) * 1000 + t mod 1000 = a"
    unfolding hours minutes seconds m by (rule clock_sum [OF h1 h2 h3])
  then show "day_of t * ms_per_day + ((utc_hours t * 60 + utc_minutes t) * 60 + utc_seconds t) * 1000 + t mod 1000 = t"
    unfolding day_of_def a_def using div_mult_mod_eq [of t ms_per_day] by (metis add.assoc)
qed

lemma zoned_ending:
  "ends_with_hours (s @ ''Z'') \<longleftrightarrow> False" "ends_with_zone (s @ ''Z'')"
  by (simp_all add: ends_with_hours_def ends_with_zone_def is_digit_def split: list.splits)

lemma date_text:
  assumes "civil n = (y, m, d)" "0 \<le> y" "y \<le> 9999"
  shows "take_number 4 (iso_year y @ s) = Some (y, s)" "take_number 2 (pad2 m @ s) = Some (m, s)"
    "take_number 2 (pad2 d @ s) = Some (d, s)" "valid_date y m d" "\<forall>c\<in>set (iso_year y). is_digit c"
proof -
  have bound: "nat y < 10 ^ Suc 3" using assms(2,3) by simp
  show "\<forall>c\<in>set (iso_year y). is_digit c"
    using pad_to_number(2) [OF assms(2) bound] assms(2,3) by (simp add: iso_year_def numeral_eq_Suc)
  from take_number_digits [OF pad_to_number(1,2) [OF assms(2) bound], of s] pad_to_number(3) [OF assms(2) bound]
  show "take_number 4 (iso_year y @ s) = Some (y, s)" using assms(2,3) by (simp add: iso_year_def numeral_eq_Suc)
  show "take_number 2 (pad2 m @ s) = Some (m, s)" "take_number 2 (pad2 d @ s) = Some (d, s)"
    using civil_bounds [OF assms(1)] by (simp_all add: take_number_pad2)
  show "valid_date y m d" by (rule civil_correct(1) [OF assms(1)])
qed

lemma take_seconds_iso:
  assumes "0 \<le> sec" "sec < 100" "0 \<le> n" "n < 1000"
  shows "take_seconds (CHR '':'' # pad2 sec @ CHR ''.'' # pad_to 3 (int_string n) @ ''Z'') = Some (sec, n, ''Z'')"
proof -
  let ?f = "pad_to 3 (int_string n)"
  have "nat n < 10 ^ Suc 2" using assms(4) by simp
  note f = pad_to_number [OF assms(3) this, simplified]
  have "takeWhile is_digit (?f @ ''Z'') = ?f" "dropWhile is_digit (?f @ ''Z'') = ''Z''"
    using f(2) by (simp_all add: takeWhile_append2 dropWhile_append2 is_digit_def)
  moreover have "fraction_ms ?f = n" using f(1,3) by (simp add: fraction_ms_def)
  moreover have "?f \<noteq> []" using f(1) by auto
  ultimately show ?thesis using assms(1,2) by (simp add: take_seconds_def take_number_pad2)
qed

lemma instant_parts:
  assumes "civil (day_of t) = (y, m, d)"
  shows "make_day y m d * ms_per_day + ((utc_hours t * 60 + utc_minutes t) * 60 + utc_seconds t) * 1000 + t mod 1000 = t"
  using day_parts(7) [of t] civil_correct(2) [OF assms] by simp

lemma iso_instant_to_iso:
  assumes "fst (civil (day_of t)) \<in> {0..9999}"
  shows "iso_instant (to_iso t) = Some t"
proof -
  obtain y m d where c: "civil (day_of t) = (y, m, d)" by (cases "civil (day_of t)")
  have y: "0 \<le> y" "y \<le> 9999" using assms c by auto
  note parts = date_text [OF c y] day_parts(1-6) [of t]
  have "zone_minutes ''Z'' = Some 0" by (simp add: zone_minutes_def)
  with parts instant_parts [OF c] show ?thesis
    by (simp add: iso_instant_def to_iso_def c take_number_pad2 take_seconds_iso)
qed

text \<open>A timestamp written by \<open>toISOString\<close> is read back as the same instant, to the millisecond, in every year
  from 0 to 9999.\<close>

theorem timestamp_roundtrip:
  assumes "fst (civil (day_of t)) \<in> {0..9999}"
  shows "parse_timestamp other (to_iso t) = Some t"
proof -
  obtain y m d where c: "civil (day_of t) = (y, m, d)" by (cases "civil (day_of t)")
  then have "CHR ''T'' \<in> set (to_iso t)" by (simp add: to_iso_def)
  moreover have "to_iso t \<noteq> []" "last (to_iso t) = CHR ''Z''" by (simp_all add: to_iso_def c)
  then obtain s where "to_iso t = s @ ''Z''" by (metis append_butlast_last_id)
  ultimately have "zoned_text (to_iso t) = to_iso t" by (simp add: zoned_text_def zoned_ending)
  then show ?thesis by (simp add: parse_timestamp_def iso_instant_to_iso [OF assms])
qed


theorem timestamp_roundtrip_witness:
  "parse_timestamp (\<lambda>_. None) (to_iso 1767225599999) = Some 1767225599999"
proof -
  have "day_of 1767225599999 = make_day 2025 12 31" "valid_date 2025 12 31" by code_simp+
  then have "fst (civil (day_of 1767225599999)) \<in> {0..9999}" by (simp add: civil_make_day)
  from timestamp_roundtrip [OF this] show ?thesis .
qed

text \<open>The replica's text of an instant, which is kept to the second, is read as that instant too.\<close>

lemma replace_first_append: "a \<notin> set xs \<Longrightarrow> replace_first a b (xs @ ys) = xs @ replace_first a b ys"
  by (induction xs) auto

lemma take_seconds_plain:
  "0 \<le> sec \<Longrightarrow> sec < 100 \<Longrightarrow> take_seconds (CHR '':'' # pad2 sec @ CHR ''+'' # s) = Some (sec, 0, CHR ''+'' # s)"
  by (simp add: take_seconds_def take_number_pad2)

lemma stored_timestamp_read:
  assumes "fst (civil (day_of t)) \<in> {0..9999}" "t mod 1000 = 0"
  shows "parse_timestamp other (stored_timestamp t) = Some t"
proof -
  obtain y m d where c: "civil (day_of t) = (y, m, d)" by (cases "civil (day_of t)")
  have y: "0 \<le> y" "y \<le> 9999" using assms(1) c by auto
  note parts = date_text [OF c y] day_parts(1-6) [of t]
  let ?day = "iso_year y @ ''-'' @ pad2 m @ ''-'' @ pad2 d"
  let ?time = "pad2 (utc_hours t) @ '':'' @ pad2 (utc_minutes t) @ '':'' @ pad2 (utc_seconds t)"
  have written: "stored_timestamp t = (?day @ '' '') @ ?time @ ''+00''" by (simp add: stored_timestamp_def c)
  have digits: "\<forall>c\<in>set (pad2 k). is_digit c" if "0 \<le> k" for k by (rule pad2_number(2) [OF that])
  have md: "0 \<le> m" "0 \<le> d" using civil_bounds [OF c] by auto
  have plain: "a \<notin> set (iso_year y)" "a \<notin> set (pad2 m)" "a \<notin> set (pad2 d)" "a \<notin> set (pad2 (utc_hours t))"
    "a \<notin> set (pad2 (utc_minutes t))" "a \<notin> set (pad2 (utc_seconds t))" if "\<not> is_digit a" for a
    using that parts(5) digits md parts(6,8,10) by blast+
  have sep: "\<not> is_digit (CHR '' '')" "\<not> is_digit (CHR ''T'')" by (simp_all add: is_digit_def)
  have "CHR ''T'' \<notin> set (stored_timestamp t)" using plain [OF sep(2)] by (simp add: written)
  moreover have "replace_first (CHR '' '') (CHR ''T'') (stored_timestamp t) = ?day @ ''T'' @ ?time @ ''+00''"
    using plain [OF sep(1)] by (simp add: written replace_first_append)
  ultimately have "zoned_text (stored_timestamp t) = ?day @ ''T'' @ ?time @ ''+00:00''"
    by (simp add: zoned_text_def ends_with_hours_def ends_with_zone_def is_sign_def is_digit_def)
  moreover have "zone_minutes ''+00:00'' = Some 0" by code_simp
  then have "iso_instant (?day @ ''T'' @ ?time @ ''+00:00'') = Some t"
    using parts instant_parts [OF c] assms(2) by (simp add: iso_instant_def take_number_pad2 take_seconds_plain)
  ultimately show ?thesis by (simp add: parse_timestamp_def)
qed

end
