(* ===== verification/Zones.thy ===== *)
theory Zones
  imports Datetime
begin

text \<open>
  The zone table the product ships with (\<open>packages/app-core/src/zones.ts\<close>), one definition per zone, and
  what the calendar of \<open>Datetime\<close> guarantees in these zones: the clocks' interface is interpreted on the
  table, so the statements hold for every instant and every supported zone.
\<close>

section \<open>The bundled table\<close>

definition zone_st_johns :: zone_rules where
  "zone_st_johns = [
    (946684800, - 210), (954646260, - 150), (972786660, - 210), (986095860, - 150), (1004236260, - 210),
    (1018150260, - 150), (1035685860, - 210), (1049599860, - 150), (1067135460, - 210),
    (1081049460, - 150), (1099189860, - 210), (1112499060, - 150), (1130639460, - 210),
    (1143948660, - 150), (1162089060, - 210), (1173583860, - 150), (1194143460, - 210),
    (1205033460, - 150), (1225593060, - 210), (1236483060, - 150), (1257042660, - 210),
    (1268537460, - 150), (1289097060, - 210), (1299987060, - 150), (1320553800, - 210),
    (1331443800, - 150), (1352003400, - 210), (1362893400, - 150), (1383453000, - 210),
    (1394343000, - 150), (1414902600, - 210), (1425792600, - 150), (1446352200, - 210),
    (1457847000, - 150), (1478406600, - 210), (1489296600, - 150), (1509856200, - 210),
    (1520746200, - 150), (1541305800, - 210), (1552195800, - 150), (1572755400, - 210),
    (1583645400, - 150), (1604205000, - 210), (1615699800, - 150), (1636259400, - 210),
    (1647149400, - 150), (1667709000, - 210), (1678599000, - 150), (1699158600, - 210),
    (1710048600, - 150), (1730608200, - 210), (1741498200, - 150), (1762057800, - 210),
    (1772947800, - 150), (1793507400, - 210), (1805002200, - 150), (1825561800, - 210),
    (1836451800, - 150), (1857011400, - 210), (1867901400, - 150), (1888461000, - 210),
    (1899351000, - 150), (1919910600, - 210), (1930800600, - 150), (1951360200, - 210),
    (1962855000, - 150), (1983414600, - 210), (1994304600, - 150), (2014864200, - 210),
    (2025754200, - 150), (2046313800, - 210), (2057203800, - 150), (2077763400, - 210),
    (2088653400, - 150), (2109213000, - 210), (2120103000, - 150), (2140662600, - 210),
    (2152157400, - 150), (2172717000, - 210), (2183607000, - 150), (2204166600, - 210),
    (2215056600, - 150), (2235616200, - 210), (2246506200, - 150), (2267065800, - 210),
    (2277955800, - 150), (2298515400, - 210), (2309405400, - 150), (2329965000, - 210),
    (2341459800, - 150), (2362019400, - 210), (2372909400, - 150), (2393469000, - 210),
    (2404359000, - 150), (2424918600, - 210), (2435808600, - 150), (2456368200, - 210),
    (2467258200, - 150), (2487817800, - 210), (2499312600, - 150), (2519872200, - 210),
    (2530762200, - 150), (2551321800, - 210), (2562211800, - 150), (2582771400, - 210),
    (2593661400, - 150), (2614221000, - 210), (2625111000, - 150), (2645670600, - 210),
    (2656560600, - 150), (2677120200, - 210), (2688615000, - 150), (2709174600, - 210),
    (2720064600, - 150), (2740624200, - 210), (2751514200, - 150), (2772073800, - 210),
    (2782963800, - 150), (2803523400, - 210), (2814413400, - 150), (2834973000, - 210),
    (2846467800, - 150), (2867027400, - 210)]"

definition zone_halifax :: zone_rules where
  "zone_halifax = [
    (946684800, - 240), (954655200, - 180), (972795600, - 240), (986104800, - 180), (1004245200, - 240),
    (1018159200, - 180), (1035694800, - 240), (1049608800, - 180), (1067144400, - 240),
    (1081058400, - 180), (1099198800, - 240), (1112508000, - 180), (1130648400, - 240),
    (1143957600, - 180), (1162098000, - 240), (1173592800, - 180), (1194152400, - 240),
    (1205042400, - 180), (1225602000, - 240), (1236492000, - 180), (1257051600, - 240),
    (1268546400, - 180), (1289106000, - 240), (1299996000, - 180), (1320555600, - 240),
    (1331445600, - 180), (1352005200, - 240), (1362895200, - 180), (1383454800, - 240),
    (1394344800, - 180), (1414904400, - 240), (1425794400, - 180), (1446354000, - 240),
    (1457848800, - 180), (1478408400, - 240), (1489298400, - 180), (1509858000, - 240),
    (1520748000, - 180), (1541307600, - 240), (1552197600, - 180), (1572757200, - 240),
    (1583647200, - 180), (1604206800, - 240), (1615701600, - 180), (1636261200, - 240),
    (1647151200, - 180), (1667710800, - 240), (1678600800, - 180), (1699160400, - 240),
    (1710050400, - 180), (1730610000, - 240), (1741500000, - 180), (1762059600, - 240),
    (1772949600, - 180), (1793509200, - 240), (1805004000, - 180), (1825563600, - 240),
    (1836453600, - 180), (1857013200, - 240), (1867903200, - 180), (1888462800, - 240),
    (1899352800, - 180), (1919912400, - 240), (1930802400, - 180), (1951362000, - 240),
    (1962856800, - 180), (1983416400, - 240), (1994306400, - 180), (2014866000, - 240),
    (2025756000, - 180), (2046315600, - 240), (2057205600, - 180), (2077765200, - 240),
    (2088655200, - 180), (2109214800, - 240), (2120104800, - 180), (2140664400, - 240),
    (2152159200, - 180), (2172718800, - 240), (2183608800, - 180), (2204168400, - 240),
    (2215058400, - 180), (2235618000, - 240), (2246508000, - 180), (2267067600, - 240),
    (2277957600, - 180), (2298517200, - 240), (2309407200, - 180), (2329966800, - 240),
    (2341461600, - 180), (2362021200, - 240), (2372911200, - 180), (2393470800, - 240),
    (2404360800, - 180), (2424920400, - 240), (2435810400, - 180), (2456370000, - 240),
    (2467260000, - 180), (2487819600, - 240), (2499314400, - 180), (2519874000, - 240),
    (2530764000, - 180), (2551323600, - 240), (2562213600, - 180), (2582773200, - 240),
    (2593663200, - 180), (2614222800, - 240), (2625112800, - 180), (2645672400, - 240),
    (2656562400, - 180), (2677122000, - 240), (2688616800, - 180), (2709176400, - 240),
    (2720066400, - 180), (2740626000, - 240), (2751516000, - 180), (2772075600, - 240),
    (2782965600, - 180), (2803525200, - 240), (2814415200, - 180), (2834974800, - 240),
    (2846469600, - 180), (2867029200, - 240)]"

definition zone_toronto :: zone_rules where
  "zone_toronto = [
    (946684800, - 300), (954658800, - 240), (972799200, - 300), (986108400, - 240), (1004248800, - 300),
    (1018162800, - 240), (1035698400, - 300), (1049612400, - 240), (1067148000, - 300),
    (1081062000, - 240), (1099202400, - 300), (1112511600, - 240), (1130652000, - 300),
    (1143961200, - 240), (1162101600, - 300), (1173596400, - 240), (1194156000, - 300),
    (1205046000, - 240), (1225605600, - 300), (1236495600, - 240), (1257055200, - 300),
    (1268550000, - 240), (1289109600, - 300), (1299999600, - 240), (1320559200, - 300),
    (1331449200, - 240), (1352008800, - 300), (1362898800, - 240), (1383458400, - 300),
    (1394348400, - 240), (1414908000, - 300), (1425798000, - 240), (1446357600, - 300),
    (1457852400, - 240), (1478412000, - 300), (1489302000, - 240), (1509861600, - 300),
    (1520751600, - 240), (1541311200, - 300), (1552201200, - 240), (1572760800, - 300),
    (1583650800, - 240), (1604210400, - 300), (1615705200, - 240), (1636264800, - 300),
    (1647154800, - 240), (1667714400, - 300), (1678604400, - 240), (1699164000, - 300),
    (1710054000, - 240), (1730613600, - 300), (1741503600, - 240), (1762063200, - 300),
    (1772953200, - 240), (1793512800, - 300), (1805007600, - 240), (1825567200, - 300),
    (1836457200, - 240), (1857016800, - 300), (1867906800, - 240), (1888466400, - 300),
    (1899356400, - 240), (1919916000, - 300), (1930806000, - 240), (1951365600, - 300),
    (1962860400, - 240), (1983420000, - 300), (1994310000, - 240), (2014869600, - 300),
    (2025759600, - 240), (2046319200, - 300), (2057209200, - 240), (2077768800, - 300),
    (2088658800, - 240), (2109218400, - 300), (2120108400, - 240), (2140668000, - 300),
    (2152162800, - 240), (2172722400, - 300), (2183612400, - 240), (2204172000, - 300),
    (2215062000, - 240), (2235621600, - 300), (2246511600, - 240), (2267071200, - 300),
    (2277961200, - 240), (2298520800, - 300), (2309410800, - 240), (2329970400, - 300),
    (2341465200, - 240), (2362024800, - 300), (2372914800, - 240), (2393474400, - 300),
    (2404364400, - 240), (2424924000, - 300), (2435814000, - 240), (2456373600, - 300),
    (2467263600, - 240), (2487823200, - 300), (2499318000, - 240), (2519877600, - 300),
    (2530767600, - 240), (2551327200, - 300), (2562217200, - 240), (2582776800, - 300),
    (2593666800, - 240), (2614226400, - 300), (2625116400, - 240), (2645676000, - 300),
    (2656566000, - 240), (2677125600, - 300), (2688620400, - 240), (2709180000, - 300),
    (2720070000, - 240), (2740629600, - 300), (2751519600, - 240), (2772079200, - 300),
    (2782969200, - 240), (2803528800, - 300), (2814418800, - 240), (2834978400, - 300),
    (2846473200, - 240), (2867032800, - 300)]"

definition zone_winnipeg :: zone_rules where
  "zone_winnipeg = [
    (946684800, - 360), (954662400, - 300), (972806400, - 360), (986112000, - 300), (1004256000, - 360),
    (1018166400, - 300), (1035705600, - 360), (1049616000, - 300), (1067155200, - 360),
    (1081065600, - 300), (1099209600, - 360), (1112515200, - 300), (1130659200, - 360),
    (1143964800, - 300), (1162105200, - 360), (1173600000, - 300), (1194159600, - 360),
    (1205049600, - 300), (1225609200, - 360), (1236499200, - 300), (1257058800, - 360),
    (1268553600, - 300), (1289113200, - 360), (1300003200, - 300), (1320562800, - 360),
    (1331452800, - 300), (1352012400, - 360), (1362902400, - 300), (1383462000, - 360),
    (1394352000, - 300), (1414911600, - 360), (1425801600, - 300), (1446361200, - 360),
    (1457856000, - 300), (1478415600, - 360), (1489305600, - 300), (1509865200, - 360),
    (1520755200, - 300), (1541314800, - 360), (1552204800, - 300), (1572764400, - 360),
    (1583654400, - 300), (1604214000, - 360), (1615708800, - 300), (1636268400, - 360),
    (1647158400, - 300), (1667718000, - 360), (1678608000, - 300), (1699167600, - 360),
    (1710057600, - 300), (1730617200, - 360), (1741507200, - 300), (1762066800, - 360),
    (1772956800, - 300)]"

definition zone_regina :: zone_rules where
  "zone_regina = [
    (946684800, - 360)]"

definition zone_edmonton :: zone_rules where
  "zone_edmonton = [
    (946684800, - 420), (954666000, - 360), (972806400, - 420), (986115600, - 360), (1004256000, - 420),
    (1018170000, - 360), (1035705600, - 420), (1049619600, - 360), (1067155200, - 420),
    (1081069200, - 360), (1099209600, - 420), (1112518800, - 360), (1130659200, - 420),
    (1143968400, - 360), (1162108800, - 420), (1173603600, - 360), (1194163200, - 420),
    (1205053200, - 360), (1225612800, - 420), (1236502800, - 360), (1257062400, - 420),
    (1268557200, - 360), (1289116800, - 420), (1300006800, - 360), (1320566400, - 420),
    (1331456400, - 360), (1352016000, - 420), (1362906000, - 360), (1383465600, - 420),
    (1394355600, - 360), (1414915200, - 420), (1425805200, - 360), (1446364800, - 420),
    (1457859600, - 360), (1478419200, - 420), (1489309200, - 360), (1509868800, - 420),
    (1520758800, - 360), (1541318400, - 420), (1552208400, - 360), (1572768000, - 420),
    (1583658000, - 360), (1604217600, - 420), (1615712400, - 360), (1636272000, - 420),
    (1647162000, - 360), (1667721600, - 420), (1678611600, - 360), (1699171200, - 420),
    (1710061200, - 360), (1730620800, - 420), (1741510800, - 360), (1762070400, - 420),
    (1772960400, - 360)]"

definition zone_whitehorse :: zone_rules where
  "zone_whitehorse = [
    (946684800, - 480), (954669600, - 420), (972810000, - 480), (986119200, - 420), (1004259600, - 480),
    (1018173600, - 420), (1035709200, - 480), (1049623200, - 420), (1067158800, - 480),
    (1081072800, - 420), (1099213200, - 480), (1112522400, - 420), (1130662800, - 480),
    (1143972000, - 420), (1162112400, - 480), (1173607200, - 420), (1194166800, - 480),
    (1205056800, - 420), (1225616400, - 480), (1236506400, - 420), (1257066000, - 480),
    (1268560800, - 420), (1289120400, - 480), (1300010400, - 420), (1320570000, - 480),
    (1331460000, - 420), (1352019600, - 480), (1362909600, - 420), (1383469200, - 480),
    (1394359200, - 420), (1414918800, - 480), (1425808800, - 420), (1446368400, - 480),
    (1457863200, - 420), (1478422800, - 480), (1489312800, - 420), (1509872400, - 480),
    (1520762400, - 420), (1541322000, - 480), (1552212000, - 420), (1572771600, - 480),
    (1583661600, - 420)]"

definition zone_vancouver :: zone_rules where
  "zone_vancouver = [
    (946684800, - 480), (954669600, - 420), (972810000, - 480), (986119200, - 420), (1004259600, - 480),
    (1018173600, - 420), (1035709200, - 480), (1049623200, - 420), (1067158800, - 480),
    (1081072800, - 420), (1099213200, - 480), (1112522400, - 420), (1130662800, - 480),
    (1143972000, - 420), (1162112400, - 480), (1173607200, - 420), (1194166800, - 480),
    (1205056800, - 420), (1225616400, - 480), (1236506400, - 420), (1257066000, - 480),
    (1268560800, - 420), (1289120400, - 480), (1300010400, - 420), (1320570000, - 480),
    (1331460000, - 420), (1352019600, - 480), (1362909600, - 420), (1383469200, - 480),
    (1394359200, - 420), (1414918800, - 480), (1425808800, - 420), (1446368400, - 480),
    (1457863200, - 420), (1478422800, - 480), (1489312800, - 420), (1509872400, - 480),
    (1520762400, - 420), (1541322000, - 480), (1552212000, - 420), (1572771600, - 480),
    (1583661600, - 420), (1604221200, - 480), (1615716000, - 420), (1636275600, - 480),
    (1647165600, - 420), (1667725200, - 480), (1678615200, - 420), (1699174800, - 480),
    (1710064800, - 420), (1730624400, - 480), (1741514400, - 420), (1762074000, - 480),
    (1772964000, - 420)]"

definition zone_creston :: zone_rules where
  "zone_creston = [
    (946684800, - 420)]"

definition zone_dawson_creek :: zone_rules where
  "zone_dawson_creek = [
    (946684800, - 420)]"

definition zone_fort_nelson :: zone_rules where
  "zone_fort_nelson = [
    (946684800, - 480), (954669600, - 420), (972810000, - 480), (986119200, - 420), (1004259600, - 480),
    (1018173600, - 420), (1035709200, - 480), (1049623200, - 420), (1067158800, - 480),
    (1081072800, - 420), (1099213200, - 480), (1112522400, - 420), (1130662800, - 480),
    (1143972000, - 420), (1162112400, - 480), (1173607200, - 420), (1194166800, - 480),
    (1205056800, - 420), (1225616400, - 480), (1236506400, - 420), (1257066000, - 480),
    (1268560800, - 420), (1289120400, - 480), (1300010400, - 420), (1320570000, - 480),
    (1331460000, - 420), (1352019600, - 480), (1362909600, - 420), (1383469200, - 480),
    (1394359200, - 420), (1414918800, - 480), (1425808800, - 420)]"

definition zone_atikokan :: zone_rules where
  "zone_atikokan = [
    (946684800, - 300)]"

definition zone_blanc_sablon :: zone_rules where
  "zone_blanc_sablon = [
    (946684800, - 240)]"

definition supported_zones :: "string list" where
  "supported_zones = [''America/St_Johns'',
    ''America/Halifax'',
    ''America/Toronto'',
    ''America/Winnipeg'',
    ''America/Regina'',
    ''America/Edmonton'',
    ''America/Whitehorse'',
    ''America/Vancouver'',
    ''America/Creston'',
    ''America/Dawson_Creek'',
    ''America/Fort_Nelson'',
    ''America/Atikokan'',
    ''America/Blanc-Sablon'']"

definition bundled_zones :: zone_table where
  "bundled_zones = \<lparr>zt_version = ''2026.5'', zt_zones = [
    (''America/St_Johns'', zone_st_johns),
    (''America/Halifax'', zone_halifax),
    (''America/Toronto'', zone_toronto),
    (''America/Winnipeg'', zone_winnipeg),
    (''America/Regina'', zone_regina),
    (''America/Edmonton'', zone_edmonton),
    (''America/Whitehorse'', zone_whitehorse),
    (''America/Vancouver'', zone_vancouver),
    (''America/Creston'', zone_creston),
    (''America/Dawson_Creek'', zone_dawson_creek),
    (''America/Fort_Nelson'', zone_fort_nelson),
    (''America/Atikokan'', zone_atikokan),
    (''America/Blanc-Sablon'', zone_blanc_sablon)]\<rparr>"

lemma zone_st_johns_ok: "rules_ok zone_st_johns"
  by code_simp

lemma zone_halifax_ok: "rules_ok zone_halifax"
  by code_simp

lemma zone_toronto_ok: "rules_ok zone_toronto"
  by code_simp

lemma zone_winnipeg_ok: "rules_ok zone_winnipeg"
  by code_simp

lemma zone_regina_ok: "rules_ok zone_regina"
  by code_simp

lemma zone_edmonton_ok: "rules_ok zone_edmonton"
  by code_simp

lemma zone_whitehorse_ok: "rules_ok zone_whitehorse"
  by code_simp

lemma zone_vancouver_ok: "rules_ok zone_vancouver"
  by code_simp

lemma zone_creston_ok: "rules_ok zone_creston"
  by code_simp

lemma zone_dawson_creek_ok: "rules_ok zone_dawson_creek"
  by code_simp

lemma zone_fort_nelson_ok: "rules_ok zone_fort_nelson"
  by code_simp

lemma zone_atikokan_ok: "rules_ok zone_atikokan"
  by code_simp

lemma zone_blanc_sablon_ok: "rules_ok zone_blanc_sablon"
  by code_simp

lemmas zones_ok = zone_st_johns_ok
  zone_halifax_ok
  zone_toronto_ok
  zone_winnipeg_ok
  zone_regina_ok
  zone_edmonton_ok
  zone_whitehorse_ok
  zone_vancouver_ok
  zone_creston_ok
  zone_dawson_creek_ok
  zone_fort_nelson_ok
  zone_atikokan_ok
  zone_blanc_sablon_ok

lemma bundled_zones_ok: "table_ok bundled_zones"
  unfolding table_ok_def bundled_zones_def by (simp add: zones_ok)

lemma bundled_table_zones: "table_zones bundled_zones = insert calendar_zone (set supported_zones)"
  by (simp add: table_zones_def bundled_zones_def supported_zones_def insert_commute)

interpretation bundled: midnight_clock "offset_at bundled_zones dev" "table_zones bundled_zones" for dev
  by (rule table_midnight_clock [OF bundled_zones_ok])

section \<open>What the calendar promises in the supported zones\<close>

text \<open>C10: in a supported zone the binary search finds the offset in force: that of the last rule that starts at
  or before the instant, and of the first rule for every instant before it.\<close>

theorem offset_at_rule_in_force:
  assumes "map_of (zt_zones bundled_zones) zone = Some rules" "zone \<noteq> calendar_zone"
  shows "\<exists>i<length rules. offset_at bundled_zones dev zone t = snd (rules ! i) * 60000
    \<and> (\<forall>j<length rules. 0 < j \<longrightarrow> (fst (rules ! j) * 1000 \<le> t \<longleftrightarrow> j \<le> i))"
proof -
  have "(zone, rules) \<in> set (zt_zones bundled_zones)" using assms(1) by (rule map_of_SomeD)
  then have so: "steps_ok rules" "rules \<noteq> []" using bundled_zones_ok by (auto simp: table_ok_def rules_ok_def)
  note srt = steps_ok_sorted [OF so(1)]
  obtain i where i: "rule_at rules t i" "rules_offset rules t = snd (rules ! i) * ms_per_min"
    using rules_offset_at [OF srt so(2)] by metis
  have "fst (rules ! j) * 1000 \<le> t \<longleftrightarrow> j \<le> i" if j: "j < length rules" "0 < j" for j
  proof
    assume "fst (rules ! j) * 1000 \<le> t"
    show "j \<le> i"
    proof (rule ccontr)
      assume "\<not> j \<le> i"
      then have "Suc i \<le> j" by simp
      then have "fst (rules ! Suc i) \<le> fst (rules ! j)"
        using rule_starts_mono [OF srt, of "Suc i" j] j by (cases "Suc i = j") auto
      moreover have "t < fst (rules ! Suc i) * 1000" using i(1) \<open>Suc i \<le> j\<close> j by (simp add: rule_at_def)
      ultimately show False using \<open>fst (rules ! j) * 1000 \<le> t\<close> by linarith
    qed
  next
    assume "j \<le> i"
    then have "fst (rules ! j) \<le> fst (rules ! i)"
      using rule_starts_mono [OF srt, of j i] i(1) by (cases "j = i") (auto simp: rule_at_def)
    moreover have "fst (rules ! i) * 1000 \<le> t" using i(1) \<open>j \<le> i\<close> j by (simp add: rule_at_def)
    ultimately show "fst (rules ! j) * 1000 \<le> t" by linarith
  qed
  moreover have "i < length rules" using i(1) by (simp add: rule_at_def)
  moreover have "offset_at bundled_zones dev zone t = snd (rules ! i) * 60000"
    using assms i(2) by (simp add: offset_at_def ms_per_min_def)
  ultimately show ?thesis by blast
qed

theorem offset_at_rule_in_force_witness:
  "\<exists>i<length zone_toronto. offset_at bundled_zones (\<lambda>_ _. (0, 0, 0, 0, 0)) ''America/Toronto'' 1791552600000 = snd (zone_toronto ! i) * 60000"
proof -
  have "map_of (zt_zones bundled_zones) ''America/Toronto'' = Some zone_toronto" by (simp add: bundled_zones_def)
  moreover have "''America/Toronto'' \<noteq> calendar_zone" by (simp add: calendar_zone_def)
  ultimately show ?thesis using offset_at_rule_in_force by blast
qed

text \<open>C11: in a supported zone (and for calendar days kept in UTC), the instant \<open>zonedDate\<close> computes from a
  date and a time shows exactly these fields again, provided the zone's clock shows them at all (a time
  skipped in spring is the only other case).\<close>

theorem zoned_date_reads_back:
  assumes "zone \<in> insert calendar_zone (set supported_zones)"
    "\<exists>s. s + offset_at bundled_zones dev zone s = date_utc y m d h mi"
    "valid_date y m d" "100 \<le> y" "0 \<le> h" "h < 24" "0 \<le> mi" "mi < 60"
  shows "wall_time (offset_at bundled_zones dev) (zoned_date (offset_at bundled_zones dev) y m d h mi zone) zone =
    \<lparr>wl_year = y, wl_month = m, wl_day = d, wl_hour = h, wl_minute = mi, wl_weekday = weekday_of (make_day y m d)\<rparr>"
proof -
  have "plain_year y" using assms(4) by (simp add: plain_year_def)
  with assms bundled.wall_time_zoned_date show ?thesis unfolding bundled_table_zones by blast
qed

theorem zoned_date_reads_back_witness:
  "wl_hour (wall_time (offset_at bundled_zones (\<lambda>_ _. (0, 0, 0, 0, 0)))
     (zoned_date (offset_at bundled_zones (\<lambda>_ _. (0, 0, 0, 0, 0))) 2026 7 27 9 30 ''America/St_Johns'') ''America/St_Johns'') = 9"
proof -
  have "1785153600000 + offset_at bundled_zones (\<lambda>_ _. (0, 0, 0, 0, 0)) ''America/St_Johns'' 1785153600000 = date_utc 2026 7 27 9 30"
    by code_simp
  moreover have "''America/St_Johns'' \<in> insert calendar_zone (set supported_zones)" "valid_date 2026 7 27" by code_simp+
  ultimately show ?thesis using zoned_date_reads_back by fastforce
qed

text \<open>A day's key parses back to the midnight that starts the day, in every supported zone and for every
  year that is written with four digits (no date of these zones lacks a midnight).\<close>

theorem date_key_roundtrip:
  assumes "zone \<in> insert calendar_zone (set supported_zones)"
    "1000 \<le> year_of (offset_at bundled_zones dev) d zone" "year_of (offset_at bundled_zones dev) d zone \<le> 9999"
  shows "parse_date_key (offset_at bundled_zones dev) (date_key (offset_at bundled_zones dev) d zone) zone
      = Some (start_of_day (offset_at bundled_zones dev) d zone)"
  using assms unfolding bundled_table_zones [symmetric] by (rule bundled.parse_date_key_date_key)

theorem date_key_roundtrip_witness:
  "parse_date_key (offset_at bundled_zones (\<lambda>_ _. (0, 0, 0, 0, 0)))
     (date_key (offset_at bundled_zones (\<lambda>_ _. (0, 0, 0, 0, 0))) 1785155400000 ''America/Halifax'') ''America/Halifax''
   = Some (start_of_day (offset_at bundled_zones (\<lambda>_ _. (0, 0, 0, 0, 0))) 1785155400000 ''America/Halifax'')"
proof (rule date_key_roundtrip)
  show "''America/Halifax'' \<in> insert calendar_zone (set supported_zones)" by code_simp
  show "1000 \<le> year_of (offset_at bundled_zones (\<lambda>_ _. (0, 0, 0, 0, 0))) 1785155400000 ''America/Halifax''"
    "year_of (offset_at bundled_zones (\<lambda>_ _. (0, 0, 0, 0, 0))) 1785155400000 ''America/Halifax'' \<le> 9999" by code_simp+
qed

text \<open>Adding days counts calendar days, across every change of the clock: \<open>addDays(d, n)\<close> is a midnight of
  the zone and \<open>daysUntil\<close> finds it exactly \<open>n\<close> days after \<open>d\<close>.\<close>

theorem add_days_counts_calendar_days:
  assumes "zone \<in> insert calendar_zone (set supported_zones)"
    "100 \<le> year_of (offset_at bundled_zones dev) d zone"
    "100 \<le> year_of (offset_at bundled_zones dev) (add_days (offset_at bundled_zones dev) d n zone) zone"
  shows "days_until (offset_at bundled_zones dev) (add_days (offset_at bundled_zones dev) d n zone) zone d = Some n
    \<and> clock_key (offset_at bundled_zones dev) (add_days (offset_at bundled_zones dev) d n zone) zone = ''00:00''"
proof
  have zone: "zone \<in> table_zones bundled_zones" using assms(1) by (simp add: bundled_table_zones)
  have plain: "plain_year (year_of (offset_at bundled_zones dev) d zone)" using assms(2) by (simp add: plain_year_def)
  show "days_until (offset_at bundled_zones dev) (add_days (offset_at bundled_zones dev) d n zone) zone d = Some n"
    using assms(2,3) by (intro bundled.add_days_until [OF zone plain]) auto
  have "utc_hours (k * ms_per_day) = 0" "utc_minutes (k * ms_per_day) = 0" for k
    by (simp_all add: utc_hours_def utc_minutes_def ms_per_day_def)
  moreover have "pad2 0 = ''00''" by code_simp
  ultimately show "clock_key (offset_at bundled_zones dev) (add_days (offset_at bundled_zones dev) d n zone) zone = ''00:00''"
    using bundled.add_days_midnight [OF zone plain, of n]
    by (simp add: clock_key_def wall_time_def Let_def split: prod.split)
qed

theorem add_days_counts_calendar_days_witness:
  "days_until (offset_at bundled_zones (\<lambda>_ _. (0, 0, 0, 0, 0)))
     (add_days (offset_at bundled_zones (\<lambda>_ _. (0, 0, 0, 0, 0))) 1772900000000 3 ''America/Toronto'') ''America/Toronto'' 1772900000000 = Some 3"
proof (rule add_days_counts_calendar_days [THEN conjunct1])
  show "''America/Toronto'' \<in> insert calendar_zone (set supported_zones)" by code_simp
  show "100 \<le> year_of (offset_at bundled_zones (\<lambda>_ _. (0, 0, 0, 0, 0))) 1772900000000 ''America/Toronto''"
    "100 \<le> year_of (offset_at bundled_zones (\<lambda>_ _. (0, 0, 0, 0, 0)))
      (add_days (offset_at bundled_zones (\<lambda>_ _. (0, 0, 0, 0, 0))) 1772900000000 3 ''America/Toronto'') ''America/Toronto''" by code_simp+
qed

text \<open>The month grid is six full weeks of consecutive days from a Monday, and its cells flagged as in the
  month are exactly the days 1 to the last of the month, each once and in order.\<close>

theorem month_weeks_grid:
  assumes "zone \<in> insert calendar_zone (set supported_zones)"
    "100 < year_of (offset_at bundled_zones dev) month zone"
    "weeks = month_weeks (offset_at bundled_zones dev) full_date month selected mn mx zone now"
    "w = wall_time (offset_at bundled_zones dev) month zone"
  shows "map length weeks = [7, 7, 7, 7, 7, 7]
    \<and> (\<exists>F. weekday_of F = 1 \<and> map cd_key (concat weeks) = map (\<lambda>k. key_of_day (F + k)) [0..41])
    \<and> map cd_day (filter cd_in_month (concat weeks)) = [1..month_length (wl_year w) (wl_month w)]"
proof -
  have "length [0..6 :: int] = 7" "[0..5 :: int] = [0, 1, 2, 3, 4, 5]" by code_simp+
  then have "map length weeks = [7, 7, 7, 7, 7, 7]"
    by (simp add: assms(3) month_weeks_def Let_def)
  moreover obtain F where "weekday_of F = 1" "map cd_key (concat weeks) = map (\<lambda>k. key_of_day (F + k)) [0..41]"
    "map cd_day (filter cd_in_month (concat weeks)) = [1..month_length (wl_year w) (wl_month w)]"
    using bundled.month_grid [OF _ assms(2), OF assms(1) [folded bundled_table_zones] refl] unfolding assms(3,4) by blast
  ultimately show ?thesis by blast
qed

theorem month_weeks_grid_witness:
  "map cd_day (filter cd_in_month (concat (month_weeks (offset_at bundled_zones (\<lambda>_ _. (0, 0, 0, 0, 0))) (\<lambda>_ _. [])
     1772900000000 [] None None ''America/Toronto'' 0))) = [1..31]"
proof -
  have "''America/Toronto'' \<in> insert calendar_zone (set supported_zones)"
    "100 < year_of (offset_at bundled_zones (\<lambda>_ _. (0, 0, 0, 0, 0))) 1772900000000 ''America/Toronto''"
    "(\<lambda>w. month_length (wl_year w) (wl_month w)) (wall_time (offset_at bundled_zones (\<lambda>_ _. (0, 0, 0, 0, 0))) 1772900000000 ''America/Toronto'') = 31"
    by code_simp+
  with month_weeks_grid [OF this(1,2) refl refl] show ?thesis by simp
qed

end
