(* ===== verification/Attempts.thy ===== *)
theory Attempts
  imports Prelude
begin

text \<open>
  How the apps talk to the server (\<open>packages/app-core/src/api.ts\<close>) and run their actions
  (\<open>useAsyncAction\<close> in \<open>hooks.ts\<close>): reading a refused request, the one idempotency key a write attempt
  keeps across its retries, and the single action a screen has in flight.

  A thrown value is a \<^typ>\<open>json\<close> value (the fields the code reads of an \<open>Error\<close>); a request is compared
  by its JSON text in the code and as a value here. Captions are keys of the string catalogue.
\<close>

section \<open>Refused requests\<close>

definition failure_field :: "json \<Rightarrow> string \<Rightarrow> json" where
  "failure_field e name = (case json_member name e of Some v \<Rightarrow> v | None \<Rightarrow> J_Null)"

definition failed_status :: "json \<Rightarrow> rat option" where
  "failed_status e = (case failure_field e ''status'' of J_Num n \<Rightarrow> Some n | _ \<Rightarrow> None)"

definition failed_code :: "json \<Rightarrow> string option" where
  "failed_code e = (case failure_field e ''code'' of J_Str s \<Rightarrow> Some s | _ \<Rightarrow> None)"

definition failed_detail :: "json \<Rightarrow> (string \<times> json) list" where
  "failed_detail e = (case failure_field e ''detail'' of J_Obj ms \<Rightarrow> ms | _ \<Rightarrow> [])"

text \<open>\<open>loc.slice(1).join(".")\<close>; how other values than texts and whole numbers print is a parameter.\<close>

fun path_text :: "(json \<Rightarrow> string) \<Rightarrow> json \<Rightarrow> string" where
  "path_text other (J_Str s) = s"
| "path_text other (J_Num n) = (if of_int \<lfloor>n\<rfloor> = n then int_string \<lfloor>n\<rfloor> else other (J_Num n))"
| "path_text other J_Null = []"
| "path_text other v = other v"

fun join_with :: "string \<Rightarrow> string list \<Rightarrow> string" where
  "join_with sep [] = []"
| "join_with sep [s] = s"
| "join_with sep (s # t # ss) = s @ sep @ join_with sep (t # ss)"

definition failed_fields :: "(json \<Rightarrow> string) \<Rightarrow> json \<Rightarrow> string list" where
  "failed_fields other e =
    (if failed_code e \<noteq> Some ''invalid_request'' then []
     else case failure_field e ''detail'' of
       J_Arr entries \<Rightarrow> concat (map (\<lambda>entry. case failure_field entry ''loc'' of
           J_Arr (J_Str s # rest) \<Rightarrow> if s = ''body'' then [join_with ''.'' (map (path_text other) rest)] else []
         | _ \<Rightarrow> []) entries)
     | _ \<Rightarrow> [])"

text \<open>A refused public request: the code and detail of its body, \<open>None\<close> when reading it fails.\<close>

definition refusal :: "int \<Rightarrow> json option \<Rightarrow> json" where
  "refusal status body =
    (let code = (case Option.bind body (json_member ''error'') of Some (J_Str s) \<Rightarrow> J_Str s | _ \<Rightarrow> J_Null);
         detail = (case Option.bind body (json_member ''detail'') of Some v \<Rightarrow> v | None \<Rightarrow> J_Null)
     in J_Obj [(''status'', J_Num (of_int status)), (''code'', code), (''detail'', detail)])"

definition detail_count :: "(string \<times> json) list \<Rightarrow> rat" where
  "detail_count d = (case json_member ''count'' (J_Obj d) of Some (J_Num n) \<Rightarrow> n | _ \<Rightarrow> 0)"

text \<open>The failures the server names, with their captions; \<open>addon_length_in_use\<close> also shows a count.\<close>

definition failures :: "(string \<times> string) list" where
  "failures = [
    (''invalid_timezone'', ''invalidTimezone''), (''out_of_stock'', ''outOfStock''),
    (''pickup_window_taken'', ''pickupWindowTaken''), (''shop_not_ready'', ''shopNotReady''),
    (''mixed_currencies'', ''mixedCurrencies''), (''slot_unavailable'', ''slotUnavailable''),
    (''phone_taken'', ''phoneTaken''), (''client_archived'', ''clientArchived''),
    (''class_seat'', ''classSeat''), (''class_move'', ''classMove''),
    (''recurrence_too_long'', ''recurrenceTooLong''), (''idempotency_key_reused'', ''idempotencyKeyReused''),
    (''concurrent_change'', ''concurrentChange''), (''earning_moved'', ''earningMoved''),
    (''pay_negative'', ''payNegative''), (''own_pay'', ''ownPay''),
    (''visit_not_started'', ''visitNotStarted''), (''estimate_booked'', ''estimateBooked''),
    (''estimate_on_visit'', ''estimateOnVisit''), (''estimate_changed'', ''estimateChanged''),
    (''invoice_changed'', ''invoiceChanged''), (''deposit_not_due'', ''depositNotDue''),
    (''deposit_in_progress'', ''depositInProgress''), (''payment_in_progress'', ''paymentInProgress''),
    (''payment_method_in_use'', ''paymentMethodInUse''),
    (''bank_setup_in_progress'', ''bankSetupInProgress''), (''texts_stopped'', ''textsStopped''),
    (''pad_link_used'', ''padLinkUsed''), (''pad_unavailable'', ''padUnavailable''),
    (''payment_method_not_chargeable'', ''paymentMethodNotChargeable''),
    (''membership_visits_used'', ''membershipVisitsUsed''), (''card_declined'', ''cardDeclined''),
    (''payment_action_required'', ''paymentActionRequired''), (''checkout_paid'', ''checkoutPaid''),
    (''card_payments_unavailable'', ''cardPaymentsUnavailable''),
    (''card_payments_off'', ''cardPaymentsOff''), (''staff_has_future_work'', ''staffHasFutureWork''),
    (''broadcast_address_missing'', ''broadcastAddressMissing''),
    (''broadcast_contact_missing'', ''broadcastContactMissing''), (''no_mobile_number'', ''noMobileNumber''),
    (''business_address_incomplete'', ''businessAddressIncomplete''),
    (''postal_code_province_mismatch'', ''postalCodeProvinceMismatch''),
    (''province_locked'', ''provinceLocked''), (''plan_required'', ''planRequired''),
    (''seat_limit'', ''seatLimit''), (''plan_active'', ''planActive''),
    (''plan_not_managed'', ''planNotManaged''), (''business_unavailable'', ''businessUnavailable''),
    (''review_recently_requested'', ''reviewRecentlyRequested''), (''slug_invalid'', ''slugInvalid''),
    (''slug_reserved'', ''slugReserved''), (''slug_taken'', ''slugTaken''),
    (''visit_not_billed'', ''visitNotBilled''), (''service_not_offered'', ''serviceNotOffered''),
    (''visit_no_room'', ''visitNoRoom''), (''crew_busy'', ''crewBusy''),
    (''resource_busy'', ''resourceBusy''), (''no_resource'', ''noResource''),
    (''resource_not_in_pool'', ''resourceNotInPool''), (''resource_name_taken'', ''resourceNameTaken''),
    (''crew_member'', ''crewMember''), (''crew_block'', ''crewBlock''), (''visit_started'', ''visitStarted''),
    (''package_other_subject'', ''packageOtherSubject''), (''visit_unpaid'', ''visitUnpaid''),
    (''program_full'', ''programFull''), (''already_enrolled'', ''alreadyEnrolled''),
    (''program_enrol'', ''programEnrol''), (''program_first_day'', ''programFirstDay''),
    (''program_enrolled'', ''programEnrolled''), (''program_closed'', ''programClosed''),
    (''program_over'', ''programOver''), (''program_days'', ''programDays''),
    (''schedule_conflict'', ''scheduleConflict''), (''schedule_past'', ''schedulePast''),
    (''class_schedule'', ''classSchedule''), (''addon_length_in_use'', ''addonLengthInUse''),
    (''enrolment_paid'', ''enrolmentPaid''), (''payment_disputed'', ''paymentDisputed''),
    (''amount_too_small'', ''amountTooSmall''), (''idempotency_mismatch'', ''idempotencyMismatch''),
    (''payment_provider_error'', ''paymentProviderError''),
    (''unsupported_currency'', ''unsupportedCurrency''), (''sku_taken'', ''skuTaken''),
    (''invoice_has_payments'', ''invoiceHasPayments''), (''file_type_unsupported'', ''fileTypeUnsupported''),
    (''file_too_large'', ''fileTooLarge'')]"

datatype message = Caption string | Counted string rat | Fallback string

definition failure_message :: "json \<Rightarrow> string \<Rightarrow> message" where
  "failure_message e fallback =
    (case failed_code e of
       None \<Rightarrow> Fallback fallback
     | Some code \<Rightarrow>
        (case map_of failures code of
           None \<Rightarrow> Fallback fallback
         | Some key \<Rightarrow> if code = ''addon_length_in_use'' then Counted key (detail_count (failed_detail e)) else Caption key))"

section \<open>Write attempts\<close>

record 'r attempt =
  at_key :: string
  at_request :: 'r

text \<open>The attempt's key and the reference afterwards; \<open>fresh\<close> is the identifier \<open>randomUUID\<close> would draw.\<close>

definition attempt_key :: "string \<Rightarrow> 'r attempt option \<Rightarrow> 'r \<Rightarrow> string \<times> 'r attempt option" where
  "attempt_key fresh ref request =
    (case ref of
       Some a \<Rightarrow> if at_request a = request then (at_key a, Some a)
                 else (fresh, Some \<lparr>at_key = fresh, at_request = request\<rparr>)
     | None \<Rightarrow> (fresh, Some \<lparr>at_key = fresh, at_request = request\<rparr>))"

text \<open>\<open>sendAttempt\<close>: the answer, the reference afterwards, and the keys sent, in order.\<close>

definition send_attempt ::
  "string \<Rightarrow> string \<Rightarrow> 'r attempt option \<Rightarrow> 'r \<Rightarrow> (string \<Rightarrow> json + 'a) \<Rightarrow> (json + 'a) \<times> 'r attempt option \<times> string list" where
  "send_attempt fresh1 fresh2 ref request send =
    (let (key, ref1) = attempt_key fresh1 ref request
     in case send key of
          Inr out \<Rightarrow> (Inr out, ref1, [key])
        | Inl e \<Rightarrow>
            if failed_code e \<noteq> Some ''idempotency_key_reused'' then (Inl e, ref1, [key])
            else let (key2, ref2) = attempt_key fresh2 None request in (send key2, ref2, [key, key2]))"

section \<open>One action at a time\<close>

record async_action =
  aa_running :: bool
  aa_busy :: bool
  aa_error :: "string option"

definition idle_action :: async_action where
  "idle_action = \<lparr>aa_running = False, aa_busy = False, aa_error = None\<rparr>"

text \<open>Starting an action: \<open>None\<close> when one is running and this one is ignored.\<close>

definition action_start :: "async_action \<Rightarrow> async_action option" where
  "action_start s = (if aa_running s then None else Some \<lparr>aa_running = True, aa_busy = True, aa_error = None\<rparr>)"

text \<open>Its end: the failure's message, or \<open>None\<close> when it succeeded.\<close>

definition action_end :: "string option \<Rightarrow> async_action \<Rightarrow> async_action" where
  "action_end failure s =
    (s\<lparr>aa_running := False, aa_busy := False, aa_error := (case failure of None \<Rightarrow> aa_error s | Some m \<Rightarrow> Some m)\<rparr>)"

definition action_set_error :: "string option \<Rightarrow> async_action \<Rightarrow> async_action" where
  "action_set_error m s = s\<lparr>aa_error := m\<rparr>"

section \<open>Keys identify requests\<close>

text \<open>
  A screen's attempt reference over time: a request is sent (with a fresh identifier at hand), or the
  reference is cleared because the attempt ended or its content was edited. The log holds what went
  out, newest first.
\<close>

record 'r attempt_log =
  al_ref :: "'r attempt option"
  al_sent :: "(string \<times> 'r) list"

definition attempt_initial :: "'r attempt_log \<Rightarrow> bool" where
  "attempt_initial s \<longleftrightarrow> al_ref s = None \<and> al_sent s = []"

inductive attempt_step :: "'r attempt_log \<Rightarrow> 'r attempt_log \<Rightarrow> bool" where
  attempt_send: "fresh \<notin> fst ` set (al_sent s) \<Longrightarrow> attempt_key fresh (al_ref s) request = (key, ref) \<Longrightarrow>
    attempt_step s (s\<lparr>al_ref := ref, al_sent := (key, request) # al_sent s\<rparr>)"
| attempt_clear: "attempt_step s (s\<lparr>al_ref := None\<rparr>)"

definition attempt_inv :: "'r attempt_log \<Rightarrow> bool" where
  "attempt_inv s \<longleftrightarrow> (\<forall>k r r'. (k, r) \<in> set (al_sent s) \<and> (k, r') \<in> set (al_sent s) \<longrightarrow> r = r')
    \<and> (\<forall>a. al_ref s = Some a \<longrightarrow> (at_key a, at_request a) \<in> set (al_sent s))"

lemma attempt_key_cases:
  assumes "attempt_key fresh ref request = (key, ref')"
  obtains (again) a where "ref = Some a" "at_request a = request" "key = at_key a" "ref' = ref"
  | (fresh) "key = fresh" "ref' = Some \<lparr>at_key = fresh, at_request = request\<rparr>"
  using assms by (auto simp: attempt_key_def split: option.splits if_splits)

lemma attempt_step_inv: "attempt_step s t \<Longrightarrow> attempt_inv s \<Longrightarrow> attempt_inv t"
proof (induction rule: attempt_step.induct)
  case (attempt_send fresh s request key ref)
  from attempt_send(2) show ?case
  proof (cases rule: attempt_key_cases)
    case (again a)
    with attempt_send(3) show ?thesis by (auto simp: attempt_inv_def)
  next
    case fresh
    with attempt_send(1,3) show ?thesis by (force simp: attempt_inv_def)
  qed
qed (simp add: attempt_inv_def)

interpretation attempts: inductive_invariant attempt_initial attempt_step attempt_inv
proof unfold_locales
  show "attempt_initial s \<Longrightarrow> attempt_inv s" for s :: "'r attempt_log"
    by (simp add: attempt_initial_def attempt_inv_def)
qed (rule attempt_step_inv)

text \<open>An idempotency key stands for one request. Whatever a screen sends, retries, edits or abandons, two
  requests that went out under the same key are the same request.\<close>

theorem key_names_one_request:
  assumes "reach attempt_initial attempt_step s" "(k, r) \<in> set (al_sent s)" "(k, r') \<in> set (al_sent s)"
  shows "r = r'"
  using attempts.reach_inv [OF assms(1)] assms(2,3) unfolding attempt_inv_def by blast

theorem key_names_one_request_witness:
  "let s = \<lparr>al_ref = Some \<lparr>at_key = ''k'', at_request = 1\<rparr>, al_sent = [(''k'', 1 :: nat), (''k'', 1)]\<rparr>
   in reach attempt_initial attempt_step s \<and> snd (hd (al_sent s)) = snd (last (al_sent s))"
proof -
  let ?s0 = "\<lparr>al_ref = None, al_sent = []\<rparr> :: nat attempt_log"
  let ?s1 = "\<lparr>al_ref = Some \<lparr>at_key = ''k'', at_request = 1\<rparr>, al_sent = [(''k'', 1 :: nat)]\<rparr>"
  let ?s2 = "\<lparr>al_ref = Some \<lparr>at_key = ''k'', at_request = 1\<rparr>, al_sent = [(''k'', 1 :: nat), (''k'', 1)]\<rparr>"
  have s1: "attempt_step ?s0 ?s1" using attempt_send [of "''k''" ?s0 1] by (simp add: attempt_key_def)
  have s2: "attempt_step ?s1 ?s2" using attempt_send [of "''j''" ?s1 1] by (simp add: attempt_key_def)
  have r0: "reach attempt_initial attempt_step ?s0" by (rule reach.intros(1)) (simp add: attempt_initial_def)
  have r: "reach attempt_initial attempt_step ?s2" by (rule reach.intros(2), rule reach.intros(2), rule r0, rule s1, rule s2)
  have "snd (hd (al_sent ?s2)) = snd (last (al_sent ?s2))"
    by (rule key_names_one_request [OF r, of "''k''"]) simp_all
  with r show ?thesis unfolding Let_def by blast
qed

text \<open>Sending an attempt reaches the server once, or twice when the server refused the first key as used for
  another request; the answer is the last one's, and the reference keeps the key that was sent last with the
  request, so that a later retry repeats it.\<close>

theorem send_attempt_outcome:
  "let (answer, ref', sent) = send_attempt f1 f2 ref request send
   in sent \<noteq> [] \<and> length sent \<le> 2 \<and> answer = send (last sent)
     \<and> ref' = Some \<lparr>at_key = last sent, at_request = request\<rparr>
     \<and> (length sent = 2 \<longleftrightarrow> (\<exists>e. send (hd sent) = Inl e \<and> failed_code e = Some ''idempotency_key_reused''))
     \<and> fst (attempt_key f3 ref' request) = last sent"
proof -
  obtain k r where k: "attempt_key f1 ref request = (k, r)" by fastforce
  then have "r = Some \<lparr>at_key = k, at_request = request\<rparr>" by (cases rule: attempt_key_cases) auto
  moreover have again: "attempt_key f (Some \<lparr>at_key = i, at_request = request\<rparr>) request = (i, Some \<lparr>at_key = i, at_request = request\<rparr>)"
    for f i by (simp add: attempt_key_def)
  moreover have fresh: "attempt_key f2 None request = (f2, Some \<lparr>at_key = f2, at_request = request\<rparr>)"
    by (simp add: attempt_key_def)
  ultimately show ?thesis
    by (cases "send k") (simp_all add: send_attempt_def k)
qed

end
