(* ===== verification/Checkout.thy ===== *)
theory Checkout
  imports Attempts
begin

text \<open>
  Charging a payment method (\<open>useCheckout\<close> in \<open>app-core/src/domain/checkout.ts\<close>): the chosen method,
  the idempotency key of the attempt, and what each answer does to them. The charge itself is a request
  of the caller; its answer comes back as an argument of \<open>pay_end\<close>.
\<close>

definition new_card :: string where "new_card = []"

record 'r checkout =
  co_chosen :: "string option"
  co_secret :: "string option"
  co_key :: "(string \<times> 'r) attempt option"
  co_action :: async_action

definition blank_checkout :: "'r checkout" where
  "blank_checkout = \<lparr>co_chosen = None, co_secret = None, co_key = None, co_action = idle_action\<rparr>"

text \<open>\<open>chosen ?? defaultMethod ?? NEW_CARD\<close>.\<close>

definition checkout_method :: "string option \<Rightarrow> 'r checkout \<Rightarrow> string" where
  "checkout_method dflt s =
    (case co_chosen s of Some m \<Rightarrow> m | None \<Rightarrow> (case dflt of Some m \<Rightarrow> m | None \<Rightarrow> new_card))"

definition checkout_reset :: "'r checkout \<Rightarrow> 'r checkout" where
  "checkout_reset s = s\<lparr>co_key := None, co_secret := None, co_action := action_set_error None (co_action s)\<rparr>"

text \<open>Finishing also forgets the chosen method; the caller's \<open>onDone\<close> runs after it.\<close>

definition checkout_finish :: "'r checkout \<Rightarrow> 'r checkout" where
  "checkout_finish s = (checkout_reset s)\<lparr>co_chosen := None\<rparr>"

definition checkout_set_method :: "string \<Rightarrow> 'r checkout \<Rightarrow> 'r checkout" where
  "checkout_set_method m s = s\<lparr>co_key := None, co_chosen := Some m\<rparr>"

text \<open>What goes out: a saved method, or a new card, under the attempt's key.\<close>

record charge_request =
  cg_method :: "string option"
  cg_key :: string

text \<open>The start of a payment: the key is fixed before the action, which is ignored while one runs.\<close>

definition pay_begin ::
  "string \<Rightarrow> bool \<Rightarrow> string \<Rightarrow> string option \<Rightarrow> 'r \<Rightarrow> 'r checkout \<Rightarrow> 'r checkout \<times> charge_request option" where
  [step_defs]: "pay_begin fresh allow_new choose_saved dflt request s =
    (let method = checkout_method dflt s
     in if method = new_card \<and> \<not> allow_new then (s\<lparr>co_action := action_set_error (Some choose_saved) (co_action s)\<rparr>, None)
        else let (key, ref) = attempt_key fresh (co_key s) (method, request); s1 = s\<lparr>co_key := ref\<rparr>
             in case action_start (co_action s) of
                  None \<Rightarrow> (s1, None)
                | Some a \<Rightarrow> (s1\<lparr>co_action := a\<rparr>,
                    Some \<lparr>cg_method = (if method = new_card then None else Some method), cg_key = key\<rparr>))"

text \<open>\<open>paymentErrorMessage\<close>: a server without payment keys answers 503.\<close>

definition payment_error_message :: "json \<Rightarrow> string \<Rightarrow> message" where
  "payment_error_message e fallback =
    (if failed_status e = Some 503 then Caption ''notConfigured'' else failure_message e fallback)"

text \<open>The answer: a refusal, or the charge with the secret of a card still to confirm. The flag says
  whether \<open>onDone\<close> runs. \<open>method\<close> is the one the payment started with.\<close>

definition pay_end ::
  "(message \<Rightarrow> string) \<Rightarrow> string \<Rightarrow> string \<Rightarrow> (json + string option) \<Rightarrow> 'r checkout \<Rightarrow> 'r checkout \<times> bool" where
  [step_defs]: "pay_end word method error_message answer s =
    (let ended = (\<lambda>s. s\<lparr>co_action := action_end None (co_action s)\<rparr>)
     in case answer of
          Inl e \<Rightarrow>
            (let s1 = (if failed_status e = Some 402 then s\<lparr>co_key := None\<rparr> else s)
             in (ended (s1\<lparr>co_action := action_set_error (Some (word (payment_error_message e error_message))) (co_action s1)\<rparr>), False))
        | Inr (Some secret) \<Rightarrow>
            if method = new_card then (ended (s\<lparr>co_secret := Some secret\<rparr>), False)
            else (ended (checkout_finish s), True)
        | Inr None \<Rightarrow> (ended (checkout_finish s), True))"

section \<open>Retrying a charge\<close>

lemma attempt_key_again: "attempt_key f1 ref r = (k, ref') \<Longrightarrow> attempt_key f2 ref' r = (k, ref')"
  by (erule attempt_key_cases) (auto simp: attempt_key_def)

text \<open>C13: a charge that failed for any reason but a declined card, and so may have gone through, is sent
  again under the same idempotency key and with the same method when the same payment is retried; after a
  declined card the next attempt draws a new key.\<close>

theorem charge_retry_keeps_key:
  assumes "pay_begin f1 allow msg dflt request s = (s1, Some sent)"
    "pay_end word (case cg_method sent of None \<Rightarrow> new_card | Some m \<Rightarrow> m) err (Inl e) s1 = (s2, done)"
    "pay_begin f2 allow msg dflt request s2 = (s3, again)"
  shows "\<not> done \<and> (if failed_status e = Some 402
      then again = Some (sent\<lparr>cg_key := f2\<rparr>) else again = Some sent)"
proof -
  let ?m = "checkout_method dflt s"
  have a: "\<not> (?m = new_card \<and> \<not> allow)" using assms(1) by (auto simp: pay_begin_def Let_def split: if_splits)
  obtain key ref where k: "attempt_key f1 (co_key s) (?m, request) = (key, ref)" by (cases "attempt_key f1 (co_key s) (?m, request)")
  from assms(1) a k obtain act where s1: "s1 = s\<lparr>co_key := ref, co_action := act\<rparr>"
    and sent: "sent = \<lparr>cg_method = (if ?m = new_card then None else Some ?m), cg_key = key\<rparr>"
    by (auto simp: pay_begin_def Let_def split: option.splits)
  have m2: "checkout_method dflt s2 = ?m" and idle: "\<not> aa_running (co_action s2)" and nd: "\<not> done"
    and key2: "co_key s2 = (if failed_status e = Some 402 then None else ref)"
    using assms(2)
    by (cases "failed_status e = Some 402"; auto simp: pay_end_def Let_def s1 checkout_method_def action_end_def split: option.splits)+
  then obtain a2 where a2: "action_start (co_action s2) = Some a2" by (simp add: action_start_def)
  show ?thesis
  proof (cases "failed_status e = Some 402")
    case True
    then have "attempt_key f2 (co_key s2) (?m, request) = (f2, Some \<lparr>at_key = f2, at_request = (?m, request)\<rparr>)"
      by (simp add: key2 attempt_key_def)
    with assms(3) a a2 m2 nd True show ?thesis by (auto simp: pay_begin_def Let_def sent)
  next
    case False
    then have "attempt_key f2 (co_key s2) (?m, request) = (key, ref)" using attempt_key_again [OF k] by (simp add: key2)
    with assms(3) a a2 m2 nd False show ?thesis by (auto simp: pay_begin_def Let_def sent)
  qed
qed

theorem charge_retry_keeps_key_witness:
  "snd (pay_begin ''k2'' True [] (Some ''pm_1'') (7 :: nat)
     (fst (pay_end (\<lambda>_. []) ''pm_1'' [] (Inl (J_Obj [(''status'', J_Num 500)]))
       (fst (pay_begin ''k1'' True [] (Some ''pm_1'') 7 blank_checkout)))))
   = Some \<lparr>cg_method = Some ''pm_1'', cg_key = ''k1''\<rparr>"
proof -
  have b: "pay_begin ''k1'' True [] (Some ''pm_1'') (7 :: nat) blank_checkout
      = (fst (pay_begin ''k1'' True [] (Some ''pm_1'') 7 blank_checkout), Some \<lparr>cg_method = Some ''pm_1'', cg_key = ''k1''\<rparr>)"
    by (simp add: pay_begin_def checkout_method_def blank_checkout_def new_card_def attempt_key_def
        action_start_def idle_action_def Let_def)
  have "failed_status (J_Obj [(''status'', J_Num 500)]) = Some 500"
    by (simp add: failed_status_def failure_field_def)
  moreover have "pay_end (\<lambda>_. []) ''pm_1'' [] (Inl (J_Obj [(''status'', J_Num 500)]))
       (fst (pay_begin ''k1'' True [] (Some ''pm_1'') (7 :: nat) blank_checkout))
     = (fst (pay_end (\<lambda>_. []) ''pm_1'' [] (Inl (J_Obj [(''status'', J_Num 500)]))
       (fst (pay_begin ''k1'' True [] (Some ''pm_1'') 7 blank_checkout))), False)"
    by (simp add: pay_end_def Let_def)
  moreover obtain s3 again where "pay_begin ''k2'' True [] (Some ''pm_1'') (7 :: nat)
     (fst (pay_end (\<lambda>_. []) ''pm_1'' [] (Inl (J_Obj [(''status'', J_Num 500)]))
       (fst (pay_begin ''k1'' True [] (Some ''pm_1'') 7 blank_checkout)))) = (s3, again)" by fastforce
  ultimately show ?thesis
    using charge_retry_keeps_key [OF b, of "\<lambda>_. []" "[]" "J_Obj [(''status'', J_Num 500)]"] by simp
qed

end
