(* ===== verification/Register.thy ===== *)
theory Register
  imports Sale Checkout
begin

text \<open>
  The register (\<open>useSale\<close> in \<open>app-core/src/domain/pos.ts\<close>): the ticket under construction, what saving,
  charging, holding, resuming and invoicing it send to the server, and what the answers do to it.

  The hook's state variables and references are the fields of \<open>ticket\<close>; what it reads from synced queries
  and its caller is \<open>register_env\<close>. An action that sends a request is split where the code awaits: its
  start yields the request, and the answer is the argument of the next function; values that the code's
  closures captured at the start travel in a plan. The identifier a key would draw is the argument
  \<open>fresh\<close>. Captions are keys of the string catalogue.
\<close>

section \<open>Orders and tickets\<close>

record order_line =
  ol_id :: string
  ol_description :: string
  ol_quantity :: rat
  ol_unit :: int
  ol_item :: "string option"
  ol_booking :: "string option"
  ol_tax_class :: string
  ol_staff :: "string option"
  ol_discount :: "sale_discount option"

record order_out =
  oo_id :: string
  oo_number :: "int option"
  oo_client :: "string option"
  oo_status :: string
  oo_total :: int
  oo_subtotal :: int
  oo_tax_total :: int
  oo_deposit :: int
  oo_gift_card :: int
  oo_due :: int
  oo_discount_cents :: int
  oo_note :: "string option"
  oo_discount :: "sale_discount option"
  oo_lines :: "order_line list"

record cash_result =
  cr_payment :: string
  cr_amount :: int
  cr_tip :: int
  cr_change :: int

record body_line =
  bl_description :: string
  bl_quantity :: rat
  bl_unit :: int
  bl_item :: "string option"
  bl_booking :: "string option"
  bl_tax_class :: item_tax_class
  bl_staff :: "string option"
  bl_discount :: "sale_discount option"

record sale_body =
  sb_client :: "string option"
  sb_discount :: "sale_discount option"
  sb_note :: "string option"
  sb_lines :: "body_line list"

definition body_line_of :: "sale_line \<Rightarrow> body_line" where
  "body_line_of l = \<lparr>bl_description = sl_description l, bl_quantity = sl_quantity l, bl_unit = sl_unit l,
     bl_item = sl_item l, bl_booking = sl_booking l, bl_tax_class = as_tax_class (Some (sl_tax_class l)),
     bl_staff = sl_staff l, bl_discount = sl_discount l\<rparr>"

definition sale_body_of :: "string option \<Rightarrow> sale_line list \<Rightarrow> sale_discount option \<Rightarrow> string option \<Rightarrow> sale_body" where
  "sale_body_of client lines disc note =
    \<lparr>sb_client = client, sb_discount = disc, sb_note = note, sb_lines = map body_line_of lines\<rparr>"

text \<open>The tip's part of a payment: the cents, and their split when there is one.\<close>

definition tip_body :: "int \<Rightarrow> tip_share list \<Rightarrow> int \<times> (string \<times> int) list option" where
  "tip_body cents shares =
    (cents, if cents > 0 \<and> shares \<noteq> [] then Some (map (\<lambda>s. (ts_staff s, ts_cents s)) shares) else None)"

type_synonym tip_part = "int \<times> (string \<times> int) list option"

datatype sale_phase = Cart | Pay | Paid
datatype pay_method = Tap | Saved_Card | Card | Cash
datatype receipt_outcome = Texted | Skipped

record ticket =
  tk_seq :: nat \<comment> \<open>\<open>saleSeq\<close>, the module's counter behind \<open>nextKey\<close>\<close>
  tk_lines :: "sale_line list"
  tk_client :: "string option"
  tk_client_chosen :: bool
  tk_sale_discount :: "sale_discount option"
  tk_tip :: tip_choice
  tk_deposits :: "(string, int) js_map"
  tk_phase :: sale_phase
  tk_chosen :: "pay_method option"
  tk_cash :: string
  tk_tip_mode :: tip_split_mode
  tk_tip_to :: "string option"
  tk_order :: "order_out option"
  tk_terminal :: "(string \<times> string) option"
  tk_paid :: int
  tk_change :: "int option"
  tk_held :: "string option"
  tk_sent :: "receipt_outcome option"
  tk_gift_code :: string
  tk_gift_cents :: int
  tk_gift_paid :: bool
  tk_invoiced :: "string option"
  tk_phone :: string
  tk_key :: "(string option \<times> sale_body) attempt option"
  tk_payment :: "(string \<times> pay_method \<times> tip_part \<times> int option) attempt option"
  tk_gift_attempt :: "(string \<times> string) attempt option"
  tk_invoice :: "sale_body attempt option"
  tk_saved :: "(sale_body \<times> order_out) option"
  tk_action :: async_action
  tk_gift_action :: async_action
  tk_receipt_action :: async_action
  tk_checkout :: "(string \<times> tip_part) checkout"

text \<open>What the hook reads: the tax setup, the staff rows, the client's membership and saved card, the platform,
  and the words and amounts \<open>Intl\<close> writes and reads.\<close>

record register_env =
  re_rates :: "doc_rate list"
  re_registered :: bool
  re_rates_ready :: bool
  re_staff :: "sale_staff_row list"
  re_member_bps :: "int option"
  re_saved_card :: "string option"
  re_web :: bool
  re_viewer :: "string option"
  re_can_manage :: bool
  re_client_phone :: "string option"
  re_parse_cents :: "string \<Rightarrow> int option"
  re_rate_label :: "string \<Rightarrow> rat \<Rightarrow> string"
  re_caption :: "string \<Rightarrow> string"
  re_number :: "int option \<Rightarrow> string"
  re_word :: "message \<Rightarrow> string"

section \<open>What the ticket shows\<close>

definition deposit_cents :: "ticket \<Rightarrow> int" where
  "deposit_cents s = sum_list (map snd (tk_deposits s))"

definition ticket_priced :: "register_env \<Rightarrow> ticket \<Rightarrow> priced_sale" where
  "ticket_priced env s = price_sale (re_rate_label env) (tk_lines s) (tk_sale_discount s) (re_rates env)
     (re_registered env) (tk_tip s) (deposit_cents s) (tk_gift_cents s)"

definition ticket_totals :: "register_env \<Rightarrow> ticket \<Rightarrow> sale_totals" where
  "ticket_totals env s = ps_totals (ticket_priced env s)"

definition pay_method_of :: "register_env \<Rightarrow> ticket \<Rightarrow> pay_method" where
  "pay_method_of env s = (case tk_chosen s of Some m \<Rightarrow> m
     | None \<Rightarrow> if re_saved_card env \<noteq> None then Saved_Card else if re_web env then Card else Tap)"

definition ticket_cash :: "register_env \<Rightarrow> ticket \<Rightarrow> int option" where
  "ticket_cash env s = re_parse_cents env (tk_cash s)"

definition ticket_served :: "register_env \<Rightarrow> ticket \<Rightarrow> string list" where
  "ticket_served env s = js_unique (List.map_filter (\<lambda>l. sl_staff (pr_line l)) (ps_lines (ticket_priced env s)))"

definition ticket_tip_to :: "register_env \<Rightarrow> ticket \<Rightarrow> string option" where
  "ticket_tip_to env s = (case tk_tip_to s of Some i \<Rightarrow> Some i
     | None \<Rightarrow> (case ticket_served env s of i # _ \<Rightarrow> Some i | [] \<Rightarrow> re_viewer env))"

definition ticket_shares :: "register_env \<Rightarrow> ticket \<Rightarrow> tip_share list" where
  "ticket_shares env s = tip_shares (re_caption env) (ps_lines (ticket_priced env s))
     (st_tip (ticket_totals env s)) (tk_tip_mode s) (ticket_tip_to env s) (re_staff env)"

definition change_cents :: "register_env \<Rightarrow> ticket \<Rightarrow> int option" where
  "change_cents env s = map_option (\<lambda>cash. cash - st_due (ticket_totals env s)) (ticket_cash env s)"

definition can_charge :: "register_env \<Rightarrow> ticket \<Rightarrow> bool" where
  "can_charge env s \<longleftrightarrow> tk_lines s \<noteq> [] \<and> re_rates_ready env"

definition can_invoice :: "register_env \<Rightarrow> ticket \<Rightarrow> bool" where
  "can_invoice env s \<longleftrightarrow> re_can_manage env \<and> tk_client s \<noteq> None \<and> tk_lines s \<noteq> [] \<and> tk_gift_cents s = 0"

definition has_visit :: "string \<Rightarrow> ticket \<Rightarrow> bool" where
  "has_visit booking s \<longleftrightarrow> (\<exists>l\<in>set (tk_lines s). sl_booking l = Some booking)"

definition first_visit :: "ticket \<Rightarrow> string option" where
  "first_visit s = Option.bind (find (\<lambda>l. sl_booking l \<noteq> None) (tk_lines s)) sl_booking"

definition register_busy :: "ticket \<Rightarrow> bool" where
  "register_busy s \<longleftrightarrow> aa_busy (tk_action s) \<or> aa_busy (co_action (tk_checkout s)) \<or> aa_busy (tk_gift_action s)"

section \<open>Editing the ticket\<close>

definition set_error :: "string option \<Rightarrow> ticket \<Rightarrow> ticket" where
  "set_error m s = s\<lparr>tk_action := action_set_error m (tk_action s)\<rparr>"

definition edit_lines :: "(sale_line list \<Rightarrow> sale_line list) \<Rightarrow> ticket \<Rightarrow> ticket" where
  "edit_lines f s = (set_error None s)\<lparr>tk_key := None, tk_invoiced := None, tk_lines := f (tk_lines s)\<rparr>"

definition ticket_reset :: "ticket \<Rightarrow> ticket" where
  "ticket_reset s = (set_error None s)\<lparr>tk_key := None, tk_payment := None, tk_saved := None, tk_lines := [],
     tk_client := None, tk_sale_discount := None, tk_tip := Tip_None, tk_deposits := [], tk_gift_code := [],
     tk_gift_cents := 0, tk_gift_paid := False, tk_invoiced := None, tk_gift_attempt := None,
     tk_gift_action := action_set_error None (tk_gift_action s), tk_phase := Cart, tk_chosen := None,
     tk_cash := [], tk_tip_to := None, tk_tip_mode := By_Service, tk_order := None, tk_terminal := None,
     tk_sent := None, tk_phone := [], tk_paid := 0, tk_change := None\<rparr>"

definition line_key :: "nat \<Rightarrow> string" where
  "line_key n = ''sl'' @ int_string (int n)"

record item_row =
  ir_id :: string
  ir_kind :: string
  ir_name :: string
  ir_price :: "int option"
  ir_tax_class :: string
  ir_color :: "string option"
  ir_image :: "string option"

definition line_from_item :: "nat \<Rightarrow> item_row \<Rightarrow> sale_line" where
  "line_from_item n item = \<lparr>sl_key = line_key n, sl_item = Some (ir_id item), sl_kind = ir_kind item,
     sl_description = ir_name item, sl_unit = (case ir_price item of Some p \<Rightarrow> p | None \<Rightarrow> 0), sl_quantity = 1,
     sl_tax_class = ir_tax_class item, sl_staff = None, sl_booking = None, sl_color = ir_color item,
     sl_image = ir_image item, sl_discount = None\<rparr>"

text \<open>The member's discount follows a client chosen at this register.\<close>

definition follow_member :: "register_env \<Rightarrow> ticket \<Rightarrow> ticket" where
  "follow_member env s =
    (if tk_client_chosen s
     then s\<lparr>tk_lines := map (\<lambda>l. l\<lparr>sl_discount := with_member_discount (sl_discount l) (sl_kind l = ''product'')
            (re_member_bps env)\<rparr>) (tk_lines s)\<rparr>
     else s)"

definition set_client :: "string option \<Rightarrow> ticket \<Rightarrow> ticket" where
  "set_client i s = s\<lparr>tk_key := None, tk_invoiced := None, tk_client_chosen := True, tk_client := i, tk_chosen := None\<rparr>"

definition add_item :: "register_env \<Rightarrow> item_row \<Rightarrow> ticket \<Rightarrow> ticket" where
  [step_defs]: "add_item env item s =
    (let n = tk_seq s + 1; line = line_from_item n item;
         fresh = line\<lparr>sl_discount := with_member_discount None (ir_kind item = ''product'') (re_member_bps env)\<rparr>
     in (edit_lines (\<lambda>ls.
          case find (\<lambda>l. sl_item l = Some (ir_id item) \<and> sl_booking l = None \<and> sl_discount l = sl_discount fresh) ls of
            Some same \<Rightarrow>
              if ir_kind item = ''product''
              then map (\<lambda>l. if sl_key l = sl_key same then l\<lparr>sl_quantity := sl_quantity l + 1\<rparr> else l) ls
              else ls @ [fresh]
          | None \<Rightarrow> ls @ [fresh]) s)\<lparr>tk_seq := n\<rparr>)"

record checkout_visit =
  vi_booking :: string
  vi_client :: string
  vi_deposit :: int
  vi_line :: sale_line

definition add_visit :: "checkout_visit \<Rightarrow> ticket \<Rightarrow> ticket" where
  [step_defs]: "add_visit v s =
    (if has_visit (vi_booking v) s then s
     else
      let s1 = edit_lines (\<lambda>ls. ls @ [vi_line v]) s;
          s2 = (if tk_client s = None then s1\<lparr>tk_client_chosen := True, tk_client := Some (vi_client v)\<rparr> else s1)
      in if vi_deposit v > 0 then s2\<lparr>tk_deposits := AList.update (vi_booking v) (vi_deposit v) (tk_deposits s2)\<rparr> else s2)"

definition set_quantity :: "string \<Rightarrow> rat \<Rightarrow> ticket \<Rightarrow> ticket" where
  [step_defs]: "set_quantity key quantity = edit_lines (\<lambda>ls.
    if quantity \<le> 0 then filter (\<lambda>l. sl_key l \<noteq> key) ls
    else map (\<lambda>l. if sl_key l = key then l\<lparr>sl_quantity := quantity\<rparr> else l) ls)"

definition remove_line :: "string \<Rightarrow> ticket \<Rightarrow> ticket" where
  [step_defs]: "remove_line key s =
    (let gone = find (\<lambda>l. sl_key l = key) (tk_lines s); s1 = edit_lines (filter (\<lambda>l. sl_key l \<noteq> key)) s
     in case Option.bind gone sl_booking of
          None \<Rightarrow> s1
        | Some booking \<Rightarrow> s1\<lparr>tk_deposits := filter (\<lambda>(k, _). k \<noteq> booking) (tk_deposits s1)\<rparr>)"

definition set_line_staff :: "string \<Rightarrow> string option \<Rightarrow> ticket \<Rightarrow> ticket" where
  "set_line_staff key staff = edit_lines (map (\<lambda>l. if sl_key l = key then l\<lparr>sl_staff := staff\<rparr> else l))"

definition set_line_discount :: "string \<Rightarrow> sale_discount option \<Rightarrow> ticket \<Rightarrow> ticket" where
  "set_line_discount key disc = edit_lines (map (\<lambda>l. if sl_key l = key then l\<lparr>sl_discount := disc\<rparr> else l))"

definition set_sale_discount :: "sale_discount option \<Rightarrow> ticket \<Rightarrow> ticket" where
  "set_sale_discount disc s = (set_error None s)\<lparr>tk_key := None, tk_sale_discount := disc\<rparr>"

definition set_tip :: "tip_choice \<Rightarrow> ticket \<Rightarrow> ticket" where
  "set_tip tip s = s\<lparr>tk_key := None, tk_tip := tip\<rparr>"

definition set_phase :: "sale_phase \<Rightarrow> ticket \<Rightarrow> ticket" where
  "set_phase p s = (set_error None s)\<lparr>tk_phase := p\<rparr>"

definition set_method :: "register_env \<Rightarrow> pay_method \<Rightarrow> ticket \<Rightarrow> ticket" where
  "set_method env m s =
    (let s1 = (set_error None s)\<lparr>tk_key := None, tk_chosen := Some m\<rparr>
     in case (m, re_saved_card env) of
          (Card, _) \<Rightarrow> s1\<lparr>tk_checkout := checkout_set_method new_card (tk_checkout s1)\<rparr>
        | (Saved_Card, Some i) \<Rightarrow> s1\<lparr>tk_checkout := checkout_set_method i (tk_checkout s1)\<rparr>
        | _ \<Rightarrow> s1)"

definition set_cash_given :: "string \<Rightarrow> ticket \<Rightarrow> ticket" where
  "set_cash_given v s = (set_error None s)\<lparr>tk_cash := v\<rparr>"

definition clear_ticket :: "ticket \<Rightarrow> ticket" where
  "clear_ticket s = (edit_lines (\<lambda>_. []) s)\<lparr>tk_deposits := [], tk_sale_discount := None\<rparr>"

definition new_sale :: "ticket \<Rightarrow> ticket" where
  "new_sale s = (ticket_reset s)\<lparr>tk_held := None\<rparr>"

definition mark_paid :: "ticket \<Rightarrow> ticket" where
  "mark_paid s = s\<lparr>tk_key := None, tk_phase := Paid\<rparr>"

section \<open>Saving the sale\<close>

text \<open>Saving: the order of the last save when the body is the same, else a request to create or to change
  the order (only a creation carries the attempt's key; the key is drawn in both cases).\<close>

datatype save_request =
    Already_Saved order_out
  | Create_Order sale_body string
  | Change_Order string sale_body

definition saved_as :: "sale_body \<Rightarrow> ticket \<Rightarrow> order_out option" where
  "saved_as body s = (case tk_saved s of Some (b, out) \<Rightarrow> if b = body then Some out else None | None \<Rightarrow> None)"

definition save_begin :: "string \<Rightarrow> string option \<Rightarrow> ticket \<Rightarrow> ticket \<times> save_request" where
  [step_defs]: "save_begin fresh note s =
    (let body = sale_body_of (tk_client s) (tk_lines s) (tk_sale_discount s) note
     in case saved_as body s of
          Some out \<Rightarrow> (s, Already_Saved out)
        | None \<Rightarrow>
            (let (key, ref) = attempt_key fresh (tk_key s) (map_option oo_id (tk_order s), body)
             in (s\<lparr>tk_key := ref\<rparr>,
                 case tk_order s of None \<Rightarrow> Create_Order body key | Some prev \<Rightarrow> Change_Order (oo_id prev) body)))"

text \<open>The answer to the request for a body.\<close>

definition save_end :: "sale_body \<Rightarrow> order_out \<Rightarrow> ticket \<Rightarrow> ticket" where
  [step_defs]: "save_end body out s = s\<lparr>tk_saved := Some (body, out), tk_order := Some out, tk_gift_cents := oo_gift_card out\<rparr>"

section \<open>Charging\<close>

record charge_plan =
  cp_use :: pay_method
  cp_tip :: tip_part
  cp_tip_cents :: int
  cp_cash :: "int option"

datatype charge_start = Refused ticket | Ignored ticket | Charging ticket charge_plan save_request

definition charge_begin :: "register_env \<Rightarrow> string \<Rightarrow> pay_method option \<Rightarrow> ticket \<Rightarrow> charge_start" where
  [step_defs]: "charge_begin env fresh m s0 =
    (let use = (case m of Some u \<Rightarrow> u | None \<Rightarrow> pay_method_of env s0);
         s = (case m of Some u \<Rightarrow> s0\<lparr>tk_chosen := Some u\<rparr> | None \<Rightarrow> s0);
         t = ticket_totals env s0; cash = ticket_cash env s0
     in if tk_lines s = [] then Refused (set_error (Some (re_caption env ''addItemFirst'')) s)
        else if use = Cash \<and> (case cash of None \<Rightarrow> True | Some c \<Rightarrow> c < st_due t)
        then Refused (set_error (Some (re_caption env ''cashShort'')) s)
        else case action_start (tk_action s) of
               None \<Rightarrow> Ignored s
             | Some a \<Rightarrow>
                 (let (s1, req) = save_begin fresh None (s\<lparr>tk_action := a\<rparr>)
                  in Charging s1 \<lparr>cp_use = use, cp_tip = tip_body (st_tip t) (ticket_shares env s0),
                       cp_tip_cents = st_tip t, cp_cash = cash\<rparr> req))"

text \<open>The payment request once the sale is saved as \<open>out\<close>. A card goes through the checkout.\<close>

datatype payment_request =
    Pay_Cash string tip_part int string
  | Pay_Tap string tip_part string
  | Pay_Card string tip_part "charge_request option"

definition payment_begin ::
  "register_env \<Rightarrow> string \<Rightarrow> charge_plan \<Rightarrow> order_out \<Rightarrow> ticket \<Rightarrow> ticket \<times> payment_request" where
  [step_defs]: "payment_begin env fresh plan out s =
    (let (key, ref) = attempt_key fresh (tk_payment s) (oo_id out, cp_use plan, cp_tip plan, cp_cash plan);
         amount = oo_due out + cp_tip_cents plan
     in if cp_use plan = Cash then
          (s\<lparr>tk_payment := ref\<rparr>, Pay_Cash (oo_id out) (cp_tip plan) (case cp_cash plan of Some c \<Rightarrow> c | None \<Rightarrow> 0) key)
        else if cp_use plan = Tap then (s\<lparr>tk_payment := ref\<rparr>, Pay_Tap (oo_id out) (cp_tip plan) key)
        else
          (let (co, sent) = pay_begin fresh True (re_caption env ''chooseSavedMethod'')
                 (Some (case re_saved_card env of Some i \<Rightarrow> i | None \<Rightarrow> new_card)) (oo_id out, cp_tip plan) (tk_checkout s)
           in (s\<lparr>tk_paid := amount, tk_checkout := co, tk_action := action_end None (tk_action s)\<rparr>, Pay_Card (oo_id out) (cp_tip plan) sent)))"

definition action_done :: "ticket \<Rightarrow> ticket" where
  "action_done s = s\<lparr>tk_action := action_end None (tk_action s)\<rparr>"

definition action_failed :: "register_env \<Rightarrow> json \<Rightarrow> string \<Rightarrow> ticket \<Rightarrow> ticket" where
  "action_failed env e fallback s =
    s\<lparr>tk_action := action_end (Some (re_word env (failure_message e (re_caption env fallback)))) (tk_action s)\<rparr>"

definition cash_answer :: "cash_result \<Rightarrow> ticket \<Rightarrow> ticket" where
  [step_defs]: "cash_answer out s = action_done (mark_paid (s\<lparr>tk_paid := cr_amount out, tk_change := Some (cr_change out)\<rparr>))"

definition tap_answer :: "charge_plan \<Rightarrow> order_out \<Rightarrow> string \<Rightarrow> ticket \<Rightarrow> ticket" where
  [step_defs]: "tap_answer plan out secret s =
    action_done (s\<lparr>tk_paid := oo_due out + cp_tip_cents plan, tk_terminal := Some (oo_id out, secret)\<rparr>)"

definition card_answer :: "register_env \<Rightarrow> string \<Rightarrow> (json + string option) \<Rightarrow> ticket \<Rightarrow> ticket" where
  [step_defs]: "card_answer env method answer s =
    (let (co, done) = pay_end (re_word env) method (re_caption env ''payError'') answer (tk_checkout s);
         s1 = s\<lparr>tk_checkout := co\<rparr>
     in if done then mark_paid s1 else s1)"

text \<open>Stopping an unfinished card or Tap to Pay charge.\<close>

definition close_checkout :: "ticket \<Rightarrow> ticket" where
  "close_checkout s = s\<lparr>tk_payment := None, tk_checkout := checkout_reset (tk_checkout s), tk_terminal := None, tk_paid := 0\<rparr>"

definition cancel_begin :: "ticket \<Rightarrow> ticket \<times> string option" where
  [step_defs]: "cancel_begin s =
    (case (case tk_terminal s of Some (i, _) \<Rightarrow> Some i | None \<Rightarrow> map_option oo_id (tk_order s)) of
       None \<Rightarrow> (close_checkout s, None)
     | Some i \<Rightarrow> (case action_start (tk_action s) of
           None \<Rightarrow> (s, None) | Some a \<Rightarrow> (s\<lparr>tk_action := a\<rparr>, Some i)))"

definition cancel_end :: "register_env \<Rightarrow> json option \<Rightarrow> ticket \<Rightarrow> ticket" where
  [step_defs]: "cancel_end env failure s =
    (case failure of
       None \<Rightarrow> action_done (close_checkout s)
     | Some e \<Rightarrow>
        (let m = re_word env (failure_message e (re_caption env ''cancelCheckoutError''));
             co = tk_checkout s
         in action_failed env e ''cancelCheckoutError''
              (s\<lparr>tk_checkout := co\<lparr>co_action := action_set_error (Some m) (co_action co)\<rparr>\<rparr>)))"

section \<open>Gift cards\<close>

definition set_gift_code :: "string \<Rightarrow> ticket \<Rightarrow> ticket" where
  "set_gift_code v s = s\<lparr>tk_gift_action := action_set_error None (tk_gift_action s), tk_gift_code := v\<rparr>"

definition gift_begin :: "register_env \<Rightarrow> string \<Rightarrow> ticket \<Rightarrow> ticket \<times> (string \<times> save_request) option" where
  [step_defs]: "gift_begin env fresh s =
    (let code = js_trim (tk_gift_code s)
     in if code = [] \<or> tk_lines s = [] \<or> aa_busy (tk_action s) \<or> aa_busy (co_action (tk_checkout s)) then (s, None)
        else if st_tip (ticket_totals env s) > 0
        then (s\<lparr>tk_gift_action := action_set_error (Some (re_caption env ''giftCardBeforeTip'')) (tk_gift_action s)\<rparr>, None)
        else case action_start (tk_gift_action s) of
               None \<Rightarrow> (s, None)
             | Some a \<Rightarrow> (let (s1, req) = save_begin fresh None (s\<lparr>tk_gift_action := a\<rparr>) in (s1, Some (code, req))))"

definition gift_request :: "string \<Rightarrow> string \<Rightarrow> order_out \<Rightarrow> ticket \<Rightarrow> ticket \<times> string" where
  [step_defs]: "gift_request fresh code out s =
    (let (key, ref) = attempt_key fresh (tk_gift_attempt s) (oo_id out, code) in (s\<lparr>tk_gift_attempt := ref\<rparr>, key))"

definition gift_end :: "order_out \<Rightarrow> ticket \<Rightarrow> ticket" where
  [step_defs]: "gift_end out s =
    (let s1 = s\<lparr>tk_saved := map_option (\<lambda>(b, _). (b, out)) (tk_saved s), tk_order := Some out,
           tk_gift_cents := oo_gift_card out, tk_gift_code := []\<rparr>;
         s2 = (if oo_status out = ''paid''
               then mark_paid (s1\<lparr>tk_gift_paid := True, tk_paid := oo_gift_card out, tk_chosen := None\<rparr>) else s1)
     in s2\<lparr>tk_gift_action := action_end None (tk_gift_action s2)\<rparr>)"

section \<open>Holding, resuming, invoicing\<close>

definition hold_begin :: "string \<Rightarrow> string option \<Rightarrow> ticket \<Rightarrow> ticket \<times> save_request option" where
  [step_defs]: "hold_begin fresh note s =
    (if tk_lines s = [] then (s, None)
     else case action_start (tk_action s) of
            None \<Rightarrow> (s, None)
          | Some a \<Rightarrow> (let (s1, req) = save_begin fresh note (s\<lparr>tk_action := a\<rparr>) in (s1, Some req)))"

definition hold_end :: "register_env \<Rightarrow> order_out \<Rightarrow> ticket \<Rightarrow> ticket" where
  [step_defs]: "hold_end env out s = action_done ((ticket_reset s)\<lparr>tk_held := Some (re_number env (oo_number out))\<rparr>)"

definition resumed_line :: "item_row list \<Rightarrow> nat \<Rightarrow> order_line \<Rightarrow> sale_line" where
  "resumed_line items n l =
    (let item = find (\<lambda>i. Some (ir_id i) = ol_item l) items
     in \<lparr>sl_key = line_key n, sl_item = ol_item l, sl_kind = (case item of Some i \<Rightarrow> ir_kind i | None \<Rightarrow> ''service''),
         sl_description = ol_description l, sl_unit = ol_unit l, sl_quantity = ol_quantity l,
         sl_tax_class = ol_tax_class l, sl_staff = ol_staff l, sl_booking = ol_booking l,
         sl_color = Option.bind item ir_color, sl_image = Option.bind item ir_image, sl_discount = ol_discount l\<rparr>)"

definition resume :: "order_out \<Rightarrow> item_row list \<Rightarrow> ticket \<Rightarrow> ticket" where
  [step_defs]: "resume out items s =
    (let n = tk_seq s; s1 = ticket_reset s
     in s1\<lparr>tk_order := Some out, tk_client := oo_client out, tk_sale_discount := oo_discount out,
           tk_lines := map2 (\<lambda>i l. resumed_line items (n + i) l) [1..<length (oo_lines out) + 1] (oo_lines out),
           tk_seq := n + length (oo_lines out),
           tk_deposits := (if oo_deposit out > 0 then [(oo_id out, oo_deposit out)] else tk_deposits s1),
           tk_gift_cents := oo_gift_card out, tk_phase := Pay\<rparr>)"

text \<open>Invoicing, after the review: an order already saved is voided first.\<close>

definition invoice_begin :: "ticket \<Rightarrow> (ticket \<times> sale_body \<times> string option) option" where
  [step_defs]: "invoice_begin s =
    (if tk_client s = None \<or> tk_lines s = [] then None
     else case action_start (tk_action s) of
            None \<Rightarrow> None
          | Some a \<Rightarrow> Some (s\<lparr>tk_action := a\<rparr>, sale_body_of (tk_client s) (tk_lines s) (tk_sale_discount s) None,
              map_option oo_id (tk_order s)))"

definition invoice_voided :: "ticket \<Rightarrow> ticket" where
  "invoice_voided s = s\<lparr>tk_order := None, tk_saved := None, tk_key := None\<rparr>"

definition invoice_request :: "string \<Rightarrow> sale_body \<Rightarrow> ticket \<Rightarrow> ticket \<times> string" where
  [step_defs]: "invoice_request fresh body s =
    (let (key, ref) = attempt_key fresh (tk_invoice s) body in (s\<lparr>tk_invoice := ref\<rparr>, key))"

definition invoice_end :: "string \<Rightarrow> ticket \<Rightarrow> ticket" where
  [step_defs]: "invoice_end notice s = action_done ((ticket_reset s)\<lparr>tk_invoice := None, tk_invoiced := Some notice\<rparr>)"

section \<open>The receipt\<close>

definition digits_of :: "string \<Rightarrow> string" where
  "digits_of s = filter (\<lambda>c. 48 \<le> (of_char c :: nat) \<and> (of_char c :: nat) \<le> 57) s"

text \<open>\<open>phoneDigits\<close>: the ten local digits of a North American number, else all digits.\<close>

definition phone_digits :: "string option \<Rightarrow> string" where
  "phone_digits v = (let d = digits_of (case v of Some s \<Rightarrow> s | None \<Rightarrow> [])
     in if length d = 11 \<and> hd d = CHR ''1'' then tl d else d)"

definition receipt_begin :: "register_env \<Rightarrow> ticket \<Rightarrow> ticket \<times> (string \<times> string) option" where
  [step_defs]: "receipt_begin env s =
    (case tk_order s of
       None \<Rightarrow> (s\<lparr>tk_sent := Some Skipped\<rparr>, None)
     | Some prev \<Rightarrow>
        (let to = (if tk_phone s \<noteq> [] then tk_phone s else case re_client_phone env of Some p \<Rightarrow> p | None \<Rightarrow> [])
         in if length (phone_digits (Some to)) < 10
            then (s\<lparr>tk_receipt_action := action_set_error (Some (re_caption env ''receiptPhoneInvalid'')) (tk_receipt_action s)\<rparr>, None)
            else case action_start (tk_receipt_action s) of
                   None \<Rightarrow> (s, None)
                 | Some a \<Rightarrow> (s\<lparr>tk_receipt_action := a\<rparr>, Some (oo_id prev, js_trim to))))"

definition receipt_end :: "register_env \<Rightarrow> bool \<Rightarrow> ticket \<Rightarrow> ticket" where
  [step_defs]: "receipt_end env ok s =
    (if ok then s\<lparr>tk_receipt_action := action_end None (tk_receipt_action s), tk_sent := Some Texted\<rparr>
     else s\<lparr>tk_receipt_action := action_end (Some (re_caption env ''receiptError'')) (tk_receipt_action s)\<rparr>)"

section \<open>The ticket over time\<close>

text \<open>
  The steps of one register. A visit offered to it was built by \<open>checkoutVisit\<close>: its line is for that
  booking and carries a key drawn from the same counter, not on the ticket. A resumed order lists a
  booking once. The other steps leave the lines alone or empty them.
\<close>

definition blank_ticket :: ticket where
  "blank_ticket = \<lparr>tk_seq = 0, tk_lines = [], tk_client = None, tk_client_chosen = False, tk_sale_discount = None,
     tk_tip = Tip_None, tk_deposits = [], tk_phase = Cart, tk_chosen = None, tk_cash = [], tk_tip_mode = By_Service,
     tk_tip_to = None, tk_order = None, tk_terminal = None, tk_paid = 0, tk_change = None, tk_held = None,
     tk_sent = None, tk_gift_code = [], tk_gift_cents = 0, tk_gift_paid = False, tk_invoiced = None, tk_phone = [],
     tk_key = None, tk_payment = None, tk_gift_attempt = None, tk_invoice = None, tk_saved = None,
     tk_action = idle_action, tk_gift_action = idle_action, tk_receipt_action = idle_action,
     tk_checkout = blank_checkout\<rparr>"

definition bookings_of :: "sale_line list \<Rightarrow> string list" where
  "bookings_of ls = List.map_filter sl_booking ls"

inductive register_step :: "ticket \<Rightarrow> ticket \<Rightarrow> bool" where
  reg_item: "register_step s (add_item env item s)"
| reg_draw: "register_step s (s\<lparr>tk_seq := tk_seq s + 1\<rparr>)" \<comment> \<open>a visit line is built\<close>
| reg_visit: "sl_booking (vi_line v) = Some (vi_booking v) \<Longrightarrow> sl_key (vi_line v) = line_key n \<Longrightarrow> n \<le> tk_seq s \<Longrightarrow>
    sl_key (vi_line v) \<notin> sl_key ` set (tk_lines s) \<Longrightarrow> register_step s (add_visit v s)"
| reg_quantity: "register_step s (set_quantity key q s)"
| reg_remove: "register_step s (remove_line key s)"
| reg_staff: "register_step s (set_line_staff key staff s)"
| reg_line_discount: "register_step s (set_line_discount key disc s)"
| reg_member: "register_step s (follow_member env s)"
| reg_client: "register_step s (set_client i s)"
| reg_sale_discount: "register_step s (set_sale_discount disc s)"
| reg_tip: "register_step s (set_tip tip s)"
| reg_phase: "register_step s (set_phase p s)"
| reg_method: "register_step s (set_method env m s)"
| reg_cash: "register_step s (set_cash_given v s)"
| reg_clear: "register_step s (clear_ticket s)"
| reg_new: "register_step s (new_sale s)"
| reg_save: "register_step s (save_end body out s)"
| reg_charge: "charge_begin env fresh m s = Charging t plan req \<Longrightarrow> register_step s t"
| reg_refused: "charge_begin env fresh m s = Refused t \<Longrightarrow> register_step s t"
| reg_payment: "payment_begin env fresh plan out s = (t, req) \<Longrightarrow> register_step s t"
| reg_cash_answer: "register_step s (cash_answer r s)"
| reg_tap_answer: "register_step s (tap_answer plan out secret s)"
| reg_card_answer: "register_step s (card_answer env method answer s)"
| reg_failed: "register_step s (action_failed env e fallback s)"
| reg_cancel: "cancel_begin s = (t, req) \<Longrightarrow> register_step s t"
| reg_cancel_end: "register_step s (cancel_end env failure s)"
| reg_gift: "gift_begin env fresh s = (t, req) \<Longrightarrow> register_step s t"
| reg_gift_end: "register_step s (gift_end out s)"
| reg_hold: "hold_begin fresh note s = (t, req) \<Longrightarrow> register_step s t"
| reg_hold_end: "register_step s (hold_end env out s)"
| reg_resume: "distinct (List.map_filter ol_booking (oo_lines out)) \<Longrightarrow> register_step s (resume out items s)"
| reg_invoice_voided: "register_step s (invoice_voided s)"
| reg_invoice_end: "register_step s (invoice_end notice s)"

definition key_drawn :: "nat \<Rightarrow> string \<Rightarrow> bool" where
  "key_drawn n k \<longleftrightarrow> (\<exists>m\<le>n. k = line_key m)"

lemma key_drawn_mono: "key_drawn m k \<Longrightarrow> m \<le> n \<Longrightarrow> key_drawn n k"
  by (auto simp: key_drawn_def intro: order_trans)

definition ticket_ok :: "ticket \<Rightarrow> bool" where
  "ticket_ok s \<longleftrightarrow> distinct (map sl_key (tk_lines s)) \<and> distinct (bookings_of (tk_lines s))
    \<and> (\<forall>l\<in>set (tk_lines s). key_drawn (tk_seq s) (sl_key l))"

lemma line_key_inj: "line_key m = line_key n \<Longrightarrow> m = n"
  by (simp add: line_key_def int_string_def dec_inj)

lemma ticket_okI:
  assumes "distinct (map sl_key (tk_lines t))" "distinct (bookings_of (tk_lines t))"
    "\<And>l. l \<in> set (tk_lines t) \<Longrightarrow> key_drawn (tk_seq t) (sl_key l)"
  shows "ticket_ok t"
  using assms by (simp add: ticket_ok_def)

lemma ticket_ok_same: "ticket_ok s \<Longrightarrow> tk_lines t = tk_lines s \<Longrightarrow> tk_seq s \<le> tk_seq t \<Longrightarrow> ticket_ok t"
  using key_drawn_mono [of "tk_seq s"] by (auto simp: ticket_ok_def)

lemma ticket_ok_empty: "tk_lines t = [] \<Longrightarrow> ticket_ok t"
  by (simp add: ticket_ok_def bookings_of_def List.map_filter_def)

lemma bookings_of_map: "(\<And>l. l \<in> set ls \<Longrightarrow> sl_booking (f l) = sl_booking l) \<Longrightarrow> bookings_of (map f ls) = bookings_of ls"
  by (induction ls) (auto simp: bookings_of_def List.map_filter_simps split: option.splits)

lemma bookings_of_append: "bookings_of (ls @ [l]) = bookings_of ls @ (case sl_booking l of None \<Rightarrow> [] | Some b \<Rightarrow> [b])"
  by (induction ls) (auto simp: bookings_of_def List.map_filter_simps split: option.splits)

lemma set_bookings_of: "set (bookings_of ls) = {b. \<exists>l\<in>set ls. sl_booking l = Some b}"
  by (simp add: bookings_of_def set_map_filter)

lemma distinct_bookings_filter: "distinct (bookings_of ls) \<Longrightarrow> distinct (bookings_of (filter P ls))"
proof (induction ls)
  case (Cons l ls)
  have "set (bookings_of (filter P ls)) \<subseteq> set (bookings_of ls)" by (auto simp: set_bookings_of)
  with Cons show ?case by (auto simp: bookings_of_def List.map_filter_simps split: option.splits)
qed (simp add: bookings_of_def)

text \<open>Rewriting lines in place keeps the invariant when keys and bookings stay.\<close>

lemma ticket_ok_map:
  assumes "ticket_ok s" "tk_lines t = map f (tk_lines s)" "tk_seq s \<le> tk_seq t"
    "\<And>l. sl_key (f l) = sl_key l \<and> sl_booking (f l) = sl_booking l"
  shows "ticket_ok t"
proof (rule ticket_okI)
  show "distinct (map sl_key (tk_lines t))" using assms(1,2,4) by (simp add: ticket_ok_def comp_def)
  show "distinct (bookings_of (tk_lines t))" using assms(1,2,4) by (simp add: ticket_ok_def bookings_of_map)
  fix l assume "l \<in> set (tk_lines t)"
  then show "key_drawn (tk_seq t) (sl_key l)" using assms(1,2,4) key_drawn_mono [OF _ assms(3)]
    by (auto simp: ticket_ok_def)
qed

lemma ticket_ok_filter:
  assumes "ticket_ok s" "tk_lines t = filter P (tk_lines s)" "tk_seq s \<le> tk_seq t"
  shows "ticket_ok t"
proof (rule ticket_okI)
  show "distinct (map sl_key (tk_lines t))" using assms by (simp add: ticket_ok_def distinct_map_filter)
  show "distinct (bookings_of (tk_lines t))" using assms by (simp add: ticket_ok_def distinct_bookings_filter)
qed (use assms(1,2) key_drawn_mono [OF _ assms(3)] in \<open>auto simp: ticket_ok_def\<close>)

lemma ticket_ok_append:
  assumes "ticket_ok s" "tk_lines t = tk_lines s @ [l]" "tk_seq s \<le> tk_seq t" "sl_key l = line_key n" "n \<le> tk_seq t"
    "sl_key l \<notin> sl_key ` set (tk_lines s)" "\<And>b. sl_booking l = Some b \<Longrightarrow> \<not> has_visit b s"
  shows "ticket_ok t"
proof (rule ticket_okI)
  show "distinct (map sl_key (tk_lines t))" using assms by (simp add: ticket_ok_def)
  show "distinct (bookings_of (tk_lines t))"
    using assms(1,2,7) by (auto simp: ticket_ok_def bookings_of_append set_bookings_of has_visit_def split: option.split)
  fix x assume "x \<in> set (tk_lines t)"
  then show "key_drawn (tk_seq t) (sl_key x)"
    using assms(1,2,4,5) key_drawn_mono [OF _ assms(3)] key_drawn_mono [OF _ assms(5)]
    by (auto simp: ticket_ok_def) (auto simp: key_drawn_def)
qed

lemma save_begin_frame:
  "tk_lines (fst (save_begin fresh note s)) = tk_lines s" "tk_seq (fst (save_begin fresh note s)) = tk_seq s"
  by (simp_all add: save_begin_def Let_def split: option.split prod.split)

lemma save_begin_frame2:
  "save_begin fresh note s = (t, req) \<Longrightarrow> tk_lines t = tk_lines s \<and> tk_seq t = tk_seq s"
  using save_begin_frame [of fresh "note" s] by simp

lemma edit_lines_frame:
  "tk_lines (edit_lines f s) = f (tk_lines s)" "tk_seq (edit_lines f s) = tk_seq s" "tk_deposits (edit_lines f s) = tk_deposits s"
  "tk_client (edit_lines f s) = tk_client s" "tk_order (edit_lines f s) = tk_order s"
  by (simp_all add: edit_lines_def set_error_def)

lemma ticket_reset_frame: "tk_lines (ticket_reset s) = []" "tk_seq (ticket_reset s) = tk_seq s"
  by (simp_all add: ticket_reset_def set_error_def)

lemma ticket_ok_add_item:
  assumes "ticket_ok s"
  shows "ticket_ok (add_item env item s)"
proof -
  let ?n = "tk_seq s + 1"
  let ?fresh = "(line_from_item ?n item)\<lparr>sl_discount := with_member_discount None (ir_kind item = ''product'') (re_member_bps env)\<rparr>"
  let ?t = "add_item env item s"
  have seq: "tk_seq ?t = ?n" by (simp add: add_item_def Let_def)
  have unused: "line_key ?n \<notin> sl_key ` set (tk_lines s)"
    using assms line_key_inj by (fastforce simp: ticket_ok_def key_drawn_def)
  have new: "sl_key ?fresh = line_key ?n" "sl_booking ?fresh = None" "sl_key ?fresh \<notin> sl_key ` set (tk_lines s)"
    using unused by (simp_all add: line_from_item_def)
  consider (1) "tk_lines ?t = tk_lines s @ [?fresh]"
    | (2) same :: sale_line where "tk_lines ?t = map (\<lambda>l. if sl_key l = sl_key same then l\<lparr>sl_quantity := sl_quantity l + 1\<rparr> else l) (tk_lines s)"
  proof (cases "find (\<lambda>l. sl_item l = Some (ir_id item) \<and> sl_booking l = None \<and> sl_discount l = sl_discount ?fresh) (tk_lines s)")
    case None with 1 show ?thesis by (simp add: add_item_def Let_def edit_lines_frame)
  next
    case (Some same)
    show ?thesis
    proof (cases "ir_kind item = ''product''")
      case True with Some show ?thesis by (intro 2 [of same]) (simp add: add_item_def Let_def edit_lines_frame)
    next
      case False with Some show ?thesis by (intro 1) (simp add: add_item_def Let_def edit_lines_frame)
    qed
  qed
  then show ?thesis
  proof cases
    case 1
    then show ?thesis
      using new seq by (intro ticket_ok_append [OF assms 1 _ new(1)]) auto
  next
    case (2 same) then show ?thesis using seq by (intro ticket_ok_map [OF assms 2]) auto
  qed
qed

lemma resume_frame:
  "tk_lines (resume out items s) = map2 (\<lambda>i l. resumed_line items (tk_seq s + i) l) [1..<length (oo_lines out) + 1] (oo_lines out)"
  "tk_seq (resume out items s) = tk_seq s + length (oo_lines out)" "tk_order (resume out items s) = Some out"
  by (simp_all add: resume_def Let_def)

lemma resumed_bookings:
  "bookings_of (map2 (\<lambda>i l. resumed_line items (n + i) l) is ls) = List.map_filter ol_booking (map snd (zip is ls))"
  by (induction "is" ls rule: list_induct2') (auto simp: bookings_of_def List.map_filter_simps resumed_line_def Let_def split: option.splits)

lemma ticket_ok_resume:
  assumes "distinct (List.map_filter ol_booking (oo_lines out))"
  shows "ticket_ok (resume out items s)"
proof (rule ticket_okI)
  let ?is = "[1..<length (oo_lines out) + 1]"
  have key: "sl_key (resumed_line items k l) = line_key k" for k l by (simp add: resumed_line_def Let_def)
  have "map sl_key (tk_lines (resume out items s)) = map (\<lambda>i. line_key (tk_seq s + i)) ?is"
  proof -
    have "map sl_key (tk_lines (resume out items s)) = map (\<lambda>i. line_key (tk_seq s + i)) (map fst (zip ?is (oo_lines out)))"
      by (simp add: resume_frame key comp_def case_prod_unfold del: upt_Suc map_fst_zip)
    also have "map fst (zip ?is (oo_lines out)) = ?is" by (simp del: upt_Suc)
    finally show ?thesis .
  qed
  moreover have "inj (\<lambda>i. line_key (tk_seq s + i))" by (intro injI) (auto dest: line_key_inj)
  ultimately show "distinct (map sl_key (tk_lines (resume out items s)))"
    by (simp add: distinct_map inj_on_subset [OF _ subset_UNIV] comp_def del: upt_Suc)
  show "distinct (bookings_of (tk_lines (resume out items s)))"
    using assms by (simp add: resume_frame resumed_bookings del: upt_Suc)
  fix l assume "l \<in> set (tk_lines (resume out items s))"
  then obtain i x where "(i, x) \<in> set (zip ?is (oo_lines out))" "l = resumed_line items (tk_seq s + i) x"
    by (auto simp: resume_frame simp del: upt_Suc)
  moreover then have "i \<in> set ?is" by (meson set_zip_leftD)
  ultimately show "key_drawn (tk_seq (resume out items s)) (sl_key l)"
    by (auto simp: key resume_frame key_drawn_def intro!: exI [of _ "tk_seq s + i"])
qed

lemmas register_defs = set_quantity_def set_line_staff_def set_line_discount_def follow_member_def set_client_def
  set_sale_discount_def set_tip_def set_phase_def set_cash_given_def new_sale_def save_end_def cash_answer_def
  tap_answer_def action_failed_def gift_end_def hold_end_def invoice_voided_def invoice_end_def action_done_def
  mark_paid_def set_error_def

lemma ticket_ok_add_visit:
  assumes "ticket_ok s" "sl_booking (vi_line v) = Some (vi_booking v)" "sl_key (vi_line v) = line_key n" "n \<le> tk_seq s"
    "sl_key (vi_line v) \<notin> sl_key ` set (tk_lines s)"
  shows "ticket_ok (add_visit v s)"
proof (cases "has_visit (vi_booking v) s")
  case True then show ?thesis using assms(1) by (simp add: add_visit_def)
next
  case False
  then have "tk_lines (add_visit v s) = tk_lines s @ [vi_line v]" "tk_seq (add_visit v s) = tk_seq s"
    by (simp_all add: add_visit_def Let_def edit_lines_frame)
  then show ?thesis using assms False by (intro ticket_ok_append [OF assms(1) _ _ assms(3) _ assms(5)]) (use assms(2,4) False in auto)
qed

lemma charge_begin_frame:
  "charge_begin env fresh m s = Charging t plan req \<Longrightarrow> tk_lines t = tk_lines s \<and> tk_seq t = tk_seq s"
  "charge_begin env fresh m s = Refused t \<Longrightarrow> tk_lines t = tk_lines s \<and> tk_seq t = tk_seq s"
  by (cases m; auto simp: charge_begin_def Let_def set_error_def split: if_splits option.splits prod.splits dest!: save_begin_frame2)+

lemma payment_begin_frame: "payment_begin env fresh plan out s = (t, req) \<Longrightarrow> tk_lines t = tk_lines s \<and> tk_seq t = tk_seq s"
  by (auto simp: payment_begin_def Let_def split: if_splits prod.splits)

lemma gift_begin_frame: "gift_begin env fresh s = (t, req) \<Longrightarrow> tk_lines t = tk_lines s \<and> tk_seq t = tk_seq s"
  by (auto simp: gift_begin_def Let_def split: if_splits option.splits prod.splits dest!: save_begin_frame2)

lemma hold_begin_frame: "hold_begin fresh note s = (t, req) \<Longrightarrow> tk_lines t = tk_lines s \<and> tk_seq t = tk_seq s"
  by (auto simp: hold_begin_def split: if_splits option.splits prod.splits dest!: save_begin_frame2)

lemma cancel_begin_frame: "cancel_begin s = (t, req) \<Longrightarrow> tk_lines t = tk_lines s \<and> tk_seq t = tk_seq s"
  by (auto simp: cancel_begin_def close_checkout_def split: option.splits prod.splits)

lemma set_method_frame: "tk_lines (set_method env m s) = tk_lines s" "tk_seq (set_method env m s) = tk_seq s"
  by (cases m; cases "re_saved_card env"; simp add: set_method_def set_error_def Let_def)+

lemma card_answer_frame: "tk_lines (card_answer env method answer s) = tk_lines s" "tk_seq (card_answer env method answer s) = tk_seq s"
  by (simp_all add: card_answer_def mark_paid_def Let_def split: prod.split)

lemma cancel_end_frame: "tk_lines (cancel_end env failure s) = tk_lines s" "tk_seq (cancel_end env failure s) = tk_seq s"
  by (simp_all add: cancel_end_def action_done_def action_failed_def close_checkout_def Let_def split: option.split)

lemma register_step_ok: "register_step s t \<Longrightarrow> ticket_ok s \<Longrightarrow> ticket_ok t"
proof (induction rule: register_step.induct)
  case (reg_item s env item) then show ?case by (rule ticket_ok_add_item)
next
  case (reg_visit v n s) then show ?case by (intro ticket_ok_add_visit) auto
next
  case (reg_quantity s key q)
  show ?case
  proof (cases "q \<le> 0")
    case True then show ?thesis by (intro ticket_ok_filter [OF reg_quantity]) (auto simp: set_quantity_def edit_lines_frame)
  next
    case False
    then show ?thesis
      by (intro ticket_ok_map [OF reg_quantity, where f = "\<lambda>l. if sl_key l = key then l\<lparr>sl_quantity := q\<rparr> else l"])
        (auto simp: set_quantity_def edit_lines_frame)
  qed
next
  case (reg_remove s key)
  have "tk_lines (remove_line key s) = filter (\<lambda>l. sl_key l \<noteq> key) (tk_lines s)" "tk_seq (remove_line key s) = tk_seq s"
    by (simp_all add: remove_line_def Let_def edit_lines_frame split: option.split)
  with reg_remove show ?case by (intro ticket_ok_filter [OF reg_remove]) auto
next
  case (reg_staff s key staff)
  then show ?case by (intro ticket_ok_map [OF reg_staff, where f = "\<lambda>l. if sl_key l = key then l\<lparr>sl_staff := staff\<rparr> else l"]) (auto simp: set_line_staff_def edit_lines_frame)
next
  case (reg_line_discount s key disc)
  then show ?case by (intro ticket_ok_map [OF reg_line_discount, where f = "\<lambda>l. if sl_key l = key then l\<lparr>sl_discount := disc\<rparr> else l"]) (auto simp: set_line_discount_def edit_lines_frame)
next
  case (reg_member s env)
  show ?case
  proof (cases "tk_client_chosen s")
    case True then show ?thesis by (intro ticket_ok_map [OF reg_member, where f = "\<lambda>l. l\<lparr>sl_discount := with_member_discount (sl_discount l)
        (sl_kind l = ''product'') (re_member_bps env)\<rparr>"]) (auto simp: follow_member_def)
  qed (use reg_member in \<open>simp add: follow_member_def\<close>)
next
  case (reg_clear s) then show ?case by (intro ticket_ok_empty) (simp add: clear_ticket_def edit_lines_frame)
next
  case (reg_new s) then show ?case by (intro ticket_ok_empty) (simp add: new_sale_def ticket_reset_frame)
next
  case (reg_hold_end s env out)
  then show ?case by (intro ticket_ok_empty) (simp add: hold_end_def action_done_def ticket_reset_frame)
next
  case (reg_invoice_end s notice)
  then show ?case by (intro ticket_ok_empty) (simp add: invoice_end_def action_done_def ticket_reset_frame)
next
  case (reg_resume out s items) then show ?case by (intro ticket_ok_resume)
next
  case (reg_charge env fresh m s t plan req)
  then show ?case using charge_begin_frame(1) by (intro ticket_ok_same [OF reg_charge(2)]) auto
next
  case (reg_refused env fresh m s t)
  then show ?case using charge_begin_frame(2) by (intro ticket_ok_same [OF reg_refused(2)]) auto
next
  case (reg_payment env fresh plan out s t req)
  then show ?case using payment_begin_frame by (intro ticket_ok_same [OF reg_payment(2)]) auto
next
  case (reg_gift env fresh s t req)
  then show ?case using gift_begin_frame by (intro ticket_ok_same [OF reg_gift(2)]) auto
next
  case (reg_hold fresh nt s t req)
  then show ?case using hold_begin_frame by (intro ticket_ok_same [OF reg_hold(2)]) auto
next
  case (reg_cancel s t req)
  then show ?case using cancel_begin_frame by (intro ticket_ok_same [OF reg_cancel(2)]) auto
qed (auto intro: ticket_ok_same simp: register_defs set_method_frame card_answer_frame cancel_end_frame Let_def)

definition register_initial :: "ticket \<Rightarrow> bool" where
  "register_initial s \<longleftrightarrow> s = blank_ticket"

interpretation register: inductive_invariant register_initial register_step ticket_ok
proof unfold_locales
  show "register_initial s \<Longrightarrow> ticket_ok s" for s
    by (simp add: register_initial_def blank_ticket_def ticket_ok_empty)
qed (rule register_step_ok)

end
