(* ===== verification/Register_Guarantees.thy ===== *)
theory Register_Guarantees
  imports Register
begin

text \<open>
  What the register guarantees over time: the lines of a reachable ticket, what it remembers of the saved
  order, the guards of a charge, and what a retried charge sends.
\<close>

section \<open>What is remembered as saved\<close>

text \<open>The end of \<open>save\<close>: the order to go on with, and the ticket.\<close>

definition save_answer :: "save_request \<Rightarrow> order_out \<Rightarrow> ticket \<Rightarrow> order_out \<times> ticket" where
  "save_answer req out s = (case req of
     Already_Saved prev \<Rightarrow> (prev, s)
   | Create_Order body _ \<Rightarrow> (out, save_end body out s)
   | Change_Order _ body \<Rightarrow> (out, save_end body out s))"

definition saved_ok :: "ticket \<Rightarrow> bool" where
  "saved_ok s \<longleftrightarrow> (\<forall>b out. tk_saved s = Some (b, out) \<longrightarrow> tk_order s = Some out \<and> tk_gift_cents s = oo_gift_card out)"

lemma saved_ok_same:
  "saved_ok s \<Longrightarrow> tk_saved t = tk_saved s \<Longrightarrow> tk_order t = tk_order s \<Longrightarrow> tk_gift_cents t = tk_gift_cents s \<Longrightarrow> saved_ok t"
  by (simp add: saved_ok_def)

lemma saved_ok_none: "tk_saved t = None \<Longrightarrow> saved_ok t"
  by (simp add: saved_ok_def)

definition same_order :: "ticket \<Rightarrow> ticket \<Rightarrow> bool" where
  "same_order s t \<longleftrightarrow> tk_saved t = tk_saved s \<and> tk_order t = tk_order s \<and> tk_gift_cents t = tk_gift_cents s"

lemma same_order_ok: "same_order s t \<Longrightarrow> saved_ok s \<Longrightarrow> saved_ok t"
  by (auto simp: same_order_def saved_ok_def)

lemma save_begin_same: "save_begin fresh nt s = (t, req) \<Longrightarrow> same_order s t"
  by (auto simp: save_begin_def Let_def same_order_def split: option.splits prod.splits)

lemma charge_begin_same:
  "charge_begin env fresh m s = Charging t plan req \<Longrightarrow> same_order s t"
  "charge_begin env fresh m s = Refused t \<Longrightarrow> same_order s t"
  by (cases m; auto simp: charge_begin_def Let_def set_error_def same_order_def
      split: if_splits option.splits prod.splits dest!: save_begin_same)+

lemma edit_lines_same: "same_order s (edit_lines f s)"
  by (simp add: edit_lines_def set_error_def same_order_def)

lemma begin_same:
  "payment_begin env fresh plan out s = (t, req1) \<Longrightarrow> same_order s t"
  "gift_begin env fresh s = (t, req2) \<Longrightarrow> same_order s t"
  "hold_begin fresh nt s = (t, req3) \<Longrightarrow> same_order s t"
  "cancel_begin s = (t, req4) \<Longrightarrow> same_order s t"
  by (auto simp: payment_begin_def gift_begin_def hold_begin_def cancel_begin_def close_checkout_def Let_def same_order_def
      split: if_splits option.splits prod.splits dest!: save_begin_same)

lemma line_edits_same:
  "same_order s (add_item env item s)" "same_order s (set_quantity key q s)" "same_order s (remove_line key s)"
  "same_order s (set_line_staff key staff s)" "same_order s (set_line_discount key disc s)"
  "same_order s (follow_member env s)" "same_order s (clear_ticket s)" "same_order s (add_visit v s)"
  by (simp_all add: add_item_def set_quantity_def remove_line_def set_line_staff_def set_line_discount_def
      follow_member_def clear_ticket_def add_visit_def edit_lines_def set_error_def same_order_def Let_def split: option.split)

lemma set_method_same: "same_order s (set_method env m s)"
  by (cases m; cases "re_saved_card env"; simp add: set_method_def set_error_def Let_def same_order_def)

lemma setter_same:
  "same_order s (set_client i s)" "same_order s (set_sale_discount disc s)" "same_order s (set_tip tip s)"
  "same_order s (set_phase p s)" "same_order s (set_cash_given v s)" "same_order s (cash_answer r s)"
  "same_order s (tap_answer plan out secret s)" "same_order s (action_failed env e fallback s)"
  "same_order s (card_answer env method answer s)" "same_order s (cancel_end env failure s)"
  by (simp_all add: set_client_def set_sale_discount_def set_tip_def set_phase_def set_cash_given_def set_error_def
      cash_answer_def tap_answer_def action_failed_def action_done_def mark_paid_def card_answer_def cancel_end_def
      close_checkout_def same_order_def Let_def split: prod.split option.split)

lemma emptied_saved:
  "tk_saved (ticket_reset s) = None" "tk_saved (new_sale s) = None" "tk_saved (hold_end env out s) = None"
  "tk_saved (invoice_voided s) = None" "tk_saved (invoice_end nt s) = None" "tk_saved (resume out items s) = None"
  by (simp_all add: ticket_reset_def new_sale_def hold_end_def invoice_voided_def invoice_end_def resume_def
      action_done_def Let_def)

lemma save_end_saved: "saved_ok (save_end body out s)"
  by (simp add: saved_ok_def save_end_def)

lemma gift_end_saved: "saved_ok (gift_end out s)"
  by (auto simp: saved_ok_def gift_end_def mark_paid_def Let_def)

lemma register_step_saved: "register_step s t \<Longrightarrow> saved_ok s \<Longrightarrow> saved_ok t"
  by (induction rule: register_step.induct)
    (auto intro: same_order_ok [OF line_edits_same(1)] same_order_ok [OF line_edits_same(2)]
      same_order_ok [OF line_edits_same(3)] same_order_ok [OF line_edits_same(4)] same_order_ok [OF line_edits_same(5)]
      same_order_ok [OF line_edits_same(6)] same_order_ok [OF line_edits_same(7)] same_order_ok [OF line_edits_same(8)]
      same_order_ok [OF set_method_same] same_order_ok [OF setter_same(1)] same_order_ok [OF setter_same(2)]
      same_order_ok [OF setter_same(3)] same_order_ok [OF setter_same(4)] same_order_ok [OF setter_same(5)]
      same_order_ok [OF setter_same(6)] same_order_ok [OF setter_same(7)] same_order_ok [OF setter_same(8)]
      same_order_ok [OF setter_same(9)] same_order_ok [OF setter_same(10)] same_order_ok saved_ok_none
      save_end_saved gift_end_saved saved_ok_same dest: charge_begin_same begin_same simp: emptied_saved)

interpretation saved: inductive_invariant register_initial register_step saved_ok
proof unfold_locales
  show "register_initial s \<Longrightarrow> saved_ok s" for s
    by (simp add: register_initial_def blank_ticket_def saved_ok_def)
qed (rule register_step_saved)

lemma distinct_bookings_inj:
  "distinct (bookings_of ls) \<Longrightarrow> l1 \<in> set ls \<Longrightarrow> l2 \<in> set ls \<Longrightarrow> sl_booking l1 = Some b \<Longrightarrow> sl_booking l2 = Some b \<Longrightarrow> l1 = l2"
proof (induction ls)
  case (Cons l ls)
  have *: "b \<in> set (bookings_of ls)" if "x \<in> set ls" "sl_booking x = Some b" for x
    using that by (auto simp: set_bookings_of)
  from Cons show ?case
    by (auto simp: bookings_of_def List.map_filter_simps dest: * [unfolded bookings_of_def] split: option.splits)
qed simp

lemma distinct_map_filter_one:
  "distinct (map f xs) \<Longrightarrow> x \<in> set xs \<Longrightarrow> length (filter (\<lambda>y. f y = f x) xs) = 1"
  by (induction xs) (auto simp: filter_empty_conv rev_image_eqI)

lemma charge_begin_priced:
  "charge_begin env fresh m s = Charging t plan req \<Longrightarrow> tk_lines t = tk_lines s \<and> tk_sale_discount t = tk_sale_discount s
     \<and> tk_tip t = tk_tip s \<and> tk_deposits t = tk_deposits s \<and> tk_gift_cents t = tk_gift_cents s"
  by (cases m; auto simp: charge_begin_def save_begin_def Let_def split: if_splits option.splits prod.splits)

section \<open>Reachable tickets\<close>

text \<open>C14: on a reachable ticket every line has a key of its own and a booking is sold at most once, whatever
  mix of items, visits, edits, resumed orders and server answers led there.\<close>

theorem ticket_lines_unique:
  assumes "reach register_initial register_step s" "l1 \<in> set (tk_lines s)" "l2 \<in> set (tk_lines s)"
    "sl_key l1 = sl_key l2 \<or> (sl_booking l1 \<noteq> None \<and> sl_booking l1 = sl_booking l2)"
  shows "l1 = l2 \<and> length (filter (\<lambda>l. sl_key l = sl_key l1) (tk_lines s)) = 1"
proof -
  have ok: "distinct (map sl_key (tk_lines s))" "distinct (bookings_of (tk_lines s))"
    using register.reach_inv [OF assms(1)] by (auto simp: ticket_ok_def)
  have "l1 = l2"
    using assms(4)
  proof
    assume "sl_key l1 = sl_key l2" then show ?thesis using ok(1) assms(2,3) by (meson distinct_map inj_onD)
  next
    assume "sl_booking l1 \<noteq> None \<and> sl_booking l1 = sl_booking l2"
    then obtain b where "sl_booking l1 = Some b" "sl_booking l2 = Some b" by (metis not_None_eq)
    then show ?thesis by (rule distinct_bookings_inj [OF ok(2) assms(2,3)])
  qed
  moreover have "length (filter (\<lambda>l. sl_key l = sl_key l1) (tk_lines s)) = 1"
    using ok(1) assms(2) by (rule distinct_map_filter_one)
  ultimately show ?thesis by simp
qed

text \<open>C15: a sale is one order. In a reachable state, saving it again unchanged sends nothing and goes on with
  the saved order; after an edit it changes that same order; it never creates a second one.\<close>

theorem save_once:
  assumes "reach register_initial register_step s" "tk_saved s = Some (body, out)"
    "save_begin fresh nt s = (t, req)"
  shows "(req = Already_Saved out \<and> t = s \<and> body = sale_body_of (tk_client s) (tk_lines s) (tk_sale_discount s) nt)
    \<or> (\<exists>changed. req = Change_Order (oo_id out) changed \<and> changed \<noteq> body
        \<and> changed = sale_body_of (tk_client s) (tk_lines s) (tk_sale_discount s) nt \<and> tk_order t = Some out)"
proof -
  have "tk_order s = Some out" using saved.reach_inv [OF assms(1)] assms(2) by (auto simp: saved_ok_def)
  with assms(2,3) show ?thesis
    by (auto simp: save_begin_def saved_as_def Let_def split: if_splits prod.splits)
qed

text \<open>A charge goes ahead exactly when the ticket has lines, cash tendered covers what is due, and no
  other action runs; it then saves this ticket and carries its tip, and leaves lines and prices as they were.\<close>

theorem charge_guarded:
  shows "case charge_begin env fresh m s of
      Refused t \<Rightarrow> aa_error (tk_action t) \<noteq> None \<and> tk_lines t = tk_lines s
        \<and> (tk_lines s = [] \<or> case_option (pay_method_of env s) id m = Cash
             \<and> (case ticket_cash env s of None \<Rightarrow> True | Some c \<Rightarrow> c < st_due (ticket_totals env s)))
    | Ignored t \<Rightarrow> aa_running (tk_action s) \<and> tk_lines s \<noteq> []
    | Charging t plan req \<Rightarrow> tk_lines s \<noteq> [] \<and> \<not> aa_running (tk_action s) \<and> aa_running (tk_action t)
        \<and> cp_use plan = case_option (pay_method_of env s) id m
        \<and> cp_tip plan = tip_body (st_tip (ticket_totals env s)) (ticket_shares env s)
        \<and> ticket_totals env t = ticket_totals env s
        \<and> (cp_use plan = Cash \<longrightarrow> (\<exists>c. cp_cash plan = Some c \<and> st_due (ticket_totals env s) \<le> c))
        \<and> (case req of Already_Saved prev \<Rightarrow> True
            | Create_Order body _ \<Rightarrow> tk_order s = None \<and> body = sale_body_of (tk_client s) (tk_lines s) (tk_sale_discount s) None
            | Change_Order i body \<Rightarrow> map_option oo_id (tk_order s) = Some i
                \<and> body = sale_body_of (tk_client s) (tk_lines s) (tk_sale_discount s) None)"
proof (cases "charge_begin env fresh m s")
  case (Refused t)
  then show ?thesis
    by (cases m; auto simp: charge_begin_def Let_def set_error_def action_set_error_def split: if_splits option.splits prod.splits)
next
  case (Ignored t)
  then show ?thesis
    by (cases m; auto simp: charge_begin_def Let_def action_start_def split: if_splits option.splits prod.splits)
next
  case (Charging t plan req)
  have tot: "ticket_totals env t = ticket_totals env s"
    using charge_begin_priced [OF Charging] by (simp add: ticket_totals_def ticket_priced_def deposit_cents_def)
  show ?thesis
    using Charging tot by (cases m; auto simp: charge_begin_def save_begin_def Let_def action_start_def
        split: if_splits option.splits prod.splits)
qed

section \<open>Retrying a charge\<close>

lemma charge_chosen:
  "charge_begin env fresh m s = Charging t plan req \<Longrightarrow> tk_chosen t = (case m of Some u \<Rightarrow> Some u | None \<Rightarrow> tk_chosen s)
     \<and> tk_tip_mode t = tk_tip_mode s \<and> tk_tip_to t = tk_tip_to s \<and> tk_cash t = tk_cash s \<and> tk_client t = tk_client s"
  by (cases m; auto simp: charge_begin_def save_begin_def Let_def split: if_splits option.splits prod.splits)

text \<open>What a charge reads of the ticket.\<close>

definition same_reading :: "ticket \<Rightarrow> ticket \<Rightarrow> bool" where
  "same_reading s t \<longleftrightarrow> tk_lines t = tk_lines s \<and> tk_sale_discount t = tk_sale_discount s \<and> tk_tip t = tk_tip s
     \<and> tk_deposits t = tk_deposits s \<and> tk_gift_cents t = tk_gift_cents s \<and> tk_tip_mode t = tk_tip_mode s
     \<and> tk_tip_to t = tk_tip_to s \<and> tk_cash t = tk_cash s \<and> tk_client t = tk_client s"

lemma same_reading_eqs:
  assumes "same_reading s t"
  shows "ticket_totals env t = ticket_totals env s" "ticket_shares env t = ticket_shares env s" "ticket_cash env t = ticket_cash env s"
proof -
  have p: "ticket_priced env t = ticket_priced env s"
    using assms by (simp add: same_reading_def ticket_priced_def deposit_cents_def)
  then have "ticket_served env t = ticket_served env s" by (simp add: ticket_served_def)
  then have "ticket_tip_to env t = ticket_tip_to env s"
    using assms by (simp add: same_reading_def ticket_tip_to_def split: option.split)
  with p assms show "ticket_totals env t = ticket_totals env s" "ticket_shares env t = ticket_shares env s"
    "ticket_cash env t = ticket_cash env s"
    by (simp_all add: same_reading_def ticket_totals_def ticket_shares_def ticket_cash_def)
qed

lemma charge_plan_of:
  assumes "charge_begin env fresh m s = Charging t plan req"
  shows "tk_lines s \<noteq> []" "plan = \<lparr>cp_use = case_option (pay_method_of env s) id m,
      cp_tip = tip_body (st_tip (ticket_totals env s)) (ticket_shares env s), cp_tip_cents = st_tip (ticket_totals env s),
      cp_cash = ticket_cash env s\<rparr>"
    "\<not> (cp_use plan = Cash \<and> (case ticket_cash env s of None \<Rightarrow> True | Some c \<Rightarrow> c < st_due (ticket_totals env s)))"
  using assms by (cases m; auto simp: charge_begin_def Let_def split: if_splits option.splits prod.splits)+

text \<open>Starting again from a ticket that reads the same, with the sale already saved.\<close>

lemma charge_again:
  assumes "charge_begin env f1 m s = Charging t plan req" "same_reading s u" "\<not> aa_running (tk_action u)"
    "case_option (tk_chosen u) Some m = case_option (tk_chosen s) Some m"
    "tk_saved u = Some (sale_body_of (tk_client u) (tk_lines u) (tk_sale_discount u) None, out)"
  shows "\<exists>v. charge_begin env f2 m u = Charging v plan (Already_Saved out) \<and> tk_payment v = tk_payment u"
proof -
  have eqs: "ticket_totals env u = ticket_totals env s" "ticket_shares env u = ticket_shares env s" "ticket_cash env u = ticket_cash env s"
    using same_reading_eqs [OF assms(2)] by auto
  have use: "case_option (pay_method_of env u) id m = case_option (pay_method_of env s) id m"
    using assms(4) by (cases m) (simp_all add: pay_method_of_def)
  have lines: "tk_lines u \<noteq> []" using charge_plan_of(1) [OF assms(1)] assms(2) by (simp add: same_reading_def)
  show ?thesis
    using charge_plan_of(2,3) [OF assms(1)] lines use eqs assms(3,5)
    by (cases m) (simp_all add: charge_begin_def save_begin_def saved_as_def action_start_def Let_def)
qed

lemma save_answer_frame:
  assumes "charge_begin env fresh m s = Charging s1 plan req" "save_answer req ans s1 = (out, s2)" "oo_gift_card out = tk_gift_cents s"
  shows "same_reading s s2" "tk_chosen s2 = case_option (tk_chosen s) Some m" "tk_action s2 = tk_action s1"
    "tk_saved s2 = Some (sale_body_of (tk_client s) (tk_lines s) (tk_sale_discount s) None, out)"
proof -
  note kept = charge_begin_priced [OF assms(1)] charge_chosen [OF assms(1)]
  show "same_reading s s2" "tk_chosen s2 = case_option (tk_chosen s) Some m" "tk_action s2 = tk_action s1"
    using kept assms(2,3)
    by (cases req; cases m; auto simp: save_answer_def save_end_def same_reading_def split: prod.splits)+
  show "tk_saved s2 = Some (sale_body_of (tk_client s) (tk_lines s) (tk_sale_discount s) None, out)"
    using assms(1,2) by (cases m; auto simp: charge_begin_def save_begin_def saved_as_def save_answer_def save_end_def Let_def
        split: if_splits option.splits prod.splits)
qed

text \<open>C16: a cash or reader payment whose answer is lost is safe to retry. Charging the untouched ticket again
  saves nothing and sends the identical payment: the same order, tip, tendered cash and idempotency key.\<close>

theorem charge_retry_identical:
  assumes "charge_begin env f1 m s = Charging s1 plan req" "save_answer req ans s1 = (out, s2)"
    "oo_gift_card out = tk_gift_cents s" "cp_use plan \<in> {Cash, Tap}"
    "payment_begin env f2 plan out s2 = (s3, sent)" "action_failed env e fallback s3 = s4"
  shows "\<exists>s5. charge_begin env f3 m s4 = Charging s5 plan (Already_Saved out) \<and> snd (payment_begin env f4 plan out s5) = sent"
proof -
  note frame = save_answer_frame [OF assms(1-3)]
  obtain key ref where k: "attempt_key f2 (tk_payment s2) (oo_id out, cp_use plan, cp_tip plan, cp_cash plan) = (key, ref)"
    by fastforce
  have s3: "s3 = s2\<lparr>tk_payment := ref\<rparr>" using assms(4,5) k by (auto simp: payment_begin_def Let_def)
  have "same_reading s s4" "case_option (tk_chosen s4) Some m = case_option (tk_chosen s) Some m"
    "tk_saved s4 = Some (sale_body_of (tk_client s4) (tk_lines s4) (tk_sale_discount s4) None, out)" "\<not> aa_running (tk_action s4)"
    using frame assms(6) by (auto simp: s3 action_failed_def action_end_def same_reading_def split: option.split)
  from charge_again [OF assms(1) this(1,4,2,3), of f3]
  obtain v where v: "charge_begin env f3 m s4 = Charging v plan (Already_Saved out)" "tk_payment v = ref"
    using assms(6) by (auto simp: s3 action_failed_def)
  moreover have "attempt_key f4 ref (oo_id out, cp_use plan, cp_tip plan, cp_cash plan) = (key, ref)"
    by (rule attempt_key_again [OF k])
  ultimately have "snd (payment_begin env f4 plan out v) = sent"
    using assms(4,5) k by (auto simp: payment_begin_def Let_def)
  with v(1) show ?thesis by blast
qed

section \<open>Resuming a held sale\<close>

definition echoes :: "body_line \<Rightarrow> order_line \<Rightarrow> bool" where
  "echoes b l \<longleftrightarrow> ol_description l = bl_description b \<and> ol_quantity l = bl_quantity b \<and> ol_unit l = bl_unit b
     \<and> ol_item l = bl_item b \<and> ol_booking l = bl_booking b \<and> as_tax_class (Some (ol_tax_class l)) = bl_tax_class b
     \<and> ol_staff l = bl_staff b \<and> ol_discount l = bl_discount b"

lemma echoes_resumed: "echoes b l \<Longrightarrow> body_line_of (resumed_line items n l) = b"
  by (simp add: echoes_def body_line_of_def resumed_line_def Let_def)

lemma echoes_resumed_all:
  "list_all2 echoes bs ls \<Longrightarrow> length is = length ls \<Longrightarrow> map body_line_of (map2 (\<lambda>i l. resumed_line items (n + i) l) is ls) = bs"
proof (induction arbitrary: "is" rule: list_all2_induct)
  case (Cons b bs l ls) then show ?case by (cases "is") (auto simp: echoes_resumed)
qed simp

definition request_body :: "save_request \<Rightarrow> sale_body option" where
  "request_body req = (case req of Create_Order body key \<Rightarrow> Some body | Change_Order i body \<Rightarrow> Some body | Already_Saved out \<Rightarrow> None)"

lemma hold_sends:
  assumes "hold_begin fresh note s = (s1, Some req)" "request_body req = Some body"
  shows "body = sale_body_of (tk_client s) (tk_lines s) (tk_sale_discount s) note"
  using assms by (auto simp: hold_begin_def save_begin_def Let_def request_body_def split: if_splits option.splits prod.splits)

text \<open>C17: holding and resuming keeps the sale, up to its note. When the server's order carries what the held ticket sent,
  then on a register where no client was chosen the resumed ticket, after the effect that follows the member's
  discount, has the client, the lines, their discounts and the discount of the sale that was held, so that its body is
  that of the held ticket, and every save of it changes the held order instead of creating another. The note is not on
  the ticket: the held one went out with it, a later save carries the note given then, and none where it is charged.\<close>

theorem resume_restores_body:
  assumes "hold_begin fresh note s = (s1, Some req)" "request_body req = Some body"
    and "oo_client out = sb_client body" "oo_discount out = sb_discount body" "list_all2 echoes (sb_lines body) (oo_lines out)"
    and "\<not> tk_client_chosen r"
  shows "let t = follow_member env (resume out items r) in
    sb_note body = note
    \<and> sale_body_of (tk_client t) (tk_lines t) (tk_sale_discount t) note' = (sale_body_of (tk_client s) (tk_lines s) (tk_sale_discount s) note)\<lparr>sb_note := note'\<rparr>
    \<and> snd (save_begin fresh' note' t) = Change_Order (oo_id out) (body\<lparr>sb_note := note'\<rparr>)"
proof -
  let ?t = "resume out items r"
  have held: "body = sale_body_of (tk_client s) (tk_lines s) (tk_sale_discount s) note" using assms(1,2) by (rule hold_sends)
  have follow: "follow_member env ?t = ?t"
    using assms(6) by (simp add: follow_member_def resume_def ticket_reset_def set_error_def Let_def)
  have "map body_line_of (tk_lines ?t) = sb_lines body"
    unfolding resume_frame by (rule echoes_resumed_all [OF assms(5)]) (simp del: upt_Suc)
  moreover have t: "tk_client ?t = oo_client out" "tk_sale_discount ?t = oo_discount out" "tk_saved ?t = None" "tk_order ?t = Some out"
    by (simp_all add: resume_def ticket_reset_def Let_def)
  ultimately have "sale_body_of (tk_client ?t) (tk_lines ?t) (tk_sale_discount ?t) note' = body\<lparr>sb_note := note'\<rparr>"
    using assms(3,4) by (simp add: sale_body_of_def)
  then show ?thesis using t
    by (simp add: Let_def follow save_begin_def saved_as_def case_prod_unfold) (simp add: held sale_body_of_def)
qed

section \<open>What a resumed ticket carries over\<close>

text \<open>The deposits of a resumed order are kept under the order's id, so taking the visit off the ticket
  leaves its deposit deducted from what is due.\<close>

theorem resumed_deposit_outlives_visit:
  assumes "oo_deposit out > 0" "\<forall>l\<in>set (oo_lines out). ol_booking l \<noteq> Some (oo_id out)"
  shows "deposit_cents (remove_line key (resume out items s)) = oo_deposit out"
proof -
  let ?t = "resume out items s"
  have dep: "tk_deposits ?t = [(oo_id out, oo_deposit out)]" using assms(1) by (simp add: resume_def Let_def)
  have "sl_booking l \<noteq> Some (oo_id out)" if "l \<in> set (tk_lines ?t)" for l
    using that assms(2) by (auto simp: resume_frame resumed_line_def Let_def simp del: upt_Suc dest: set_zip_rightD)
  then have "Option.bind (find (\<lambda>l. sl_key l = key) (tk_lines ?t)) sl_booking \<noteq> Some (oo_id out)"
    by (auto simp: find_Some_iff bind_eq_Some_conv)
  then show ?thesis
    by (auto simp: remove_line_def Let_def deposit_cents_def edit_lines_frame dep split: option.split)
qed

text \<open>Resuming does not forget that a client was chosen here earlier, so the member's discount is applied to
  the resumed lines again.\<close>

theorem resume_still_follows_member:
  assumes "tk_client_chosen s"
  shows "map sl_discount (tk_lines (follow_member env (resume out items s)))
    = map (\<lambda>l. with_member_discount (sl_discount l) (sl_kind l = ''product'') (re_member_bps env)) (tk_lines (resume out items s))"
  using assms by (simp add: follow_member_def resume_def ticket_reset_def set_error_def Let_def)

section \<open>A sale at the counter\<close>

definition demo_env :: register_env where
  "demo_env = \<lparr>re_rates = [], re_registered = False, re_rates_ready = True, re_staff = [], re_member_bps = None,
     re_saved_card = None, re_web = False, re_viewer = None, re_can_manage = True, re_client_phone = None,
     re_parse_cents = (\<lambda>_. Some 1000), re_rate_label = (\<lambda>c _. c), re_caption = id, re_number = (\<lambda>_. []), re_word = (\<lambda>_. ''retry'')\<rparr>"

definition demo_item :: item_row where
  "demo_item = \<lparr>ir_id = ''tea'', ir_kind = ''product'', ir_name = ''Tea'', ir_price = Some 500, ir_tax_class = ''standard'',
     ir_color = None, ir_image = None\<rparr>"

definition demo_order :: order_out where
  "demo_order = \<lparr>oo_id = ''o1'', oo_number = Some 7, oo_client = None, oo_status = ''open'', oo_total = 500, oo_subtotal = 500,
     oo_tax_total = 0, oo_deposit = 200, oo_gift_card = 0, oo_due = 300, oo_discount_cents = 0, oo_note = None,
     oo_discount = None, oo_lines = [\<lparr>ol_id = ''l1'', ol_description = ''Tea'', ol_quantity = 1, ol_unit = 500,
       ol_item = Some ''tea'', ol_booking = Some ''b1'', ol_tax_class = ''standard'', ol_staff = None, ol_discount = None\<rparr>]\<rparr>"

definition demo_ticket :: ticket where
  "demo_ticket = add_item demo_env demo_item blank_ticket"

lemma demo_line: "tk_lines demo_ticket = [line_from_item 1 demo_item]"
  by (simp add: demo_ticket_def add_item_def edit_lines_def set_error_def blank_ticket_def line_from_item_def
      with_member_discount_def demo_env_def demo_item_def Let_def)

lemma demo_reachable: "reach register_initial register_step demo_ticket"
  unfolding demo_ticket_def by (rule reach.intros(2), rule reach.intros(1), simp add: register_initial_def, rule reg_item)

theorem ticket_lines_unique_witness:
  "length (filter (\<lambda>l. sl_key l = line_key 1) (tk_lines demo_ticket)) = 1"
  using ticket_lines_unique [OF demo_reachable, of "line_from_item 1 demo_item" "line_from_item 1 demo_item"]
  by (simp add: demo_line) (simp add: line_from_item_def)

theorem save_once_witness:
  "snd (save_begin ''k'' None (save_end (sale_body_of None [] None None) demo_order demo_ticket))
   = Change_Order ''o1'' (sale_body_of None [line_from_item 1 demo_item] None None)"
proof -
  let ?b = "sale_body_of None [] None None"
  let ?s = "save_end ?b demo_order demo_ticket"
  have r: "reach register_initial register_step ?s"
    by (rule reach.intros(2) [OF demo_reachable reg_save])
  have saved: "tk_saved ?s = Some (?b, demo_order)" by (simp add: save_end_def)
  have f: "tk_client ?s = None" "tk_lines ?s = [line_from_item 1 demo_item]" "tk_sale_discount ?s = None"
    using demo_line by (simp_all add: save_end_def)
      (simp_all add: demo_ticket_def add_item_def edit_lines_def set_error_def blank_ticket_def Let_def)
  have ne: "?b \<noteq> sale_body_of (tk_client ?s) (tk_lines ?s) (tk_sale_discount ?s) None"
    unfolding f by (simp add: sale_body_of_def)
  from save_once [OF r saved, of "''k''" None "fst (save_begin ''k'' None ?s)" "snd (save_begin ''k'' None ?s)"] ne
  show ?thesis by (simp add: f) (simp add: demo_order_def)
qed

lemma demo_charge:
  "\<exists>s1 plan req. charge_begin demo_env ''k1'' (Some Tap) demo_ticket = Charging s1 plan req \<and> cp_use plan = Tap
     \<and> (\<exists>body. req = Create_Order body ''k1'') \<and> tk_gift_cents demo_ticket = 0"
  by (simp add: charge_begin_def demo_line save_begin_def saved_as_def action_start_def Let_def)
    (simp add: demo_ticket_def add_item_def edit_lines_def set_error_def blank_ticket_def idle_action_def
      action_set_error_def attempt_key_def Let_def)

theorem charge_guarded_witness:
  "case charge_begin demo_env ''k1'' (Some Tap) demo_ticket of
     Charging t plan req \<Rightarrow> aa_running (tk_action t) \<and> ticket_totals demo_env t = ticket_totals demo_env demo_ticket
   | _ \<Rightarrow> False"
  using charge_guarded [where env = demo_env and fresh = "''k1''" and m = "Some Tap" and s = demo_ticket] demo_charge by auto

theorem charge_retry_identical_witness:
  "\<exists>s1 plan req out s2 s3 sent s5. charge_begin demo_env ''k1'' (Some Tap) demo_ticket = Charging s1 plan req
     \<and> save_answer req demo_order s1 = (out, s2) \<and> payment_begin demo_env ''k2'' plan out s2 = (s3, sent)
     \<and> charge_begin demo_env ''k3'' (Some Tap) (action_failed demo_env J_Null ''payError'' s3) = Charging s5 plan (Already_Saved out)
     \<and> snd (payment_begin demo_env ''k4'' plan out s5) = sent"
proof -
  obtain s1 plan req body where c: "charge_begin demo_env ''k1'' (Some Tap) demo_ticket = Charging s1 plan req"
    "cp_use plan = Tap" "req = Create_Order body ''k1''" "tk_gift_cents demo_ticket = 0"
    using demo_charge by blast
  have a: "save_answer req demo_order s1 = (demo_order, save_end body demo_order s1)" by (simp add: save_answer_def c(3))
  obtain s3 sent where p: "payment_begin demo_env ''k2'' plan demo_order (save_end body demo_order s1) = (s3, sent)"
    by fastforce
  from charge_retry_identical [OF c(1) a _ _ p refl] c a p show ?thesis by (fastforce simp: demo_order_def)
qed

definition demo_held :: order_out where
  "demo_held = demo_order\<lparr>oo_note := Some ''back at five'', oo_lines := [\<lparr>ol_id = ''l1'', ol_description = ''Tea'', ol_quantity = 1,
     ol_unit = 500, ol_item = Some ''tea'', ol_booking = None, ol_tax_class = ''standard'', ol_staff = None, ol_discount = None\<rparr>]\<rparr>"

theorem resume_restores_body_witness:
  "map body_line_of (tk_lines (follow_member demo_env (resume demo_held [] blank_ticket))) = map body_line_of (tk_lines demo_ticket)
    \<and> (\<exists>body. snd (save_begin ''k2'' None (follow_member demo_env (resume demo_held [] blank_ticket))) = Change_Order ''o1'' body)"
proof -
  let ?body = "sale_body_of None [line_from_item 1 demo_item] None (Some ''back at five'')"
  have fresh: "tk_action demo_ticket = idle_action" "tk_saved demo_ticket = None" "tk_key demo_ticket = None" "tk_order demo_ticket = None"
    "tk_client demo_ticket = None" "tk_sale_discount demo_ticket = None"
    by (simp_all add: demo_ticket_def add_item_def edit_lines_def set_error_def blank_ticket_def idle_action_def action_set_error_def Let_def)
  then have "snd (hold_begin ''k1'' (Some ''back at five'') demo_ticket) = Some (Create_Order ?body ''k1'')"
    by (simp add: hold_begin_def demo_line save_begin_def saved_as_def action_start_def idle_action_def attempt_key_def Let_def)
  then obtain s1 where "hold_begin ''k1'' (Some ''back at five'') demo_ticket = (s1, Some (Create_Order ?body ''k1''))"
    by (metis prod.collapse)
  from resume_restores_body [OF this, of ?body demo_held blank_ticket demo_env "[]" None "''k2''"]
  show ?thesis
    by (simp add: request_body_def demo_held_def demo_order_def echoes_def Let_def sale_body_of_def blank_ticket_def demo_line
        body_line_of_def line_from_item_def demo_item_def)
qed

end
