(* ===== verification/Schedule.thy ===== *)
theory Schedule
  imports Datetime
begin

text \<open>
  The day column of the schedule (\<open>layoutDay\<close> in \<open>app-core/src/domain/bookings.ts\<close>): events that overlap
  chain into groups, and each group is split into first-fit columns. Instants are milliseconds; pixels and
  percentages, floating-point numbers in the code, are rationals.
\<close>

section \<open>Events\<close>

record calendar_event =
  ce_id :: string
  ce_slot :: string
  ce_booking :: "string option"
  ce_start :: int
  ce_end :: int
  ce_title :: string
  ce_subtitle :: string
  ce_status :: string
  ce_staff :: string
  ce_client :: "string option"
  ce_color :: "string option"
  ce_capacity :: int
  ce_booked :: int
  ce_deposit_required :: bool
  ce_deposit_cents :: int
  ce_deposit_status :: string
  ce_item :: string
  ce_before :: int \<comment> \<open>buffer minutes\<close>
  ce_after :: int
  ce_item_staff :: "string list"
  ce_resource :: "string option"
  ce_item_resources :: "string list"

record positioned_event =
  po_event :: calendar_event
  po_top :: rat
  po_height :: rat
  po_left :: rat
  po_width :: rat

datatype intent = Accent | Success | Warning | Danger | Neutral

definition status_intent :: "string \<Rightarrow> intent" where
  "status_intent status =
    (if status = ''confirmed'' then Accent else if status = ''completed'' then Success
     else if status = ''pending'' then Warning else if status = ''no_show'' then Danger else Neutral)"

definition minute_of_day :: "offsets \<Rightarrow> int \<Rightarrow> string \<Rightarrow> int" where
  "minute_of_day off d zone = (let w = wall_time off d zone in wl_hour w * 60 + wl_minute w)"

record layout_options =
  lo_day_start :: int
  lo_zone :: string
  lo_px_per_min :: rat
  lo_min_height :: rat
  lo_gap :: rat

section \<open>Columns and groups\<close>

text \<open>\<open>xs.findIndex(P)\<close>.\<close>

definition first_index :: "('a \<Rightarrow> bool) \<Rightarrow> 'a list \<Rightarrow> nat option" where
  "first_index P xs = (if \<exists>x\<in>set xs. P x then Some (length (takeWhile (\<lambda>x. \<not> P x) xs)) else None)"

text \<open>The end of each column so far, and each event's column.\<close>

fun place_columns :: "calendar_event list \<Rightarrow> int list \<Rightarrow> (string, nat) js_map \<Rightarrow> int list \<times> (string, nat) js_map" where
  "place_columns [] ends cols = (ends, cols)"
| "place_columns (e # es) ends cols =
    (case first_index (\<lambda>d. d \<le> ce_start e) ends of
       None \<Rightarrow> place_columns es (ends @ [ce_end e]) (AList.update (ce_id e) (length ends) cols)
     | Some c \<Rightarrow> place_columns es (ends[c := ce_end e]) (AList.update (ce_id e) c cols))"

definition flush_group :: "offsets \<Rightarrow> layout_options \<Rightarrow> calendar_event list \<Rightarrow> positioned_event list" where
  "flush_group off opts grp =
    (let day_end = add_days off (lo_day_start opts) 1 (lo_zone opts);
         start_minute = (\<lambda>d. if d \<le> lo_day_start opts then 0 else minute_of_day off d (lo_zone opts));
         end_minute = (\<lambda>d. if day_end \<le> d then 1440 else minute_of_day off d (lo_zone opts));
         (ends, cols) = place_columns grp [] [];
         count = length ends
     in map (\<lambda>e.
          let col = (case map_of cols (ce_id e) of Some c \<Rightarrow> c | None \<Rightarrow> 0);
              start_min = start_minute (ce_start e);
              end_min = max start_min (end_minute (ce_end e))
          in \<lparr>po_event = e, po_top = of_int start_min * lo_px_per_min opts,
              po_height = max (of_int (end_min - start_min) * lo_px_per_min opts - lo_gap opts) (lo_min_height opts),
              po_left = of_nat col / of_nat count * 100, po_width = 1 / of_nat count * 100\<rparr>) grp)"

text \<open>The groups, from the events in order, the open group and the latest end in it (0 when it is empty).\<close>

fun event_groups :: "calendar_event list \<Rightarrow> calendar_event list \<Rightarrow> int \<Rightarrow> calendar_event list list" where
  "event_groups [] grp latest = (if grp = [] then [] else [grp])"
| "event_groups (e # es) grp latest =
    (if grp \<noteq> [] \<and> latest \<le> ce_start e then grp # event_groups es [e] (max 0 (ce_end e))
     else event_groups es (grp @ [e]) (max latest (ce_end e)))"

definition event_order :: "calendar_event \<Rightarrow> int \<times> int" where
  "event_order e = (ce_start e, - ce_end e)"

definition events_in_day :: "offsets \<Rightarrow> layout_options \<Rightarrow> calendar_event list \<Rightarrow> calendar_event list" where
  "events_in_day off opts events =
    sort_key event_order (filter (\<lambda>e. ce_start e < add_days off (lo_day_start opts) 1 (lo_zone opts)
      \<and> lo_day_start opts < ce_end e) events)"

definition layout_day :: "offsets \<Rightarrow> layout_options \<Rightarrow> calendar_event list \<Rightarrow> positioned_event list" where
  "layout_day off opts events = concat (map (flush_group off opts) (event_groups (events_in_day off opts events) [] 0))"

section \<open>No two events that overlap share space\<close>

lemma distinct_map_sort_key: "distinct (map f (sort_key g xs)) \<longleftrightarrow> distinct (map f xs)"
  by (simp add: distinct_map)

lemma distinct_map_concat_member: "distinct (map f (concat gs)) \<Longrightarrow> g \<in> set gs \<Longrightarrow> distinct (map f g)"
  by (induction gs) auto

lemma sorted_wrt_either: "sorted_wrt P xs \<Longrightarrow> a \<in> set xs \<Longrightarrow> b \<in> set xs \<Longrightarrow> a \<noteq> b \<Longrightarrow> P a b \<or> P b a"
  by (induction xs) auto

definition overlap :: "calendar_event \<Rightarrow> calendar_event \<Rightarrow> bool" where
  "overlap a b \<longleftrightarrow> ce_start a < ce_end b \<and> ce_start b < ce_end a"

lemma first_index_Some: "first_index P xs = Some i \<Longrightarrow> i < length xs \<and> P (xs ! i)"
proof -
  assume *: "first_index P xs = Some i"
  then have i: "i = length (takeWhile (\<lambda>x. \<not> P x) xs)" "\<exists>x\<in>set xs. P x" by (auto simp: first_index_def split: if_splits)
  then have "i < length xs"
    by (metis length_takeWhile_le linorder_not_le order_antisym_conv takeWhile_eq_all_conv takeWhile_eq_take take_all_iff)
  with i nth_length_takeWhile [of "\<lambda>x. \<not> P x" xs] show ?thesis by simp
qed

text \<open>What placing keeps: a placed event's column ends no earlier than it does, and two events of a column
  do not overlap.\<close>

definition columns_ok :: "calendar_event list \<Rightarrow> int list \<Rightarrow> (string, nat) js_map \<Rightarrow> bool" where
  "columns_ok placed ends cols \<longleftrightarrow>
    (\<forall>e\<in>set placed. \<exists>c<length ends. map_of cols (ce_id e) = Some c \<and> ce_end e \<le> ends ! c)
    \<and> (\<forall>e\<in>set placed. \<forall>f\<in>set placed. e \<noteq> f \<and> map_of cols (ce_id e) = map_of cols (ce_id f) \<longrightarrow> \<not> overlap e f)"

lemma columns_ok_place:
  assumes ok: "columns_ok placed ends cols" and e: "ce_start e \<le> ce_end e" "ce_id e \<notin> ce_id ` set placed"
    and c: "c \<le> length ends" "c < length ends \<Longrightarrow> ends ! c \<le> ce_start e"
    and ends': "ends' = (if c < length ends then ends[c := ce_end e] else ends @ [ce_end e])"
  shows "columns_ok (placed @ [e]) ends' (AList.update (ce_id e) c cols)"
proof -
  have len: "c < length ends'" "length ends \<le> length ends'" using c ends' by auto
  have at: "ends' ! c = ce_end e" using c ends' by (auto simp: nth_append)
  have other: "map_of (AList.update (ce_id e) c cols) (ce_id f) = map_of cols (ce_id f)" if "f \<in> set placed" for f
    using that e(2) by (cases "ce_id f = ce_id e") (auto simp: update_conv' image_iff)
  have self: "map_of (AList.update (ce_id e) c cols) (ce_id e) = Some c" by (simp add: update_conv')
  have placed: "\<exists>d<length ends. map_of cols (ce_id f) = Some d \<and> ce_end f \<le> ends ! d" if "f \<in> set placed" for f
    using ok that by (simp add: columns_ok_def)
  have apart: "\<not> overlap e f \<and> \<not> overlap f e" if "f \<in> set placed" "map_of cols (ce_id f) = Some c" for f
  proof -
    from placed [OF that(1)] that(2) have "c < length ends" "ce_end f \<le> ends ! c" by auto
    with c(2) have "ce_end f \<le> ce_start e" by simp
    then show ?thesis by (simp add: overlap_def)
  qed
  have "\<exists>d<length ends'. map_of (AList.update (ce_id e) c cols) (ce_id f) = Some d \<and> ce_end f \<le> ends' ! d"
    if "f \<in> set (placed @ [e])" for f
  proof (cases "f = e")
    case True with len(1) at self show ?thesis by auto
  next
    case False
    with that have f: "f \<in> set placed" by simp
    from placed [OF f] obtain d where d: "d < length ends" "map_of cols (ce_id f) = Some d" "ce_end f \<le> ends ! d" by blast
    have "ce_end f \<le> ends' ! d"
      using d c e(1) by (cases "d = c") (auto simp: ends' nth_append)
    with d len(2) show ?thesis by (auto simp: other [OF f])
  qed
  moreover have "\<not> overlap a b" if "a \<in> set (placed @ [e])" "b \<in> set (placed @ [e])" "a \<noteq> b"
    "map_of (AList.update (ce_id e) c cols) (ce_id a) = map_of (AList.update (ce_id e) c cols) (ce_id b)" for a b
    using that ok apart other self unfolding columns_ok_def
    by (metis Un_iff empty_iff insert_iff list.set(1) list.set(2) set_append)
  ultimately show ?thesis unfolding columns_ok_def by blast
qed

lemma place_columns_ok:
  assumes "columns_ok placed ends cols" "\<And>e. e \<in> set es \<Longrightarrow> ce_start e \<le> ce_end e"
    "distinct (map ce_id (placed @ es))"
  shows "columns_ok (placed @ es) (fst (place_columns es ends cols)) (snd (place_columns es ends cols))"
  using assms
proof (induction es arbitrary: placed ends cols)
  case (Cons e es)
  have e: "ce_start e \<le> ce_end e" "ce_id e \<notin> ce_id ` set placed" using Cons.prems by auto
  show ?case
  proof (cases "first_index (\<lambda>d. d \<le> ce_start e) ends")
    case None
    have "columns_ok (placed @ [e]) (ends @ [ce_end e]) (AList.update (ce_id e) (length ends) cols)"
      by (rule columns_ok_place [OF Cons.prems(1) e]) simp_all
    from Cons.IH [OF this] Cons.prems None show ?thesis by simp
  next
    case (Some c)
    then have "c < length ends" "ends ! c \<le> ce_start e" using first_index_Some by auto
    then have "columns_ok (placed @ [e]) (ends[c := ce_end e]) (AList.update (ce_id e) c cols)"
      by (intro columns_ok_place [OF Cons.prems(1) e]) auto
    from Cons.IH [OF this] Cons.prems Some show ?thesis by simp
  qed
qed simp

lemma place_columns_bound:
  "length (fst (place_columns es ends cols)) \<ge> length ends"
proof (induction es arbitrary: ends cols)
  case (Cons e es)
  show ?case
    using Cons.IH [of "ends @ [ce_end e]" "AList.update (ce_id e) (length ends) cols"] Cons.IH
    by (cases "first_index (\<lambda>d. d \<le> ce_start e) ends") (auto intro: order_trans [OF _ Cons.IH])
qed simp

text \<open>The groups partition the events in order, and every event of a later group starts after all of an
  earlier one have ended.\<close>

definition ends_before :: "calendar_event list \<Rightarrow> calendar_event list \<Rightarrow> bool" where
  "ends_before g h \<longleftrightarrow> (\<forall>a\<in>set g. \<forall>b\<in>set h. ce_end a \<le> ce_start b)"

lemma concat_event_groups: "concat (event_groups es grp latest) = grp @ es"
  by (induction es grp latest rule: event_groups.induct) auto

lemma event_groups_before:
  assumes "sorted (map ce_start (grp @ es))" "\<forall>a\<in>set grp. ce_end a \<le> latest"
  shows "sorted_wrt ends_before (event_groups es grp latest)"
  using assms
proof (induction es grp latest rule: event_groups.induct)
  case (2 e es grp latest)
  show ?case
  proof (cases "grp \<noteq> [] \<and> latest \<le> ce_start e")
    case True
    have "ends_before grp h" if "h \<in> set (event_groups es [e] (max 0 (ce_end e)))" for h
    proof -
      have "b \<in> set (e # es)" if "b \<in> set h" for b
        using that \<open>h \<in> _\<close> concat_event_groups [of es "[e]" "max 0 (ce_end e)"] by (metis append_Cons append_Nil in_set_conv_decomp_first list.set_intros(1) set_concat UN_I)
      moreover have "ce_end a \<le> ce_start b" if "a \<in> set grp" "b \<in> set (e # es)" for a b
        using 2(3,4) True that by (auto simp: sorted_append intro: order_trans) (meson order_trans)
      ultimately show ?thesis by (auto simp: ends_before_def)
    qed
    with 2(1) [OF True] 2(3) True show ?thesis by (auto simp: sorted_append)
  next
    case False
    have "\<forall>a\<in>set (grp @ [e]). ce_end a \<le> max latest (ce_end e)" using 2(4) by (auto simp: le_max_iff_disj)
    with 2(2) [OF False] 2(3) False show ?thesis by auto
  qed
qed simp

lemma sorted_in_day: "sorted (map ce_start (events_in_day off opts events))"
proof -
  have "sorted (map event_order (events_in_day off opts events))" by (simp add: events_in_day_def)
  then have "sorted (map fst (map event_order (events_in_day off opts events)))"
    by (auto simp: sorted_map less_eq_prod_def elim!: sorted_wrt_mono_rel [rotated])
  then show ?thesis by (simp add: comp_def event_order_def)
qed

text \<open>Within a group: one width, and columns apart.\<close>

lemma column_next: "c < d \<Longrightarrow> of_nat c / of_nat n * 100 + 1 / of_nat n * 100 \<le> (of_nat d / of_nat n * 100 :: rat)"
proof -
  assume "c < d"
  then have "(of_nat c + 1 :: rat) \<le> of_nat d" by (metis Suc_leI of_nat_Suc of_nat_le_iff add.commute)
  then have "(of_nat c + 1 :: rat) / of_nat n \<le> of_nat d / of_nat n" by (rule divide_right_mono) simp
  then have "((of_nat c + 1 :: rat) / of_nat n) * 100 \<le> (of_nat d / of_nat n) * 100"
    by (rule mult_right_mono) simp
  then show ?thesis by (simp only: add_divide_distrib distrib_right)
qed

lemma column_inside: "c < n \<Longrightarrow> of_nat c / of_nat n * 100 + 1 / of_nat n * 100 \<le> (100 :: rat)"
  using column_next [of c n n] by simp

lemma flush_group_events: "map po_event (flush_group off opts g) = g"
  by (simp add: flush_group_def Let_def comp_def case_prod_unfold)

lemma flush_group_apart:
  assumes "\<forall>e\<in>set g. ce_start e \<le> ce_end e" "distinct (map ce_id g)"
    "p \<in> set (flush_group off opts g)" "q \<in> set (flush_group off opts g)"
    "po_event p \<noteq> po_event q" "overlap (po_event p) (po_event q)"
  shows "po_width p = po_width q \<and> (po_left p + po_width p \<le> po_left q \<or> po_left q + po_width q \<le> po_left p)"
proof -
  let ?ends = "fst (place_columns g [] [])" and ?cols = "snd (place_columns g [] [])"
  have ok: "columns_ok g ?ends ?cols"
    using place_columns_ok [of "[]" "[]" "[]" g] assms(1,2) by (simp add: columns_ok_def)
  have shape: "\<exists>c<length ?ends. map_of ?cols (ce_id (po_event r)) = Some c \<and> po_left r = of_nat c / of_nat (length ?ends) * 100
      \<and> po_width r = 1 / of_nat (length ?ends) * 100 \<and> po_event r \<in> set g" if "r \<in> set (flush_group off opts g)" for r
    using that ok by (auto simp: flush_group_def Let_def case_prod_unfold columns_ok_def)
  from shape [OF assms(3)] shape [OF assms(4)] obtain c d where
    c: "c < length ?ends" "map_of ?cols (ce_id (po_event p)) = Some c" "po_left p = of_nat c / of_nat (length ?ends) * 100"
      "po_width p = 1 / of_nat (length ?ends) * 100" "po_event p \<in> set g" and
    d: "d < length ?ends" "map_of ?cols (ce_id (po_event q)) = Some d" "po_left q = of_nat d / of_nat (length ?ends) * 100"
      "po_width q = 1 / of_nat (length ?ends) * 100" "po_event q \<in> set g" by blast
  have "c \<noteq> d" using ok assms(5,6) c d unfolding columns_ok_def by metis
  then show ?thesis
    unfolding c(3,4) d(3,4) using column_next [of c d "length ?ends"] column_next [of d c "length ?ends"] by linarith
qed

lemma flush_group_inside:
  assumes "\<forall>e\<in>set g. ce_start e \<le> ce_end e" "distinct (map ce_id g)" "p \<in> set (flush_group off opts g)"
  shows "0 \<le> po_left p \<and> po_left p + po_width p \<le> 100"
proof -
  let ?ends = "fst (place_columns g [] [])" and ?cols = "snd (place_columns g [] [])"
  have ok: "columns_ok g ?ends ?cols"
    using place_columns_ok [of "[]" "[]" "[]" g] assms(1,2) by (simp add: columns_ok_def)
  then obtain c where "c < length ?ends" "po_left p = of_nat c / of_nat (length ?ends) * 100"
      "po_width p = 1 / of_nat (length ?ends) * 100"
    using assms(3) by (auto simp: flush_group_def Let_def case_prod_unfold columns_ok_def)
  then show ?thesis using column_inside [of c "length ?ends"] by simp
qed

text \<open>C21: the day column shows every event of the day exactly once, in order of start, inside the column; and
  two events that overlap in time, however many others chain them, never share horizontal space: they
  have the same width and one ends where or before the other begins.\<close>

theorem layout_day_no_overlap:
  assumes "\<forall>e\<in>set events. ce_start e \<le> ce_end e" "distinct (map ce_id events)"
  shows "map po_event (layout_day off opts events) = events_in_day off opts events
    \<and> (\<forall>p\<in>set (layout_day off opts events). 0 \<le> po_left p \<and> po_left p + po_width p \<le> 100)
    \<and> (\<forall>p\<in>set (layout_day off opts events). \<forall>q\<in>set (layout_day off opts events).
        po_event p \<noteq> po_event q \<and> overlap (po_event p) (po_event q) \<longrightarrow>
        po_width p = po_width q \<and> (po_left p + po_width p \<le> po_left q \<or> po_left q + po_width q \<le> po_left p))"
proof -
  let ?es = "events_in_day off opts events" and ?gs = "event_groups (events_in_day off opts events) [] 0"
  have es: "\<forall>e\<in>set ?es. ce_start e \<le> ce_end e" "distinct (map ce_id ?es)"
    using assms by (simp_all add: events_in_day_def distinct_map_sort_key distinct_map_filter)
  have concat: "concat ?gs = ?es" by (simp add: concat_event_groups)
  have g: "\<forall>e\<in>set g. ce_start e \<le> ce_end e" "distinct (map ce_id g)" if "g \<in> set ?gs" for g
  proof -
    have "set g \<subseteq> set ?es" using that concat by (metis Sup_upper image_eqI set_concat)
    with es(1) show "\<forall>e\<in>set g. ce_start e \<le> ce_end e" by blast
    from es(2) that show "distinct (map ce_id g)" by (metis concat distinct_map_concat_member)
  qed
  have sep: "sorted_wrt ends_before ?gs"
    by (rule event_groups_before) (simp_all add: sorted_in_day)
  have "map po_event (layout_day off opts events) = ?es"
    by (simp add: layout_day_def map_concat comp_def flush_group_events concat)
  moreover have "0 \<le> po_left p \<and> po_left p + po_width p \<le> 100" if "p \<in> set (layout_day off opts events)" for p
  proof -
    from that obtain h where "h \<in> set ?gs" "p \<in> set (flush_group off opts h)" by (auto simp: layout_day_def)
    then show ?thesis using flush_group_inside g by blast
  qed
  moreover have "po_width p = po_width q \<and> (po_left p + po_width p \<le> po_left q \<or> po_left q + po_width q \<le> po_left p)"
    if p: "p \<in> set (layout_day off opts events)" and q: "q \<in> set (layout_day off opts events)"
      and ne: "po_event p \<noteq> po_event q" "overlap (po_event p) (po_event q)" for p q
  proof -
    from p q obtain a b where ab: "a \<in> set ?gs" "p \<in> set (flush_group off opts a)" "b \<in> set ?gs" "q \<in> set (flush_group off opts b)"
      by (auto simp: layout_day_def)
    have mem: "po_event r \<in> set h" if "r \<in> set (flush_group off opts h)" for r h
      using that flush_group_events [of off opts h] by (metis image_eqI list.set_map)
    have "a = b"
    proof (rule ccontr)
      assume "a \<noteq> b"
      with sep ab(1,3) have "ends_before a b \<or> ends_before b a" by (rule sorted_wrt_either)
      with ne(2) mem [OF ab(2)] mem [OF ab(4)] show False by (auto simp: ends_before_def overlap_def dest!: bspec)
    qed
    with ab g flush_group_apart [OF _ _ _ _ ne] show ?thesis by metis
  qed
  ultimately show ?thesis by blast
qed

text \<open>Three visits, the first and the last chained by the second one.\<close>

definition demo_event :: "string \<Rightarrow> int \<Rightarrow> int \<Rightarrow> calendar_event" where
  "demo_event i a b = \<lparr>ce_id = i, ce_slot = i, ce_booking = Some i, ce_start = a * ms_per_min, ce_end = b * ms_per_min,
     ce_title = [], ce_subtitle = [], ce_status = ''confirmed'', ce_staff = ''m1'', ce_client = None, ce_color = None,
     ce_capacity = 1, ce_booked = 1, ce_deposit_required = False, ce_deposit_cents = 0, ce_deposit_status = ''none'',
     ce_item = ''cut'', ce_before = 0, ce_after = 0, ce_item_staff = [], ce_resource = None, ce_item_resources = []\<rparr>"

definition demo_options :: layout_options where
  "demo_options = \<lparr>lo_day_start = 0, lo_zone = ''UTC'', lo_px_per_min = 1, lo_min_height = 18, lo_gap = 1\<rparr>"

theorem layout_day_no_overlap_witness:
  "map (\<lambda>p. (po_left p, po_width p)) (layout_day (\<lambda>_ _. 0) demo_options
     [demo_event ''a'' 540 600, demo_event ''b'' 570 660, demo_event ''c'' 600 630]) = [(0, 50), (50, 50), (0, 50)]
   \<and> map po_event (layout_day (\<lambda>_ _. 0) demo_options
     [demo_event ''a'' 540 600, demo_event ''b'' 570 660, demo_event ''c'' 600 630])
     = events_in_day (\<lambda>_ _. 0) demo_options [demo_event ''a'' 540 600, demo_event ''b'' 570 660, demo_event ''c'' 600 630]"
proof (rule conjI)
  show "map (\<lambda>p. (po_left p, po_width p)) (layout_day (\<lambda>_ _. 0) demo_options
     [demo_event ''a'' 540 600, demo_event ''b'' 570 660, demo_event ''c'' 600 630]) = [(0, 50), (50, 50), (0, 50)]"
    by code_simp
  show "map po_event (layout_day (\<lambda>_ _. 0) demo_options
     [demo_event ''a'' 540 600, demo_event ''b'' 570 660, demo_event ''c'' 600 630])
     = events_in_day (\<lambda>_ _. 0) demo_options [demo_event ''a'' 540 600, demo_event ''b'' 570 660, demo_event ''c'' 600 630]"
    by (rule layout_day_no_overlap [THEN conjunct1]) (simp_all add: demo_event_def ms_per_min_def)
qed

end
