(* ===== verification/Slots.thy ===== *)
theory Slots
  imports Schedule
begin

text \<open>
  Working hours, time off and the checks made before a visit is booked or moved
  (\<open>buildAvailability\<close>, \<open>slotProblem\<close>, \<open>freeResources\<close> and \<open>planMove\<close> in
  \<open>app-core/src/domain/bookings.ts\<close>). Stored timestamps are read by the argument \<open>parse\<close> (the platform's
  \<open>Date\<close> constructor). A time of day is a stored clock ("09:00:00"); a text that is none would be an invalid
  date in the code and is the instant 0 here. Messages are keys of the string catalogue with their arguments.
\<close>

section \<open>Hours and time off\<close>

record hours_row =
  hw_staff :: string
  hw_basis :: string
  hw_weekday :: "int option"
  hw_date :: "string option"
  hw_start :: "string option"
  hw_end :: "string option"
  hw_available :: int

record away_row =
  aw_id :: string
  aw_staff :: "string option"
  aw_starts :: string
  aw_ends :: string
  aw_reason :: "string option"
  aw_note :: "string option"

datatype block_kind = Time_Off_Block | Break_Block | Closure_Block | Job_Block

record schedule_block =
  bk_id :: string
  bk_staff :: "string option"
  bk_start :: int
  bk_end :: int
  bk_kind :: block_kind
  bk_label :: string
  bk_booking :: "string option"

definition crew_note :: string where "crew_note = ''booking:''"

definition crew_booking :: "string option \<Rightarrow> string option" where
  "crew_booking note = (case note of
     Some s \<Rightarrow> if take (length crew_note) s = crew_note then Some (drop (length crew_note) s) else None
   | None \<Rightarrow> None)"

type_synonym time_window = "int \<times> int"

definition weekday_index :: "offsets \<Rightarrow> int \<Rightarrow> string \<Rightarrow> int" where
  "weekday_index off d zone = js_rem (wl_weekday (wall_time off d zone) + 6) 7"

definition block_of :: "(string \<Rightarrow> int) \<Rightarrow> away_row \<Rightarrow> schedule_block" where
  "block_of parse a =
    (let booking = crew_booking (aw_note a)
     in \<lparr>bk_id = aw_id a, bk_staff = aw_staff a, bk_start = parse (aw_starts a), bk_end = parse (aw_ends a),
         bk_kind = (if aw_staff a = None then Closure_Block else if booking \<noteq> None then Job_Block else Time_Off_Block),
         bk_label = (case aw_reason a of Some r \<Rightarrow> r | None \<Rightarrow> []), bk_booking = booking\<rparr>)"

record availability =
  av_hours :: "hours_row list"
  av_away :: "schedule_block list"
  av_zone :: string

definition build_availability :: "(string \<Rightarrow> int) \<Rightarrow> hours_row list \<Rightarrow> away_row list \<Rightarrow> string \<Rightarrow> availability" where
  "build_availability parse hours away zone = \<lparr>av_hours = hours, av_away = map (block_of parse) away, av_zone = zone\<rparr>"

definition clock_on :: "offsets \<Rightarrow> int \<Rightarrow> string \<Rightarrow> string \<Rightarrow> int" where
  "clock_on off day hhmm zone = (case combine_day_and_time off day hhmm zone of Some t \<Rightarrow> t | None \<Rightarrow> 0)"

definition day_rows :: "offsets \<Rightarrow> availability \<Rightarrow> string \<Rightarrow> int \<Rightarrow> hours_row list" where
  "day_rows off av staff day =
    (let key = date_key off day (av_zone av);
         dated = filter (\<lambda>h. hw_staff h = staff \<and> hw_basis h = ''date'' \<and> hw_date h = Some key) (av_hours av)
     in if dated \<noteq> [] then dated
        else filter (\<lambda>h. hw_staff h = staff \<and> hw_basis h = ''recurring''
               \<and> hw_weekday h = Some (weekday_index off day (av_zone av))) (av_hours av))"

definition row_window :: "offsets \<Rightarrow> availability \<Rightarrow> int \<Rightarrow> hours_row \<Rightarrow> time_window" where
  "row_window off av day h =
    (clock_on off day (case hw_start h of Some s \<Rightarrow> s | None \<Rightarrow> ''00:00'') (av_zone av),
     case hw_end h of None \<Rightarrow> add_days off day 1 (av_zone av) | Some e \<Rightarrow> clock_on off day e (av_zone av))"

definition av_windows :: "offsets \<Rightarrow> availability \<Rightarrow> string \<Rightarrow> int \<Rightarrow> time_window list option" where
  "av_windows off av staff day =
    (let rows = day_rows off av staff day
     in if rows = [] then None
        else Some (sort_key fst (map (row_window off av day) (filter (\<lambda>h. hw_available h = 1) rows))))"

text \<open>The gaps between the windows of a day; \<open>i\<close> is the index of the later window.\<close>

fun breaks_between :: "string \<Rightarrow> string \<Rightarrow> nat \<Rightarrow> time_window list \<Rightarrow> schedule_block list" where
  "breaks_between label staff i (prev # cur # rest) =
    (if snd prev < fst cur
     then [\<lparr>bk_id = ''break_'' @ staff @ ''_'' @ int_string (int i), bk_staff = Some staff, bk_start = snd prev,
            bk_end = fst cur, bk_kind = Break_Block, bk_label = label, bk_booking = None\<rparr>]
     else []) @ breaks_between label staff (Suc i) (cur # rest)"
| "breaks_between label staff i _ = []"

definition av_blocks :: "offsets \<Rightarrow> string \<Rightarrow> availability \<Rightarrow> int \<Rightarrow> schedule_block list" where
  "av_blocks off break_label av day =
    (let from = start_of_day off day (av_zone av); to = add_days off from 1 (av_zone av);
         away = filter (\<lambda>b. bk_start b < to \<and> from < bk_end b) (av_away av)
     in away @ concat (map (\<lambda>staff. breaks_between break_label staff 1
          (case av_windows off av staff day of Some w \<Rightarrow> w | None \<Rightarrow> [])) (js_unique (map hw_staff (av_hours av)))))"

definition av_hours_of :: "offsets \<Rightarrow> availability \<Rightarrow> string \<Rightarrow> int \<Rightarrow> time_window option" where
  "av_hours_of off av staff day =
    (case av_windows off av staff day of
       Some (w # ws) \<Rightarrow> Some (fst w, snd (last (w # ws))) | _ \<Rightarrow> None)"

definition av_away_at :: "availability \<Rightarrow> string \<Rightarrow> int \<Rightarrow> int \<Rightarrow> schedule_block option" where
  "av_away_at av staff start end =
    find (\<lambda>b. (bk_staff b = None \<or> bk_staff b = Some staff) \<and> bk_start b < end \<and> start < bk_end b) (av_away av)"

definition av_closed :: "offsets \<Rightarrow> availability \<Rightarrow> int \<Rightarrow> schedule_block option" where
  "av_closed off av day =
    (let from = start_of_day off day (av_zone av); to = add_days off from 1 (av_zone av)
     in find (\<lambda>b. bk_staff b = None \<and> bk_start b \<le> from \<and> to \<le> bk_end b) (av_away av))"

section \<open>What is placed\<close>

datatype move_problem = No_Problem | Overlap | Off_Hours | Time_Off | Closed | Past | Full | Not_Offered | No_Resource

type_synonym slot_message = "string \<times> string list"

definition no_message :: slot_message where "no_message = ([], [])"

record slot_item =
  si_id :: string
  si_capacity :: "int option"
  si_before :: int
  si_after :: int
  si_staff :: "string list"
  si_resources :: "string list"
  si_needs_resource :: "bool option"

record resource_row =
  rr_id :: string
  rr_name :: string
  rr_active :: bool

definition active_pool :: "resource_row list \<Rightarrow> string list \<Rightarrow> string list" where
  "active_pool rows ids = filter (\<lambda>i. i \<in> rr_id ` set (filter rr_active rows)) ids"

definition offers :: "string list \<Rightarrow> string \<Rightarrow> bool" where
  "offers staff_ids staff \<longleftrightarrow> staff_ids = [] \<or> staff \<in> set staff_ids"

definition event_item :: "'a calendar_event_scheme \<Rightarrow> resource_row list option \<Rightarrow> slot_item" where
  "event_item e rooms = \<lparr>si_id = ce_item e, si_capacity = Some (ce_capacity e), si_before = ce_before e,
     si_after = ce_after e, si_staff = [],
     si_resources = (case rooms of Some rs \<Rightarrow> active_pool rs (ce_item_resources e) | None \<Rightarrow> []),
     si_needs_resource = Some (rooms \<noteq> None \<and> ce_item_resources e \<noteq> [])\<rparr>"

text \<open>The span a visit takes with its buffers.\<close>

definition widened :: "'a calendar_event_scheme \<Rightarrow> int \<Rightarrow> int \<Rightarrow> bool" where
  "widened e from to \<longleftrightarrow> ce_start e - ce_before e * ms_per_min < to \<and> from < ce_end e + ce_after e * ms_per_min"

definition free_resources ::
  "'a calendar_event_scheme list \<Rightarrow> string list \<Rightarrow> int \<Rightarrow> int \<Rightarrow> int \<Rightarrow> int \<Rightarrow> string option \<Rightarrow> string list" where
  "free_resources events candidates before after start end ignore =
    (let from = start - before * ms_per_min; to = end + after * ms_per_min;
         held = map ce_resource (filter (\<lambda>e. Some (ce_id e) \<noteq> ignore \<and> ce_status e \<noteq> ''canceled''
           \<and> ce_resource e \<noteq> None \<and> widened e from to) events)
     in filter (\<lambda>i. Some i \<notin> set held) (js_unique candidates))"

definition live_events :: "'a calendar_event_scheme list \<Rightarrow> string option \<Rightarrow> 'a calendar_event_scheme list" where
  "live_events events ignore = filter (\<lambda>e. Some (ce_id e) \<noteq> ignore \<and> ce_status e \<noteq> ''canceled'') events"

definition joinable :: "slot_item option \<Rightarrow> int \<Rightarrow> int \<Rightarrow> 'a calendar_event_scheme \<Rightarrow> bool" where
  "joinable item start end e = (case item of None \<Rightarrow> False
     | Some i \<Rightarrow> ce_booked e < ce_capacity e \<and> ce_item e = si_id i \<and> ce_start e = start \<and> ce_end e = end)"

text \<open>The class session the visit would join, when the service has seats.\<close>

definition session_at :: "'a calendar_event_scheme list \<Rightarrow> slot_item option \<Rightarrow> string \<Rightarrow> int \<Rightarrow> 'a calendar_event_scheme option" where
  "session_at live item staff start = (case item of None \<Rightarrow> None
     | Some i \<Rightarrow> if (case si_capacity i of Some c \<Rightarrow> c | None \<Rightarrow> 1) > 1
         then find (\<lambda>e. ce_item e = si_id i \<and> ce_staff e = staff \<and> ce_start e = start) live else None)"

definition slot_problem ::
  "offsets \<Rightarrow> availability \<Rightarrow> 'a calendar_event_scheme list \<Rightarrow> (string \<Rightarrow> string) \<Rightarrow> string \<Rightarrow> int \<Rightarrow> int
    \<Rightarrow> string option \<Rightarrow> slot_item option \<Rightarrow> string option \<Rightarrow> move_problem \<times> slot_message" where
  "slot_problem off av events first_name staff start end ignore item hold =
    (let who = first_name staff; zone = av_zone av; live = live_events events ignore;
         from = start - (case item of Some i \<Rightarrow> si_before i | None \<Rightarrow> 0) * ms_per_min;
         to = end + (case item of Some i \<Rightarrow> si_after i | None \<Rightarrow> 0) * ms_per_min
     in if \<not> (case item of Some i \<Rightarrow> offers (si_staff i) staff | None \<Rightarrow> True)
        then (Not_Offered, (''problemNotOffered'', [who]))
        else case av_away_at av staff start end of
          Some b \<Rightarrow> (if bk_staff b = None then (Closed, (''problemClosed'', [bk_label b]))
                     else (Time_Off, (''problemTimeOff'', [who, bk_label b])))
        | None \<Rightarrow>
         (if (case av_windows off av staff start of None \<Rightarrow> False
              | Some w \<Rightarrow> date_key off end zone \<noteq> date_key off start zone \<or> \<not> (\<exists>x\<in>set w. fst x \<le> start \<and> end \<le> snd x))
          then (Off_Hours, (''problemOffHours'', [who]))
          else case session_at live item staff start of
            Some s \<Rightarrow> (if ce_booked s \<ge> ce_capacity s then (Full, (''problemClassFull'', [])) else (No_Problem, no_message))
          | None \<Rightarrow>
           (if \<exists>e\<in>set live. ce_staff e = staff \<and> widened e from to \<and> \<not> joinable item start end e
            then (Overlap, (''problemOverlap'', [who]))
            else case item of
              None \<Rightarrow> (No_Problem, no_message)
            | Some i \<Rightarrow>
               if (case si_needs_resource i of Some b \<Rightarrow> b | None \<Rightarrow> si_resources i \<noteq> [])
                  \<and> free_resources events (case hold of None \<Rightarrow> si_resources i | Some h \<Rightarrow> h # si_resources i)
                      (si_before i) (si_after i) start end ignore = []
               then (No_Resource, (''problemResource'', [])) else (No_Problem, no_message))))"

section \<open>Moving a visit\<close>

record move_plan =
  mp_start :: int
  mp_end :: int
  mp_staff :: string
  mp_label :: string
  mp_problem :: move_problem
  mp_message :: slot_message

datatype move_mode = Move | Resize

record schedule_words =
  sw_range :: "int \<Rightarrow> int \<Rightarrow> string \<Rightarrow> string"
  sw_short_range :: "int \<Rightarrow> int \<Rightarrow> string \<Rightarrow> string"
  sw_time :: "int \<Rightarrow> string \<Rightarrow> string"
  sw_weekday_time :: "int \<Rightarrow> string \<Rightarrow> string"
  sw_first_name :: "string \<Rightarrow> string"

definition plan_move ::
  "offsets \<Rightarrow> schedule_words \<Rightarrow> 'a calendar_event_scheme \<Rightarrow> rat \<Rightarrow> string \<Rightarrow> availability \<Rightarrow> 'a calendar_event_scheme list
    \<Rightarrow> resource_row list option \<Rightarrow> int \<Rightarrow> move_mode \<Rightarrow> move_plan" where
  "plan_move off words event delta_min staff av events rooms now mode =
    (let snapped = js_round (delta_min / 5) * 5;
         start = (if mode = Move then ce_start event + snapped * ms_per_min else ce_start event);
         end = ce_end event + (if mode = Resize then max (snapped * ms_per_min) (15 * ms_per_min - (ce_end event - ce_start event))
                               else snapped * ms_per_min);
         found = (if mode = Move \<and> start < now \<and> start \<noteq> ce_start event then (Past, (''problemPast'', []))
           else slot_problem off av events (sw_first_name words) staff start end (Some (ce_id event))
             (Some ((event_item event rooms)\<lparr>si_staff := if staff = ce_staff event then [] else ce_item_staff event\<rparr>))
             (ce_resource event))
     in \<lparr>mp_start = start, mp_end = end, mp_staff = staff, mp_label = sw_range words start end (av_zone av),
         mp_problem = fst found,
         mp_message = (if fst found \<noteq> No_Problem then snd found
           else if mode = Resize then (''resizeTo'', [sw_time words end (av_zone av),
               int_string (js_round (of_int (end - start) / of_int ms_per_min))])
           else (''dragTo'', [sw_weekday_time words start (av_zone av), sw_first_name words staff]))\<rparr>)"

section \<open>The checks are exact\<close>

definition away_for :: "string \<Rightarrow> int \<Rightarrow> int \<Rightarrow> schedule_block \<Rightarrow> bool" where
  "away_for staff start end b \<longleftrightarrow> (bk_staff b = None \<or> bk_staff b = Some staff) \<and> bk_start b < end \<and> start < bk_end b"

definition within_hours :: "offsets \<Rightarrow> availability \<Rightarrow> string \<Rightarrow> int \<Rightarrow> int \<Rightarrow> bool" where
  "within_hours off av staff start end \<longleftrightarrow> (case av_windows off av staff start of None \<Rightarrow> True
     | Some w \<Rightarrow> date_key off end (av_zone av) = date_key off start (av_zone av) \<and> (\<exists>x\<in>set w. fst x \<le> start \<and> end \<le> snd x))"

text \<open>No live visit of the member, buffers included, takes part of the span, except one to be joined.\<close>

definition member_free :: "'a calendar_event_scheme list \<Rightarrow> slot_item option \<Rightarrow> string \<Rightarrow> int \<Rightarrow> int \<Rightarrow> bool" where
  "member_free live item staff start end \<longleftrightarrow> (\<forall>e\<in>set live. ce_staff e = staff \<and> \<not> joinable item start end e \<longrightarrow>
     \<not> widened e (start - (case item of Some i \<Rightarrow> si_before i | None \<Rightarrow> 0) * ms_per_min)
                 (end + (case item of Some i \<Rightarrow> si_after i | None \<Rightarrow> 0) * ms_per_min))"

definition room_free :: "'a calendar_event_scheme list \<Rightarrow> slot_item \<Rightarrow> int \<Rightarrow> int \<Rightarrow> string \<Rightarrow> bool" where
  "room_free live i start end room \<longleftrightarrow> (\<forall>e\<in>set live. ce_resource e = Some room \<longrightarrow>
     \<not> widened e (start - si_before i * ms_per_min) (end + si_after i * ms_per_min))"

definition needs_room :: "slot_item \<Rightarrow> bool" where
  "needs_room i \<longleftrightarrow> (case si_needs_resource i of Some b \<Rightarrow> b | None \<Rightarrow> si_resources i \<noteq> [])"

lemma away_at_None: "av_away_at av staff start end = None \<longleftrightarrow> (\<forall>b\<in>set (av_away av). \<not> away_for staff start end b)"
  by (auto simp: av_away_at_def away_for_def find_None_iff)

lemma away_at_Some: "av_away_at av staff start end = Some b \<Longrightarrow> b \<in> set (av_away av) \<and> away_for staff start end b"
  by (auto simp: av_away_at_def away_for_def find_Some_iff)

lemma set_free_resources:
  "set (free_resources events candidates (si_before i) (si_after i) start end ignore)
   = {r \<in> set candidates. room_free (live_events events ignore) i start end r}"
  by (auto simp: free_resources_def room_free_def live_events_def Let_def image_iff)

lemma free_resources_Nil:
  "free_resources events candidates (si_before i) (si_after i) start end ignore = []
   \<longleftrightarrow> (\<forall>r\<in>set candidates. \<not> room_free (live_events events ignore) i start end r)"
  using set_free_resources [of events candidates i start "end" ignore] by (auto simp flip: set_empty)

text \<open>The chain of guards, each condition in its declarative form.\<close>

lemma slot_problem_fst:
  "fst (slot_problem off av events first_name staff start end ignore item hold) =
    (if \<not> (case item of Some i \<Rightarrow> offers (si_staff i) staff | None \<Rightarrow> True) then Not_Offered
     else case av_away_at av staff start end of Some b \<Rightarrow> if bk_staff b = None then Closed else Time_Off
     | None \<Rightarrow> if \<not> within_hours off av staff start end then Off_Hours
       else case session_at (live_events events ignore) item staff start of
         Some s \<Rightarrow> if ce_capacity s \<le> ce_booked s then Full else No_Problem
       | None \<Rightarrow> if \<not> member_free (live_events events ignore) item staff start end then Overlap
         else case item of None \<Rightarrow> No_Problem
         | Some i \<Rightarrow> if needs_room i \<and> (\<forall>r\<in>set (case hold of None \<Rightarrow> si_resources i | Some h \<Rightarrow> h # si_resources i).
               \<not> room_free (live_events events ignore) i start end r) then No_Resource else No_Problem)"
proof -
  have hours: "(case av_windows off av staff start of None \<Rightarrow> False
      | Some w \<Rightarrow> date_key off end (av_zone av) \<noteq> date_key off start (av_zone av) \<or> \<not> (\<exists>x\<in>set w. fst x \<le> start \<and> end \<le> snd x))
      \<longleftrightarrow> \<not> within_hours off av staff start end"
    by (simp add: within_hours_def split: option.split)
  have clash: "(\<exists>e\<in>set (live_events events ignore). ce_staff e = staff
        \<and> widened e (start - (case item of Some i \<Rightarrow> si_before i | None \<Rightarrow> 0) * ms_per_min)
            (end + (case item of Some i \<Rightarrow> si_after i | None \<Rightarrow> 0) * ms_per_min) \<and> \<not> joinable item start end e)
      \<longleftrightarrow> \<not> member_free (live_events events ignore) item staff start end"
    by (auto simp: member_free_def)
  show ?thesis
    unfolding slot_problem_def Let_def hours clash free_resources_Nil needs_room_def [symmetric]
    by (simp only: if_distrib [of fst] option.case_distrib [of fst] fst_conv)
qed

text \<open>C22: a time is offered for a visit exactly when a declarative reading of the booking rules allows it: the
  member offers the service; no closure and no time off of the member overlaps it; it lies on one day within a
  window of the member's hours, when they have hours; and either it joins a class session with a seat left, or
  the member has no other live visit there, buffers included, and a room is free when the service needs one.\<close>

theorem slot_problem_exact:
  "fst (slot_problem off av events first_name staff start end ignore item hold) = No_Problem
   \<longleftrightarrow> (case item of Some i \<Rightarrow> offers (si_staff i) staff | None \<Rightarrow> True)
     \<and> (\<forall>b\<in>set (av_away av). \<not> away_for staff start end b)
     \<and> within_hours off av staff start end
     \<and> (case session_at (live_events events ignore) item staff start of
          Some s \<Rightarrow> ce_booked s < ce_capacity s
        | None \<Rightarrow> member_free (live_events events ignore) item staff start end
            \<and> (case item of None \<Rightarrow> True | Some i \<Rightarrow> needs_room i \<longrightarrow>
                (\<exists>r\<in>set (case hold of None \<Rightarrow> si_resources i | Some h \<Rightarrow> h # si_resources i).
                  room_free (live_events events ignore) i start end r)))"
proof (cases "av_away_at av staff start end")
  case (Some b)
  then have "\<not> (\<forall>b\<in>set (av_away av). \<not> away_for staff start end b)" using away_at_Some by blast
  with Some show ?thesis by (simp add: slot_problem_fst)
next
  case None
  then have "\<forall>b\<in>set (av_away av). \<not> away_for staff start end b" by (simp add: away_at_None)
  with None show ?thesis
    by (cases item; cases "session_at (live_events events ignore) item staff start") (auto simp: slot_problem_fst not_le)
qed

lemma session_at_live:
  assumes "session_at (live_events events ignore) item staff start = Some s"
  shows "s \<in> set events \<and> ce_staff s = staff \<and> ce_start s = start \<and> ce_status s \<noteq> ''canceled''"
proof -
  from assms obtain i where i: "item = Some i" by (cases item) (auto simp: session_at_def)
  with assms have "find (\<lambda>e. ce_item e = si_id i \<and> ce_staff e = staff \<and> ce_start e = start) (live_events events ignore) = Some s"
    by (simp add: session_at_def split: if_splits)
  then have "s \<in> set (live_events events ignore)" "ce_staff s = staff" "ce_start s = start"
    by (auto simp: find_Some_iff)
  then show ?thesis by (simp add: live_events_def)
qed

lemma slot_ok:
  assumes "fst (slot_problem off av events first_name staff start end ignore item hold) = No_Problem"
  shows "(\<forall>b\<in>set (av_away av). \<not> away_for staff start end b) \<and> within_hours off av staff start end"
  using assms unfolding slot_problem_fst away_at_None [symmetric] by (auto split: option.splits if_splits)

text \<open>The problem named is a true one. A time refused as closed, time off, off hours, full, overlapping, not
  offered or without a room has that very obstacle; and only moving can be refused as past.\<close>

theorem slot_problem_reason:
  "case fst (slot_problem off av events first_name staff start end ignore item hold) of
     No_Problem \<Rightarrow> True
   | Not_Offered \<Rightarrow> (\<exists>i. item = Some i \<and> si_staff i \<noteq> [] \<and> staff \<notin> set (si_staff i))
   | Closed \<Rightarrow> (\<exists>b\<in>set (av_away av). bk_staff b = None \<and> bk_start b < end \<and> start < bk_end b)
   | Time_Off \<Rightarrow> (\<exists>b\<in>set (av_away av). bk_staff b = Some staff \<and> bk_start b < end \<and> start < bk_end b)
   | Off_Hours \<Rightarrow> \<not> within_hours off av staff start end
   | Full \<Rightarrow> (\<exists>s\<in>set events. ce_staff s = staff \<and> ce_start s = start \<and> ce_status s \<noteq> ''canceled'' \<and> ce_capacity s \<le> ce_booked s)
   | Overlap \<Rightarrow> \<not> member_free (live_events events ignore) item staff start end
   | No_Resource \<Rightarrow> (\<exists>i. item = Some i \<and> needs_room i \<and> \<not> (\<exists>r\<in>set (si_resources i). room_free (live_events events ignore) i start end r))
   | Past \<Rightarrow> False"
proof (cases "av_away_at av staff start end")
  case (Some b)
  from away_at_Some [OF this] Some show ?thesis
    by (cases item) (auto simp: slot_problem_fst offers_def away_for_def)
next
  case None
  show ?thesis
  proof (cases "session_at (live_events events ignore) item staff start")
    case (Some s)
    from session_at_live [OF this] None Some show ?thesis
      by (cases item) (auto simp: slot_problem_fst offers_def)
  next
    case no: None
    show ?thesis
      using None no by (cases item; cases hold) (auto simp: slot_problem_fst offers_def)
  qed
qed

lemma plan_move_problem:
  "mp_problem (plan_move off words event delta staff av events rooms now mode) =
    (let plan = plan_move off words event delta staff av events rooms now mode
     in if mode = Move \<and> mp_start plan < now \<and> mp_start plan \<noteq> ce_start event then Past
        else fst (slot_problem off av events (sw_first_name words) staff (mp_start plan) (mp_end plan) (Some (ce_id event))
          (Some ((event_item event rooms)\<lparr>si_staff := if staff = ce_staff event then [] else ce_item_staff event\<rparr>)) (ce_resource event)))"
  by (simp add: plan_move_def Let_def)

text \<open>A drag lands on a five-minute step no more than two and a half minutes off, and keeps the length of the
  visit; a resize keeps the start and leaves at least a quarter of an hour; and a plan without a problem is a
  time the booking rules allow, never one moved into the past.\<close>

theorem plan_move_sound:
  assumes "plan = plan_move off words event delta staff av events rooms now mode"
  shows "(case mode of
      Move \<Rightarrow> mp_end plan - mp_start plan = ce_end event - ce_start event
        \<and> (5 * ms_per_min) dvd (mp_start plan - ce_start event)
        \<and> \<bar>of_int (mp_start plan - ce_start event) - delta * of_int ms_per_min\<bar> \<le> 5 / 2 * of_int ms_per_min
        \<and> (mp_problem plan = No_Problem \<longrightarrow> now \<le> mp_start plan \<or> mp_start plan = ce_start event)
    | Resize \<Rightarrow> mp_start plan = ce_start event \<and> 15 * ms_per_min \<le> mp_end plan - mp_start plan)
    \<and> (mp_problem plan = No_Problem \<longrightarrow>
        (\<forall>b\<in>set (av_away av). \<not> away_for staff (mp_start plan) (mp_end plan) b)
        \<and> within_hours off av staff (mp_start plan) (mp_end plan))"
proof -
  let ?n = "js_round (delta / 5)"
  have near: "\<bar>of_int ?n - delta / 5\<bar> \<le> 1 / 2" by (rule js_round_nearest)
  have step: "\<bar>of_int (?n * 5 * ms_per_min) - delta * of_int ms_per_min\<bar> \<le> (5 / 2 * of_int ms_per_min :: rat)"
  proof -
    have "of_int (?n * 5 * ms_per_min) - delta * of_int ms_per_min = (of_int ?n - delta / 5) * (5 * of_int ms_per_min)"
      by (simp add: algebra_simps)
    moreover have "\<bar>(of_int ?n - delta / 5) * (5 * of_int ms_per_min)\<bar> \<le> 1 / 2 * (5 * of_int ms_per_min :: rat)"
      unfolding abs_mult using near by (intro mult_mono) (simp_all add: ms_per_min_def)
    ultimately show ?thesis by simp
  qed
  have shape: "mp_start plan = (if mode = Move then ce_start event + ?n * 5 * ms_per_min else ce_start event)"
    "mp_end plan = ce_end event + (if mode = Resize then max (?n * 5 * ms_per_min) (15 * ms_per_min - (ce_end event - ce_start event))
       else ?n * 5 * ms_per_min)"
    by (simp_all add: assms plan_move_def Let_def)
  let ?item = "Some ((event_item event rooms)\<lparr>si_staff := if staff = ce_staff event then [] else ce_item_staff event\<rparr>)"
  let ?past = "mode = Move \<and> mp_start plan < now \<and> mp_start plan \<noteq> ce_start event"
  have problem: "mp_problem plan = (if ?past then Past else fst (slot_problem off av events (sw_first_name words) staff
      (mp_start plan) (mp_end plan) (Some (ce_id event)) ?item (ce_resource event)))"
    unfolding assms by (rule plan_move_problem [unfolded Let_def])
  have ok: "\<not> ?past \<and> (\<forall>b\<in>set (av_away av). \<not> away_for staff (mp_start plan) (mp_end plan) b)
      \<and> within_hours off av staff (mp_start plan) (mp_end plan)" if "mp_problem plan = No_Problem"
  proof -
    have past: "\<not> ?past" using that problem by (cases ?past) simp_all
    with that problem have "fst (slot_problem off av events (sw_first_name words) staff
        (mp_start plan) (mp_end plan) (Some (ce_id event)) ?item (ce_resource event)) = No_Problem" by (simp only: if_False)
    from slot_ok [OF this] past show ?thesis by blast
  qed
  show ?thesis
    using shape step ok by (cases mode) (auto simp: not_less)
qed

definition demo_open :: availability where
  "demo_open = \<lparr>av_hours = [], av_away = [], av_zone = ''UTC''\<rparr>"

theorem slot_problem_exact_witness:
  "fst (slot_problem (\<lambda>_ _. 0) demo_open [demo_event ''a'' 540 600] id ''m1'' (600 * ms_per_min) (630 * ms_per_min) None None None)
     = No_Problem
   \<and> fst (slot_problem (\<lambda>_ _. 0) demo_open [demo_event ''a'' 540 600] id ''m1'' (590 * ms_per_min) (630 * ms_per_min) None None None)
     \<noteq> No_Problem"
  unfolding slot_problem_exact
  by (simp add: demo_open_def demo_event_def within_hours_def av_windows_def day_rows_def session_at_def member_free_def
      live_events_def joinable_def widened_def ms_per_min_def Let_def)

definition demo_words :: schedule_words where
  "demo_words = \<lparr>sw_range = (\<lambda>_ _ _. []), sw_short_range = (\<lambda>_ _ _. []), sw_time = (\<lambda>_ _. []), sw_weekday_time = (\<lambda>_ _. []), sw_first_name = id\<rparr>"

theorem plan_move_sound_witness:
  "let plan = plan_move (\<lambda>_ _. 0) demo_words (demo_event ''a'' 540 600) 7 ''m1'' demo_open [demo_event ''a'' 540 600] None 0 Move
   in mp_end plan - mp_start plan = 60 * ms_per_min \<and> (5 * ms_per_min) dvd (mp_start plan - 540 * ms_per_min)"
proof -
  from plan_move_sound [OF refl, of "\<lambda>_ _. 0" demo_words "demo_event ''a'' 540 600" 7 "''m1''" demo_open "[demo_event ''a'' 540 600]" None 0 Move]
  have "let plan = plan_move (\<lambda>_ _. 0) demo_words (demo_event ''a'' 540 600) 7 ''m1'' demo_open [demo_event ''a'' 540 600] None 0 Move
    in mp_end plan - mp_start plan = ce_end (demo_event ''a'' 540 600) - ce_start (demo_event ''a'' 540 600)
     \<and> (5 * ms_per_min) dvd (mp_start plan - ce_start (demo_event ''a'' 540 600))"
    unfolding Let_def by simp
  then show ?thesis by (simp add: demo_event_def Let_def ms_per_min_def)
qed

end
