(* ===== verification/Moves.thy ===== *)
theory Moves
  imports Slots Attempts
begin

text \<open>
  The visits of the schedule and moving them (\<open>enrich\<close>, \<open>useMoveEvent\<close>, \<open>settleMoves\<close>, \<open>applyPending\<close> and
  \<open>markMoves\<close> in \<open>app-core/src/domain/bookings.ts\<close>). The server's verdicts and answers and the person's
  choice in the review are arguments of the functions that receive them; how times read is \<open>schedule_words\<close>.
\<close>

section \<open>Visits\<close>

record staff_row =
  sf_id :: string
  sf_user :: "string option"
  sf_name :: "string option"
  sf_title :: "string option"
  sf_role :: string
  sf_email :: "string option"
  sf_color :: "string option"
  sf_status :: string

definition staff_name :: "staff_row \<Rightarrow> string" where
  "staff_name s = (case sf_name s of Some n \<Rightarrow> n | None \<Rightarrow> (case sf_title s of Some t \<Rightarrow> t | None \<Rightarrow>
     (case sf_email s of Some m \<Rightarrow> m | None \<Rightarrow> sf_role s)))"

text \<open>\<open>name.trim().split(/\s+/)[0]\<close>.\<close>

definition first_name :: "string \<Rightarrow> string" where
  "first_name name = takeWhile (\<lambda>c. \<not> is_space c) (js_trim name)"

definition active_staff :: "staff_row list \<Rightarrow> (string, staff_row) js_map" where
  "active_staff rows = from_entries (map (\<lambda>r. (sf_id r, r)) (filter (\<lambda>r. sf_status r = ''active'') rows))"

definition who_of :: "(string, staff_row) js_map \<Rightarrow> string \<Rightarrow> string" where
  "who_of staff i = (case map_of staff i of Some m \<Rightarrow> first_name (staff_name m) | None \<Rightarrow> [])"

datatype event_kind = Visit | Class_Session
datatype event_source = Online | By_Staff

record schedule_event = calendar_event +
  se_kind :: event_kind
  se_price :: int
  se_service :: string
  se_client_name :: "string option"
  se_subject_name :: "string option"
  se_staff_name :: string
  se_staff_short :: string
  se_staff_color :: "string option"
  se_source :: event_source
  se_series :: "string option"
  se_addons :: int
  se_note :: "string option"
  se_departed :: "int option"
  se_checked_in :: bool
  se_booked_at :: "int option"
  se_reminded :: "int option"
  se_intent :: intent
  se_needs_close :: bool
  se_needs_move :: bool
  se_in_progress :: bool
  se_time_label :: string
  se_time_short :: string
  se_headline :: string

record event_row =
  er_slot :: string
  er_starts :: string
  er_ends :: string
  er_staff :: string
  er_capacity :: int
  er_slot_status :: string
  er_recurrence :: "string option"
  er_item :: string
  er_item_name :: string
  er_item_color :: "string option"
  er_item_price :: int
  er_before :: int
  er_after :: int
  er_item_staff :: "string option"
  er_resource :: "string option"
  er_item_resources :: "string option"
  er_booked_count :: int
  er_booking :: "string option"
  er_booking_status :: "string option"
  er_client :: "string option"
  er_client_name :: "string option"
  er_subject_name :: "string option"
  er_source :: "string option"
  er_deposit_cents :: "int option"
  er_deposit_status :: "string option"
  er_booking_price :: "int option"
  er_departed_at :: "string option"
  er_checked_in_at :: "string option"
  er_booked_at :: "string option"
  er_reminded_at :: "string option"
  er_addons :: int
  er_note :: "string option"

text \<open>A list of ids kept as text: a JSON array, or (when it does not parse) a Postgres array.\<close>

definition id_list :: "(string \<Rightarrow> json option) \<Rightarrow> string option \<Rightarrow> string list" where
  "id_list parse_json raw = (case raw of None \<Rightarrow> [] | Some s \<Rightarrow>
     if s = [] then []
     else case parse_json s of
       Some (J_Arr vs) \<Rightarrow> List.map_filter (\<lambda>v. case v of J_Str i \<Rightarrow> Some i | _ \<Rightarrow> None) vs
     | Some _ \<Rightarrow> []
     | None \<Rightarrow> filter (\<lambda>x. x \<noteq> []) (map js_trim (split_on (CHR '','') (filter (\<lambda>c. c \<noteq> CHR ''{'' \<and> c \<noteq> CHR ''}'') s))))"

definition format_parts :: "string \<Rightarrow> string option list \<Rightarrow> string" where
  "format_parts separator parts = join_with separator (List.map_filter (\<lambda>p. case p of Some s \<Rightarrow> if s = [] then None else Some s | None \<Rightarrow> None) parts)"

record row_reader =
  rd_parse :: "string \<Rightarrow> int"
  rd_json :: "string \<Rightarrow> json option"
  rd_separator :: string

definition open_status :: "string \<Rightarrow> bool" where
  "open_status status \<longleftrightarrow> status \<in> {''confirmed'', ''pending'', ''scheduled''}"

definition enrich :: "row_reader \<Rightarrow> schedule_words \<Rightarrow> event_row \<Rightarrow> (string, staff_row) js_map \<Rightarrow> int \<Rightarrow> string \<Rightarrow> schedule_event" where
  "enrich rd words r staff now zone =
    (let start = rd_parse rd (er_starts r); end = rd_parse rd (er_ends r);
         is_class = er_capacity r > 1;
         status = (if is_class then er_slot_status r else case er_booking_status r of Some s \<Rightarrow> s | None \<Rightarrow> er_slot_status r);
         member = map_of staff (er_staff r);
         name = (case member of Some m \<Rightarrow> staff_name m | None \<Rightarrow> []);
         is_open = open_status status;
         headline = (if is_class then er_item_name r else format_parts (rd_separator rd) [er_subject_name r, er_client_name r]);
         deposit = (case er_deposit_cents r of Some c \<Rightarrow> c | None \<Rightarrow> 0)
     in \<lparr>ce_id = (case er_booking r of Some b \<Rightarrow> b | None \<Rightarrow> er_slot r), ce_slot = er_slot r,
         ce_booking = (if is_class then None else er_booking r), ce_start = start, ce_end = end,
         ce_title = er_item_name r, ce_subtitle = (case er_client_name r of Some c \<Rightarrow> c | None \<Rightarrow> []), ce_status = status,
         ce_staff = er_staff r, ce_client = er_client r, ce_color = er_item_color r, ce_capacity = er_capacity r,
         ce_booked = er_booked_count r, ce_deposit_required = (deposit > 0), ce_deposit_cents = deposit,
         ce_deposit_status = (case er_deposit_status r of Some s \<Rightarrow> s | None \<Rightarrow> ''none''), ce_item = er_item r,
         ce_before = er_before r, ce_after = er_after r, ce_item_staff = id_list (rd_json rd) (er_item_staff r),
         ce_resource = er_resource r, ce_item_resources = id_list (rd_json rd) (er_item_resources r),
         se_kind = (if is_class then Class_Session else Visit),
         se_price = (if is_class then er_item_price r else case er_booking_price r of Some p \<Rightarrow> p | None \<Rightarrow> er_item_price r),
         se_service = er_item_name r, se_client_name = er_client_name r, se_subject_name = er_subject_name r,
         se_staff_name = name, se_staff_short = first_name name, se_staff_color = Option.bind member sf_color,
         se_source = (if er_source r = Some ''online'' then Online else By_Staff), se_series = er_recurrence r,
         se_addons = er_addons r, se_note = er_note r, se_departed = map_option (rd_parse rd) (er_departed_at r),
         se_checked_in = (er_checked_in_at r \<noteq> None), se_booked_at = map_option (rd_parse rd) (er_booked_at r),
         se_reminded = map_option (rd_parse rd) (er_reminded_at r), se_intent = status_intent status,
         se_needs_close = (is_open \<and> \<not> is_class \<and> end \<le> now), se_needs_move = False,
         se_in_progress = (is_open \<and> start \<le> now \<and> now < end), se_time_label = sw_range words start end zone,
         se_time_short = sw_short_range words start end zone,
         se_headline = (if headline = [] then er_item_name r else headline)\<rparr>)"

section \<open>Moves the replica does not show yet\<close>

record pending_move =
  pm_start :: int
  pm_end :: int
  pm_staff :: string

type_synonym pending_moves = "(string, pending_move) js_map"

definition shows_move :: "pending_move \<Rightarrow> 'a calendar_event_scheme \<Rightarrow> bool" where
  "shows_move p e \<longleftrightarrow> pm_start p = ce_start e \<and> pm_end p = ce_end e \<and> pm_staff p = ce_staff e"

definition settle_moves :: "pending_moves \<Rightarrow> 'a calendar_event_scheme list \<Rightarrow> pending_moves" where
  "settle_moves pending events =
    (let arrived = map ce_id (filter (\<lambda>e. case map_of pending (ce_id e) of None \<Rightarrow> False | Some p \<Rightarrow> shows_move p e) events)
           @ filter (\<lambda>i. i \<notin> ce_id ` set events) (map fst pending)
     in if arrived = [] then pending else filter (\<lambda>(i, _). i \<notin> set arrived) pending)"

definition omit_key :: "string \<Rightarrow> (string, 'v) js_map \<Rightarrow> (string, 'v) js_map" where
  "omit_key key = filter (\<lambda>(k, _). k \<noteq> key)"

definition apply_pending :: "schedule_words \<Rightarrow> schedule_event list \<Rightarrow> pending_moves \<Rightarrow> string \<Rightarrow> schedule_event list" where
  "apply_pending words events pending zone =
    (if pending = [] then events
     else map (\<lambda>e. case map_of pending (ce_id e) of None \<Rightarrow> e
       | Some p \<Rightarrow> e\<lparr>ce_start := pm_start p, ce_end := pm_end p, ce_staff := pm_staff p,
           se_time_label := sw_range words (pm_start p) (pm_end p) zone,
           se_time_short := sw_short_range words (pm_start p) (pm_end p) zone\<rparr>) events)"

definition mark_moves :: "schedule_event list \<Rightarrow> availability \<Rightarrow> int \<Rightarrow> schedule_event list" where
  "mark_moves events av now = map (\<lambda>e.
     let needs = open_status (ce_status e) \<and> now < ce_start e \<and> av_away_at av (ce_staff e) (ce_start e) (ce_end e) \<noteq> None
     in if needs = se_needs_move e then e else e\<lparr>se_needs_move := needs\<rparr>) events"

section \<open>Moving a visit\<close>

text \<open>
  The state of \<open>useMoveEvent\<close>. The visit whose change is under way, in the review or with the server, is
  what the closures of \<open>patch\<close> hold; it is the field \<open>mv_flight\<close>.
\<close>

datatype notice = Said slot_message | Refused_As message

record move_flight =
  fl_event :: schedule_event
  fl_to :: pending_move
  fl_plan :: "move_plan option" \<comment> \<open>\<open>None\<close> for an undo\<close>

record move_state =
  mv_verdict :: "(string \<times> bool \<times> slot_message) option"
  mv_asked :: "string option"
  mv_timer :: "(string \<times> string \<times> move_plan) option" \<comment> \<open>the check to send: visit, key, plan\<close>
  mv_pending :: pending_moves
  mv_last :: "(move_plan \<times> schedule_event \<times> bool) option"
  mv_refusal :: "notice option"
  mv_moving :: bool
  mv_flight :: "move_flight option"

definition move_initial :: "move_state \<Rightarrow> bool" where
  "move_initial s \<longleftrightarrow> s = \<lparr>mv_verdict = None, mv_asked = None, mv_timer = None, mv_pending = [], mv_last = None,
     mv_refusal = None, mv_moving = False, mv_flight = None\<rparr>"

definition plan_key :: "string \<Rightarrow> move_plan \<Rightarrow> string" where
  "plan_key i p = i @ ''|'' @ mp_staff p @ ''|'' @ int_string (mp_start p) @ ''|'' @ int_string (mp_end p)"

text \<open>The server's verdict on where a drag hovers.\<close>

record server_verdict =
  vd_ok :: bool
  vd_problem :: "string option"
  vd_reason :: "string option"

definition verdict_message :: "server_verdict \<Rightarrow> string \<Rightarrow> slot_message" where
  "verdict_message v who =
    (let reason = (case vd_reason v of Some r \<Rightarrow> r | None \<Rightarrow> [])
     in case vd_problem v of None \<Rightarrow> (''dropRefused'', [])
        | Some p \<Rightarrow>
          if p = ''overlap'' then (''problemOverlap'', [who])
          else if p = ''off_hours'' then (''problemOffHours'', [who])
          else if p = ''time_off'' then (''problemTimeOff'', [who, reason])
          else if p = ''closed'' then (''problemClosed'', [reason])
          else if p = ''past'' then (''problemPast'', [])
          else if p = ''class'' then (''problemClass'', [])
          else if p = ''not_offered'' then (''problemNotOffered'', [who])
          else if p = ''crew'' then (''problemCrew'', [])
          else if p = ''resource'' then (''problemResource'', [])
          else (''dropRefused'', []))"

definition check_begin :: "schedule_event \<Rightarrow> move_plan \<Rightarrow> move_state \<Rightarrow> move_state" where
  [step_defs]: "check_begin event plan s =
    (let key = plan_key (ce_id event) plan
     in case ce_booking event of None \<Rightarrow> s
        | Some booking \<Rightarrow>
          if mv_asked s = Some key then s
          else let s1 = s\<lparr>mv_asked := Some key, mv_timer := None\<rparr>
               in if mp_problem plan \<noteq> No_Problem then s1 else s1\<lparr>mv_timer := Some (booking, key, plan)\<rparr>)"

definition check_answer :: "(string \<Rightarrow> string) \<Rightarrow> string \<Rightarrow> move_plan \<Rightarrow> server_verdict \<Rightarrow> move_state \<Rightarrow> move_state" where
  [step_defs]: "check_answer who key plan v s =
    s\<lparr>mv_verdict := Some (key, vd_ok v, if vd_ok v then mp_message plan else verdict_message v (who (mp_staff plan)))\<rparr>"

text \<open>Sending a change: nothing while one is under way; a new start time of a client's visit is reviewed
  first, any other change is sent and the client told, and a quiet one is sent without telling.\<close>

datatype patch_next = Stay | Send_Patch string pending_move bool | Review string pending_move

definition patch_begin :: "schedule_event \<Rightarrow> pending_move \<Rightarrow> move_plan option \<Rightarrow> bool \<Rightarrow> move_state \<Rightarrow> move_state \<times> patch_next" where
  [step_defs]: "patch_begin event to plan quiet s =
    (case ce_booking event of None \<Rightarrow> (s, Stay)
     | Some booking \<Rightarrow>
       if mv_moving s then (s, Stay)
       else (s\<lparr>mv_moving := True, mv_pending := AList.update (ce_id event) to (mv_pending s),
               mv_flight := Some \<lparr>fl_event = event, fl_to = to, fl_plan = plan\<rparr>\<rparr>,
             if quiet then Send_Patch booking to False
             else if pm_start to = ce_start event \<or> se_client_name event = None then Send_Patch booking to True
             else Review booking to))"

text \<open>The review: cancelled (or failed), or confirmed with or without telling.\<close>

definition patch_dropped :: "move_flight \<Rightarrow> move_state \<Rightarrow> move_state" where
  [step_defs]: "patch_dropped f s =
    s\<lparr>mv_pending := omit_key (ce_id (fl_event f)) (mv_pending s), mv_moving := False, mv_flight := None\<rparr>"

definition review_answer :: "bool option \<Rightarrow> move_flight \<Rightarrow> move_state \<Rightarrow> move_state \<times> patch_next" where
  [step_defs]: "review_answer choice f s = (case choice of None \<Rightarrow> (patch_dropped f s, Stay)
     | Some tell \<Rightarrow> (s, case ce_booking (fl_event f) of Some b \<Rightarrow> Send_Patch b (fl_to f) tell | None \<Rightarrow> Stay))"

definition patch_done :: "bool \<Rightarrow> move_flight \<Rightarrow> move_state \<Rightarrow> move_state" where
  [step_defs]: "patch_done told f s =
    (let s1 = (case fl_plan f of Some plan \<Rightarrow> s\<lparr>mv_last := Some (plan, fl_event f, told)\<rparr> | None \<Rightarrow> s)
     in s1\<lparr>mv_moving := False, mv_flight := None\<rparr>)"

definition move_failure :: "bool \<Rightarrow> json \<Rightarrow> message" where
  "move_failure offline e = (if offline then Caption ''moveOffline'' else failure_message e ''rescheduleError'')"

definition patch_failed :: "bool \<Rightarrow> json \<Rightarrow> move_flight \<Rightarrow> move_state \<Rightarrow> move_state" where
  [step_defs]: "patch_failed offline e f s =
    (patch_dropped f s)\<lparr>mv_refusal := Some (Refused_As (case fl_plan f of Some _ \<Rightarrow> move_failure offline e
       | None \<Rightarrow> if offline then Caption ''moveOffline'' else Fallback ''actionError''))\<rparr>"

definition move_begin :: "schedule_event \<Rightarrow> move_plan \<Rightarrow> move_state \<Rightarrow> move_state \<times> patch_next" where
  [step_defs]: "move_begin event plan s =
    (if mv_moving s then (s, Stay)
     else let key = plan_key (ce_id event) plan;
              refused = (case mv_verdict s of Some (k, ok, m) \<Rightarrow> if k = key \<and> \<not> ok then Some m else None | None \<Rightarrow> None)
          in if mp_problem plan \<noteq> No_Problem \<or> refused \<noteq> None
             then (s\<lparr>mv_refusal := Some (Said (case refused of Some m \<Rightarrow> m | None \<Rightarrow> mp_message plan))\<rparr>, Stay)
             else patch_begin event \<lparr>pm_start = mp_start plan, pm_end = mp_end plan, pm_staff = mp_staff plan\<rparr> (Some plan) False
                    (s\<lparr>mv_refusal := None, mv_last := None\<rparr>))"

definition origin_of :: "schedule_event \<Rightarrow> pending_move" where
  "origin_of e = \<lparr>pm_start = ce_start e, pm_end = ce_end e, pm_staff = ce_staff e\<rparr>"

definition undo_begin :: "move_state \<Rightarrow> move_state \<times> patch_next" where
  [step_defs]: "undo_begin s = (case mv_last s of None \<Rightarrow> (s, Stay)
     | Some (plan, event, told) \<Rightarrow> patch_begin event (origin_of event) None (\<not> told) (s\<lparr>mv_last := None\<rparr>))"

definition move_settle :: "'a calendar_event_scheme list \<Rightarrow> move_state \<Rightarrow> move_state" where
  [step_defs]: "move_settle events s = s\<lparr>mv_pending := settle_moves (mv_pending s) events\<rparr>"

text \<open>Answers arrive for the change under way; everything else may happen at any time.\<close>

inductive move_step :: "move_state \<Rightarrow> move_state \<Rightarrow> bool" where
  mv_check: "move_step s (check_begin event plan s)"
| mv_check_answer: "move_step s (check_answer who key plan v s)"
| mv_move: "move_begin event plan s = (t, next) \<Longrightarrow> move_step s t"
| mv_undo: "undo_begin s = (t, next) \<Longrightarrow> move_step s t"
| mv_review: "mv_flight s = Some f \<Longrightarrow> review_answer choice f s = (t, next) \<Longrightarrow> move_step s t"
| mv_done: "mv_flight s = Some f \<Longrightarrow> move_step s (patch_done told f s)"
| mv_failed: "mv_flight s = Some f \<Longrightarrow> move_step s (patch_failed offline e f s)"
| mv_settle: "move_step s (move_settle (events :: schedule_event list) s)"
| mv_dismiss: "move_step s (s\<lparr>mv_last := None\<rparr>)"
| mv_refusal_over: "move_step s (s\<lparr>mv_refusal := None\<rparr>)"

definition move_ok :: "move_state \<Rightarrow> bool" where
  "move_ok s \<longleftrightarrow> (mv_moving s \<longleftrightarrow> mv_flight s \<noteq> None) \<and> (mv_last s \<noteq> None \<longrightarrow> \<not> mv_moving s)
    \<and> (\<forall>f. mv_flight s = Some f \<longrightarrow> ce_booking (fl_event f) \<noteq> None)
    \<and> (\<forall>plan event told. mv_last s = Some (plan, event, told) \<longrightarrow> ce_booking event \<noteq> None)"

lemma patch_begin_ok: "patch_begin event to plan quiet s = (t, n) \<Longrightarrow> move_ok s \<Longrightarrow> mv_last s = None \<Longrightarrow> move_ok t"
  by (auto simp: patch_begin_def move_ok_def split: option.splits if_splits)

lemma move_begin_cases:
  assumes "move_begin event plan s = (t, n)"
  obtains (busy) "mv_moving s" "t = s" | (refused) m where "t = s\<lparr>mv_refusal := m\<rparr>" "n = Stay"
  | (sent) "\<not> mv_moving s" "mp_problem plan = No_Problem"
    "patch_begin event \<lparr>pm_start = mp_start plan, pm_end = mp_end plan, pm_staff = mp_staff plan\<rparr> (Some plan) False
       (s\<lparr>mv_refusal := None, mv_last := None\<rparr>) = (t, n)"
  using assms by (auto simp: move_begin_def Let_def split: if_splits)

lemma move_step_ok: "move_step s t \<Longrightarrow> move_ok s \<Longrightarrow> move_ok t"
proof (induction rule: move_step.induct)
  case (mv_move event plan s t n)
  from mv_move(1) show ?case
  proof (cases rule: move_begin_cases)
    case sent
    from sent(3) show ?thesis by (rule patch_begin_ok) (use mv_move(2) in \<open>auto simp: move_ok_def\<close>)
  qed (use mv_move(2) in \<open>auto simp: move_ok_def\<close>)
next
  case (mv_undo s t n)
  show ?case
  proof (cases "mv_last s")
    case (Some l)
    then obtain plan event told where "patch_begin event (origin_of event) None (\<not> told) (s\<lparr>mv_last := None\<rparr>) = (t, n)"
      using mv_undo(1) by (cases l) (auto simp: undo_begin_def)
    then show ?thesis by (rule patch_begin_ok) (use mv_undo(2) in \<open>auto simp: move_ok_def\<close>)
  qed (use mv_undo in \<open>auto simp: undo_begin_def\<close>)
next
  case (mv_review s f choice t n)
  then show ?case by (auto simp: review_answer_def patch_dropped_def move_ok_def split: option.splits)
next
  case (mv_done s f told)
  then show ?case by (auto simp: patch_done_def move_ok_def Let_def split: option.splits)
qed (auto simp: check_begin_def check_answer_def patch_failed_def patch_dropped_def move_settle_def move_ok_def Let_def split: option.splits)

interpretation moves: inductive_invariant move_initial move_step move_ok
proof unfold_locales
  show "move_initial s \<Longrightarrow> move_ok s" for s by (auto simp: move_initial_def move_ok_def)
qed (rule move_step_ok)

text \<open>C23: an offered undo always works. In a reachable state that still remembers a move, undoing it is never
  swallowed by another change under way: the visit's original times and member go to the server, quietly unless
  the client was told of the move, and the board shows them at once.\<close>

theorem undo_restores_origin:
  assumes "reach move_initial move_step s" "mv_last s = Some (plan, event, told)" "undo_begin s = (t, next)"
  shows "\<exists>booking. ce_booking event = Some booking \<and> map_of (mv_pending t) (ce_id event) = Some (origin_of event)
    \<and> mv_last t = None
    \<and> next = Send_Patch booking (origin_of event) told"
proof -
  have ok: "\<not> mv_moving s" "ce_booking event \<noteq> None"
    using moves.reach_inv [OF assms(1)] assms(2) by (auto simp: move_ok_def)
  then show ?thesis
    using assms(2,3) by (auto simp: undo_begin_def patch_begin_def origin_of_def update_conv')
qed

section \<open>What the board shows\<close>

lemma map_of_filter_key: "map_of (filter (\<lambda>(k, _). P k) m) i = (if P i then map_of m i else None)"
  by (induction m) auto

lemma map_of_drop_keys:
  "map_of (if ks = [] then m else filter (\<lambda>(k, _). k \<notin> set ks) m) i = (if i \<in> set ks then None else map_of m i)"
  by (cases "ks = []") (simp_all add: map_of_filter_key)

text \<open>C24: a change that did not happen leaves no trace on the board. Whether the person cancels the review, or
  the server refuses or cannot be reached, the visit shows where the replica has it, the other pending moves
  stay, the next change may start, and only a refusal leaves a message.\<close>

theorem dropped_move_restores:
  assumes "f \<in> {g. mv_flight s = Some g}" "t = fst (review_answer None f s) \<or> t = patch_failed offline e f s"
    "ev \<in> set events"
  shows "(ce_id ev = ce_id (fl_event f) \<longrightarrow> ev \<in> set (apply_pending words events (mv_pending t) zone))
    \<and> (\<forall>i. i \<noteq> ce_id (fl_event f) \<longrightarrow> map_of (mv_pending t) i = map_of (mv_pending s) i)
    \<and> \<not> mv_moving t
    \<and> (t = fst (review_answer None f s) \<longrightarrow> mv_refusal t = mv_refusal s)"
proof -
  have p: "mv_pending t = omit_key (ce_id (fl_event f)) (mv_pending s)" and m: "\<not> mv_moving t"
    using assms(2) by (auto simp: review_answer_def patch_failed_def patch_dropped_def)
  have "map_of (mv_pending t) i = (if i \<noteq> ce_id (fl_event f) then map_of (mv_pending s) i else None)" for i
    unfolding p omit_key_def by (rule map_of_filter_key)
  with m assms(3) show ?thesis
    by (force simp: apply_pending_def review_answer_def patch_dropped_def image_iff split: option.splits)
qed

lemma settle_moves_lookup:
  "map_of (settle_moves pending events) i =
    (if \<exists>e\<in>set events. ce_id e = i \<and> (case map_of pending i of Some p \<Rightarrow> shows_move p e | None \<Rightarrow> False) then None
     else if i \<in> ce_id ` set events then map_of pending i else None)"
proof -
  let ?arrived = "map ce_id (filter (\<lambda>e. case map_of pending (ce_id e) of None \<Rightarrow> False | Some p \<Rightarrow> shows_move p e) events)
      @ filter (\<lambda>i. i \<notin> ce_id ` set events) (map fst pending)"
  have lookup: "map_of (settle_moves pending events) i = (if i \<in> set ?arrived then None else map_of pending i)"
    unfolding settle_moves_def Let_def by (rule map_of_drop_keys)
  have member: "i \<in> set ?arrived \<longleftrightarrow> (\<exists>e\<in>set events. ce_id e = i \<and> (case map_of pending i of Some p \<Rightarrow> shows_move p e | None \<Rightarrow> False))
      \<or> (i \<in> fst ` set pending \<and> i \<notin> ce_id ` set events)"
    unfolding set_append Un_iff set_filter set_map image_iff mem_Collect_eq by (fastforce split: option.splits)
  have "map_of pending i = None" if "i \<notin> fst ` set pending" using that by (simp add: map_of_eq_None_iff)
  then show ?thesis unfolding lookup member by auto
qed

definition shown_place :: "'a calendar_event_scheme \<Rightarrow> string \<times> int \<times> int \<times> string" where
  "shown_place e = (ce_id e, ce_start e, ce_end e, ce_staff e)"

text \<open>Settling never moves a visit on the screen. Dropping the pending moves that the replica already shows
  leaves every visit on the board at the same place, and keeps no entry for a visit that is gone.\<close>

theorem settle_keeps_board:
  assumes "distinct (map ce_id events)"
  shows "map shown_place (apply_pending words events (settle_moves pending events) zone)
      = map shown_place (apply_pending words events pending zone)
    \<and> fst ` set (settle_moves pending events) \<subseteq> ce_id ` set events"
proof -
  have apply_all: "apply_pending words events m zone = map (\<lambda>e. case map_of m (ce_id e) of None \<Rightarrow> e
       | Some p \<Rightarrow> e\<lparr>ce_start := pm_start p, ce_end := pm_end p, ce_staff := pm_staff p,
           se_time_label := sw_range words (pm_start p) (pm_end p) zone,
           se_time_short := sw_short_range words (pm_start p) (pm_end p) zone\<rparr>) events" for m
    by (simp add: apply_pending_def)
  have one: "e' = e" if "e \<in> set events" "e' \<in> set events" "ce_id e' = ce_id e" for e e'
    using assms that by (meson distinct_map inj_onD)
  have "map_of (settle_moves pending events) (ce_id e) = map_of pending (ce_id e)
      \<or> (map_of (settle_moves pending events) (ce_id e) = None
          \<and> (\<exists>p. map_of pending (ce_id e) = Some p \<and> shows_move p e))" if "e \<in> set events" for e
    using that one by (auto simp: settle_moves_lookup split: option.splits)
  then have "map shown_place (apply_pending words events (settle_moves pending events) zone)
      = map shown_place (apply_pending words events pending zone)"
    unfolding apply_all by (auto simp: shown_place_def shows_move_def split: option.splits) force+
  moreover have "i \<in> ce_id ` set events" if "i \<in> fst ` set (settle_moves pending events)" for i
    using that settle_moves_lookup [of pending events i] by (metis map_of_eq_None_iff)
  ultimately show ?thesis by blast
qed

section \<open>A visit dragged\<close>

definition demo_visit :: schedule_event where
  "demo_visit = \<lparr>ce_id = ''b1'', ce_slot = ''s1'', ce_booking = Some ''b1'', ce_start = 36000000, ce_end = 39600000,
     ce_title = ''Groom'', ce_subtitle = [], ce_status = ''confirmed'', ce_staff = ''m1'', ce_client = Some ''c1'',
     ce_color = None, ce_capacity = 1, ce_booked = 1, ce_deposit_required = False, ce_deposit_cents = 0,
     ce_deposit_status = ''none'', ce_item = ''cut'', ce_before = 0, ce_after = 0, ce_item_staff = [], ce_resource = None,
     ce_item_resources = [], se_kind = Visit, se_price = 5000, se_service = ''Groom'', se_client_name = Some ''Ann'',
     se_subject_name = None, se_staff_name = [], se_staff_short = [], se_staff_color = None, se_source = By_Staff,
     se_series = None, se_addons = 0, se_note = None, se_departed = None, se_checked_in = False, se_booked_at = None,
     se_reminded = None, se_intent = Accent, se_needs_close = False, se_needs_move = False, se_in_progress = False,
     se_time_label = [], se_time_short = [], se_headline = ''Ann''\<rparr>"

definition demo_plan :: move_plan where
  "demo_plan = \<lparr>mp_start = 37800000, mp_end = 41400000, mp_staff = ''m1'', mp_label = [], mp_problem = No_Problem, mp_message = no_message\<rparr>"

definition demo_idle :: move_state where
  "demo_idle = \<lparr>mv_verdict = None, mv_asked = None, mv_timer = None, mv_pending = [], mv_last = None, mv_refusal = None,
     mv_moving = False, mv_flight = None\<rparr>"

definition demo_flight :: move_flight where
  "demo_flight = \<lparr>fl_event = demo_visit, fl_to = \<lparr>pm_start = 37800000, pm_end = 41400000, pm_staff = ''m1''\<rparr>, fl_plan = Some demo_plan\<rparr>"

definition demo_moving :: move_state where
  "demo_moving = fst (move_begin demo_visit demo_plan demo_idle)"

lemma demo_visit_booking: "ce_booking demo_visit = Some ''b1''" by (simp add: demo_visit_def)

lemma demo_moving_flight: "mv_flight demo_moving = Some demo_flight"
  by (simp add: demo_moving_def move_begin_def patch_begin_def demo_visit_booking demo_idle_def demo_flight_def Let_def)
    (simp add: demo_plan_def)

lemma demo_moved_reach: "reach move_initial move_step (patch_done True demo_flight demo_moving)"
proof -
  have 1: "reach move_initial move_step demo_idle"
    by (rule reach_init) (simp add: move_initial_def demo_idle_def)
  have 2: "move_step demo_idle demo_moving"
    unfolding demo_moving_def by (rule mv_move) (rule prod.collapse [symmetric])
  have 3: "move_step demo_moving (patch_done True demo_flight demo_moving)" by (rule mv_done [OF demo_moving_flight])
  show ?thesis by (rule reach_step, rule reach_step, rule 1, rule 2, rule 3)
qed

theorem undo_restores_origin_witness:
  "snd (undo_begin (patch_done True demo_flight demo_moving)) = Send_Patch ''b1'' (origin_of demo_visit) True"
proof -
  have last: "mv_last (patch_done True demo_flight demo_moving) = Some (demo_plan, demo_visit, True)"
    by (simp add: patch_done_def demo_flight_def)
  from undo_restores_origin [OF demo_moved_reach last prod.collapse [symmetric]] demo_visit_booking
  show ?thesis by auto
qed

theorem dropped_move_restores_witness:
  "demo_visit \<in> set (apply_pending demo_words [demo_visit]
     (mv_pending (patch_failed True J_Null demo_flight demo_moving)) ''UTC'')"
proof -
  have mem: "demo_flight \<in> {g. mv_flight demo_moving = Some g}" using demo_moving_flight by simp
  have "demo_visit \<in> set [demo_visit]" by simp
  from dropped_move_restores [OF mem disjI2 [OF refl] this]
  have "ce_id demo_visit = ce_id (fl_event demo_flight) \<longrightarrow> demo_visit \<in> set (apply_pending demo_words [demo_visit]
     (mv_pending (patch_failed True J_Null demo_flight demo_moving)) ''UTC'')" by blast
  moreover have "ce_id demo_visit = ce_id (fl_event demo_flight)" by (simp add: demo_flight_def)
  ultimately show ?thesis by blast
qed

theorem settle_keeps_board_witness:
  "map shown_place (apply_pending demo_words [demo_visit] (settle_moves [(''b1'', origin_of demo_visit), (''gone'', origin_of demo_visit)] [demo_visit]) ''UTC'')
   = [(''b1'', 36000000, 39600000, ''m1'')]"
proof -
  have "map shown_place (apply_pending demo_words [demo_visit] [(''b1'', origin_of demo_visit), (''gone'', origin_of demo_visit)] ''UTC'')
      = [(''b1'', 36000000, 39600000, ''m1'')]" by code_simp
  then show ?thesis
    using settle_keeps_board [of "[demo_visit]" demo_words "[(''b1'', origin_of demo_visit), (''gone'', origin_of demo_visit)]" "''UTC''"]
    by simp
qed

end
