(* ===== verification/Board.thy ===== *)
theory Board
  imports Moves
begin

text \<open>
  The schedule board (\<open>laneFor\<close>, \<open>summarize\<close>, \<open>weekStrip\<close>, \<open>useScheduleBoard\<close>, \<open>placeEvents\<close> and the window,
  span and start functions after it in \<open>app-core/src/domain/bookings.ts\<close>). Ratios, floating-point numbers in the
  code, are rationals.
\<close>

section \<open>Lanes and the day's summary\<close>

record staff_lane =
  ln_id :: string
  ln_name :: string
  ln_short :: string
  ln_color :: "string option"
  ln_hours :: "time_window option"
  ln_unset :: bool
  ln_hours_label :: string
  ln_events :: "schedule_event list"
  ln_blocks :: "schedule_block list"
  ln_booked_ms :: int \<comment> \<open>the code's minutes, in milliseconds\<close>
  ln_available_ms :: int
  ln_utilization :: rat

record board_words =
  bw_words :: schedule_words
  bw_break :: string
  bw_no_hours :: string
  bw_off_today :: string

definition window_overlap :: "time_window \<Rightarrow> schedule_block \<Rightarrow> int" where
  "window_overlap w b = max 0 (min (bk_end b) (snd w) - max (bk_start b) (fst w))"

definition lane_for :: "offsets \<Rightarrow> board_words \<Rightarrow> staff_row \<Rightarrow> int \<Rightarrow> schedule_event list \<Rightarrow> availability \<Rightarrow> staff_lane" where
  "lane_for off bw member day events av =
    (let zone = av_zone av; name = staff_name member;
         unset = (av_windows off av (sf_id member) day = None);
         day_start = start_of_day off day zone; day_end = add_days off day 1 zone;
         covers = (case av_away_at av (sf_id member) day_start day_end of
                     Some b \<Rightarrow> bk_start b \<le> day_start \<and> day_end \<le> bk_end b | None \<Rightarrow> False);
         hours = (if covers then None else av_hours_of off av (sf_id member) day);
         mine = filter (\<lambda>e. ce_staff e = sf_id member \<and> same_day off (ce_start e) day zone) events;
         blocks = filter (\<lambda>b. bk_staff b = Some (sf_id member)) (av_blocks off (bw_break bw) av day);
         booked = sum_list (map (\<lambda>e. ce_end e - ce_start e) mine);
         blocked = (case hours of Some w \<Rightarrow> sum_list (map (window_overlap w) blocks) | None \<Rightarrow> 0);
         avail = (case hours of Some w \<Rightarrow> max 0 (snd w - fst w - blocked) | None \<Rightarrow> 0)
     in \<lparr>ln_id = sf_id member, ln_name = name, ln_short = first_name name, ln_color = sf_color member, ln_hours = hours,
         ln_unset = (unset \<and> \<not> covers),
         ln_hours_label = (case hours of Some w \<Rightarrow> sw_range (bw_words bw) (fst w) (snd w) zone
            | None \<Rightarrow> if unset \<and> \<not> covers then bw_no_hours bw else bw_off_today bw),
         ln_events = mine, ln_blocks = blocks, ln_booked_ms = booked, ln_available_ms = avail,
         ln_utilization = (if avail > 0 then min 1 (of_int booked / of_int avail) else 0)\<rparr>)"

record day_summary =
  ds_visits :: nat
  ds_classes :: nat
  ds_completed :: nat
  ds_to_close :: nat
  ds_expected :: int
  ds_open_ms :: int
  ds_utilization :: int

definition expected_cents :: "schedule_event \<Rightarrow> int" where
  "expected_cents e = (if se_kind e = Class_Session then se_price e * ce_booked e
     else if ce_status e = ''no_show'' then 0 else se_price e)"

definition summarize :: "schedule_event list \<Rightarrow> staff_lane list \<Rightarrow> day_summary" where
  "summarize events lanes =
    (let visits = filter (\<lambda>e. se_kind e = Visit) events;
         window = sum_list (map ln_available_ms lanes); booked = sum_list (map ln_booked_ms lanes)
     in \<lparr>ds_visits = length visits, ds_classes = length (filter (\<lambda>e. se_kind e = Class_Session) events),
         ds_completed = length (filter (\<lambda>e. ce_status e = ''completed'') visits),
         ds_to_close = length (filter se_needs_close visits),
         ds_expected = sum_list (map expected_cents events),
         ds_open_ms = max 0 (window - booked),
         ds_utilization = (if window > 0 then js_round (of_int booked / of_int window * 100) else 0)\<rparr>)"

record week_strip_day =
  wd_key :: string
  wd_date :: int
  wd_busy :: nat
  wd_closed :: bool
  wd_today :: bool

definition week_strip :: "offsets \<Rightarrow> int \<Rightarrow> schedule_event list \<Rightarrow> availability \<Rightarrow> int \<Rightarrow> week_strip_day list" where
  "week_strip off anchor events av now =
    (let zone = av_zone av; first = start_of_week off anchor zone
     in map (\<lambda>i. let date = add_days off first i zone;
                    n = length (filter (\<lambda>e. same_day off (ce_start e) date zone) events)
                in \<lparr>wd_key = date_key off date zone, wd_date = date,
                    wd_busy = (if n = 0 then 0 else if n < 4 then 1 else if n < 8 then 2 else 3),
                    wd_closed = (av_closed off av date \<noteq> None), wd_today = same_day off date now zone\<rparr>) [0..6])"

section \<open>Where things stand on the board\<close>

definition place_events :: "offsets \<Rightarrow> schedule_event list \<Rightarrow> int \<Rightarrow> int \<Rightarrow> rat \<Rightarrow> string \<Rightarrow> (schedule_event \<times> rat \<times> rat \<times> rat \<times> rat) list" where
  "place_events off events day start_hour px zone =
    (let by_id = from_entries (map (\<lambda>e. (ce_id e, e)) events); offset = of_int start_hour * 60 * px
     in List.map_filter (\<lambda>p. map_option (\<lambda>e. (e, po_top p - offset, po_height p, po_left p, po_width p))
            (map_of by_id (ce_id (po_event p))))
          (layout_day off \<lparr>lo_day_start = start_of_day off day zone, lo_zone = zone, lo_px_per_min = px, lo_min_height = 20, lo_gap = 2\<rparr>
            (map calendar_event.truncate events)))"

definition minute_top :: "offsets \<Rightarrow> int \<Rightarrow> int \<Rightarrow> rat \<Rightarrow> string \<Rightarrow> rat" where
  "minute_top off d start_hour px zone = of_int (minute_of_day off d zone - start_hour * 60) * px"

definition visible_window :: "offsets \<Rightarrow> int \<Rightarrow> time_window list \<Rightarrow> string \<Rightarrow> int \<times> int" where
  "visible_window off day spans zone =
    (let day_start = start_of_day off day zone; day_end = add_days off day_start 1 zone;
         (a, b) = foldl (\<lambda>(a, b) (start, end).
            let last = wall_time off end zone
            in (min a (if start \<le> day_start then 0 else wl_hour (wall_time off start zone)),
                max b (if day_end \<le> end then 24 else wl_hour last + (if wl_minute last > 0 then 1 else 0)))) (24, 0) spans
     in if a < b then (a, b) else (9, 17))"

definition draft_window :: "offsets \<Rightarrow> int \<times> int \<Rightarrow> time_window option \<Rightarrow> int \<Rightarrow> string \<Rightarrow> int \<times> int" where
  "draft_window off window draft day zone = (case draft of None \<Rightarrow> window
     | Some d \<Rightarrow> visible_window off day
         [(minutes_into off day (fst window * 60) zone, minutes_into off day (snd window * 60) zone), d] zone)"

definition block_span :: "offsets \<Rightarrow> schedule_block \<Rightarrow> int \<Rightarrow> int \<Rightarrow> int \<Rightarrow> rat \<Rightarrow> string \<Rightarrow> (rat \<times> rat) option" where
  "block_span off block day start_hour end_hour px zone =
    (let day_start = start_of_day off day zone; day_end = add_days off day_start 1 zone;
         minute = (\<lambda>d. if d \<le> day_start then 0 else if day_end \<le> d then 1440 else minute_of_day off d zone);
         from = max (minute (bk_start block)) (start_hour * 60); to = min (minute (bk_end block)) (end_hour * 60)
     in if to \<le> from then None else Some (of_int (from - start_hour * 60) * px, of_int (to - from) * px))"

definition off_hour_spans :: "offsets \<Rightarrow> staff_lane \<Rightarrow> int \<Rightarrow> int \<Rightarrow> string \<Rightarrow> (int \<times> int) list" where
  "off_hour_spans off lane start_hour end_hour zone =
    (let total = (end_hour - start_hour) * 60
     in if ln_unset lane then []
        else case ln_hours lane of None \<Rightarrow> [(0, total)]
        | Some w \<Rightarrow>
           (let a = minute_of_day off (fst w) zone - start_hour * 60; b = minute_of_day off (snd w) zone - start_hour * 60
            in filter (\<lambda>(from, to). to > from) [(0, max 0 a), (min total b, total)]))"

definition hour_marks :: "int \<Rightarrow> int \<Rightarrow> int list" where
  "hour_marks start_hour end_hour = [start_hour..end_hour - 1]"

datatype event_flag = Needs_Move | Class_Flag | Deposit_Due | Recurring | Online_Flag | Addons | Note_Flag

definition event_flags :: "schedule_event \<Rightarrow> event_flag list" where
  "event_flags e =
    (if se_needs_move e then [Needs_Move] else []) @ (if se_kind e = Class_Session then [Class_Flag] else [])
    @ (if ce_deposit_required e \<and> ce_deposit_status e = ''pending'' \<and> (ce_status e = ''confirmed'' \<or> ce_status e = ''pending'')
       then [Deposit_Due] else [])
    @ (if se_series e \<noteq> None then [Recurring] else []) @ (if se_source e = Online then [Online_Flag] else [])
    @ (if se_addons e > 0 then [Addons] else []) @ (if se_note e \<noteq> None then [Note_Flag] else [])"

definition needs_closing :: "schedule_event list \<Rightarrow> schedule_event list" where
  "needs_closing = filter se_needs_close"

definition up_next :: "schedule_event list \<Rightarrow> int \<Rightarrow> nat \<Rightarrow> schedule_event list" where
  "up_next events now n = take n (filter (\<lambda>e. now < ce_start e \<and> (ce_status e = ''confirmed'' \<or> ce_status e = ''pending'')) events)"

section \<open>What may be done to a visit, and where the next one goes\<close>

record lifecycle =
  lc_complete :: bool
  lc_no_show :: bool
  lc_cancel :: bool
  lc_reschedule :: bool
  lc_approve :: bool
  lc_decline :: bool
  lc_not_started_note :: bool

definition lifecycle_of :: "schedule_event option \<Rightarrow> int \<Rightarrow> lifecycle" where
  "lifecycle_of event now =
    (let is_open = (case event of None \<Rightarrow> False
           | Some e \<Rightarrow> ce_booking e \<noteq> None \<and> (ce_status e = ''confirmed'' \<or> ce_status e = ''pending''));
         started = (case event of None \<Rightarrow> False | Some e \<Rightarrow> ce_start e \<le> now);
         request = (is_open \<and> \<not> started \<and> (case event of None \<Rightarrow> False | Some e \<Rightarrow> ce_status e = ''pending''))
     in \<lparr>lc_complete = (is_open \<and> started), lc_no_show = (is_open \<and> started),
         lc_cancel = (is_open \<and> \<not> started \<and> \<not> request), lc_reschedule = (is_open \<and> \<not> started),
         lc_approve = request, lc_decline = request, lc_not_started_note = (is_open \<and> \<not> started \<and> \<not> request)\<rparr>)"

record series_step =
  ss_frequency :: string
  ss_interval :: int

definition next_visit_start :: "offsets \<Rightarrow> int \<Rightarrow> int option \<Rightarrow> series_step option \<Rightarrow> string \<Rightarrow> int option" where
  "next_visit_start off start previous series zone =
    (let on_day = (\<lambda>day. combine_key_and_time off (date_key off day zone) (clock_key off start zone) zone)
     in case series of
          Some sr \<Rightarrow>
            if ss_frequency sr = ''month'' then on_day (add_months off start (ss_interval sr) zone)
            else on_day (add_days off start (ss_interval sr * (if ss_frequency sr = ''week'' then 7 else 1)) zone)
        | None \<Rightarrow> (case previous of None \<Rightarrow> None
           | Some p \<Rightarrow> let days = js_round (of_int (start - p) / of_int (24 * 60 * ms_per_min))
                      in if days \<ge> 1 then on_day (add_days off start days zone) else None))"

function quarter_starts :: "int \<Rightarrow> int \<Rightarrow> int \<Rightarrow> int list" where
  "quarter_starts t length_ms end_ms =
    (if t + length_ms \<le> end_ms then t # quarter_starts (t + 15 * ms_per_min) length_ms end_ms else [])"
  by pat_completeness auto

termination
  by (relation "measure (\<lambda>(t, l, e). nat (e - l - t + 1))") (auto simp: ms_per_min_def)

declare quarter_starts.simps [simp del]

definition open_starts :: "offsets \<Rightarrow> availability \<Rightarrow> string \<Rightarrow> int \<Rightarrow> int \<Rightarrow> int \<times> int \<Rightarrow> int list" where
  "open_starts off av staff day length_min window =
    (let windows = (case av_windows off av staff day of Some w \<Rightarrow> w
       | None \<Rightarrow> [(minutes_into off day (fst window * 60) (av_zone av), minutes_into off day (snd window * 60) (av_zone av))])
     in concat (map (\<lambda>(start, end). quarter_starts start (length_min * ms_per_min) end) windows))"

definition group_starts :: "offsets \<Rightarrow> (int \<Rightarrow> string \<Rightarrow> string) \<Rightarrow> (string \<times> int \<times> bool) list \<Rightarrow> string \<Rightarrow> (string \<times> (string \<times> string \<times> bool) list) list" where
  "group_starts off time_of_period slots zone =
    (let part = (\<lambda>label from to. (label, map (\<lambda>(key, t, disabled). (key, time_of_period t zone, disabled))
           (filter (\<lambda>(key, t, disabled). let hour = wl_hour (wall_time off t zone) in from \<le> hour \<and> hour < to) slots)))
     in filter (\<lambda>(_, ss). ss \<noteq> []) [part ''morning'' 0 12, part ''afternoon'' 12 17, part ''evening'' 17 24])"

definition shift_day :: "offsets \<Rightarrow> string \<Rightarrow> int \<Rightarrow> string \<Rightarrow> int \<Rightarrow> string option" where
  "shift_day off day dir zone now =
    map_option (\<lambda>d. let next = add_days off d (dir * 7) zone; today = start_of_day off now zone
                    in date_key off (if next < today then today else next) zone)
      (combine_key_and_time off day ''00:00'' zone)"

definition actors_for :: "staff_row list \<Rightarrow> (string \<times> string option) option \<Rightarrow> (string \<Rightarrow> bool) \<Rightarrow> staff_row list" where
  "actors_for rows viewer can_manage = (case viewer of None \<Rightarrow> rows
     | Some (role, staff) \<Rightarrow> if can_manage role then rows else filter (\<lambda>r. Some (sf_id r) = staff) rows)"

definition draft_follows :: "(string \<times> string) option \<Rightarrow> string \<Rightarrow> string \<Rightarrow> bool option" where
  "draft_follows was day focus =
    (if day = focus then None
     else if map_option snd was \<noteq> Some day then Some True \<comment> \<open>the board\<close>
     else if map_option fst was \<noteq> Some focus then Some False \<comment> \<open>the form\<close> else None)"

definition suggested_start :: "offsets \<Rightarrow> int \<Rightarrow> int \<Rightarrow> int \<times> int \<Rightarrow> string \<Rightarrow> int" where
  "suggested_start off day now window zone =
    (let opens = minutes_into off day (fst window * 60) zone; last_quarter = minutes_into off day (24 * 60 - 15) zone;
         quarter = 15 * ms_per_min;
         wanted = (if same_day off day now zone then min (- ((- now) div quarter) * quarter) last_quarter
                   else minutes_into off day (10 * 60) zone)
     in if wanted < opens then opens else wanted)"

definition to_quarter_hour :: "int \<Rightarrow> int" where
  "to_quarter_hour t = js_round (of_int t / of_int (15 * ms_per_min)) * 15 * ms_per_min"

definition composer_times :: "(string \<Rightarrow> string) \<Rightarrow> int \<times> int \<Rightarrow> (string \<times> string) list" where
  "composer_times format_clock window =
    concat (map (\<lambda>hh. map (\<lambda>mm. let key = pad2 hh @ '':'' @ pad2 mm in (key, format_clock key)) [0, 15, 30, 45])
      [min 6 (fst window)..max 22 (snd window) - 1])"

section \<open>The starts offered fit the member's hours\<close>

lemma set_quarter_starts:
  "set (quarter_starts t l e) = {x. \<exists>k. x = t + int k * (15 * ms_per_min) \<and> x + l \<le> e}"
proof (induction t l e rule: quarter_starts.induct)
  case (1 t l e)
  show ?case
  proof (cases "t + l \<le> e")
    case True
    have "{x. \<exists>k. x = t + int k * (15 * ms_per_min) \<and> x + l \<le> e}
        = insert t {x. \<exists>k. x = t + 15 * ms_per_min + int k * (15 * ms_per_min) \<and> x + l \<le> e}" (is "?A = insert t ?B")
    proof (intro set_eqI iffI)
      fix x assume "x \<in> ?A"
      then obtain k where k: "x = t + int k * (15 * ms_per_min)" "x + l \<le> e" by blast
      then show "x \<in> insert t ?B"
      proof (cases k)
        case (Suc j) with k have "x = t + 15 * ms_per_min + int j * (15 * ms_per_min)" by (simp add: algebra_simps)
        with k show ?thesis by blast
      qed simp
    next
      fix x assume "x \<in> insert t ?B"
      then consider "x = t" | k where "x = t + 15 * ms_per_min + int k * (15 * ms_per_min)" "x + l \<le> e" by blast
      then show "x \<in> ?A"
      proof cases
        case 1 then show ?thesis using True by (auto intro: exI [of _ "0 :: nat"])
      next
        case (2 k)
        then have "x = t + int (Suc k) * (15 * ms_per_min)" by (simp add: algebra_simps)
        with 2 show ?thesis by blast
      qed
    qed
    with 1 True show ?thesis by (subst quarter_starts.simps) simp
  next
    case False
    have "\<not> t + int k * (15 * ms_per_min) + l \<le> e" for k using False by (simp add: ms_per_min_def)
    with False show ?thesis by (subst quarter_starts.simps) auto
  qed
qed

text \<open>The hours of a member depend only on the calendar day.\<close>

lemma wall_date_local_day:
  "local_day off a zone = local_day off b zone \<Longrightarrow>
    wl_year (wall_time off a zone) = wl_year (wall_time off b zone) \<and> wl_month (wall_time off a zone) = wl_month (wall_time off b zone)
    \<and> wl_day (wall_time off a zone) = wl_day (wall_time off b zone) \<and> wl_weekday (wall_time off a zone) = wl_weekday (wall_time off b zone)"
  by (simp add: local_day_def wall_time_def Let_def case_prod_unfold)

lemma av_windows_local_day:
  assumes "local_day off a (av_zone av) = local_day off b (av_zone av)"
  shows "av_windows off av staff a = av_windows off av staff b"
proof -
  note w = wall_date_local_day [OF assms]
  have "row_window off av a = row_window off av b"
    by (rule ext) (simp add: row_window_def clock_on_def combine_day_and_time_def add_days_def w Let_def cong: option.case_cong)
  moreover have "day_rows off av staff a = day_rows off av staff b"
    by (simp add: day_rows_def date_key_def weekday_index_def w Let_def)
  ultimately show ?thesis by (simp add: av_windows_def Let_def)
qed

text \<open>The composer offers exactly the quarter-hour starts from which the visit ends within a window of the
  member's day, and such a start, on that day with the visit ending the same day, is never refused as outside
  the member's hours.\<close>

theorem open_starts_within_hours:
  assumes "av_windows off av staff day = Some ws"
  shows "(t \<in> set (open_starts off av staff day len window)
      \<longleftrightarrow> (\<exists>w\<in>set ws. \<exists>k. t = fst w + int k * (15 * ms_per_min) \<and> t + len * ms_per_min \<le> snd w))
    \<and> (t \<in> set (open_starts off av staff day len window) \<and> local_day off t (av_zone av) = local_day off day (av_zone av)
        \<and> date_key off (t + len * ms_per_min) (av_zone av) = date_key off t (av_zone av) \<longrightarrow>
        within_hours off av staff t (t + len * ms_per_min))"
proof -
  have iff: "t \<in> set (open_starts off av staff day len window)
      \<longleftrightarrow> (\<exists>w\<in>set ws. \<exists>k. t = fst w + int k * (15 * ms_per_min) \<and> t + len * ms_per_min \<le> snd w)"
    by (auto simp: open_starts_def assms set_quarter_starts case_prod_unfold)
  moreover have "within_hours off av staff t (t + len * ms_per_min)"
    if t: "t \<in> set (open_starts off av staff day len window)" "local_day off t (av_zone av) = local_day off day (av_zone av)"
      "date_key off (t + len * ms_per_min) (av_zone av) = date_key off t (av_zone av)"
  proof -
    from t(1) iff obtain w k where w: "w \<in> set ws" "t = fst w + int k * (15 * ms_per_min)" "t + len * ms_per_min \<le> snd w" by blast
    have "fst w \<le> t" using w(2) by (simp add: ms_per_min_def)
    moreover have "av_windows off av staff t = Some ws" using av_windows_local_day [OF t(2)] assms by simp
    ultimately show ?thesis unfolding within_hours_def using w(1,3) t(3) by auto
  qed
  ultimately show ?thesis by blast
qed

theorem open_starts_within_hours_witness:
  "within_hours (\<lambda>_ _. 0) \<lparr>av_hours = [\<lparr>hw_staff = ''m1'', hw_basis = ''date'', hw_weekday = None, hw_date = Some ''1970-01-01'',
       hw_start = Some ''09:00'', hw_end = Some ''10:00'', hw_available = 1\<rparr>], av_away = [], av_zone = ''UTC''\<rparr>
     ''m1'' (570 * ms_per_min) (570 * ms_per_min + 30 * ms_per_min)"
proof -
  let ?av = "\<lparr>av_hours = [\<lparr>hw_staff = ''m1'', hw_basis = ''date'', hw_weekday = None, hw_date = Some ''1970-01-01'',
       hw_start = Some ''09:00'', hw_end = Some ''10:00'', hw_available = 1\<rparr>], av_away = [], av_zone = ''UTC''\<rparr>"
  have w: "av_windows (\<lambda>_ _. 0) ?av ''m1'' 0 = Some [(540 * ms_per_min, 600 * ms_per_min)]" by code_simp
  have "570 * ms_per_min \<in> set (open_starts (\<lambda>_ _. 0) ?av ''m1'' 0 30 (8, 18))"
    using open_starts_within_hours [OF w, THEN conjunct1, of "570 * ms_per_min" 30 "(8, 18)"]
    by (auto simp: ms_per_min_def intro: exI [of _ 2])
  moreover have "local_day (\<lambda>_ _. 0) (570 * ms_per_min) (av_zone ?av) = local_day (\<lambda>_ _. 0) 0 (av_zone ?av)" by code_simp
  moreover have "date_key (\<lambda>_ _. 0) (570 * ms_per_min + 30 * ms_per_min) (av_zone ?av)
      = date_key (\<lambda>_ _. 0) (570 * ms_per_min) (av_zone ?av)" by code_simp
  ultimately show ?thesis using open_starts_within_hours [OF w, THEN conjunct2, of "570 * ms_per_min" 30 "(8, 18)"] by blast
qed

section \<open>The board shows every shift and visit\<close>

lemma visible_fold:
  fixes lo hi :: "time_window \<Rightarrow> int"
  shows "foldl (\<lambda>(a, b) x. (min a (lo x), max b (hi x))) (a0, b0) xs = (a, b) \<Longrightarrow>
    a \<le> a0 \<and> b0 \<le> b \<and> (\<forall>x\<in>set xs. a \<le> lo x \<and> hi x \<le> b)"
  by (induction xs arbitrary: a0 b0) fastforce+

lemma utc_minutes_bounds: "0 \<le> utc_minutes t \<and> utc_minutes t \<le> 59"
proof -
  have "0 \<le> t mod 3600000 \<and> t mod 3600000 < 3600000" by simp
  then show ?thesis unfolding utc_minutes_def ms_per_min_def by linarith
qed

text \<open>The hours of the board contain every shift and visit of the day: none starts above its top, and none ends
  below its bottom unless it runs past midnight, when the board is shown to the end of the day.\<close>

lemma visible_window_covers:
  assumes "visible_window off day spans zone = (a, b)" "(start, end) \<in> set spans"
    "start_of_day off day zone < start" "minute_of_day off start zone < minute_of_day off end zone"
    "end < add_days off (start_of_day off day zone) 1 zone"
  shows "a * 60 \<le> minute_of_day off start zone \<and> minute_of_day off end zone \<le> b * 60"
proof -
  let ?d0 = "start_of_day off day zone" and ?d1 = "add_days off (start_of_day off day zone) 1 zone"
  let ?lo = "\<lambda>x. if fst x \<le> ?d0 then 0 else wl_hour (wall_time off (fst x) zone)"
  let ?hi = "\<lambda>x. if ?d1 \<le> snd x then 24 else wl_hour (wall_time off (snd x) zone) + (if wl_minute (wall_time off (snd x) zone) > 0 then 1 else 0)"
  obtain a' b' where f: "foldl (\<lambda>(a, b) x. (min a (?lo x), max b (?hi x))) (24, 0) spans = (a', b')" by fastforce
  have mins: "0 \<le> wl_minute (wall_time off t zone) \<and> wl_minute (wall_time off t zone) \<le> 59" for t
    by (simp add: wall_time_def Let_def case_prod_unfold utc_minutes_bounds)
  have "a' \<le> wl_hour (wall_time off start zone)"
    "wl_hour (wall_time off end zone) + (if wl_minute (wall_time off end zone) > 0 then 1 else 0) \<le> b'"
    using visible_fold [OF f] assms(2,3,5) by (force simp: not_le)+
  then have lo: "a' * 60 \<le> minute_of_day off start zone" and hi: "minute_of_day off end zone \<le> b' * 60"
    using mins [of start] mins [of "end"] by (auto simp: minute_of_day_def Let_def split: if_splits)
  with assms(4) have "a' < b'" by linarith
  moreover have "visible_window off day spans zone = (if a' < b' then (a', b') else (9, 17))"
    using f by (simp add: visible_window_def Let_def case_prod_unfold)
  ultimately show ?thesis using assms(1) lo hi by simp
qed

end
