(* ===== verification/Recurrences.thy ===== *)
theory Recurrences
  imports Slots Attempts Zones
begin

text \<open>
  Recurring visits (\<open>app-core/src/domain/recurrences.ts\<close>): the dates of a pattern, the clashes and suggestions of
  each, the composer that books a series, and the list, record and change of the series booked. Weekday names and
  times in messages are printed by the arguments in \<open>series_words\<close>; the names of the members are looked up by
  \<open>cx_first_name\<close> (the empty text for a member who is not there).
\<close>

section \<open>The dates of a pattern\<close>

datatype frequency = Weekly | Monthly
datatype series_end = By_Count | By_Date

definition max_visits :: nat where "max_visits = 60"

definition nth_weekday :: "offsets \<Rightarrow> int \<Rightarrow> string \<Rightarrow> int" where
  "nth_weekday off d zone = \<lceil>of_int (wl_day (wall_time off d zone)) / (7 :: rat)\<rceil>"

text \<open>\<open>while (day > days) day -= 7\<close>.\<close>

function back_into_month :: "int \<Rightarrow> int \<Rightarrow> int" where
  "back_into_month day days = (if days < day then back_into_month (day - 7) days else day)"
  by pat_completeness auto

termination by (relation "measure (\<lambda>(day, days). nat (day - days))") auto

declare back_into_month.simps [simp del]

text \<open>The year, month and day of the month a monthly visit falls on, \<open>months\<close> after a day.\<close>

definition month_visit_day :: "wall \<Rightarrow> int \<Rightarrow> int \<Rightarrow> int \<times> int \<times> int" where
  "month_visit_day w n months =
    (let first = day_of (date_utc (wl_year w) (wl_month w + months) 1 0 0);
         (y, m, _) = civil first;
         shift = js_rem (wl_weekday w - weekday_of first + 7) 7;
         days = snd (snd (civil (day_of (date_utc y (m + 1) 0 0 0))))
     in (y, m, back_into_month (1 + shift + (n - 1) * 7) days))"

definition step_date :: "offsets \<Rightarrow> int \<Rightarrow> frequency \<Rightarrow> int \<Rightarrow> int \<Rightarrow> string \<Rightarrow> int" where
  "step_date off from freq interval i zone =
    (let w = wall_time off from zone
     in case freq of
          Weekly \<Rightarrow> zoned_date off (wl_year w) (wl_month w) (wl_day w + 7 * interval * i) (wl_hour w) (wl_minute w) zone
        | Monthly \<Rightarrow>
           (let (y, m, day) = month_visit_day w (nth_weekday off from zone) (interval * i)
            in zoned_date off y m day (wl_hour w) (wl_minute w) zone))"

text \<open>A visit moved to a weekday (0 is Sunday) and a time of its own week.\<close>

definition moved_start :: "offsets \<Rightarrow> int \<Rightarrow> int \<Rightarrow> string \<Rightarrow> string \<Rightarrow> int option" where
  "moved_start off start weekday time zone =
    (let shift = js_rem (weekday + 6) 7 - js_rem (wl_weekday (wall_time off start zone) + 6) 7
     in combine_day_and_time off (add_days off start shift zone) time zone)"

section \<open>Clashes\<close>

record series_ctx =
  cx_avail :: availability
  cx_events :: "calendar_event list"
  cx_first_name :: "string \<Rightarrow> string"
  cx_now :: int

record series_words =
  sr_weekday :: "int \<Rightarrow> string \<Rightarrow> string"
  sr_time :: "int \<Rightarrow> string \<Rightarrow> string"

definition away_label :: "series_ctx \<Rightarrow> string \<Rightarrow> int \<Rightarrow> int \<Rightarrow> string" where
  "away_label cx staff start end =
    (case av_away_at (cx_avail cx) staff start end of Some b \<Rightarrow> bk_label b | None \<Rightarrow> [])"

definition taken_at :: "series_words \<Rightarrow> calendar_event list \<Rightarrow> string \<Rightarrow> int \<Rightarrow> int \<Rightarrow> string \<Rightarrow> string" where
  "taken_at wds events staff start end zone =
    (let overlaps = filter (\<lambda>e. ce_staff e = staff \<and> ce_status e \<noteq> ''canceled'' \<and> ce_start e < end \<and> start < ce_end e) events
     in case (find (\<lambda>e. ce_status e \<noteq> ''no_show'') overlaps, overlaps) of
          (Some e, _) \<Rightarrow> sr_time wds (ce_start e) zone
        | (None, e # _) \<Rightarrow> sr_time wds (ce_start e) zone
        | (None, []) \<Rightarrow> [])"

definition problem_at :: "offsets \<Rightarrow> series_words \<Rightarrow> series_ctx \<Rightarrow> string \<Rightarrow> int \<Rightarrow> int \<Rightarrow> (string \<Rightarrow> bool) \<Rightarrow> slot_item option \<Rightarrow> slot_message option" where
  "problem_at off wds cx staff start end ignored item =
    (let av = cx_avail cx; zone = av_zone av; name = cx_first_name cx staff;
         events = filter (\<lambda>e. \<not> ignored (ce_id e)) (cx_events cx);
         (problem, message) = slot_problem off av events (cx_first_name cx) staff start end None item None
     in case problem of
          Closed \<Rightarrow> Some (''closed'', [away_label cx staff start end])
        | Time_Off \<Rightarrow> Some (''away'', [name, away_label cx staff start end])
        | Off_Hours \<Rightarrow> (if av_windows off av staff start = Some [] then Some (''notWorking'', [name, sr_weekday wds start zone])
                        else Some (''outsideHours'', [name]))
        | Overlap \<Rightarrow> Some (''taken'', [name, taken_at wds events staff start end zone])
        | Full \<Rightarrow> Some message
        | _ \<Rightarrow> None)"

definition suggest_deltas :: "int list" where
  "suggest_deltas = [60, -60, 30, -30, 120, -120, 180]"

definition suggest :: "offsets \<Rightarrow> series_words \<Rightarrow> series_ctx \<Rightarrow> string \<Rightarrow> int \<Rightarrow> int \<Rightarrow> (string \<Rightarrow> bool) \<Rightarrow> slot_item option \<Rightarrow> int option" where
  "suggest off wds cx staff start minutes ignored item =
    find (\<lambda>t. same_day off t start (av_zone (cx_avail cx))
            \<and> problem_at off wds cx staff t (t + minutes * ms_per_min) ignored item = None)
      (map (\<lambda>delta. start + delta * ms_per_min) suggest_deltas)"

section \<open>Occurrences\<close>

datatype occurrence_status = Booked | Moved | Skipped | Conflict | Done | Missed | Canceled

record occurrence =
  oc_key :: string
  oc_index :: nat
  oc_start :: int
  oc_end :: int
  oc_status :: occurrence_status
  oc_problem :: "slot_message option"
  oc_suggestion :: "int option"
  oc_past :: bool

record pattern_input =
  pi_first :: int
  pi_frequency :: frequency
  pi_interval :: int
  pi_end :: series_end
  pi_count :: nat
  pi_until :: int
  pi_staff :: string
  pi_minutes :: int
  pi_item :: "slot_item option"

definition occurrence_starts :: "offsets \<Rightarrow> pattern_input \<Rightarrow> string \<Rightarrow> int list" where
  "occurrence_starts off p zone =
    (let limit = (if pi_end p = By_Count then min (pi_count p) max_visits else max_visits)
     in takeWhile (\<lambda>start. \<not> (pi_end p = By_Date \<and> add_days off (pi_until p) 1 zone \<le> start))
          (map (\<lambda>i. step_date off (pi_first p) (pi_frequency p) (pi_interval p) (int i) zone) [0..<limit]))"

definition occurrence_at :: "offsets \<Rightarrow> series_words \<Rightarrow> series_ctx \<Rightarrow> pattern_input \<Rightarrow> (string \<Rightarrow> bool) \<Rightarrow> nat \<Rightarrow> int \<Rightarrow> occurrence" where
  "occurrence_at off wds cx p ignored i start =
    (let end = start + pi_minutes p * ms_per_min; past = start < cx_now cx;
         problem = (if past then None else problem_at off wds cx (pi_staff p) start end ignored (pi_item p))
     in \<lparr>oc_key = date_key off start (av_zone (cx_avail cx)), oc_index = i + 1, oc_start = start, oc_end = end,
         oc_status = (if past then Done else if problem \<noteq> None then Conflict else Booked), oc_problem = problem,
         oc_suggestion = (if problem \<noteq> None then suggest off wds cx (pi_staff p) start (pi_minutes p) ignored (pi_item p) else None),
         oc_past = past\<rparr>)"

definition build_occurrences :: "offsets \<Rightarrow> series_words \<Rightarrow> series_ctx \<Rightarrow> pattern_input \<Rightarrow> (string \<Rightarrow> bool) \<Rightarrow> occurrence list" where
  "build_occurrences off wds cx p ignored =
    (let starts = occurrence_starts off p (av_zone (cx_avail cx))
     in map (\<lambda>(i, start). occurrence_at off wds cx p ignored i start) (zip [0..<length starts] starts))"



section \<open>Composing a series\<close>

datatype choice = Shift | Skip

record occurrence_view =
  ov_occurrence :: occurrence \<comment> \<open>with the status the choice gives it\<close>
  ov_choice :: "choice option"
  ov_final :: int

definition view_occurrence :: "(string, choice) js_map \<Rightarrow> occurrence \<Rightarrow> occurrence_view" where
  "view_occurrence choices o' =
    (let choice = (if oc_status o' = Conflict
           then Some (case map_of choices (oc_key o') of Some c \<Rightarrow> c
                      | None \<Rightarrow> if oc_suggestion o' \<noteq> None then Shift else Skip)
           else None)
     in \<lparr>ov_occurrence = o'\<lparr>oc_status := (case choice of Some Shift \<Rightarrow> Moved | Some Skip \<Rightarrow> Skipped | None \<Rightarrow> oc_status o')\<rparr>,
         ov_choice = choice,
         ov_final = (case (choice, oc_suggestion o') of (Some Shift, Some t) \<Rightarrow> t | _ \<Rightarrow> oc_start o')\<rparr>)"

definition has_status :: "occurrence_status \<Rightarrow> occurrence_view \<Rightarrow> bool" where
  "has_status st v \<longleftrightarrow> oc_status (ov_occurrence v) = st"

record series_counts =
  sc_booked :: nat
  sc_moved :: nat
  sc_skipped :: nat
  sc_open :: nat

definition series_counts_of :: "occurrence_view list \<Rightarrow> series_counts" where
  "series_counts_of vs = \<lparr>sc_booked = length (filter (\<lambda>v. has_status Booked v \<or> has_status Moved v) vs),
     sc_moved = length (filter (has_status Moved) vs), sc_skipped = length (filter (has_status Skipped) vs),
     sc_open = length (filter (has_status Conflict) vs)\<rparr>"

datatype series_exception = Skip_On string | Shift_On string int

definition exceptions_of :: "occurrence_view list \<Rightarrow> series_exception list" where
  "exceptions_of vs = map (\<lambda>v. if ov_choice v = Some Skip then Skip_On (oc_key (ov_occurrence v))
       else Shift_On (oc_key (ov_occurrence v)) (ov_final v)) (filter (\<lambda>v. ov_choice v \<noteq> None) vs)"

record series_form =
  sf_client :: string
  sf_item :: string
  sf_staff :: string
  sf_first_day :: string
  sf_time :: string
  sf_frequency :: frequency
  sf_interval :: int
  sf_end :: series_end
  sf_count :: int
  sf_until :: string
  sf_one_confirmation :: bool

record series_body =
  sb_client :: string
  sb_item :: string
  sb_staff :: string
  sb_subject :: "string option"
  sb_starts :: int
  sb_frequency :: frequency
  sb_interval :: int
  sb_count :: "int option"
  sb_until :: "string option"
  sb_exceptions :: "series_exception list"
  sb_one_confirmation :: bool

record series_done =
  sd_created :: int
  sd_skipped :: int
  sd_client :: string
  sd_one_confirmation :: bool

record series_composer =
  sp_form :: series_form
  sp_choices :: "(string, choice) js_map"
  sp_done :: "series_done option"
  sp_key :: "series_body attempt option"
  sp_action :: async_action

definition series_ready :: "series_form \<Rightarrow> bool" where
  "series_ready f \<longleftrightarrow> sf_client f \<noteq> [] \<and> sf_item f \<noteq> [] \<and> sf_staff f \<noteq> []"

definition series_start :: "offsets \<Rightarrow> string \<Rightarrow> series_form \<Rightarrow> int" where
  "series_start off zone f = (case combine_key_and_time off (sf_first_day f) (sf_time f) zone of Some t \<Rightarrow> t | None \<Rightarrow> 0)"

definition series_input :: "offsets \<Rightarrow> string \<Rightarrow> int \<Rightarrow> slot_item option \<Rightarrow> series_form \<Rightarrow> pattern_input" where
  "series_input off zone minutes item f = \<lparr>pi_first = series_start off zone f, pi_frequency = sf_frequency f,
     pi_interval = max 1 (sf_interval f), pi_end = sf_end f, pi_count = nat (max 1 (sf_count f)),
     pi_until = (case combine_key_and_time off (sf_until f) ''00:00'' zone of Some t \<Rightarrow> t | None \<Rightarrow> 0),
     pi_staff = sf_staff f, pi_minutes = minutes, pi_item = item\<rparr>"

definition series_views :: "offsets \<Rightarrow> series_words \<Rightarrow> series_ctx \<Rightarrow> int \<Rightarrow> slot_item option \<Rightarrow> series_composer \<Rightarrow> occurrence_view list" where
  "series_views off wds cx minutes item s =
    (if series_ready (sp_form s)
     then map (view_occurrence (sp_choices s))
       (build_occurrences off wds cx (series_input off (av_zone (cx_avail cx)) minutes item (sp_form s)) (\<lambda>_. False))
     else [])"

definition resolve_choice :: "string \<Rightarrow> choice \<Rightarrow> series_composer \<Rightarrow> series_composer" where
  "resolve_choice k c s = s\<lparr>sp_choices := AList.update k c (sp_choices s)\<rparr>"

definition series_reset :: "series_composer \<Rightarrow> series_composer" where
  "series_reset s = s\<lparr>sp_done := None, sp_choices := [], sp_key := None\<rparr>"

definition can_submit :: "series_form \<Rightarrow> occurrence_view list \<Rightarrow> bool" where
  "can_submit f vs \<longleftrightarrow> series_ready f \<and> sc_booked (series_counts_of vs) > 0 \<and> sc_open (series_counts_of vs) = 0"

definition series_body_of :: "offsets \<Rightarrow> string \<Rightarrow> string option \<Rightarrow> series_form \<Rightarrow> occurrence_view list \<Rightarrow> series_body" where
  "series_body_of off zone subject f vs = \<lparr>sb_client = sf_client f, sb_item = sf_item f, sb_staff = sf_staff f,
     sb_subject = subject, sb_starts = series_start off zone f, sb_frequency = sf_frequency f,
     sb_interval = max 1 (sf_interval f), sb_count = (if sf_end f = By_Count then Some (max 1 (sf_count f)) else None),
     sb_until = (if sf_end f = By_Date then Some (sf_until f) else None), sb_exceptions = exceptions_of vs,
     sb_one_confirmation = sf_one_confirmation f\<rparr>"

text \<open>Submitting: refused, or the key drawn and, unless a request is under way, the request.\<close>

datatype series_request = No_Request | Post_Series series_body string

definition series_submit :: "string \<Rightarrow> series_body \<Rightarrow> nat \<Rightarrow> series_composer \<Rightarrow> series_composer \<times> series_request" where
  [step_defs]: "series_submit fresh body booked s =
    (if \<not> series_ready (sp_form s) \<or> booked = 0
     then (s\<lparr>sp_action := action_set_error (Some ''nothingToBook'') (sp_action s)\<rparr>, No_Request)
     else let (key, ref) = attempt_key fresh (sp_key s) body; s1 = s\<lparr>sp_key := ref\<rparr>
          in case action_start (sp_action s1) of None \<Rightarrow> (s1, No_Request)
             | Some a \<Rightarrow> (s1\<lparr>sp_action := a\<rparr>, Post_Series body key))"

definition series_created :: "int \<Rightarrow> int \<Rightarrow> nat \<Rightarrow> string \<Rightarrow> bool \<Rightarrow> series_composer \<Rightarrow> series_composer" where
  [step_defs]: "series_created created skipped known client one s =
    s\<lparr>sp_done := Some \<lparr>sd_created = created, sd_skipped = skipped - int known, sd_client = client, sd_one_confirmation = one\<rparr>,
      sp_action := action_end None (sp_action s)\<rparr>"

definition series_refused :: "string \<Rightarrow> series_composer \<Rightarrow> series_composer" where
  [step_defs]: "series_refused message s = s\<lparr>sp_action := action_end (Some message) (sp_action s)\<rparr>"

section \<open>The series booked\<close>

record series_row =
  sx_id :: string
  sx_staff :: "string option"
  sx_status :: string

record series_visit_row =
  sv_slot :: string
  sv_recurrence :: string
  sv_starts :: string
  sv_ends :: string
  sv_staff :: string
  sv_booking :: "string option"
  sv_status :: "string option"

definition series_visit_id :: "series_visit_row \<Rightarrow> string" where
  "series_visit_id v = (case sv_booking v of Some b \<Rightarrow> b | None \<Rightarrow> sv_slot v)"

definition date_status :: "string \<Rightarrow> bool \<Rightarrow> bool \<Rightarrow> occurrence_status" where
  "date_status st past problem = (if st = ''canceled'' then Canceled else if st = ''no_show'' then Missed
     else if st = ''completed'' \<or> past then Done else if problem then Conflict else Booked)"

definition dates_of :: "offsets \<Rightarrow> series_words \<Rightarrow> (string \<Rightarrow> int) \<Rightarrow> string \<Rightarrow> series_visit_row list \<Rightarrow> series_ctx \<Rightarrow> (occurrence \<times> series_visit_row) list" where
  "dates_of off wds parse recurrence visits cx =
    (let mine = filter (\<lambda>v. sv_recurrence v = recurrence) visits; ids = set (map series_visit_id mine)
     in map (\<lambda>(i, v). let start = parse (sv_starts v); end = parse (sv_ends v); past = end \<le> cx_now cx;
                st = (case sv_status v of Some st \<Rightarrow> st | None \<Rightarrow> ''canceled''); live = (st = ''confirmed'' \<or> st = ''pending'');
                problem = (if live \<and> \<not> past then problem_at off wds cx (sv_staff v) start end (\<lambda>x. x \<in> ids) None else None)
              in (\<lparr>oc_key = sv_slot v, oc_index = i + 1, oc_start = start, oc_end = end,
                   oc_status = date_status st past (problem \<noteq> None), oc_problem = problem, oc_suggestion = None, oc_past = past\<rparr>, v))
          (zip [0..<length mine] mine))"

record series_summary =
  sm_progress :: "nat \<times> nat"
  sm_ratio :: "rat option"
  sm_next :: "int option"
  sm_last :: "int option"
  sm_remaining :: int
  sm_attention :: nat
  sm_ending :: bool
  sm_status :: string

definition series_summary_of :: "series_row \<Rightarrow> occurrence list \<Rightarrow> series_summary" where
  "series_summary_of row dates =
    (let live = filter (\<lambda>d. oc_status d \<noteq> Canceled) dates; finished = length (filter oc_past live);
         remaining = int (length live) - int finished
     in \<lparr>sm_progress = (finished, length live),
         sm_ratio = (if live \<noteq> [] then Some (of_nat finished / of_nat (length live)) else None),
         sm_next = map_option oc_start (find (\<lambda>d. \<not> oc_past d) live),
         sm_last = (if live = [] then None else Some (oc_start (last live))), sm_remaining = remaining,
         sm_attention = length (filter (\<lambda>d. oc_status d = Conflict) dates), sm_ending = (remaining = 1),
         sm_status = sx_status row\<rparr>)"

datatype series_filter = All_Series | Attention | Ending | Stopped

definition is_stopped :: "series_summary \<Rightarrow> bool" where
  "is_stopped sm \<longleftrightarrow> sm_status sm = ''canceled'' \<or> sm_next sm = None"

definition in_filter :: "series_summary \<Rightarrow> series_filter \<Rightarrow> bool" where
  "in_filter sm f \<longleftrightarrow> (if f = Stopped then is_stopped sm else if is_stopped sm then False
     else if f = Attention then sm_attention sm > 0 else if f = Ending then sm_ending sm else True)"

definition filter_order :: "series_filter \<Rightarrow> series_summary \<Rightarrow> int" where
  "filter_order f sm = (if f = Stopped then - (case sm_last sm of Some t \<Rightarrow> t | None \<Rightarrow> 0)
     else (case sm_next sm of Some t \<Rightarrow> t | None \<Rightarrow> 0))"

section \<open>Changing a series\<close>

datatype change_scope = One_Visit | Following | Whole_Series

definition upcoming_dates :: "occurrence list \<Rightarrow> occurrence list" where
  "upcoming_dates = filter (\<lambda>d. \<not> oc_past d \<and> (oc_status d = Booked \<or> oc_status d = Conflict))"

definition dates_in_scope :: "change_scope \<Rightarrow> occurrence list \<Rightarrow> occurrence list" where
  "dates_in_scope scope upcoming = (if scope = One_Visit then take 1 upcoming else upcoming)"

definition preview_change :: "offsets \<Rightarrow> series_words \<Rightarrow> series_ctx \<Rightarrow> string set \<Rightarrow> int \<Rightarrow> string \<Rightarrow> string \<Rightarrow> occurrence list \<Rightarrow> occurrence list" where
  "preview_change off wds cx ids weekday time staff in_scope =
    map (\<lambda>d. let start = (case moved_start off (oc_start d) weekday time (av_zone (cx_avail cx)) of Some t \<Rightarrow> t | None \<Rightarrow> 0);
               end = start + (oc_end d - oc_start d); problem = problem_at off wds cx staff start end (\<lambda>x. x \<in> ids) None
             in d\<lparr>oc_start := start, oc_end := end, oc_status := (if problem \<noteq> None then Conflict else Booked), oc_problem := problem\<rparr>)
      in_scope"

record change_body =
  cb_scope :: change_scope
  cb_from :: "string option"
  cb_weekday :: int
  cb_time :: string
  cb_staff :: "string option"

definition change_body_of :: "offsets \<Rightarrow> string \<Rightarrow> change_scope \<Rightarrow> occurrence list \<Rightarrow> int \<Rightarrow> string \<Rightarrow> string \<Rightarrow> change_body" where
  "change_body_of off zone scope upcoming weekday time staff =
    (let from_key = (case upcoming of d # _ \<Rightarrow> Some (date_key off (oc_start d) zone) | [] \<Rightarrow> None)
     in \<lparr>cb_scope = scope, cb_from = (if scope = Whole_Series then None else from_key), cb_weekday = js_rem (weekday + 6) 7,
         cb_time = time, cb_staff = (if staff = [] then None else Some staff)\<rparr>)"

definition canceled_dates :: "bool \<Rightarrow> occurrence list \<Rightarrow> occurrence list" where
  "canceled_dates canceled dates = (if canceled then map (\<lambda>d. if oc_past d then d else d\<lparr>oc_status := Canceled\<rparr>) dates else dates)"

section \<open>A monthly visit keeps its weekday\<close>

lemma civil_month:
  "civil (make_day y m 1) = (y + (m - 1) div 12, (m - 1) mod 12 + 1, 1)"
proof -
  let ?y = "y + (m - 1) div 12" and ?m = "(m - 1) mod 12 + 1"
  have m: "1 \<le> ?m" "?m \<le> 12" by (simp_all add: pos_mod_bound [of 12 "m - 1", simplified] add.commute zless_add1_eq [symmetric])
  then have "make_day y m 1 = make_day ?y ?m 1" by (simp add: make_day_def Let_def)
  moreover have "valid_date ?y ?m 1" using m month_length_bounds [of ?m ?y] by (simp add: valid_date_def)
  ultimately show ?thesis by (simp add: civil_make_day)
qed

lemma make_day_last: "1 \<le> m \<Longrightarrow> m \<le> 12 \<Longrightarrow> make_day y (m + 1) 0 = make_day y m (month_length y m)"
proof -
  assume m: "1 \<le> m" "m \<le> 12"
  show ?thesis
  proof (cases "m = 12")
    case True
    have "year_start (y + 1) = year_start y + year_length y" by (simp add: year_start_Suc)
    with True show ?thesis
      by (simp add: make_day_def Let_def month_length_def year_length_def month_start_def month_starts_def)
  next
    case False
    with m show ?thesis by (simp add: make_day_in_year month_length_def)
  qed
qed

lemma nth_weekday_div: "nth_weekday off d zone = (wl_day (wall_time off d zone) + 6) div 7"
proof -
  let ?n = "wl_day (wall_time off d zone)"
  have "\<lceil>of_int ?n / (7 :: rat)\<rceil> = (?n + 6) div 7"
  proof (rule ceiling_unique)
    have "7 * ((?n + 6) div 7) \<le> ?n + 6" "?n \<le> 7 * ((?n + 6) div 7)" by linarith+
    then have "of_int (7 * ((?n + 6) div 7)) \<le> (of_int (?n + 6) :: rat)" "(of_int ?n :: rat) \<le> of_int (7 * ((?n + 6) div 7))"
      by (simp_all only: of_int_le_iff)
    then show "of_int ((?n + 6) div 7) - 1 < of_int ?n / (7 :: rat)" "of_int ?n / (7 :: rat) \<le> of_int ((?n + 6) div 7)"
      by (simp_all add: field_simps)
  qed
  then show ?thesis by (simp add: nth_weekday_def)
qed

text \<open>The day found is in the month, on the weekday asked for, and the \<open>n\<close>th of them or the last.\<close>

lemma month_visit_day_correct:
  assumes w: "plain_year (wl_year w)" "1 \<le> wl_month w" "0 \<le> months" "0 \<le> wl_weekday w" "wl_weekday w < 7" "100 \<le> wl_year w"
    and n: "1 \<le> n" "n \<le> 5" and day: "month_visit_day w n months = (y, m, d)"
  shows "valid_date y m d \<and> 12 * y + m = 12 * wl_year w + wl_month w + months \<and> 100 \<le> y
    \<and> weekday_of (make_day y m d) = wl_weekday w
    \<and> ((d + 6) div 7 = n \<or> n = 5 \<and> (d + 6) div 7 = 4 \<and> month_length y m < d + 7)"
proof -
  define first where "first = day_of (date_utc (wl_year w) (wl_month w + months) 1 0 0)"
  define shift where "shift = js_rem (wl_weekday w - weekday_of first + 7) 7"
  have first: "first = make_day (wl_year w) (wl_month w + months) 1"
    by (simp add: first_def day_of_date_utc full_year_plain [OF w(1)])
  then have civil: "civil first = (wl_year w + (wl_month w + months - 1) div 12, (wl_month w + months - 1) mod 12 + 1, 1)"
    by (simp add: civil_month)
  obtain d1 where ym: "civil first = (y, m, d1)"
    and d: "d = back_into_month (1 + shift + (n - 1) * 7) (snd (snd (civil (day_of (date_utc y (m + 1) 0 0 0)))))"
    using day by (auto simp: month_visit_day_def first_def [symmetric] shift_def Let_def split: prod.splits)
  have y: "y = wl_year w + (wl_month w + months - 1) div 12" and m: "m = (wl_month w + months - 1) mod 12 + 1"
    and d1: "d1 = 1" using civil ym by simp_all
  have mb: "1 \<le> m" "m \<le> 12" unfolding m by (simp_all add: zless_add1_eq [symmetric] add.commute)
  have y100: "100 \<le> y" unfolding y using w(2,3,6) by (simp add: pos_imp_zdiv_nonneg_iff)
  have count: "12 * y + m = 12 * wl_year w + wl_month w + months"
    unfolding y m using mult_div_mod_eq [of 12 "wl_month w + months - 1"] by (simp only: distrib_left)
  let ?len = "month_length y m"
  have len: "28 \<le> ?len" "?len \<le> 31" using month_length_bounds [OF mb] by simp_all
  have "plain_year y" using y100 by (simp add: plain_year_def)
  then have "civil (day_of (date_utc y (m + 1) 0 0 0)) = (y, m, ?len)"
    using mb len by (simp add: day_of_date_utc full_year_plain make_day_last civil_make_day valid_date_def)
  with d have d: "d = back_into_month (1 + shift + (n - 1) * 7) ?len" by simp
  have fw: "0 \<le> weekday_of first" "weekday_of first < 7" by (simp_all add: weekday_of_def)
  have shift: "shift = (wl_weekday w - weekday_of first) mod 7"
    using w(4,5) fw unfolding shift_def by (simp add: js_rem_nonneg)
  then have sb: "0 \<le> shift" "shift < 7" by simp_all
  let ?e = "1 + shift + (n - 1) * 7"
  have fday: "make_day y m 1 = first" using civil_correct(2) [OF ym] d1 by simp
  have wd: "weekday_of (make_day y m e) = wl_weekday w" if e: "e = ?e \<or> e = ?e - 7" for e
  proof -
    have "make_day y m e = first + (e - 1)" using make_day_add [of y m 1 "e - 1"] fday by simp
    moreover obtain k where "e = 1 + shift + 7 * k"
      using e that [of "n - 1"] that [of "n - 2"] by auto
    then have "first + (e - 1) + 4 = first + 4 + shift + 7 * k" by simp
    then have "(first + (e - 1) + 4) mod 7 = (first + 4 + shift) mod 7" by (simp only: mod_mult_self2)
    moreover have "(first + 4 + shift) mod 7 = wl_weekday w"
    proof -
      have "(first + 4 + shift) mod 7 = (first + 4 + (wl_weekday w - (first + 4) mod 7)) mod 7"
        unfolding shift weekday_of_def by (rule mod_add_right_eq)
      also have "first + 4 + (wl_weekday w - (first + 4) mod 7) = wl_weekday w + (first + 4 - (first + 4) mod 7)" by simp
      also have "\<dots> = wl_weekday w + 7 * ((first + 4) div 7)" by (simp only: minus_mod_eq_mult_div)
      finally show ?thesis using w(4,5) by simp
    qed
    ultimately show ?thesis by (simp add: weekday_of_def)
  qed
  show ?thesis
  proof (cases "?e \<le> ?len")
    case True
    then have "d = ?e" unfolding d by (subst back_into_month.simps) simp
    moreover have "(?e + 6) div 7 = n" using sb by (intro int_div_pos_eq [of _ _ _ shift]) auto
    ultimately show ?thesis using True sb n mb y100 count wd [of ?e] by (simp add: valid_date_def)
  next
    case False
    then have n5: "n = 5" using n len sb by (cases "n \<le> 4") auto
    then have "?e - 7 \<le> ?len" using len sb by simp
    then have "back_into_month (?e - 7) ?len = ?e - 7" by (subst back_into_month.simps) simp
    with False have "d = ?e - 7" unfolding d by (subst back_into_month.simps) simp
    moreover have "(?e - 7 + 6) div 7 = 4" using sb n5 by (intro int_div_pos_eq [of _ _ _ shift]) auto
    ultimately show ?thesis using False sb n5 len mb y100 count wd [of "?e - 7"] by (simp add: valid_date_def)
  qed
qed


lemma utc_clock_bounds: "0 \<le> utc_hours t" "utc_hours t < 24" "0 \<le> utc_minutes t" "utc_minutes t < 60"
  using pos_mod_bound [of ms_per_day t] pos_mod_bound [of 3600000 t]
  by (simp_all add: utc_hours_def utc_minutes_def ms_per_day_def ms_per_min_def pos_imp_zdiv_nonneg_iff)

lemma weekly_day: "make_day y m (d + 7 * k) = make_day y m d + 7 * k"
  by (rule make_day_add)

text \<open>A monthly series keeps its weekday and its clock. In a supported zone the visit \<open>interval * i\<close> months
  on is in exactly that month, on the weekday of the first visit, at the hour and minute of the first visit, and is
  the same one of that weekday in its month (the second Tuesday stays the second Tuesday), or the last one where
  the month has no fifth; the only assumption on the clock is that it shows that time on that day.\<close>

theorem monthly_visit_keeps_weekday:
  fixes dev
  defines "off \<equiv> offset_at bundled_zones dev"
  assumes zone: "zone \<in> insert calendar_zone (set supported_zones)"
    and year: "100 \<le> year_of off from zone" and ahead: "0 \<le> interval * i"
    and day: "month_visit_day (wall_time off from zone) (nth_weekday off from zone) (interval * i) = (y, m, d)"
    and shown: "s + off zone s = date_utc y m d (wl_hour (wall_time off from zone)) (wl_minute (wall_time off from zone))"
  shows "let w = wall_time off from zone; t = wall_time off (step_date off from Monthly interval i zone) zone in
      12 * wl_year t + wl_month t = 12 * wl_year w + wl_month w + interval * i
      \<and> wl_weekday t = wl_weekday w \<and> wl_hour t = wl_hour w \<and> wl_minute t = wl_minute w
      \<and> (nth_weekday off (step_date off from Monthly interval i zone) zone = nth_weekday off from zone
         \<or> nth_weekday off from zone = 5 \<and> month_length (wl_year t) (wl_month t) < wl_day t + 7)"
proof -
  let ?w = "wall_time off from zone" and ?t = "step_date off from Monthly interval i zone"
  have valid: "valid_date (wl_year ?w) (wl_month ?w) (wl_day ?w)" by (rule local_day_wall(2))
  then have wb: "1 \<le> wl_month ?w" "1 \<le> wl_day ?w" "wl_day ?w \<le> 31"
    using month_length_bounds [of "wl_month ?w" "wl_year ?w"] by (simp_all add: valid_date_def)
  have ww: "0 \<le> wl_weekday ?w" "wl_weekday ?w < 7"
    by (simp_all add: wall_time_def weekday_of_def Let_def split: prod.split)
  have clock: "0 \<le> wl_hour ?w" "wl_hour ?w < 24" "0 \<le> wl_minute ?w" "wl_minute ?w < 60"
    by (simp_all add: wall_time_def utc_clock_bounds Let_def split: prod.split)
  have nth: "1 \<le> nth_weekday off from zone" "nth_weekday off from zone \<le> 5"
    using wb(2,3) unfolding nth_weekday_div by linarith+
  have plain: "plain_year (wl_year ?w)" "100 \<le> wl_year ?w" using year by (simp_all add: plain_year_def year_of_def)
  note d = month_visit_day_correct [OF plain(1) wb(1) ahead ww plain(2) nth day]
  have "zone \<in> table_zones bundled_zones" using zone by (simp add: bundled_table_zones)
  moreover have "plain_year y" using d by (simp add: plain_year_def)
  ultimately have "wall_time off (zoned_date off y m d (wl_hour ?w) (wl_minute ?w) zone) zone
      = \<lparr>wl_year = y, wl_month = m, wl_day = d, wl_hour = wl_hour ?w, wl_minute = wl_minute ?w, wl_weekday = weekday_of (make_day y m d)\<rparr>"
    unfolding off_def using d clock shown [unfolded off_def]
    by (intro bundled.wall_time_zoned_date) (simp_all add: off_def)
  moreover have "?t = zoned_date off y m d (wl_hour ?w) (wl_minute ?w) zone"
    by (simp add: step_date_def day Let_def)
  ultimately show ?thesis using d by (auto simp: nth_weekday_div Let_def)
qed


section \<open>What the composer plans is free\<close>

lemma in_build_occurrences:
  assumes "o' \<in> set (build_occurrences off wds cx p ignored)"
  obtains i start where "o' = occurrence_at off wds cx p ignored i start" "start \<in> set (occurrence_starts off p (av_zone (cx_avail cx)))"
  using assms by (auto simp: build_occurrences_def Let_def dest: set_zip_rightD)

lemma suggest_free:
  assumes "suggest off wds cx staff start minutes ignored item = Some t"
  shows "problem_at off wds cx staff t (t + minutes * ms_per_min) ignored item = None
    \<and> same_day off t start (av_zone (cx_avail cx)) \<and> \<bar>t - start\<bar> \<le> 180 * ms_per_min"
  using assms by (auto simp: suggest_def suggest_deltas_def ms_per_min_def split: if_splits)

lemma occurrence_at_free:
  assumes "o' = occurrence_at off wds cx p ignored i start"
  shows "oc_status o' = Booked \<Longrightarrow> problem_at off wds cx (pi_staff p) (oc_start o') (oc_start o' + pi_minutes p * ms_per_min) ignored (pi_item p) = None
      \<and> cx_now cx \<le> oc_start o'"
    and "oc_suggestion o' = Some t \<Longrightarrow> problem_at off wds cx (pi_staff p) t (t + pi_minutes p * ms_per_min) ignored (pi_item p) = None
      \<and> same_day off t (oc_start o') (av_zone (cx_avail cx))"
    and "oc_status o' \<in> {Done, Conflict, Booked}"
proof -
  let ?problem = "problem_at off wds cx (pi_staff p) start (start + pi_minutes p * ms_per_min) ignored (pi_item p)"
  have o': "oc_start o' = start" "oc_status o' = (if start < cx_now cx then Done else if ?problem \<noteq> None then Conflict else Booked)"
    "oc_suggestion o' = Some t \<Longrightarrow> suggest off wds cx (pi_staff p) start (pi_minutes p) ignored (pi_item p) = Some t"
    unfolding assms occurrence_at_def by (simp_all add: Let_def split: if_splits)
  show "oc_status o' = Booked \<Longrightarrow> problem_at off wds cx (pi_staff p) (oc_start o') (oc_start o' + pi_minutes p * ms_per_min) ignored (pi_item p) = None
      \<and> cx_now cx \<le> oc_start o'"
    unfolding o'(1,2) by (cases ?problem) (simp_all split: if_splits)
  show "oc_suggestion o' = Some t \<Longrightarrow> problem_at off wds cx (pi_staff p) t (t + pi_minutes p * ms_per_min) ignored (pi_item p) = None
      \<and> same_day off t (oc_start o') (av_zone (cx_avail cx))"
    unfolding o'(1) using o'(3) suggest_free by blast
  show "oc_status o' \<in> {Done, Conflict, Booked}" by (simp add: o'(2))
qed

text \<open>What a request books for the visit of a day that starts at \<open>start\<close>: nothing where the day is skipped, the time it is
  shifted to, else the time of the pattern.\<close>

definition exception_day :: "series_exception \<Rightarrow> string" where
  "exception_day e = (case e of Skip_On k \<Rightarrow> k | Shift_On k t \<Rightarrow> k)"

definition booked_start :: "series_exception list \<Rightarrow> string \<Rightarrow> int \<Rightarrow> int option" where
  "booked_start es day start = (case find (\<lambda>e. exception_day e = day) es of
     None \<Rightarrow> Some start | Some (Skip_On k) \<Rightarrow> None | Some (Shift_On k t) \<Rightarrow> Some t)"

lemma view_key [simp]: "oc_key (ov_occurrence (view_occurrence ch o')) = oc_key o'"
  by (simp add: view_occurrence_def Let_def)

lemma no_exception: "day \<notin> set (map oc_key os) \<Longrightarrow> find (\<lambda>e. exception_day e = day) (exceptions_of (map (view_occurrence ch) os)) = None"
  by (auto simp: find_None_iff exceptions_of_def exception_day_def split: if_splits)

lemma exception_of_visit:
  assumes "distinct (map oc_key os)" "o' \<in> set os"
  shows "find (\<lambda>e. exception_day e = oc_key o') (exceptions_of (map (view_occurrence ch) os))
    = (case ov_choice (view_occurrence ch o') of None \<Rightarrow> None | Some Skip \<Rightarrow> Some (Skip_On (oc_key o'))
       | Some Shift \<Rightarrow> Some (Shift_On (oc_key o') (ov_final (view_occurrence ch o'))))"
  using assms
proof (induction os)
  case (Cons x os)
  have split: "exceptions_of (map (view_occurrence ch) (x # os)) = exceptions_of [view_occurrence ch x] @ exceptions_of (map (view_occurrence ch) os)"
    by (simp add: exceptions_of_def)
  show ?case
  proof (cases "x = o'")
    case True
    then have "oc_key o' \<notin> set (map oc_key os)" using Cons.prems(1) by simp
    from no_exception [OF this, of ch] show ?thesis unfolding split True
      by (cases "ov_choice (view_occurrence ch o')" rule: option.exhaust)
        (auto simp: exceptions_of_def exception_day_def split: choice.split)
  next
    case False
    then have "oc_key x \<noteq> oc_key o'" "o' \<in> set os" "distinct (map oc_key os)" using Cons.prems by auto
    with Cons.IH show ?thesis unfolding split by (auto simp: exceptions_of_def exception_day_def)
  qed
qed simp

text \<open>C26: The composer plans no visit onto a clash, and sends what it shows. Of every visit of the pattern that lies ahead:
  where the request books it, it books it at a time that has no problem, of the visit's own day, and at the visit's
  own time if that is free; only a visit that clashes is left out; and the row on screen says so, with the time
  that is booked. Visits are told apart by their day. Excepted is a move that was chosen for a day on which no free
  time is left (\<open>kept_shift_without_time\<close>).\<close>

theorem series_plan_is_free:
  fixes off wds cx minutes item s
  defines "p \<equiv> series_input off (av_zone (cx_avail cx)) minutes item (sp_form s)"
    and "vs \<equiv> series_views off wds cx minutes item s"
  assumes "series_ready (sp_form s)" "body = series_body_of off (av_zone (cx_avail cx)) subject (sp_form s) vs"
    and "visits = build_occurrences off wds cx p (\<lambda>_. False)" "o' \<in> set visits" "cx_now cx \<le> oc_start o'" "distinct (map oc_key visits)"
    and "map_of (sp_choices s) (oc_key o') = Some Shift \<Longrightarrow> oc_suggestion o' \<noteq> None"
    and "free = (\<lambda>t. problem_at off wds cx (pi_staff p) t (t + pi_minutes p * ms_per_min) (\<lambda>_. False) (pi_item p) = None)"
  shows "(case booked_start (sb_exceptions body) (oc_key o') (oc_start o') of
       None \<Rightarrow> \<not> free (oc_start o')
     | Some t \<Rightarrow> free t \<and> same_day off t (oc_start o') (av_zone (cx_avail cx)) \<and> (free (oc_start o') \<longrightarrow> t = oc_start o'))
    \<and> (\<exists>v\<in>set vs. oc_key (ov_occurrence v) = oc_key o'
        \<and> (case booked_start (sb_exceptions body) (oc_key o') (oc_start o') of
             None \<Rightarrow> has_status Skipped v
           | Some t \<Rightarrow> ov_final v = t \<and> has_status (if t = oc_start o' then Booked else Moved) v))"
proof -
  let ?v = "view_occurrence (sp_choices s) o'"
  have vs: "vs = map (view_occurrence (sp_choices s)) visits" by (simp add: vs_def series_views_def p_def assms(3,5))
  then have in_vs: "?v \<in> set vs" using assms(6) by simp
  obtain i start where at_start: "o' = occurrence_at off wds cx p (\<lambda>_. False) i start"
    using assms(6) unfolding assms(5) by (rule in_build_occurrences)
  have status: "oc_status o' = (if free (oc_start o') then Booked else Conflict)"
    using assms(7) unfolding assms(10) at_start occurrence_at_def by (simp add: Let_def)
  have suggested: "free t \<and> same_day off t (oc_start o') (av_zone (cx_avail cx))" if "oc_suggestion o' = Some t" for t
    using occurrence_at_free(2) [OF at_start that] by (simp add: assms(10))
  have booked: "booked_start (sb_exceptions body) (oc_key o') (oc_start o')
      = (case ov_choice ?v of None \<Rightarrow> Some (oc_start o') | Some Skip \<Rightarrow> None | Some Shift \<Rightarrow> Some (ov_final ?v))"
    using exception_of_visit [OF assms(8,6), of "sp_choices s"]
    by (simp add: booked_start_def assms(4) series_body_of_def vs split: option.split choice.split)
  show ?thesis
  proof (cases "free (oc_start o')")
    case True
    then have "ov_choice ?v = None" "ov_final ?v = oc_start o'" "has_status Booked ?v" using status by (simp_all add: view_occurrence_def has_status_def)
    with True in_vs show ?thesis by (auto simp: booked same_day_def intro!: bexI [of _ ?v])
  next
    case False
    with status have clash: "oc_status o' = Conflict" by simp
    show ?thesis
    proof (cases "ov_choice ?v = Some Shift")
      case True
      then obtain t where t: "oc_suggestion o' = Some t" "ov_final ?v = t" "has_status Moved ?v"
        using clash assms(9) by (auto simp: view_occurrence_def has_status_def Let_def split: option.splits if_splits)
      with suggested False have "t \<noteq> oc_start o'" by blast
      with t suggested True False in_vs show ?thesis by (auto simp: booked intro!: bexI [of _ ?v])
    next
      case False
      with clash have "ov_choice ?v = Some Skip" "has_status Skipped ?v"
        by (cases "ov_choice ?v"; cases "the (ov_choice ?v)"; simp add: view_occurrence_def has_status_def Let_def)+
      with \<open>\<not> free (oc_start o')\<close> in_vs show ?thesis by (auto simp: booked intro!: bexI [of _ ?v])
    qed
  qed
qed

text \<open>A choice is kept by the day it was made for. One made to move a visit outlives the time it was offered: when
  the hours or the pattern change so that no time is left on that day, the visit is still shown as moved, counted
  among those to be booked and sent for the very time that clashes.\<close>

lemma kept_shift_without_time:
  assumes "oc_status o' = Conflict" "oc_suggestion o' = None" "map_of choices (oc_key o') = Some Shift"
  shows "has_status Moved (view_occurrence choices o') \<and> ov_final (view_occurrence choices o') = oc_start o'
    \<and> exceptions_of [view_occurrence choices o'] = [Shift_On (oc_key o') (oc_start o')]"
  using assms by (simp add: view_occurrence_def has_status_def exceptions_of_def)

definition series_demo_words :: series_words where
  "series_demo_words = \<lparr>sr_weekday = (\<lambda>_ _. []), sr_time = (\<lambda>_ _. [])\<rparr>"

definition demo_ctx :: series_ctx where
  "demo_ctx = \<lparr>cx_avail = \<lparr>av_hours = [], av_away = [], av_zone = calendar_zone\<rparr>,
     cx_events = [demo_event ''e1'' 10140 10200], cx_first_name = (\<lambda>_. ''Ana''), cx_now = 0\<rparr>"

definition demo_composer :: series_composer where
  "demo_composer = \<lparr>sp_form = \<lparr>sf_client = ''c'', sf_item = ''i'', sf_staff = ''m1'', sf_first_day = ''1970-01-08'',
     sf_time = ''00:00'', sf_frequency = Weekly, sf_interval = 1, sf_end = By_Count, sf_count = 1, sf_until = ''1970-03-01'',
     sf_one_confirmation = True\<rparr>, sp_choices = [], sp_done = None, sp_key = None, sp_action = idle_action\<rparr>"


text \<open>A visit at one o'clock, while the member has another one: it is moved by an hour.\<close>

definition clash_composer :: series_composer where
  "clash_composer = demo_composer\<lparr>sp_form := (sp_form demo_composer)\<lparr>sf_time := ''01:00''\<rparr>\<rparr>"

theorem series_plan_is_free_witness:
  "booked_start (sb_exceptions (series_body_of (\<lambda>_ _. 0) (av_zone (cx_avail demo_ctx)) None (sp_form clash_composer)
      (series_views (\<lambda>_ _. 0) series_demo_words demo_ctx 60 None clash_composer))) ''1970-01-08'' 608400000 = Some 612000000
   \<and> problem_at (\<lambda>_ _. 0) series_demo_words demo_ctx ''m1'' 612000000 615600000 (\<lambda>_. False) None = None"
proof -
  let ?p = "series_input (\<lambda>_ _. 0) (av_zone (cx_avail demo_ctx)) 60 None (sp_form clash_composer)"
  let ?visits = "build_occurrences (\<lambda>_ _. 0) series_demo_words demo_ctx ?p (\<lambda>_. False)"
  have visit: "map (\<lambda>x. (oc_key x, oc_start x)) ?visits = [(''1970-01-08'', 608400000)]"
    "pi_staff ?p = ''m1''" "pi_minutes ?p = 60" "pi_item ?p = None" by code_simp+
  have booked: "booked_start (sb_exceptions (series_body_of (\<lambda>_ _. 0) (av_zone (cx_avail demo_ctx)) None (sp_form clash_composer)
      (series_views (\<lambda>_ _. 0) series_demo_words demo_ctx 60 None clash_composer))) ''1970-01-08'' 608400000 = Some 612000000"
    by code_simp
  obtain x where x: "?visits = [x]" "oc_key x = ''1970-01-08''" "oc_start x = 608400000" using visit(1) by auto
  have "x \<in> set ?visits" "distinct (map oc_key ?visits)" by (simp_all add: x(1))
  moreover have "series_ready (sp_form clash_composer)" "cx_now demo_ctx \<le> 608400000" "map_of (sp_choices clash_composer) (oc_key x) \<noteq> Some Shift"
    by code_simp+
  ultimately have "case booked_start (sb_exceptions (series_body_of (\<lambda>_ _. 0) (av_zone (cx_avail demo_ctx)) None (sp_form clash_composer)
      (series_views (\<lambda>_ _. 0) series_demo_words demo_ctx 60 None clash_composer))) (oc_key x) (oc_start x) of
       None \<Rightarrow> True | Some t \<Rightarrow> problem_at (\<lambda>_ _. 0) series_demo_words demo_ctx (pi_staff ?p) t (t + pi_minutes ?p * ms_per_min) (\<lambda>_. False) (pi_item ?p) = None"
    using series_plan_is_free [of clash_composer _ "\<lambda>_ _. 0" demo_ctx None series_demo_words 60 None ?visits x, OF _ refl refl _ _ _ _ refl] x(3)
    by (simp split: option.splits)
  with booked x(2,3) visit(2-4) show ?thesis by (simp add: ms_per_min_def)
qed

theorem monthly_visit_keeps_weekday_witness:
  "wl_weekday (wall_time (offset_at bundled_zones (\<lambda>_ _. (0, 0, 0, 0, 0)))
     (step_date (offset_at bundled_zones (\<lambda>_ _. (0, 0, 0, 0, 0))) 1785158100000 Monthly 1 2 ''America/Toronto'') ''America/Toronto'') = 1"
proof -
  let ?off = "offset_at bundled_zones (\<lambda>_ _. (0, 0, 0, 0, 0))" and ?from = "1785158100000" and ?zone = "''America/Toronto''"
  have "?zone \<in> insert calendar_zone (set supported_zones)" "100 \<le> year_of ?off ?from ?zone" "(0 :: int) \<le> 1 * 2" by code_simp+
  moreover have "month_visit_day (wall_time ?off ?from ?zone) (nth_weekday ?off ?from ?zone) (1 * 2) = (2026, 9, 28)" by code_simp
  moreover have "1790601300000 + ?off ?zone 1790601300000
      = date_utc 2026 9 28 (wl_hour (wall_time ?off ?from ?zone)) (wl_minute (wall_time ?off ?from ?zone))" by code_simp
  moreover have "wl_weekday (wall_time ?off ?from ?zone) = 1" by code_simp
  ultimately show ?thesis using monthly_visit_keeps_weekday [of ?zone "\<lambda>_ _. (0, 0, 0, 0, 0)" ?from 1 2 2026 9 28]
    by (simp add: Let_def)
qed

end
