(* ===== verification/Week_Editor.thy ===== *)
theory Week_Editor
  imports Hours_Guarantees Slots Attempts
begin

text \<open>
  The editor of a member's working week (\<open>app-core/src/domain/hours.ts\<close>): seeding it from the stored hours,
  laying a person's changes over the server's current week after a conflict, what saving proposes to the
  outbox, and whether a visit lies in the hours. Saving and discarding go through the transactions of
  \<open>Hours_Outbox\<close>; the answer of the one request a repair makes is an argument.
\<close>

section \<open>Weeks\<close>

record day_hours =
  dh_weekday :: nat \<comment> \<open>0 is Monday\<close>
  dh_open :: bool
  dh_start :: string
  dh_end :: string
  dh_split :: bool

record recurring_row =
  rc_weekday :: "nat option"
  rc_start :: "string option"
  rc_end :: "string option"
  rc_available :: int

definition weekdays :: "nat list" where "weekdays = [0..<7]"

definition default_start :: string where "default_start = ''09:00''"
definition default_end :: string where "default_end = ''17:00''"

definition seed_days :: "recurring_row list \<Rightarrow> day_hours list" where
  "seed_days rows = map (\<lambda>weekday.
     let mine = filter (\<lambda>r. rc_weekday r = Some weekday) rows
     in if mine = [] then
          \<lparr>dh_weekday = weekday, dh_open = (weekday < 5), dh_start = default_start, dh_end = default_end, dh_split = False\<rparr>
        else
          let is_open = filter (\<lambda>r. rc_available r = 1) mine
          in \<lparr>dh_weekday = weekday, dh_open = (is_open \<noteq> []),
              dh_start = take 5 (case is_open of [] \<Rightarrow> default_start
                 | r # _ \<Rightarrow> (case rc_start r of Some t \<Rightarrow> t | None \<Rightarrow> default_start)),
              dh_end = take 5 (if is_open = [] then default_end
                 else case rc_end (last is_open) of Some t \<Rightarrow> t | None \<Rightarrow> default_end),
              dh_split = (length mine > 1)\<rparr>) weekdays"

text \<open>The days with a break, which the week command cannot carry; \<open>None\<close> when there are none.\<close>

definition split_note :: "day_hours list \<Rightarrow> nat list option" where
  "split_note days = (let split = filter dh_split days in if split = [] then None else Some (map dh_weekday split))"

definition refusal_message :: "string option \<Rightarrow> string" where
  "refusal_message code =
    (if code = Some ''hours_split_week'' then ''splitRefused''
     else if code = Some ''hours_revision_conflict'' then ''conflict''
     else if code = Some ''plan_required'' then ''pausedRefused'' else ''refused'')"

definition to_week_days :: "day_hours list \<Rightarrow> week_day list" where
  "to_week_days days = map (\<lambda>d. \<lparr>wd_weekday = dh_weekday d, wd_available = dh_open d,
     wd_start = (if dh_open d then Some (dh_start d @ '':00'') else None),
     wd_end = (if dh_open d then Some (dh_end d @ '':00'') else None)\<rparr>) days"

definition from_week_days :: "week_day list \<Rightarrow> day_hours list" where
  "from_week_days days = seed_days (map (\<lambda>d. \<lparr>rc_weekday = Some (wd_weekday d), rc_start = wd_start d, rc_end = wd_end d,
     rc_available = (if wd_available d then 1 else 0)\<rparr>) days)"

definition day_in :: "week_day list \<Rightarrow> nat \<Rightarrow> week_day" where
  "day_in week weekday = (case find (\<lambda>d. wd_weekday d = weekday) week of Some d \<Rightarrow> d
     | None \<Rightarrow> \<lparr>wd_weekday = weekday, wd_available = False, wd_start = None, wd_end = None\<rparr>)"

definition same_hours :: "week_day \<Rightarrow> week_day \<Rightarrow> bool" where
  "same_hours a b \<longleftrightarrow> wd_available a = wd_available b \<and> (\<not> wd_available a \<or> (wd_start a = wd_start b \<and> wd_end a = wd_end b))"

definition rebase_week :: "week_day list \<Rightarrow> week_day list \<Rightarrow> week_day list \<Rightarrow> week_day list" where
  "rebase_week base proposal current = map (\<lambda>weekday. let mine = day_in proposal weekday
     in if same_hours mine (day_in base weekday) then day_in current weekday else mine) weekdays"

section \<open>Visits and the hours\<close>

definition to_min :: "string \<Rightarrow> int" where
  "to_min hhmm = (case minutes_of hhmm of Some n \<Rightarrow> n | None \<Rightarrow> 0)"

definition visit_within_hours :: "offsets \<Rightarrow> hours_row list \<Rightarrow> int \<Rightarrow> int \<Rightarrow> string \<Rightarrow> bool" where
  "visit_within_hours off rows start end zone =
    (let day = date_key off start zone;
         dated = filter (\<lambda>r. hw_basis r = ''date'' \<and> hw_date r = Some day) rows;
         weekday = js_rem (wl_weekday (wall_time off start zone) + 6) 7;
         recurring = filter (\<lambda>r. hw_basis r = ''recurring'' \<and> hw_weekday r = Some weekday) rows
     in if dated = [] \<and> recurring = [] then True
        else if \<exists>r\<in>set dated. hw_available r = 0 \<and> hw_start r = None then False
        else if date_key off end zone \<noteq> day then False
        else let from = clock_key off start zone; to = clock_key off end zone
             in \<exists>r\<in>set (if dated \<noteq> [] then dated else recurring). hw_available r = 1
                  \<and> take 5 (case hw_start r of Some t \<Rightarrow> t | None \<Rightarrow> ''00:00'') \<le> from
                  \<and> to \<le> take 5 (case hw_end r of Some t \<Rightarrow> t | None \<Rightarrow> ''24:00''))"

record stranded_visit =
  sv_id :: string
  sv_starts :: string
  sv_ends :: string
  sv_client :: "string option"

text \<open>The visits still ahead that the hours leave out; \<open>None\<close> when there are none.\<close>

definition stranded_note :: "offsets \<Rightarrow> (string \<Rightarrow> int) \<Rightarrow> stranded_visit list \<Rightarrow> hours_row list \<Rightarrow> int \<Rightarrow> string \<Rightarrow> stranded_visit list option" where
  "stranded_note off parse visits hours now zone =
    (let left = filter (\<lambda>v. now \<le> parse (sv_starts v)
           \<and> \<not> visit_within_hours off hours (parse (sv_starts v)) (parse (sv_ends v)) zone) visits
     in if left = [] then None else Some left)"

section \<open>Opening the editor\<close>

definition awaits_server :: "outbox_row option \<Rightarrow> int option \<Rightarrow> bool" where
  "awaits_server latest revision = (case latest of None \<Rightarrow> False
     | Some r \<Rightarrow> ob_state r \<noteq> Accepted \<or> (case (revision, ob_result r) of
         (None, _) \<Rightarrow> True | (Some _, None) \<Rightarrow> True | (Some v, Some result) \<Rightarrow> v < result))"

record week_basis =
  wb_revision :: int
  wb_id :: "string option"
  wb_payload :: "week_request option"
  wb_base :: "week_day list"

definition opening_week :: "replica_db \<Rightarrow> recurring_row list \<Rightarrow> string \<Rightarrow> string \<Rightarrow> (week_basis \<times> day_hours list) option" where
  "opening_week db rows staff business =
    (case db_staff db (business, staff) of None \<Rightarrow> None
     | Some revision \<Rightarrow>
        (let latest = newest_week business staff (db_outbox db)
         in case (latest, awaits_server latest (Some revision)) of
              (Some r, True) \<Rightarrow> Some (\<lparr>wb_revision = wr_expected (ob_payload r) + 1, wb_id = Some (ob_id r),
                  wb_payload = Some (ob_payload r), wb_base = ob_base r\<rparr>, from_week_days (wr_days (ob_payload r)))
            | _ \<Rightarrow> let seeded = seed_days rows
                in Some (\<lparr>wb_revision = revision, wb_id = map_option ob_id latest, wb_payload = map_option ob_payload latest,
                     wb_base = to_week_days seeded\<rparr>, seeded)))"

section \<open>Editing and saving\<close>

record week_editor =
  we_days :: "day_hours list option"
  we_basis :: "week_basis option"
  we_rebased :: "string option"
  we_saved :: bool
  we_action :: async_action

definition edit_day :: "nat \<Rightarrow> (day_hours \<Rightarrow> day_hours) \<Rightarrow> week_editor \<Rightarrow> week_editor" where
  "edit_day weekday f s = s\<lparr>we_saved := False,
     we_days := map_option (map (\<lambda>d. if dh_weekday d = weekday then f d else d)) (we_days s)\<rparr>"

definition set_open :: "nat \<Rightarrow> bool \<Rightarrow> week_editor \<Rightarrow> week_editor" where
  "set_open weekday b = edit_day weekday (\<lambda>d. d\<lparr>dh_open := b\<rparr>)"

definition set_time :: "nat \<Rightarrow> bool \<Rightarrow> string \<Rightarrow> week_editor \<Rightarrow> week_editor" where
  "set_time weekday starts v = edit_day weekday (\<lambda>d. if starts then d\<lparr>dh_start := v\<rparr> else d\<lparr>dh_end := v\<rparr>)"

definition copy_to_weekdays :: "nat \<Rightarrow> week_editor \<Rightarrow> week_editor" where
  "copy_to_weekdays weekday s = (case Option.bind (we_days s) (find (\<lambda>d. dh_weekday d = weekday)) of None \<Rightarrow> s
     | Some from \<Rightarrow> s\<lparr>we_saved := False, we_days := map_option (map (\<lambda>d. if dh_weekday d = weekday \<or> dh_weekday d > 4 then d
           else d\<lparr>dh_open := True, dh_start := dh_start from, dh_end := dh_end from\<rparr>)) (we_days s)\<rparr>)"

text \<open>The effect that opens the editor, and the one that rebases a conflicting week.\<close>

definition editor_opened :: "(week_basis \<times> day_hours list) option \<Rightarrow> week_editor \<Rightarrow> week_editor" where
  "editor_opened opening s = (case (we_days s, opening) of
     (None, Some (basis, days)) \<Rightarrow> s\<lparr>we_basis := Some basis, we_days := Some days\<rparr> | _ \<Rightarrow> s)"

definition rebase_effect :: "outbox_row option \<Rightarrow> outbox_row option \<Rightarrow> int option \<Rightarrow> recurring_row list \<Rightarrow> week_editor \<Rightarrow> week_editor" where
  "rebase_effect rejection latest revision rows s =
    (case (rejection, latest, revision, we_basis s) of
       (Some rej, Some l, Some v, Some basis) \<Rightarrow>
         if ob_error rej \<noteq> Some ''hours_revision_conflict'' \<or> we_rebased s = Some (ob_id rej) \<or> ob_id l \<noteq> ob_id rej
            \<or> v \<le> wr_expected (ob_payload l) then s
         else let current = to_week_days (seed_days rows)
              in s\<lparr>we_rebased := Some (ob_id rej), we_basis := Some (basis\<lparr>wb_base := current\<rparr>),
                  we_days := Some (from_week_days (rebase_week (ob_base l) (wr_days (ob_payload l)) current))\<rparr>
     | _ \<Rightarrow> s)"

definition week_blocked :: "week_editor \<Rightarrow> outbox_row option \<Rightarrow> bool" where
  "week_blocked s rejection \<longleftrightarrow> (case we_days s of None \<Rightarrow> False | Some days \<Rightarrow> split_note days \<noteq> None)
     \<or> Option.bind rejection ob_error = Some ''hours_split_week''"

definition day_length :: "day_hours \<Rightarrow> rat" where
  "day_length d = (if dh_open d then max 0 (of_int (to_min (dh_end d) - to_min (dh_start d)) / 60) else 0)"

definition editor_order :: "nat \<Rightarrow> int" where
  "editor_order weekday = js_rem (int weekday - js_rem (first_weekday + 6) 7 + 7) 7"

definition editor_view :: "week_editor \<Rightarrow> day_hours list" where
  "editor_view s = sort_key (\<lambda>d. editor_order (dh_weekday d)) (case we_days s of Some days \<Rightarrow> days | None \<Rightarrow> [])"

fun week_error :: "day_hours list \<Rightarrow> string option" where
  "week_error [] = None"
| "week_error (d # ds) = (if \<not> dh_open d then week_error ds
     else if \<not> is_clock (dh_start d) \<or> \<not> is_clock (dh_end d) then Some ''timeFormatError''
     else if dh_end d \<le> dh_start d then Some ''timeOrderError'' else week_error ds)"

text \<open>Submitting: refused, ignored, or under way. A repair asks the server for the revision first.\<close>

datatype submit_start = Ignored_Submit | Refused_Submit string | Submitting week_editor "day_hours list"

definition submit_begin :: "string option \<Rightarrow> string option \<Rightarrow> outbox_row option \<Rightarrow> week_editor \<Rightarrow> submit_start" where
  [step_defs]: "submit_begin staff business rejection s =
    (case (we_days s, staff) of
       (Some days, Some _) \<Rightarrow>
         if week_blocked s rejection then Ignored_Submit
         else if business = None then Refused_Submit ''stillSyncing''
         else (case week_error days of Some e \<Rightarrow> Refused_Submit e
           | None \<Rightarrow> (case action_start (we_action s) of None \<Rightarrow> Ignored_Submit
             | Some a \<Rightarrow> Submitting (s\<lparr>we_action := a\<rparr>) days))
     | _ \<Rightarrow> Ignored_Submit)"

definition proposal_of :: "string \<Rightarrow> string \<Rightarrow> bool \<Rightarrow> int \<Rightarrow> day_hours list \<Rightarrow> week_basis \<Rightarrow> enqueue_input" where
  "proposal_of staff business repair server_revision days basis =
    \<lparr>en_staff = staff, en_business = business, en_revision = (if repair then server_revision else wb_revision basis),
     en_days = to_week_days days, en_base = wb_base basis, en_repair = repair,
     en_predecessor = (case (wb_id basis, wb_payload basis) of (Some i, Some p) \<Rightarrow> Some (i, p) | _ \<Rightarrow> None)\<rparr>"

definition submit_end :: "enqueued \<Rightarrow> week_basis \<Rightarrow> week_editor \<Rightarrow> week_editor" where
  "submit_end out basis s = s\<lparr>we_basis := Some \<lparr>wb_revision = eq_revision out, wb_id = Some (eq_id out),
       wb_payload = Some (eq_payload out), wb_base = wb_base basis\<rparr>,
     we_saved := True, we_action := action_end None (we_action s)\<rparr>"

text \<open>A submit whose request or transaction failed: the form stays as it was and may be sent again.\<close>

definition submit_failed :: "string \<Rightarrow> week_editor \<Rightarrow> week_editor" where
  "submit_failed message s = s\<lparr>we_action := action_end (Some message) (we_action s)\<rparr>"

definition discard_end :: "int option \<Rightarrow> recurring_row list \<Rightarrow> week_editor \<Rightarrow> week_editor" where
  "discard_end revision rows s = s\<lparr>we_basis := map_option (\<lambda>v. \<lparr>wb_revision = v, wb_id = None, wb_payload = None,
       wb_base = to_week_days (seed_days rows)\<rparr>) revision,
     we_days := Some (seed_days rows), we_saved := False, we_action := action_end None (we_action s)\<rparr>"


section \<open>Seven days, in order\<close>

definition seven_days :: "week_editor \<Rightarrow> bool" where
  "seven_days s \<longleftrightarrow> (case we_days s of None \<Rightarrow> True | Some days \<Rightarrow> map dh_weekday days = weekdays)"

lemma weekdays_set [simp]: "w \<in> set weekdays \<longleftrightarrow> w < 7"
  by (auto simp: weekdays_def)

lemma seed_days_weekdays [simp]: "map dh_weekday (seed_days rows) = weekdays"
  by (auto simp: seed_days_def Let_def intro!: map_idI)

lemma map_same_weekday: "(\<And>d. dh_weekday (f d) = dh_weekday d) \<Longrightarrow> map dh_weekday (map f days) = map dh_weekday days"
  by (simp add: comp_def)

lemma edit_day_seven: "(\<And>d. dh_weekday (f d) = dh_weekday d) \<Longrightarrow> seven_days s \<Longrightarrow> seven_days (edit_day w f s)"
  by (auto simp: seven_days_def edit_day_def map_same_weekday split: option.splits simp del: map_map)

lemma week_edits_seven:
  "seven_days s \<Longrightarrow> seven_days (set_open w b s)"
  "seven_days s \<Longrightarrow> seven_days (set_time w starts v s)"
  "seven_days s \<Longrightarrow> seven_days (copy_to_weekdays w s)"
  "seven_days s \<Longrightarrow> seven_days (rebase_effect rejection latest revision rows s)"
  "seven_days s \<Longrightarrow> seven_days (discard_end revision rows s)"
  "seven_days s \<Longrightarrow> seven_days (submit_end out basis s)"
  "seven_days s \<Longrightarrow> seven_days (submit_failed message s)"
  by (auto simp: set_open_def set_time_def intro: edit_day_seven)
    (auto simp: seven_days_def copy_to_weekdays_def rebase_effect_def from_week_days_def discard_end_def submit_end_def
      submit_failed_def map_same_weekday Let_def split: option.splits simp del: map_map)

lemma find_by_key: "distinct (map f xs) \<Longrightarrow> x \<in> set xs \<Longrightarrow> f x = k \<Longrightarrow> find (\<lambda>y. f y = k) xs = Some x"
  by (induction xs) auto

section \<open>Rebasing a conflicting week\<close>

lemma day_in_weekday: "wd_weekday (day_in week w) = w"
  by (auto simp: day_in_def find_Some_iff split: option.splits)

lemma rebase_weekdays: "map wd_weekday (rebase_week base mine current) = weekdays"
  by (simp add: rebase_week_def comp_def Let_def day_in_weekday if_distrib cong: if_cong)

lemma day_in_rebase:
  assumes "w < 7"
  shows "day_in (rebase_week base mine current) w
    = (if same_hours (day_in mine w) (day_in base w) then day_in current w else day_in mine w)" (is "_ = ?d")
proof -
  have "?d \<in> set (rebase_week base mine current)"
    using assms by (force simp: rebase_week_def Let_def)
  moreover have "distinct (map wd_weekday (rebase_week base mine current))"
    by (simp add: rebase_weekdays weekdays_def)
  ultimately show ?thesis
    using find_by_key [of wd_weekday "rebase_week base mine current" ?d w]
    by (simp add: day_in_def [of "rebase_week base mine current"] day_in_weekday split: if_splits)
qed

lemma same_hours_sym: "same_hours a b \<longleftrightarrow> same_hours b a"
  and same_hours_trans: "same_hours a b \<Longrightarrow> same_hours b c \<Longrightarrow> same_hours a c"
  and same_hours_refl [simp]: "same_hours a a"
  by (auto simp: same_hours_def)

text \<open>What a week says of a weekday: the hours of the first day it has for it, none where that is closed or there is none.\<close>

definition hours_on :: "week_day list \<Rightarrow> nat \<Rightarrow> (string option \<times> string option) option" where
  "hours_on week w = (case map_of (map (\<lambda>d. (wd_weekday d, (wd_available d, wd_start d, wd_end d))) week) w of
     Some (True, hours) \<Rightarrow> Some hours | _ \<Rightarrow> None)"

definition open_hours :: "week_day \<Rightarrow> (string option \<times> string option) option" where
  "open_hours d = (if wd_available d then Some (wd_start d, wd_end d) else None)"

lemma hours_on_day: "hours_on week w = open_hours (day_in week w)"
  by (induction week) (auto simp: hours_on_def day_in_def open_hours_def)

lemma same_hours_open: "same_hours a b \<longleftrightarrow> open_hours a = open_hours b"
  by (auto simp: same_hours_def open_hours_def)

text \<open>C25: After a conflict the week shown is a three-way merge, day by day: a weekday whose hours the person left as they
  were in the week they started from has the hours the server has now, any other has the person's; so a day only
  the person changed keeps their change, a day only the server changed takes its, and none of either's changes to
  another day is lost. Every weekday is there once, in order.\<close>

theorem rebase_week_merges:
  assumes "w < 7"
  shows "map wd_weekday (rebase_week base mine current) = [0, 1, 2, 3, 4, 5, 6]
    \<and> hours_on (rebase_week base mine current) w
      = (if hours_on mine w = hours_on base w then hours_on current w else hours_on mine w)
    \<and> (hours_on current w = hours_on base w \<longrightarrow> hours_on (rebase_week base mine current) w = hours_on mine w)"
  using day_in_rebase [OF assms, of base mine current] rebase_weekdays [of base mine current]
  by (auto simp: hours_on_day same_hours_open weekdays_def upt_rec)

definition demo_opens :: "nat \<Rightarrow> string \<Rightarrow> week_day" where
  "demo_opens w t = \<lparr>wd_weekday = w, wd_available = True, wd_start = Some t, wd_end = Some ''17:00:00''\<rparr>"

text \<open>Monday was moved to ten here and Tuesday to eleven on the server: the merged week has both.\<close>

theorem rebase_week_merges_witness:
  "map (hours_on (rebase_week [demo_opens 0 ''09:00:00'', demo_opens 1 ''09:00:00'']
      [demo_opens 0 ''10:00:00'', demo_opens 1 ''09:00:00''] [demo_opens 0 ''09:00:00'', demo_opens 1 ''11:00:00''])) [0, 1]
    = [Some (Some ''10:00:00'', Some ''17:00:00''), Some (Some ''11:00:00'', Some ''17:00:00'')]"
proof -
  let ?b = "[demo_opens 0 ''09:00:00'', demo_opens 1 ''09:00:00'']"
  let ?m = "[demo_opens 0 ''10:00:00'', demo_opens 1 ''09:00:00'']"
  let ?c = "[demo_opens 0 ''09:00:00'', demo_opens 1 ''11:00:00'']"
  show ?thesis using rebase_week_merges [of 0 ?b ?m ?c] rebase_week_merges [of 1 ?b ?m ?c]
    by (simp add: hours_on_def demo_opens_def)
qed


section \<open>What is saved is what is shown again\<close>

text \<open>A week as the editor sends it: seven days in order, open days with two times to the second, closed days
  without.\<close>

definition full_clock :: "string option \<Rightarrow> bool" where
  "full_clock t = (case t of None \<Rightarrow> False | Some t \<Rightarrow> take 5 t @ '':00'' = t)"

definition plain_day :: "week_day \<Rightarrow> bool" where
  "plain_day d = (if wd_available d then full_clock (wd_start d) \<and> full_clock (wd_end d)
     else wd_start d = None \<and> wd_end d = None)"

definition plain_week :: "week_day list \<Rightarrow> bool" where
  "plain_week week \<longleftrightarrow> map wd_weekday week = [0..<7] \<and> list_all plain_day week"

definition shown_day :: "week_day \<Rightarrow> day_hours" where
  "shown_day d = \<lparr>dh_weekday = wd_weekday d, dh_open = wd_available d,
     dh_start = take 5 (case wd_start d of Some t \<Rightarrow> t | None \<Rightarrow> default_start),
     dh_end = take 5 (case wd_end d of Some t \<Rightarrow> t | None \<Rightarrow> default_end), dh_split = False\<rparr>"

lemma filter_one: "distinct (map f xs) \<Longrightarrow> x \<in> set xs \<Longrightarrow> filter (\<lambda>y. f y = f x) xs = [x]"
  by (induction xs) (auto simp: filter_empty_conv image_iff dest: sym)

lemma default_clocks [simp]: "take 5 default_start = default_start" "take 5 default_end = default_end"
  by (simp_all add: default_start_def default_end_def)

lemma from_week_days_plain:
  assumes "plain_week week"
  shows "from_week_days week = map shown_day week"
proof -
  let ?row = "\<lambda>d. \<lparr>rc_weekday = Some (wd_weekday d), rc_start = wd_start d, rc_end = wd_end d,
     rc_available = (if wd_available d then 1 else 0)\<rparr>"
  have days: "weekdays = map wd_weekday week" and dist: "distinct (map wd_weekday week)"
    using assms by (simp_all add: plain_week_def weekdays_def)
  have mine: "filter (\<lambda>r. rc_weekday r = Some (wd_weekday d)) (map ?row week) = [?row d]" if "d \<in> set week" for d
    using filter_one [OF dist that] by (simp add: filter_map comp_def)
  have plain: "plain_day d" if "d \<in> set week" for d
    using assms that by (simp add: plain_week_def list_all_iff)
  show ?thesis
    unfolding from_week_days_def seed_days_def Let_def days map_map
    by (rule map_cong [OF refl])
      (auto simp: mine shown_day_def plain_day_def full_clock_def comp_def dest!: plain split: if_splits option.splits)
qed

lemma to_week_days_shown: "plain_day d \<Longrightarrow> to_week_days [shown_day d] = [d]"
  by (cases d) (auto simp: to_week_days_def shown_day_def plain_day_def full_clock_def split: if_splits option.splits)

lemma to_week_days_map: "to_week_days (map f xs) = concat (map (\<lambda>x. to_week_days [f x]) xs)"
  by (induction xs) (simp_all add: to_week_days_def)

text \<open>A week read back into the editor and saved untouched is the same request: no day is lost, reordered,
  opened, closed or moved by the way from the outbox to the screen and back.\<close>

theorem week_roundtrip:
  assumes "plain_week week"
  shows "to_week_days (from_week_days week) = week"
proof -
  have "list_all plain_day week" using assms by (simp add: plain_week_def)
  then have "concat (map (\<lambda>d. to_week_days [shown_day d]) week) = week"
    by (induction week) (simp_all add: to_week_days_shown)
  then show ?thesis by (simp add: from_week_days_plain [OF assms] to_week_days_map)
qed

definition demo_days :: "day_hours list" where
  "demo_days = map (\<lambda>w. \<lparr>dh_weekday = w, dh_open = (w < 6), dh_start = ''08:30'', dh_end = ''16:00'', dh_split = False\<rparr>) weekdays"

theorem week_roundtrip_witness:
  "to_week_days (from_week_days (to_week_days demo_days)) = to_week_days demo_days
    \<and> map wd_available (to_week_days demo_days) = [True, True, True, True, True, True, False]"
proof -
  have "plain_week (to_week_days demo_days)" by code_simp
  moreover have "map wd_available (to_week_days demo_days) = [True, True, True, True, True, True, False]" by code_simp
  ultimately show ?thesis using week_roundtrip [of "to_week_days demo_days"] by simp
qed

section \<open>The editor and the outbox\<close>

lemma enqueue_prefs:
  assumes "enqueue_hours env inp db = Inr (db', out)"
  obtains claim actor where "db_prefs db' Sync_Identity = Some (P_Json claim)" "replica_owner claim = Some actor"
  using assms
  by (fastforce simp: enqueue_hours_def edit_unsent_def append_week_def device_of_def Let_def
      split: option.splits pref_value.splits if_splits prod.splits)

lemma enqueue_edits_unsent:
  assumes "db_prefs db Sync_Identity = Some (P_Json claim)" "replica_owner claim = Some actor"
    "newest_week (en_business inp) (en_staff inp) (db_outbox db) = Some r" "ob_state r = Queued" "ob_attempts r = 0"
    "\<not> en_repair inp" "en_predecessor inp = Some (ob_id r, ob_payload r)"
  shows "enqueue_hours env inp db = Inr (edit_unsent inp r db)"
  using assms by (simp add: enqueue_hours_def newest_week_def stale_predecessor_def)

text \<open>Saving and opening the editor again agree. After a save has been queued, the editor of that member opens
  on the days that were saved, with a basis naming the queued week, and a save from there is accepted by the
  outbox as an edit of that week that has not been sent: the guard against stale editors never refuses the
  person's own next change.\<close>

theorem saved_week_reopens:
  assumes "reach hours_initial hours_step s" "fresh_id (ev_operation env) s"
    "enqueue_hours env (proposal_of staff business repair server days basis0) (hs_db s) = Inr (db', out)"
    "plain_week (to_week_days days)" "db_staff db' (business, staff) = Some revision"
  shows "\<exists>basis r. opening_week db' rows staff business = Some (basis, map shown_day (to_week_days days))
    \<and> wb_id basis = Some (eq_id out) \<and> wb_revision basis = wr_expected (eq_payload out) + 1
    \<and> enqueue_hours env' (proposal_of staff business False server' days' basis) db'
      = Inr (edit_unsent (proposal_of staff business False server' days' basis) r db')"
proof -
  let ?inp = "proposal_of staff business repair server days basis0"
  obtain r where r: "newest_week business staff (db_outbox db') = Some r" "ob_state r = Queued" "ob_attempts r = 0"
      "wr_days (ob_payload r) = to_week_days days" "ob_id r = eq_id out" "ob_payload r = eq_payload out"
    using enqueue_newest [OF assms(1-3)] by (auto simp: proposal_of_def)
  obtain claim actor where id: "db_prefs db' Sync_Identity = Some (P_Json claim)" "replica_owner claim = Some actor"
    using assms(3) by (rule enqueue_prefs)
  let ?basis = "\<lparr>wb_revision = wr_expected (ob_payload r) + 1, wb_id = Some (ob_id r),
    wb_payload = Some (ob_payload r), wb_base = ob_base r\<rparr>"
  have "opening_week db' rows staff business = Some (?basis, map shown_day (to_week_days days))"
    using r assms(5) by (simp add: opening_week_def awaits_server_def from_week_days_plain [OF assms(4), symmetric])
  moreover have "enqueue_hours env' (proposal_of staff business False server' days' ?basis) db'
      = Inr (edit_unsent (proposal_of staff business False server' days' ?basis) r db')"
    using id r by (intro enqueue_edits_unsent) (simp_all add: proposal_of_def)
  ultimately show ?thesis using r by (intro exI [of _ ?basis] exI [of _ r]) simp
qed

definition demo_basis :: week_basis where
  "demo_basis = \<lparr>wb_revision = 4, wb_id = None, wb_payload = None, wb_base = to_week_days (seed_days [])\<rparr>"

definition demo_saved :: "replica_db \<times> enqueued" where
  "demo_saved = projr (enqueue_hours (demo_env ''op1'') (proposal_of ''staff'' ''biz'' False 0 demo_days demo_basis)
     (demo_db\<lparr>db_staff := [(''biz'', ''staff'') \<mapsto> 4]\<rparr>))"

theorem saved_week_reopens_witness:
  "\<exists>basis. opening_week (fst demo_saved) [] ''staff'' ''biz'' = Some (basis, map shown_day (to_week_days demo_days))
    \<and> wb_id basis = Some ''op1''"
proof -
  let ?s = "\<lparr>hs_db = demo_db\<lparr>db_staff := [(''biz'', ''staff'') \<mapsto> 4]\<rparr>, hs_sent = [], hs_probed = []\<rparr>"
  have s: "reach hours_initial hours_step ?s"
    by (rule reach_init) (simp add: hours_initial_def demo_db_def)
  have fresh: "fresh_id (ev_operation (demo_env ''op1'')) ?s" by (simp add: fresh_id_def demo_db_def)
  have "\<not> isl (enqueue_hours (demo_env ''op1'') (proposal_of ''staff'' ''biz'' False 0 demo_days demo_basis)
      (demo_db\<lparr>db_staff := [(''biz'', ''staff'') \<mapsto> 4]\<rparr>))" by code_simp
  then have saved: "enqueue_hours (demo_env ''op1'') (proposal_of ''staff'' ''biz'' False 0 demo_days demo_basis) (hs_db ?s)
      = Inr (fst demo_saved, snd demo_saved)"
    by (simp add: demo_saved_def)
  have "plain_week (to_week_days demo_days)" by code_simp
  moreover have "db_staff (fst demo_saved) (''biz'', ''staff'') = Some 4" by code_simp
  moreover have "eq_id (snd demo_saved) = ''op1''" by code_simp
  ultimately show ?thesis
    using saved_week_reopens [OF s fresh saved, of 4 "[]" "demo_env ''op2''" 0 demo_days] by auto
qed

end
