(* ===== verification/Session.thy ===== *)
theory Session
  imports Prelude
begin

text \<open>
  The session of the API client (\<open>api-client/src/session.ts\<close>, \<open>epochs.ts\<close>): requests in flight while people sign
  in and out. Every \<open>await\<close> of \<open>authFetch\<close>, \<open>unauthorized\<close>, \<open>json\<close> and \<open>text\<close> ends an operation here, and the step
  relation lets any other call, answer, sign-in or sign-out come in between. The store, the network and the other
  users of the epoch are the free choices of the relation: the store may change and the epoch advance at any time.
\<close>

section \<open>Requests\<close>

record credentials =
  cr_user :: string
  cr_token :: "string option"

datatype session_mode = Cookie_Mode | Token_Mode

record request_init =
  ri_method :: string
  ri_headers :: "(string, string) js_map"
  ri_body :: "json option"

record response =
  rp_status :: int
  rp_body :: "json option" \<comment> \<open>\<open>None\<close> when it is not JSON\<close>
  rp_text :: "string option"

text \<open>A string the code tests for being given: the empty string counts as absent.\<close>

definition given :: "string option \<Rightarrow> string option" where
  "given s = (case s of Some (c # cs) \<Rightarrow> Some (c # cs) | _ \<Rightarrow> None)"

definition set_given :: "string \<Rightarrow> string option \<Rightarrow> (string, string) js_map \<Rightarrow> (string, string) js_map" where
  "set_given name v headers = (case given v of Some x \<Rightarrow> AList.update name x headers | None \<Rightarrow> headers)"

definition request_headers :: "session_mode \<Rightarrow> credentials option \<Rightarrow> string option \<Rightarrow> string option \<Rightarrow> (string, string) js_map \<Rightarrow> (string, string) js_map" where
  "request_headers mode creds subject business headers =
    set_given ''X-Business-Id'' business
     (set_given ''X-Expected-User'' subject
       (set_given ''X-Session-Token'' (if mode = Token_Mode then Option.bind creds cr_token else None) headers))"

definition json_headers :: "(string, string) js_map" where
  "json_headers = [(''Content-Type'', ''application/json'')]"

definition plain_init :: request_init where
  "plain_init = \<lparr>ri_method = ''GET'', ri_headers = [], ri_body = None\<rparr>"

text \<open>\<open>post\<close> and \<open>patch\<close>, then \<open>delete\<close>, with the idempotency key of the attempt when it has one.\<close>

definition command_init :: "string \<Rightarrow> json \<Rightarrow> string option \<Rightarrow> request_init" where
  "command_init method body key = \<lparr>ri_method = method,
     ri_headers = (case given key of Some k \<Rightarrow> json_headers @ [(''Idempotency-Key'', k)] | None \<Rightarrow> json_headers), ri_body = Some body\<rparr>"

definition delete_init :: "string option \<Rightarrow> request_init" where
  "delete_init key = \<lparr>ri_method = ''DELETE'',
     ri_headers = (case given key of Some k \<Rightarrow> [(''Idempotency-Key'', k)] | None \<Rightarrow> []), ri_body = None\<rparr>"

section \<open>The state\<close>

datatype session_error =
    Storage_Failed
  | Identity_Changed
  | Changed_In_Request
  | Changed_In_Response
  | Network_Failed
  | Unreadable
  | Api_Error int "string option" string json

datatype call_kind = Raw | As_Json | As_Text

datatype answer_value = No_Content | Json_Value json | Text_Value string

datatype call_stage =
    Reading_Store
  | In_Flight
  | Reading_Refusal response
  | Clearing_Store response
  | Responded response
  | Delivered answer_value
  | Failed session_error

record api_call =
  ac_kind :: call_kind
  ac_path :: string
  ac_init :: request_init
  ac_subject :: "string option"
  ac_business :: "string option"
  ac_generation :: nat
  ac_stage :: call_stage

text \<open>What went over the wire, with the credentials the client held and the epoch it was in.\<close>

record sent_request =
  sn_path :: string
  sn_headers :: "(string, string) js_map"
  sn_cookies :: bool
  sn_subject :: "string option"
  sn_business :: "string option"
  sn_generation :: nat
  sn_epoch :: nat
  sn_credentials :: "credentials option"

record session_state =
  ss_epoch :: nat
  ss_store :: "credentials option"
  ss_calls :: "api_call list"
  ss_sent :: "sent_request list"
  ss_signed_out :: nat
  ss_step_ups :: nat

section \<open>Operations\<close>

definition epoch_advance :: "session_state \<Rightarrow> session_state" where
  [step_defs]: "epoch_advance s = s\<lparr>ss_epoch := Suc (ss_epoch s)\<rparr>"

definition call_at :: "nat \<Rightarrow> session_state \<Rightarrow> api_call" where
  "call_at i s = ss_calls s ! i"

definition set_stage :: "nat \<Rightarrow> call_stage \<Rightarrow> session_state \<Rightarrow> session_state" where
  [step_defs]: "set_stage i stage s = s\<lparr>ss_calls := (ss_calls s)[i := (call_at i s)\<lparr>ac_stage := stage\<rparr>]\<rparr>"

definition is_current :: "nat \<Rightarrow> session_state \<Rightarrow> bool" where
  "is_current i s \<longleftrightarrow> ac_generation (call_at i s) = ss_epoch s"

definition call_begin :: "call_kind \<Rightarrow> string \<Rightarrow> request_init \<Rightarrow> string option \<Rightarrow> string option \<Rightarrow> session_state \<Rightarrow> session_state" where
  [step_defs]: "call_begin kind path init subject business s = s\<lparr>ss_calls := ss_calls s @
     [\<lparr>ac_kind = kind, ac_path = path, ac_init = init, ac_subject = subject, ac_business = business,
       ac_generation = ss_epoch s, ac_stage = Reading_Store\<rparr>]\<rparr>"

text \<open>\<open>opts.store.get()\<close> has answered with what the store holds: the request goes out, or the call fails.\<close>

definition credentials_read :: "session_mode \<Rightarrow> nat \<Rightarrow> session_state \<Rightarrow> session_state" where
  [step_defs]: "credentials_read mode i s =
    (let c = call_at i s; creds = ss_store s
     in if given (ac_subject c) \<noteq> None \<and> map_option cr_user creds \<noteq> ac_subject c then set_stage i (Failed Identity_Changed) s
        else if \<not> is_current i s then set_stage i (Failed Changed_In_Request) s
        else (set_stage i In_Flight s)\<lparr>ss_sent := ss_sent s @
          [\<lparr>sn_path = ac_path c, sn_headers = request_headers mode creds (ac_subject c) (ac_business c) (ri_headers (ac_init c)),
            sn_cookies = (mode = Cookie_Mode), sn_subject = ac_subject c, sn_business = ac_business c,
            sn_generation = ac_generation c, sn_epoch = ss_epoch s, sn_credentials = creds\<rparr>]\<rparr>)"

text \<open>The response: dropped when the epoch has moved on, read further when it is a 401, else returned.\<close>

definition response_arrived :: "nat \<Rightarrow> response \<Rightarrow> session_state \<Rightarrow> session_state" where
  [step_defs]: "response_arrived i res s =
    (if \<not> is_current i s then set_stage i (Failed Changed_In_Request) s
     else set_stage i (if rp_status res = 401 then Reading_Refusal res else Responded res) s)"

definition error_code :: "json option \<Rightarrow> string option" where
  "error_code body = (case Option.bind body (json_member ''error'') of Some (J_Str code) \<Rightarrow> Some code | _ \<Rightarrow> None)"

definition refused :: "int \<Rightarrow> json option \<Rightarrow> string \<Rightarrow> session_error" where
  "refused status body request = Api_Error status (error_code body) request
     (case Option.bind body (json_member ''detail'') of Some v \<Rightarrow> v | None \<Rightarrow> J_Null)"

text \<open>\<open>unauthorized\<close>, once the body has been read; \<open>None\<close> when reading it failed.\<close>

definition refusal_read :: "bool \<Rightarrow> nat \<Rightarrow> response \<Rightarrow> json option \<Rightarrow> session_state \<Rightarrow> session_state" where
  [step_defs]: "refusal_read steps_up i res body s =
    (if error_code body = Some ''second_factor_required'' \<and> steps_up
     then set_stage i (Responded res) (s\<lparr>ss_step_ups := Suc (ss_step_ups s)\<rparr>)
     else set_stage i (Clearing_Store res) (epoch_advance s))"

definition store_cleared :: "bool \<Rightarrow> nat \<Rightarrow> response \<Rightarrow> session_state \<Rightarrow> session_state" where
  [step_defs]: "store_cleared ok i res s =
    set_stage i (if ok then Responded res else Failed Storage_Failed)
      (s\<lparr>ss_store := (if ok then None else ss_store s), ss_signed_out := Suc (ss_signed_out s)\<rparr>)"

definition is_ok :: "response \<Rightarrow> bool" where
  "is_ok res \<longleftrightarrow> 200 \<le> rp_status res \<and> rp_status res \<le> 299"

text \<open>\<open>json\<close> and \<open>text\<close> after the response; \<open>readable\<close> says whether its body could be read.\<close>

definition value_of :: "call_kind \<Rightarrow> response \<Rightarrow> answer_value option" where
  "value_of kind res = (case kind of
       As_Text \<Rightarrow> map_option Text_Value (rp_text res)
     | _ \<Rightarrow> if rp_status res = 204 then Some No_Content else map_option Json_Value (rp_body res))"

definition body_read :: "bool \<Rightarrow> nat \<Rightarrow> response \<Rightarrow> session_state \<Rightarrow> session_state" where
  [step_defs]: "body_read readable i res s =
    (let c = call_at i s; request = ri_method (ac_init c) @ '' '' @ ac_path c
     in if \<not> is_ok res then set_stage i (Failed (refused (rp_status res) (if readable then rp_body res else None) request)) s
        else case (if readable \<or> (ac_kind c = As_Json \<and> rp_status res = 204) then value_of (ac_kind c) res else None) of
          None \<Rightarrow> set_stage i (Failed Unreadable) s
        | Some v \<Rightarrow> if is_current i s then set_stage i (Delivered v) s else set_stage i (Failed Changed_In_Response) s)"

definition no_session :: "session_state \<Rightarrow> bool" where
  "no_session s \<longleftrightarrow> ss_calls s = [] \<and> ss_sent s = [] \<and> ss_signed_out s = 0 \<and> ss_step_ups s = 0"

definition at_stage :: "nat \<Rightarrow> call_stage \<Rightarrow> session_state \<Rightarrow> bool" where
  "at_stage i stage s \<longleftrightarrow> i < length (ss_calls s) \<and> ac_stage (call_at i s) = stage"

inductive session_step :: "session_mode \<Rightarrow> bool \<Rightarrow> session_state \<Rightarrow> session_state \<Rightarrow> bool"
  for mode :: session_mode and steps_up :: bool where
  step_call: "session_step mode steps_up s (call_begin kind path init subject business s)"
| step_credentials: "at_stage i Reading_Store s \<Longrightarrow> session_step mode steps_up s (credentials_read mode i s)"
| step_no_store: "at_stage i Reading_Store s \<Longrightarrow> session_step mode steps_up s (set_stage i (Failed Storage_Failed) s)"
| step_response: "at_stage i In_Flight s \<Longrightarrow> session_step mode steps_up s (response_arrived i res s)"
| step_network: "at_stage i In_Flight s \<Longrightarrow> session_step mode steps_up s (set_stage i (Failed Network_Failed) s)"
| step_refusal: "at_stage i (Reading_Refusal res) s \<Longrightarrow> body = rp_body res \<or> body = None
    \<Longrightarrow> session_step mode steps_up s (refusal_read steps_up i res body s)"
| step_cleared: "at_stage i (Clearing_Store res) s \<Longrightarrow> session_step mode steps_up s (store_cleared ok i res s)"
| step_body: "at_stage i (Responded res) s \<Longrightarrow> ac_kind (call_at i s) \<noteq> Raw
    \<Longrightarrow> session_step mode steps_up s (body_read readable i res s)"
| step_advance: "session_step mode steps_up s (epoch_advance s)"
| step_store: "session_step mode steps_up s (s\<lparr>ss_store := creds\<rparr>)"

inductive_cases session_stepE: "session_step mode steps_up s t"

section \<open>Epochs\<close>

lemma call_at_simps [simp]:
  "call_at i (s\<lparr>ss_epoch := e\<rparr>) = call_at i s" "call_at i (s\<lparr>ss_store := st\<rparr>) = call_at i s"
  "call_at i (s\<lparr>ss_sent := r\<rparr>) = call_at i s" "call_at i (s\<lparr>ss_signed_out := n\<rparr>) = call_at i s"
  "call_at i (s\<lparr>ss_step_ups := n\<rparr>) = call_at i s" "call_at i (epoch_advance s) = call_at i s"
  by (simp_all add: call_at_def epoch_advance_def)

lemma set_stage_frame [simp]:
  "length (ss_calls (set_stage i stage s)) = length (ss_calls s)" "ss_epoch (set_stage i stage s) = ss_epoch s"
  "ss_store (set_stage i stage s) = ss_store s" "ss_sent (set_stage i stage s) = ss_sent s"
  "ss_signed_out (set_stage i stage s) = ss_signed_out s" "ss_step_ups (set_stage i stage s) = ss_step_ups s"
  by (simp_all add: set_stage_def)

lemma call_at_set_stage:
  "i < length (ss_calls s) \<Longrightarrow>
    call_at j (set_stage i stage s) = (if j = i then (call_at i s)\<lparr>ac_stage := stage\<rparr> else call_at j s)"
  by (simp add: call_at_def set_stage_def)

text \<open>Where a call of an earlier epoch may still get to: unanswered it can only fail, with nothing of an answer in the error.\<close>

definition answered :: "call_stage \<Rightarrow> bool" where
  "answered stage \<longleftrightarrow> (case stage of Delivered _ \<Rightarrow> False | Reading_Store \<Rightarrow> False | In_Flight \<Rightarrow> False | _ \<Rightarrow> True)"

definition old_stages :: "call_stage \<Rightarrow> call_stage set" where
  "old_stages stage = (case stage of
       Reading_Store \<Rightarrow> {Reading_Store, Failed Storage_Failed, Failed Identity_Changed, Failed Changed_In_Request}
     | In_Flight \<Rightarrow> {In_Flight, Failed Network_Failed, Failed Changed_In_Request}
     | Failed e \<Rightarrow> {Failed e}
     | Delivered v \<Rightarrow> {Delivered v}
     | _ \<Rightarrow> {x. answered x})"

lemma old_stages_refl [simp]: "stage \<in> old_stages stage"
  by (cases stage) (simp_all add: old_stages_def answered_def)

lemma old_stages_trans: "y \<in> old_stages x \<Longrightarrow> z \<in> old_stages y \<Longrightarrow> z \<in> old_stages x"
  by (cases x; cases y) (auto simp: old_stages_def answered_def)

text \<open>What a step does to a call: its stage at most, and one that needs the epoch only within it.\<close>

definition call_moves :: "session_state \<Rightarrow> session_state \<Rightarrow> bool" where
  "call_moves s t \<longleftrightarrow> ss_epoch s \<le> ss_epoch t \<and> length (ss_calls s) \<le> length (ss_calls t)
     \<and> (\<forall>j<length (ss_calls s). call_at j t = call_at j s
          \<or> (\<exists>stage. call_at j t = (call_at j s)\<lparr>ac_stage := stage\<rparr> \<and> (stage \<in> old_stages (ac_stage (call_at j s)) \<or> is_current j s)))"

lemma call_moves_refl [simp, intro]: "call_moves s s"
  by (simp add: call_moves_def)

lemma call_moves_stage:
  "i < length (ss_calls s) \<Longrightarrow> stage \<in> old_stages (ac_stage (call_at i s)) \<or> is_current i s \<Longrightarrow> call_moves s (set_stage i stage s)"
  by (auto simp: call_moves_def call_at_set_stage)

lemma call_moves_fields:
  "call_moves s t \<Longrightarrow> call_moves s (t\<lparr>ss_sent := r\<rparr>)" "call_moves s t \<Longrightarrow> call_moves s (t\<lparr>ss_store := c\<rparr>)"
  "call_moves s t \<Longrightarrow> call_moves s (t\<lparr>ss_signed_out := n\<rparr>)" "call_moves s t \<Longrightarrow> call_moves s (t\<lparr>ss_step_ups := n\<rparr>)"
  "call_moves s t \<Longrightarrow> call_moves s (epoch_advance t)"
  by (auto simp: call_moves_def epoch_advance_def)

lemma set_stage_commute:
  "set_stage i stage (s\<lparr>ss_step_ups := n\<rparr>) = (set_stage i stage s)\<lparr>ss_step_ups := n\<rparr>"
  "set_stage i stage (epoch_advance s) = epoch_advance (set_stage i stage s)"
  "set_stage i stage (s\<lparr>ss_store := c, ss_signed_out := n\<rparr>) = (set_stage i stage s)\<lparr>ss_store := c, ss_signed_out := n\<rparr>"
  by (simp_all add: set_stage_def epoch_advance_def call_at_def)

lemma session_step_moves: "session_step mode steps_up s t \<Longrightarrow> call_moves s t"
proof (induction rule: session_step.induct)
  case (step_call s kind path init subject business)
  then show ?case by (auto simp: call_moves_def call_begin_def call_at_def nth_append)
next
  case (step_refusal i res s body)
  then show ?case
    by (auto simp: refusal_read_def set_stage_commute at_stage_def old_stages_def answered_def intro!: call_moves_fields call_moves_stage)
next
  case (step_cleared i res s ok)
  then show ?case
    by (auto simp: store_cleared_def set_stage_commute at_stage_def old_stages_def answered_def intro!: call_moves_fields call_moves_stage)
qed (auto simp: credentials_read_def response_arrived_def body_read_def at_stage_def old_stages_def answered_def Let_def
    split: option.splits intro!: call_moves_fields call_moves_stage)

lemma old_call_moves:
  assumes "call_moves s t" "i < length (ss_calls s)" "ac_generation (call_at i s) < ss_epoch s"
  shows "i < length (ss_calls t) \<and> ac_generation (call_at i t) < ss_epoch t
    \<and> ac_stage (call_at i t) \<in> old_stages (ac_stage (call_at i s))"
  using assms unfolding call_moves_def is_current_def by fastforce

lemma old_call_run:
  assumes "(session_step mode steps_up)\<^sup>*\<^sup>* s t" "i < length (ss_calls s)" "ac_generation (call_at i s) < ss_epoch s"
  shows "i < length (ss_calls t) \<and> ac_generation (call_at i t) < ss_epoch t
    \<and> ac_stage (call_at i t) \<in> old_stages (ac_stage (call_at i s))"
  using assms
proof (induction rule: rtranclp_induct)
  case (step t u)
  then show ?case using old_call_moves [OF session_step_moves [OF step.hyps(2)], of i] old_stages_trans by blast
qed simp

text \<open>C39: Nothing that an earlier session still waits for reaches its caller. Once the epoch has moved past a call,
  whatever the network, the store and the other calls do afterwards: a call whose request was not sent yet is never
  sent; a call whose answer had not come yet ends with nothing of that answer, neither the response that
  \<open>authFetch\<close> returns, nor a refusal, nor a sign-out, but stays unanswered or fails as interrupted; and a call whose
  answer was being read never delivers its value. Only the error of an answer that had arrived before may still be
  thrown.\<close>

theorem old_session_never_delivers:
  assumes "(session_step mode steps_up)\<^sup>*\<^sup>* s t" "i < length (ss_calls s)" "ac_generation (call_at i s) < ss_epoch s"
  shows "(ac_stage (call_at i s) = Reading_Store \<longrightarrow> ac_stage (call_at i t)
        \<in> {Reading_Store, Failed Storage_Failed, Failed Identity_Changed, Failed Changed_In_Request})
    \<and> (ac_stage (call_at i s) = In_Flight \<longrightarrow> ac_stage (call_at i t) \<in> {In_Flight, Failed Network_Failed, Failed Changed_In_Request})
    \<and> (ac_stage (call_at i t) = Delivered v \<longrightarrow> ac_stage (call_at i s) = Delivered v)"
  using old_call_run [OF assms]
  by (cases "ac_stage (call_at i s)") (auto simp: old_stages_def answered_def)


section \<open>What is sent\<close>

lemma map_of_set_given:
  "map_of (set_given name v headers) k = (if k = name \<and> given v \<noteq> None then given v else map_of headers k)"
  by (auto simp: set_given_def update_conv' split: option.splits)

definition sent_ok :: "session_mode \<Rightarrow> sent_request \<Rightarrow> bool" where
  "sent_ok mode r \<longleftrightarrow> sn_epoch r = sn_generation r
     \<and> (given (sn_subject r) \<noteq> None \<longrightarrow> map_option cr_user (sn_credentials r) = sn_subject r
          \<and> map_of (sn_headers r) ''X-Expected-User'' = sn_subject r)
     \<and> (given (sn_business r) \<noteq> None \<longrightarrow> map_of (sn_headers r) ''X-Business-Id'' = sn_business r)
     \<and> (mode = Token_Mode \<and> given (Option.bind (sn_credentials r) cr_token) \<noteq> None
          \<longrightarrow> map_of (sn_headers r) ''X-Session-Token'' = Option.bind (sn_credentials r) cr_token)
     \<and> sn_cookies r = (mode = Cookie_Mode)"

lemma given_Some: "given v = Some y \<Longrightarrow> v = Some y"
  by (auto simp: given_def split: option.splits list.splits)

text \<open>The stages that hold a refused response hold a 401.\<close>

definition refusal_stage :: "call_stage \<Rightarrow> bool" where
  "refusal_stage stage \<longleftrightarrow> (case stage of Reading_Refusal res \<Rightarrow> rp_status res = 401
     | Clearing_Store res \<Rightarrow> rp_status res = 401 | _ \<Rightarrow> True)"

definition session_inv :: "session_mode \<Rightarrow> session_state \<Rightarrow> bool" where
  "session_inv mode s \<longleftrightarrow> list_all (sent_ok mode) (ss_sent s) \<and> list_all (\<lambda>c. refusal_stage (ac_stage c)) (ss_calls s)"

lemma session_inv_stage:
  "session_inv mode s \<Longrightarrow> refusal_stage stage \<Longrightarrow> session_inv mode (set_stage i stage s)"
  by (auto simp: session_inv_def set_stage_def list_all_iff dest: subsetD [OF set_update_subset_insert])

lemma session_inv_fields:
  "session_inv mode s \<Longrightarrow> session_inv mode (s\<lparr>ss_store := c\<rparr>)"
  "session_inv mode s \<Longrightarrow> session_inv mode (s\<lparr>ss_signed_out := n\<rparr>)"
  "session_inv mode s \<Longrightarrow> session_inv mode (s\<lparr>ss_step_ups := n\<rparr>)"
  "session_inv mode s \<Longrightarrow> session_inv mode (epoch_advance s)"
  "session_inv mode s \<Longrightarrow> list_all (sent_ok mode) rs \<Longrightarrow> session_inv mode (s\<lparr>ss_sent := ss_sent s @ rs\<rparr>)"
  by (auto simp: session_inv_def epoch_advance_def)

lemma session_inv_at: "session_inv mode s \<Longrightarrow> at_stage i stage s \<Longrightarrow> refusal_stage stage"
  by (auto simp: session_inv_def at_stage_def call_at_def list_all_length)

lemma credentials_read_inv:
  assumes "session_inv mode s"
  shows "session_inv mode (credentials_read mode i s)"
proof -
  let ?c = "call_at i s"
  have "sent_ok mode \<lparr>sn_path = ac_path ?c,
      sn_headers = request_headers mode (ss_store s) (ac_subject ?c) (ac_business ?c) (ri_headers (ac_init ?c)),
      sn_cookies = (mode = Cookie_Mode), sn_subject = ac_subject ?c, sn_business = ac_business ?c,
      sn_generation = ac_generation ?c, sn_epoch = ss_epoch s, sn_credentials = ss_store s\<rparr>"
    if "is_current i s" "given (ac_subject ?c) = None \<or> map_option cr_user (ss_store s) = ac_subject ?c"
    using that by (auto simp: sent_ok_def request_headers_def map_of_set_given is_current_def dest: given_Some [THEN sym])
  then show ?thesis
    using assms session_inv_fields(5) [OF session_inv_stage [OF assms, of In_Flight i]]
    by (auto simp: credentials_read_def Let_def session_inv_stage refusal_stage_def)
qed

interpretation session: inductive_invariant no_session "session_step mode steps_up" "session_inv mode"
proof (unfold_locales, goal_cases)
  case (1 s)
  then show ?case by (simp add: no_session_def session_inv_def)
next
  case (2 s t)
  from 2(2,1) show ?case
  proof (induction rule: session_step.induct)
    case (step_call s kind path init subject business)
    then show ?case by (simp add: session_inv_def call_begin_def refusal_stage_def)
  next
    case (step_credentials i s)
    then show ?case by (simp add: credentials_read_inv)
  next
    case (step_response i s res)
    then show ?case by (auto simp: response_arrived_def refusal_stage_def intro: session_inv_stage)
  next
    case (step_refusal i res s body)
    then have "refusal_stage (Reading_Refusal res)" by (blast intro: session_inv_at)
    with step_refusal show ?case
      by (auto simp: refusal_read_def refusal_stage_def intro!: session_inv_stage session_inv_fields)
  next
    case (step_cleared i res s ok)
    then show ?case
      by (auto simp: store_cleared_def refusal_stage_def set_stage_commute intro!: session_inv_stage session_inv_fields)
  next
    case (step_body i res s readable)
    then show ?case
      by (auto simp: body_read_def Let_def refusal_stage_def intro!: session_inv_stage split: option.splits)
  qed (auto intro!: session_inv_stage session_inv_fields simp: refusal_stage_def)
qed


text \<open>A request bound to a replica's user goes out as that user or not at all. In every reachable state, what was
  sent for a subject was sent while the store held that very user's credentials, in the epoch the call began in,
  naming the user the server must expect; a client with a token sends that user's token, and a request of a
  business names it.\<close>

theorem bound_request_is_users:
  assumes "reach no_session (session_step mode steps_up) s" "r \<in> set (ss_sent s)" "given (sn_subject r) = Some u"
  shows "sn_epoch r = sn_generation r \<and> map_of (sn_headers r) ''X-Expected-User'' = Some u
    \<and> (\<exists>c. sn_credentials r = Some c \<and> cr_user c = u
        \<and> (mode = Token_Mode \<and> given (cr_token c) \<noteq> None \<longrightarrow> map_of (sn_headers r) ''X-Session-Token'' = cr_token c))
    \<and> (given (sn_business r) \<noteq> None \<longrightarrow> map_of (sn_headers r) ''X-Business-Id'' = sn_business r)"
proof -
  have "sent_ok mode r" using session.reach_inv [OF assms(1)] assms(2) by (simp add: session_inv_def list_all_iff)
  then show ?thesis using assms(3) given_Some [OF assms(3)]
    by (cases "sn_credentials r") (simp_all add: sent_ok_def)
qed

definition demo_credentials :: credentials where
  "demo_credentials = \<lparr>cr_user = ''us_1'', cr_token = Some ''tok''\<rparr>"

definition demo_start :: session_state where
  "demo_start = \<lparr>ss_epoch = 0, ss_store = Some demo_credentials, ss_calls = [], ss_sent = [], ss_signed_out = 0, ss_step_ups = 0\<rparr>"

definition demo_asked :: session_state where
  "demo_asked = call_begin As_Json ''/v1/me'' plain_init (Some ''us_1'') None demo_start"

definition demo_sent :: session_state where
  "demo_sent = credentials_read Token_Mode 0 demo_asked"

lemma session_runs:
  "reach no_session (session_step Token_Mode True) demo_asked"
  "reach no_session (session_step Token_Mode True) demo_sent"
proof -
  have "reach no_session (session_step Token_Mode True) demo_start"
    by (rule reach_init) (simp add: demo_start_def no_session_def)
  then show asked: "reach no_session (session_step Token_Mode True) demo_asked"
    unfolding demo_asked_def by (rule reach_step) (rule step_call)
  have "at_stage 0 Reading_Store demo_asked"
    by (simp add: at_stage_def demo_asked_def call_begin_def call_at_def demo_start_def)
  with asked show "reach no_session (session_step Token_Mode True) demo_sent"
    unfolding demo_sent_def by (auto intro: reach_step step_credentials)
qed

theorem bound_request_is_users_witness:
  "map_of (sn_headers (hd (ss_sent demo_sent))) ''X-Expected-User'' = Some ''us_1''
    \<and> map_of (sn_headers (hd (ss_sent demo_sent))) ''X-Session-Token'' = Some ''tok''"
proof -
  have "given (sn_subject (hd (ss_sent demo_sent))) = Some ''us_1''" by code_simp
  moreover have "hd (ss_sent demo_sent) \<in> set (ss_sent demo_sent)" by (rule hd_in_set) code_simp
  moreover have "map_of (sn_headers (hd (ss_sent demo_sent))) ''X-Session-Token'' = Some ''tok''" by code_simp
  ultimately show ?thesis using bound_request_is_users [OF session_runs(2)] by blast
qed

section \<open>Signing out\<close>

text \<open>C40: Only the server's own refusal ends a session. When in a reachable state a step signs the person out or
  changes the store, then either somebody else wrote the store and nothing of the client changed, or the step ends
  a call that was answered 401, signs out once for it, and empties the store unless that failed. And the 401 came
  while the session that had asked was the current one: in no earlier state was the call unanswered and its epoch
  past. So a network failure, another status, a failed read of the store or the answer to an earlier session's call
  leaves the session as it is. (The epoch may still move between the arrival of the 401 and the reading of its body,
  see \<open>late_refusal_ends_new_session\<close>.)\<close>

theorem only_refusals_sign_out:
  assumes "reach no_session (session_step mode steps_up) r" "(session_step mode steps_up)\<^sup>*\<^sup>* r s" "session_step mode steps_up s t"
    "ss_signed_out t \<noteq> ss_signed_out s \<or> ss_store t \<noteq> ss_store s"
  shows "t = s\<lparr>ss_store := ss_store t\<rparr>
    \<or> (\<exists>i res. at_stage i (Clearing_Store res) s \<and> rp_status res = 401 \<and> ss_signed_out t = Suc (ss_signed_out s)
      \<and> (ss_store t = None \<and> ac_stage (call_at i t) = Responded res
         \<or> ss_store t = ss_store s \<and> ac_stage (call_at i t) = Failed Storage_Failed)
      \<and> \<not> (at_stage i Reading_Store r \<and> ac_generation (call_at i r) < ss_epoch r)
      \<and> \<not> (at_stage i In_Flight r \<and> ac_generation (call_at i r) < ss_epoch r))"
  using assms(3,4)
proof (cases rule: session_step.cases)
  case (step_cleared i res ok)
  have "reach no_session (session_step mode steps_up) s" using assms(2,1) by (induction rule: rtranclp_induct) (auto intro: reach_step)
  then have "refusal_stage (Clearing_Store res)" using session_inv_at [OF session.reach_inv] step_cleared by blast
  moreover have "\<not> (at_stage i stage r \<and> ac_generation (call_at i r) < ss_epoch r)" if "stage = Reading_Store \<or> stage = In_Flight" for stage
    using old_call_run [OF assms(2), of i] step_cleared(2) that by (auto simp: at_stage_def old_stages_def)
  ultimately show ?thesis using step_cleared
    by (intro disjI2 exI [of _ i] exI [of _ res])
      (auto simp: store_cleared_def refusal_stage_def call_at_set_stage at_stage_def)
qed (auto simp: call_begin_def credentials_read_def response_arrived_def refusal_read_def body_read_def epoch_advance_def Let_def
    split: option.splits if_splits)

definition demo_response :: "int \<Rightarrow> string \<Rightarrow> response" where
  "demo_response status code = \<lparr>rp_status = status, rp_body = Some (J_Obj [(''error'', J_Str code)]), rp_text = None\<rparr>"

definition demo_refused :: session_state where
  "demo_refused = response_arrived 0 (demo_response 401 ''unauthenticated'') demo_sent"

definition demo_clearing :: session_state where
  "demo_clearing = refusal_read True 0 (demo_response 401 ''unauthenticated'')
     (rp_body (demo_response 401 ''unauthenticated'')) demo_refused"

lemma demo_stages:
  "at_stage 0 In_Flight demo_sent" "at_stage 0 (Reading_Refusal (demo_response 401 ''unauthenticated'')) demo_refused"
  "at_stage 0 (Clearing_Store (demo_response 401 ''unauthenticated'')) demo_clearing"
  unfolding at_stage_def by (code_simp, code_simp, code_simp)

lemma demo_refused_reach: "reach no_session (session_step Token_Mode True) demo_refused"
  using session_runs(2) demo_stages(1) unfolding demo_refused_def by (auto intro: reach_step step_response)

lemma demo_clearing_reach: "reach no_session (session_step Token_Mode True) demo_clearing"
  using demo_refused_reach demo_stages(2) unfolding demo_clearing_def by (blast intro: reach_step step_refusal)

theorem only_refusals_sign_out_witness:
  "\<exists>i res. at_stage i (Clearing_Store res) demo_clearing \<and> rp_status res = 401 \<and> ss_store (store_cleared True i res demo_clearing) = None"
proof -
  let ?res = "demo_response 401 ''unauthenticated''"
  have step: "session_step Token_Mode True demo_clearing (store_cleared True 0 ?res demo_clearing)"
    by (rule step_cleared [OF demo_stages(3)])
  have out: "ss_signed_out (store_cleared True 0 ?res demo_clearing) = Suc (ss_signed_out demo_clearing)"
    by (simp add: store_cleared_def)
  then have "store_cleared True 0 ?res demo_clearing \<noteq> demo_clearing\<lparr>ss_store := c\<rparr>" for c
    by (metis n_not_Suc_n session_state.select_convs(5) session_state.surjective session_state.update_convs(2))
  moreover have "ss_store (store_cleared True i res demo_clearing) = None" for i res by (simp add: store_cleared_def)
  ultimately show ?thesis
    using only_refusals_sign_out [OF demo_clearing_reach rtranclp.rtrancl_refl step] out by auto
qed

text \<open>The answer a first session waits for comes after the second signed in, and is dropped.\<close>

theorem old_session_never_delivers_witness:
  "ac_stage (call_at 0 (response_arrived 0 (demo_response 200 ''none'') (epoch_advance demo_sent)))
    \<in> {In_Flight, Failed Network_Failed, Failed Changed_In_Request}"
proof -
  let ?s = "epoch_advance demo_sent"
  have "at_stage 0 In_Flight ?s" using demo_stages(1) by (simp add: at_stage_def epoch_advance_def)
  then have "(session_step Token_Mode True)\<^sup>*\<^sup>* ?s (response_arrived 0 (demo_response 200 ''none'') ?s)"
    by (intro r_into_rtranclp step_response)
  moreover have "0 < length (ss_calls ?s)" "ac_generation (call_at 0 ?s) < ss_epoch ?s"
    by code_simp+
  ultimately show ?thesis
    using old_session_never_delivers [of Token_Mode True ?s _ 0] demo_stages(1) by (simp add: at_stage_def)
qed

text \<open>
  The epoch is compared before the refusal's body is read and not after. A refusal that arrives just before another
  person signs in, and whose body is read (or fails to be read) just after, empties the store of the session that
  has begun meanwhile.
\<close>

lemma late_refusal_ends_new_session:
  "\<exists>s t c. reach no_session (session_step Token_Mode True) s \<and> (session_step Token_Mode True)\<^sup>*\<^sup>* s t
    \<and> ss_store s = Some c \<and> ac_generation (call_at 0 s) < ss_epoch s \<and> ss_store t = None \<and> ss_signed_out t = 1"
proof -
  let ?res = "demo_response 401 ''unauthenticated''"
  let ?new = "\<lparr>cr_user = ''us_2'', cr_token = Some ''tok2''\<rparr>"
  let ?a = "epoch_advance demo_refused"
  let ?s = "?a\<lparr>ss_store := Some ?new\<rparr>"
  let ?c = "refusal_read True 0 ?res None ?s"
  let ?t = "store_cleared True 0 ?res ?c"
  have "reach no_session (session_step Token_Mode True) ?s"
    using demo_refused_reach by (blast intro: reach_step step_advance step_store)
  moreover have s: "at_stage 0 (Reading_Refusal ?res) ?s"
    using demo_stages(2) by (simp add: at_stage_def epoch_advance_def)
  moreover have "session_step Token_Mode True ?s ?c" using s by (rule step_refusal) simp
  moreover have "at_stage 0 (Clearing_Store ?res) ?c"
    using s by (simp add: at_stage_def refusal_read_def error_code_def call_at_set_stage epoch_advance_def)
  then have "session_step Token_Mode True ?c ?t" by (rule step_cleared)
  moreover have "ac_generation (call_at 0 ?s) < ss_epoch ?s" by code_simp
  moreover have "ss_signed_out ?t = 1" by code_simp
  ultimately show ?thesis
    by (intro exI [of _ ?s] exI [of _ ?t] exI [of _ ?new]) (simp add: store_cleared_def)
qed

end
