(* ===== verification/Json_Texts.thy ===== *)
theory Json_Texts
  imports Attempts
begin

text \<open>
  JSON as text: \<open>JSON.stringify\<close>, and \<open>JSON.parse\<close> on the texts it makes of arrays of strings, the form in which
  the client keeps who a replica belongs to. Characters are the bytes of the model's strings.
\<close>

section \<open>Writing\<close>

text \<open>\<open>JSON.stringify\<close>; how a number that is not an integer prints is a parameter.\<close>

definition hex_digit :: "nat \<Rightarrow> char" where
  "hex_digit n = (if n < 10 then digit_char n else char_of (87 + n))"

definition json_char :: "char \<Rightarrow> string" where
  "json_char c =
    (if c = CHR 0x22 then [CHR 0x5C, CHR 0x22] else if c = CHR 0x5C then [CHR 0x5C, CHR 0x5C]
     else if c = CHR 0x08 then [CHR 0x5C, CHR ''b''] else if c = CHR 0x0C then [CHR 0x5C, CHR ''f'']
     else if c = CHR 0x0A then [CHR 0x5C, CHR ''n''] else if c = CHR 0x0D then [CHR 0x5C, CHR ''r'']
     else if c = CHR 0x09 then [CHR 0x5C, CHR ''t'']
     else let n = (of_char c :: nat)
          in if n < 32 then CHR 0x5C # ''u00'' @ [hex_digit (n div 16), hex_digit (n mod 16)] else [c])"

definition json_quote :: "string \<Rightarrow> string" where
  "json_quote s = CHR 0x22 # concat (map json_char s) @ [CHR 0x22]"

fun json_text :: "(rat \<Rightarrow> string) \<Rightarrow> json \<Rightarrow> string" where
  "json_text num J_Null = ''null''"
| "json_text num (J_Bool b) = (if b then ''true'' else ''false'')"
| "json_text num (J_Num n) = (if of_int \<lfloor>n\<rfloor> = n then int_string \<lfloor>n\<rfloor> else num n)"
| "json_text num (J_Str s) = json_quote s"
| "json_text num (J_Arr vs) = ''['' @ join_with '','' (map (json_text num) vs) @ '']''"
| "json_text num (J_Obj ms) =
    CHR 0x7B # join_with '','' (map (\<lambda>m. json_quote (fst m) @ '':'' @ json_text num (snd m)) ms) @ [CHR 0x7D]"

section \<open>Reading\<close>

definition hex_value :: "char \<Rightarrow> nat option" where
  "hex_value c =
    (let n = (of_char c :: nat)
     in if 48 \<le> n \<and> n \<le> 57 then Some (n - 48) else if 97 \<le> n \<and> n \<le> 102 then Some (n - 87)
        else if 65 \<le> n \<and> n \<le> 70 then Some (n - 55) else None)"

text \<open>What follows a backslash: the character it stands for and the rest of the text.\<close>

definition read_escape :: "string \<Rightarrow> (char \<times> string) option" where
  "read_escape cs =
    (case cs of
       [] \<Rightarrow> None
     | e # r \<Rightarrow>
         if e \<in> {CHR 0x22, CHR 0x5C, CHR ''/''} then Some (e, r)
         else if e = CHR ''b'' then Some (CHR 0x08, r) else if e = CHR ''f'' then Some (CHR 0x0C, r)
         else if e = CHR ''n'' then Some (CHR 0x0A, r) else if e = CHR ''r'' then Some (CHR 0x0D, r)
         else if e = CHR ''t'' then Some (CHR 0x09, r)
         else if e = CHR ''u'' \<and> take 2 r = ''00'' then
           (case map hex_value (take 2 (drop 2 r)) of
              [Some a, Some b] \<Rightarrow> Some (char_of (16 * a + b), drop 4 r) | _ \<Rightarrow> None)
         else None)"

lemma read_escape_shorter: "read_escape cs = Some (c, r) \<Longrightarrow> length r < length cs"
  by (auto simp: read_escape_def split: list.splits if_splits option.splits)

text \<open>A string after its opening quote, and the rest of the text after the closing one.\<close>

function read_quoted :: "string \<Rightarrow> (string \<times> string) option" where
  "read_quoted cs =
    (case cs of
       [] \<Rightarrow> None
     | c # r \<Rightarrow>
         if c = CHR 0x22 then Some ([], r)
         else (case (if c = CHR 0x5C then read_escape r else if (of_char c :: nat) < 32 then None else Some (c, r)) of
                 None \<Rightarrow> None
               | Some (x, r') \<Rightarrow> map_option (\<lambda>(s, t). (x # s, t)) (read_quoted r')))"
  by pat_completeness auto
termination
  by (relation "measure length") (auto dest: read_escape_shorter split: if_splits)

declare read_quoted.simps [simp del]

lemma read_quoted_shorter: "read_quoted cs = Some (s, r) \<Longrightarrow> length r < length cs"
proof (induction cs arbitrary: s r rule: read_quoted.induct)
  case (1 cs)
  show ?case
  proof (cases cs)
    case (Cons c r0)
    have step: "length r < length cs"
      if "p = Some (x, r')" "p = (if c = CHR 0x5C then read_escape r0 else if (of_char c :: nat) < 32 then None else Some (c, r0))"
        "c \<noteq> CHR 0x22" "read_quoted r' = Some (s', r)" for p x r' s'
      using "1.IH" [OF Cons that(3) that(1) [unfolded that(2)] refl that(4)] that(1,2) Cons
      by (auto split: if_splits dest: read_escape_shorter)
    show ?thesis
      using "1.prems" Cons step
      by (subst (asm) read_quoted.simps) (auto split: if_splits option.splits prod.splits)
  qed (use "1.prems" in \<open>simp add: read_quoted.simps\<close>)
qed

text \<open>An array of strings, without spaces, after its opening bracket.\<close>

function read_strings :: "string \<Rightarrow> string list option" where
  "read_strings cs =
    (if take 1 cs \<noteq> [CHR 0x22] then None
     else case read_quoted (drop 1 cs) of
            None \<Rightarrow> None
          | Some (s, r) \<Rightarrow>
              if r = '']'' then Some [s]
              else if take 1 r = '','' then map_option ((#) s) (read_strings (drop 1 r)) else None)"
  by pat_completeness auto
termination
  by (relation "measure length") (auto dest!: read_quoted_shorter)

declare read_strings.simps [simp del]

text \<open>\<open>JSON.parse\<close>; texts of another form than an array of strings are read by \<open>other\<close> (\<open>None\<close> when they are not JSON).\<close>

definition parse_json :: "(string \<Rightarrow> json option) \<Rightarrow> string \<Rightarrow> json option" where
  "parse_json other text =
    (if text = ''[]'' then Some (J_Arr [])
     else case (if take 1 text = ''['' then read_strings (drop 1 text) else None) of
            Some ss \<Rightarrow> Some (J_Arr (map J_Str ss)) | None \<Rightarrow> other text)"

section \<open>What is written is read back\<close>

lemma hex_value_digit: "n < 16 \<Longrightarrow> hex_value (hex_digit n) = Some n"
  by (auto simp: hex_value_def hex_digit_def digit_char_def Let_def)

lemma read_quoted_char:
  "read_quoted (json_char c @ t) = map_option (\<lambda>(s, r). (c # s, r)) (read_quoted t)"
proof -
  define n where "n = (of_char c :: nat)"
  have c: "c = char_of n" by (simp add: n_def)
  show ?thesis
  proof (cases "json_char c = [c]")
    case True
    then have "c \<noteq> CHR 0x22" "c \<noteq> CHR 0x5C" "\<not> n < 32"
      by (auto simp: json_char_def n_def Let_def split: if_splits)
    then show ?thesis using True by (subst read_quoted.simps) (simp add: n_def)
  next
    case False
    then have "\<exists>e. json_char c = CHR 0x5C # e \<and> read_escape (e @ t) = Some (c, t)"
    proof (cases "c \<in> {CHR 0x22, CHR 0x5C, CHR 0x08, CHR 0x0C, CHR 0x0A, CHR 0x0D, CHR 0x09}")
      case other: False
      have small: "n < 32" using False other by (auto simp: json_char_def n_def Let_def split: if_splits)
      let ?e = "''u00'' @ [hex_digit (n div 16), hex_digit (n mod 16)]"
      have "json_char c = CHR 0x5C # ?e" using other small by (simp add: json_char_def n_def Let_def)
      moreover have "read_escape (?e @ t) = Some (char_of (16 * (n div 16) + n mod 16), t)"
        using small by (simp add: read_escape_def hex_value_digit)
      ultimately show ?thesis using c by simp
    qed (auto simp: json_char_def read_escape_def)
    then obtain e where "json_char c = CHR 0x5C # e" "read_escape (e @ t) = Some (c, t)" by blast
    then show ?thesis by (subst read_quoted.simps) simp
  qed
qed

lemma read_quoted_text: "read_quoted (concat (map json_char s) @ CHR 0x22 # r) = Some (s, r)"
  by (induction s) (simp_all add: read_quoted_char, subst read_quoted.simps, simp)

lemma read_strings_text:
  "ss \<noteq> [] \<Longrightarrow> read_strings (join_with '','' (map json_quote ss) @ '']'') = Some ss"
proof (induction ss)
  case (Cons s ss)
  show ?case
  proof (cases ss)
    case Nil
    then show ?thesis by (subst read_strings.simps) (simp add: json_quote_def read_quoted_text)
  next
    case more: (Cons s' ss')
    let ?r = "join_with '','' (map json_quote ss) @ '']''"
    have "join_with '','' (map json_quote (s # ss)) @ '']'' = CHR 0x22 # concat (map json_char s) @ CHR 0x22 # CHR '','' # ?r"
      by (simp add: more json_quote_def)
    then show ?thesis using Cons.IH more
      by (subst read_strings.simps) (simp add: read_quoted_text)
  qed
qed simp

theorem parse_json_strings: "parse_json other (json_text num (J_Arr (map J_Str ss))) = Some (J_Arr (map J_Str ss))"
proof (cases ss)
  case (Cons s ss')
  have "json_text num (J_Arr (map J_Str ss)) = CHR ''['' # join_with '','' (map json_quote ss) @ '']''"
    by (simp add: comp_def)
  moreover have "join_with '','' (map json_quote ss) \<noteq> []"
    using Cons by (cases ss') (simp_all add: json_quote_def)
  ultimately show ?thesis using read_strings_text [of ss] Cons by (simp add: parse_json_def)
qed (simp add: parse_json_def)

end
