(* ===== verification/Amounts.thy ===== *)
theory Amounts
  imports Datetime
begin

text \<open>
  What people type (\<open>packages/app-core/src/format.ts\<close>): amounts and numbers in the active locale, phone numbers,
  names. The locale's separators and currency signs, which the code takes from \<open>Intl\<close>, are a record. Numbers are
  exact rationals: the code's doubles agree on amounts of at most fifteen digits.
\<close>

section \<open>Amounts\<close>

record amount_locale =
  lo_group :: string
  lo_decimal :: string
  lo_signs :: "string list" \<comment> \<open>longest first\<close>
  lo_digits :: nat \<comment> \<open>of the currency's minor unit\<close>

definition starts_with :: "string \<Rightarrow> string \<Rightarrow> bool" where
  "starts_with sub s \<longleftrightarrow> take (length sub) s = sub"

text \<open>\<open>s.split(sub).join("")\<close>.\<close>

function remove_all :: "string \<Rightarrow> string \<Rightarrow> string" where
  "remove_all sub s =
    (if sub = [] then s
     else case s of
            [] \<Rightarrow> []
          | c # cs \<Rightarrow> if starts_with sub s then remove_all sub (drop (length sub) s) else c # remove_all sub cs)"
  by pat_completeness auto
termination by (relation "measure (\<lambda>(sub, s). length s)") auto

declare remove_all.simps [simp del]

text \<open>\<open>s.replace(sub, by)\<close>: the first occurrence.\<close>

fun replace_one :: "string \<Rightarrow> string \<Rightarrow> string \<Rightarrow> string" where
  "replace_one sub new [] = (if sub = [] then new else [])"
| "replace_one sub new (c # cs) = (if starts_with sub (c # cs) then new @ drop (length sub) (c # cs) else c # replace_one sub new cs)"

text \<open>\<open>Number\<close> of a text of the form \<open>-?(\d+\.?\d*|\.\d+)\<close>, \<open>None\<close> for any other.\<close>

definition plain_number :: "string \<Rightarrow> rat option" where
  "plain_number s =
    (let negative = (take 1 s = ''-''); body = (if negative then drop 1 s else s);
         whole = takeWhile is_digit body; rest = dropWhile is_digit body;
         part = (if take 1 rest = ''.'' then drop 1 rest else [])
     in if (rest = [] \<or> take 1 rest = ''.'') \<and> (\<forall>c\<in>set part. is_digit c) \<and> (whole \<noteq> [] \<or> part \<noteq> [])
        then Some ((if negative then -1 else 1) * (of_int (decimal (whole @ part)) / 10 ^ length part)) else None)"

definition parse_number :: "amount_locale \<Rightarrow> string \<Rightarrow> rat option" where
  "parse_number lo value =
    (let plain = filter (\<lambda>c. \<not> is_space c) value;
         plain1 = (if lo_group lo \<noteq> [] then remove_all (lo_group lo) plain else plain)
     in plain_number (replace_one (lo_decimal lo) ''.'' plain1))"

text \<open>Amounts are exact here. The code multiplies and rounds floating point numbers, which can differ for a text with more
  decimals than the currency has (1.005 comes to 100 there).\<close>

definition parse_cents :: "amount_locale \<Rightarrow> string \<Rightarrow> int option" where
  "parse_cents lo value =
    (case parse_number lo (foldl (\<lambda>text sign. remove_all sign text) value (lo_signs lo)) of
       None \<Rightarrow> None
     | Some n \<Rightarrow> if n < 0 then None else Some (js_round (n * 10 ^ lo_digits lo)))"

text \<open>\<open>formatAmountInput\<close> of an amount that is not negative: no grouping, all digits of the minor unit.\<close>

definition format_amount_input :: "amount_locale \<Rightarrow> int \<Rightarrow> string" where
  "format_amount_input lo cents =
    int_string (cents div 10 ^ lo_digits lo)
    @ (if lo_digits lo = 0 then [] else lo_decimal lo @ pad_to (lo_digits lo) (int_string (cents mod 10 ^ lo_digits lo)))"

text \<open>\<open>formatNumber\<close> without grouping: at most three decimals, the half away from zero, and no zero at the end.\<close>

definition format_decimal :: "amount_locale \<Rightarrow> rat \<Rightarrow> string" where
  "format_decimal lo x =
    (let n = \<lfloor>\<bar>x\<bar> * 1000 + 1 / 2\<rfloor>; part = rev (dropWhile (\<lambda>c. c = CHR ''0'') (rev (pad_to 3 (int_string (n mod 1000)))))
     in (if x < 0 then ''-'' else []) @ int_string (n div 1000) @ (if part = [] then [] else lo_decimal lo @ part))"

section \<open>Phones and names\<close>

text \<open>\<open>phoneDigits\<close>: a leading 1 before ten digits is dropped.\<close>

definition phone_digits :: "string \<Rightarrow> string" where
  "phone_digits value =
    (let ds = filter is_digit value in if length ds = 11 \<and> take 1 ds = ''1'' then drop 1 ds else ds)"

definition normalize_phone :: "string \<Rightarrow> string option" where
  "normalize_phone value =
    (let raw = js_trim value; international = (take 1 raw = ''+'');
         ds = filter is_digit raw;
         digits = (if \<not> international \<and> length ds = 10 then ''1'' @ ds else ds)
     in if international \<and> 8 \<le> length digits \<and> length digits \<le> 15 \<and> take 1 digits \<noteq> ''0'' then Some (''+'' @ digits)
        else if length digits = 11 \<and> take 1 digits = ''1'' \<and> take 1 (drop 1 digits) \<notin> {''0'', ''1''}
        then Some (''+'' @ digits) else None)"

definition format_phone :: "string \<Rightarrow> string" where
  "format_phone raw =
    (let d = phone_digits raw; r = js_trim raw; elsewhere = (take 1 r = ''+'' \<and> take 1 (drop 1 r) \<noteq> ''1'')
     in if length d \<noteq> 10 \<or> elsewhere then raw
        else ''('' @ take 3 d @ '') '' @ take 3 (drop 3 d) @ ''-'' @ drop 6 d)"

definition blank_to_null :: "string \<Rightarrow> string option" where
  "blank_to_null value = (if js_trim value \<noteq> [] then Some (js_trim value) else None)"

text \<open>\<open>trim().split(/\s+/)[0]\<close>.\<close>

definition first_name :: "string \<Rightarrow> string" where
  "first_name name = takeWhile (\<lambda>c. \<not> is_space c) (js_trim name)"

text \<open>\<open>includes\<close> after \<open>toLowerCase\<close>, on the ASCII letters.\<close>

definition lower_char :: "char \<Rightarrow> char" where
  "lower_char c = (let n = (of_char c :: nat) in if 65 \<le> n \<and> n \<le> 90 then char_of (n + 32) else c)"

fun includes_text :: "string \<Rightarrow> string \<Rightarrow> bool" where
  "includes_text sub [] \<longleftrightarrow> sub = []"
| "includes_text sub (c # cs) \<longleftrightarrow> starts_with sub (c # cs) \<or> includes_text sub cs"

section \<open>An amount reads back\<close>

text \<open>What is asked of a locale: separators and signs that are no digits, no sign inside a written amount.\<close>

definition plain_locale :: "amount_locale \<Rightarrow> bool" where
  "plain_locale lo \<longleftrightarrow> length (lo_decimal lo) = 1 \<and> \<not> is_digit (hd (lo_decimal lo)) \<and> \<not> is_space (hd (lo_decimal lo))
    \<and> (\<forall>s\<in>insert (lo_group lo) (set (lo_signs lo)). s \<noteq> [] \<longrightarrow> \<not> is_digit (hd s) \<and> hd s \<noteq> hd (lo_decimal lo))"

lemma remove_all_absent: "\<forall>c\<in>set s. sub \<noteq> [] \<longrightarrow> hd sub \<noteq> c \<Longrightarrow> remove_all sub s = s"
proof (induction s)
  case (Cons c s)
  then have "\<not> (sub \<noteq> [] \<and> starts_with sub (c # s))" by (cases sub) (auto simp: starts_with_def)
  then show ?case using Cons by (subst remove_all.simps) auto
qed (simp add: remove_all.simps)

lemma digit_not_space: "is_digit c \<Longrightarrow> \<not> is_space c"
  by (auto simp: is_digit_def is_space_def)

lemma replace_one_found: "x \<notin> set xs \<Longrightarrow> replace_one [x] new (xs @ x # ys) = xs @ new @ ys"
  by (induction xs) (auto simp: starts_with_def)

lemma replace_one_absent: "x \<notin> set xs \<Longrightarrow> replace_one [x] new xs = xs"
  by (induction xs) (auto simp: starts_with_def)

lemma plain_number_digits:
  assumes "\<forall>c\<in>set a. is_digit c" "\<forall>c\<in>set b. is_digit c" "a \<noteq> []"
  shows "plain_number (a @ (if b = [] then [] else CHR ''.'' # b)) = Some (of_int (decimal (a @ b)) / 10 ^ length b)"
proof -
  obtain d a' where a: "a = d # a'" by (cases a) (use assms(3) in auto)
  have d: "is_digit d" "d \<noteq> CHR ''-''" using assms(1) by (auto simp: a is_digit_def)
  have dot: "\<not> is_digit (CHR ''.'')" by (simp add: is_digit_def)
  have tail: "takeWhile is_digit (a' @ CHR ''.'' # b) = a'" "dropWhile is_digit (a' @ CHR ''.'' # b) = CHR ''.'' # b"
    "takeWhile is_digit a' = a'" "dropWhile is_digit a' = []"
    using assms(1) dot by (auto simp: a takeWhile_append2 dropWhile_append2)
  show ?thesis
  proof (cases "b = []")
    case True
    then show ?thesis using d assms(1) by (simp add: a plain_number_def Let_def tail(3,4))
  next
    case False
    then show ?thesis using d assms(2) by (simp add: a plain_number_def Let_def tail(1,2))
  qed
qed

lemma decimal_append: "decimal (a @ b) = decimal a * 10 ^ length b + decimal b"
proof (induction b rule: rev_induct)
  case (snoc c b)
  then show ?case by (simp add: decimal_snoc flip: append_assoc)
qed (simp add: decimal_def)

lemma length_dec_bound: "n < 10 ^ Suc k \<Longrightarrow> length (dec n) \<le> Suc k"
proof (induction k arbitrary: n)
  case 0
  then show ?case by (subst dec.simps) simp
next
  case (Suc k)
  show ?case
  proof (cases "n < 10")
    case False
    have "n div 10 < 10 ^ Suc k" using Suc.prems by (simp add: less_mult_imp_div_less)
    from Suc.IH [OF this] show ?thesis using False by (subst dec.simps) simp
  qed (subst dec.simps, simp)
qed

lemma padded_digits:
  assumes "0 \<le> n" "n < 10 ^ k" "0 < k"
  shows "length (pad_to k (int_string n)) = k" "\<forall>c\<in>set (pad_to k (int_string n)). is_digit c" "decimal (pad_to k (int_string n)) = n"
proof -
  obtain j where k: "k = Suc j" using assms(3) by (cases k) auto
  have "nat n < 10 ^ Suc j" using assms(1,2) k by (simp add: nat_less_iff)
  from length_dec_bound [OF this] have "length (int_string n) \<le> k" using assms(1) by (simp add: int_string_def k)
  then show "length (pad_to k (int_string n)) = k" by (simp add: pad_to_def)
  show "\<forall>c\<in>set (pad_to k (int_string n)). is_digit c" "decimal (pad_to k (int_string n)) = n"
    using int_string_number [OF assms(1)] zero_digit by (auto simp: pad_to_def decimal_zeros)
qed

text \<open>An amount field that is filled with an amount in cents is read back as that amount, to the cent, in every
  locale whose separators and currency signs are no digits, and for currencies with any minor unit.\<close>

theorem amount_input_roundtrip:
  assumes "plain_locale lo" "0 \<le> cents"
  shows "parse_cents lo (format_amount_input lo cents) = Some cents"
proof -
  let ?k = "lo_digits lo"
  define a where "a = int_string (cents div 10 ^ ?k)"
  define b where "b = (if ?k = 0 then [] else pad_to ?k (int_string (cents mod 10 ^ ?k)))"
  obtain x where x: "lo_decimal lo = [x]" "\<not> is_digit x" "\<not> is_space x"
    using assms(1) by (cases "lo_decimal lo") (auto simp: plain_locale_def)
  have digits_a: "\<forall>c\<in>set a. is_digit c" "decimal a = cents div 10 ^ ?k" "a \<noteq> []"
    using int_string_number(2,3) [of "cents div 10 ^ ?k"] assms(2) dec_not_Nil by (simp_all add: pos_imp_zdiv_nonneg_iff int_string_def a_def)
  have digits_b: "\<forall>c\<in>set b. is_digit c" "decimal b = cents mod 10 ^ ?k" "length b = ?k"
    using padded_digits [of "cents mod 10 ^ ?k" ?k] by (auto simp: decimal_def b_def)
  have shape: "format_amount_input lo cents = a @ (if b = [] then [] else x # b)"
    using digits_b(3) by (auto simp: format_amount_input_def x a_def b_def)
  have chars: "is_digit c \<or> c = x" if "c \<in> set (format_amount_input lo cents)" for c
    using that digits_a(1) digits_b(1) by (auto simp: shape split: if_splits)
  have absent: "remove_all s (format_amount_input lo cents) = format_amount_input lo cents"
    if "s = lo_group lo \<or> s \<in> set (lo_signs lo)" for s
    using that chars assms(1) by (intro remove_all_absent) (auto simp: plain_locale_def x)
  have "foldl (\<lambda>text sign. remove_all sign text) (format_amount_input lo cents) ss = format_amount_input lo cents"
    if "set ss \<subseteq> set (lo_signs lo)" for ss
    using that absent by (induction ss) auto
  then have signs: "foldl (\<lambda>text sign. remove_all sign text) (format_amount_input lo cents) (lo_signs lo) = format_amount_input lo cents"
    by blast
  have spaces: "filter (\<lambda>c. \<not> is_space c) (format_amount_input lo cents) = format_amount_input lo cents"
    using chars digit_not_space x(3) by (intro filter_True) blast
  have "x \<notin> set a" "x \<notin> set b" using digits_a(1) digits_b(1) x(2) by blast+
  then have "replace_one [x] ''.'' (format_amount_input lo cents) = a @ (if b = [] then [] else CHR ''.'' # b)"
    using replace_one_found [of x a "''.''" b] replace_one_absent [of x a] by (cases "b = []") (simp_all add: shape)
  then have "parse_number lo (format_amount_input lo cents) = Some (of_int (decimal (a @ b)) / 10 ^ length b)"
    using plain_number_digits [OF digits_a(1) digits_b(1) digits_a(3)] absent spaces by (simp only: parse_number_def Let_def x) simp
  also have "decimal (a @ b) = cents" by (simp only: decimal_append digits_a(2) digits_b(2,3) div_mult_mod_eq)
  finally show ?thesis using assms(2) digits_b(3) by (simp add: parse_cents_def signs not_less)
qed

text \<open>What is written with digits and the locale's sign is read as the number it writes.\<close>

lemma parse_number_written:
  assumes "plain_locale lo" "\<forall>c\<in>set a. is_digit c" "\<forall>c\<in>set b. is_digit c" "a \<noteq> []"
  shows "parse_number lo (a @ (if b = [] then [] else lo_decimal lo @ b)) = Some (of_int (decimal (a @ b)) / 10 ^ length b)"
proof -
  obtain x where x: "lo_decimal lo = [x]" "\<not> is_digit x" "\<not> is_space x"
    using assms(1) by (cases "lo_decimal lo") (auto simp: plain_locale_def)
  let ?t = "a @ (if b = [] then [] else x # b)"
  have chars: "is_digit c \<or> c = x" if "c \<in> set ?t" for c using that assms(2,3) by (auto split: if_splits)
  have "remove_all (lo_group lo) ?t = ?t"
    using assms(1-3) by (intro remove_all_absent) (auto simp: plain_locale_def x)
  moreover have "filter (\<lambda>c. \<not> is_space c) ?t = ?t" using chars digit_not_space x(3) by (intro filter_True) blast
  moreover have "x \<notin> set a" "x \<notin> set b" using assms(2,3) x(2) by blast+
  then have "replace_one [x] ''.'' ?t = a @ (if b = [] then [] else CHR ''.'' # b)"
    using replace_one_found [of x a "''.''" b] replace_one_absent [of x a] by (cases "b = []") simp_all
  ultimately have "parse_number lo ?t = plain_number (a @ (if b = [] then [] else CHR ''.'' # b))"
    by (simp only: parse_number_def Let_def x(1) if_cancel)
  then show ?thesis using plain_number_digits [OF assms(2-4)] by (cases "b = []") (simp_all add: x(1))
qed

lemma trim_zeros:
  fixes ds defines "fr \<equiv> rev (dropWhile (\<lambda>c. c = CHR ''0'') (rev ds))"
  obtains k where "ds = fr @ replicate k (CHR ''0'')"
proof -
  let ?z = "takeWhile (\<lambda>c. c = CHR ''0'') (rev ds)"
  have "ds = rev (?z @ dropWhile (\<lambda>c. c = CHR ''0'') (rev ds))" by simp
  also have "\<dots> = fr @ rev ?z" unfolding rev_append fr_def by simp
  finally have "ds = fr @ rev ?z" .
  moreover have "rev ?z = replicate (length ?z) (CHR ''0'')"
    by (rule replicate_eqI) (auto dest: set_takeWhileD)
  ultimately show thesis using that by metis
qed

lemma decimal_replicate_zero: "decimal (replicate k (CHR ''0'')) = 0"
  using decimal_zeros [of k "[]"] by (simp add: decimal_def)

text \<open>A number of at most three decimals that is not negative is read back as it was printed.\<close>

lemma format_decimal_back:
  assumes "plain_locale lo" "0 \<le> x" "x * 1000 = of_int \<lfloor>x * 1000\<rfloor>"
  shows "parse_number lo (format_decimal lo x) = Some x" "format_decimal lo x \<noteq> []" "is_digit (hd (format_decimal lo x))"
proof -
  define n where "n = \<lfloor>x * 1000\<rfloor>"
  have "\<lfloor>\<bar>x\<bar> * 1000 + 1 / 2\<rfloor> = n" using assms(2,3) unfolding n_def by (simp add: floor_unique)
  define a where "a = int_string (n div 1000)"
  define ds where "ds = pad_to 3 (int_string (n mod 1000))"
  define fr where "fr = rev (dropWhile (\<lambda>c. c = CHR ''0'') (rev ds))"
  have n: "0 \<le> n" using assms(2) by (simp add: n_def)
  have shape: "format_decimal lo x = a @ (if fr = [] then [] else lo_decimal lo @ fr)"
    using assms(2) \<open>\<lfloor>\<bar>x\<bar> * 1000 + 1 / 2\<rfloor> = n\<close> by (simp add: format_decimal_def Let_def a_def ds_def fr_def)
  have digits_a: "\<forall>c\<in>set a. is_digit c" "decimal a = n div 1000" "a \<noteq> []"
    using int_string_number(2,3) [of "n div 1000"] n dec_not_Nil by (simp_all add: pos_imp_zdiv_nonneg_iff int_string_def a_def)
  have digits: "length ds = 3" "\<forall>c\<in>set ds. is_digit c" "decimal ds = n mod 1000"
    using padded_digits [of "n mod 1000" 3] by (simp_all add: ds_def)
  obtain k where k: "ds = fr @ replicate k (CHR ''0'')" unfolding fr_def by (rule trim_zeros)
  then have fr: "\<forall>c\<in>set fr. is_digit c" "length fr + k = 3" "decimal fr * 10 ^ k = n mod 1000"
    using digits by (auto simp: decimal_append decimal_replicate_zero)
  have "parse_number lo (format_decimal lo x) = Some (of_int (decimal (a @ fr)) / 10 ^ length fr)"
    unfolding shape by (rule parse_number_written [OF assms(1) digits_a(1) fr(1) digits_a(3)])
  moreover have "of_int (decimal (a @ fr)) / 10 ^ length fr = (of_int (decimal (a @ fr) * 10 ^ k) / 1000 :: rat)"
  proof -
    have thousand: "(1000 :: rat) = 10 ^ length fr * 10 ^ k" using fr(2) by (simp flip: power_add)
    show ?thesis unfolding thousand by simp
  qed
  moreover have "decimal (a @ fr) * 10 ^ k = n"
  proof -
    have "(10 :: int) ^ length fr * 10 ^ k = 1000" using fr(2) by (simp flip: power_add)
    then have "decimal (a @ fr) * 10 ^ k = n div 1000 * 1000 + decimal fr * 10 ^ k"
      by (simp add: decimal_append digits_a(2) distrib_right mult.assoc)
    then show ?thesis by (simp add: fr(3))
  qed
  ultimately show "parse_number lo (format_decimal lo x) = Some x" using assms(3) by (simp add: n_def [symmetric] field_simps)
  show "format_decimal lo x \<noteq> []" "is_digit (hd (format_decimal lo x))" using digits_a(1,3) by (simp_all add: shape)
qed

definition canadian :: amount_locale where
  "canadian = \<lparr>lo_group = '','', lo_decimal = ''.'', lo_signs = [''CAD'', ''$''], lo_digits = 2\<rparr>"

theorem amount_input_roundtrip_witness: "parse_cents canadian (format_amount_input canadian 125005) = Some 125005"
  by (rule amount_input_roundtrip) (simp_all add: canadian_def plain_locale_def is_digit_def is_space_def)

lemma typed_amount: "parse_cents canadian '' $1,250.5 '' = Some 125050" "parse_cents canadian ''-3'' = None"
  "parse_cents canadian ''.'' = None" "parse_cents canadian [] = None"
  by code_simp+

section \<open>A phone number stays what it is\<close>

lemma js_trim_plus: "\<forall>c\<in>set ds. is_digit c \<Longrightarrow> ds \<noteq> [] \<Longrightarrow> js_trim (CHR ''+'' # ds) = CHR ''+'' # ds"
proof -
  assume ds: "\<forall>c\<in>set ds. is_digit c" "ds \<noteq> []"
  then obtain xs x where d: "ds = xs @ [x]" by (metis rev_exhaust)
  then show ?thesis using ds digit_not_space [of x] by (simp add: js_trim_def is_space_def)
qed

text \<open>A normalised number is normal: sending it again, or filling a field with it, changes nothing.\<close>

lemma normalize_phone_again:
  assumes "normalize_phone value = Some y"
  shows "normalize_phone y = Some y"
proof -
  obtain ds where y: "y = ''+'' @ ds" and ds: "\<forall>c\<in>set ds. is_digit c" and
    ok: "8 \<le> length ds \<and> length ds \<le> 15 \<and> take 1 ds \<noteq> ''0'' \<or> length ds = 11 \<and> take 1 ds = ''1''"
    using assms by (auto simp: normalize_phone_def Let_def is_digit_def split: if_splits)
  have "ds \<noteq> []" using ok by auto
  have plus: "\<not> is_digit (CHR ''+'')" by (simp add: is_digit_def)
  have "filter is_digit ds = ds" using ds by simp
  then show ?thesis
    using ok plus js_trim_plus [OF ds \<open>ds \<noteq> []\<close>] by (auto simp: normalize_phone_def y Let_def)
qed

end
