(* ===== verification/Shop.thy ===== *)
theory Shop
  imports Attempts Timestamps Json_Texts Amounts
begin

text \<open>
  The public shop (\<open>app-core/src/domain/publicShop.ts\<close>, \<open>publicResource.ts\<close>): the cart, the order a visitor
  places, and what the page keeps in the browser so that an order survives a reload. A page is followed by its
  React effects (\<open>settle\<close>), the browser's storage is an insertion-ordered map of texts that are JSON or not,
  and an order is the JSON value the server answered with. Captions, labels and formatted times are left out.
\<close>

section \<open>What the page loads\<close>

datatype load_status = Loading | Not_Found | Load_Error | Ready

record 'a resource =
  rc_data :: "'a option"
  rc_loading :: bool
  rc_not_found :: bool
  rc_failed :: bool

definition resource_initial :: "'a resource" where
  "resource_initial = \<lparr>rc_data = None, rc_loading = True, rc_not_found = False, rc_failed = False\<rparr>"

text \<open>\<open>retry\<close>: the effect starts another load.\<close>

definition resource_retry :: "'a resource \<Rightarrow> 'a resource" where
  "resource_retry r = r\<lparr>rc_loading := True, rc_failed := False\<rparr>"

definition resource_loaded :: "'a \<Rightarrow> 'a resource \<Rightarrow> 'a resource" where
  "resource_loaded d r = r\<lparr>rc_data := Some d, rc_loading := False\<rparr>"

definition resource_broke :: "json \<Rightarrow> 'a resource \<Rightarrow> 'a resource" where
  "resource_broke e r =
    (if failed_status e = Some 404 then r\<lparr>rc_not_found := True, rc_loading := False\<rparr>
     else r\<lparr>rc_failed := True, rc_loading := False\<rparr>)"

definition resource_status :: "'a resource \<Rightarrow> load_status" where
  "resource_status r =
    (if rc_loading r then Loading else if rc_not_found r then Not_Found
     else if rc_failed r \<or> rc_data r = None then Load_Error else Ready)"

record shop_item =
  si_id :: string
  si_parent :: "string option"
  si_name :: string
  si_description :: "string option"
  si_price :: int
  si_currency :: string
  si_taxable :: bool
  si_in_stock :: bool
  si_category :: "string option"
  si_stock_left :: "int option"

record shop_info =
  sh_items :: "shop_item list"
  sh_charges_tax :: bool

record pickup_window =
  pw_starts :: string
  pw_ends :: string

record pickup_days =
  pd_windows :: "pickup_window list"
  pd_hold_days :: int
  pd_timezone :: string

section \<open>The cart\<close>

type_synonym cart = "(string, int) js_map"

definition in_cart :: "cart \<Rightarrow> string \<Rightarrow> int" where
  "in_cart c item = (case map_of c item of Some n \<Rightarrow> n | None \<Rightarrow> 0)"

definition cart_subtotal :: "shop_item list \<Rightarrow> cart \<Rightarrow> int" where
  "cart_subtotal items c = sum_list (map (\<lambda>i. si_price i * in_cart c (si_id i)) items)"

definition product_count :: "shop_item list \<Rightarrow> cart \<Rightarrow> string \<Rightarrow> int" where
  "product_count items c product =
    sum_list (map (\<lambda>i. in_cart c (si_id i)) (filter (\<lambda>i. si_id i = product \<or> si_parent i = Some product) items))"

definition max_each :: int where
  "max_each = 20"

definition change_cart :: "string \<Rightarrow> int \<Rightarrow> cart \<Rightarrow> cart" where
  "change_cart item n c =
    (if n > 0 then AList.update item (min n 20) c else filter (\<lambda>e. fst e \<noteq> item) c)"

record order_figures =
  of_subtotal :: "int option"
  of_tax :: "int option"
  of_total :: int

datatype shop_total = Shop_Estimate int | Shop_Subtotal int | Shop_Tax int | Shop_Total int

definition shop_total_lines :: "int \<Rightarrow> order_figures option \<Rightarrow> shop_total list" where
  "shop_total_lines subtotal order =
    (case order of
       None \<Rightarrow> [Shop_Estimate subtotal]
     | Some f \<Rightarrow>
         Shop_Subtotal (case of_subtotal f of Some s \<Rightarrow> s | None \<Rightarrow> subtotal)
         # (case of_tax f of Some t \<Rightarrow> if t > 0 then [Shop_Tax t] else [] | None \<Rightarrow> [])
         @ [Shop_Total (of_total f)])"

section \<open>The browser's storage\<close>

datatype stored = Json_Item json | Other_Item string

record storage =
  sg_readable :: bool
  sg_writable :: bool
  sg_items :: "(string, stored) js_map"

text \<open>\<open>JSON.parse(storage?.getItem(key) ?? dflt)\<close>, \<open>None\<close> where it throws; a store that is missing or cannot be read
  holds nothing.\<close>

definition parse_item :: "storage \<Rightarrow> string \<Rightarrow> json \<Rightarrow> json option" where
  "parse_item sg k dflt =
    (case (if sg_readable sg then map_of (sg_items sg) k else None) of
       None \<Rightarrow> Some dflt | Some (Json_Item v) \<Rightarrow> Some v | Some (Other_Item t) \<Rightarrow> None)"

definition write_item :: "string \<Rightarrow> json \<Rightarrow> storage \<Rightarrow> storage" where
  "write_item k v sg = (if sg_writable sg then sg\<lparr>sg_items := AList.update k (Json_Item v) (sg_items sg)\<rparr> else sg)"

definition remove_item :: "string \<Rightarrow> storage \<Rightarrow> storage" where
  "remove_item k sg = (if sg_writable sg then sg\<lparr>sg_items := filter (\<lambda>e. fst e \<noteq> k) (sg_items sg)\<rparr> else sg)"

fun json_entries :: "json \<Rightarrow> (string \<times> json) list" where
  "json_entries (J_Obj ms) = from_entries ms"
| "json_entries _ = []"

definition cart_key :: "string \<Rightarrow> string" where
  "cart_key slug = ''connect-cart:'' @ slug"

definition draft_key :: "string \<Rightarrow> string" where
  "draft_key slug = ''connect-checkout:'' @ slug"

definition order_key :: "string \<Rightarrow> string" where
  "order_key slug = ''connect-order:'' @ slug"

fun cart_entry :: "string \<times> json \<Rightarrow> (string \<times> int) option" where
  "cart_entry (k, J_Num n) = (if of_int \<lfloor>n\<rfloor> = n \<and> 0 < n \<and> n \<le> 20 then Some (k, \<lfloor>n\<rfloor>) else None)"
| "cart_entry e = None"

definition stored_cart :: "string \<Rightarrow> storage \<Rightarrow> cart" where
  "stored_cart slug sg =
    (case parse_item sg (cart_key slug) (J_Obj []) of
       None \<Rightarrow> [] | Some raw \<Rightarrow> from_entries (List.map_filter cart_entry (json_entries raw)))"

fun draft_entry :: "string \<times> json \<Rightarrow> (string \<times> string) option" where
  "draft_entry (f, J_Str s) = Some (f, s)"
| "draft_entry e = None"

definition read_draft :: "string \<Rightarrow> storage \<Rightarrow> (string, string) js_map" where
  "read_draft k sg =
    (case parse_item sg k (J_Obj []) of
       None \<Rightarrow> [] | Some raw \<Rightarrow> from_entries (List.map_filter draft_entry (json_entries raw)))"

definition write_draft :: "string \<Rightarrow> (string, string) js_map option \<Rightarrow> storage \<Rightarrow> storage" where
  "write_draft k d sg =
    (case d of Some fs \<Rightarrow> write_item k (J_Obj (map (\<lambda>(f, s). (f, J_Str s)) fs)) sg | None \<Rightarrow> remove_item k sg)"

text \<open>An order that can still be taken up again.\<close>

definition resume_ms :: rat where
  "resume_ms = 25 * 60 * 1000"

record pending_order =
  po_attempt :: "string attempt"
  po_placed_at :: rat
  po_order :: "json option"

fun is_str :: "json option \<Rightarrow> bool" where
  "is_str (Some (J_Str _)) = True"
| "is_str _ = False"

fun is_num :: "json option \<Rightarrow> bool" where
  "is_num (Some (J_Num _)) = True"
| "is_num _ = False"

definition is_order :: "json \<Rightarrow> bool" where
  "is_order v \<longleftrightarrow> is_str (json_member ''order_id'' v) \<and> is_str (json_member ''client_secret'' v)
    \<and> is_str (json_member ''stripe_account_id'' v) \<and> is_num (json_member ''total_cents'' v)
    \<and> is_str (json_member ''currency'' v)"

definition stored_pending :: "int \<Rightarrow> string \<Rightarrow> storage \<Rightarrow> pending_order option" where
  "stored_pending now k sg =
    (case parse_item sg k J_Null of
       None \<Rightarrow> None
     | Some raw \<Rightarrow>
       (case json_member ''placedAt'' raw of
          Some (J_Num t) \<Rightarrow>
            if of_int now - t > resume_ms then None
            else (case Option.bind (json_member ''attempt'' raw) (json_member ''key'') of
                    Some (J_Str i) \<Rightarrow>
                      (case Option.bind (json_member ''attempt'' raw) (json_member ''request'') of
                         Some (J_Str r) \<Rightarrow>
                           Some \<lparr>po_attempt = \<lparr>at_key = i, at_request = r\<rparr>, po_placed_at = t,
                                 po_order = (case json_member ''order'' raw of
                                   Some v \<Rightarrow> if is_order v then Some v else None | None \<Rightarrow> None)\<rparr>
                       | _ \<Rightarrow> None)
                  | _ \<Rightarrow> None)
        | _ \<Rightarrow> None))"

definition pending_json :: "pending_order \<Rightarrow> json" where
  "pending_json p = J_Obj
    [(''attempt'', J_Obj [(''key'', J_Str (at_key (po_attempt p))), (''request'', J_Str (at_request (po_attempt p)))]),
     (''placedAt'', J_Num (po_placed_at p)),
     (''order'', case po_order p of Some v \<Rightarrow> v | None \<Rightarrow> J_Null)]"

definition save_pending :: "string \<Rightarrow> pending_order option \<Rightarrow> storage \<Rightarrow> storage" where
  "save_pending k pending sg =
    (case pending of None \<Rightarrow> remove_item k sg | Some p \<Rightarrow> write_item k (pending_json p) sg)"

section \<open>The order page\<close>

record shop_page =
  sp_shop :: "shop_info resource"
  sp_pickup :: "pickup_days resource"
  sp_cart :: cart
  sp_name :: string
  sp_phone :: string
  sp_note :: string
  sp_pickup_from :: string
  sp_sms :: bool
  sp_order :: "json option"
  sp_paid :: bool
  sp_key :: "string attempt option"
  sp_placed_at :: rat
  sp_action :: async_action

definition draft_field :: "string \<Rightarrow> (string, string) js_map \<Rightarrow> string" where
  "draft_field f d = (case map_of d f of Some v \<Rightarrow> v | None \<Rightarrow> [])"

text \<open>The page as it opens, from what the storage holds.\<close>

definition open_page :: "string \<Rightarrow> int \<Rightarrow> storage \<Rightarrow> shop_page" where
  "open_page slug now sg =
    (let draft = read_draft (draft_key slug) sg; pending = stored_pending now (order_key slug) sg
     in \<lparr>sp_shop = resource_initial, sp_pickup = resource_initial, sp_cart = stored_cart slug sg,
         sp_name = draft_field ''name'' draft, sp_phone = draft_field ''phone'' draft,
         sp_note = draft_field ''note'' draft, sp_pickup_from = draft_field ''pickupFrom'' draft,
         sp_sms = (map_of draft ''notifySms'' \<noteq> Some ''false''),
         sp_order = Option.bind pending po_order, sp_paid = False,
         sp_key = map_option po_attempt pending,
         sp_placed_at = (case pending of Some p \<Rightarrow> po_placed_at p | None \<Rightarrow> 0),
         sp_action = idle_action\<rparr>)"

text \<open>The effects: a pickup window that is gone is dropped, the cart and the form are kept in the storage.\<close>

definition pickup_effect :: "shop_page \<Rightarrow> shop_page" where
  "pickup_effect p =
    (case rc_data (sp_pickup p) of
       Some d \<Rightarrow> if sp_pickup_from p \<noteq> [] \<and> \<not> (\<exists>w\<in>set (pd_windows d). pw_starts w = sp_pickup_from p)
                 then p\<lparr>sp_pickup_from := []\<rparr> else p
     | None \<Rightarrow> p)"

definition cart_json :: "cart \<Rightarrow> json" where
  "cart_json c = J_Obj (map (\<lambda>(k, n). (k, J_Num (of_int n))) c)"

definition cart_effect :: "string \<Rightarrow> shop_page \<Rightarrow> storage \<Rightarrow> storage" where
  "cart_effect slug p = write_item (cart_key slug) (cart_json (sp_cart p))"

definition draft_of :: "shop_page \<Rightarrow> (string, string) js_map" where
  "draft_of p =
    [(''name'', sp_name p), (''phone'', sp_phone p), (''note'', sp_note p), (''pickupFrom'', sp_pickup_from p),
     (''notifySms'', if sp_sms p then ''true'' else ''false'')]"

definition draft_effect :: "string \<Rightarrow> shop_page \<Rightarrow> storage \<Rightarrow> storage" where
  "draft_effect slug p = write_draft (draft_key slug) (if sp_paid p then None else Some (draft_of p))"

definition settle :: "string \<Rightarrow> shop_page \<times> storage \<Rightarrow> shop_page \<times> storage" where
  "settle slug s =
    (case s of (p, sg) \<Rightarrow>
       let q = pickup_effect p in (q, draft_effect slug q (cart_effect slug q sg)))"

definition set_quantity :: "string \<Rightarrow> int \<Rightarrow> shop_page \<Rightarrow> shop_page" where
  "set_quantity item n p = p\<lparr>sp_key := None, sp_cart := change_cart item n (sp_cart p)\<rparr>"

definition can_order :: "shop_page \<Rightarrow> bool" where
  "can_order p \<longleftrightarrow> sp_cart p \<noteq> [] \<and> js_trim (sp_name p) \<noteq> [] \<and> js_trim (sp_phone p) \<noteq> []"

text \<open>The text of the request that identifies an attempt, and the request that is sent.\<close>

definition request_json :: "shop_page \<Rightarrow> json" where
  "request_json p = J_Obj
    [(''name'', J_Str (js_trim (sp_name p))), (''phone'', J_Str (js_trim (sp_phone p))),
     (''lines'', J_Arr (map (\<lambda>(k, n). J_Obj [(''itemId'', J_Str k), (''quantity'', J_Num (of_int n))]) (sp_cart p))),
     (''pickupFrom'', J_Str (sp_pickup_from p)), (''note'', J_Str (js_trim (sp_note p))),
     (''notifySms'', J_Bool (sp_sms p))]"

record order_body =
  od_name :: string
  od_phone :: "string option"
  od_lines :: "(string \<times> int) list"
  od_pickup_from :: "string option"
  od_pickup_to :: "string option"
  od_note :: "string option"
  od_notify :: bool

definition or_null :: "string \<Rightarrow> string option" where
  "or_null s = (if s = [] then None else Some s)"

definition pickup_end :: "shop_page \<Rightarrow> string option" where
  "pickup_end p =
    Option.bind (rc_data (sp_pickup p))
      (\<lambda>d. map_option pw_ends (find (\<lambda>w. pw_starts w = sp_pickup_from p) (pd_windows d)))"

definition order_body_of :: "shop_page \<Rightarrow> order_body" where
  "order_body_of p =
    \<lparr>od_name = js_trim (sp_name p), od_phone = normalize_phone (sp_phone p), od_lines = sp_cart p,
     od_pickup_from = or_null (sp_pickup_from p), od_pickup_to = pickup_end p,
     od_note = or_null (js_trim (sp_note p)), od_notify = sp_sms p\<rparr>"

definition remember :: "string \<Rightarrow> json option \<Rightarrow> shop_page \<Rightarrow> storage \<Rightarrow> storage" where
  "remember slug placed p sg =
    (case sp_key p of
       None \<Rightarrow> sg
     | Some a \<Rightarrow> save_pending (order_key slug)
         (Some \<lparr>po_attempt = a, po_placed_at = sp_placed_at p, po_order = placed\<rparr>) sg)"

text \<open>\<open>submit\<close> until it waits for the answer: the page, the storage and the request with its key, if one goes out.
  A text that is not a JSON number prints by \<open>num\<close>; \<open>fresh\<close> is the identifier at hand.\<close>

definition order_begin ::
  "(rat \<Rightarrow> string) \<Rightarrow> string \<Rightarrow> string \<Rightarrow> int \<Rightarrow> shop_page \<times> storage \<Rightarrow> (shop_page \<times> storage) \<times> (string \<times> order_body) option" where
  "order_begin num slug fresh now s =
    (case s of (p, sg) \<Rightarrow>
       if \<not> can_order p
       then ((p\<lparr>sp_action := action_set_error (Some ''incomplete'') (sp_action p)\<rparr>, sg), None)
       else if js_trim (sp_phone p) \<noteq> [] \<and> normalize_phone (sp_phone p) = None
       then ((p\<lparr>sp_action := action_set_error (Some ''phoneInvalid'') (sp_action p)\<rparr>, sg), None)
       else let (k, ref) = attempt_key fresh (sp_key p) (json_text num (request_json p));
                p1 = p\<lparr>sp_key := ref,
                       sp_placed_at := (if Some k \<noteq> map_option at_key (sp_key p) then of_int now else sp_placed_at p)\<rparr>;
                sg1 = remember slug None p1 sg
            in case action_start (sp_action p1) of
                 None \<Rightarrow> ((p1, sg1), None)
               | Some a \<Rightarrow> ((p1\<lparr>sp_action := a\<rparr>, sg1), Some (k, order_body_of p1)))"

definition order_placed :: "string \<Rightarrow> json \<Rightarrow> shop_page \<times> storage \<Rightarrow> shop_page \<times> storage" where
  "order_placed slug placed s =
    (case s of (p, sg) \<Rightarrow>
       (p\<lparr>sp_order := Some placed, sp_action := action_end None (sp_action p)\<rparr>, remember slug (Some placed) p sg))"

definition order_refused :: "string \<Rightarrow> shop_page \<times> storage \<Rightarrow> shop_page \<times> storage" where
  "order_refused message s =
    (case s of (p, sg) \<Rightarrow> (p\<lparr>sp_action := action_end (Some message) (sp_action p)\<rparr>, sg))"

definition mark_paid :: "string \<Rightarrow> shop_page \<times> storage \<Rightarrow> shop_page \<times> storage" where
  "mark_paid slug s =
    (case s of (p, sg) \<Rightarrow>
       (p\<lparr>sp_key := None, sp_paid := True, sp_cart := []\<rparr>, save_pending (order_key slug) None sg))"

definition cancel_payment :: "string \<Rightarrow> shop_page \<times> storage \<Rightarrow> shop_page \<times> storage" where
  "cancel_payment slug s = (case s of (p, sg) \<Rightarrow> (p\<lparr>sp_order := None\<rparr>, remember slug None p sg))"

datatype shop_status = Shop_Loading load_status | Shop_Ready | Shop_Paying | Shop_Paid

definition shop_status :: "shop_page \<Rightarrow> shop_status" where
  "shop_status p =
    (let load = resource_status (sp_shop p)
     in if load \<noteq> Ready then Shop_Loading load else if sp_paid p then Shop_Paid
        else if sp_order p \<noteq> None then Shop_Paying else Shop_Ready)"

definition page_subtotal :: "shop_page \<Rightarrow> int" where
  "page_subtotal p = cart_subtotal (case rc_data (sp_shop p) of Some i \<Rightarrow> sh_items i | None \<Rightarrow> []) (sp_cart p)"

section \<open>The shop's steps\<close>

datatype shop_stage = Pickup_Stage | Details_Stage | Pay_Stage

record shop_flow =
  sf_stage :: shop_stage
  sf_variants :: "(string, string) js_map"
  sf_search :: string
  sf_category :: string

definition flow_initial :: shop_flow where
  "flow_initial = \<lparr>sf_stage = Pickup_Stage, sf_variants = [], sf_search = [], sf_category = ''all''\<rparr>"

definition shop_items :: "shop_page \<Rightarrow> shop_item list" where
  "shop_items p = (case rc_data (sp_shop p) of Some i \<Rightarrow> sh_items i | None \<Rightarrow> [])"

definition stock_cap :: "shop_item \<Rightarrow> int" where
  "stock_cap i = min max_each (case si_stock_left i of Some n \<Rightarrow> n | None \<Rightarrow> max_each)"

definition cart_lines :: "shop_page \<Rightarrow> (shop_item \<times> int \<times> int) list" where
  "cart_lines p =
    map (\<lambda>i. (i, in_cart (sp_cart p) (si_id i), stock_cap i)) (filter (\<lambda>i. in_cart (sp_cart p) (si_id i) > 0) (shop_items p))"

definition flow_step :: "shop_page \<Rightarrow> shop_flow \<Rightarrow> shop_stage" where
  "flow_step p f = (if shop_status p = Shop_Paying then Pay_Stage else sf_stage f)"

definition flow_go_to :: "shop_page \<Rightarrow> shop_stage \<Rightarrow> shop_flow \<Rightarrow> shop_flow" where
  "flow_go_to p next f = (if shop_status p = Shop_Ready then f\<lparr>sf_stage := next\<rparr> else f)"

text \<open>\<open>next\<close>: the flow, and whether the order is submitted.\<close>

definition flow_next :: "shop_page \<Rightarrow> shop_flow \<Rightarrow> shop_flow \<times> bool" where
  "flow_next p f =
    (case flow_step p f of
       Pickup_Stage \<Rightarrow> (f\<lparr>sf_stage := Details_Stage\<rparr>, False)
     | Details_Stage \<Rightarrow> (f, True)
     | Pay_Stage \<Rightarrow> (f, False))"

definition flow_back :: "shop_page \<Rightarrow> shop_flow \<Rightarrow> shop_flow" where
  "flow_back p f = (if flow_step p f = Details_Stage then f\<lparr>sf_stage := Pickup_Stage\<rparr> else f)"

definition variants_of :: "shop_item list \<Rightarrow> string \<Rightarrow> shop_item list" where
  "variants_of items product = filter (\<lambda>i. si_parent i = Some product) items"

definition variant_id :: "shop_item list \<Rightarrow> shop_flow \<Rightarrow> string \<Rightarrow> string" where
  "variant_id items f product =
    (case map_of (sf_variants f) product of
       Some v \<Rightarrow> v
     | None \<Rightarrow>
        (case find si_in_stock (variants_of items product) of
           Some v \<Rightarrow> si_id v
         | None \<Rightarrow> (case variants_of items product of v # _ \<Rightarrow> si_id v | [] \<Rightarrow> [])))"

definition set_variant_id :: "string \<Rightarrow> string \<Rightarrow> shop_flow \<Rightarrow> shop_flow" where
  "set_variant_id product v f = f\<lparr>sf_variants := AList.update product v (sf_variants f)\<rparr>"

text \<open>The category chips: each category once, in the order of the items.\<close>

definition shop_categories :: "shop_item list \<Rightarrow> string list" where
  "shop_categories items = js_unique (List.map_filter (\<lambda>i. case si_category i of Some c \<Rightarrow> if c = [] then None else Some c | None \<Rightarrow> None) items)"

fun has_substring :: "string \<Rightarrow> string \<Rightarrow> bool" where
  "has_substring t [] \<longleftrightarrow> t = []"
| "has_substring t (c # cs) \<longleftrightarrow> take (length t) (c # cs) = t \<or> has_substring t cs"

text \<open>The products shown: \<open>lower\<close> is the locale's lower case; a product with variants shows their lowest price.\<close>

definition shop_visible :: "(string \<Rightarrow> string) \<Rightarrow> shop_item list \<Rightarrow> shop_flow \<Rightarrow> shop_item list" where
  "shop_visible lower items f =
    map (\<lambda>i. case variants_of items (si_id i) of
           [] \<Rightarrow> i
         | v # vs \<Rightarrow> i\<lparr>si_price := fold min (map si_price vs) (si_price v), si_in_stock := list_ex si_in_stock (v # vs), si_stock_left := None\<rparr>)
      (filter (\<lambda>i. (si_parent i = None \<or> si_parent i = Some []) \<and> (sf_category f = ''all'' \<or> si_category i = Some (sf_category f))
          \<and> has_substring (lower (js_trim (sf_search f)))
              (lower (si_name i @ '' '' @ (case si_description i of Some d \<Rightarrow> d | None \<Rightarrow> [])))) items)"

definition cart_size :: "shop_page \<Rightarrow> int" where
  "cart_size p = sum_list (map (\<lambda>l. fst (snd l)) (cart_lines p))"

definition add_one :: "shop_item \<Rightarrow> shop_page \<Rightarrow> shop_page" where
  "add_one i p = set_quantity (si_id i) (min (stock_cap i) (in_cart (sp_cart p) (si_id i) + 1)) p"

definition set_line :: "shop_item \<Rightarrow> int \<Rightarrow> shop_page \<Rightarrow> shop_page" where
  "set_line i n p = set_quantity (si_id i) (min (stock_cap i) n) p"

text \<open>The day of the chosen pickup and the windows of a day; \<open>key_of\<close> is \<open>window_day\<close> in the shop's zone, or in the
  visitor's own until the windows are loaded.\<close>

definition window_day :: "offsets \<Rightarrow> (string \<Rightarrow> int option) \<Rightarrow> string \<Rightarrow> shop_page \<Rightarrow> string \<Rightarrow> string" where
  "window_day off other device p stamp =
    (let zone = (case rc_data (sp_pickup p) of Some d \<Rightarrow> pd_timezone d | None \<Rightarrow> device)
     in case parse_timestamp other stamp of Some t \<Rightarrow> date_key off t zone | None \<Rightarrow> ''NaN-NaN-NaN'')"

definition pickup_day :: "(string \<Rightarrow> string) \<Rightarrow> shop_page \<Rightarrow> string" where
  "pickup_day key_of p = (if sp_pickup_from p = [] then ''asap'' else key_of (sp_pickup_from p))"

definition shown_windows :: "shop_page \<Rightarrow> pickup_window list" where
  "shown_windows p = (case rc_data (sp_pickup p) of Some d \<Rightarrow> pd_windows d | None \<Rightarrow> [])"

definition pickup_day_keys :: "(string \<Rightarrow> string) \<Rightarrow> shop_page \<Rightarrow> string list" where
  "pickup_day_keys key_of p = ''asap'' # js_unique (map (key_of \<circ> pw_starts) (shown_windows p))"

definition windows_of_day :: "(string \<Rightarrow> string) \<Rightarrow> shop_page \<Rightarrow> pickup_window list" where
  "windows_of_day key_of p = filter (\<lambda>w. key_of (pw_starts w) = pickup_day key_of p) (shown_windows p)"

definition set_pickup_day :: "(string \<Rightarrow> string) \<Rightarrow> string \<Rightarrow> shop_page \<Rightarrow> shop_page" where
  "set_pickup_day key_of day p =
    p\<lparr>sp_pickup_from := (case find (\<lambda>w. key_of (pw_starts w) = day) (shown_windows p) of Some w \<Rightarrow> pw_starts w | None \<Rightarrow> [])\<rparr>"

section \<open>The steps of a visit\<close>

inductive shop_step :: "(rat \<Rightarrow> string) \<Rightarrow> string \<Rightarrow> shop_page \<times> storage \<Rightarrow> shop_page \<times> storage \<Rightarrow> bool"
  for num :: "rat \<Rightarrow> string" and slug :: string where
  shop_loads: "shop_step num slug (p, sg) (settle slug (p\<lparr>sp_shop := r\<rparr>, sg))"
| pickup_loads: "shop_step num slug (p, sg) (settle slug (p\<lparr>sp_pickup := r\<rparr>, sg))"
| shop_name: "shop_step num slug (p, sg) (settle slug (p\<lparr>sp_name := v\<rparr>, sg))"
| shop_phone: "shop_step num slug (p, sg) (settle slug (p\<lparr>sp_phone := v\<rparr>, sg))"
| shop_note: "shop_step num slug (p, sg) (settle slug (p\<lparr>sp_note := v\<rparr>, sg))"
| shop_sms: "shop_step num slug (p, sg) (settle slug (p\<lparr>sp_sms := b\<rparr>, sg))"
| shop_window: "shop_step num slug (p, sg) (settle slug (p\<lparr>sp_pickup_from := v\<rparr>, sg))"
| shop_quantity: "shop_step num slug (p, sg) (settle slug (set_quantity item n p, sg))"
| shop_submit: "shop_step num slug (p, sg) (settle slug (fst (order_begin num slug fresh now (p, sg))))"
| shop_placed: "shop_step num slug (p, sg) (settle slug (order_placed slug v (p, sg)))"
| shop_refused: "shop_step num slug (p, sg) (settle slug (order_refused m (p, sg)))"
| shop_paid: "shop_step num slug (p, sg) (settle slug (mark_paid slug (p, sg)))"
| shop_canceled: "shop_step num slug (p, sg) (settle slug (cancel_payment slug (p, sg)))"
| shop_reload: "shop_step num slug (p, sg) (settle slug (open_page slug now sg, sg))"

definition shop_opened :: "string \<Rightarrow> shop_page \<times> storage \<Rightarrow> bool" where
  "shop_opened slug s \<longleftrightarrow> (\<exists>now sg. s = settle slug (open_page slug now sg, sg))"


section \<open>What the page keeps\<close>

definition cart_ok :: "cart \<Rightarrow> bool" where
  "cart_ok c \<longleftrightarrow> distinct (map fst c) \<and> (\<forall>e\<in>set c. 1 \<le> snd e \<and> snd e \<le> 20)"

definition works :: "storage \<Rightarrow> bool" where
  "works sg \<longleftrightarrow> sg_readable sg \<and> sg_writable sg"

lemma works_write [simp]: "works (write_item k v sg) = works sg" "works (remove_item k sg) = works sg"
  by (simp_all add: works_def write_item_def remove_item_def)

lemma parse_write [simp]: "works sg \<Longrightarrow> parse_item (write_item k v sg) j d = (if j = k then Some v else parse_item sg j d)"
  by (simp add: works_def parse_item_def write_item_def update_conv')

lemma map_of_drop_key: "map_of (filter (\<lambda>e. fst e \<noteq> k) xs) j = (if j = k then None else map_of xs j)"
  by (induction xs) auto

lemma parse_remove [simp]: "works sg \<Longrightarrow> parse_item (remove_item k sg) j d = (if j = k then Some d else parse_item sg j d)"
  by (simp add: works_def parse_item_def remove_item_def map_of_drop_key)

lemma shop_keys [simp]:
  "cart_key slug \<noteq> draft_key slug" "draft_key slug \<noteq> cart_key slug" "order_key slug \<noteq> cart_key slug"
  "cart_key slug \<noteq> order_key slug" "order_key slug \<noteq> draft_key slug" "draft_key slug \<noteq> order_key slug"
  by (simp_all add: cart_key_def draft_key_def order_key_def)

lemma works_remember [simp]: "works (remember slug o' p sg) = works sg"
  by (simp add: remember_def save_pending_def split: option.splits)

lemma settle_storage:
  assumes "works sg"
  shows "works (snd (settle slug (p, sg)))"
    and "parse_item (snd (settle slug (p, sg))) (cart_key slug) d = Some (cart_json (sp_cart p))"
    and "parse_item (snd (settle slug (p, sg))) (draft_key slug) d
      = Some (if sp_paid p then d else J_Obj (map (\<lambda>(f, s). (f, J_Str s)) (draft_of (pickup_effect p))))"
    and "parse_item (snd (settle slug (p, sg))) (order_key slug) d = parse_item sg (order_key slug) d"
  using assms
  by (simp_all add: settle_def Let_def draft_effect_def write_draft_def cart_effect_def pickup_effect_def split: option.splits)

lemma map_filter_map_all: "(\<And>x. x \<in> set xs \<Longrightarrow> f (g x) = Some x) \<Longrightarrow> List.map_filter f (map g xs) = xs"
  by (induction xs) (auto simp: List.map_filter_simps)

lemma cart_entry_bounds: "cart_entry e = Some (k, n) \<Longrightarrow> 1 \<le> n \<and> n \<le> 20"
  by (cases e rule: cart_entry.cases) (auto split: if_splits simp: le_floor_iff floor_le_iff)

lemma stored_cart_ok: "cart_ok (stored_cart slug sg)"
  unfolding stored_cart_def cart_ok_def
  by (auto split: option.splits dest!: set_from_entries [THEN subsetD] cart_entry_bounds simp: set_map_filter)

lemma stored_cart_json:
  assumes "cart_ok c" "parse_item sg (cart_key slug) (J_Obj []) = Some (cart_json c)"
  shows "stored_cart slug sg = c"
proof -
  have "distinct (map fst (map (\<lambda>(k, n). (k, J_Num (of_int n))) c))" "distinct (map fst c)"
    using assms(1) by (simp_all add: cart_ok_def comp_def case_prod_unfold)
  moreover have "List.map_filter cart_entry (map (\<lambda>(k, n). (k, J_Num (of_int n))) c) = c"
    using assms(1) by (intro map_filter_map_all) (fastforce simp: cart_ok_def)
  ultimately show ?thesis
    using assms(2) by (simp add: stored_cart_def cart_json_def from_entries_distinct)
qed

lemma read_draft_of:
  assumes "parse_item sg (draft_key slug) (J_Obj []) = Some (J_Obj (map (\<lambda>(f, s). (f, J_Str s)) (draft_of p)))"
  shows "read_draft (draft_key slug) sg = draft_of p"
  using assms by (simp add: read_draft_def draft_of_def from_entries_distinct List.map_filter_simps)

definition shop_inv :: "string \<Rightarrow> shop_page \<times> storage \<Rightarrow> bool" where
  "shop_inv slug s =
    (case s of (p, sg) \<Rightarrow> cart_ok (sp_cart p) \<and> pickup_effect p = p \<and>
       (works sg \<longrightarrow> parse_item sg (cart_key slug) (J_Obj []) = Some (cart_json (sp_cart p))
         \<and> (\<not> sp_paid p \<longrightarrow> parse_item sg (draft_key slug) (J_Obj [])
              = Some (J_Obj (map (\<lambda>(f, s). (f, J_Str s)) (draft_of p))))))"

lemma pickup_effect_keeps [simp]:
  "sp_cart (pickup_effect p) = sp_cart p" "sp_paid (pickup_effect p) = sp_paid p" "sp_key (pickup_effect p) = sp_key p"
  "sp_placed_at (pickup_effect p) = sp_placed_at p" "sp_order (pickup_effect p) = sp_order p"
  "sp_pickup (pickup_effect p) = sp_pickup p" "sp_action (pickup_effect p) = sp_action p"
  "sp_name (pickup_effect p) = sp_name p" "sp_phone (pickup_effect p) = sp_phone p"
  "sp_note (pickup_effect p) = sp_note p" "sp_sms (pickup_effect p) = sp_sms p" "sp_shop (pickup_effect p) = sp_shop p"
  by (simp_all add: pickup_effect_def split: option.splits)

lemma pickup_effect_idem [simp]: "pickup_effect (pickup_effect p) = pickup_effect p"
  by (auto simp: pickup_effect_def split: option.splits)

lemma shop_settle_inv:
  assumes "cart_ok (sp_cart p)"
  shows "shop_inv slug (settle slug (p, sg))"
proof -
  have "fst (settle slug (p, sg)) = pickup_effect p" by (simp add: settle_def Let_def)
  moreover have "works (snd (settle slug (p, sg))) = works sg"
    by (simp add: settle_def Let_def draft_effect_def write_draft_def cart_effect_def split: option.splits)
  ultimately show ?thesis
    using assms settle_storage [of sg slug p] by (auto simp: shop_inv_def split: prod.splits)
qed

lemma change_cart_ok: "cart_ok c \<Longrightarrow> cart_ok (change_cart item n c)"
  by (auto simp: change_cart_def cart_ok_def distinct_update distinct_map_filter
      dest!: set_update_subset [THEN subsetD])

lemma cart_ok_handlers [simp]:
  "sp_cart (fst (fst (order_begin num slug fresh now (p, sg)))) = sp_cart p"
  "sp_cart (fst (order_placed slug v (p, sg))) = sp_cart p" "sp_cart (fst (order_refused m (p, sg))) = sp_cart p"
  "sp_cart (fst (mark_paid slug (p, sg))) = []" "sp_cart (fst (cancel_payment slug (p, sg))) = sp_cart p"
  by (simp_all add: order_begin_def order_placed_def order_refused_def mark_paid_def cancel_payment_def Let_def
      split: prod.splits option.splits)

lemma shop_settled_inv: "cart_ok (sp_cart (fst s)) \<Longrightarrow> shop_inv slug (settle slug s)"
  using shop_settle_inv [of "fst s" slug "snd s"] by simp

interpretation shop: inductive_invariant "shop_opened slug" "shop_step num slug" "shop_inv slug"
proof
  fix s assume "shop_opened slug s"
  then show "shop_inv slug s"
    by (auto simp: shop_opened_def open_page_def Let_def stored_cart_ok intro!: shop_settle_inv)
next
  fix s t assume "shop_inv slug s" and step: "shop_step num slug s t"
  then have ok: "cart_ok (sp_cart (fst s))" by (auto simp: shop_inv_def)
  from step ok show "shop_inv slug t"
    by cases (auto intro!: shop_settled_inv simp: set_quantity_def change_cart_ok open_page_def Let_def stored_cart_ok cart_ok_def [of "[]"])
qed

lemma open_page_form:
  assumes "shop_inv slug (p, sg)" "works sg"
  shows "sp_cart (open_page slug now sg) = sp_cart p"
    and "\<not> sp_paid p \<Longrightarrow> sp_name (open_page slug now sg) = sp_name p \<and> sp_phone (open_page slug now sg) = sp_phone p
      \<and> sp_note (open_page slug now sg) = sp_note p \<and> sp_pickup_from (open_page slug now sg) = sp_pickup_from p
      \<and> sp_sms (open_page slug now sg) = sp_sms p"
  using assms stored_cart_json [of "sp_cart p" sg slug] read_draft_of [of sg slug p]
  by (auto simp: shop_inv_def open_page_def Let_def draft_of_def draft_field_def)

text \<open>A handler that neither edits the form nor the key leaves the next submission as it was.\<close>

definition same_request :: "shop_page \<Rightarrow> shop_page \<Rightarrow> bool" where
  "same_request p q \<longleftrightarrow> sp_cart q = sp_cart p \<and> sp_name q = sp_name p \<and> sp_phone q = sp_phone p \<and> sp_note q = sp_note p
    \<and> sp_pickup_from q = sp_pickup_from p \<and> sp_sms q = sp_sms p \<and> rc_data (sp_pickup q) = rc_data (sp_pickup p)"

lemma attempt_eta: "at_request a = r \<Longrightarrow> \<lparr>at_key = at_key a, at_request = r\<rparr> = a"
  by simp

lemma order_begin_sent:
  assumes "order_begin num slug fresh now (p, sg) = ((p1, sg1), Some (k, body))"
  shows "can_order p" "normalize_phone (sp_phone p) \<noteq> None" "body = order_body_of p"
    "sp_key p1 = Some \<lparr>at_key = k, at_request = json_text num (request_json p)\<rparr>"
    "sg1 = save_pending (order_key slug)
       (Some \<lparr>po_attempt = \<lparr>at_key = k, at_request = json_text num (request_json p)\<rparr>, po_placed_at = sp_placed_at p1, po_order = None\<rparr>) sg"
    "same_request p p1" "sp_paid p1 = sp_paid p"
  using assms
  by (auto simp: order_begin_def Let_def attempt_key_def remember_def same_request_def order_body_of_def can_order_def pickup_end_def attempt_eta
      split: if_splits option.splits prod.splits)

lemma pickup_effect_fixed:
  "pickup_effect p = p \<longleftrightarrow> (case rc_data (sp_pickup p) of
     Some d \<Rightarrow> sp_pickup_from p = [] \<or> (\<exists>w\<in>set (pd_windows d). pw_starts w = sp_pickup_from p) | None \<Rightarrow> True)"
  (is "_ \<longleftrightarrow> ?kept")
proof
  assume "pickup_effect p = p"
  then have "sp_pickup_from (pickup_effect p) = sp_pickup_from p" by simp
  then show ?kept by (auto simp: pickup_effect_def split: option.splits if_splits)
qed (auto simp: pickup_effect_def split: option.splits)

lemma same_request_settled:
  "same_request p q \<Longrightarrow> pickup_effect p = p \<Longrightarrow> pickup_effect q = q"
  unfolding pickup_effect_fixed by (auto simp: same_request_def split: option.splits)

lemma order_begin_again:
  assumes "can_order q" "normalize_phone (sp_phone q) \<noteq> None"
    "sp_key q = Some \<lparr>at_key = k, at_request = json_text num (request_json q)\<rparr>" "\<not> aa_running (sp_action q)"
  shows "snd (order_begin num slug fresh now (q, sg)) = Some (k, order_body_of q)"
  using assms by (simp add: order_begin_def attempt_key_def action_start_def Let_def order_body_of_def pickup_end_def split: prod.splits)

lemma order_begin_first:
  assumes "can_order p" "normalize_phone (sp_phone p) \<noteq> None" "sp_key p = None" "\<not> aa_running (sp_action p)"
  shows "snd (order_begin num slug fresh now (p, sg)) = Some (fresh, order_body_of p)"
    "sp_placed_at (fst (settle slug (fst (order_begin num slug fresh now (p, sg))))) = of_int now"
proof -
  obtain y where "normalize_phone (sp_phone p) = Some y" using assms(2) by blast
  with assms show "snd (order_begin num slug fresh now (p, sg)) = Some (fresh, order_body_of p)"
    "sp_placed_at (fst (settle slug (fst (order_begin num slug fresh now (p, sg))))) = of_int now"
    by (simp_all add: order_begin_def attempt_key_def action_start_def Let_def order_body_of_def pickup_end_def settle_def)
qed

lemma same_request_body:
  assumes "same_request p q"
  shows "order_body_of q = order_body_of p" "request_json q = request_json p" "can_order q = can_order p"
  using assms by (simp_all add: same_request_def order_body_of_def request_json_def can_order_def pickup_end_def)

lemma stored_pending_saved:
  assumes "parse_item sg k J_Null = Some (pending_json po)" "of_int now - po_placed_at po \<le> resume_ms"
    "\<And>v. po_order po = Some v \<Longrightarrow> is_order v"
  shows "stored_pending now k sg = Some po"
  using assms by (cases po; cases "po_order po") (auto simp: stored_pending_def pending_json_def is_order_def)

text \<open>A reopened page holds what the pending order was.\<close>

definition reload_shop :: "string \<Rightarrow> int \<Rightarrow> shop_page \<Rightarrow> storage \<Rightarrow> shop_page \<times> storage" where
  "reload_shop slug now p sg =
    settle slug ((open_page slug now sg)\<lparr>sp_shop := sp_shop p, sp_pickup := sp_pickup p\<rparr>, sg)"

text \<open>C36: an order whose answer never came, because the connection broke or the page was reloaded, is not
  placed twice: within twenty-five minutes of its first attempt the reopened page, once the shop and the pickup
  windows are loaded again, sends the very same request under the very same idempotency key.\<close>

theorem lost_order_resumes:
  assumes "reach (shop_opened slug) (shop_step num slug) (p, sg)" "works sg" "\<not> sp_paid p"
    and submitted: "order_begin num slug fresh now (p, sg) = (s, Some (k, body))"
    and opened: "settle slug s = (p1, sg1)" "of_int later - sp_placed_at p1 \<le> resume_ms"
  shows "snd (order_begin num slug fresh' later' (reload_shop slug later p1 sg1)) = Some (k, body)"
proof -
  obtain p0 sg0 where s: "s = (p0, sg0)" by (cases s)
  note sent = order_begin_sent [OF submitted [unfolded s]]
  let ?a = "\<lparr>at_key = k, at_request = json_text num (request_json p)\<rparr>"
  let ?q = "(open_page slug later sg1)\<lparr>sp_shop := sp_shop p1, sp_pickup := sp_pickup p1\<rparr>"
  have inv: "shop_inv slug (p, sg)" by (rule shop.reach_inv [OF assms(1)])
  have works0: "works sg0" using sent(5) assms(2) by (simp add: save_pending_def)
  have p1: "p1 = pickup_effect p0" using opened(1) s by (simp add: settle_def Let_def)
  have still: "pickup_effect p = p" using inv by (simp add: shop_inv_def)
  have same: "same_request p p1"
    using sent(6) same_request_settled [OF sent(6) still] by (simp add: p1)
  have inv1: "shop_inv slug (p1, sg1)"
    using shop_settle_inv [of p0 slug sg0] inv sent(6) opened(1) s by (simp add: shop_inv_def same_request_def)
  have works1: "works sg1" using settle_storage(1) [OF works0, of slug p0] opened(1) s by simp
  have "parse_item sg1 (order_key slug) J_Null = Some (pending_json \<lparr>po_attempt = ?a, po_placed_at = sp_placed_at p1, po_order = None\<rparr>)"
    using settle_storage(4) [OF works0, of slug p0] opened(1) s sent(5) works0 assms(2) p1 by (simp add: save_pending_def)
  then have pend: "stored_pending later (order_key slug) sg1 = Some \<lparr>po_attempt = ?a, po_placed_at = sp_placed_at p1, po_order = None\<rparr>"
    using opened(2) by (intro stored_pending_saved) simp_all
  have "\<not> sp_paid p1" using sent(7) assms(3) p1 by simp
  with same have q: "same_request p ?q"
    using open_page_form [OF inv1 works1, of later] by (simp add: same_request_def)
  have "pickup_effect ?q = ?q" by (rule same_request_settled [OF q still])
  then have "fst (reload_shop slug later p1 sg1) = ?q" by (simp add: reload_shop_def settle_def Let_def)
  moreover have "snd (order_begin num slug fresh' later' (?q, sg')) = Some (k, order_body_of ?q)" for sg'
    using sent(1,2) same_request_body [OF q] q pend
    by (intro order_begin_again) (simp_all add: same_request_def open_page_def Let_def idle_action_def)
  ultimately show ?thesis
    using same_request_body(1) [OF q] sent(3) by (metis prod.collapse)
qed

text \<open>The answered order is on the page again after a reload, ready to be paid.\<close>

lemma placed_order_reopens:
  assumes "works sg" "is_order v" "sp_key p \<noteq> None" "of_int later - sp_placed_at p \<le> resume_ms"
    and "settle slug (order_placed slug v (p, sg)) = (p1, sg1)"
  shows "sp_order (open_page slug later sg1) = Some v \<and> sp_key (open_page slug later sg1) = sp_key p"
proof -
  obtain a where a: "sp_key p = Some a" using assms(3) by blast
  let ?sg = "write_item (order_key slug) (pending_json \<lparr>po_attempt = a, po_placed_at = sp_placed_at p, po_order = Some v\<rparr>) sg"
  have "works ?sg" using assms(1) by simp
  then have "parse_item sg1 (order_key slug) J_Null
      = Some (pending_json \<lparr>po_attempt = a, po_placed_at = sp_placed_at p, po_order = Some v\<rparr>)"
    using settle_storage(4) [of ?sg slug "p\<lparr>sp_order := Some v, sp_action := action_end None (sp_action p)\<rparr>"] assms(1,5) a
    by (simp add: order_placed_def remember_def save_pending_def)
  then have "stored_pending later (order_key slug) sg1 = Some \<lparr>po_attempt = a, po_placed_at = sp_placed_at p, po_order = Some v\<rparr>"
    using assms(2,4) by (intro stored_pending_saved) simp_all
  with a show ?thesis by (simp add: open_page_def Let_def)
qed

text \<open>After the payment nothing is left of the order: a page opened later starts with an empty cart and a blank form.\<close>

lemma paid_order_forgotten:
  assumes "works sg" "settle slug (mark_paid slug (p, sg)) = (p1, sg1)"
  shows "sp_order (open_page slug now sg1) = None" "sp_key (open_page slug now sg1) = None"
    "sp_cart (open_page slug now sg1) = []" "sp_name (open_page slug now sg1) = []"
proof -
  let ?p = "p\<lparr>sp_key := None, sp_paid := True, sp_cart := []\<rparr>"
  have "works (remove_item (order_key slug) sg)" using assms(1) by simp
  note kept = settle_storage [OF this, of slug ?p]
  have s: "sg1 = snd (settle slug (?p, remove_item (order_key slug) sg))"
    using arg_cong [OF assms(2), of snd] by (simp add: mark_paid_def save_pending_def)
  have "stored_cart slug sg1 = []"
    using kept(2) by (intro stored_cart_json) (simp_all add: cart_ok_def s)
  moreover have "read_draft (draft_key slug) sg1 = []"
    using kept(3) by (simp add: read_draft_def from_entries_def List.map_filter_simps s)
  moreover have "stored_pending now (order_key slug) sg1 = None"
    using kept(4) assms(1) by (simp add: stored_pending_def s)
  ultimately show "sp_order (open_page slug now sg1) = None" "sp_key (open_page slug now sg1) = None"
    "sp_cart (open_page slug now sg1) = []" "sp_name (open_page slug now sg1) = []"
    by (simp_all add: open_page_def Let_def draft_field_def)
qed

section \<open>What is in the cart\<close>

lemma cart_of_entry: "cart_ok c \<Longrightarrow> in_cart c i = 0 \<longleftrightarrow> i \<notin> fst ` set c"
  using map_of_eq_None_iff [of c i] by (force simp: in_cart_def cart_ok_def split: option.splits dest: map_of_SomeD)

lemma in_cart_bounds: "cart_ok c \<Longrightarrow> 0 \<le> in_cart c i \<and> in_cart c i \<le> 20"
  by (force simp: in_cart_def cart_ok_def split: option.splits dest: map_of_SomeD)

lemma in_cart_change:
  "in_cart (change_cart i n c) j = (if j = i then (if n > 0 then min n 20 else 0) else in_cart c j)"
  by (simp add: in_cart_def change_cart_def update_conv' map_of_drop_key)

text \<open>Adding one of an item never takes more than is in stock, and touches no other item.\<close>

lemma add_one_within_stock:
  "in_cart (sp_cart (add_one i p)) (si_id i) \<le> max 0 (stock_cap i)"
  "j \<noteq> si_id i \<Longrightarrow> in_cart (sp_cart (add_one i p)) j = in_cart (sp_cart p) j"
  by (auto simp: add_one_def set_quantity_def in_cart_change min_def)

lemma set_line_within_stock: "in_cart (sp_cart (set_line i n p)) (si_id i) \<le> max 0 (stock_cap i)"
  by (auto simp: set_line_def set_quantity_def in_cart_change min_def)

lemma sum_list_filter_only: "(\<And>x. x \<in> set xs \<Longrightarrow> \<not> P x \<Longrightarrow> f x = (0::int)) \<Longrightarrow> sum_list (map f (filter P xs)) = sum_list (map f xs)"
  by (induction xs) auto

text \<open>In every reachable state of the page the subtotal shown is the price of the lines shown, line by line,
  each with one to twenty of its item, whether or not the shop has loaded and whatever the storage held.\<close>

theorem shop_subtotal_of_lines:
  assumes "reach (shop_opened slug) (shop_step num slug) (p, sg)"
  shows "page_subtotal p = sum_list (map (\<lambda>(i, n, cap). si_price i * n) (cart_lines p))
    \<and> list_all (\<lambda>(i, n, cap). 1 \<le> n \<and> n \<le> 20 \<and> i \<in> set (shop_items p)) (cart_lines p)"
proof -
  have ok: "cart_ok (sp_cart p)" using shop.reach_inv [OF assms] by (simp add: shop_inv_def)
  have "sum_list (map (\<lambda>(i, n, cap). si_price i * n) (cart_lines p))
      = sum_list (map (\<lambda>i. si_price i * in_cart (sp_cart p) (si_id i))
          (filter (\<lambda>i. in_cart (sp_cart p) (si_id i) > 0) (shop_items p)))"
    by (simp add: cart_lines_def comp_def)
  also have "\<dots> = page_subtotal p"
    using in_cart_bounds [OF ok]
    by (subst sum_list_filter_only) (auto simp: page_subtotal_def cart_subtotal_def shop_items_def not_less order_antisym)
  finally show ?thesis
    using in_cart_bounds [OF ok] by (auto simp: cart_lines_def list_all_iff)
qed

text \<open>What is ordered is the whole cart: an item that is no longer offered has no line on the page and still goes out.\<close>

lemma withdrawn_item_ordered:
  assumes "(i, n) \<in> set (sp_cart p)" "i \<notin> si_id ` set (shop_items p)"
  shows "(i, n) \<in> set (od_lines (order_body_of p))" "\<forall>l\<in>set (cart_lines p). si_id (fst l) \<noteq> i"
  using assms by (auto simp: order_body_of_def cart_lines_def)

text \<open>The end of the pickup window goes out with the order and is not part of the request that its key stands for.\<close>

lemma pickup_end_outside_key:
  "request_json (p\<lparr>sp_pickup := r\<rparr>) = request_json p"
  "rc_data r = None \<Longrightarrow> od_pickup_to (order_body_of (p\<lparr>sp_pickup := r\<rparr>)) = None"
  by (simp_all add: request_json_def order_body_of_def pickup_end_def)

section \<open>A visit\<close>

definition demo_storage :: storage where
  "demo_storage = \<lparr>sg_readable = True, sg_writable = True, sg_items = []\<rparr>"

definition demo_shop :: shop_info where
  "demo_shop = \<lparr>sh_items = [\<lparr>si_id = ''it_brush'', si_parent = None, si_name = ''Brush'', si_description = None,
     si_price = 1200, si_currency = ''CAD'', si_taxable = True, si_in_stock = True, si_category = None,
     si_stock_left = None\<rparr>], sh_charges_tax = False\<rparr>"

definition demo_visit :: "shop_page \<times> storage" where
  "demo_visit =
    (let s0 = settle ''b'' (open_page ''b'' 0 demo_storage, demo_storage);
         s1 = settle ''b'' ((fst s0)\<lparr>sp_shop := resource_loaded demo_shop (sp_shop (fst s0))\<rparr>, snd s0);
         s2 = settle ''b'' (set_quantity ''it_brush'' 2 (fst s1), snd s1);
         s3 = settle ''b'' ((fst s2)\<lparr>sp_name := ''Robin''\<rparr>, snd s2)
     in settle ''b'' ((fst s3)\<lparr>sp_phone := ''6045550142''\<rparr>, snd s3))"

lemma reach_shop:
  assumes "reach (shop_opened slug) (shop_step num slug) s"
  shows "reach (shop_opened slug) (shop_step num slug) (settle slug ((fst s)\<lparr>sp_shop := r\<rparr>, snd s))"
    "reach (shop_opened slug) (shop_step num slug) (settle slug (set_quantity item n (fst s), snd s))"
    "reach (shop_opened slug) (shop_step num slug) (settle slug ((fst s)\<lparr>sp_name := v\<rparr>, snd s))"
    "reach (shop_opened slug) (shop_step num slug) (settle slug ((fst s)\<lparr>sp_phone := v\<rparr>, snd s))"
  by (rule reach_step [OF assms], cases s, simp add: shop_step.intros)+

lemma demo_visit_reach: "reach (shop_opened ''b'') (shop_step num ''b'') demo_visit"
  unfolding demo_visit_def Let_def
  by (intro reach_shop reach_init) (unfold shop_opened_def, blast)

theorem lost_order_resumes_witness:
  "snd (order_begin (\<lambda>_. []) ''b'' ''k2'' 2000 (case settle ''b'' (fst (order_begin (\<lambda>_. []) ''b'' ''k1'' 1000 demo_visit))
     of (p, sg) \<Rightarrow> reload_shop ''b'' 1500 p sg)) = snd (order_begin (\<lambda>_. []) ''b'' ''k1'' 1000 demo_visit)"
proof -
  let ?b = "order_begin (\<lambda>_. []) ''b'' ''k1'' 1000 demo_visit"
  obtain p sg where d: "demo_visit = (p, sg)" by (cases demo_visit)
  have facts: "works (snd demo_visit)" "\<not> sp_paid (fst demo_visit)" "can_order (fst demo_visit)"
    "normalize_phone (sp_phone (fst demo_visit)) \<noteq> None" "sp_key (fst demo_visit) = None"
    "\<not> aa_running (sp_action (fst demo_visit))" by code_simp+
  note first = order_begin_first [OF facts(3-6) [unfolded d fst_conv], where num = "\<lambda>_. []" and slug = "''b''" and fresh = "''k1''" and now = 1000 and sg = sg]
  obtain k body where out: "snd ?b = Some (k, body)" using first(1) by (simp add: d)
  have b: "order_begin (\<lambda>_. []) ''b'' ''k1'' 1000 (p, sg) = (fst ?b, Some (k, body))"
    using out by (simp add: d [symmetric] prod_eq_iff)
  obtain p1 sg1 where s: "settle ''b'' (fst ?b) = (p1, sg1)" by (cases "settle ''b'' (fst ?b)")
  have "snd (order_begin (\<lambda>_. []) ''b'' ''k2'' 2000 (reload_shop ''b'' 1500 p1 sg1)) = Some (k, body)"
    using facts(1,2) first(2) s by (intro lost_order_resumes [OF demo_visit_reach [unfolded d] _ _ b s]) (simp_all add: d resume_ms_def)
  then show ?thesis using out by (simp add: s)
qed

theorem shop_subtotal_of_lines_witness:
  "page_subtotal (fst demo_visit) = 2400 \<and> sum_list (map (\<lambda>(i, n, cap). si_price i * n) (cart_lines (fst demo_visit))) = 2400"
proof -
  have total: "page_subtotal (fst demo_visit) = 2400" by code_simp
  have "reach (shop_opened ''b'') (shop_step (\<lambda>_. []) ''b'') (fst demo_visit, snd demo_visit)"
    using demo_visit_reach by simp
  from shop_subtotal_of_lines [OF this] show ?thesis unfolding total by argo
qed
end
