(* ===== verification/Booking_Flow.thy ===== *)
theory Booking_Flow
  imports Shop
begin

text \<open>
  Online booking (\<open>usePublicBookingFlow\<close> in \<open>app-core/src/domain/publicBooking.ts\<close>): the visitor's choices, the
  effects that load program dates, open days and open times for them, the steps, the details and the booking
  that is sent. The page's React effects run after every handler (\<open>flow_settle\<close>): each effect remembers the
  values it last ran with, and an answer counts only while its effect is the one that asked. Labels, formatted
  times and the calendar file are left out.
\<close>

section \<open>What the server offers\<close>

datatype subject_kind = Pet | Student | Property | Site | Vehicle

record pub_service =
  ps_id :: string
  ps_price :: int
  ps_currency :: string
  ps_deposit_required :: bool
  ps_deposit_cents :: int
  ps_taxable :: bool
  ps_kind :: string
  ps_category :: "string option"
  ps_staff :: "string list"
  ps_sessions :: "int option"

record pub_staff =
  pm_id :: string
  pm_name :: "string option"

record pub_addon =
  pa_id :: string
  pa_price :: int
  pa_taxable :: bool
  pa_for :: "string list"
  pa_minutes :: "int option"

record open_slot =
  os_starts :: string
  os_ends :: string
  os_staff :: "string option"
  os_waitlist :: bool

record pub_program =
  pp_starts :: string
  pp_staff :: string
  pp_days :: "(string \<times> string) list"
  pp_seats :: int

record day_openings =
  do_date :: string
  do_count :: int
  do_waitlist :: int
  do_closed :: bool
  do_reason :: "string option"

record booking_page =
  bp_services :: "pub_service list"
  bp_staff :: "pub_staff list"
  bp_addons :: "pub_addon list"
  bp_now :: "string option"
  bp_timezone :: string
  bp_horizon :: "int option"
  bp_charges_tax :: bool
  bp_tax_starts :: "string option"
  bp_subject :: "subject_kind option"

definition any_staff :: string where
  "any_staff = ''any''"

section \<open>Dates, kinds and details\<close>

definition date_key_of :: "offsets \<Rightarrow> int option \<Rightarrow> string \<Rightarrow> string" where
  "date_key_of off t zone = (case t of Some d \<Rightarrow> date_key off d zone | None \<Rightarrow> ''NaN-NaN-NaN'')"

definition shift_key :: "offsets \<Rightarrow> string \<Rightarrow> int \<Rightarrow> string \<Rightarrow> string" where
  "shift_key off key n zone =
    date_key_of off (map_option (\<lambda>t. add_days off t n zone) (parse_date_key off key zone)) zone"

definition draft_day :: "offsets \<Rightarrow> (string \<Rightarrow> int option) \<Rightarrow> string \<Rightarrow> string \<Rightarrow> string option" where
  "draft_day off other starts zone = map_option (\<lambda>t. date_key off t zone) (parse_timestamp other starts)"

definition horizon_day :: "offsets \<Rightarrow> string \<Rightarrow> int option \<Rightarrow> string \<Rightarrow> string option" where
  "horizon_day off today days zone = map_option (\<lambda>n. shift_key off today n zone) days"

definition visit_week_from :: "offsets \<Rightarrow> int \<Rightarrow> string \<Rightarrow> string \<Rightarrow> string" where
  "visit_week_from off start today zone =
    (let week = date_key off (start_of_week off start zone) zone in if week < today then today else week)"

definition is_place :: "subject_kind option \<Rightarrow> bool" where
  "is_place kind \<longleftrightarrow> kind \<in> {Some Property, Some Site, Some Vehicle}"

text \<open>Where a visit happens: \<open>address\<close> is the subject's own address attribute when it is a text.\<close>

definition visit_address :: "subject_kind option \<Rightarrow> string option \<Rightarrow> string option \<Rightarrow> string option" where
  "visit_address kind address business =
    (case address of
       Some a \<Rightarrow> if is_place kind \<and> js_trim a \<noteq> [] then Some (js_trim a)
                 else (case business of Some b \<Rightarrow> if js_trim b \<noteq> [] then Some (js_trim b) else None | None \<Rightarrow> None)
     | None \<Rightarrow> (case business of Some b \<Rightarrow> if js_trim b \<noteq> [] then Some (js_trim b) else None | None \<Rightarrow> None))"

definition offered_with :: "pub_addon list \<Rightarrow> string option \<Rightarrow> pub_addon list" where
  "offered_with addons service =
    filter (\<lambda>x. pa_for x = [] \<or> (case service of Some i \<Rightarrow> i \<in> set (pa_for x) | None \<Rightarrow> False)) addons"

definition addon_minutes :: "pub_addon \<Rightarrow> int" where
  "addon_minutes a = (case pa_minutes a of Some n \<Rightarrow> n | None \<Rightarrow> 0)"

definition extra_minutes :: "pub_addon list \<Rightarrow> cart \<Rightarrow> string option \<Rightarrow> int" where
  "extra_minutes addons chosen kind =
    (if kind = Some ''class'' then 0 else sum_list (map (\<lambda>a. addon_minutes a * in_cart chosen (pa_id a)) addons))"

definition name_max :: nat where
  "name_max = 200"

definition name_too_long :: "string \<Rightarrow> bool" where
  "name_too_long v \<longleftrightarrow> length (js_trim v) > name_max"

datatype detail_error = Missing | Too_Long | Invalid

record detail_errors =
  de_name :: "detail_error option"
  de_contact :: "detail_error option"
  de_subject :: "detail_error option"
  de_address :: "detail_error option"

definition detail_errors_of ::
  "string \<Rightarrow> string \<Rightarrow> string \<Rightarrow> string \<Rightarrow> subject_kind option \<Rightarrow> bool \<Rightarrow> detail_errors" where
  "detail_errors_of name phone subject address kind existing =
    \<lparr>de_name = (if js_trim name = [] then Some Missing else if name_too_long name then Some Too_Long else None),
     de_contact = (if js_trim phone = [] then Some Missing else if normalize_phone phone = None then Some Invalid else None),
     de_subject = (if kind = None then None else if js_trim subject = [] then Some Missing
                   else if name_too_long subject then Some Too_Long else None),
     de_address = (if kind \<noteq> None \<and> is_place kind \<and> \<not> existing \<and> js_trim address = [] then Some Missing else None)\<rparr>"

definition no_errors :: "detail_errors \<Rightarrow> bool" where
  "no_errors e \<longleftrightarrow> de_name e = None \<and> de_contact e = None \<and> de_subject e = None \<and> de_address e = None"

text \<open>The week strip: the date, its load from 0 to 3, and whether it is closed, disabled or today.\<close>

definition to_strip ::
  "offsets \<Rightarrow> day_openings list option \<Rightarrow> string \<Rightarrow> string \<Rightarrow> string \<Rightarrow> (string \<times> nat \<times> bool \<times> bool \<times> bool) list" where
  "to_strip off days from today zone =
    map (\<lambda>i. let key = shift_key off from (int i) zone;
                 found = Option.bind days (find (\<lambda>d. do_date d = key))
             in (key,
                 (case found of None \<Rightarrow> 0 | Some d \<Rightarrow>
                    if do_count d = 0 then 0 else if do_count d < 4 then 1 else if do_count d < 10 then 2 else 3),
                 (case found of None \<Rightarrow> False | Some d \<Rightarrow> do_closed d),
                 key < today \<or> (case found of None \<Rightarrow> False | Some d \<Rightarrow> do_count d = 0 \<and> do_waitlist d = 0 \<and> \<not> do_closed d),
                 key = today))
      [0..<7]"

text \<open>Slots by the part of the day their local hour falls in; empty parts are left out.\<close>

datatype day_part = Morning | Afternoon | Evening

definition in_part :: "day_part \<Rightarrow> int \<Rightarrow> bool" where
  "in_part p h = (case p of Morning \<Rightarrow> h < 12 | Afternoon \<Rightarrow> 12 \<le> h \<and> h < 17 | Evening \<Rightarrow> 17 \<le> h)"

definition slot_in_part :: "offsets \<Rightarrow> (string \<Rightarrow> int option) \<Rightarrow> string \<Rightarrow> day_part \<Rightarrow> open_slot \<Rightarrow> bool" where
  "slot_in_part off other zone p x =
    (case parse_timestamp other (os_starts x) of Some t \<Rightarrow> in_part p (wl_hour (wall_time off t zone)) | None \<Rightarrow> False)"

definition group_slots ::
  "offsets \<Rightarrow> (string \<Rightarrow> int option) \<Rightarrow> string \<Rightarrow> open_slot list \<Rightarrow> (day_part \<times> open_slot list) list" where
  "group_slots off other zone slots =
    filter (\<lambda>g. snd g \<noteq> [])
      (map (\<lambda>p. (p, filter (slot_in_part off other zone p) slots)) [Morning, Afternoon, Evening])"

section \<open>The visitor's state\<close>

text \<open>
  What surrounds the page: the offsets of the zones, the engine's other date formats, the device's zone, the
  clock, \<open>JSON.parse\<close>, and how \<open>JSON.stringify\<close> prints a number that is not an integer.
\<close>

record flow_env =
  fe_off :: offsets
  fe_other :: "string \<Rightarrow> int option"
  fe_device :: string
  fe_now :: int
  fe_parse :: "string \<Rightarrow> json option"
  fe_num :: "rat \<Rightarrow> string"

datatype booking_step = Service_Step | Extras_Step | Time_Step | Details_Step | Pay_Step | Done_Step

text \<open>The queries of the three loading effects: service, member, and the first day and extra minutes.\<close>

record days_query =
  dq_item :: string
  dq_staff :: string
  dq_from :: string
  dq_extra :: int

record slots_query =
  sq_item :: string
  sq_staff :: string
  sq_day :: string
  sq_extra :: int

record booking_input =
  bi_item :: string
  bi_staff :: string
  bi_starts :: string
  bi_name :: string
  bi_phone :: "string option"
  bi_subject_name :: string
  bi_subject_address :: string
  bi_returning :: "string option"
  bi_subject_id :: "string option"
  bi_note :: string
  bi_addons :: "(string \<times> int) list"

record draft_deps =
  dd_result :: "json option"
  dd_step :: booking_step
  dd_slots :: "open_slot list option"
  dd_held :: "open_slot option"
  dd_item :: string
  dd_staff :: string
  dd_starts :: string
  dd_fields :: "string list"

record programs_deps =
  gd_item :: string
  gd_staff :: string
  gd_program :: bool
  gd_ready :: bool
  gd_reload :: nat

record days_deps = programs_deps +
  gd_from :: string
  gd_extra :: int

record slots_deps = programs_deps +
  gd_day :: "string option"
  gd_minutes :: int

record booking_flow =
  bf_page :: "booking_page resource"
  bf_picked_item :: "string option"
  bf_picked_staff :: "string option"
  bf_picked_starts :: "string option"
  bf_held :: "(json \<times> open_slot) option"
  bf_applied :: bool
  bf_initial_time :: string
  bf_step :: booking_step
  bf_item :: string
  bf_staff :: string
  bf_week :: "string option"
  bf_date :: "string option"
  bf_days :: "day_openings list option"
  bf_days_error :: bool
  bf_slots :: "open_slot list option"
  bf_slots_error :: bool
  bf_programs :: "pub_program list option"
  bf_reload :: nat
  bf_starts :: string
  bf_addons :: cart
  bf_name :: string
  bf_phone :: string
  bf_subject_name :: string
  bf_subject_address :: string
  bf_returning :: "string option"
  bf_subject_id :: "string option"
  bf_note :: string
  bf_touched :: bool
  bf_result :: "json option"
  bf_held_slot :: "open_slot option"
  bf_resume_failed :: bool
  bf_key :: "booking_input attempt option"
  bf_action :: async_action
  bf_draft_deps :: "draft_deps option"
  bf_programs_deps :: "programs_deps option"
  bf_days_deps :: "days_deps option"
  bf_slots_deps :: "slots_deps option"
  bf_live_programs :: "(string \<times> string) option"
  bf_live_days :: "days_query option"
  bf_live_slots :: "slots_query option"
  bf_resuming :: "string option"

text \<open>What the page shows at a render.\<close>

definition booking_page_of :: "booking_flow \<Rightarrow> booking_page option" where
  "booking_page_of s = rc_data (bf_page s)"

definition flow_ready :: "booking_flow \<Rightarrow> bool" where
  "flow_ready s \<longleftrightarrow> resource_status (bf_page s) = Ready"

definition flow_kind :: "booking_flow \<Rightarrow> subject_kind option" where
  "flow_kind s = Option.bind (booking_page_of s) bp_subject"

definition flow_zone :: "flow_env \<Rightarrow> booking_flow \<Rightarrow> string" where
  "flow_zone env s = (case booking_page_of s of Some p \<Rightarrow> bp_timezone p | None \<Rightarrow> fe_device env)"

definition flow_today :: "flow_env \<Rightarrow> booking_flow \<Rightarrow> string" where
  "flow_today env s =
    (case Option.bind (booking_page_of s) bp_now of
       Some now \<Rightarrow> if now = [] then date_key (fe_off env) (fe_now env) (flow_zone env s) else take 10 now
     | None \<Rightarrow> date_key (fe_off env) (fe_now env) (flow_zone env s))"

definition flow_from :: "flow_env \<Rightarrow> booking_flow \<Rightarrow> string" where
  "flow_from env s = (case bf_week s of Some w \<Rightarrow> w | None \<Rightarrow> flow_today env s)"

definition is_open_day :: "day_openings \<Rightarrow> bool" where
  "is_open_day d \<longleftrightarrow> do_count d > 0 \<or> do_waitlist d > 0"

definition flow_day :: "flow_env \<Rightarrow> booking_flow \<Rightarrow> string option" where
  "flow_day env s =
    (case bf_date s of
       Some d \<Rightarrow> Some d
     | None \<Rightarrow> (case bf_days s of
         None \<Rightarrow> None
       | Some ds \<Rightarrow> (case find is_open_day ds of Some d \<Rightarrow> Some (do_date d) | None \<Rightarrow> Some (flow_from env s))))"

definition service_in :: "booking_flow \<Rightarrow> string \<Rightarrow> pub_service option" where
  "service_in s i = Option.bind (booking_page_of s) (\<lambda>p. find (\<lambda>x. ps_id x = i) (bp_services p))"

definition flow_service :: "booking_flow \<Rightarrow> pub_service option" where
  "flow_service s = service_in s (bf_item s)"

definition is_program :: "booking_flow \<Rightarrow> bool" where
  "is_program s \<longleftrightarrow> Option.bind (flow_service s) ps_sessions \<noteq> None"

definition page_addons :: "booking_flow \<Rightarrow> pub_addon list" where
  "page_addons s = (case booking_page_of s of Some p \<Rightarrow> bp_addons p | None \<Rightarrow> [])"

definition flow_offered :: "booking_flow \<Rightarrow> pub_addon list" where
  "flow_offered s = (if is_program s then [] else offered_with (page_addons s) (map_option ps_id (flow_service s)))"

definition flow_extra :: "booking_flow \<Rightarrow> int" where
  "flow_extra s = extra_minutes (flow_offered s) (bf_addons s) (map_option ps_kind (flow_service s))"

definition first_step :: "booking_flow \<Rightarrow> string \<Rightarrow> booking_step" where
  "first_step s i =
    (if Option.bind (service_in s i) ps_sessions = None \<and> offered_with (page_addons s) (Some i) \<noteq> []
     then Extras_Step else Time_Step)"

definition staff_for :: "booking_flow \<Rightarrow> pub_staff list" where
  "staff_for s =
    (case booking_page_of s of
       None \<Rightarrow> []
     | Some p \<Rightarrow> filter (\<lambda>x. case flow_service s of None \<Rightarrow> True | Some v \<Rightarrow> pm_id x \<in> set (ps_staff v)) (bp_staff p))"

definition slot_at :: "booking_flow \<Rightarrow> string \<Rightarrow> open_slot option" where
  "slot_at s starts = Option.bind (bf_slots s) (find (\<lambda>x. os_starts x = starts))"

definition flow_slot :: "booking_flow \<Rightarrow> open_slot option" where
  "flow_slot s =
    (case slot_at s (bf_starts s) of
       Some x \<Rightarrow> Some x | None \<Rightarrow> if bf_result s \<noteq> None then bf_held_slot s else None)"

definition flow_waitlist :: "booking_flow \<Rightarrow> bool" where
  "flow_waitlist s \<longleftrightarrow> (case flow_slot s of Some x \<Rightarrow> os_waitlist x | None \<Rightarrow> False)"

definition addon_lines :: "booking_flow \<Rightarrow> (pub_addon \<times> int \<times> int) list" where
  "addon_lines s =
    (if flow_waitlist s then []
     else map (\<lambda>x. (x, in_cart (bf_addons s) (pa_id x), pa_price x * in_cart (bf_addons s) (pa_id x)))
            (filter (\<lambda>x. in_cart (bf_addons s) (pa_id x) > 0) (flow_offered s)))"

definition addons_cents :: "booking_flow \<Rightarrow> int" where
  "addons_cents s = sum_list (map (\<lambda>l. snd (snd l)) (addon_lines s))"

definition flow_deposit :: "booking_flow \<Rightarrow> int" where
  "flow_deposit s =
    (case flow_service s of
       Some v \<Rightarrow> if ps_deposit_required v \<and> \<not> flow_waitlist s then ps_deposit_cents v else 0 | None \<Rightarrow> 0)"

definition service_cents :: "booking_flow \<Rightarrow> int" where
  "service_cents s = (case flow_service s of Some v \<Rightarrow> ps_price v | None \<Rightarrow> 0)"

definition flow_errors :: "booking_flow \<Rightarrow> detail_errors" where
  "flow_errors s =
    detail_errors_of (bf_name s) (bf_phone s) (bf_subject_name s) (bf_subject_address s) (flow_kind s) (bf_subject_id s \<noteq> None)"

definition details_ok :: "booking_flow \<Rightarrow> bool" where
  "details_ok s \<longleftrightarrow> no_errors (flow_errors s)"

definition step_order :: "booking_flow \<Rightarrow> booking_step list" where
  "step_order s =
    [Service_Step] @ (if flow_offered s \<noteq> [] then [Extras_Step] else []) @ [Time_Step, Details_Step]
    @ (if flow_deposit s > 0 then [Pay_Step] else [])"

text \<open>\<open>indexOf\<close>, -1 for an absent step.\<close>

fun index_of :: "'a \<Rightarrow> 'a list \<Rightarrow> int" where
  "index_of x [] = -1"
| "index_of x (y # ys) = (if y = x then 0 else let i = index_of x ys in if i < 0 then -1 else i + 1)"

definition step_index :: "booking_flow \<Rightarrow> int" where
  "step_index s = index_of (bf_step s) (step_order s)"

definition can_next :: "booking_flow \<Rightarrow> bool" where
  "can_next s =
    (case bf_step s of
       Service_Step \<Rightarrow> flow_service s \<noteq> None
     | Time_Step \<Rightarrow> flow_slot s \<noteq> None
     | Extras_Step \<Rightarrow> True
     | Details_Step \<Rightarrow> details_ok s
     | _ \<Rightarrow> False)"

datatype total_kind = Subtotal_Line | Total_Line | Now_Line

definition booking_totals :: "booking_flow \<Rightarrow> (total_kind \<times> int) list" where
  "booking_totals s =
    (case flow_service s of Some v \<Rightarrow> [(Subtotal_Line, service_cents s)] | None \<Rightarrow> [])
    @ map (\<lambda>l. (Subtotal_Line, snd (snd l))) (addon_lines s)
    @ [(Total_Line, service_cents s + addons_cents s)]
    @ (if flow_deposit s > 0
       then [(Now_Line, flow_deposit s), (Subtotal_Line, service_cents s + addons_cents s - flow_deposit s)] else [])"

definition later_week :: "flow_env \<Rightarrow> booking_flow \<Rightarrow> bool" where
  "later_week env s =
    (case horizon_day (fe_off env) (flow_today env s) (Option.bind (booking_page_of s) bp_horizon) (flow_zone env s) of
       None \<Rightarrow> True
     | Some until \<Rightarrow> shift_key (fe_off env) (flow_from env s) 7 (flow_zone env s) \<le> until)"

definition visit_taxed :: "flow_env \<Rightarrow> booking_flow \<Rightarrow> bool" where
  "visit_taxed env s =
    (case booking_page_of s of
       None \<Rightarrow> False
     | Some p \<Rightarrow> bp_charges_tax p
         \<and> ((case flow_service s of Some v \<Rightarrow> ps_taxable v | None \<Rightarrow> False) \<or> list_ex (\<lambda>l. pa_taxable (fst l)) (addon_lines s))
         \<and> (case bp_tax_starts p of
              None \<Rightarrow> True
            | Some d \<Rightarrow> d \<le> (case flow_slot s of
                None \<Rightarrow> flow_today env s
              | Some x \<Rightarrow> date_key_of (fe_off env) (parse_timestamp (fe_other env) (os_starts x)) (flow_zone env s))))"

section \<open>The deposit a reload goes back to\<close>

definition opt_json :: "string option \<Rightarrow> json" where
  "opt_json v = (case v of Some s \<Rightarrow> J_Str s | None \<Rightarrow> J_Null)"

definition slot_json :: "open_slot \<Rightarrow> json" where
  "slot_json x = J_Obj [(''starts_at'', J_Str (os_starts x)), (''ends_at'', J_Str (os_ends x)),
     (''staff_id'', opt_json (os_staff x)), (''waitlist'', J_Bool (os_waitlist x))]"

definition str_member :: "string \<Rightarrow> json \<Rightarrow> string option" where
  "str_member k v = (case json_member k v of Some (J_Str s) \<Rightarrow> Some s | _ \<Rightarrow> None)"

definition slot_of_json :: "json \<Rightarrow> string \<Rightarrow> open_slot" where
  "slot_of_json v starts =
    \<lparr>os_starts = starts, os_ends = (case str_member ''ends_at'' v of Some e \<Rightarrow> e | None \<Rightarrow> []),
     os_staff = str_member ''staff_id'' v, os_waitlist = (json_member ''waitlist'' v = Some (J_Bool True))\<rparr>"

text \<open>\<open>{...result, k: v}\<close>.\<close>

fun with_member :: "string \<Rightarrow> json \<Rightarrow> json \<Rightarrow> json" where
  "with_member k v (J_Obj ms) = J_Obj (AList.update k v (from_entries ms))"
| "with_member k v other = J_Obj [(k, v)]"

definition without_secret :: "json \<Rightarrow> json" where
  "without_secret r = with_member ''deposit_client_secret'' J_Null r"

definition held_json :: "json \<Rightarrow> open_slot \<Rightarrow> json" where
  "held_json r x = J_Obj [(''result'', without_secret r), (''slot'', slot_json x)]"

definition held_visit :: "(string \<Rightarrow> json option) \<Rightarrow> string option \<Rightarrow> (json \<times> open_slot) option" where
  "held_visit parse saved =
    (case (case saved of None \<Rightarrow> Some J_Null | Some t \<Rightarrow> parse t) of
       None \<Rightarrow> None
     | Some v \<Rightarrow>
       (case (json_member ''result'' v, json_member ''slot'' v) of
          (Some r, Some x) \<Rightarrow>
            if str_member ''booking_id'' r = None \<or> str_member ''manage_token'' r = None then None
            else (case str_member ''starts_at'' x of
                    None \<Rightarrow> None | Some starts \<Rightarrow> Some (without_secret r, slot_of_json x starts))
        | _ \<Rightarrow> None))"

section \<open>Opening the page\<close>

definition booking_key :: "string \<Rightarrow> string" where
  "booking_key slug = ''connect-booking:'' @ slug"

text \<open>The page as it mounts; \<open>initial\<close> is the choice in the address, an item with its member and time.\<close>

definition open_flow ::
  "flow_env \<Rightarrow> string \<Rightarrow> string option \<Rightarrow> string option \<Rightarrow> string option \<Rightarrow> storage \<Rightarrow> booking_flow" where
  "open_flow env slug item staff starts sg =
    (let draft = read_draft (booking_key slug) sg;
         given = (item \<noteq> None \<and> item \<noteq> Some []);
         picked_starts = (if given then starts else map_of draft ''startsAt'')
     in \<lparr>bf_page = resource_initial,
         bf_picked_item = (case item of Some i \<Rightarrow> Some i | None \<Rightarrow> map_of draft ''itemId''),
         bf_picked_staff = (if given then staff else map_of draft ''staffId''),
         bf_picked_starts = picked_starts,
         bf_held = held_visit (fe_parse env) (map_of draft ''held''),
         bf_applied = False,
         bf_initial_time = (case picked_starts of Some t \<Rightarrow> t | None \<Rightarrow> []),
         bf_step = Service_Step, bf_item = [], bf_staff = any_staff, bf_week = None, bf_date = None,
         bf_days = None, bf_days_error = False, bf_slots = None, bf_slots_error = False, bf_programs = None,
         bf_reload = 0, bf_starts = [], bf_addons = [],
         bf_name = draft_field ''name'' draft, bf_phone = draft_field ''phone'' draft,
         bf_subject_name = draft_field ''subjectName'' draft, bf_subject_address = draft_field ''subjectAddress'' draft,
         bf_returning = None, bf_subject_id = None, bf_note = draft_field ''note'' draft, bf_touched = False,
         bf_result = None, bf_held_slot = None, bf_resume_failed = False, bf_key = None, bf_action = idle_action,
         bf_draft_deps = None, bf_programs_deps = None, bf_days_deps = None, bf_slots_deps = None,
         bf_live_programs = None, bf_live_days = None, bf_live_slots = None, bf_resuming = None\<rparr>)"

section \<open>The effects\<close>

text \<open>
  Every effect takes the render \<open>r\<close> it closes over and the state \<open>s\<close> that the effects before it left: what it
  reads is the render's, what it sets is the state's. It runs when its values differ from those it last ran with.
\<close>

definition draft_deps_of :: "booking_flow \<Rightarrow> draft_deps" where
  "draft_deps_of r =
    \<lparr>dd_result = bf_result r, dd_step = bf_step r, dd_slots = bf_slots r, dd_held = bf_held_slot r, dd_item = bf_item r,
     dd_staff = bf_staff r, dd_starts = bf_starts r,
     dd_fields = [bf_name r, bf_phone r, bf_subject_name r, bf_subject_address r, bf_note r]\<rparr>"

definition draft_of_flow :: "flow_env \<Rightarrow> booking_flow \<Rightarrow> (string, string) js_map option" where
  "draft_of_flow env r =
    (let paying = (bf_step r = Pay_Step \<and> (case bf_result r of
           Some v \<Rightarrow> json_member ''manage_token'' v \<noteq> Some J_Null | None \<Rightarrow> False));
         visit = (if paying then (case slot_at r (bf_starts r) of Some x \<Rightarrow> Some x | None \<Rightarrow> bf_held_slot r) else None)
     in if bf_result r \<noteq> None \<and> visit = None then None
        else Some ([(''itemId'', bf_item r), (''staffId'', bf_staff r), (''startsAt'', bf_starts r), (''name'', bf_name r),
            (''phone'', bf_phone r), (''subjectName'', bf_subject_name r), (''subjectAddress'', bf_subject_address r),
            (''note'', bf_note r)]
          @ (case (visit, bf_result r) of
               (Some x, Some v) \<Rightarrow> [(''held'', json_text (fe_num env) (held_json v x))] | _ \<Rightarrow> [])))"

definition flow_draft_effect ::
  "flow_env \<Rightarrow> string \<Rightarrow> booking_flow \<Rightarrow> booking_flow \<times> storage \<Rightarrow> booking_flow \<times> storage" where
  "flow_draft_effect env slug r st =
    (case st of (s, sg) \<Rightarrow>
       if bf_draft_deps s = Some (draft_deps_of r) then (s, sg)
       else (s\<lparr>bf_draft_deps := Some (draft_deps_of r)\<rparr>,
             if bf_applied s then write_draft (booking_key slug) (draft_of_flow env r) sg else sg))"

definition apply_selection :: "flow_env \<Rightarrow> booking_flow \<Rightarrow> pub_service \<Rightarrow> booking_flow \<Rightarrow> booking_flow" where
  "apply_selection env r v s =
    (let s1 = s\<lparr>bf_item := ps_id v\<rparr>;
         s2 = (case bf_picked_staff r of
                 Some m \<Rightarrow> if m \<noteq> [] \<and> m \<in> set (ps_staff v) then s1\<lparr>bf_staff := m\<rparr> else s1 | None \<Rightarrow> s1);
         starts = draft_day (fe_off env) (fe_other env) (case bf_picked_starts r of Some t \<Rightarrow> t | None \<Rightarrow> []) (flow_zone env r);
         s3 = (case starts of
                 Some d \<Rightarrow> if flow_today env r \<le> d then s2\<lparr>bf_date := Some d, bf_week := Some d\<rparr> else s2 | None \<Rightarrow> s2)
     in case bf_held r of
          None \<Rightarrow> s3\<lparr>bf_step := first_step r (ps_id v)\<rparr>
        | Some (res, x) \<Rightarrow>
            s3\<lparr>bf_result := Some res, bf_held_slot := Some x, bf_step := Pay_Step,
               bf_resuming := (case str_member ''manage_token'' res of Some t \<Rightarrow> Some t | None \<Rightarrow> Some [])\<rparr>)"

definition initial_effect :: "flow_env \<Rightarrow> booking_flow \<Rightarrow> booking_flow \<Rightarrow> booking_flow" where
  "initial_effect env r s =
    (if bf_applied s \<or> booking_page_of r = None \<or> \<not> flow_ready r then s
     else let s1 = s\<lparr>bf_applied := True\<rparr>
          in case bf_picked_item r of
               None \<Rightarrow> s1
             | Some i \<Rightarrow> (case service_in r i of None \<Rightarrow> s1 | Some v \<Rightarrow> apply_selection env r v s1))"

definition programs_deps_of :: "booking_flow \<Rightarrow> programs_deps" where
  "programs_deps_of r =
    \<lparr>gd_item = bf_item r, gd_staff = bf_staff r, gd_program = is_program r, gd_ready = flow_ready r, gd_reload = bf_reload r\<rparr>"

definition programs_effect :: "booking_flow \<Rightarrow> booking_flow \<Rightarrow> booking_flow" where
  "programs_effect r s =
    (if bf_programs_deps s = Some (programs_deps_of r) then s
     else let s1 = s\<lparr>bf_programs_deps := Some (programs_deps_of r), bf_live_programs := None\<rparr>
          in if bf_item r = [] \<or> \<not> flow_ready r \<or> \<not> is_program r then s1
             else s1\<lparr>bf_slots := None, bf_slots_error := False, bf_live_programs := Some (bf_item r, bf_staff r)\<rparr>)"

definition days_deps_of :: "flow_env \<Rightarrow> booking_flow \<Rightarrow> days_deps" where
  "days_deps_of env r = programs_deps.extend (programs_deps_of r) \<lparr>gd_from = flow_from env r, gd_extra = flow_extra r\<rparr>"

definition days_effect :: "flow_env \<Rightarrow> booking_flow \<Rightarrow> booking_flow \<Rightarrow> booking_flow" where
  "days_effect env r s =
    (if bf_days_deps s = Some (days_deps_of env r) then s
     else let s1 = s\<lparr>bf_days_deps := Some (days_deps_of env r), bf_live_days := None\<rparr>
          in if bf_item r = [] \<or> \<not> flow_ready r \<or> is_program r then s1
             else s1\<lparr>bf_days := None, bf_days_error := False,
                     bf_live_days := Some \<lparr>dq_item = bf_item r, dq_staff = bf_staff r, dq_from = flow_from env r, dq_extra = flow_extra r\<rparr>\<rparr>)"

definition slots_deps_of :: "flow_env \<Rightarrow> booking_flow \<Rightarrow> slots_deps" where
  "slots_deps_of env r = programs_deps.extend (programs_deps_of r) \<lparr>gd_day = flow_day env r, gd_minutes = flow_extra r\<rparr>"

definition slots_effect :: "flow_env \<Rightarrow> booking_flow \<Rightarrow> booking_flow \<Rightarrow> booking_flow" where
  "slots_effect env r s =
    (if bf_slots_deps s = Some (slots_deps_of env r) then s
     else let s1 = s\<lparr>bf_slots_deps := Some (slots_deps_of env r), bf_live_slots := None\<rparr>
          in if is_program r then s1
             else let s2 = s1\<lparr>bf_starts := []\<rparr>
                  in case flow_day env r of
                       None \<Rightarrow> s2
                     | Some d \<Rightarrow>
                         if bf_item r = [] \<or> \<not> flow_ready r then s2
                         else s2\<lparr>bf_slots := None, bf_slots_error := False,
                                 bf_live_slots := Some \<lparr>sq_item = bf_item r, sq_staff = bf_staff r, sq_day = d, sq_extra = flow_extra r\<rparr>\<rparr>)"

text \<open>One commit runs the effects in their order; a render that changed something is committed again.\<close>

definition flow_pass :: "flow_env \<Rightarrow> string \<Rightarrow> booking_flow \<times> storage \<Rightarrow> booking_flow \<times> storage" where
  "flow_pass env slug st =
    (let r = fst st; (s, sg) = flow_draft_effect env slug r st
     in (slots_effect env r (days_effect env r (programs_effect r (initial_effect env r s))), sg))"

definition flow_settle :: "flow_env \<Rightarrow> string \<Rightarrow> booking_flow \<times> storage \<Rightarrow> booking_flow \<times> storage" where
  "flow_settle env slug st = (flow_pass env slug ^^ 4) st"

section \<open>Answers\<close>

text \<open>\<open>Date.parse\<close> of a text, without the clean-up of \<open>parseTimestamp\<close>.\<close>

definition date_parse :: "(string \<Rightarrow> int option) \<Rightarrow> string \<Rightarrow> int option" where
  "date_parse other t = (case iso_instant t of Some d \<Rightarrow> Some d | None \<Rightarrow> other t)"

definition program_slot :: "pub_program \<Rightarrow> open_slot" where
  "program_slot p =
    \<lparr>os_starts = pp_starts p, os_ends = (case pp_days p of d # _ \<Rightarrow> snd d | [] \<Rightarrow> pp_starts p),
     os_staff = Some (pp_staff p), os_waitlist = False\<rparr>"

definition programs_loaded :: "pub_program list \<Rightarrow> booking_flow \<Rightarrow> booking_flow" where
  "programs_loaded xs s = s\<lparr>bf_programs := Some xs, bf_slots := Some (map program_slot xs), bf_live_programs := None\<rparr>"

definition programs_broke :: "booking_flow \<Rightarrow> booking_flow" where
  "programs_broke s = s\<lparr>bf_slots_error := True, bf_live_programs := None\<rparr>"

definition days_loaded :: "day_openings list \<Rightarrow> booking_flow \<Rightarrow> booking_flow" where
  "days_loaded ds s = s\<lparr>bf_days := Some ds, bf_live_days := None\<rparr>"

definition days_broke :: "booking_flow \<Rightarrow> booking_flow" where
  "days_broke s = s\<lparr>bf_days_error := True, bf_live_days := None\<rparr>"

text \<open>The first times loaded also pick the time of the address or of the draft.\<close>

definition slots_loaded :: "flow_env \<Rightarrow> open_slot list \<Rightarrow> booking_flow \<Rightarrow> booking_flow" where
  "slots_loaded env xs s =
    (let s1 = s\<lparr>bf_slots := Some xs, bf_live_slots := None\<rparr>
     in if bf_initial_time s = [] then s1
        else (case find (\<lambda>x. date_parse (fe_other env) (os_starts x) \<noteq> None
                     \<and> date_parse (fe_other env) (os_starts x) = date_parse (fe_other env) (bf_initial_time s)) xs of
                Some x \<Rightarrow> s1\<lparr>bf_starts := os_starts x, bf_step := Details_Step, bf_initial_time := []\<rparr>
              | None \<Rightarrow> s1\<lparr>bf_initial_time := []\<rparr>))"

definition slots_broke :: "booking_flow \<Rightarrow> booking_flow" where
  "slots_broke s = s\<lparr>bf_slots_error := True, bf_live_slots := None\<rparr>"

text \<open>The deposit a reload came back to: its new payment, or why there is none.\<close>

definition deposit_reopened :: "string \<Rightarrow> string \<Rightarrow> booking_flow \<Rightarrow> booking_flow" where
  "deposit_reopened secret account s =
    s\<lparr>bf_resuming := None,
      bf_result := map_option (\<lambda>r. with_member ''stripe_account_id'' (J_Str account)
        (with_member ''deposit_client_secret'' (J_Str secret) r)) (bf_result s)\<rparr>"

definition deposit_refused :: "json \<Rightarrow> booking_flow \<Rightarrow> booking_flow" where
  "deposit_refused e s =
    (if failed_code e \<in> {Some ''deposit_not_due'', Some ''deposit_in_progress''}
     then s\<lparr>bf_resuming := None, bf_step := Done_Step\<rparr>
     else s\<lparr>bf_resuming := None, bf_result := None, bf_held_slot := None, bf_resume_failed := True,
            bf_step := (case bf_picked_item s of Some i \<Rightarrow> first_step s i | None \<Rightarrow> Time_Step)\<rparr>)"

section \<open>Booking\<close>

definition booking_input_of :: "booking_flow \<Rightarrow> pub_service \<Rightarrow> open_slot \<Rightarrow> booking_input" where
  "booking_input_of s v x =
    \<lparr>bi_item = ps_id v, bi_staff = bf_staff s, bi_starts = os_starts x, bi_name = js_trim (bf_name s),
     bi_phone = normalize_phone (bf_phone s),
     bi_subject_name = (if flow_kind s = None then [] else js_trim (bf_subject_name s)),
     bi_subject_address = (if is_place (flow_kind s) \<and> bf_subject_id s = None then js_trim (bf_subject_address s) else []),
     bi_returning = bf_returning s, bi_subject_id = (if flow_kind s = None then None else bf_subject_id s),
     bi_note = js_trim (bf_note s), bi_addons = map (\<lambda>l. (pa_id (fst l), fst (snd l))) (addon_lines s)\<rparr>"

text \<open>
  \<open>book\<close> until it waits for the answer: the state and the request that goes out, its key, what it asks and
  whether it asks for the waiting list. \<open>fresh\<close> is the identifier at hand.
\<close>

definition book_begin :: "string \<Rightarrow> booking_flow \<Rightarrow> booking_flow \<times> (string \<times> booking_input \<times> bool) option" where
  "book_begin fresh s =
    (case (flow_service s, flow_slot s) of
       (Some v, Some x) \<Rightarrow>
         let s1 = s\<lparr>bf_resume_failed := False\<rparr>
         in if \<not> details_ok s then (s1\<lparr>bf_touched := True\<rparr>, None)
            else (case action_start (bf_action s1) of
                    None \<Rightarrow> (s1, None)
                  | Some a \<Rightarrow>
                      let input = booking_input_of s v x; (k, ref) = attempt_key fresh (bf_key s) input
                      in (s1\<lparr>bf_action := a, bf_key := ref\<rparr>, Some (k, input, flow_waitlist s)))
     | _ \<Rightarrow> (s, None))"

text \<open>A key the server has seen with another request is replaced once, and the same request sent again.\<close>

definition book_again :: "string \<Rightarrow> booking_input \<Rightarrow> booking_flow \<Rightarrow> booking_flow \<times> string" where
  "book_again fresh input s = (let (k, ref) = attempt_key fresh None input in (s\<lparr>bf_key := ref\<rparr>, k))"

definition book_done :: "json \<Rightarrow> booking_flow \<Rightarrow> booking_flow" where
  "book_done r s =
    s\<lparr>bf_result := Some r, bf_step := (if json_member ''deposit_client_secret'' r \<noteq> Some J_Null then Pay_Step else Done_Step),
      bf_action := action_end None (bf_action s)\<rparr>"

definition refresh_times :: "booking_flow \<Rightarrow> booking_flow" where
  "refresh_times s = s\<lparr>bf_starts := [], bf_key := None, bf_reload := Suc (bf_reload s), bf_step := Time_Step\<rparr>"

text \<open>A refused request (\<open>None\<close>: the connection broke).\<close>

definition booking_failure :: "json option \<Rightarrow> string \<Rightarrow> message" where
  "booking_failure e fallback =
    (case e of
       None \<Rightarrow> Caption ''connectionError''
     | Some v \<Rightarrow> if failed_status v = Some 409 then Caption ''slotTaken'' else failure_message v fallback)"

definition message_key :: "message \<Rightarrow> string" where
  "message_key m = (case m of Caption k \<Rightarrow> k | Counted k n \<Rightarrow> k | Fallback k \<Rightarrow> k)"

definition book_failed :: "json option \<Rightarrow> booking_flow \<Rightarrow> booking_flow" where
  "book_failed e s =
    (let s1 = (case e of Some v \<Rightarrow> if failed_status v = Some 409 then refresh_times s else s | None \<Rightarrow> s)
     in s1\<lparr>bf_action := action_end (Some (message_key (booking_failure e ''bookError''))) (bf_action s1)\<rparr>)"

section \<open>The visitor's handlers\<close>

definition go_to :: "booking_step \<Rightarrow> booking_flow \<Rightarrow> booking_flow" where
  "go_to k s = (if index_of k (step_order s) \<le> step_index s then s\<lparr>bf_step := k\<rparr> else s)"

definition step_after :: "booking_flow \<Rightarrow> int \<Rightarrow> booking_step option" where
  "step_after s i = (if 0 \<le> i \<and> nat i < length (step_order s) then Some (step_order s ! nat i) else None)"

text \<open>\<open>next\<close> off the details step, which books instead.\<close>

definition go_next :: "booking_flow \<Rightarrow> booking_flow" where
  "go_next s =
    (if \<not> can_next s then s\<lparr>bf_touched := True\<rparr>
     else case step_after s (step_index s + 1) of Some k \<Rightarrow> s\<lparr>bf_step := k\<rparr> | None \<Rightarrow> s)"

definition go_back :: "booking_flow \<Rightarrow> booking_flow" where
  "go_back s = (case step_after s (step_index s - 1) of Some k \<Rightarrow> s\<lparr>bf_step := k\<rparr> | None \<Rightarrow> s)"

definition set_service :: "string \<Rightarrow> booking_flow \<Rightarrow> booking_flow" where
  "set_service i s =
    (let s1 = s\<lparr>bf_item := i, bf_step := first_step s i, bf_key := None\<rparr>
     in case service_in s i of
          Some v \<Rightarrow> if bf_staff s \<noteq> any_staff \<and> bf_staff s \<notin> set (ps_staff v) then s1\<lparr>bf_staff := any_staff\<rparr> else s1
        | None \<Rightarrow> s1)"

definition set_staff :: "string \<Rightarrow> booking_flow \<Rightarrow> booking_flow" where
  "set_staff m s = s\<lparr>bf_staff := m, bf_date := None\<rparr>"

definition prev_week :: "flow_env \<Rightarrow> booking_flow \<Rightarrow> booking_flow" where
  "prev_week env s =
    (let d = shift_key (fe_off env) (flow_from env s) (-7) (flow_zone env s)
     in s\<lparr>bf_week := Some (if d < flow_today env s then flow_today env s else d), bf_date := None\<rparr>)"

definition next_week :: "flow_env \<Rightarrow> booking_flow \<Rightarrow> booking_flow" where
  "next_week env s =
    (if later_week env s
     then s\<lparr>bf_week := Some (shift_key (fe_off env) (flow_from env s) 7 (flow_zone env s)), bf_date := None\<rparr> else s)"

definition pick_date :: "string option \<Rightarrow> booking_flow \<Rightarrow> booking_flow" where
  "pick_date d s = s\<lparr>bf_date := d\<rparr>"

definition retry_slots :: "booking_flow \<Rightarrow> booking_flow" where
  "retry_slots s = s\<lparr>bf_reload := Suc (bf_reload s)\<rparr>"

definition pick_slot :: "string \<Rightarrow> booking_flow \<Rightarrow> booking_flow" where
  "pick_slot k s = s\<lparr>bf_starts := k, bf_key := None, bf_action := action_set_error None (bf_action s)\<rparr>"

definition toggle_addon :: "string \<Rightarrow> booking_flow \<Rightarrow> booking_flow" where
  "toggle_addon i s =
    s\<lparr>bf_key := None,
      bf_addons := (if in_cart (bf_addons s) i > 0 then filter (\<lambda>e. fst e \<noteq> i) (bf_addons s)
                    else AList.update i 1 (bf_addons s))\<rparr>"

definition set_returning :: "(string \<times> string option) option \<Rightarrow> booking_flow \<Rightarrow> booking_flow" where
  "set_returning identity s =
    s\<lparr>bf_returning := map_option fst identity, bf_subject_id := Option.bind identity snd, bf_key := None\<rparr>"

definition select_usual :: "string \<Rightarrow> string \<Rightarrow> booking_flow \<Rightarrow> booking_flow" where
  "select_usual i previous s =
    (case service_in s i of
       None \<Rightarrow> s
     | Some v \<Rightarrow>
         s\<lparr>bf_item := ps_id v, bf_staff := (if previous \<in> set (ps_staff v) then previous else any_staff),
           bf_starts := [], bf_slots := None, bf_days := None, bf_date := None, bf_week := None, bf_addons := [],
           bf_key := None, bf_action := action_set_error None (bf_action s), bf_step := first_step s (ps_id v)\<rparr>)"

definition clear_returning :: "booking_flow \<Rightarrow> booking_flow" where
  "clear_returning s = s\<lparr>bf_returning := None, bf_subject_id := None, bf_key := None\<rparr>"

definition type_name :: "string \<Rightarrow> booking_flow \<Rightarrow> booking_flow" where
  "type_name v s = clear_returning (s\<lparr>bf_name := v\<rparr>)"

definition type_phone :: "string \<Rightarrow> booking_flow \<Rightarrow> booking_flow" where
  "type_phone v s = clear_returning (s\<lparr>bf_phone := v\<rparr>)"

definition type_subject_name :: "string \<Rightarrow> booking_flow \<Rightarrow> booking_flow" where
  "type_subject_name v s = s\<lparr>bf_subject_name := v, bf_subject_id := None, bf_key := None\<rparr>"

definition type_subject_address :: "string \<Rightarrow> booking_flow \<Rightarrow> booking_flow" where
  "type_subject_address v s = s\<lparr>bf_subject_address := v, bf_key := None\<rparr>"

definition type_note :: "string \<Rightarrow> booking_flow \<Rightarrow> booking_flow" where
  "type_note v s = s\<lparr>bf_note := v\<rparr>"

definition deposit_paid :: "booking_flow \<Rightarrow> booking_flow" where
  "deposit_paid s = s\<lparr>bf_step := Done_Step\<rparr>"

definition restart :: "booking_flow \<Rightarrow> booking_flow" where
  "restart s =
    s\<lparr>bf_result := None, bf_held_slot := None, bf_resume_failed := False, bf_starts := [], bf_addons := [], bf_item := [],
      bf_key := None, bf_step := Service_Step\<rparr>"

section \<open>The steps of a visit\<close>

datatype visitor =
    Go_To booking_step | Go_Next | Go_Back | Set_Service string | Set_Staff string | Prev_Week | Next_Week
  | Pick_Date "string option" | Retry_Slots | Pick_Slot string | Toggle_Addon string
  | Set_Returning "(string \<times> string option) option" | Select_Usual string string
  | Type_Name string | Type_Phone string | Type_Subject_Name string | Type_Subject_Address string | Type_Note string
  | Book string | Book_Again string booking_input | Book_Done json | Book_Failed "json option"
  | Deposit_Paid | Restart

fun visit :: "flow_env \<Rightarrow> visitor \<Rightarrow> booking_flow \<Rightarrow> booking_flow" where
  "visit env (Go_To k) s = go_to k s"
| "visit env Go_Next s = go_next s"
| "visit env Go_Back s = go_back s"
| "visit env (Set_Service i) s = set_service i s"
| "visit env (Set_Staff m) s = set_staff m s"
| "visit env Prev_Week s = prev_week env s"
| "visit env Next_Week s = next_week env s"
| "visit env (Pick_Date d) s = pick_date d s"
| "visit env Retry_Slots s = retry_slots s"
| "visit env (Pick_Slot k) s = pick_slot k s"
| "visit env (Toggle_Addon i) s = toggle_addon i s"
| "visit env (Set_Returning identity) s = set_returning identity s"
| "visit env (Select_Usual i m) s = select_usual i m s"
| "visit env (Type_Name v) s = type_name v s"
| "visit env (Type_Phone v) s = type_phone v s"
| "visit env (Type_Subject_Name v) s = type_subject_name v s"
| "visit env (Type_Subject_Address v) s = type_subject_address v s"
| "visit env (Type_Note v) s = type_note v s"
| "visit env (Book fresh) s = fst (book_begin fresh s)"
| "visit env (Book_Again fresh input) s = fst (book_again fresh input s)"
| "visit env (Book_Done r) s = book_done r s"
| "visit env (Book_Failed e) s = book_failed e s"
| "visit env Deposit_Paid s = deposit_paid s"
| "visit env Restart s = restart s"

text \<open>\<open>offers\<close> and \<open>runs\<close> say which times and which program dates the server has answered a query with.\<close>

inductive flow_moves ::
  "flow_env \<Rightarrow> string \<Rightarrow> (slots_query \<Rightarrow> open_slot list \<Rightarrow> bool) \<Rightarrow> (string \<times> string \<Rightarrow> pub_program list \<Rightarrow> bool)
    \<Rightarrow> booking_flow \<times> storage \<Rightarrow> booking_flow \<times> storage \<Rightarrow> bool"
  for env :: flow_env and slug :: string and offers :: "slots_query \<Rightarrow> open_slot list \<Rightarrow> bool"
    and runs :: "string \<times> string \<Rightarrow> pub_program list \<Rightarrow> bool" where
  flow_page: "rc_loading (bf_page s) \<Longrightarrow>
    flow_moves env slug offers runs (s, sg) (flow_settle env slug (s\<lparr>bf_page := resource_loaded p (bf_page s)\<rparr>, sg))"
| flow_no_page: "rc_loading (bf_page s) \<Longrightarrow>
    flow_moves env slug offers runs (s, sg) (flow_settle env slug (s\<lparr>bf_page := resource_broke e (bf_page s)\<rparr>, sg))"
| flow_programs: "bf_live_programs s = Some q \<Longrightarrow> runs q xs \<Longrightarrow>
    flow_moves env slug offers runs (s, sg) (flow_settle env slug (programs_loaded xs s, sg))"
| flow_no_programs: "bf_live_programs s = Some q \<Longrightarrow>
    flow_moves env slug offers runs (s, sg) (flow_settle env slug (programs_broke s, sg))"
| flow_days: "bf_live_days s = Some dq \<Longrightarrow>
    flow_moves env slug offers runs (s, sg) (flow_settle env slug (days_loaded ds s, sg))"
| flow_no_days: "bf_live_days s = Some dq \<Longrightarrow>
    flow_moves env slug offers runs (s, sg) (flow_settle env slug (days_broke s, sg))"
| flow_slots: "bf_live_slots s = Some sq \<Longrightarrow> offers sq ys \<Longrightarrow>
    flow_moves env slug offers runs (s, sg) (flow_settle env slug (slots_loaded env ys s, sg))"
| flow_no_slots: "bf_live_slots s = Some sq \<Longrightarrow>
    flow_moves env slug offers runs (s, sg) (flow_settle env slug (slots_broke s, sg))"
| flow_deposit: "bf_resuming s = Some t \<Longrightarrow>
    flow_moves env slug offers runs (s, sg) (flow_settle env slug (deposit_reopened secret account s, sg))"
| flow_no_deposit: "bf_resuming s = Some t \<Longrightarrow>
    flow_moves env slug offers runs (s, sg) (flow_settle env slug (deposit_refused e s, sg))"
| flow_visit: "flow_moves env slug offers runs (s, sg) (flow_settle env slug (visit env a s, sg))"

definition flow_opened :: "flow_env \<Rightarrow> string \<Rightarrow> booking_flow \<times> storage \<Rightarrow> bool" where
  "flow_opened env slug st \<longleftrightarrow>
    (\<exists>item staff starts sg. st = flow_settle env slug (open_flow env slug item staff starts sg, sg))"

section \<open>The effects come to rest\<close>

text \<open>What no loading effect touches.\<close>

definition kept :: "booking_flow \<Rightarrow> booking_flow" where
  "kept s = s\<lparr>bf_days := None, bf_days_error := False, bf_slots := None, bf_slots_error := False, bf_starts := [],
    bf_draft_deps := None, bf_programs_deps := None, bf_days_deps := None, bf_slots_deps := None,
    bf_live_programs := None, bf_live_days := None, bf_live_slots := None\<rparr>"

named_theorems effect_defs \<open>the loading effects\<close>

declare programs_effect_def [effect_defs] days_effect_def [effect_defs] slots_effect_def [effect_defs]

lemma kept_effects [simp]:
  "kept (programs_effect r s) = kept s" "kept (days_effect env r s) = kept s" "kept (slots_effect env r s) = kept s"
  by (simp_all add: effect_defs kept_def Let_def split: option.splits)

lemma kept_fields:
  assumes "kept a = kept b"
  shows "bf_page a = bf_page b" "bf_item a = bf_item b" "bf_staff a = bf_staff b" "bf_week a = bf_week b"
    "bf_date a = bf_date b" "bf_reload a = bf_reload b" "bf_addons a = bf_addons b" "bf_applied a = bf_applied b"
    "bf_step a = bf_step b" "bf_result a = bf_result b" "bf_held_slot a = bf_held_slot b"
  using assms by (cases a; cases b; simp add: kept_def)+

lemma deps_of_kept:
  assumes "kept a = kept b"
  shows "programs_deps_of a = programs_deps_of b" "days_deps_of env a = days_deps_of env b"
    "bf_days a = bf_days b \<Longrightarrow> slots_deps_of env a = slots_deps_of env b"
proof -
  note f = kept_fields [OF assms]
  have page: "booking_page_of a = booking_page_of b" "flow_ready a = flow_ready b"
    by (simp_all add: booking_page_of_def flow_ready_def f)
  then have service: "service_in a = service_in b" "page_addons a = page_addons b" "flow_zone env a = flow_zone env b"
    by (simp_all add: service_in_def page_addons_def flow_zone_def fun_eq_iff)
  then have picked: "flow_service a = flow_service b" "is_program a = is_program b" "flow_today env a = flow_today env b"
    by (simp_all add: flow_service_def is_program_def flow_today_def f page split: option.split)
  then have extra: "flow_offered a = flow_offered b" "flow_extra a = flow_extra b" "flow_from env a = flow_from env b"
    by (simp_all add: flow_offered_def flow_extra_def flow_from_def f service split: option.split)
  show "programs_deps_of a = programs_deps_of b" by (simp add: programs_deps_of_def f picked page)
  then show "days_deps_of env a = days_deps_of env b" by (simp add: days_deps_of_def extra)
  show "bf_days a = bf_days b \<Longrightarrow> slots_deps_of env a = slots_deps_of env b"
    using \<open>programs_deps_of a = programs_deps_of b\<close> by (simp add: slots_deps_of_def flow_day_def f extra split: option.split)
qed

lemma effects_at_rest:
  "bf_programs_deps s = Some (programs_deps_of r) \<Longrightarrow> programs_effect r s = s"
  "bf_days_deps s = Some (days_deps_of env r) \<Longrightarrow> days_effect env r s = s"
  "bf_slots_deps s = Some (slots_deps_of env r) \<Longrightarrow> slots_effect env r s = s"
  "bf_draft_deps s = Some (draft_deps_of r) \<Longrightarrow> flow_draft_effect env slug r (s, sg) = (s, sg)"
  by (simp_all add: effect_defs flow_draft_effect_def)

lemma effect_deps [simp]:
  "bf_programs_deps (programs_effect r s) = Some (programs_deps_of r)"
  "bf_days_deps (days_effect env r s) = Some (days_deps_of env r)"
  "bf_slots_deps (slots_effect env r s) = Some (slots_deps_of env r)"
  "bf_days_deps (programs_effect r s) = bf_days_deps s" "bf_slots_deps (programs_effect r s) = bf_slots_deps s"
  "bf_programs_deps (days_effect env r s) = bf_programs_deps s" "bf_slots_deps (days_effect env r s) = bf_slots_deps s"
  "bf_programs_deps (slots_effect env r s) = bf_programs_deps s" "bf_days_deps (slots_effect env r s) = bf_days_deps s"
  "bf_draft_deps (programs_effect r s) = bf_draft_deps s" "bf_draft_deps (days_effect env r s) = bf_draft_deps s"
  "bf_draft_deps (slots_effect env r s) = bf_draft_deps s"
  "bf_days (programs_effect r s) = bf_days s" "bf_days (slots_effect env r s) = bf_days s"
  by (auto simp: effect_defs Let_def split: option.splits)

lemma draft_at_rest: "bf_draft_deps (fst st) = Some (draft_deps_of r) \<Longrightarrow> flow_draft_effect env slug r st = st"
  by (cases st) (simp add: flow_draft_effect_def)

definition calm :: "booking_flow \<Rightarrow> bool" where
  "calm s \<longleftrightarrow> bf_applied s \<or> booking_page_of s = None \<or> \<not> flow_ready s"

lemma calm_kept: "kept a = kept b \<Longrightarrow> calm a = calm b"
  using kept_fields [of a b] by (simp add: calm_def booking_page_of_def flow_ready_def)

definition load_effects :: "flow_env \<Rightarrow> booking_flow \<Rightarrow> booking_flow \<Rightarrow> booking_flow" where
  "load_effects env r s = slots_effect env r (days_effect env r (programs_effect r s))"

lemma kept_load [simp]: "kept (load_effects env r s) = kept s"
  by (simp add: load_effects_def)

definition drafted :: "flow_env \<Rightarrow> string \<Rightarrow> booking_flow \<Rightarrow> booking_flow \<times> storage \<Rightarrow> booking_flow" where
  "drafted env slug r st = fst (flow_draft_effect env slug r st)"

lemma same_draft_deps: "bf_draft_deps s = d \<Longrightarrow> s\<lparr>bf_draft_deps := d\<rparr> = s"
  by (cases s) simp

lemma drafted_eq: "drafted env slug r st = (fst st)\<lparr>bf_draft_deps := Some (draft_deps_of r)\<rparr>"
  by (cases st) (simp add: drafted_def flow_draft_effect_def same_draft_deps)

lemma kept_drafted [simp]: "kept (s\<lparr>bf_draft_deps := d\<rparr>) = kept s"
  by (simp add: kept_def)

lemma fst_flow_pass:
  "fst (flow_pass env slug st) = load_effects env (fst st)
     (initial_effect env (fst st) ((fst st)\<lparr>bf_draft_deps := Some (draft_deps_of (fst st))\<rparr>))"
  using drafted_eq [of env slug "fst st" st]
  by (simp add: drafted_def flow_pass_def load_effects_def Let_def split: prod.split) (metis fst_conv)

lemma flow_pass_calm:
  "calm (fst st) \<Longrightarrow>
    fst (flow_pass env slug st) = load_effects env (fst st) ((fst st)\<lparr>bf_draft_deps := Some (draft_deps_of (fst st))\<rparr>)"
  unfolding fst_flow_pass by (auto simp: initial_effect_def calm_def)

lemma calm_pass: "calm (fst (flow_pass env slug st))"
  unfolding fst_flow_pass calm_kept [OF kept_load]
  by (auto simp: initial_effect_def calm_def booking_page_of_def flow_ready_def apply_selection_def Let_def split: option.splits)

lemma draft_deps_ignored [simp]: "draft_deps_of (s\<lparr>bf_draft_deps := d\<rparr>) = draft_deps_of s"
  by (simp add: draft_deps_of_def)

lemma load_at_rest:
  assumes "bf_programs_deps s = Some (programs_deps_of r)" "bf_days_deps s = Some (days_deps_of env r)"
    "bf_slots_deps s = Some (slots_deps_of env r)"
  shows "load_effects env r s = s"
  using assms by (simp add: load_effects_def effects_at_rest)

text \<open>The state after the third commit needs no loading effect any more.\<close>

definition loads_settled :: "flow_env \<Rightarrow> booking_flow \<Rightarrow> bool" where
  "loads_settled env s \<longleftrightarrow> bf_programs_deps s = Some (programs_deps_of s) \<and> bf_days_deps s = Some (days_deps_of env s)
    \<and> bf_slots_deps s = Some (slots_deps_of env s)"

lemma third_pass_settles:
  fixes env :: flow_env and s :: booking_flow
  assumes "calm s"
  defines "t \<equiv> load_effects env s (s\<lparr>bf_draft_deps := Some (draft_deps_of s)\<rparr>)"
  defines "u \<equiv> load_effects env t (t\<lparr>bf_draft_deps := Some (draft_deps_of t)\<rparr>)"
  shows "loads_settled env u" "calm t" "calm u"
proof -
  let ?t = "t\<lparr>bf_draft_deps := Some (draft_deps_of t)\<rparr>"
  have t: "kept t = kept s" by (simp add: t_def)
  note deps = deps_of_kept [OF t]
  have stored: "bf_programs_deps t = Some (programs_deps_of t)" "bf_days_deps t = Some (days_deps_of env t)"
    by (simp_all add: deps) (simp_all add: t_def load_effects_def)
  have u: "u = slots_effect env t ?t"
    using stored by (simp add: u_def load_effects_def effects_at_rest)
  have ku: "kept u = kept t" by (simp add: u)
  have "bf_days u = bf_days t" by (simp add: u)
  note du = deps_of_kept [OF ku]
  show "loads_settled env u"
    unfolding loads_settled_def du(1,2) du(3) [OF \<open>bf_days u = bf_days t\<close>] using stored by (simp add: u)
  show "calm t" "calm u" using assms(1) calm_kept [OF t] calm_kept [OF ku] by simp_all
qed

lemma settle_at_rest:
  "flow_pass env slug (flow_settle env slug st) = flow_settle env slug st \<and> loads_settled env (fst (flow_settle env slug st))"
proof -
  define s1 where "s1 = flow_pass env slug st"
  define s2 where "s2 = flow_pass env slug s1"
  define s3 where "s3 = flow_pass env slug s2"
  define s4 where "s4 = flow_pass env slug s3"
  have settle: "flow_settle env slug st = s4"
    by (simp add: flow_settle_def s1_def s2_def s3_def s4_def numeral_eq_Suc)
  have c1: "calm (fst s1)" by (simp add: s1_def calm_pass)
  note p2 = flow_pass_calm [OF c1, of env slug, folded s2_def]
  note third = third_pass_settles [OF c1, of env, folded p2]
  note p3 = flow_pass_calm [OF third(2), of env slug, folded s3_def]
  from third have rest3: "loads_settled env (fst s3)" "calm (fst s3)" by (simp_all add: p3)
  note p4 = flow_pass_calm [OF rest3(2), of env slug, folded s4_def]
  let ?t = "(fst s3)\<lparr>bf_draft_deps := Some (draft_deps_of (fst s3))\<rparr>"
  have s4: "fst s4 = ?t" using rest3(1) by (simp add: p4 load_at_rest loads_settled_def)
  have same: "kept ?t = kept (fst s3)" "bf_days ?t = bf_days (fst s3)" by simp_all
  have rest4: "loads_settled env ?t" "calm ?t"
    using rest3 calm_kept [OF same(1)] unfolding loads_settled_def deps_of_kept(1,2) [OF same(1)] deps_of_kept(3) [OF same] by simp_all
  have drafts: "flow_draft_effect env slug (fst s4) s4 = s4"
    by (rule draft_at_rest) (simp add: s4)
  have "flow_pass env slug s4 = s4"
  proof -
    have "initial_effect env ?t ?t = ?t" using rest4(2) by (auto simp: initial_effect_def calm_def)
    moreover have "slots_effect env ?t (days_effect env ?t (programs_effect ?t ?t)) = ?t"
      using load_at_rest [of ?t ?t env] rest4(1) by (simp add: load_effects_def loads_settled_def)
    ultimately show ?thesis
      using drafts s4 by (simp add: flow_pass_def Let_def) (metis (no_types, lifting) case_prod_conv prod.collapse)
  qed
  then show ?thesis using rest4(1) s4 settle by simp
qed

text \<open>C27: rendering always comes to rest. Whatever the page, the choices and the draft are, four commits of the
  effects reach a state that a further commit leaves as it is, and in it every loading effect has run with the
  values on the page.\<close>

theorem flow_settles:
  "flow_pass env slug (flow_settle env slug st) = flow_settle env slug st \<and> loads_settled env (fst (flow_settle env slug st))"
  by (rule settle_at_rest)

section \<open>Times are shown for what is chosen\<close>

definition query_of :: "slots_deps \<Rightarrow> string \<Rightarrow> slots_query" where
  "query_of D d = \<lparr>sq_item = gd_item D, sq_staff = gd_staff D, sq_day = d, sq_extra = gd_minutes D\<rparr>"

text \<open>What the times on the page, and those on their way, are an answer to.\<close>

definition times_inv :: "(slots_query \<Rightarrow> open_slot list \<Rightarrow> bool) \<Rightarrow> booking_flow \<Rightarrow> bool" where
  "times_inv offers s \<longleftrightarrow>
    (case bf_slots_deps s of
       None \<Rightarrow> bf_slots s = None \<and> bf_live_slots s = None
     | Some D \<Rightarrow>
         (\<forall>q. bf_live_slots s = Some q \<longrightarrow> \<not> gd_program D \<and> (\<exists>d. gd_day D = Some d \<and> q = query_of D d))
         \<and> (\<forall>d xs. \<not> gd_program D \<longrightarrow> gd_ready D \<longrightarrow> gd_item D \<noteq> [] \<longrightarrow> gd_day D = Some d \<longrightarrow> bf_slots s = Some xs
              \<longrightarrow> offers (query_of D d) xs))"

definition programs_inv :: "booking_flow \<Rightarrow> bool" where
  "programs_inv s \<longleftrightarrow> (bf_live_programs s \<noteq> None \<longrightarrow> (\<exists>G. bf_programs_deps s = Some G \<and> gd_program G))"

definition page_inv :: "booking_flow \<Rightarrow> bool" where
  "page_inv s \<longleftrightarrow> (rc_loading (bf_page s) \<longrightarrow> rc_data (bf_page s) = None \<and> \<not> rc_not_found (bf_page s) \<and> \<not> rc_failed (bf_page s))
    \<and> (rc_data (bf_page s) \<noteq> None \<longrightarrow> flow_ready s) \<and> (\<forall>e\<in>set (bf_addons s). snd e = 1)"

definition visit_inv :: "(slots_query \<Rightarrow> open_slot list \<Rightarrow> bool) \<Rightarrow> booking_flow \<Rightarrow> bool" where
  "visit_inv offers s \<longleftrightarrow> times_inv offers s \<and> programs_inv s \<and> page_inv s"

lemma deps_extend [simp]:
  "gd_item (slots_deps_of env r) = bf_item r" "gd_staff (slots_deps_of env r) = bf_staff r"
  "gd_program (slots_deps_of env r) = is_program r" "gd_ready (slots_deps_of env r) = flow_ready r"
  "gd_day (slots_deps_of env r) = flow_day env r" "gd_minutes (slots_deps_of env r) = flow_extra r"
  "gd_program (programs_deps_of r) = is_program r"
  by (simp_all add: slots_deps_of_def programs_deps_of_def programs_deps.extend_def)

lemma times_inv_effects:
  "times_inv offers s \<Longrightarrow> times_inv offers (programs_effect r s)"
  "times_inv offers s \<Longrightarrow> times_inv offers (days_effect env r s)"
  "times_inv offers s \<Longrightarrow> times_inv offers (slots_effect env r s)"
  by (auto simp: times_inv_def effect_defs Let_def query_of_def split: option.splits)

lemma programs_inv_effects:
  "programs_inv s \<Longrightarrow> programs_inv (programs_effect r s)" "programs_inv s \<Longrightarrow> programs_inv (days_effect env r s)"
  "programs_inv s \<Longrightarrow> programs_inv (slots_effect env r s)"
  by (auto simp: programs_inv_def effect_defs Let_def split: option.splits)

lemma page_inv_kept: "kept a = kept b \<Longrightarrow> page_inv a = page_inv b"
  using kept_fields [of a b] by (simp add: page_inv_def flow_ready_def)

text \<open>An operation that leaves the times, their queries and the page alone keeps the invariant.\<close>

definition same_loads :: "booking_flow \<Rightarrow> booking_flow \<Rightarrow> bool" where
  "same_loads s t \<longleftrightarrow> bf_slots_deps t = bf_slots_deps s \<and> bf_live_slots t = bf_live_slots s
    \<and> (bf_slots t = bf_slots s \<or> bf_slots t = None) \<and> bf_programs_deps t = bf_programs_deps s
    \<and> bf_live_programs t = bf_live_programs s \<and> bf_page t = bf_page s
    \<and> (\<forall>e\<in>set (bf_addons t). e \<in> set (bf_addons s) \<or> snd e = 1)"

lemma visit_inv_same: "same_loads s t \<Longrightarrow> visit_inv offers s \<Longrightarrow> visit_inv offers t"
  by (auto simp: same_loads_def visit_inv_def times_inv_def programs_inv_def page_inv_def flow_ready_def split: option.splits)

lemma visit_inv_load: "visit_inv offers s \<Longrightarrow> visit_inv offers (load_effects env r s)"
  unfolding visit_inv_def page_inv_kept [OF kept_load]
  by (simp add: load_effects_def times_inv_effects programs_inv_effects)

lemma same_loads_initial: "same_loads r (initial_effect env r (r\<lparr>bf_draft_deps := d\<rparr>))"
  by (auto simp: initial_effect_def same_loads_def apply_selection_def Let_def split: option.splits)

lemma visit_inv_pass: "visit_inv offers (fst st) \<Longrightarrow> visit_inv offers (fst (flow_pass env slug st))"
  unfolding fst_flow_pass by (intro visit_inv_load visit_inv_same [OF same_loads_initial])

lemma visit_inv_settle: "visit_inv offers (fst st) \<Longrightarrow> visit_inv offers (fst (flow_settle env slug st))"
  by (simp add: flow_settle_def numeral_eq_Suc visit_inv_pass)

lemma same_loads_visit: "same_loads s (visit env a s)"
  by (cases a)
    (auto simp: same_loads_def go_to_def go_next_def go_back_def set_service_def set_staff_def prev_week_def next_week_def
      pick_date_def retry_slots_def pick_slot_def toggle_addon_def set_returning_def select_usual_def clear_returning_def
      type_name_def type_phone_def type_subject_name_def type_subject_address_def type_note_def book_begin_def
      book_again_def book_done_def book_failed_def refresh_times_def deposit_paid_def restart_def Let_def attempt_key_def
      dest: set_update_subset [THEN subsetD] split: option.splits if_splits prod.splits)

definition flow_inv :: "flow_env \<Rightarrow> (slots_query \<Rightarrow> open_slot list \<Rightarrow> bool) \<Rightarrow> booking_flow \<times> storage \<Rightarrow> bool" where
  "flow_inv env offers st \<longleftrightarrow> loads_settled env (fst st) \<and> visit_inv offers (fst st)"

lemma flow_inv_settle: "visit_inv offers (fst st) \<Longrightarrow> flow_inv env offers (flow_settle env slug st)"
  by (simp add: flow_inv_def visit_inv_settle settle_at_rest)

lemma page_apart [simp]:
  "times_inv offers (s\<lparr>bf_page := r\<rparr>) = times_inv offers s" "programs_inv (s\<lparr>bf_page := r\<rparr>) = programs_inv s"
  by (simp_all add: times_inv_def programs_inv_def split: option.split)

lemma visit_inv_answers:
  assumes "flow_inv env offers (s, sg)"
  shows "bf_live_programs s = Some q \<Longrightarrow> visit_inv offers (programs_loaded xs s)"
    "visit_inv offers (programs_broke s)" "visit_inv offers (days_loaded ds s)" "visit_inv offers (days_broke s)"
    "bf_live_slots s = Some sq \<Longrightarrow> offers sq ys \<Longrightarrow> visit_inv offers (slots_loaded env ys s)"
    "visit_inv offers (slots_broke s)" "visit_inv offers (deposit_reopened secret account s)" "visit_inv offers (deposit_refused e s)"
    "rc_loading (bf_page s) \<Longrightarrow> visit_inv offers (s\<lparr>bf_page := resource_loaded p (bf_page s)\<rparr>)"
    "rc_loading (bf_page s) \<Longrightarrow> visit_inv offers (s\<lparr>bf_page := resource_broke failure (bf_page s)\<rparr>)"
proof -
  have inv: "visit_inv offers s" and rest: "loads_settled env s" using assms by (simp_all add: flow_inv_def)
  show "visit_inv offers (programs_broke s)" "visit_inv offers (days_loaded ds s)" "visit_inv offers (days_broke s)"
    "visit_inv offers (slots_broke s)" "visit_inv offers (deposit_reopened secret account s)" "visit_inv offers (deposit_refused e s)"
    using inv
    by (auto simp: visit_inv_def times_inv_def programs_inv_def page_inv_def flow_ready_def programs_broke_def days_loaded_def
        days_broke_def slots_broke_def deposit_reopened_def deposit_refused_def split: option.splits)
  show "visit_inv offers (s\<lparr>bf_page := resource_loaded p (bf_page s)\<rparr>)"
    "visit_inv offers (s\<lparr>bf_page := resource_broke failure (bf_page s)\<rparr>)" if "rc_loading (bf_page s)"
    using inv that
    by (simp_all add: visit_inv_def page_inv_def flow_ready_def resource_loaded_def resource_broke_def resource_status_def)
  show "visit_inv offers (programs_loaded xs s)" if "bf_live_programs s = Some q"
    using inv rest that
    by (auto simp: visit_inv_def times_inv_def programs_inv_def page_inv_def flow_ready_def programs_loaded_def loads_settled_def
        split: option.splits)
  show "visit_inv offers (slots_loaded env ys s)" if "bf_live_slots s = Some sq" "offers sq ys"
    using inv that
    by (auto simp: visit_inv_def times_inv_def programs_inv_def page_inv_def flow_ready_def slots_loaded_def Let_def
        split: option.splits)
qed

interpretation booking: inductive_invariant "flow_opened env slug" "flow_moves env slug offers runs" "flow_inv env offers"
proof
  fix st assume "flow_opened env slug st"
  then show "flow_inv env offers st"
    by (auto simp: flow_opened_def open_flow_def Let_def visit_inv_def times_inv_def programs_inv_def page_inv_def
        resource_initial_def intro!: flow_inv_settle)
next
  fix st t assume inv: "flow_inv env offers st" and "flow_moves env slug offers runs st t"
  from this(2) inv show "flow_inv env offers t"
  proof cases
    case (flow_visit s sg a)
    then have "visit_inv offers (visit env a s)"
      using inv by (intro visit_inv_same [OF same_loads_visit]) (simp add: flow_inv_def)
    then show ?thesis using flow_visit by (simp add: flow_inv_settle)
  qed (auto intro!: flow_inv_settle intro: visit_inv_answers)
qed

section \<open>What is booked was offered\<close>

lemma book_begin_sent:
  assumes "snd (book_begin fresh s) = Some (k, input, waitlist)"
  obtains v x where "flow_service s = Some v" "flow_slot s = Some x" "details_ok s"
    "input = booking_input_of s v x" "waitlist = os_waitlist x"
  using assms
  by (auto simp: book_begin_def flow_waitlist_def Let_def split: option.splits if_splits prod.splits)

lemma in_cart_of_chosen:
  "in_cart (map (\<lambda>x. (pa_id x, n (pa_id x))) (filter (\<lambda>x. n (pa_id x) > 0) xs)) i
    = (if i \<in> pa_id ` set xs then max 0 (n i) else (0::int))"
  by (induction xs) (auto simp: in_cart_def max_def)

lemma extra_of_sent:
  assumes "\<forall>e\<in>set (bf_addons s). snd e = 1" "\<not> flow_waitlist s"
  shows "extra_minutes (flow_offered s) (map (\<lambda>l. (pa_id (fst l), fst (snd l))) (addon_lines s)) kind
    = extra_minutes (flow_offered s) (bf_addons s) kind"
proof -
  have "0 \<le> in_cart (bf_addons s) i" for i
    using assms(1) by (auto simp: in_cart_def split: option.split dest!: map_of_SomeD)
  moreover have "map (\<lambda>l. (pa_id (fst l), fst (snd l))) (addon_lines s)
      = map (\<lambda>x. (pa_id x, in_cart (bf_addons s) (pa_id x))) (filter (\<lambda>x. in_cart (bf_addons s) (pa_id x) > 0) (flow_offered s))"
    using assms(2) by (simp add: addon_lines_def comp_def)
  ultimately show ?thesis
    by (auto simp: extra_minutes_def in_cart_of_chosen intro!: arg_cong [where f = sum_list] map_cong)
qed

text \<open>C28: whatever the visitor changes, in whatever order the answers arrive and however late, the booking that goes
  out asks for a time that the server offered for exactly that service, that member and that day, with a visit as
  long as the add-ons of the booking make it; a seat on the waiting list was offered as one and takes no add-ons.
  (A program, a deposit that a reload came back to, and the moment before the open days are loaded are apart.)\<close>

theorem booking_was_offered:
  assumes "reach (flow_opened env slug) (flow_moves env slug offers runs) (s, sg)"
    and sent: "snd (book_begin fresh s) = Some (k, input, waitlist)"
    and visit: "bf_result s = None" "\<not> is_program s" "flow_day env s = Some d" "bi_item input \<noteq> []"
  shows "\<exists>xs extra. offers \<lparr>sq_item = bi_item input, sq_staff = bi_staff input, sq_day = d, sq_extra = extra\<rparr> xs
    \<and> (\<exists>x\<in>set xs. os_starts x = bi_starts input \<and> os_waitlist x = waitlist)
    \<and> (if waitlist then bi_addons input = []
       else extra = extra_minutes (flow_offered s) (bi_addons input) (map_option ps_kind (flow_service s)))"
proof -
  from sent obtain v x where v: "flow_service s = Some v" and x: "flow_slot s = Some x"
    and input: "input = booking_input_of s v x" and wait: "waitlist = os_waitlist x"
    by (rule book_begin_sent)
  have inv: "loads_settled env s" "times_inv offers s" "page_inv s"
    using booking.reach_inv [OF assms(1)] by (simp_all add: flow_inv_def visit_inv_def)
  from x visit(1) obtain xs where xs: "bf_slots s = Some xs" "x \<in> set xs"
    by (auto simp: flow_slot_def slot_at_def split: option.splits bind_splits dest: find_SomeD)
  have item: "ps_id v = bf_item s"
    using v by (auto simp: flow_service_def service_in_def split: bind_splits dest: find_SomeD)
  have ready: "flow_ready s"
    using v inv(3) by (auto simp: page_inv_def flow_service_def service_in_def booking_page_of_def split: bind_splits)
  have "offers (query_of (slots_deps_of env s) d) xs"
    using inv(1,2) visit(2-4) ready xs item input
    by (simp add: times_inv_def loads_settled_def booking_input_of_def)
  moreover have "query_of (slots_deps_of env s) d
      = \<lparr>sq_item = bi_item input, sq_staff = bi_staff input, sq_day = d, sq_extra = flow_extra s\<rparr>"
    by (simp add: query_of_def input booking_input_of_def item)
  moreover have "if waitlist then bi_addons input = []
      else flow_extra s = extra_minutes (flow_offered s) (bi_addons input) (map_option ps_kind (flow_service s))"
    using inv(3) x wait extra_of_sent [of s]
    by (simp add: page_inv_def flow_extra_def input booking_input_of_def) (simp add: addon_lines_def flow_waitlist_def)
  moreover have "os_starts x = bi_starts input" by (simp add: input booking_input_of_def)
  ultimately show ?thesis using xs(2) wait by metis
qed

text \<open>A booking goes out only with complete details, each text as the server expects it.\<close>

lemma booking_has_details:
  assumes "snd (book_begin fresh s) = Some (k, input, waitlist)"
  shows "bi_name input \<noteq> []" "length (bi_name input) \<le> name_max" "bi_phone input \<noteq> None"
    "flow_kind s \<noteq> None \<Longrightarrow> bi_subject_name input \<noteq> []"
    "is_place (flow_kind s) \<Longrightarrow> bi_subject_id input = None \<Longrightarrow> bi_subject_address input \<noteq> []"
  using assms
  by (auto elim!: book_begin_sent simp: details_ok_def no_errors_def flow_errors_def detail_errors_of_def booking_input_of_def
      name_too_long_def is_place_def split: if_splits)

text \<open>The program dates of the service before stay on the page as times of the next one until its open days arrive.\<close>

lemma program_times_linger:
  "\<not> is_program r \<Longrightarrow> flow_day env r = None \<Longrightarrow> bf_slots (slots_effect env r s) = bf_slots s"
  by (simp add: slots_effect_def Let_def)

section \<open>A visit\<close>



definition demo_env :: flow_env where
  "demo_env = \<lparr>fe_off = (\<lambda>_ _. 0), fe_other = (\<lambda>_. None), fe_device = ''UTC'', fe_now = 0, fe_parse = (\<lambda>_. None), fe_num = (\<lambda>_. [])\<rparr>"

definition demo_service :: pub_service where
  "demo_service = \<lparr>ps_id = ''sv_cut'', ps_price = 4500, ps_currency = ''CAD'', ps_deposit_required = False, ps_deposit_cents = 0,
     ps_taxable = False, ps_kind = ''service'', ps_category = None, ps_staff = [''st_1''], ps_sessions = None\<rparr>"

definition demo_page :: booking_page where
  "demo_page = \<lparr>bp_services = [demo_service], bp_staff = [\<lparr>pm_id = ''st_1'', pm_name = None\<rparr>], bp_addons = [],
     bp_now = Some ''2026-03-01T10:00'', bp_timezone = ''UTC'', bp_horizon = None, bp_charges_tax = False, bp_tax_starts = None,
     bp_subject = None\<rparr>"

definition demo_slot :: open_slot where
  "demo_slot = \<lparr>os_starts = ''2026-03-02T17:00:00Z'', os_ends = ''2026-03-02T18:00:00Z'', os_staff = Some ''st_1'', os_waitlist = False\<rparr>"

definition demo_store :: storage where "demo_store = \<lparr>sg_readable = True, sg_writable = False,
  sg_items = [(booking_key ''b'', Json_Item (J_Obj [(''name'', J_Str ''Robin''), (''phone'', J_Str ''6045550142'')]))]\<rparr>"

lemmas view_defs = flow_ready_def resource_status_def is_program_def flow_service_def service_in_def booking_page_of_def flow_extra_def
  flow_offered_def offered_with_def page_addons_def extra_minutes_def flow_day_def flow_from_def flow_today_def flow_zone_def is_open_day_def
  programs_deps_of_def days_deps_of_def slots_deps_of_def draft_deps_of_def programs_deps.extend_def

lemmas demo_defs = demo_env_def demo_service_def demo_page_def demo_slot_def demo_store_def

definition demo_start :: booking_flow where
  "demo_start = open_flow demo_env ''b'' (Some ''sv_cut'') None None demo_store"

lemma demo_start_eq: "demo_start = \<lparr>bf_page = \<lparr>rc_data = None, rc_loading = True, rc_not_found = False, rc_failed = False\<rparr>,
    bf_picked_item = Some ''sv_cut'', bf_picked_staff = None, bf_picked_starts = None, bf_held = None, bf_applied = False,
    bf_initial_time = [], bf_step = Service_Step, bf_item = [], bf_staff = any_staff, bf_week = None, bf_date = None, bf_days = None,
    bf_days_error = False, bf_slots = None, bf_slots_error = False, bf_programs = None, bf_reload = 0, bf_starts = [], bf_addons = [],
    bf_name = ''Robin'', bf_phone = ''6045550142'', bf_subject_name = [], bf_subject_address = [], bf_returning = None,
    bf_subject_id = None, bf_note = [], bf_touched = False, bf_result = None, bf_held_slot = None, bf_resume_failed = False,
    bf_key = None, bf_action = idle_action, bf_draft_deps = None, bf_programs_deps = None, bf_days_deps = None,
    bf_slots_deps = None, bf_live_programs = None, bf_live_days = None, bf_live_slots = None, bf_resuming = None\<rparr>"
  by (simp add: demo_start_def open_flow_def demo_defs resource_initial_def read_draft_def parse_item_def
    Let_def from_entries_def held_visit_def draft_field_def)

lemma flow_pass_let:
  "fst (flow_pass env slug st) =
    (let r = fst st in load_effects env r (initial_effect env r (r\<lparr>bf_draft_deps := Some (draft_deps_of r)\<rparr>)))"
  by (simp add: fst_flow_pass Let_def)

lemma settle_let: "fst (flow_settle env slug st) =
   fst (flow_pass env slug (flow_pass env slug (flow_pass env slug (flow_pass env slug st))))"
  by (simp add: flow_settle_def numeral_eq_Suc)

lemmas run_defs = demo_env_def settle_let flow_pass_let load_effects_def effect_defs initial_effect_def apply_selection_def first_step_def draft_day_def

definition demo_open :: "booking_flow \<times> storage" where
  "demo_open = flow_settle demo_env ''b'' (demo_start, demo_store)"

lemma no_timestamp: "parse_timestamp (\<lambda>_. None) [] = None" by code_simp

lemma demo_open_eq: "fst demo_open = demo_start\<lparr>bf_draft_deps := Some \<lparr>dd_result = None, dd_step = Service_Step, dd_slots = None, dd_held = None,
      dd_item = [], dd_staff = any_staff, dd_starts = [], dd_fields = [''Robin'', ''6045550142'', [], [], []]\<rparr>,
    bf_programs_deps := Some \<lparr>gd_item = [], gd_staff = any_staff, gd_program = False, gd_ready = False, gd_reload = 0\<rparr>,
    bf_days_deps := Some \<lparr>gd_item = [], gd_staff = any_staff, gd_program = False, gd_ready = False, gd_reload = 0,
      gd_from = date_key (\<lambda>_ _. 0) 0 ''UTC'', gd_extra = 0\<rparr>,
    bf_slots_deps := Some \<lparr>gd_item = [], gd_staff = any_staff, gd_program = False, gd_ready = False, gd_reload = 0,
      gd_day = None, gd_minutes = 0\<rparr>\<rparr>"
  by (simp add: demo_open_def demo_start_eq run_defs view_defs Let_def)

definition demo_loaded :: "booking_flow \<times> storage" where
  "demo_loaded = flow_settle demo_env ''b'' ((fst demo_open)\<lparr>bf_page := resource_loaded demo_page (bf_page (fst demo_open))\<rparr>, snd demo_open)"

definition demo_gen :: "string option \<Rightarrow> slots_deps" where
  "demo_gen day = \<lparr>gd_item = ''sv_cut'', gd_staff = any_staff, gd_program = False, gd_ready = True, gd_reload = 0, gd_day = day, gd_minutes = 0\<rparr>"

definition demo_draft :: "open_slot list option \<Rightarrow> string \<Rightarrow> draft_deps" where
  "demo_draft slots starts = \<lparr>dd_result = None, dd_step = Time_Step, dd_slots = slots, dd_held = None, dd_item = ''sv_cut'',
   dd_staff = any_staff, dd_starts = starts, dd_fields = [''Robin'', ''6045550142'', [], [], []]\<rparr>"

lemma demo_loaded_eq: "fst demo_loaded = demo_start\<lparr>bf_page := \<lparr>rc_data = Some demo_page, rc_loading = False, rc_not_found = False, rc_failed = False\<rparr>,
    bf_applied := True, bf_step := Time_Step, bf_item := ''sv_cut'', bf_draft_deps := Some (demo_draft None []),
    bf_programs_deps := Some \<lparr>gd_item = ''sv_cut'', gd_staff = any_staff, gd_program = False, gd_ready = True, gd_reload = 0\<rparr>,
    bf_days_deps := Some \<lparr>gd_item = ''sv_cut'', gd_staff = any_staff, gd_program = False, gd_ready = True, gd_reload = 0,
      gd_from = ''2026-03-01'', gd_extra = 0\<rparr>,
    bf_slots_deps := Some (demo_gen None),
    bf_live_days := Some \<lparr>dq_item = ''sv_cut'', dq_staff = any_staff, dq_from = ''2026-03-01'', dq_extra = 0\<rparr>\<rparr>"
  by (simp add: demo_loaded_def demo_open_eq demo_start_eq no_timestamp run_defs view_defs Let_def demo_page_def demo_service_def resource_loaded_def demo_gen_def demo_draft_def)

definition demo_openings :: "day_openings list" where
  "demo_openings = [\<lparr>do_date = ''2026-03-02'', do_count = 1, do_waitlist = 0, do_closed = False, do_reason = None\<rparr>]"

definition demo_days :: "booking_flow \<times> storage" where
  "demo_days = flow_settle demo_env ''b'' (days_loaded demo_openings (fst demo_loaded), snd demo_loaded)"

lemma demo_days_eq: "fst demo_days = (fst demo_loaded)\<lparr>bf_days := Some demo_openings, bf_live_days := None, bf_slots_deps := Some (demo_gen (Some ''2026-03-02'')),
  bf_live_slots := Some \<lparr>sq_item = ''sv_cut'', sq_staff = any_staff, sq_day = ''2026-03-02'', sq_extra = 0\<rparr>\<rparr>"
  by (simp add: demo_days_def demo_loaded_eq demo_start_eq run_defs view_defs Let_def demo_page_def demo_service_def days_loaded_def demo_gen_def demo_draft_def demo_openings_def)

definition demo_times :: "booking_flow \<times> storage" where
  "demo_times = flow_settle demo_env ''b'' (slots_loaded demo_env [demo_slot] (fst demo_days), snd demo_days)"

lemma demo_times_eq: "fst demo_times = (fst demo_days)\<lparr>bf_slots := Some [demo_slot], bf_live_slots := None, bf_draft_deps := Some (demo_draft (Some [demo_slot]) [])\<rparr>"
  by (simp add: demo_times_def demo_days_eq demo_loaded_eq demo_start_eq run_defs view_defs Let_def demo_page_def demo_service_def slots_loaded_def demo_gen_def demo_draft_def demo_openings_def)

definition demo_picked :: "booking_flow \<times> storage" where
  "demo_picked = flow_settle demo_env ''b'' (visit demo_env (Pick_Slot (os_starts demo_slot)) (fst demo_times), snd demo_times)"

lemma demo_picked_eq: "fst demo_picked = (fst demo_times)\<lparr>bf_starts := os_starts demo_slot, bf_draft_deps := Some (demo_draft (Some [demo_slot]) (os_starts demo_slot))\<rparr>"
  by (simp add: demo_picked_def demo_times_eq demo_days_eq demo_loaded_eq demo_start_eq run_defs view_defs Let_def demo_page_def demo_service_def pick_slot_def demo_gen_def demo_draft_def demo_openings_def idle_action_def action_set_error_def)

lemma book_begin_sends:
  assumes "flow_service s = Some v" "flow_slot s = Some x" "details_ok s" "\<not> aa_running (bf_action s)" "bf_key s = None"
  shows "snd (book_begin fresh s) = Some (fresh, booking_input_of s v x, os_waitlist x)"
  using assms by (simp add: book_begin_def details_ok_def action_start_def attempt_key_def flow_waitlist_def Let_def booking_input_of_def
      flow_errors_def addon_lines_def flow_kind_def flow_offered_def is_program_def flow_service_def service_in_def booking_page_of_def
      page_addons_def flow_slot_def slot_at_def)

definition demo_offers :: "slots_query \<Rightarrow> open_slot list \<Rightarrow> bool" where
  "demo_offers q xs \<longleftrightarrow>
    q = \<lparr>sq_item = ''sv_cut'', sq_staff = any_staff, sq_day = ''2026-03-02'', sq_extra = 0\<rparr> \<and> xs = [demo_slot]"

lemma demo_picked_reach: "reach (flow_opened demo_env ''b'') (flow_moves demo_env ''b'' demo_offers (\<lambda>_ _. False)) demo_picked"
proof -
  let ?moves = "flow_moves demo_env ''b'' demo_offers (\<lambda>_ _. False)"
  let ?reach = "reach (flow_opened demo_env ''b'') ?moves"
  have "flow_opened demo_env ''b'' demo_open" unfolding flow_opened_def demo_open_def demo_start_def by blast
  then have "?reach demo_open" by (rule reach_init)
  moreover have "?moves (fst demo_open, snd demo_open) demo_loaded"
    unfolding demo_loaded_def by (rule flow_page) (simp add: demo_open_eq demo_start_eq)
  ultimately have "?reach demo_loaded" by (metis reach_step prod.collapse)
  moreover have "?moves (fst demo_loaded, snd demo_loaded) demo_days"
    unfolding demo_days_def by (rule flow_days) (simp add: demo_loaded_eq demo_start_eq)
  ultimately have "?reach demo_days" by (metis reach_step prod.collapse)
  moreover have "?moves (fst demo_days, snd demo_days) demo_times"
    unfolding demo_times_def by (rule flow_slots) (simp_all add: demo_days_eq demo_loaded_eq demo_start_eq demo_offers_def)
  ultimately have "?reach demo_times" by (metis reach_step prod.collapse)
  moreover have "?moves (fst demo_times, snd demo_times) demo_picked"
    unfolding demo_picked_def by (rule flow_visit)
  ultimately show ?thesis by (metis reach_step prod.collapse)
qed

lemmas demo_states = demo_picked_eq demo_times_eq demo_days_eq demo_loaded_eq demo_start_eq

lemma demo_details: "detail_errors_of ''Robin'' ''6045550142'' [] [] None False
    = \<lparr>de_name = None, de_contact = None, de_subject = None, de_address = None\<rparr>"
  by code_simp

theorem booking_was_offered_witness:
  "\<exists>xs extra. demo_offers \<lparr>sq_item = ''sv_cut'', sq_staff = any_staff, sq_day = ''2026-03-02'', sq_extra = extra\<rparr> xs
    \<and> (\<exists>x\<in>set xs. os_starts x = ''2026-03-02T17:00:00Z'' \<and> os_waitlist x = False)"
proof -
  let ?s = "fst demo_picked"
  have service: "flow_service ?s = Some demo_service" and slot: "flow_slot ?s = Some demo_slot"
    and kind: "flow_kind ?s = None"
    by (simp_all add: demo_states flow_service_def service_in_def booking_page_of_def demo_page_def demo_service_def
        flow_slot_def slot_at_def flow_kind_def)
  have details: "details_ok ?s"
    using demo_details by (simp add: details_ok_def flow_errors_def kind no_errors_def) (simp add: demo_states)
  have "snd (book_begin ''k'' ?s) = Some (''k'', booking_input_of ?s demo_service demo_slot, os_waitlist demo_slot)"
    by (rule book_begin_sends [OF service slot details]) (simp_all add: demo_states idle_action_def)
  moreover have "reach (flow_opened demo_env ''b'') (flow_moves demo_env ''b'' demo_offers (\<lambda>_ _. False)) (?s, snd demo_picked)"
    using demo_picked_reach by simp
  moreover have "bf_result ?s = None" "flow_day demo_env ?s = Some ''2026-03-02''" "\<not> is_program ?s"
    by (simp_all add: is_program_def service demo_service_def) (simp_all add: demo_states flow_day_def demo_openings_def is_open_day_def)
  moreover have "bi_item (booking_input_of ?s demo_service demo_slot) = ''sv_cut''" "bi_staff (booking_input_of ?s demo_service demo_slot) = any_staff"
    "bi_starts (booking_input_of ?s demo_service demo_slot) = ''2026-03-02T17:00:00Z''"
    by (simp_all add: booking_input_of_def demo_service_def demo_slot_def) (simp add: demo_states)
  ultimately show ?thesis
    using booking_was_offered [of demo_env "''b''" demo_offers "\<lambda>_ _. False" ?s "snd demo_picked" "''k''" "''k''"
        "booking_input_of ?s demo_service demo_slot" "os_waitlist demo_slot" "''2026-03-02''"]
    by (auto simp: demo_slot_def)
qed

end
