(* ===== verification/Manage_Booking.thy ===== *)
theory Manage_Booking
  imports Booking_Flow
begin

text \<open>
  The page a client manages a booking on (\<open>useManageBooking\<close>, \<open>app-core/src/domain/publicBooking.ts\<close>): what is booked,
  moving it to another offered time, cancelling, the deposit and a message to the business. A handler is followed by
  the two effects that load the open days and times; their answers count while the effect that asked is current.
\<close>

section \<open>The booking\<close>

record managed =
  mb_id :: string
  mb_slug :: string
  mb_starts :: string
  mb_ends :: string
  mb_status :: string
  mb_deposit :: int
  mb_deposit_status :: string
  mb_deposit_due :: bool
  mb_accepts_card :: bool
  mb_refund :: "string option"
  mb_now :: string
  mb_timezone :: string
  mb_can_move :: bool
  mb_can_cancel :: bool
  mb_blocked :: "string option"
  mb_blocked_hours :: "int option"
  mb_waitlist :: "int option"
  mb_program_days :: "int option"
  mb_self_service :: bool
  mb_cancel_hours :: int
  mb_move_hours :: int
  mb_horizon :: "int option"

text \<open>Why a change is refused online, as the caption of its code.\<close>

datatype blocked_reason = Cutoff int | Blocked_By string

definition blocked_reason_of :: "string option \<Rightarrow> int option \<Rightarrow> blocked_reason option" where
  "blocked_reason_of code hours =
    (case code of
       None \<Rightarrow> None
     | Some c \<Rightarrow> Some (if c = ''cutoff'' then Cutoff (case hours of Some h \<Rightarrow> h | None \<Rightarrow> 0) else Blocked_By c))"

section \<open>State\<close>

datatype manage_mode = View_Mode | Move_Mode | Cancel_Mode | Moved_Mode | Canceled_Mode | Message_Mode

datatype manage_request = Move_To string | Cancel_Booking string

record deposit_intent =
  di_secret :: string
  di_account :: string

record manage =
  mg_resource :: "managed resource"
  mg_body :: string
  mg_sent :: bool
  mg_message_key :: "string attempt option"
  mg_mode :: manage_mode
  mg_from :: "string option"
  mg_date :: "string option"
  mg_days :: "day_openings list option"
  mg_days_error :: bool
  mg_slots :: "open_slot list option"
  mg_slots_error :: bool
  mg_reload :: nat
  mg_pick :: string
  mg_refund :: "int option"
  mg_card :: "deposit_intent option"
  mg_thanks :: bool
  mg_key :: "manage_request attempt option"
  mg_action :: async_action
  mg_deposit_action :: async_action
  mg_left :: bool
  mg_days_deps :: "(manage_mode \<times> string \<times> nat) option" \<comment> \<open>of the last run of each effect\<close>
  mg_slots_deps :: "(manage_mode \<times> string \<times> nat) option"
  mg_runs :: nat \<comment> \<open>numbers the runs, so that each answer is that of its run\<close>
  mg_days_live :: "(nat \<times> string) option" \<comment> \<open>the run whose answer counts, with its day\<close>
  mg_slots_live :: "(nat \<times> string) option"
  mg_days_asked :: "(nat \<times> string) list" \<comment> \<open>not answered yet\<close>
  mg_slots_asked :: "(nat \<times> string) list"

definition manage_initial :: manage where
  "manage_initial = \<lparr>mg_resource = resource_initial, mg_body = [], mg_sent = False, mg_message_key = None, mg_mode = View_Mode, mg_from = None,
     mg_date = None, mg_days = None, mg_days_error = False, mg_slots = None, mg_slots_error = False, mg_reload = 0, mg_pick = [], mg_refund = None,
     mg_card = None, mg_thanks = False, mg_key = None, mg_action = idle_action, mg_deposit_action = idle_action, mg_left = False, mg_days_deps = None,
     mg_slots_deps = None, mg_runs = 0, mg_days_live = None, mg_slots_live = None, mg_days_asked = [], mg_slots_asked = []\<rparr>"

definition mg_data :: "manage \<Rightarrow> managed option" where
  "mg_data s = rc_data (mg_resource s)"

definition set_data :: "managed \<Rightarrow> manage \<Rightarrow> manage" where
  "set_data d s = s\<lparr>mg_resource := (mg_resource s)\<lparr>rc_data := Some d\<rparr>\<rparr>"

text \<open>Until the booking loads the visitor's own clock and zone stand in.\<close>

definition mg_zone :: "flow_env \<Rightarrow> manage \<Rightarrow> string" where
  "mg_zone env s = (case mg_data s of Some d \<Rightarrow> mb_timezone d | None \<Rightarrow> fe_device env)"

definition mg_now :: "flow_env \<Rightarrow> manage \<Rightarrow> int option" where
  "mg_now env s = (case mg_data s of Some d \<Rightarrow> parse_timestamp (fe_other env) (mb_now d) | None \<Rightarrow> Some (fe_now env))"

definition mg_today :: "flow_env \<Rightarrow> manage \<Rightarrow> string" where
  "mg_today env s = (case mg_data s of Some d \<Rightarrow> take 10 (mb_now d) | None \<Rightarrow> date_key (fe_off env) (fe_now env) (mg_zone env s))"

definition mg_start :: "flow_env \<Rightarrow> manage \<Rightarrow> int option" where
  "mg_start env s = (case mg_data s of Some d \<Rightarrow> parse_timestamp (fe_other env) (mb_starts d) | None \<Rightarrow> mg_now env s)"

text \<open>Whole hours from the booking's clock to its start; negative once it has begun.\<close>

definition hours_away :: "flow_env \<Rightarrow> manage \<Rightarrow> int option" where
  "hours_away env s = (case (mg_start env s, mg_now env s) of (Some a, Some b) \<Rightarrow> Some ((a - b) div 3600000) | _ \<Rightarrow> None)"

datatype countdown = In_Hours int | In_Days int

definition countdown_of :: "int \<Rightarrow> countdown" where
  "countdown_of h = (if h < 48 then In_Hours (max 0 h) else In_Days (js_round (of_int h / 24)))"

definition mg_live :: "manage \<Rightarrow> bool" where
  "mg_live s \<longleftrightarrow> (case mg_data s of Some d \<Rightarrow> mb_status d = ''confirmed'' \<or> mb_status d = ''pending'' | None \<Rightarrow> False)"

definition mg_waiting :: "manage \<Rightarrow> bool" where
  "mg_waiting s \<longleftrightarrow> map_option mb_status (mg_data s) = Some ''waitlisted''"

definition week_from :: "flow_env \<Rightarrow> manage \<Rightarrow> string" where
  "week_from env s =
    (case mg_from s of
       Some w \<Rightarrow> w
     | None \<Rightarrow> (case (mg_data s, mg_start env s) of
                  (Some _, Some t) \<Rightarrow> visit_week_from (fe_off env) t (mg_today env s) (mg_zone env s)
                | _ \<Rightarrow> mg_today env s))"

definition mg_day :: "flow_env \<Rightarrow> manage \<Rightarrow> string" where
  "mg_day env s =
    (case mg_date s of
       Some d \<Rightarrow> d
     | None \<Rightarrow> (case mg_data s of Some _ \<Rightarrow> date_key_of (fe_off env) (mg_start env s) (mg_zone env s) | None \<Rightarrow> mg_today env s))"

definition can_next_week :: "flow_env \<Rightarrow> manage \<Rightarrow> bool" where
  "can_next_week env s =
    (case horizon_day (fe_off env) (mg_today env s) (Option.bind (mg_data s) mb_horizon) (mg_zone env s) of
       None \<Rightarrow> True | Some until \<Rightarrow> shift_key (fe_off env) (week_from env s) 7 (mg_zone env s) \<le> until)"

definition can_prev_week :: "flow_env \<Rightarrow> manage \<Rightarrow> bool" where
  "can_prev_week env s \<longleftrightarrow> mg_today env s < week_from env s"

section \<open>What the page offers\<close>

definition can_cancel :: "manage \<Rightarrow> bool" where
  "can_cancel s \<longleftrightarrow> (mg_live s \<or> mg_waiting s) \<and> (case mg_data s of Some d \<Rightarrow> mb_can_cancel d | None \<Rightarrow> False)"

definition can_move :: "manage \<Rightarrow> bool" where
  "can_move s \<longleftrightarrow> mg_live s \<and> (case mg_data s of Some d \<Rightarrow> mb_can_move d | None \<Rightarrow> False)"

definition mg_blocked :: "manage \<Rightarrow> blocked_reason option" where
  "mg_blocked s = (if mg_live s then Option.bind (mg_data s) (\<lambda>d. blocked_reason_of (mb_blocked d) (mb_blocked_hours d)) else None)"

definition has_deposit :: "manage \<Rightarrow> bool" where
  "has_deposit s \<longleftrightarrow> (case mg_data s of Some d \<Rightarrow> mb_deposit_status d = ''collected'' \<and> 0 < mb_deposit d | None \<Rightarrow> False)"

definition deposit_due :: "manage \<Rightarrow> bool" where
  "deposit_due s \<longleftrightarrow> mg_live s \<and> (case mg_data s of Some d \<Rightarrow> mb_deposit_due d | None \<Rightarrow> False)"

definition can_pay_deposit :: "manage \<Rightarrow> bool" where
  "can_pay_deposit s \<longleftrightarrow> deposit_due s \<and> (case mg_data s of Some d \<Rightarrow> mb_accepts_card d | None \<Rightarrow> False)"

datatype deposit_line = Deposit_Paid | Deposit_By_Card | Deposit_Offline | No_Deposit

definition deposit_line_of :: "manage \<Rightarrow> deposit_line" where
  "deposit_line_of s =
    (if has_deposit s then Deposit_Paid
     else if deposit_due s then (if can_pay_deposit s then Deposit_By_Card else Deposit_Offline) else No_Deposit)"

text \<open>The meter of the cut-offs, in percent of its span: the two marks in order, and where now is.\<close>

definition window_meter :: "int \<Rightarrow> int \<Rightarrow> int \<Rightarrow> rat \<times> rat \<times> rat" where
  "window_meter cancel move away =
    (let span = max 72 (max (cancel * 2) (move * 2));
         cut = 100 - of_int cancel / of_int span * 100; mv = 100 - of_int move / of_int span * 100
     in (min cut mv, max cut mv, min 98 (max 2 (100 - of_int away / of_int span * 100))))"

lemma window_meter_bounds:
  assumes "0 \<le> cancel" "0 \<le> move" "window_meter cancel move away = (a, b, n)"
  shows "50 \<le> a \<and> a \<le> b \<and> b \<le> 100 \<and> 2 \<le> n \<and> n \<le> 98"
proof -
  let ?span = "max 72 (max (cancel * 2) (move * 2))"
  have half: "50 \<le> 100 - (of_int x :: rat) / of_int ?span * 100 \<and> 100 - (of_int x :: rat) / of_int ?span * 100 \<le> 100"
    if "0 \<le> x" "x * 2 \<le> ?span" for x
  proof -
    have "of_int (x * 2) \<le> (of_int ?span :: rat)" using that(2) by (simp only: of_int_le_iff)
    moreover have "0 < (of_int ?span :: rat)" by (simp only: of_int_0_less_iff)
    ultimately show ?thesis using that(1) by (simp add: divide_le_eq del: of_int_max)
  qed
  have "cancel * 2 \<le> ?span" "move * 2 \<le> ?span" by simp_all
  note bounds = half [OF assms(1) this(1)] half [OF assms(2) this(2)]
  from assms(3) have "a = min (100 - of_int cancel / of_int ?span * 100) (100 - of_int move / of_int ?span * 100)"
    "b = max (100 - of_int cancel / of_int ?span * 100) (100 - of_int move / of_int ?span * 100)"
    "n = min 98 (max 2 (100 - of_int away / of_int ?span * 100))"
    unfolding window_meter_def Let_def by (simp_all only: prod.inject)
  with bounds show ?thesis by (simp only: min_def max_def) (simp split: if_splits)
qed

text \<open>A waiting client leaves the list; the wording stays so after the cancellation.\<close>

definition waiting_words :: "manage \<Rightarrow> bool" where
  "waiting_words s \<longleftrightarrow> mg_waiting s \<or> mg_left s"

definition times_failed :: "manage \<Rightarrow> bool" where
  "times_failed s \<longleftrightarrow> mg_slots_error s \<or> mg_days_error s"

section \<open>The effects\<close>

definition days_load :: "flow_env \<Rightarrow> manage \<Rightarrow> manage \<Rightarrow> manage" where
  "days_load env r s =
    (let deps = (mg_mode r, week_from env r, mg_reload r)
     in if mg_days_deps s = Some deps then s
        else let s1 = s\<lparr>mg_days_deps := Some deps, mg_days_live := None\<rparr>
             in if mg_mode r \<noteq> Move_Mode then s1
                else s1\<lparr>mg_days := None, mg_days_error := False, mg_runs := mg_runs s + 1, mg_days_live := Some (mg_runs s, week_from env r),
                        mg_days_asked := mg_days_asked s @ [(mg_runs s, week_from env r)]\<rparr>)"

definition slots_load :: "flow_env \<Rightarrow> manage \<Rightarrow> manage \<Rightarrow> manage" where
  "slots_load env r s =
    (let deps = (mg_mode r, mg_day env r, mg_reload r)
     in if mg_slots_deps s = Some deps then s
        else let s1 = s\<lparr>mg_slots_deps := Some deps, mg_slots_live := None\<rparr>
             in if mg_mode r \<noteq> Move_Mode then s1
                else s1\<lparr>mg_slots := None, mg_slots_error := False, mg_pick := [], mg_runs := mg_runs s + 1, mg_slots_live := Some (mg_runs s, mg_day env r),
                        mg_slots_asked := mg_slots_asked s @ [(mg_runs s, mg_day env r)]\<rparr>)"

definition commit :: "flow_env \<Rightarrow> manage \<Rightarrow> manage" where
  "commit env s = slots_load env s (days_load env s s)"

section \<open>Handlers\<close>

definition set_mode :: "manage_mode \<Rightarrow> manage \<Rightarrow> manage" where
  "set_mode m s = s\<lparr>mg_key := None, mg_mode := m\<rparr>"

definition prev_week :: "flow_env \<Rightarrow> manage \<Rightarrow> manage" where
  "prev_week env s =
    (let d = shift_key (fe_off env) (week_from env s) (- 7) (mg_zone env s)
     in s\<lparr>mg_from := Some (if d < mg_today env s then mg_today env s else d)\<rparr>)"

definition next_week :: "flow_env \<Rightarrow> manage \<Rightarrow> manage" where
  "next_week env s =
    (if can_next_week env s then s\<lparr>mg_from := Some (shift_key (fe_off env) (week_from env s) 7 (mg_zone env s))\<rparr> else s)"

definition pick_day :: "string \<Rightarrow> manage \<Rightarrow> manage" where
  "pick_day d s = s\<lparr>mg_date := Some d\<rparr>"

definition retry_slots :: "manage \<Rightarrow> manage" where
  "retry_slots s = s\<lparr>mg_reload := mg_reload s + 1\<rparr>"

definition pick_slot :: "string \<Rightarrow> manage \<Rightarrow> manage" where
  "pick_slot k s = s\<lparr>mg_pick := k\<rparr>"

definition type_message :: "string \<Rightarrow> manage \<Rightarrow> manage" where
  "type_message v s = s\<lparr>mg_body := v, mg_sent := False, mg_message_key := None\<rparr>"

definition message_begin :: "string \<Rightarrow> manage \<Rightarrow> manage \<times> (string \<times> string) option" where
  "message_begin fresh s =
    (let body = js_trim (mg_body s)
     in if body = [] then (s, None)
        else let (key, ref) = attempt_key fresh (mg_message_key s) body; s1 = s\<lparr>mg_message_key := ref\<rparr>
             in case action_start (mg_action s1) of None \<Rightarrow> (s1, None) | Some a \<Rightarrow> (s1\<lparr>mg_action := a\<rparr>, Some (body, key)))"

definition message_end :: "json + unit \<Rightarrow> manage \<Rightarrow> manage" where
  "message_end answer s =
    (case answer of
       Inl e \<Rightarrow> s\<lparr>mg_action := action_end (Some ''messageError'') (mg_action s)\<rparr>
     | Inr u \<Rightarrow> s\<lparr>mg_sent := True, mg_body := [], mg_message_key := None, mg_action := action_end None (mg_action s)\<rparr>)"

text \<open>\<open>confirmMove\<close>: \<open>sendAttempt\<close> keeps the key of a move that was not answered, and takes a new one where the server
  refused the old.\<close>

definition move_begin :: "string \<Rightarrow> manage \<Rightarrow> manage \<times> (string \<times> string) option" where
  "move_begin fresh s =
    (if mg_pick s = [] then (s, None)
     else case action_start (mg_action s) of
            None \<Rightarrow> (s, None)
          | Some a \<Rightarrow> (let (key, ref) = attempt_key fresh (mg_key s) (Move_To (mg_pick s))
                      in (s\<lparr>mg_action := a, mg_key := ref\<rparr>, Some (mg_pick s, key))))"

definition move_end :: "(json \<Rightarrow> string) \<Rightarrow> bool \<Rightarrow> string \<Rightarrow> string \<Rightarrow> json + managed \<Rightarrow> manage \<Rightarrow> manage \<times> string option" where
  "move_end word first_send fresh pick answer s =
    (case answer of
       Inl e \<Rightarrow>
         if first_send \<and> failed_code e = Some ''idempotency_key_reused''
         then (let (key, ref) = attempt_key fresh None (Move_To pick) in (s\<lparr>mg_key := ref\<rparr>, Some key))
         else (let s1 = (if failed_status e = Some 409 then s\<lparr>mg_key := None, mg_reload := mg_reload s + 1\<rparr> else s)
               in (s1\<lparr>mg_action := action_end (Some (word e)) (mg_action s1)\<rparr>, None))
     | Inr d \<Rightarrow> ((set_data d s)\<lparr>mg_mode := Moved_Mode, mg_action := action_end None (mg_action s)\<rparr>, None))"

definition cancel_begin :: "string \<Rightarrow> string \<Rightarrow> manage \<Rightarrow> manage \<times> string option" where
  "cancel_begin token fresh s =
    (let (key, ref) = attempt_key fresh (mg_key s) (Cancel_Booking token); s1 = s\<lparr>mg_key := ref\<rparr>
     in case action_start (mg_action s1) of None \<Rightarrow> (s1, None) | Some a \<Rightarrow> (s1\<lparr>mg_action := a\<rparr>, Some key))"

text \<open>The answer to a cancellation: what became of the deposit. The booking is the one of the render that asked.\<close>

definition cancel_end :: "managed option \<Rightarrow> bool \<Rightarrow> json + (string \<times> int) \<Rightarrow> manage \<Rightarrow> manage" where
  "cancel_end asked waiting answer s =
    (case answer of
       Inl e \<Rightarrow> s\<lparr>mg_action := action_end (Some ''error'') (mg_action s)\<rparr>
     | Inr (deposit, cents) \<Rightarrow>
         (let s1 = s\<lparr>mg_left := waiting, mg_refund := (if deposit = ''refunded'' then Some cents else None), mg_mode := Canceled_Mode,
                     mg_action := action_end None (mg_action s)\<rparr>
          in case asked of
               None \<Rightarrow> s1
             | Some d \<Rightarrow> set_data (d\<lparr>mb_status := ''canceled'', mb_refund := Some deposit, mb_can_move := False, mb_can_cancel := False\<rparr>) s1))"

definition deposit_begin :: "bool \<Rightarrow> manage \<Rightarrow> manage \<times> bool" where
  "deposit_begin configured s =
    (if \<not> configured then (s\<lparr>mg_deposit_action := action_set_error (Some ''cardNotConfigured'') (mg_deposit_action s)\<rparr>, False)
     else case action_start (mg_deposit_action s) of None \<Rightarrow> (s, False) | Some a \<Rightarrow> (s\<lparr>mg_deposit_action := a\<rparr>, True))"

text \<open>A conflict also reads the booking again; that answer is \<open>set_data\<close>.\<close>

definition deposit_end :: "(json \<Rightarrow> string) \<Rightarrow> json + deposit_intent \<Rightarrow> manage \<Rightarrow> manage \<times> bool" where
  "deposit_end word answer s =
    (case answer of
       Inl e \<Rightarrow> (s\<lparr>mg_deposit_action := action_end (Some (word e)) (mg_deposit_action s)\<rparr>, failed_status e = Some 409)
     | Inr i \<Rightarrow> (s\<lparr>mg_card := Some i, mg_deposit_action := action_end None (mg_deposit_action s)\<rparr>, False))"

definition deposit_cancel :: "manage \<Rightarrow> manage" where
  "deposit_cancel s = s\<lparr>mg_card := None\<rparr>"

definition deposit_paid :: "manage \<Rightarrow> manage" where
  "deposit_paid s =
    (let s1 = s\<lparr>mg_card := None, mg_thanks := True\<rparr>
     in case mg_data s of None \<Rightarrow> s1 | Some d \<Rightarrow> set_data (d\<lparr>mb_deposit_status := ''collected'', mb_deposit_due := False\<rparr>) s1)"

text \<open>Answers of the effects' queries.\<close>

definition days_answered :: "nat \<times> string \<Rightarrow> json + day_openings list \<Rightarrow> manage \<Rightarrow> manage" where
  "days_answered q answer s =
    (let s1 = s\<lparr>mg_days_asked := remove1 q (mg_days_asked s)\<rparr>
     in if mg_days_live s \<noteq> Some q then s1
        else case answer of Inl e \<Rightarrow> s1\<lparr>mg_days_error := True\<rparr> | Inr d \<Rightarrow> s1\<lparr>mg_days := Some d\<rparr>)"

definition slots_answered :: "nat \<times> string \<Rightarrow> json + open_slot list \<Rightarrow> manage \<Rightarrow> manage" where
  "slots_answered q answer s =
    (let s1 = s\<lparr>mg_slots_asked := remove1 q (mg_slots_asked s)\<rparr>
     in if mg_slots_live s \<noteq> Some q then s1
        else case answer of Inl e \<Rightarrow> s1\<lparr>mg_slots_error := True\<rparr> | Inr x \<Rightarrow> s1\<lparr>mg_slots := Some x\<rparr>)"

section \<open>The page as a system\<close>

text \<open>Every event ends with a commit. \<open>mw_offers\<close> records the times the server offered, with the day they were asked for; a
  visitor picks one of the times on the page. A cancellation is answered for the booking of the render that asked.\<close>

record manage_world =
  mw_page :: manage
  mw_offers :: "(string \<times> open_slot list) list"

definition on_page :: "flow_env \<Rightarrow> (manage \<Rightarrow> manage) \<Rightarrow> manage_world \<Rightarrow> manage_world" where
  "on_page env f w = w\<lparr>mw_page := commit env (f (mw_page w))\<rparr>"

definition offered_on :: "manage \<Rightarrow> string \<Rightarrow> bool" where
  "offered_on s k \<longleftrightarrow> (\<exists>xs. mg_slots s = Some xs \<and> k \<in> os_starts ` set xs)"

inductive manage_step :: "flow_env \<Rightarrow> manage_world \<Rightarrow> manage_world \<Rightarrow> bool" for env where
  page_loaded: "manage_step env w (on_page env (\<lambda>s. s\<lparr>mg_resource := r\<rparr>) w)"
| page_data: "manage_step env w (on_page env (set_data d) w)"
| mode_set: "manage_step env w (on_page env (set_mode m) w)"
| week_back: "manage_step env w (on_page env (prev_week env) w)"
| week_on: "manage_step env w (on_page env (next_week env) w)"
| day_picked: "manage_step env w (on_page env (pick_day d) w)"
| retried: "manage_step env w (on_page env retry_slots w)"
| slot_picked: "offered_on (mw_page w) k \<Longrightarrow> manage_step env w (on_page env (pick_slot k) w)"
| message_typed: "manage_step env w (on_page env (type_message v) w)"
| message_sent: "manage_step env w (on_page env (\<lambda>s. fst (message_begin fresh s)) w)"
| message_answered: "manage_step env w (on_page env (message_end reply) w)"
| move_sent: "manage_step env w (on_page env (\<lambda>s. fst (move_begin fresh s)) w)"
| move_answered: "manage_step env w (on_page env (\<lambda>s. fst (move_end word first_send fresh pick moved s)) w)"
| cancel_sent: "manage_step env w (on_page env (\<lambda>s. fst (cancel_begin token fresh s)) w)"
| cancel_answered: "manage_step env w (on_page env (cancel_end asked waiting outcome) w)"
| deposit_sent: "manage_step env w (on_page env (\<lambda>s. fst (deposit_begin configured s)) w)"
| deposit_answered: "manage_step env w (on_page env (\<lambda>s. fst (deposit_end word intent s)) w)"
| deposit_closed: "manage_step env w (on_page env deposit_cancel w)"
| deposit_done: "manage_step env w (on_page env deposit_paid w)"
| days_read: "q \<in> set (mg_days_asked (mw_page w)) \<Longrightarrow> manage_step env w (on_page env (days_answered q days) w)"
| slots_failed: "q \<in> set (mg_slots_asked (mw_page w)) \<Longrightarrow> manage_step env w (on_page env (slots_answered q (Inl e)) w)"
| slots_read: "q \<in> set (mg_slots_asked (mw_page w)) \<Longrightarrow>
    manage_step env w (on_page env (slots_answered q (Inr xs)) (w\<lparr>mw_offers := (snd q, xs) # mw_offers w\<rparr>))"

definition manage_opened :: "flow_env \<Rightarrow> manage_world \<Rightarrow> bool" where
  "manage_opened env w \<longleftrightarrow> w = \<lparr>mw_page = commit env manage_initial, mw_offers = []\<rparr>"

text \<open>The times on the page are those of the day shown, and a picked time is one of them.\<close>

definition times_ok :: "(string \<times> open_slot list) set \<Rightarrow> manage \<Rightarrow> bool" where
  "times_ok offers s \<longleftrightarrow> (mg_pick s = [] \<or> offered_on s (mg_pick s))
    \<and> (\<forall>n q xs. mg_slots_live s = Some (n, q) \<and> mg_slots s = Some xs \<longrightarrow> (q, xs) \<in> offers \<and> (n, q) \<notin> set (mg_slots_asked s))
    \<and> distinct (map fst (mg_slots_asked s)) \<and> (\<forall>p\<in>set (mg_slots_asked s). fst p < mg_runs s)"

definition settled :: "flow_env \<Rightarrow> manage \<Rightarrow> bool" where
  "settled env s \<longleftrightarrow> mg_slots_deps s = Some (mg_mode s, mg_day env s, mg_reload s)
    \<and> (mg_mode s = Move_Mode \<longrightarrow> (\<exists>n. mg_slots_live s = Some (n, mg_day env s)))"

text \<open>Before a commit the deps may be behind, but the live run is still that of its deps.\<close>

definition deps_ok :: "manage \<Rightarrow> bool" where
  "deps_ok s \<longleftrightarrow> (\<forall>d r. mg_slots_deps s = Some (Move_Mode, d, r) \<longrightarrow> (\<exists>n. mg_slots_live s = Some (n, d)))"

lemma days_load_keeps [simp]:
  "mg_slots (days_load env r s) = mg_slots s" "mg_pick (days_load env r s) = mg_pick s" "mg_slots_live (days_load env r s) = mg_slots_live s"
  "mg_slots_deps (days_load env r s) = mg_slots_deps s" "mg_slots_asked (days_load env r s) = mg_slots_asked s"
  "mg_mode (days_load env r s) = mg_mode s" "mg_reload (days_load env r s) = mg_reload s" "mg_resource (days_load env r s) = mg_resource s"
  "mg_date (days_load env r s) = mg_date s"
  by (simp_all add: days_load_def Let_def)

lemma days_load_runs: "mg_runs s \<le> mg_runs (days_load env r s)"
  by (simp add: days_load_def Let_def)

lemma slots_load_keeps [simp]:
  "mg_mode (slots_load env r s) = mg_mode s" "mg_reload (slots_load env r s) = mg_reload s" "mg_resource (slots_load env r s) = mg_resource s"
  "mg_date (slots_load env r s) = mg_date s"
  by (simp_all add: slots_load_def Let_def)

lemma day_of_fields: "mg_resource t = mg_resource s \<Longrightarrow> mg_date t = mg_date s \<Longrightarrow> mg_day env t = mg_day env s"
  unfolding mg_day_def mg_data_def mg_today_def mg_start_def mg_now_def mg_zone_def by (simp only:)

lemma load_day [simp]: "mg_day env (days_load env r s) = mg_day env s" "mg_day env (slots_load env r s) = mg_day env s"
  by (rule day_of_fields; simp)+

lemma times_days_load: "times_ok offers s \<Longrightarrow> times_ok offers (days_load env r s)"
  unfolding times_ok_def offered_on_def days_load_keeps using days_load_runs [of s env r] by (meson less_le_trans)

lemma times_slots_load: "times_ok offers s \<Longrightarrow> times_ok offers (slots_load env r s)"
  by (cases "mg_slots_deps s = Some (mg_mode r, mg_day env r, mg_reload r)"; cases "mg_mode r = Move_Mode")
    (auto simp: times_ok_def slots_load_def offered_on_def less_Suc_eq)

lemma commit_settled:
  assumes "deps_ok s"
  shows "settled env (commit env s)" "deps_ok (commit env s)"
proof -
  let ?d = "days_load env s s"
  have deps: "deps_ok ?d" using assms by (simp add: deps_ok_def)
  show "settled env (commit env s)"
    using deps by (cases "mg_slots_deps s = Some (mg_mode s, mg_day env s, mg_reload s)"; cases "mg_mode s")
      (simp_all add: commit_def settled_def deps_ok_def, simp_all add: slots_load_def)
  show "deps_ok (commit env s)"
    using deps by (cases "mg_slots_deps s = Some (mg_mode s, mg_day env s, mg_reload s)"; cases "mg_mode s = Move_Mode")
      (auto simp: commit_def deps_ok_def slots_load_def)
qed

lemma commit_times: "times_ok offers s \<Longrightarrow> times_ok offers (commit env s)"
  by (simp add: commit_def times_slots_load times_days_load)

text \<open>What a handler leaves alone.\<close>

definition same_times :: "manage \<Rightarrow> manage \<Rightarrow> bool" where
  "same_times s t \<longleftrightarrow> mg_slots t = mg_slots s \<and> mg_slots_live t = mg_slots_live s \<and> mg_slots_deps t = mg_slots_deps s
    \<and> mg_slots_asked t = mg_slots_asked s \<and> mg_runs t = mg_runs s"

lemma same_times_ok:
  assumes "same_times s t" "mg_pick t = mg_pick s \<or> offered_on s (mg_pick t)" "times_ok offers s"
  shows "times_ok offers t"
  using assms by (auto simp: same_times_def times_ok_def offered_on_def)

definition manage_inv :: "flow_env \<Rightarrow> manage_world \<Rightarrow> bool" where
  "manage_inv env w \<longleftrightarrow> times_ok (set (mw_offers w)) (mw_page w) \<and> deps_ok (mw_page w) \<and> settled env (mw_page w)"

lemma on_page_inv:
  assumes "manage_inv env w" "same_times (mw_page w) (f (mw_page w))" "mg_pick (f (mw_page w)) = mg_pick (mw_page w) \<or> offered_on (mw_page w) (mg_pick (f (mw_page w)))"
  shows "manage_inv env (on_page env f w)"
proof -
  have "deps_ok (f (mw_page w))" using assms(1,2) by (auto simp: manage_inv_def deps_ok_def same_times_def)
  moreover have "times_ok (set (mw_offers w)) (f (mw_page w))"
    using same_times_ok [OF assms(2,3)] assms(1) by (simp add: manage_inv_def)
  ultimately show ?thesis by (simp add: manage_inv_def on_page_def commit_settled commit_times)
qed

lemma slots_answered_times:
  assumes "times_ok offers s" "q \<in> set (mg_slots_asked s)"
  shows "times_ok offers (slots_answered q (Inl e) s)" "times_ok (insert (snd q, xs) offers) (slots_answered q (Inr xs) s)"
proof -
  have d: "distinct (mg_slots_asked s)" using assms(1) by (simp add: times_ok_def distinct_map)
  have empty: "mg_slots s = None" if "mg_slots_live s = Some q"
    using assms that by (cases q; cases "mg_slots s") (auto simp: times_ok_def)
  have rest: "distinct (map fst (remove1 q (mg_slots_asked s)))" "set (remove1 q (mg_slots_asked s)) \<subseteq> set (mg_slots_asked s)"
    using assms(1) by (auto simp: times_ok_def distinct_map inj_on_def set_remove1_subset dest: set_remove1_subset [THEN subsetD] intro: distinct_remove1)
  show "times_ok offers (slots_answered q (Inl e) s)"
    using assms(1) rest by (auto simp: times_ok_def slots_answered_def offered_on_def Let_def)
  have "mg_pick s = []" if "mg_slots_live s = Some q" using assms(1) empty [OF that] by (auto simp: times_ok_def offered_on_def)
  then show "times_ok (insert (snd q, xs) offers) (slots_answered q (Inr xs) s)"
    using assms(1) rest d by (cases q) (auto simp: times_ok_def slots_answered_def offered_on_def Let_def)
qed

lemmas handlers = set_data_def set_mode_def prev_week_def next_week_def pick_day_def retry_slots_def pick_slot_def type_message_def
  deposit_cancel_def deposit_paid_def days_answered_def Let_def

lemma requests_keep:
  "same_times s (fst (message_begin fresh s)) \<and> mg_pick (fst (message_begin fresh s)) = mg_pick s"
  "same_times s (fst (move_begin fresh s)) \<and> mg_pick (fst (move_begin fresh s)) = mg_pick s"
  "same_times s (fst (cancel_begin token fresh s)) \<and> mg_pick (fst (cancel_begin token fresh s)) = mg_pick s"
  "same_times s (fst (deposit_begin configured s)) \<and> mg_pick (fst (deposit_begin configured s)) = mg_pick s"
  by (auto simp: same_times_def message_begin_def move_begin_def cancel_begin_def deposit_begin_def Let_def split: option.splits prod.splits)

lemma answers_keep:
  "same_times s (message_end reply s) \<and> mg_pick (message_end reply s) = mg_pick s"
  "same_times s (fst (move_end word first_send fresh pick moved s)) \<and> mg_pick (fst (move_end word first_send fresh pick moved s)) = mg_pick s"
  "same_times s (cancel_end asked waiting outcome s) \<and> mg_pick (cancel_end asked waiting outcome s) = mg_pick s"
  "same_times s (fst (deposit_end word intent s)) \<and> mg_pick (fst (deposit_end word intent s)) = mg_pick s"
  by (auto simp: same_times_def message_end_def move_end_def cancel_end_def deposit_end_def set_data_def Let_def split: sum.splits option.splits prod.splits)

lemma inputs_keep:
  "same_times s (s\<lparr>mg_resource := r\<rparr>)" "same_times s (set_data d s)" "same_times s (set_mode m s)" "same_times s (prev_week env s)"
  "same_times s (next_week env s)" "same_times s (pick_day k s)" "same_times s (retry_slots s)" "same_times s (pick_slot k s)"
  "same_times s (type_message v s)" "same_times s (deposit_cancel s)" "same_times s (deposit_paid s)" "same_times s (days_answered q days s)"
  by (simp_all add: same_times_def handlers split: sum.splits option.splits)

lemma inputs_keep_pick [simp]:
  "mg_pick (set_data d s) = mg_pick s" "mg_pick (set_mode m s) = mg_pick s" "mg_pick (prev_week env s) = mg_pick s"
  "mg_pick (next_week env s) = mg_pick s" "mg_pick (pick_day k s) = mg_pick s" "mg_pick (retry_slots s) = mg_pick s" "mg_pick (pick_slot k s) = k"
  "mg_pick (type_message v s) = mg_pick s" "mg_pick (deposit_cancel s) = mg_pick s" "mg_pick (deposit_paid s) = mg_pick s"
  "mg_pick (days_answered q days s) = mg_pick s"
  by (simp_all add: handlers split: sum.splits option.splits)

lemma slots_answered_inv:
  assumes "manage_inv env w" "q \<in> set (mg_slots_asked (mw_page w))"
  shows "manage_inv env (on_page env (slots_answered q (Inl e)) w)"
    "manage_inv env (on_page env (slots_answered q (Inr xs)) (w\<lparr>mw_offers := (snd q, xs) # mw_offers w\<rparr>))"
proof -
  have deps: "deps_ok (slots_answered q answer (mw_page w))" for answer
    using assms(1) by (cases answer; cases "mg_slots_live (mw_page w) = Some q") (auto simp: manage_inv_def deps_ok_def slots_answered_def)
  note times = slots_answered_times [of "set (mw_offers w)", OF _ assms(2)]
  show "manage_inv env (on_page env (slots_answered q (Inl e)) w)"
    "manage_inv env (on_page env (slots_answered q (Inr xs)) (w\<lparr>mw_offers := (snd q, xs) # mw_offers w\<rparr>))"
    using assms(1) by (simp_all add: manage_inv_def on_page_def commit_settled commit_times deps times)
qed

lemma manage_step_inv: "manage_step env w w' \<Longrightarrow> manage_inv env w \<Longrightarrow> manage_inv env w'"
  by (induction rule: manage_step.induct)
    (rule on_page_inv slots_answered_inv; simp add: inputs_keep requests_keep answers_keep)+

lemma manage_initial_ok: "times_ok offers manage_initial" "deps_ok manage_initial"
  by (simp_all add: times_ok_def deps_ok_def manage_initial_def)

interpretation managing: inductive_invariant "manage_opened env" "manage_step env" "manage_inv env" for env
proof
  show "manage_inv env w" if "manage_opened env w" for w
    using that by (simp add: manage_opened_def manage_inv_def commit_settled commit_times manage_initial_ok)
  show "manage_inv env w'" if "manage_inv env w" "manage_step env w w'" for w w'
    using that by (blast intro: manage_step_inv)
qed

text \<open>C31: a booking is only ever moved to a time the server offered. Whatever the visitor does on the manage page, in whatever
  order answers come: a move that is sent while the page offers times asks for a time of an answer to the query for
  the very day that the page shows then.\<close>

theorem manage_moves_to_offered:
  assumes "reach (manage_opened env) (manage_step env) w" "mg_mode (mw_page w) = Move_Mode"
    and "move_begin fresh (mw_page w) = (s, Some (pick, key))"
  shows "\<exists>xs. (mg_day env (mw_page w), xs) \<in> set (mw_offers w) \<and> pick \<in> os_starts ` set xs"
proof -
  have inv: "times_ok (set (mw_offers w)) (mw_page w)" "settled env (mw_page w)"
    using managing.reach_inv [OF assms(1)] by (simp_all add: manage_inv_def)
  have "pick = mg_pick (mw_page w)" "mg_pick (mw_page w) \<noteq> []"
    using assms(3) by (auto simp: move_begin_def split: if_splits option.splits prod.splits)
  with inv assms(2) show ?thesis by (auto simp: times_ok_def settled_def offered_on_def)
qed

definition demo_managing :: manage_world where
  "demo_managing = on_page demo_env (set_mode Move_Mode) (on_page demo_env (pick_day ''2026-03-02'')
     \<lparr>mw_page = commit demo_env manage_initial, mw_offers = []\<rparr>)"

definition demo_query :: "nat \<times> string" where
  "demo_query = hd (mg_slots_asked (mw_page demo_managing))"

definition demo_moving :: manage_world where
  "demo_moving = on_page demo_env (pick_slot (os_starts demo_slot))
     (on_page demo_env (slots_answered demo_query (Inr [demo_slot])) (demo_managing\<lparr>mw_offers := [(snd demo_query, [demo_slot])]\<rparr>))"

lemma commit_rest:
  "mg_slots_deps s = Some (mg_mode s, mg_day env s, mg_reload s) \<Longrightarrow> commit env s = days_load env s s"
  by (simp add: commit_def slots_load_def)

lemma days_load_action [simp]: "mg_action (days_load env r s) = mg_action s" "mg_key (days_load env r s) = mg_key s"
  by (simp_all add: days_load_def Let_def)

lemma commit_view:
  assumes "mg_mode s = View_Mode"
  shows "mg_slots_asked (commit env s) = mg_slots_asked s \<and> mg_slots_deps (commit env s) = Some (View_Mode, mg_day env s, mg_reload s)
    \<and> mg_action (commit env s) = mg_action s \<and> mg_key (commit env s) = mg_key s \<and> mg_mode (commit env s) = View_Mode
    \<and> mg_date (commit env s) = mg_date s \<and> mg_reload (commit env s) = mg_reload s"
  using assms by (cases "mg_slots_deps s = Some (View_Mode, mg_day env s, mg_reload s)") (simp_all add: commit_def slots_load_def)

lemma commit_moving:
  assumes "mg_mode s = Move_Mode" "mg_slots_deps s = Some (View_Mode, d, m)"
  shows "\<exists>n. mg_slots_asked (commit env s) = mg_slots_asked s @ [(n, mg_day env s)] \<and> mg_slots_live (commit env s) = Some (n, mg_day env s)
    \<and> mg_slots_deps (commit env s) = Some (Move_Mode, mg_day env s, mg_reload s) \<and> mg_action (commit env s) = mg_action s
    \<and> mg_key (commit env s) = mg_key s \<and> mg_mode (commit env s) = Move_Mode \<and> mg_date (commit env s) = mg_date s \<and> mg_reload (commit env s) = mg_reload s"
  using assms by (simp add: commit_def slots_load_def)

lemma demo_managing_asks:
  "\<exists>n. mg_slots_asked (mw_page demo_managing) = [(n, ''2026-03-02'')] \<and> mg_slots_live (mw_page demo_managing) = Some (n, ''2026-03-02'')
    \<and> mg_slots_deps (mw_page demo_managing) = Some (Move_Mode, ''2026-03-02'', 0) \<and> mg_action (mw_page demo_managing) = idle_action
    \<and> mg_key (mw_page demo_managing) = None \<and> mg_mode (mw_page demo_managing) = Move_Mode
    \<and> mg_date (mw_page demo_managing) = Some ''2026-03-02'' \<and> mg_reload (mw_page demo_managing) = 0"
proof -
  let ?s = "set_mode Move_Mode (commit demo_env (pick_day ''2026-03-02'' (commit demo_env manage_initial)))"
  have opened: "mg_slots_asked (commit demo_env manage_initial) = []" "mg_action (commit demo_env manage_initial) = idle_action"
    "mg_mode (commit demo_env manage_initial) = View_Mode" "mg_reload (commit demo_env manage_initial) = 0"
    using commit_view [of manage_initial demo_env] by (simp_all add: manage_initial_def)
  then have shown: "mg_slots_asked ?s = []" "mg_action ?s = idle_action" "mg_reload ?s = 0" "mg_date ?s = Some ''2026-03-02''" "mg_mode ?s = Move_Mode"
    "mg_key ?s = None" "\<exists>d. mg_slots_deps ?s = Some (View_Mode, d, 0)"
    using commit_view [of "pick_day ''2026-03-02'' (commit demo_env manage_initial)" demo_env] by (simp_all add: pick_day_def set_mode_def)
  moreover have "mg_day demo_env ?s = ''2026-03-02''" using shown(4) by (simp add: mg_day_def)
  ultimately show ?thesis using commit_moving [of ?s _ 0 demo_env] by (auto simp: demo_managing_def on_page_def)
qed

lemma demo_moving_page:
  "mg_pick (mw_page demo_moving) = os_starts demo_slot" "mg_action (mw_page demo_moving) = idle_action" "mg_key (mw_page demo_moving) = None"
  "mg_mode (mw_page demo_moving) = Move_Mode" "mg_day demo_env (mw_page demo_moving) = ''2026-03-02''"
  "demo_query \<in> set (mg_slots_asked (mw_page demo_managing))"
  "offered_on (commit demo_env (slots_answered demo_query (Inr [demo_slot]) (mw_page demo_managing))) (os_starts demo_slot)"
proof -
  obtain n where asks: "mg_slots_asked (mw_page demo_managing) = [(n, ''2026-03-02'')]" "mg_slots_live (mw_page demo_managing) = Some (n, ''2026-03-02'')"
    "mg_slots_deps (mw_page demo_managing) = Some (Move_Mode, ''2026-03-02'', 0)" "mg_action (mw_page demo_managing) = idle_action"
    "mg_key (mw_page demo_managing) = None" "mg_mode (mw_page demo_managing) = Move_Mode"
    "mg_date (mw_page demo_managing) = Some ''2026-03-02''" "mg_reload (mw_page demo_managing) = 0"
    using demo_managing_asks by blast
  let ?a = "slots_answered demo_query (Inr [demo_slot]) (mw_page demo_managing)"
  have q: "demo_query = (n, ''2026-03-02'')" using asks(1) by (simp add: demo_query_def)
  have a: "mg_slots ?a = Some [demo_slot]" "mg_slots_deps ?a = Some (mg_mode ?a, mg_day demo_env ?a, mg_reload ?a)" "mg_action ?a = idle_action"
    "mg_key ?a = None" "mg_mode ?a = Move_Mode" "mg_date ?a = Some ''2026-03-02''" "mg_reload ?a = 0"
    using asks by (simp_all add: slots_answered_def q mg_day_def)
  let ?b = "pick_slot (os_starts demo_slot) (commit demo_env ?a)"
  have b: "mg_slots_deps ?b = Some (mg_mode ?b, mg_day demo_env ?b, mg_reload ?b)"
    using a by (simp add: commit_rest pick_slot_def mg_day_def)
  have page: "mw_page demo_moving = days_load demo_env ?b ?b" by (simp add: demo_moving_def on_page_def commit_rest [OF b])
  show "mg_pick (mw_page demo_moving) = os_starts demo_slot" "mg_action (mw_page demo_moving) = idle_action" "mg_key (mw_page demo_moving) = None"
    "mg_mode (mw_page demo_moving) = Move_Mode" "mg_day demo_env (mw_page demo_moving) = ''2026-03-02''"
    using a unfolding page by (simp_all add: commit_rest pick_slot_def mg_day_def)
  show "demo_query \<in> set (mg_slots_asked (mw_page demo_managing))" by (simp add: q asks(1))
  show "offered_on (commit demo_env ?a) (os_starts demo_slot)" using a by (simp add: commit_rest offered_on_def)
qed

lemma demo_moving_reach: "reach (manage_opened demo_env) (manage_step demo_env) demo_moving"
proof -
  let ?w0 = "\<lparr>mw_page = commit demo_env manage_initial, mw_offers = []\<rparr>" and ?r = "reach (manage_opened demo_env) (manage_step demo_env)"
  have "?r ?w0" by (rule reach_init) (simp add: manage_opened_def)
  then have "?r (on_page demo_env (pick_day ''2026-03-02'') ?w0)" by (rule reach_step) (rule day_picked)
  then have "?r demo_managing" unfolding demo_managing_def by (rule reach_step) (rule mode_set)
  moreover have "mw_offers demo_managing = []" by (simp add: demo_managing_def on_page_def)
  ultimately have "?r (on_page demo_env (slots_answered demo_query (Inr [demo_slot])) (demo_managing\<lparr>mw_offers := [(snd demo_query, [demo_slot])]\<rparr>))"
    using slots_read [OF demo_moving_page(6), of demo_env "[demo_slot]"] by (auto intro: reach_step)
  then show ?thesis unfolding demo_moving_def
    by (rule reach_step) (rule slot_picked, simp add: on_page_def demo_moving_page(7))
qed

theorem manage_moves_to_offered_witness:
  "\<exists>xs. (''2026-03-02'', xs) \<in> set (mw_offers demo_moving) \<and> ''2026-03-02T17:00:00Z'' \<in> os_starts ` set xs"
proof -
  have "\<exists>s key. move_begin ''k1'' (mw_page demo_moving) = (s, Some (os_starts demo_slot, key))"
    using demo_moving_page by (simp add: move_begin_def action_start_def idle_action_def demo_slot_def split: prod.splits)
  then obtain s key where "move_begin ''k1'' (mw_page demo_moving) = (s, Some (os_starts demo_slot, key))" by blast
  from manage_moves_to_offered [OF demo_moving_reach demo_moving_page(4) this] show ?thesis
    by (simp add: demo_moving_page(5) demo_slot_def)
qed

section \<open>What a sent message takes along\<close>

text \<open>The field stays open while a message is sent. What is typed then is not part of what was sent, and the answer wipes it.\<close>

lemma typed_during_message_is_lost:
  "mg_body (message_end (Inr ()) (type_message v s)) = [] \<and> mg_sent (message_end (Inr ()) (type_message v s))"
  by (simp add: message_end_def type_message_def)

end
