(* ===== verification/Replica.thy ===== *)
theory Replica
  imports Json_Texts "HOL-Library.Word"
begin

text \<open>
  The replica's life (\<open>packages/sync/src/lifecycle.ts\<close>): \<open>ReplicaController\<close> opens the database of the person who
  signed in, connects it, hands its connection to other tabs, pauses, closes and deletes it. The controller's
  methods put actions on a queue; an action is cut at every \<open>await\<close> of the code, and the step relation lets any
  call, another tab, a download or an edit come in between. The database engine is the record of what was asked of
  each database together with the content of the files: who claimed a file and whose rows are in it. A call that
  waits on a database fails when \<open>close\<close> is called on that database meanwhile. Whether a wait ends well is free.
\<close>

unbundle bit_operations_syntax

section \<open>Whose replica a file is\<close>

record identity =
  id_user :: string
  id_scope :: string

text \<open>\<open>scope.replace(/\/$/, "")\<close>.\<close>

definition bare_scope :: "string \<Rightarrow> string" where
  "bare_scope s = (if s \<noteq> [] \<and> last s = CHR ''/'' then butlast s else s)"

definition identity_key :: "identity \<Rightarrow> string" where
  "identity_key i = json_text (\<lambda>_. []) (J_Arr (map J_Str [bare_scope (id_scope i), id_user i]))"

text \<open>\<open>replicaOwner\<close>; \<open>Inl\<close> when the claim is not JSON.\<close>

definition replica_owner :: "(string \<Rightarrow> json option) \<Rightarrow> string \<Rightarrow> unit + string option" where
  "replica_owner other claim =
    (case parse_json other claim of
       None \<Rightarrow> Inl ()
     | Some (J_Arr vs) \<Rightarrow> Inr (if vs = [] then None else case last vs of J_Str s \<Rightarrow> Some s | _ \<Rightarrow> None)
     | Some _ \<Rightarrow> Inr None)"

text \<open>The name of the file: two 32-bit hashes in hexadecimal, \<open>Math.imul\<close> wrapping around.\<close>

definition hash_step :: "32 word \<Rightarrow> 32 word \<Rightarrow> char \<Rightarrow> 32 word" where
  "hash_step prime h c = (h XOR word_of_nat (of_char c)) * prime"

function hex_text :: "nat \<Rightarrow> string" where
  "hex_text n = (if n < 16 then [hex_digit n] else hex_text (n div 16) @ [hex_digit (n mod 16)])"
  by pat_completeness auto
termination by (relation "measure id") auto

declare hex_text.simps [simp del]

definition filename :: "string \<Rightarrow> string" where
  "filename k =
    ''clientbridge-'' @ hex_text (unat (foldl (hash_step 0x01000193) 0x811c9dc5 k))
    @ ''-'' @ hex_text (unat (foldl (hash_step 0x85ebca6b) 0x9e3779b9 k)) @ ''.db''"

definition replica_filename :: "identity \<Rightarrow> string" where
  "replica_filename i = filename (identity_key i)"

section \<open>The controller's state\<close>

text \<open>A connector, with the account whose credentials it fetches.\<close>

record connector =
  cn_id :: nat
  cn_account :: string
  cn_uploads :: bool

text \<open>
  What was asked of an opened database: whether \<open>close\<close> was called, and what it was told to connect with. From the
  call on the engine takes no more rows and what waits on the database fails; how the close itself ends is the end
  of the wait of the action that called it, and nobody waits for the one of \<open>abandon\<close>.
\<close>

record database =
  dv_file :: string
  dv_closing :: bool
  dv_connected :: "connector option"

text \<open>A file: the \<open>sync.identity\<close> row, and the accounts its rows of \<open>businesses\<close> and its proposed hours are of.\<close>

record replica_file =
  fi_claim :: "string option"
  fi_rows :: "string list"
  fi_proposals :: "string list"

record active =
  ac_db :: nat
  ac_identity :: string
  ac_file :: string
  ac_shared :: bool
  ac_connector :: "connector option"
  ac_listening :: bool

record activation =
  av_call :: nat
  av_generation :: nat
  av_key :: string
  av_connector :: connector

datatype action =
    Activate activation
  | Pause nat
  | Close nat
  | Discard nat "string list"

text \<open>What \<open>detach\<close> returns to.\<close>

datatype detacher = Activating activation | Pausing nat | Closing nat

text \<open>The \<open>await\<close> an action stands at.\<close>

datatype awaiting =
    Act_Uploads activation
  | Act_Init activation nat
  | Act_Claim activation nat
  | Act_Drop activation nat string
  | Act_Disconnect activation
  | Act_Subscribe activation "nat list"
  | Pause_Uploads nat
  | Close_Uploads nat
  | Detach_Lock detacher
  | Detach_Disconnect detacher
  | Detach_Close detacher
  | Disc_Uploads nat "string list"
  | Disc_Clear nat "string list"
  | Disc_Close nat "string list" "string option"
  | Disc_Remove nat "string list" "string option"

record replica_queue =
  rq_abandoned :: bool
  rq_uploads :: "nat option"
  rq_history :: "nat list"
  rq_maintained :: "nat option"
  rq_active :: "active option"
  rq_waiting :: "action list"
  rq_running :: "awaiting option"

definition empty_queue :: replica_queue where
  "empty_queue = \<lparr>rq_abandoned = False, rq_uploads = None, rq_history = [], rq_maintained = None, rq_active = None,
     rq_waiting = [], rq_running = None\<rparr>"

text \<open>
  The controller and the page around it. \<open>this.queue\<close> is the last queue. Of an upload or a maintained history the
  database it runs on is kept, of a subscription its number; a call's outcome is the database it returned, if any,
  or its error.
\<close>

record replica_world =
  rw_queues :: "replica_queue list"
  rw_generation :: nat
  rw_dbs :: "database list"
  rw_files :: "string \<Rightarrow> replica_file"
  rw_uploading :: "nat list"
  rw_maintaining :: "nat list"
  rw_streams :: "nat list"
  rw_next :: nat
  rw_calls :: nat
  rw_listed :: "string list"
  rw_removed :: "string list"
  rw_done :: "(nat \<times> (string + nat option)) list"

text \<open>What the platform gives the controller: whether it deletes files, whether it has tabs, which files' databases share a worker.\<close>

record platform =
  pf_files :: bool
  pf_tabs :: bool
  pf_shared :: "string \<Rightarrow> bool"

definition blank_file :: replica_file where
  "blank_file = \<lparr>fi_claim = None, fi_rows = [], fi_proposals = []\<rparr>"

definition on_queue :: "nat \<Rightarrow> (replica_queue \<Rightarrow> replica_queue) \<Rightarrow> replica_world \<Rightarrow> replica_world" where
  "on_queue q f w = w\<lparr>rw_queues := (rw_queues w)[q := f (rw_queues w ! q)]\<rparr>"

definition on_db :: "nat \<Rightarrow> (database \<Rightarrow> database) \<Rightarrow> replica_world \<Rightarrow> replica_world" where
  "on_db d f w = w\<lparr>rw_dbs := (rw_dbs w)[d := f (rw_dbs w ! d)]\<rparr>"

definition on_file :: "string \<Rightarrow> (replica_file \<Rightarrow> replica_file) \<Rightarrow> replica_world \<Rightarrow> replica_world" where
  "on_file n f w = w\<lparr>rw_files := (rw_files w)(n := f (rw_files w n))\<rparr>"

definition on_active :: "nat \<Rightarrow> (active \<Rightarrow> active) \<Rightarrow> replica_world \<Rightarrow> replica_world" where
  "on_active q f = on_queue q (\<lambda>r. r\<lparr>rq_active := map_option f (rq_active r)\<rparr>)"

definition db_close :: "nat \<Rightarrow> replica_world \<Rightarrow> replica_world" where
  "db_close d = on_db d (\<lambda>v. v\<lparr>dv_closing := True\<rparr>)"

definition await_at :: "nat \<Rightarrow> awaiting \<Rightarrow> replica_world \<Rightarrow> replica_world" where
  "await_at q p = on_queue q (\<lambda>r. r\<lparr>rq_running := Some p\<rparr>)"

definition settle_call :: "nat \<Rightarrow> nat \<Rightarrow> string + nat option \<Rightarrow> replica_world \<Rightarrow> replica_world" where
  "settle_call q i outcome w =
    on_queue q (\<lambda>r. r\<lparr>rq_running := None\<rparr>) (w\<lparr>rw_done := rw_done w @ [(i, outcome)]\<rparr>)"

section \<open>The steps of an action\<close>

definition HISTORY_STREAMS :: "string list" where
  "HISTORY_STREAMS = [''history_shared'', ''history_self'', ''history_full'']"

text \<open>\<open>queue.stopHistory?.()\<close> and what \<open>queue.stopUploads?.()\<close> leaves once it has settled.\<close>

definition stop_maintaining :: "nat \<Rightarrow> replica_world \<Rightarrow> replica_world" where
  "stop_maintaining q w =
    on_queue q (\<lambda>r. r\<lparr>rq_maintained := None\<rparr>)
      (case rq_maintained (rw_queues w ! q) of
         None \<Rightarrow> w | Some d \<Rightarrow> w\<lparr>rw_maintaining := remove1 d (rw_maintaining w)\<rparr>)"

definition uploads_stopped :: "nat \<Rightarrow> replica_world \<Rightarrow> replica_world" where
  "uploads_stopped q w =
    on_queue q (\<lambda>r. r\<lparr>rq_uploads := None\<rparr>)
      (case rq_uploads (rw_queues w ! q) of
         None \<Rightarrow> w | Some d \<Rightarrow> w\<lparr>rw_uploading := remove1 d (rw_uploading w)\<rparr>)"

definition unsubscribe :: "nat list \<Rightarrow> replica_world \<Rightarrow> replica_world" where
  "unsubscribe subs w = w\<lparr>rw_streams := filter (\<lambda>n. n \<notin> set subs) (rw_streams w)\<rparr>"

definition drop_history :: "nat \<Rightarrow> replica_world \<Rightarrow> replica_world" where
  "drop_history q w =
    on_queue q (\<lambda>r. r\<lparr>rq_history := []\<rparr>) (unsubscribe (rq_history (rw_queues w ! q)) w)"

text \<open>\<open>detach\<close> up to its first wait: the lock of the hand-off where a worker is shared, else the disconnect.\<close>

definition detach :: "platform \<Rightarrow> nat \<Rightarrow> active \<Rightarrow> detacher \<Rightarrow> replica_world \<Rightarrow> replica_world" where
  "detach pf q a k w =
    await_at q (if ac_shared a \<and> pf_tabs pf then Detach_Lock k else Detach_Disconnect k)
      (on_active q (\<lambda>a. a\<lparr>ac_listening := False\<rparr>) w)"

text \<open>\<open>activate\<close> once no other replica is open: the same one is connected anew, else the file is opened.\<close>

definition open_replica :: "nat \<Rightarrow> activation \<Rightarrow> replica_world \<Rightarrow> replica_world" where
  "open_replica q c w =
    await_at q (Act_Init c (length (rw_dbs w)))
      (w\<lparr>rw_dbs := rw_dbs w @ [\<lparr>dv_file = filename (av_key c), dv_closing = False, dv_connected = None\<rparr>]\<rparr>)"

text \<open>\<open>activate\<close> once its replica is open.\<close>

definition reconnect_begin :: "nat \<Rightarrow> activation \<Rightarrow> replica_world \<Rightarrow> replica_world" where
  "reconnect_begin q c w =
    (if av_generation c \<noteq> rw_generation w then settle_call q (av_call c) (Inl ''superseded'') w
     else await_at q (Act_Disconnect c) w)"

definition activate_stopped :: "platform \<Rightarrow> nat \<Rightarrow> activation \<Rightarrow> replica_world \<Rightarrow> replica_world" where
  "activate_stopped pf q c w =
    (let w1 = uploads_stopped q w
     in case rq_active (rw_queues w ! q) of
          Some a \<Rightarrow> if ac_identity a = av_key c then reconnect_begin q c w1
                    else detach pf q a (Activating c) (drop_history q w1)
        | None \<Rightarrow> open_replica q c w1)"

text \<open>\<open>throw\<close> after the database was opened: it is closed first.\<close>

definition drop_replica :: "nat \<Rightarrow> activation \<Rightarrow> nat \<Rightarrow> string \<Rightarrow> replica_world \<Rightarrow> replica_world" where
  "drop_replica q c d e w = await_at q (Act_Drop c d e) (db_close d w)"

definition activate_opened :: "nat \<Rightarrow> activation \<Rightarrow> nat \<Rightarrow> replica_world \<Rightarrow> replica_world" where
  "activate_opened q c d w =
    (if rq_abandoned (rw_queues w ! q) then drop_replica q c d ''superseded'' w else await_at q (Act_Claim c d) w)"

text \<open>The transaction that claims the file: who owns it, or the error of a file with rows of no one.\<close>

definition claim_file :: "string \<Rightarrow> replica_file \<Rightarrow> (string + string) \<times> replica_file" where
  "claim_file k f =
    (case fi_claim f of
       Some owner \<Rightarrow> (Inr owner, f)
     | None \<Rightarrow> if fi_rows f \<noteq> [] \<or> fi_proposals f \<noteq> [] then (Inl ''unassigned'', f)
               else (Inr k, f\<lparr>fi_claim := Some k\<rparr>))"

definition activate_claimed :: "platform \<Rightarrow> nat \<Rightarrow> activation \<Rightarrow> nat \<Rightarrow> replica_world \<Rightarrow> replica_world" where
  "activate_claimed pf q c d w =
    (let name = dv_file (rw_dbs w ! d); (owner, f) = claim_file (av_key c) (rw_files w name);
         w1 = on_file name (\<lambda>_. f) w
     in case owner of
          Inl e \<Rightarrow> drop_replica q c d e w1
        | Inr k \<Rightarrow>
            if k \<noteq> av_key c then drop_replica q c d ''ownership'' w1
            else if rq_abandoned (rw_queues w ! q) then drop_replica q c d ''superseded'' w1
            else reconnect_begin q c
              (on_queue q (\<lambda>r. r\<lparr>rq_active := Some \<lparr>ac_db = d, ac_identity = av_key c, ac_file = name,
                 ac_shared = (pf_tabs pf \<and> pf_shared pf name), ac_connector = None, ac_listening = False\<rparr>\<rparr>) w1))"

definition activate_disconnected :: "nat \<Rightarrow> activation \<Rightarrow> replica_world \<Rightarrow> replica_world" where
  "activate_disconnected q c w =
    (if av_generation c \<noteq> rw_generation w then settle_call q (av_call c) (Inl ''superseded'') w
     else await_at q (Act_Subscribe c (rq_history (rw_queues w ! q))) w)"

text \<open>\<open>listen\<close> and the rest of \<open>activate\<close>, once the three history streams are subscribed.\<close>

definition listen :: "platform \<Rightarrow> nat \<Rightarrow> replica_world \<Rightarrow> replica_world" where
  "listen pf q = on_active q (\<lambda>a. if ac_shared a \<and> pf_tabs pf then a\<lparr>ac_listening := True\<rparr> else a)"

definition activate_subscribed :: "platform \<Rightarrow> nat \<Rightarrow> activation \<Rightarrow> nat list \<Rightarrow> replica_world \<Rightarrow> replica_world" where
  "activate_subscribed pf q c previous w =
    (case rq_active (rw_queues w ! q) of
       None \<Rightarrow> w
     | Some a \<Rightarrow>
        (let d = ac_db a; n = rw_next w; subs = [n, n + 1, n + 2];
             w1 = unsubscribe previous (w\<lparr>rw_next := n + 3, rw_streams := rw_streams w @ subs\<rparr>);
             w2 = listen pf q (on_active q (\<lambda>a. a\<lparr>ac_connector := Some (av_connector c)\<rparr>) w1);
             w3 = on_db d (\<lambda>v. v\<lparr>dv_connected := Some (av_connector c)\<rparr>) w2;
             uploads = cn_uploads (av_connector c);
             w4 = w3\<lparr>rw_uploading := (if uploads then d # rw_uploading w3 else rw_uploading w3),
                     rw_maintaining := d # rw_maintaining w3\<rparr>
         in settle_call q (av_call c) (Inr (Some d))
              (on_queue q (\<lambda>r. r\<lparr>rq_history := subs, rq_uploads := (if uploads then Some d else None),
                 rq_maintained := Some d\<rparr>) w4)))"

text \<open>The subscriptions of some streams may have been made when another fails; nobody has them then.\<close>

definition subscribe_failed :: "nat \<Rightarrow> activation \<Rightarrow> nat \<Rightarrow> replica_world \<Rightarrow> replica_world" where
  "subscribe_failed q c made w =
    settle_call q (av_call c) (Inl ''subscribe'')
      (w\<lparr>rw_next := rw_next w + made, rw_streams := rw_streams w @ [rw_next w..<rw_next w + made]\<rparr>)"

text \<open>The end of \<open>detach\<close> for its three callers.\<close>

definition detached :: "nat \<Rightarrow> detacher \<Rightarrow> replica_world \<Rightarrow> replica_world" where
  "detached q k w =
    (case k of
       Activating c \<Rightarrow> open_replica q c (on_queue q (\<lambda>r. r\<lparr>rq_active := None\<rparr>) w)
     | Closing i \<Rightarrow> settle_call q i (Inr None) (on_queue q (\<lambda>r. r\<lparr>rq_active := None\<rparr>) w)
     | Pausing i \<Rightarrow> settle_call q i (Inr None) w)"

definition detacher_call :: "detacher \<Rightarrow> nat" where
  "detacher_call k = (case k of Activating c \<Rightarrow> av_call c | Pausing i \<Rightarrow> i | Closing i \<Rightarrow> i)"

text \<open>\<open>leave\<close> after the disconnect: only a pause keeps the database open.\<close>

definition detach_disconnected :: "nat \<Rightarrow> detacher \<Rightarrow> replica_world \<Rightarrow> replica_world" where
  "detach_disconnected q k w =
    (case rq_active (rw_queues w ! q) of
       None \<Rightarrow> w
     | Some a \<Rightarrow>
        (let w1 = on_db (ac_db a) (\<lambda>v. v\<lparr>dv_connected := None\<rparr>) w
         in case k of Pausing _ \<Rightarrow> detached q k w1 | _ \<Rightarrow> await_at q (Detach_Close k) (db_close (ac_db a) w1)))"

definition pause_stopped :: "platform \<Rightarrow> nat \<Rightarrow> nat \<Rightarrow> replica_world \<Rightarrow> replica_world" where
  "pause_stopped pf q i w =
    (let w1 = uploads_stopped q w
     in case rq_active (rw_queues w ! q) of
          None \<Rightarrow> settle_call q i (Inr None) w1 | Some a \<Rightarrow> detach pf q a (Pausing i) w1)"

definition close_stopped :: "platform \<Rightarrow> nat \<Rightarrow> nat \<Rightarrow> replica_world \<Rightarrow> replica_world" where
  "close_stopped pf q i w =
    (let w1 = drop_history q (uploads_stopped q w)
     in case rq_active (rw_queues w ! q) of
          None \<Rightarrow> settle_call q i (Inr None) w1 | Some a \<Rightarrow> detach pf q a (Closing i) w1)"

text \<open>\<open>discard\<close>: the files are removed one after the other; a platform without files reports the failure.\<close>

definition discard_remove :: "platform \<Rightarrow> nat \<Rightarrow> nat \<Rightarrow> string list \<Rightarrow> string option \<Rightarrow> replica_world \<Rightarrow> replica_world" where
  "discard_remove pf q i names failure w =
    (if names \<noteq> [] then await_at q (Disc_Remove i names failure) w
     else settle_call q i (case failure of Some e \<Rightarrow> if pf_files pf then Inr None else Inl e | None \<Rightarrow> Inr None) w)"

definition list_files :: "platform \<Rightarrow> string list \<Rightarrow> replica_world \<Rightarrow> replica_world" where
  "list_files pf names w = (if pf_files pf then w\<lparr>rw_listed := rw_listed w @ names\<rparr> else w)"

definition discard_stopped :: "platform \<Rightarrow> nat \<Rightarrow> nat \<Rightarrow> string list \<Rightarrow> replica_world \<Rightarrow> replica_world" where
  "discard_stopped pf q i names w =
    (let w1 = drop_history q (uploads_stopped q w)
     in case rq_active (rw_queues w ! q) of
          None \<Rightarrow> discard_remove pf q i names None w1
        | Some a \<Rightarrow>
           (let more = (if ac_file a \<in> set names then [] else [ac_file a])
            in await_at q (Disc_Clear i (names @ more)) (list_files pf more w1)))"

text \<open>\<open>disconnectAndClear\<close> on a database that that is closing meanwhile fails.\<close>

definition discard_cleared :: "bool \<Rightarrow> nat \<Rightarrow> nat \<Rightarrow> string list \<Rightarrow> replica_world \<Rightarrow> replica_world" where
  "discard_cleared ok q i names w =
    (case rq_active (rw_queues w ! q) of
       None \<Rightarrow> w
     | Some a \<Rightarrow>
        (let d = ac_db a; v = rw_dbs w ! d; done = ok \<and> \<not> dv_closing v;
             w1 = (if done then on_file (dv_file v) (\<lambda>_. blank_file) (on_db d (\<lambda>v. v\<lparr>dv_connected := None\<rparr>) w) else w)
         in await_at q (Disc_Close i names (if done then None else Some ''clear'')) (db_close d w1)))"

definition discard_closed :: "platform \<Rightarrow> bool \<Rightarrow> nat \<Rightarrow> nat \<Rightarrow> string list \<Rightarrow> string option \<Rightarrow> replica_world \<Rightarrow> replica_world" where
  "discard_closed pf ok q i names failure w =
    discard_remove pf q i names (case failure of Some e \<Rightarrow> Some e | None \<Rightarrow> if ok then None else Some ''close'')
      (on_queue q (\<lambda>r. r\<lparr>rq_active := None\<rparr>) w)"

definition discard_removed :: "platform \<Rightarrow> nat \<Rightarrow> nat \<Rightarrow> string list \<Rightarrow> string option \<Rightarrow> replica_world \<Rightarrow> replica_world" where
  "discard_removed pf q i names failure w =
    discard_remove pf q i (tl names) failure (if pf_files pf then w\<lparr>rw_removed := rw_removed w @ [hd names]\<rparr> else w)"

section \<open>Waits and calls\<close>

definition action_begin :: "nat \<Rightarrow> action \<Rightarrow> replica_world \<Rightarrow> replica_world" where
  "action_begin q t w =
    (case t of
       Activate c \<Rightarrow>
         if av_generation c \<noteq> rw_generation w then settle_call q (av_call c) (Inl ''superseded'') w
         else await_at q (Act_Uploads c) (stop_maintaining q w)
     | Pause i \<Rightarrow> await_at q (Pause_Uploads i) (stop_maintaining q w)
     | Close i \<Rightarrow> await_at q (Close_Uploads i) (stop_maintaining q w)
     | Discard i names \<Rightarrow> await_at q (Disc_Uploads i names) (stop_maintaining q w))"

text \<open>\<open>serialize\<close>: the action at the head of the queue starts once the one before has settled.\<close>

definition next_action :: "nat \<Rightarrow> replica_world \<Rightarrow> replica_world" where
  "next_action q w =
    (case rq_waiting (rw_queues w ! q) of
       [] \<Rightarrow> w | t # ts \<Rightarrow> action_begin q t (on_queue q (\<lambda>r. r\<lparr>rq_waiting := ts\<rparr>) w))"

text \<open>How an action goes on when what it waits for ends, well or with an error (\<open>made\<close> streams were subscribed before).\<close>

definition resume_action :: "platform \<Rightarrow> bool \<Rightarrow> nat \<Rightarrow> nat \<Rightarrow> awaiting \<Rightarrow> replica_world \<Rightarrow> replica_world" where
  "resume_action pf ok made q p w =
    (case p of
       Act_Uploads c \<Rightarrow> if ok then activate_stopped pf q c w else settle_call q (av_call c) (Inl ''uploads'') w
     | Act_Init c d \<Rightarrow> if ok then activate_opened q c d w else drop_replica q c d ''init'' w
     | Act_Claim c d \<Rightarrow> if ok then activate_claimed pf q c d w else drop_replica q c d ''claim'' w
     | Act_Drop c d e \<Rightarrow> settle_call q (av_call c) (Inl (if ok then e else ''close'')) w
     | Act_Disconnect c \<Rightarrow>
         if ok then activate_disconnected q c
           (case rq_active (rw_queues w ! q) of
              None \<Rightarrow> w | Some a \<Rightarrow> on_db (ac_db a) (\<lambda>v. v\<lparr>dv_connected := None\<rparr>) w)
         else settle_call q (av_call c) (Inl ''disconnect'') w
     | Act_Subscribe c previous \<Rightarrow>
         if ok then activate_subscribed pf q c previous w else subscribe_failed q c (min made (length HISTORY_STREAMS - 1)) w
     | Pause_Uploads i \<Rightarrow> if ok then pause_stopped pf q i w else settle_call q i (Inl ''uploads'') w
     | Close_Uploads i \<Rightarrow> if ok then close_stopped pf q i w else settle_call q i (Inl ''uploads'') w
     | Detach_Lock k \<Rightarrow> if ok then await_at q (Detach_Disconnect k) w else settle_call q (detacher_call k) (Inl ''lock'') w
     | Detach_Disconnect k \<Rightarrow>
         if ok then detach_disconnected q k w else settle_call q (detacher_call k) (Inl ''disconnect'') w
     | Detach_Close k \<Rightarrow> if ok then detached q k w else settle_call q (detacher_call k) (Inl ''close'') w
     | Disc_Uploads i names \<Rightarrow> if ok then discard_stopped pf q i names w else settle_call q i (Inl ''uploads'') w
     | Disc_Clear i names \<Rightarrow> discard_cleared ok q i names w
     | Disc_Close i names e \<Rightarrow> discard_closed pf ok q i names e w
     | Disc_Remove i names e \<Rightarrow>
         if ok then discard_removed pf q i names e w else settle_call q i (Inl ''remove'') w)"

text \<open>The methods: each call raises the generation, and all but \<open>abandon\<close> put an action on the page's queue.\<close>

definition this_queue :: "replica_world \<Rightarrow> nat" where
  "this_queue w = length (rw_queues w) - 1"

definition serialize :: "action \<Rightarrow> replica_world \<Rightarrow> replica_world" where
  "serialize t w = on_queue (this_queue w) (\<lambda>r. r\<lparr>rq_waiting := rq_waiting r @ [t]\<rparr>)
    (w\<lparr>rw_generation := rw_generation w + 1, rw_calls := rw_calls w + 1\<rparr>)"

definition activate :: "identity \<Rightarrow> connector \<Rightarrow> replica_world \<Rightarrow> replica_world" where
  "activate i c w = serialize (Activate \<lparr>av_call = rw_calls w, av_generation = rw_generation w + 1,
     av_key = identity_key i, av_connector = c\<rparr>) w"

definition pause :: "replica_world \<Rightarrow> replica_world" where
  "pause w = serialize (Pause (rw_calls w)) w"

definition close_replica :: "replica_world \<Rightarrow> replica_world" where
  "close_replica w = serialize (Close (rw_calls w)) w"

definition discard_names :: "identity option \<Rightarrow> replica_world \<Rightarrow> string list" where
  "discard_names i w = remdups
    ((case i of Some i \<Rightarrow> [filename (identity_key i)] | None \<Rightarrow> [])
     @ (case rq_active (rw_queues w ! this_queue w) of Some a \<Rightarrow> [ac_file a] | None \<Rightarrow> []))"

definition discard :: "platform \<Rightarrow> identity option \<Rightarrow> replica_world \<Rightarrow> replica_world" where
  "discard pf i w = serialize (Discard (rw_calls w) (discard_names i w)) (list_files pf (discard_names i w) w)"

definition abandon :: "replica_world \<Rightarrow> replica_world" where
  "abandon w =
    (let q = this_queue w; r = rw_queues w ! q;
         w1 = on_queue q (\<lambda>r. r\<lparr>rq_abandoned := True\<rparr>) (w\<lparr>rw_generation := rw_generation w + 1\<rparr>);
         w2 = unsubscribe (rq_history r) (w1\<lparr>rw_queues := rw_queues w1 @ [empty_queue],
                rw_maintaining := (case rq_maintained r of None \<Rightarrow> rw_maintaining w1 | Some d \<Rightarrow> remove1 d (rw_maintaining w1)),
                rw_uploading := (case rq_uploads r of None \<Rightarrow> rw_uploading w1 | Some d \<Rightarrow> remove1 d (rw_uploading w1))\<rparr>)
     in case rq_active r of None \<Rightarrow> w2 | Some a \<Rightarrow> db_close (ac_db a) w2)"

text \<open>
  What \<open>join\<close> was given, after another tab handed the connection on. A take-over that was under way when the
  channel was closed comes here too.
\<close>

definition take_over :: "nat \<Rightarrow> replica_world \<Rightarrow> replica_world" where
  "take_over q w =
    (case rq_active (rw_queues w ! q) of
       None \<Rightarrow> w
     | Some a \<Rightarrow>
        (case ac_connector a of
           Some c \<Rightarrow> if ac_listening a then on_db (ac_db a) (\<lambda>v. v\<lparr>dv_connected := Some c\<rparr>) w else w
         | None \<Rightarrow> w))"

section \<open>The steps of a page\<close>

text \<open>What a claimed file holds is its claimer's. A file that nobody claimed may hold anything.\<close>

definition file_ok :: "replica_file \<Rightarrow> bool" where
  "file_ok f \<longleftrightarrow> (\<forall>j. fi_claim f = Some j \<longrightarrow> (\<forall>k\<in>set (fi_rows f) \<union> set (fi_proposals f). k = j))"

definition page_opened :: "replica_world \<Rightarrow> bool" where
  "page_opened w \<longleftrightarrow> rw_queues w = [empty_queue] \<and> rw_dbs w = [] \<and> (\<forall>n. file_ok (rw_files w n))"

text \<open>
  Downloads go into the file of a connected database, edits into that of the replica the page has open. Another tab
  claims a file of no one and writes into one that it claimed. A file that nobody claimed may be anyone's leftovers,
  also new ones: an interrupted or an older page's.
\<close>

inductive replica_step :: "platform \<Rightarrow> replica_world \<Rightarrow> replica_world \<Rightarrow> bool" for pf :: platform where
  call_activate: "cn_account c = identity_key i \<Longrightarrow> replica_step pf w (activate i c w)"
| call_pause: "replica_step pf w (pause w)"
| call_close: "replica_step pf w (close_replica w)"
| call_discard: "replica_step pf w (discard pf i w)"
| call_abandon: "replica_step pf w (abandon w)"
| action_starts: "q < length (rw_queues w) \<Longrightarrow> rq_running (rw_queues w ! q) = None \<Longrightarrow> replica_step pf w (next_action q w)"
| action_resumes: "q < length (rw_queues w) \<Longrightarrow> rq_running (rw_queues w ! q) = Some p \<Longrightarrow> replica_step pf w (resume_action pf ok made q p w)"
| tab_hands_on: "q < length (rw_queues w) \<Longrightarrow> replica_step pf w (take_over q w)"
| rows_arrive: "d < length (rw_dbs w) \<Longrightarrow> \<not> dv_closing (rw_dbs w ! d) \<Longrightarrow> dv_connected (rw_dbs w ! d) = Some c \<Longrightarrow>
    replica_step pf w (on_file (dv_file (rw_dbs w ! d)) (\<lambda>f. f\<lparr>fi_rows := cn_account c # fi_rows f\<rparr>) w)"
| hours_proposed: "q < length (rw_queues w) \<Longrightarrow> rq_active (rw_queues w ! q) = Some a \<Longrightarrow> \<not> dv_closing (rw_dbs w ! ac_db a) \<Longrightarrow>
    replica_step pf w (on_file (ac_file a) (\<lambda>f. f\<lparr>fi_proposals := ac_identity a # fi_proposals f\<rparr>) w)"
| tab_claims: "replica_step pf w (on_file n (\<lambda>f. snd (claim_file k f)) w)"
| tab_writes: "fi_claim (rw_files w n) = Some k \<Longrightarrow>
    replica_step pf w (on_file n (\<lambda>f. f\<lparr>fi_rows := k # fi_rows f\<rparr>) w)"
| rows_left: "fi_claim (rw_files w n) = None \<Longrightarrow> fi_claim f = None \<Longrightarrow> replica_step pf w (on_file n (\<lambda>_. f) w)"

section \<open>Every open replica is accounted for, and is its owner's\<close>

definition action_ok :: "action \<Rightarrow> bool" where
  "action_ok t = (case t of Activate c \<Rightarrow> cn_account (av_connector c) = av_key c | _ \<Rightarrow> True)"

definition detacher_ok :: "detacher \<Rightarrow> bool" where
  "detacher_ok k = (case k of Activating c \<Rightarrow> action_ok (Activate c) | _ \<Rightarrow> True)"

definition opened_by :: "awaiting \<Rightarrow> nat option" where
  "opened_by p = (case p of Act_Init c d \<Rightarrow> Some d | Act_Claim c d \<Rightarrow> Some d | _ \<Rightarrow> None)"

definition active_closed :: "database list \<Rightarrow> replica_queue \<Rightarrow> bool" where
  "active_closed dbs r \<longleftrightarrow> (\<forall>a. rq_active r = Some a \<longrightarrow> dv_closing (dbs ! ac_db a))"

definition wait_ok :: "database list \<Rightarrow> replica_queue \<Rightarrow> awaiting \<Rightarrow> bool" where
  "wait_ok dbs r p =
    (case p of
       Act_Uploads c \<Rightarrow> action_ok (Activate c)
     | Act_Init c d \<Rightarrow> action_ok (Activate c) \<and> d < length dbs \<and> rq_active r = None
     | Act_Claim c d \<Rightarrow> action_ok (Activate c) \<and> d < length dbs \<and> rq_active r = None
     | Act_Disconnect c \<Rightarrow> action_ok (Activate c) \<and> map_option ac_identity (rq_active r) = Some (av_key c)
     | Act_Subscribe c _ \<Rightarrow> action_ok (Activate c) \<and> map_option ac_identity (rq_active r) = Some (av_key c)
     | Detach_Lock k \<Rightarrow> detacher_ok k
     | Detach_Disconnect k \<Rightarrow> detacher_ok k
     | Detach_Close k \<Rightarrow> detacher_ok k \<and> active_closed dbs r
     | Disc_Close _ _ _ \<Rightarrow> active_closed dbs r
     | _ \<Rightarrow> True)"

definition active_ok :: "bool \<Rightarrow> database list \<Rightarrow> (string \<Rightarrow> replica_file) \<Rightarrow> active \<Rightarrow> bool" where
  "active_ok this dbs files a \<longleftrightarrow> ac_db a < length dbs \<and> dv_file (dbs ! ac_db a) = ac_file a
    \<and> (\<forall>c. ac_connector a = Some c \<longrightarrow> cn_account c = ac_identity a)
    \<and> (\<not> dv_closing (dbs ! ac_db a) \<longrightarrow> this \<and> fi_claim (files (ac_file a)) = Some (ac_identity a))"

definition queue_ok :: "bool \<Rightarrow> database list \<Rightarrow> (string \<Rightarrow> replica_file) \<Rightarrow> replica_queue \<Rightarrow> bool" where
  "queue_ok this dbs files r \<longleftrightarrow> rq_abandoned r = (\<not> this) \<and> (\<forall>t\<in>set (rq_waiting r). action_ok t)
    \<and> (\<forall>p. rq_running r = Some p \<longrightarrow> wait_ok dbs r p) \<and> (\<forall>a. rq_active r = Some a \<longrightarrow> active_ok this dbs files a)"


text \<open>A database that no \<open>close\<close> was called on is the page's replica, or one that an action is opening; of these only the page's was told to connect.\<close>

definition held :: "replica_queue list \<Rightarrow> nat \<Rightarrow> database \<Rightarrow> bool" where
  "held qs d v \<longleftrightarrow> dv_closing v
    \<or> (\<exists>a. rq_active (last qs) = Some a \<and> ac_db a = d \<and> (\<forall>c. dv_connected v = Some c \<longrightarrow> cn_account c = ac_identity a))
    \<or> dv_connected v = None \<and> (\<exists>q<length qs. Option.bind (rq_running (qs ! q)) opened_by = Some d)"

definition replica_inv :: "replica_world \<Rightarrow> bool" where
  "replica_inv w \<longleftrightarrow> rw_queues w \<noteq> [] \<and> (\<forall>n. file_ok (rw_files w n))
    \<and> (\<forall>q<length (rw_queues w). queue_ok (q = this_queue w) (rw_dbs w) (rw_files w) (rw_queues w ! q))
    \<and> (\<forall>d<length (rw_dbs w). held (rw_queues w) d (rw_dbs w ! d))"

lemma wait_ok_queue:
  "wait_ok dbs (r\<lparr>rq_waiting := ts\<rparr>) p = wait_ok dbs r p" "wait_ok dbs (r\<lparr>rq_abandoned := b\<rparr>) p = wait_ok dbs r p"
  by (simp_all add: wait_ok_def active_closed_def split: awaiting.split)

definition keeps :: "database list \<Rightarrow> (string \<Rightarrow> replica_file) \<Rightarrow> database list \<Rightarrow> (string \<Rightarrow> replica_file) \<Rightarrow> bool" where
  "keeps dbs files dbs' files' \<longleftrightarrow> length dbs \<le> length dbs'
    \<and> (\<forall>d<length dbs. dv_file (dbs' ! d) = dv_file (dbs ! d) \<and> (dv_closing (dbs ! d) \<longrightarrow> dv_closing (dbs' ! d)))
    \<and> (\<forall>n k. fi_claim (files n) = Some k \<longrightarrow> fi_claim (files' n) = Some k)"

lemma keeps_refl [simp]: "keeps dbs files dbs files"
  by (simp add: keeps_def)

lemma active_ok_keeps: "keeps dbs files dbs' files' \<Longrightarrow> active_ok this dbs files a \<Longrightarrow> active_ok this dbs' files' a"
  by (auto simp: active_ok_def keeps_def)

lemma wait_ok_keeps:
  "keeps dbs files dbs' files' \<Longrightarrow> (\<forall>a. rq_active r = Some a \<longrightarrow> active_ok this dbs files a) \<Longrightarrow> wait_ok dbs r p \<Longrightarrow> wait_ok dbs' r p"
  by (auto simp: wait_ok_def active_closed_def active_ok_def keeps_def split: awaiting.splits)

lemma queue_ok_keeps: "keeps dbs files dbs' files' \<Longrightarrow> queue_ok this dbs files r \<Longrightarrow> queue_ok this dbs' files' r"
  unfolding queue_ok_def using active_ok_keeps wait_ok_keeps by blast

lemma queue_stepped:
  assumes "replica_inv w" "q < length (rw_queues w)" "rw_queues w' = (rw_queues w)[q := r]"
    and "keeps (rw_dbs w) (rw_files w) (rw_dbs w') (rw_files w')" "\<forall>n. file_ok (rw_files w' n)"
    and "queue_ok (q = this_queue w) (rw_dbs w') (rw_files w') r"
    and "\<forall>d<length (rw_dbs w'). held ((rw_queues w)[q := r]) d (rw_dbs w' ! d)"
  shows "replica_inv w'"
  using assms queue_ok_keeps [OF assms(4)]
  by (auto simp: replica_inv_def this_queue_def nth_list_update)

lemma file_ok_at: "replica_inv w \<Longrightarrow> file_ok (rw_files w n)"
  by (simp add: replica_inv_def)

lemma queue_ok_at: "replica_inv w \<Longrightarrow> q < length (rw_queues w) \<Longrightarrow>
    queue_ok (q = this_queue w) (rw_dbs w) (rw_files w) (rw_queues w ! q)"
  by (simp add: replica_inv_def)

lemma held_at: "replica_inv w \<Longrightarrow> d < length (rw_dbs w) \<Longrightarrow> held (rw_queues w) d (rw_dbs w ! d)"
  by (simp add: replica_inv_def)

text \<open>A queue may let go of its replica once its \<open>close\<close> was called, and of a database it opens likewise.\<close>

definition lets_go :: "database list \<Rightarrow> replica_queue \<Rightarrow> replica_queue \<Rightarrow> bool" where
  "lets_go dbs r r' \<longleftrightarrow>
    (active_closed dbs r \<or> map_option (\<lambda>a. (ac_db a, ac_identity a)) (rq_active r') = map_option (\<lambda>a. (ac_db a, ac_identity a)) (rq_active r))
    \<and> (\<forall>d. Option.bind (rq_running r) opened_by = Some d \<longrightarrow>
         Option.bind (rq_running r') opened_by = Some d \<or> dv_closing (dbs ! d))"

lemma held_lets_go:
  assumes "held qs d (dbs ! d)" "q < length qs" "lets_go dbs (qs ! q) r"
  shows "held (qs[q := r]) d (dbs ! d)"
proof -
  have "\<exists>p<length (qs[q := r]). Option.bind (rq_running (qs[q := r] ! p)) opened_by = Some d"
    if "p < length qs" "Option.bind (rq_running (qs ! p)) opened_by = Some d" "\<not> dv_closing (dbs ! d)" for p
    using that assms(2,3) by (intro exI [of _ p]) (auto simp: nth_list_update lets_go_def)
  moreover have "\<exists>b. rq_active (last (qs[q := r])) = Some b \<and> ac_db b = d \<and> ac_identity b = ac_identity a"
    if "rq_active (last qs) = Some a" "ac_db a = d" "\<not> dv_closing (dbs ! d)" for a
  proof (cases "q = length qs - 1")
    case True
    then have "last qs = qs ! q" "last (qs[q := r]) = r"
      using assms(2) last_conv_nth [of qs] last_list_update [of qs q r] by (cases "qs = []"; simp)+
    then show ?thesis using that assms(3) by (auto simp: lets_go_def active_closed_def)
  next
    case False
    then have "last (qs[q := r]) = last qs"
      using assms(2) last_list_update [of qs q r] by (cases "qs = []") simp_all
    then show ?thesis using that by auto
  qed
  ultimately show ?thesis using assms(1) unfolding held_def by metis
qed

lemma inv_on_queue:
  assumes inv: "replica_inv w" and q: "q < length (rw_queues w)"
    and ok: "queue_ok (q = this_queue w) (rw_dbs w) (rw_files w) (f (rw_queues w ! q))"
    and go: "lets_go (rw_dbs w) (rw_queues w ! q) (f (rw_queues w ! q))"
  shows "replica_inv (on_queue q f w)"
proof (rule queue_stepped [OF inv q])
  show "\<forall>d<length (rw_dbs (on_queue q f w)). held ((rw_queues w)[q := f (rw_queues w ! q)]) d (rw_dbs (on_queue q f w) ! d)"
    using held_lets_go [OF held_at [OF inv] q go] by (simp add: on_queue_def)
qed (use file_ok_at [OF inv] ok in \<open>simp_all add: on_queue_def\<close>)

lemma this_queue_other [simp]:
  "this_queue (w\<lparr>rw_done := a\<rparr>) = this_queue w" "this_queue (w\<lparr>rw_streams := b\<rparr>) = this_queue w"
  "this_queue (w\<lparr>rw_maintaining := c\<rparr>) = this_queue w" "this_queue (w\<lparr>rw_uploading := c\<rparr>) = this_queue w"
  "this_queue (w\<lparr>rw_listed := e\<rparr>) = this_queue w" "this_queue (w\<lparr>rw_removed := e\<rparr>) = this_queue w"
  "this_queue (w\<lparr>rw_next := n\<rparr>) = this_queue w" "this_queue (w\<lparr>rw_calls := n\<rparr>) = this_queue w"
  "this_queue (w\<lparr>rw_generation := n\<rparr>) = this_queue w" "this_queue (w\<lparr>rw_dbs := ds\<rparr>) = this_queue w"
  by (simp_all add: this_queue_def)

lemma inv_other_fields [simp]:
  "replica_inv (w\<lparr>rw_done := a\<rparr>) = replica_inv w" "replica_inv (w\<lparr>rw_streams := b\<rparr>) = replica_inv w"
  "replica_inv (w\<lparr>rw_maintaining := c\<rparr>) = replica_inv w" "replica_inv (w\<lparr>rw_uploading := c\<rparr>) = replica_inv w"
  "replica_inv (w\<lparr>rw_listed := e\<rparr>) = replica_inv w" "replica_inv (w\<lparr>rw_removed := e\<rparr>) = replica_inv w"
  "replica_inv (w\<lparr>rw_next := n\<rparr>) = replica_inv w" "replica_inv (w\<lparr>rw_calls := n\<rparr>) = replica_inv w"
  "replica_inv (w\<lparr>rw_generation := n\<rparr>) = replica_inv w"
  by (simp_all add: replica_inv_def)

lemma held_weakened:
  "held qs d v \<Longrightarrow> dv_closing v \<longrightarrow> dv_closing v' \<Longrightarrow> dv_connected v' \<in> {dv_connected v, None} \<Longrightarrow> held qs d v'"
  unfolding held_def by auto

lemma inv_on_db:
  assumes inv: "replica_inv w"
    and f: "\<And>v. dv_file (f v) = dv_file v" "\<And>v. dv_closing v \<longrightarrow> dv_closing (f v)" "\<And>v. dv_connected (f v) \<in> {dv_connected v, None}"
  shows "replica_inv (on_db d f w)"
proof -
  have keeps: "keeps (rw_dbs w) (rw_files w) (rw_dbs (on_db d f w)) (rw_files w)"
    unfolding keeps_def
  proof (intro conjI allI impI)
    fix e assume "e < length (rw_dbs w)"
    then show "dv_file (rw_dbs (on_db d f w) ! e) = dv_file (rw_dbs w ! e)"
      "dv_closing (rw_dbs w ! e) \<Longrightarrow> dv_closing (rw_dbs (on_db d f w) ! e)"
      using f by (cases "e = d"; simp add: on_db_def)+
  qed (simp_all add: on_db_def)
  have "held (rw_queues w) e (rw_dbs (on_db d f w) ! e)" if "e < length (rw_dbs w)" for e
    using held_weakened [OF held_at [OF inv that] f(2) f(3)] held_at [OF inv that] that
    by (cases "e = d") (auto simp: on_db_def)
  then show ?thesis
    using inv queue_ok_keeps [OF keeps] by (auto simp: replica_inv_def this_queue_def on_db_def)
qed

lemma inv_on_file:
  assumes inv: "replica_inv w" and f: "file_ok (f (rw_files w n))"
    and claim: "\<forall>k. fi_claim (rw_files w n) = Some k \<longrightarrow> fi_claim (f (rw_files w n)) = Some k"
  shows "replica_inv (on_file n f w)"
proof -
  have "keeps (rw_dbs w) (rw_files w) (rw_dbs w) (rw_files (on_file n f w))"
    using claim by (auto simp: keeps_def on_file_def)
  then show ?thesis
    using inv f queue_ok_keeps by (auto simp: replica_inv_def this_queue_def on_file_def)
qed

lemma world_simps [simp]:
  "rw_queues (on_queue q f w) = (rw_queues w)[q := f (rw_queues w ! q)]" "rw_dbs (on_queue q f w) = rw_dbs w"
  "rw_files (on_queue q f w) = rw_files w" "rw_generation (on_queue q f w) = rw_generation w"
  "rw_queues (on_db d g w) = rw_queues w" "rw_dbs (on_db d g w) = (rw_dbs w)[d := g (rw_dbs w ! d)]"
  "rw_files (on_db d g w) = rw_files w"
  "rw_queues (on_file n h w) = rw_queues w" "rw_dbs (on_file n h w) = rw_dbs w"
  "rw_files (on_file n h w) = (rw_files w)(n := h (rw_files w n))"
  "rw_queues (unsubscribe subs w) = rw_queues w" "rw_dbs (unsubscribe subs w) = rw_dbs w" "rw_files (unsubscribe subs w) = rw_files w"
  "rw_queues (list_files pf names w) = rw_queues w" "rw_dbs (list_files pf names w) = rw_dbs w" "rw_files (list_files pf names w) = rw_files w"
  "this_queue (on_queue q f w) = this_queue w" "this_queue (on_db d g w) = this_queue w"
  "replica_inv (unsubscribe subs w) = replica_inv w" "replica_inv (list_files pf names w) = replica_inv w"
  by (simp_all add: on_queue_def on_db_def on_file_def unsubscribe_def list_files_def this_queue_def)

lemma inv_await:
  assumes "replica_inv w" "q < length (rw_queues w)" "wait_ok (rw_dbs w) (rw_queues w ! q) p"
    and "\<forall>d. Option.bind (rq_running (rw_queues w ! q)) opened_by = Some d \<longrightarrow> opened_by p = Some d \<or> dv_closing (rw_dbs w ! d)"
  shows "replica_inv (await_at q p w)"
  unfolding await_at_def using assms queue_ok_at [OF assms(1,2)]
  by (intro inv_on_queue) (auto simp: queue_ok_def lets_go_def wait_ok_def active_closed_def split: awaiting.splits)

lemma inv_settle:
  assumes "replica_inv w" "q < length (rw_queues w)"
    and "\<forall>d. Option.bind (rq_running (rw_queues w ! q)) opened_by = Some d \<longrightarrow> dv_closing (rw_dbs w ! d)"
  shows "replica_inv (settle_call q i outcome w)"
  unfolding settle_call_def using assms queue_ok_at [OF assms(1,2)]
  by (intro inv_on_queue) (auto simp: queue_ok_def lets_go_def)

text \<open>Changes of a queue that leave its replica, its action and its waiting calls alone.\<close>

lemma inv_aside:
  assumes "replica_inv w" "q < length (rw_queues w)"
    and "rq_abandoned (f (rw_queues w ! q)) = rq_abandoned (rw_queues w ! q)"
      "rq_waiting (f (rw_queues w ! q)) = rq_waiting (rw_queues w ! q)"
      "rq_running (f (rw_queues w ! q)) = rq_running (rw_queues w ! q)"
      "rq_active (f (rw_queues w ! q)) = rq_active (rw_queues w ! q)"
  shows "replica_inv (on_queue q f w)"
  using assms queue_ok_at [OF assms(1,2)]
  by (intro inv_on_queue)
    (auto simp: queue_ok_def lets_go_def wait_ok_def active_closed_def split: awaiting.splits)

lemma inv_stops:
  assumes "replica_inv w" "q < length (rw_queues w)"
  shows "replica_inv (stop_maintaining q w)" "replica_inv (uploads_stopped q w)" "replica_inv (drop_history q w)"
  using assms by (auto simp: stop_maintaining_def uploads_stopped_def drop_history_def intro!: inv_aside split: option.splits)

text \<open>Changes of the replica that a queue has, other than to its connector.\<close>

lemma inv_on_active:
  assumes "replica_inv w" "q < length (rw_queues w)"
    and "\<And>a. ac_db (f a) = ac_db a" "\<And>a. ac_identity (f a) = ac_identity a" "\<And>a. ac_file (f a) = ac_file a"
    and "\<And>a c. rq_active (rw_queues w ! q) = Some a \<Longrightarrow> ac_connector (f a) = Some c \<Longrightarrow> cn_account c = ac_identity a"
  shows "replica_inv (on_active q f w)"
  unfolding on_active_def using assms queue_ok_at [OF assms(1,2)]
  by (intro inv_on_queue)
    (auto simp: queue_ok_def lets_go_def wait_ok_def active_closed_def active_ok_def option.map_comp comp_def split: awaiting.splits)

lemma inv_close: "replica_inv w \<Longrightarrow> replica_inv (db_close d w)"
  unfolding db_close_def by (rule inv_on_db) auto

lemma inv_disconnect: "replica_inv w \<Longrightarrow> replica_inv (on_db d (\<lambda>v. v\<lparr>dv_connected := None\<rparr>) w)"
  by (rule inv_on_db) auto

lemma inv_no_active:
  assumes "replica_inv w" "q < length (rw_queues w)" "active_closed (rw_dbs w) (rw_queues w ! q)"
    and "\<And>c h. rq_running (rw_queues w ! q) \<noteq> Some (Act_Disconnect c) \<and> rq_running (rw_queues w ! q) \<noteq> Some (Act_Subscribe c h)"
  shows "replica_inv (on_queue q (\<lambda>r. r\<lparr>rq_active := None\<rparr>) w)"
  using assms queue_ok_at [OF assms(1,2)]
  by (intro inv_on_queue) (auto simp: queue_ok_def lets_go_def wait_ok_def active_closed_def split: awaiting.splits)

lemma queue_aside [simp]:
  "rw_dbs (stop_maintaining q w) = rw_dbs w" "rw_dbs (uploads_stopped q w) = rw_dbs w" "rw_dbs (drop_history q w) = rw_dbs w"
  "rw_dbs (on_active q f w) = rw_dbs w" "length (rw_queues (stop_maintaining q w)) = length (rw_queues w)"
  "length (rw_queues (uploads_stopped q w)) = length (rw_queues w)" "length (rw_queues (drop_history q w)) = length (rw_queues w)"
  "length (rw_queues (on_active q f w)) = length (rw_queues w)"
  by (auto simp: stop_maintaining_def uploads_stopped_def drop_history_def on_active_def split: option.splits)

lemma queue_aside_at [simp]:
  assumes "q < length (rw_queues w)"
  shows "rq_active (rw_queues (stop_maintaining q w) ! q) = rq_active (rw_queues w ! q)"
    "rq_active (rw_queues (uploads_stopped q w) ! q) = rq_active (rw_queues w ! q)"
    "rq_active (rw_queues (drop_history q w) ! q) = rq_active (rw_queues w ! q)"
    "rq_active (rw_queues (on_active q f w) ! q) = map_option f (rq_active (rw_queues w ! q))"
    "rq_running (rw_queues (stop_maintaining q w) ! q) = rq_running (rw_queues w ! q)"
    "rq_running (rw_queues (uploads_stopped q w) ! q) = rq_running (rw_queues w ! q)"
    "rq_running (rw_queues (drop_history q w) ! q) = rq_running (rw_queues w ! q)"
    "rq_running (rw_queues (on_active q f w) ! q) = rq_running (rw_queues w ! q)"
  using assms by (auto simp: stop_maintaining_def uploads_stopped_def drop_history_def on_active_def split: option.splits)

lemma opens_nothing [simp]:
  "opened_by (Act_Uploads c) = None" "opened_by (Act_Drop c d e) = None" "opened_by (Act_Disconnect c) = None"
  "opened_by (Act_Subscribe c h) = None" "opened_by (Pause_Uploads i) = None" "opened_by (Close_Uploads i) = None"
  "opened_by (Detach_Lock k) = None" "opened_by (Detach_Disconnect k) = None" "opened_by (Detach_Close k) = None"
  "opened_by (Disc_Uploads i ns) = None" "opened_by (Disc_Clear i ns) = None" "opened_by (Disc_Close i ns f) = None"
  "opened_by (Disc_Remove i ns f) = None" "opened_by (Act_Init c d) = Some d" "opened_by (Act_Claim c d) = Some d"
  by (simp_all add: opened_by_def)

lemma inv_detach:
  assumes "replica_inv w" "q < length (rw_queues w)" "detacher_ok k" "Option.bind (rq_running (rw_queues w ! q)) opened_by = None"
  shows "replica_inv (detach pf q a k w)"
  unfolding detach_def using assms queue_ok_at [OF assms(1,2)]
  by (intro inv_await inv_on_active) (auto simp: wait_ok_def queue_ok_def active_ok_def)

lemma inv_open:
  assumes inv: "replica_inv w" and q: "q < length (rw_queues w)" and c: "action_ok (Activate c)"
    and none: "rq_active (rw_queues w ! q) = None" "Option.bind (rq_running (rw_queues w ! q)) opened_by = None"
  shows "replica_inv (open_replica q c w)"
proof -
  let ?d = "length (rw_dbs w)" and ?v = "\<lparr>dv_file = filename (av_key c), dv_closing = False, dv_connected = None\<rparr>"
  let ?r = "(rw_queues w ! q)\<lparr>rq_running := Some (Act_Init c ?d)\<rparr>"
  have queues: "rw_queues (open_replica q c w) = (rw_queues w)[q := ?r]"
    and dbs: "rw_dbs (open_replica q c w) = rw_dbs w @ [?v]" and files: "rw_files (open_replica q c w) = rw_files w"
    by (simp_all add: open_replica_def await_at_def)
  have keeps: "keeps (rw_dbs w) (rw_files w) (rw_dbs w @ [?v]) (rw_files w)" by (auto simp: keeps_def nth_append)
  have go: "lets_go (rw_dbs w) (rw_queues w ! q) ?r" using none by (simp add: lets_go_def)
  have "held ((rw_queues w)[q := ?r]) d ((rw_dbs w @ [?v]) ! d)" if "d < Suc ?d" for d
  proof (cases "d = ?d")
    case True
    then show ?thesis using q by (auto simp: held_def intro!: exI [of _ q])
  next
    case False
    then show ?thesis using held_lets_go [OF held_at [OF inv] q go] that by (simp add: nth_append)
  qed
  moreover have "queue_ok (q = this_queue w) (rw_dbs w @ [?v]) (rw_files w) ?r"
    using queue_ok_keeps [OF keeps queue_ok_at [OF inv q]] c none by (auto simp: queue_ok_def wait_ok_def)
  ultimately show ?thesis
    using queue_stepped [OF inv q queues] file_ok_at [OF inv] keeps by (simp add: dbs files)
qed

lemma inv_reconnect_begin:
  assumes "replica_inv w" "q < length (rw_queues w)" "action_ok (Activate c)"
    and "map_option ac_identity (rq_active (rw_queues w ! q)) = Some (av_key c)"
    and "\<forall>d. Option.bind (rq_running (rw_queues w ! q)) opened_by = Some d \<longrightarrow> dv_closing (rw_dbs w ! d)"
  shows "replica_inv (reconnect_begin q c w)"
  unfolding reconnect_begin_def using assms by (auto intro!: inv_settle inv_await simp: wait_ok_def)

lemma inv_activate_stopped:
  assumes "replica_inv w" "q < length (rw_queues w)" "action_ok (Activate c)" "Option.bind (rq_running (rw_queues w ! q)) opened_by = None"
  shows "replica_inv (activate_stopped pf q c w)"
  using assms inv_stops [OF assms(1,2)]
  by (auto simp: activate_stopped_def Let_def detacher_ok_def
      intro!: inv_open inv_detach inv_reconnect_begin inv_stops split: option.splits)

lemma inv_drop:
  assumes "replica_inv w" "q < length (rw_queues w)" "d < length (rw_dbs w)"
    and "Option.bind (rq_running (rw_queues w ! q)) opened_by = Some d"
  shows "replica_inv (drop_replica q c d e w)"
  unfolding drop_replica_def using assms
  by (intro inv_await inv_close) (auto simp: db_close_def wait_ok_def)

lemma inv_activated:
  assumes inv: "replica_inv w" and q: "q < length (rw_queues w)" "\<not> rq_abandoned (rw_queues w ! q)"
    and run: "rq_running (rw_queues w ! q) = Some (Act_Claim c (ac_db a))"
    and a: "dv_file (rw_dbs w ! ac_db a) = ac_file a" "ac_connector a = None" "fi_claim (rw_files w (ac_file a)) = Some (ac_identity a)"
    and c: "ac_identity a = av_key c" and p: "p \<in> {None, Some (Act_Disconnect c)}"
  shows "replica_inv (on_queue q (\<lambda>r. r\<lparr>rq_active := Some a, rq_running := p\<rparr>) w)"
proof -
  let ?r = "(rw_queues w ! q)\<lparr>rq_active := Some a, rq_running := p\<rparr>" and ?qs = "rw_queues w"
  have page: "q = this_queue w" and ok: "queue_ok True (rw_dbs w) (rw_files w) (?qs ! q)" and claiming: "action_ok (Activate c)"
    and d: "ac_db a < length (rw_dbs w)" and none: "rq_active (?qs ! q) = None"
    using queue_ok_at [OF inv q(1)] q(2) run by (auto simp: queue_ok_def wait_ok_def)
  have last: "last ?qs = ?qs ! q" using page q(1) last_conv_nth [of ?qs] by (cases "?qs = []") (simp_all add: this_queue_def)
  have last': "last (?qs[q := ?r]) = ?r" using page q(1) last_list_update [of ?qs q ?r] by (cases "?qs = []") (simp_all add: this_queue_def)
  have "held (?qs[q := ?r]) e (rw_dbs w ! e)" if e: "e < length (rw_dbs w)" for e
  proof -
    have old: "held ?qs e (rw_dbs w ! e)" by (rule held_at [OF inv e])
    show ?thesis
    proof (cases "e = ac_db a \<or> dv_closing (rw_dbs w ! e)")
      case True
      then show ?thesis using old last' none by (auto simp: held_def last)
    next
      case False
      then obtain q' where q': "q' < length ?qs" "Option.bind (rq_running (?qs ! q')) opened_by = Some e"
        and conn: "dv_connected (rw_dbs w ! e) = None"
        using old none by (auto simp: held_def last)
      have "q' \<noteq> q" using q'(2) run False by auto
      then show ?thesis using q' conn by (auto simp: held_def intro!: exI [of _ q'])
    qed
  qed
  moreover have "queue_ok (q = this_queue w) (rw_dbs w) (rw_files w) ?r"
    using ok page a c d p claiming by (auto simp: queue_ok_def wait_ok_def active_ok_def)
  ultimately show ?thesis
    using queue_stepped [OF inv q(1), where r = ?r] file_ok_at [OF inv] by simp
qed

lemma on_queue_twice: "q < length (rw_queues w) \<Longrightarrow> on_queue q g (on_queue q f w) = on_queue q (\<lambda>r. g (f r)) w"
  by (simp add: on_queue_def)

lemma claim_file_ok:
  assumes "file_ok f" "claim_file k f = (owner, f')"
  shows "file_ok f'" "fi_claim f = Some j \<longrightarrow> fi_claim f' = Some j" "owner = Inr j \<longrightarrow> fi_claim f' = Some j"
  using assms by (auto simp: claim_file_def file_ok_def split: option.splits if_splits)

lemma inv_activate_claimed:
  assumes inv: "replica_inv w" and q: "q < length (rw_queues w)" and run: "rq_running (rw_queues w ! q) = Some (Act_Claim c d)"
  shows "replica_inv (activate_claimed pf q c d w)"
proof -
  let ?n = "dv_file (rw_dbs w ! d)"
  obtain owner f where f: "claim_file (av_key c) (rw_files w ?n) = (owner, f)" by (cases "claim_file (av_key c) (rw_files w ?n)")
  let ?w = "on_file ?n (\<lambda>_. f) w"
  let ?a = "\<lparr>ac_db = d, ac_identity = av_key c, ac_file = ?n, ac_shared = (pf_tabs pf \<and> pf_shared pf ?n), ac_connector = None, ac_listening = False\<rparr>"
  note ok = claim_file_ok [OF file_ok_at [OF inv] f]
  have d: "d < length (rw_dbs w)" using queue_ok_at [OF inv q] run by (auto simp: queue_ok_def wait_ok_def)
  have inv': "replica_inv ?w" by (rule inv_on_file [OF inv]) (use ok in auto)
  have drop: "replica_inv (drop_replica q c d e ?w)" for e
    by (rule inv_drop [OF inv']) (use q d run in auto)
  have "replica_inv (reconnect_begin q c (on_queue q (\<lambda>r. r\<lparr>rq_active := Some ?a\<rparr>) ?w))"
    if "owner = Inr (av_key c)" "\<not> rq_abandoned (rw_queues w ! q)"
  proof -
    have "replica_inv (on_queue q (\<lambda>r. r\<lparr>rq_active := Some ?a, rq_running := p\<rparr>) ?w)" if "p \<in> {None, Some (Act_Disconnect c)}" for p
      by (rule inv_activated [OF inv' _ _ _ _ _ _ _ that]) (use q run ok \<open>owner = _\<close> \<open>\<not> _\<close> in auto)
    moreover have "settle_call q i out (on_queue q (\<lambda>r. r\<lparr>rq_active := Some ?a\<rparr>) ?w)
        = (on_queue q (\<lambda>r. r\<lparr>rq_active := Some ?a, rq_running := None\<rparr>) ?w)\<lparr>rw_done := rw_done w @ [(i, out)]\<rparr>" for i out
      using q by (simp add: settle_call_def on_queue_def on_file_def)
    ultimately show ?thesis using q by (simp add: reconnect_begin_def await_at_def on_queue_twice)
  qed
  then show ?thesis using drop by (auto simp: activate_claimed_def Let_def f split: sum.splits)
qed

lemma inv_connect:
  assumes inv: "replica_inv w" and q: "q < length (rw_queues w)" "rq_active (rw_queues w ! q) = Some a" "cn_account c = ac_identity a"
  shows "replica_inv (on_db (ac_db a) (\<lambda>v. v\<lparr>dv_connected := Some c\<rparr>) w)"
proof -
  let ?f = "\<lambda>v. v\<lparr>dv_connected := Some c\<rparr>"
  have ok: "active_ok (q = this_queue w) (rw_dbs w) (rw_files w) a"
    using queue_ok_at [OF inv q(1)] q(2) by (simp add: queue_ok_def)
  have keeps: "keeps (rw_dbs w) (rw_files w) (rw_dbs (on_db (ac_db a) ?f w)) (rw_files w)"
    using ok by (auto simp: keeps_def active_ok_def nth_list_update)
  have "held (rw_queues w) d (rw_dbs (on_db (ac_db a) ?f w) ! d)" if d: "d < length (rw_dbs w)" for d
  proof (cases "d = ac_db a")
    case True
    have "last (rw_queues w) = rw_queues w ! q" if "q = this_queue w"
      using that q(1) last_conv_nth [of "rw_queues w"] by (cases "rw_queues w = []") (simp_all add: this_queue_def)
    then show ?thesis using True ok d q(2,3) by (auto simp: held_def active_ok_def)
  qed (use held_at [OF inv d] in simp)
  then show ?thesis using inv queue_ok_keeps [OF keeps] by (auto simp: replica_inv_def)
qed

lemma inv_activate_subscribed:
  assumes inv: "replica_inv w" and q: "q < length (rw_queues w)" and run: "rq_running (rw_queues w ! q) = Some (Act_Subscribe c h)"
  shows "replica_inv (activate_subscribed pf q c h w)"
proof (cases "rq_active (rw_queues w ! q)")
  case (Some a)
  have account: "cn_account (av_connector c) = ac_identity a"
    using queue_ok_at [OF inv q] run Some by (auto simp: queue_ok_def wait_ok_def action_ok_def)
  define w1 where "w1 = unsubscribe h (w\<lparr>rw_next := rw_next w + 3, rw_streams := rw_streams w @ [rw_next w, rw_next w + 1, rw_next w + 2]\<rparr>)"
  define w2 where "w2 = on_active q (\<lambda>a. a\<lparr>ac_connector := Some (av_connector c)\<rparr>) w1"
  define w3 where "w3 = listen pf q w2"
  have w1: "replica_inv w1" "rw_queues w1 = rw_queues w" "rw_dbs w1 = rw_dbs w" using inv by (simp_all add: w1_def)
  have w2: "replica_inv w2" "rw_dbs w2 = rw_dbs w" "length (rw_queues w2) = length (rw_queues w)"
    "rq_running (rw_queues w2 ! q) = rq_running (rw_queues w ! q)"
    "rq_active (rw_queues w2 ! q) = Some (a\<lparr>ac_connector := Some (av_connector c)\<rparr>)"
    unfolding w2_def using w1 q Some account by (auto intro!: inv_on_active)
  have "replica_inv w3" unfolding w3_def listen_def
    by (rule inv_on_active [OF w2(1)]) (use w2 q account in \<open>auto split: if_splits\<close>)
  moreover have w3: "rw_dbs w3 = rw_dbs w" "length (rw_queues w3) = length (rw_queues w)"
    "rq_running (rw_queues w3 ! q) = rq_running (rw_queues w ! q)"
    "\<exists>b. rq_active (rw_queues w3 ! q) = Some b \<and> ac_db b = ac_db a \<and> ac_identity b = ac_identity a"
    using w2 q by (auto simp: w3_def listen_def)
  ultimately have "replica_inv (on_db (ac_db a) (\<lambda>v. v\<lparr>dv_connected := Some (av_connector c)\<rparr>) w3)"
    using inv_connect [of w3 q] q account by metis
  then show ?thesis
    using w3 q run
    unfolding activate_subscribed_def Some option.case Let_def w1_def [symmetric] w2_def [symmetric] w3_def [symmetric]
    by (intro inv_settle inv_aside) auto
qed (use inv in \<open>simp add: activate_subscribed_def\<close>)

lemma inv_detached:
  assumes "replica_inv w" "q < length (rw_queues w)" "detacher_ok k" "active_closed (rw_dbs w) (rw_queues w ! q) \<or> (\<exists>i. k = Pausing i)"
    and "rq_running (rw_queues w ! q) \<in> {Some (Detach_Disconnect k), Some (Detach_Close k)}"
  shows "replica_inv (detached q k w)"
  using assms
  by (auto simp: detached_def detacher_ok_def intro!: inv_open inv_settle inv_no_active split: detacher.splits)

lemma inv_detach_disconnected:
  assumes inv: "replica_inv w" and q: "q < length (rw_queues w)" and run: "rq_running (rw_queues w ! q) = Some (Detach_Disconnect k)"
  shows "replica_inv (detach_disconnected q k w)"
proof (cases "rq_active (rw_queues w ! q)")
  case (Some a)
  let ?w = "on_db (ac_db a) (\<lambda>v. v\<lparr>dv_connected := None\<rparr>) w"
  have k: "detacher_ok k" and d: "ac_db a < length (rw_dbs w)"
    using queue_ok_at [OF inv q] run Some by (auto simp: queue_ok_def wait_ok_def active_ok_def)
  have w: "replica_inv ?w" by (rule inv_disconnect [OF inv])
  have "replica_inv (await_at q (Detach_Close k) (db_close (ac_db a) ?w))"
    by (intro inv_await inv_close w) (use q run k d Some in \<open>auto simp: wait_ok_def active_closed_def db_close_def\<close>)
  moreover have "replica_inv (detached q k ?w)" if "k = Pausing i" for i
    by (rule inv_detached [OF w]) (use q k run that in auto)
  ultimately show ?thesis using Some by (auto simp: detach_disconnected_def Let_def split: detacher.splits)
qed (use inv in \<open>simp add: detach_disconnected_def\<close>)

lemma inv_pause_close:
  assumes "replica_inv w" "q < length (rw_queues w)" "Option.bind (rq_running (rw_queues w ! q)) opened_by = None"
  shows "replica_inv (pause_stopped pf q i w)" "replica_inv (close_stopped pf q i w)"
  using assms
  by (auto simp: pause_stopped_def close_stopped_def Let_def detacher_ok_def
      intro!: inv_settle inv_detach inv_stops split: option.splits)

lemma inv_discard_remove:
  assumes "replica_inv w" "q < length (rw_queues w)" "Option.bind (rq_running (rw_queues w ! q)) opened_by = None"
  shows "replica_inv (discard_remove pf q i names failure w)"
  unfolding discard_remove_def using assms by (auto intro!: inv_settle inv_await simp: wait_ok_def)

lemma inv_discard_stopped:
  assumes "replica_inv w" "q < length (rw_queues w)" "Option.bind (rq_running (rw_queues w ! q)) opened_by = None"
  shows "replica_inv (discard_stopped pf q i names w)"
  using assms
  by (auto simp: discard_stopped_def Let_def wait_ok_def
      intro!: inv_discard_remove inv_await inv_stops split: option.splits)

text \<open>When no open replica is left, a file may lose everything it holds.\<close>

lemma inv_wipe:
  assumes inv: "replica_inv w"
    and closed: "\<And>q. q < length (rw_queues w) \<Longrightarrow> active_closed (rw_dbs w) (rw_queues w ! q)"
  shows "replica_inv (on_file n (\<lambda>_. blank_file) w)"
  unfolding replica_inv_def
proof (intro conjI allI impI)
  fix q assume q: "q < length (rw_queues (on_file n (\<lambda>_. blank_file) w))"
  then have "queue_ok (q = this_queue w) (rw_dbs w) (rw_files w) (rw_queues w ! q)" "active_closed (rw_dbs w) (rw_queues w ! q)"
    using queue_ok_at [OF inv] closed by simp_all
  then show "queue_ok (q = this_queue (on_file n (\<lambda>_. blank_file) w)) (rw_dbs (on_file n (\<lambda>_. blank_file) w))
      (rw_files (on_file n (\<lambda>_. blank_file) w)) (rw_queues (on_file n (\<lambda>_. blank_file) w) ! q)"
    by (auto simp: queue_ok_def active_ok_def active_closed_def this_queue_def on_file_def)
qed (use inv in \<open>auto simp: replica_inv_def file_ok_def blank_file_def\<close>)

lemma inv_discard_cleared:
  assumes inv: "replica_inv w" and q: "q < length (rw_queues w)" and run: "rq_running (rw_queues w ! q) = Some (Disc_Clear i names)"
  shows "replica_inv (discard_cleared ok q i names w)"
proof (cases "rq_active (rw_queues w ! q)")
  case (Some a)
  let ?d = "ac_db a" and ?n = "dv_file (rw_dbs w ! ac_db a)"
  let ?off = "on_db ?d (\<lambda>v. v\<lparr>dv_connected := None\<rparr>) w"
  have d: "?d < length (rw_dbs w)" using queue_ok_at [OF inv q] Some by (auto simp: queue_ok_def active_ok_def)
  have wait: "replica_inv (await_at q (Disc_Close i names e) (db_close ?d w'))"
    if "replica_inv (db_close ?d w')" "rw_queues w' = rw_queues w" "length (rw_dbs w') = length (rw_dbs w)" for e w'
    by (rule inv_await [OF that(1)]) (use q run Some d that in \<open>auto simp: db_close_def wait_ok_def active_closed_def\<close>)
  have "replica_inv (on_file ?n (\<lambda>_. blank_file) (db_close ?d ?off))" if open_: "\<not> dv_closing (rw_dbs w ! ?d)"
  proof (rule inv_wipe)
    fix q' assume q': "q' < length (rw_queues (db_close ?d ?off))"
    then have "queue_ok (q' = this_queue w) (rw_dbs w) (rw_files w) (rw_queues w ! q')" "q = this_queue w"
      using queue_ok_at [OF inv] queue_ok_at [OF inv q] Some open_ by (auto simp: db_close_def queue_ok_def active_ok_def)
    then show "active_closed (rw_dbs (db_close ?d ?off)) (rw_queues (db_close ?d ?off) ! q')"
      using Some d
      by (cases "q' = q") (auto simp: active_closed_def db_close_def queue_ok_def active_ok_def nth_list_update)
  qed (intro inv_close inv_disconnect inv)
  moreover have "on_file ?n (\<lambda>_. blank_file) (db_close ?d ?off) = db_close ?d (on_file ?n (\<lambda>_. blank_file) ?off)"
    by (simp add: on_file_def db_close_def on_db_def)
  ultimately show ?thesis
    using Some wait inv_close [OF inv] by (auto simp: discard_cleared_def Let_def)
qed (use inv in \<open>simp add: discard_cleared_def\<close>)

lemma inv_resume:
  assumes inv: "replica_inv w" and q: "q < length (rw_queues w)" and run: "rq_running (rw_queues w ! q) = Some p"
  shows "replica_inv (resume_action pf ok made q p w)"
proof -
  have p: "wait_ok (rw_dbs w) (rw_queues w ! q) p" using queue_ok_at [OF inv q] run by (simp add: queue_ok_def)
  show ?thesis
  proof (cases p)
    case (Act_Uploads c)
    then show ?thesis using inv q run p inv_activate_stopped [OF inv q]
      by (auto simp: resume_action_def wait_ok_def intro!: inv_settle)
  next
    case (Act_Init c d)
    then show ?thesis using inv q run p inv_drop [OF inv q]
      by (auto simp: resume_action_def activate_opened_def wait_ok_def intro!: inv_await)
  next
    case (Act_Claim c d)
    then show ?thesis using inv q run p inv_drop [OF inv q] inv_activate_claimed [OF inv q]
      by (auto simp: resume_action_def wait_ok_def)
  next
    case (Act_Disconnect c)
    then show ?thesis using inv q run p
      by (auto simp: resume_action_def activate_disconnected_def wait_ok_def
          intro!: inv_settle inv_await inv_disconnect split: option.splits)
  next
    case (Act_Subscribe c h)
    then show ?thesis using inv q run inv_activate_subscribed [OF inv q]
      by (auto simp: resume_action_def subscribe_failed_def intro!: inv_settle)
  next
    case (Detach_Close k)
    then show ?thesis using inv q run p inv_detached [OF inv q]
      by (auto simp: resume_action_def wait_ok_def intro!: inv_settle)
  next
    case (Disc_Close i names e)
    then show ?thesis using inv q run p
      by (auto simp: resume_action_def discard_closed_def wait_ok_def intro!: inv_discard_remove inv_no_active)
  next
    case (Disc_Remove i names e)
    then show ?thesis using inv q run
      by (auto simp: resume_action_def discard_removed_def intro!: inv_discard_remove inv_settle)
  qed (use inv q run p inv_pause_close [OF inv q] inv_detach_disconnected [OF inv q] inv_discard_stopped [OF inv q]
      inv_discard_cleared [OF inv q] in
      \<open>auto simp: resume_action_def wait_ok_def intro!: inv_settle inv_await\<close>)
qed

lemma this_queue_less: "replica_inv w \<Longrightarrow> this_queue w < length (rw_queues w)"
  by (cases "rw_queues w") (simp_all add: replica_inv_def this_queue_def)

lemma inv_next_action:
  assumes inv: "replica_inv w" and q: "q < length (rw_queues w)" and run: "rq_running (rw_queues w ! q) = None"
  shows "replica_inv (next_action q w)"
proof (cases "rq_waiting (rw_queues w ! q)")
  case (Cons t ts)
  let ?w = "on_queue q (\<lambda>r. r\<lparr>rq_waiting := ts\<rparr>) w"
  have "replica_inv ?w" and "action_ok t"
    using queue_ok_at [OF inv q] Cons run by (auto simp: queue_ok_def lets_go_def intro!: inv_on_queue [OF inv q])
  then have "replica_inv (action_begin q t ?w)"
    using q run by (auto simp: action_begin_def wait_ok_def intro!: inv_settle inv_await inv_stops split: action.splits)
  then show ?thesis using Cons by (simp add: next_action_def)
qed (use inv in \<open>simp add: next_action_def\<close>)

lemma inv_serialize:
  assumes inv: "replica_inv w" and t: "action_ok t"
  shows "replica_inv (serialize t w)"
proof -
  let ?w = "w\<lparr>rw_generation := rw_generation w + 1, rw_calls := rw_calls w + 1\<rparr>"
  have w: "replica_inv ?w" using inv by simp
  have "this_queue w < length (rw_queues ?w)" using this_queue_less [OF inv] by simp
  then have "replica_inv (on_queue (this_queue w) (\<lambda>r. r\<lparr>rq_waiting := rq_waiting r @ [t]\<rparr>) ?w)"
    using t queue_ok_at [OF w, of "this_queue w"] by (intro inv_on_queue [OF w]) (auto simp: queue_ok_def lets_go_def wait_ok_queue)
  then show ?thesis by (simp add: serialize_def)
qed

lemma db_close_at:
  "dv_file (rw_dbs (db_close d w) ! e) = dv_file (rw_dbs w ! e)"
  "dv_connected (rw_dbs (db_close d w) ! e) = dv_connected (rw_dbs w ! e)"
  "dv_closing (rw_dbs (db_close d w) ! e) \<longleftrightarrow> dv_closing (rw_dbs w ! e) \<or> e = d \<and> d < length (rw_dbs w)"
  "length (rw_dbs (db_close d w)) = length (rw_dbs w)"
proof -
  have "rw_dbs (db_close d w) ! e
      = (if e = d \<and> d < length (rw_dbs w) then (rw_dbs w ! e)\<lparr>dv_closing := True\<rparr> else rw_dbs w ! e)"
    by (cases "e = d"; cases "d < length (rw_dbs w)") (simp_all add: db_close_def list_update_beyond)
  then show "dv_file (rw_dbs (db_close d w) ! e) = dv_file (rw_dbs w ! e)"
    "dv_connected (rw_dbs (db_close d w) ! e) = dv_connected (rw_dbs w ! e)"
    "dv_closing (rw_dbs (db_close d w) ! e) \<longleftrightarrow> dv_closing (rw_dbs w ! e) \<or> e = d \<and> d < length (rw_dbs w)"
    by auto
qed (simp add: db_close_def)

lemma inv_abandon:
  assumes inv: "replica_inv w"
  shows "replica_inv (abandon w)"
proof -
  let ?q = "this_queue w" and ?qs = "rw_queues w"
  let ?dbs = "rw_dbs (abandon w)" and ?qs' = "?qs[?q := (?qs ! ?q)\<lparr>rq_abandoned := True\<rparr>] @ [empty_queue]"
  have q: "?q < length ?qs" by (rule this_queue_less [OF inv])
  have dbs: "?dbs = (case rq_active (?qs ! ?q) of None \<Rightarrow> rw_dbs w | Some a \<Rightarrow> rw_dbs (db_close (ac_db a) w))"
    and queues: "rw_queues (abandon w) = ?qs'" and files: "rw_files (abandon w) = rw_files w"
    by (simp_all add: abandon_def Let_def db_close_def on_db_def on_queue_def unsubscribe_def this_queue_def split: option.splits)
  have keeps: "keeps (rw_dbs w) (rw_files w) ?dbs (rw_files w)"
    by (auto simp: keeps_def dbs db_close_at split: option.splits)
  have shut: "active_closed ?dbs (?qs ! ?q)"
    using queue_ok_at [OF inv q] by (auto simp: active_closed_def dbs db_close_at queue_ok_def active_ok_def)
  have "queue_ok (p = length ?qs) ?dbs (rw_files w) (?qs' ! p)" if p: "p < Suc (length ?qs)" for p
  proof (cases "p < length ?qs")
    case True
    then have "queue_ok (p = ?q) ?dbs (rw_files w) (?qs ! p)" by (rule queue_ok_keeps [OF keeps queue_ok_at [OF inv]])
    then show ?thesis
      using True shut by (cases "p = ?q") (auto simp: nth_append queue_ok_def active_closed_def active_ok_def wait_ok_queue)
  qed (use p in \<open>simp add: less_Suc_eq nth_append queue_ok_def empty_queue_def\<close>)
  moreover have "held ?qs' d (?dbs ! d)" if d: "d < length (rw_dbs w)" for d
  proof -
    have "last ?qs = ?qs ! ?q" using q last_conv_nth [of ?qs] by (cases "?qs = []") (simp_all add: this_queue_def)
    moreover have "dv_connected (?dbs ! d) = dv_connected (rw_dbs w ! d)" "dv_closing (rw_dbs w ! d) \<longrightarrow> dv_closing (?dbs ! d)"
      by (simp_all add: dbs db_close_at split: option.splits)
    moreover have "\<exists>p<length ?qs'. Option.bind (rq_running (?qs' ! p)) opened_by = Some d"
      if "p < length ?qs" "Option.bind (rq_running (?qs ! p)) opened_by = Some d" for p
      using that q by (intro exI [of _ p]) (auto simp: nth_append nth_list_update)
    ultimately show ?thesis using held_at [OF inv d] shut unfolding held_def active_closed_def by metis
  qed
  ultimately show ?thesis
    using file_ok_at [OF inv] keeps by (auto simp: replica_inv_def queues files this_queue_def dbs db_close_at split: option.splits)
qed

lemma inv_take_over: "replica_inv w \<Longrightarrow> q < length (rw_queues w) \<Longrightarrow> replica_inv (take_over q w)"
  using queue_ok_at [of w q]
  by (auto simp: take_over_def queue_ok_def active_ok_def intro!: inv_connect split: option.splits)

lemma last_queue: "replica_inv w \<Longrightarrow> last (rw_queues w) = rw_queues w ! this_queue w"
  by (simp add: replica_inv_def this_queue_def last_conv_nth)

lemma open_active:
  assumes "replica_inv w" "q < length (rw_queues w)" "rq_active (rw_queues w ! q) = Some a" "\<not> dv_closing (rw_dbs w ! ac_db a)"
  shows "q = this_queue w" "ac_db a < length (rw_dbs w)" "dv_file (rw_dbs w ! ac_db a) = ac_file a"
    "fi_claim (rw_files w (ac_file a)) = Some (ac_identity a)"
  using queue_ok_at [OF assms(1,2)] assms(3,4) by (auto simp: queue_ok_def active_ok_def)

lemma connected_active:
  assumes inv: "replica_inv w" and d: "d < length (rw_dbs w)" "\<not> dv_closing (rw_dbs w ! d)" "dv_connected (rw_dbs w ! d) = Some c"
  shows "\<exists>a. rq_active (rw_queues w ! this_queue w) = Some a \<and> ac_db a = d \<and> cn_account c = ac_identity a
    \<and> fi_claim (rw_files w (dv_file (rw_dbs w ! d))) = Some (cn_account c)"
proof -
  obtain a where a: "rq_active (rw_queues w ! this_queue w) = Some a" "ac_db a = d" "cn_account c = ac_identity a"
    using held_at [OF inv d(1)] d(2,3) by (auto simp: held_def last_queue [OF inv])
  then show ?thesis using open_active [OF inv this_queue_less [OF inv] a(1)] d(2) by auto
qed

lemma inv_replica_step:
  assumes inv: "replica_inv w" and step: "replica_step pf w w'"
  shows "replica_inv w'"
  using step
proof cases
  case (call_activate c i)
  then show ?thesis using inv by (auto simp: activate_def action_ok_def intro!: inv_serialize)
next
  case (rows_arrive d c)
  then show ?thesis
    using inv connected_active [OF inv, of d c] file_ok_at [OF inv, of "dv_file (rw_dbs w ! d)"]
    by (auto simp: file_ok_def intro!: inv_on_file)
next
  case (hours_proposed q a)
  then show ?thesis
    using inv open_active [OF inv, of q a] file_ok_at [OF inv, of "ac_file a"]
    by (auto simp: file_ok_def intro!: inv_on_file)
next
  case (tab_claims n k)
  then show ?thesis
    using inv claim_file_ok [OF file_ok_at [OF inv], where owner = "fst (claim_file k (rw_files w n))"]
    by (auto intro!: inv_on_file)
next
  case (tab_writes n k)
  then show ?thesis using inv file_ok_at [OF inv, of n] by (auto simp: file_ok_def intro!: inv_on_file)
next
  case (rows_left n f)
  then show ?thesis using inv by (auto simp: file_ok_def intro!: inv_on_file)
qed (use inv in \<open>auto simp: pause_def close_replica_def discard_def action_ok_def
    intro!: inv_serialize inv_abandon inv_next_action inv_resume inv_take_over\<close>)

lemma inv_page_opened: "page_opened w \<Longrightarrow> replica_inv w"
  by (auto simp: page_opened_def replica_inv_def file_ok_def this_queue_def queue_ok_def empty_queue_def)

interpretation replica: inductive_invariant page_opened "replica_step pf" replica_inv for pf
  by unfold_locales (auto intro: inv_page_opened inv_replica_step)

section \<open>Whose data the page has open\<close>

lemma identity_key_text: "parse_json other (identity_key i) = Some (J_Arr [J_Str (bare_scope (id_scope i)), J_Str (id_user i)])"
  using parse_json_strings [of other "\<lambda>_. []" "[bare_scope (id_scope i), id_user i]"] by (simp add: identity_key_def)

lemma replica_owner_key: "replica_owner other (identity_key i) = Inr (Some (id_user i))"
  by (simp add: replica_owner_def identity_key_text)

text \<open>Two accounts share a claim only if they are the same user of the same deployment.\<close>

lemma identity_key_inject:
  "identity_key i = identity_key j \<longleftrightarrow> id_user i = id_user j \<and> bare_scope (id_scope i) = bare_scope (id_scope j)"
proof
  assume "identity_key i = identity_key j"
  then have "J_Arr [J_Str (bare_scope (id_scope i)), J_Str (id_user i)] = J_Arr [J_Str (bare_scope (id_scope j)), J_Str (id_user j)]"
    using identity_key_text [of "\<lambda>_. None" i] identity_key_text [of "\<lambda>_. None" j] by (metis option.inject)
  then show "id_user i = id_user j \<and> bare_scope (id_scope i) = bare_scope (id_scope j)" by simp
qed (simp add: identity_key_def)


text \<open>
  A database on which \<open>close\<close> was never called is the replica of the page's own queue, or it was not told to connect
  and an action that is still running is opening it. What a database on which \<open>close\<close> was called still does is the
  subject of the gaps below.
\<close>

lemma open_replicas_accounted:
  assumes "reach page_opened (replica_step pf) w" "d < length (rw_dbs w)" "\<not> dv_closing (rw_dbs w ! d)"
  shows "map_option ac_db (rq_active (rw_queues w ! this_queue w)) = Some d
    \<or> dv_connected (rw_dbs w ! d) = None
      \<and> (\<exists>q<length (rw_queues w). Option.bind (rq_running (rw_queues w ! q)) opened_by = Some d)"
proof -
  have inv: "replica_inv w" by (rule replica.reach_inv [OF assms(1)])
  show ?thesis using held_at [OF inv assms(2)] assms(3) by (auto simp: held_def last_queue [OF inv])
qed

section \<open>Gaps\<close>

text \<open>
  After the history streams are subscribed, \<open>activate\<close> looks neither at the generation nor at \<open>abandoned\<close>: abandoned
  during that wait, it starts uploads on the database that \<open>abandon\<close> closed, and answers its caller with it.
\<close>

lemma abandoned_activation_uploads:
  assumes "q = this_queue w" "q < length (rw_queues w)" "rq_running (rw_queues w ! q) = Some (Act_Subscribe c h)"
    and a: "rq_active (rw_queues w ! q) = Some a" "ac_db a < length (rw_dbs w)" and "cn_uploads (av_connector c)"
  shows "dv_closing (rw_dbs (resume_action pf True m q (Act_Subscribe c h) (abandon w)) ! ac_db a)
    \<and> ac_db a \<in> set (rw_uploading (resume_action pf True m q (Act_Subscribe c h) (abandon w)))
    \<and> rw_done (resume_action pf True m q (Act_Subscribe c h) (abandon w)) = rw_done w @ [(av_call c, Inr (Some (ac_db a)))]"
proof -
  have "rq_active (rw_queues (abandon w) ! q) = Some a" "rw_dbs (abandon w) ! ac_db a = (rw_dbs w ! ac_db a)\<lparr>dv_closing := True\<rparr>"
    "length (rw_dbs (abandon w)) = length (rw_dbs w)" "rw_done (abandon w) = rw_done w"
    using assms by (simp_all add: abandon_def Let_def db_close_def on_db_def on_queue_def unsubscribe_def this_queue_def nth_append)
  then show ?thesis
    using assms by (simp add: resume_action_def activate_subscribed_def Let_def settle_call_def on_queue_def on_db_def
        listen_def on_active_def unsubscribe_def)
qed

text \<open>
  \<open>discard\<close> stops listening without forgetting that it listened, unlike \<open>detach\<close>: a take-over that waited for the
  hand-off lock connects the replica again while it is being cleared.
\<close>

lemma discarding_replica_connects:
  assumes "q < length (rw_queues w)" "rq_active (rw_queues w ! q) = Some a" "ac_db a < length (rw_dbs w)"
    and "ac_listening a" "ac_connector a = Some c"
  shows "rq_running (rw_queues (take_over q (discard_stopped pf q i names w)) ! q)
      = Some (Disc_Clear i (names @ (if ac_file a \<in> set names then [] else [ac_file a])))
    \<and> dv_connected (rw_dbs (take_over q (discard_stopped pf q i names w)) ! ac_db a) = Some c"
  using assms
  by (simp add: take_over_def discard_stopped_def Let_def await_at_def list_files_def drop_history_def uploads_stopped_def
      unsubscribe_def on_queue_def on_db_def split: option.splits)

section \<open>A sign-in\<close>

definition demo_identity :: identity where
  "demo_identity = \<lparr>id_user = ''u1'', id_scope = ''https://app.test/''\<rparr>"

definition demo_connector :: connector where
  "demo_connector = \<lparr>cn_id = 0, cn_account = identity_key demo_identity, cn_uploads = True\<rparr>"

definition demo_platform :: platform where
  "demo_platform = \<lparr>pf_files = True, pf_tabs = True, pf_shared = (\<lambda>_. True)\<rparr>"

definition demo_closed :: replica_world where
  "demo_closed = \<lparr>rw_queues = [empty_queue], rw_generation = 0, rw_dbs = [], rw_files = (\<lambda>_. blank_file), rw_uploading = [],
     rw_maintaining = [], rw_streams = [], rw_next = 0, rw_calls = 0, rw_listed = [], rw_removed = [], rw_done = []\<rparr>"

definition demo_run :: "replica_world \<Rightarrow> replica_world" where
  "demo_run w = (case rq_running (rw_queues w ! 0) of None \<Rightarrow> w | Some p \<Rightarrow> resume_action demo_platform True 0 0 p w)"

definition demo_called :: replica_world where
  "demo_called = next_action 0 (activate demo_identity demo_connector demo_closed)"

definition demo_open :: replica_world where
  "demo_open = demo_run (demo_run (demo_run (demo_run (demo_run demo_called))))"

lemmas demo_simps = demo_run_def resume_action_def on_queue_def on_db_def on_file_def await_at_def settle_call_def

lemma demo_opened: "\<exists>a. rw_queues demo_open = [empty_queue\<lparr>rq_uploads := Some 0, rq_history := [0, 1, 2], rq_maintained := Some 0, rq_active := Some a\<rparr>]
    \<and> ac_db a = 0 \<and> ac_identity a = identity_key demo_identity \<and> ac_file a = filename (identity_key demo_identity)
    \<and> rw_dbs demo_open = [\<lparr>dv_file = filename (identity_key demo_identity), dv_closing = False, dv_connected = Some demo_connector\<rparr>]"
proof -
  let ?k = "identity_key demo_identity"
  let ?c = "\<lparr>av_call = 0, av_generation = 1, av_key = ?k, av_connector = demo_connector\<rparr>"
  have 1: "demo_called = demo_closed\<lparr>rw_queues := [empty_queue\<lparr>rq_running := Some (Act_Uploads ?c)\<rparr>], rw_generation := 1, rw_calls := 1\<rparr>"
    by (simp add: demo_called_def activate_def serialize_def this_queue_def next_action_def action_begin_def stop_maintaining_def
        demo_simps demo_closed_def empty_queue_def)
  let ?v = "\<lparr>dv_file = filename ?k, dv_closing = False, dv_connected = None\<rparr>"
  have 2: "demo_run demo_called = demo_called\<lparr>rw_queues := [empty_queue\<lparr>rq_running := Some (Act_Init ?c 0)\<rparr>], rw_dbs := [?v]\<rparr>"
    by (simp add: 1 demo_simps activate_stopped_def uploads_stopped_def open_replica_def demo_closed_def empty_queue_def)
  have 3: "demo_run (demo_run demo_called) = demo_called\<lparr>rw_queues := [empty_queue\<lparr>rq_running := Some (Act_Claim ?c 0)\<rparr>], rw_dbs := [?v]\<rparr>"
    unfolding 2 by (simp add: 1 demo_simps activate_opened_def demo_closed_def empty_queue_def)
  let ?a = "\<lparr>ac_db = 0, ac_identity = ?k, ac_file = filename ?k, ac_shared = True, ac_connector = None, ac_listening = False\<rparr>"
  let ?w = "\<lambda>p. demo_called\<lparr>rw_queues := [empty_queue\<lparr>rq_running := Some p, rq_active := Some ?a\<rparr>], rw_dbs := [?v],
    rw_files := (rw_files demo_closed)(filename ?k := blank_file\<lparr>fi_claim := Some ?k\<rparr>)\<rparr>"
  have 4: "demo_run (demo_run (demo_run demo_called)) = ?w (Act_Disconnect ?c)"
    unfolding 3 by (simp add: 1 demo_simps activate_claimed_def Let_def claim_file_def blank_file_def reconnect_begin_def demo_platform_def demo_closed_def empty_queue_def)
  have 5: "demo_run (demo_run (demo_run (demo_run demo_called))) = ?w (Act_Subscribe ?c [])"
    unfolding 4 by (simp add: 1 demo_simps activate_disconnected_def demo_closed_def empty_queue_def)
  show ?thesis
    unfolding demo_open_def 5 by (simp add: 1 demo_simps activate_subscribed_def Let_def listen_def on_active_def unsubscribe_def
        demo_platform_def demo_connector_def demo_closed_def empty_queue_def)
qed

lemma demo_run_reach:
  assumes "reach page_opened (replica_step demo_platform) w"
  shows "reach page_opened (replica_step demo_platform) (demo_run w)"
proof (cases "rq_running (rw_queues w ! 0)")
  case (Some p)
  have "0 < length (rw_queues w)" using replica.reach_inv [OF assms] by (auto simp: replica_inv_def)
  then show ?thesis using reach_step [OF assms action_resumes [of 0 w p demo_platform True 0]] Some by (simp add: demo_run_def)
qed (use assms in \<open>simp add: demo_run_def\<close>)

lemma demo_open_reach: "reach page_opened (replica_step demo_platform) demo_open"
proof -
  let ?r = "reach page_opened (replica_step demo_platform)"
  have "?r demo_closed" by (rule reach_init) (simp add: page_opened_def file_ok_def demo_closed_def blank_file_def)
  then have "?r (activate demo_identity demo_connector demo_closed)"
    by (rule reach_step) (simp add: call_activate demo_connector_def)
  then have "?r demo_called" unfolding demo_called_def
    by (rule reach_step, intro action_starts)
      (simp_all add: activate_def serialize_def this_queue_def demo_closed_def on_queue_def empty_queue_def)
  then show ?thesis unfolding demo_open_def by (intro demo_run_reach)
qed

definition demo_page :: replica_world where
  "demo_page = on_file (filename (identity_key demo_identity)) (\<lambda>f. f\<lparr>fi_rows := identity_key demo_identity # fi_rows f\<rparr>) demo_open"

lemma demo_signed_in_reach: "reach page_opened (replica_step demo_platform) demo_page"
  using demo_opened rows_arrive [of 0 demo_open demo_connector demo_platform]
  by (intro reach_step [OF demo_open_reach]) (auto simp: demo_page_def demo_connector_def)


end
