(* ===== verification/History.thy ===== *)
theory History
  imports Timestamps Attempts
begin

text \<open>
  The history a device keeps (\<open>packages/sync/src/history.ts\<close>, \<open>useHistoryRange\<close> in
  \<open>app-core/src/domain/sync.ts\<close>): the months around now that are synced, the upkeep of their streams, and the months
  a page asks for. Streams are numbers; a wait on the database ends well or not as the relation chooses.
\<close>

section \<open>Months\<close>

text \<open>\<open>toISOString().slice(0, 7)\<close>.\<close>

definition month_text :: "int \<Rightarrow> string" where
  "month_text t = take 7 (to_iso t)"

definition months_back :: int where "months_back = 12"
definition months_ahead :: int where "months_ahead = 24"

text \<open>\<open>Date.UTC(now.getUTCFullYear(), now.getUTCMonth() + n, 1)\<close>.\<close>

definition month_first :: "int \<Rightarrow> int \<Rightarrow> int" where
  "month_first now n = (case civil (day_of now) of (y, m, _) \<Rightarrow> date_utc y (m + n) 1 0 0)"

definition history_months :: "int \<Rightarrow> string list" where
  "history_months now = map (\<lambda>n. month_text (month_first now n)) [- months_back..months_ahead]"

definition history_start :: "int \<Rightarrow> int" where
  "history_start now = month_first now (- months_back)"

text \<open>\<open>cursor.setUTCMonth(cursor.getUTCMonth() + 1)\<close>.\<close>

definition next_month :: "int \<Rightarrow> int" where
  "next_month t = (case civil (day_of t) of (y, m, d) \<Rightarrow> make_day y (m + 1) d * ms_per_day + t mod ms_per_day)"

section \<open>The order of the months\<close>

text \<open>The months are numbered from the year 0; \<open>month_begin k\<close> is the first instant of the month \<open>k\<close>.\<close>

definition month_index :: "int \<Rightarrow> int" where
  "month_index t = (case civil (day_of t) of (y, m, _) \<Rightarrow> 12 * y + (m - 1))"

definition month_begin :: "int \<Rightarrow> int" where
  "month_begin k = make_day (k div 12) (k mod 12 + 1) 1 * ms_per_day"

lemma make_day_months: "make_day y m d = make_day ((12 * y + (m - 1)) div 12) ((12 * y + (m - 1)) mod 12 + 1) d"
proof -
  have "(12 * y + (m - 1)) div 12 = y + (m - 1) div 12" "(12 * y + (m - 1)) mod 12 = (m - 1) mod 12" by simp_all
  then show ?thesis by (simp add: make_day_def)
qed

lemma make_day_next_month:
  assumes "1 \<le> m" "m \<le> 12"
  shows "make_day y (m + 1) d = make_day y m d + month_length y m"
proof (cases "m = 12")
  case True
  then show ?thesis
    using year_start_Suc [of y] by (simp add: make_day_def Let_def month_length_def month_start_def month_starts_def year_length_def)
next
  case False
  then have "make_day y (m + 1) d = year_start y + month_start (leap y) (m + 1) + (d - 1) - epoch_day"
    using assms by (intro make_day_in_year) auto
  then show ?thesis using make_day_in_year [OF assms, of y d] by (simp add: month_length_def)
qed

lemma month_begin_Suc: "month_begin k < month_begin (k + 1)"
proof -
  have m: "1 \<le> k mod 12 + 1" "k mod 12 + 1 \<le> 12" by simp_all
  have "make_day ((k + 1) div 12) ((k + 1) mod 12 + 1) 1 = make_day (k div 12) (k mod 12 + 1 + 1) 1"
    using make_day_months [of "k div 12" "k mod 12 + 1 + 1" 1] by (simp add: add.assoc)
  also have "\<dots> = make_day (k div 12) (k mod 12 + 1) 1 + month_length (k div 12) (k mod 12 + 1)"
    by (rule make_day_next_month [OF m])
  finally show ?thesis using month_length_bounds [OF m, of "k div 12"] by (simp add: month_begin_def ms_per_day_def)
qed

lemma month_begin_mono: "j \<le> k \<Longrightarrow> month_begin j \<le> month_begin k"
proof (induction k rule: int_ge_induct)
  case (step i)
  then show ?case using month_begin_Suc [of i] by linarith
qed simp

lemma month_bracket: "month_begin (month_index t) \<le> t \<and> t < month_begin (month_index t + 1)"
proof -
  obtain y m d where c: "civil (day_of t) = (y, m, d)" by (cases "civil (day_of t)")
  have m: "1 \<le> m" "m \<le> 12" and d: "1 \<le> d" "d \<le> month_length y m"
    using civil_correct(1) [OF c] by (simp_all add: valid_date_def)
  let ?k = "12 * y + (m - 1)"
  have first: "month_begin ?k = make_day y m 1 * ms_per_day"
    using make_day_months [of y m 1] by (simp add: month_begin_def)
  have after: "month_begin (?k + 1) = make_day y (m + 1) 1 * ms_per_day"
    using make_day_months [of y "m + 1" 1] by (simp add: month_begin_def)
  have "make_day y m d = day_of t" by (rule civil_correct(2) [OF c])
  then have day: "make_day y m 1 + (d - 1) = day_of t" using make_day_add [of y m 1 "d - 1"] by simp
  have "day_of t * ms_per_day \<le> t" "t < (day_of t + 1) * ms_per_day"
    using div_bracket [of ms_per_day t] by (simp_all add: day_of_def ms_per_day_def mult.commute)
  moreover have "make_day y m 1 \<le> day_of t" "day_of t + 1 \<le> make_day y (m + 1) 1"
    using day d make_day_next_month [OF m, of y 1] by simp_all
  ultimately have "make_day y m 1 * ms_per_day \<le> t" "t < make_day y (m + 1) 1 * ms_per_day"
    by (smt (verit) mult_right_mono ms_per_day_def)+
  then have "month_begin ?k \<le> t \<and> t < month_begin (?k + 1)" unfolding first after by simp
  moreover have "month_index t = ?k" by (simp add: month_index_def c)
  ultimately show ?thesis by simp
qed

lemma month_begin_le: "month_begin k \<le> t \<longleftrightarrow> k \<le> month_index t"
  using month_bracket [of t] month_begin_mono [of k "month_index t"] month_begin_mono [of "month_index t + 1" k] by linarith

lemma month_index_begin [simp]: "month_index (month_begin k) = k"
  using month_begin_le [of k "month_begin k"] month_begin_le [of "k + 1" "month_begin k"] month_begin_Suc [of k] by linarith

lemma month_first_begin:
  assumes "100 \<le> fst (civil (day_of now))"
  shows "month_first now n = month_begin (month_index now + n)"
proof -
  obtain y m d where c: "civil (day_of now) = (y, m, d)" by (cases "civil (day_of now)")
  then have "full_year y = y" using assms by (simp add: full_year_def)
  then show ?thesis
    using make_day_months [of y "m + n" 1]
    by (simp add: month_first_def month_index_def c date_utc_day_start month_begin_def algebra_simps)
qed

lemma next_month_later: "t < next_month t"
proof -
  obtain y m d where c: "civil (day_of t) = (y, m, d)" by (cases "civil (day_of t)")
  have m: "1 \<le> m" "m \<le> 12" and t: "make_day y m d = day_of t"
    using civil_correct [OF c] by (simp_all add: valid_date_def)
  have "next_month t = (day_of t + month_length y m) * ms_per_day + t mod ms_per_day"
    by (simp add: next_month_def c make_day_next_month [OF m] t)
  also have "\<dots> = t + month_length y m * ms_per_day"
    by (simp add: day_of_def algebra_simps)
  finally show ?thesis using month_length_bounds [OF m, of y] by (simp add: ms_per_day_def)
qed

lemma next_month_begin: "next_month (month_begin k) = month_begin (k + 1)"
proof -
  let ?y = "k div 12" and ?m = "k mod 12 + 1"
  have m: "1 \<le> ?m" "?m \<le> 12" by simp_all
  have "valid_date ?y ?m 1" using m month_length_bounds [OF m, of ?y] by (simp add: valid_date_def)
  then have "civil (day_of (month_begin k)) = (?y, ?m, 1)"
    by (simp add: month_begin_def day_of_def ms_per_day_def civil_make_day)
  then have "next_month (month_begin k) = make_day ?y (?m + 1) 1 * ms_per_day"
    by (simp add: next_month_def) (simp add: month_begin_def)
  then show ?thesis using make_day_months [of ?y "?m + 1" 1] by (simp add: month_begin_def add.assoc)
qed

section \<open>The months kept\<close>

lemma iso_year_length:
  assumes "0 \<le> y" "y \<le> 9999"
  shows "length (iso_year y) = 4" "decimal (iso_year y) = y"
proof -
  have "iso_year y = pad_to (Suc 3) (int_string y)" using assms by (simp add: iso_year_def)
  moreover have "nat y < 10 ^ Suc 3" using assms by (simp add: nat_less_iff)
  ultimately show "length (iso_year y) = 4" "decimal (iso_year y) = y"
    using pad_to_number(1,3) [OF assms(1), of 3] by simp_all
qed

lemma month_text_fields:
  assumes "civil (day_of t) = (y, m, d)" "0 \<le> y" "y \<le> 9999"
  shows "month_text t = iso_year y @ ''-'' @ pad2 m"
proof -
  have "1 \<le> m" "m \<le> 12" using civil_bounds [OF assms(1)] by simp_all
  then have "length (pad2 m) = 2" by (simp add: length_pad2)
  then show ?thesis using iso_year_length [OF assms(2,3)] by (simp add: month_text_def to_iso_def assms(1))
qed

definition text_year :: "int \<Rightarrow> bool" where
  "text_year t \<longleftrightarrow> 0 \<le> fst (civil (day_of t)) \<and> fst (civil (day_of t)) \<le> 9999"

lemma month_text_eq:
  assumes "text_year s" "text_year t"
  shows "month_text s = month_text t \<longleftrightarrow> month_index s = month_index t"
proof -
  obtain y m d y' m' d' where c: "civil (day_of s) = (y, m, d)" "civil (day_of t) = (y', m', d')"
    by (cases "civil (day_of s)"; cases "civil (day_of t)")
  have y: "0 \<le> y" "y \<le> 9999" "0 \<le> y'" "y' \<le> 9999" using assms by (simp_all add: text_year_def c)
  have m: "1 \<le> m" "m \<le> 12" "1 \<le> m'" "m' \<le> 12" using civil_bounds [OF c(1)] civil_bounds [OF c(2)] by simp_all
  have "month_text s = month_text t \<longleftrightarrow> iso_year y = iso_year y' \<and> pad2 m = pad2 m'"
    using iso_year_length [OF y(1,2)] iso_year_length [OF y(3,4)]
    by (simp add: month_text_fields [OF c(1) y(1,2)] month_text_fields [OF c(2) y(3,4)])
  also have "\<dots> \<longleftrightarrow> y = y' \<and> m = m'"
    using iso_year_length(2) [OF y(1,2)] iso_year_length(2) [OF y(3,4)] pad2_number(3) [of m] pad2_number(3) [of m'] m
    by (metis order_trans zero_le_one)
  also have "\<dots> \<longleftrightarrow> month_index s = month_index t"
  proof -
    have "y = y' \<and> m = m'" if eq: "12 * y + (m - 1) = 12 * y' + (m' - 1)"
    proof -
      have "\<not> y < y'" "\<not> y' < y" using eq m by linarith+
      then show ?thesis using eq by simp
    qed
    then have "12 * y + (m - 1) = 12 * y' + (m' - 1) \<longleftrightarrow> y = y' \<and> m = m'" by blast
    then show ?thesis by (simp only: month_index_def c prod.case)
  qed
  finally show ?thesis .
qed

lemma text_year_first:
  assumes "100 \<le> fst (civil (day_of now))" "fst (civil (day_of now)) \<le> 9990" "n \<in> {- months_back..months_ahead}"
  shows "text_year (month_first now n)"
proof -
  obtain y m d where c: "civil (day_of now) = (y, m, d)" by (cases "civil (day_of now)")
  have m: "1 \<le> m" "m \<le> 12" using civil_bounds [OF c] by simp_all
  let ?t = "month_first now n"
  obtain y' m' d' where c': "civil (day_of ?t) = (y', m', d')" by (cases "civil (day_of ?t)")
  have m': "1 \<le> m'" "m' \<le> 12" using civil_bounds [OF c'] by simp_all
  have "month_index ?t = month_index now + n" by (simp add: month_first_begin [OF assms(1)])
  then have "12 * y' + (m' - 1) = 12 * y + (m - 1) + n" by (simp add: month_index_def c c')
  then show ?thesis
    using assms m m' unfolding text_year_def c' fst_conv c months_back_def months_ahead_def by auto
qed

text \<open>C34: what is kept is exact: an instant's month is among the months kept if and only if the instant lies from
  the moment that pages take as the start of the device's history up to the end of the twenty-fourth month ahead.\<close>

theorem history_window:
  assumes "100 \<le> fst (civil (day_of now))" "fst (civil (day_of now)) \<le> 9990" "text_year t"
  shows "month_text t \<in> set (history_months now) \<longleftrightarrow> history_start now \<le> t \<and> t < month_first now (months_ahead + 1)"
proof -
  have "month_text t \<in> set (history_months now) \<longleftrightarrow>
      (\<exists>n\<in>{- months_back..months_ahead}. month_index t = month_index now + n)"
  proof -
    have "month_text t \<in> set (history_months now) \<longleftrightarrow>
        (\<exists>n\<in>{- months_back..months_ahead}. month_text t = month_text (month_first now n))"
      by (auto simp: history_months_def)
    also have "\<dots> \<longleftrightarrow> (\<exists>n\<in>{- months_back..months_ahead}. month_index t = month_index now + n)"
      using month_text_eq [OF assms(3) text_year_first [OF assms(1,2)]]
      by (intro bex_cong refl) (simp add: month_first_begin [OF assms(1)])
    finally show ?thesis .
  qed
  also have "\<dots> \<longleftrightarrow> month_index now - months_back \<le> month_index t \<and> \<not> month_index now + (months_ahead + 1) \<le> month_index t"
    by (auto intro!: bexI [of _ "month_index t - month_index now"])
  also have "\<dots> \<longleftrightarrow> history_start now \<le> t \<and> t < month_first now (months_ahead + 1)"
    by (simp add: history_start_def month_first_begin [OF assms(1)] flip: month_begin_le) (simp add: not_le)
  finally show ?thesis .
qed

section \<open>The months a page asks for\<close>

text \<open>\<open>rangeMonths\<close>: the cursor starts on the first of the month and moves on while it is before the end.\<close>

function range_from :: "int \<Rightarrow> int \<Rightarrow> int list" where
  "range_from cursor until = (if cursor < until then cursor # range_from (next_month cursor) until else [])"
  by pat_completeness auto
termination
  by (relation "measure (\<lambda>(cursor, until). nat (until - cursor))") (simp_all add: next_month_later)

declare range_from.simps [simp del]

definition range_months :: "int \<Rightarrow> int \<Rightarrow> string list" where
  "range_months start until = map month_text (range_from (month_first start 0) until)"

lemma month_begin_eq: "month_begin j = month_begin k \<longleftrightarrow> j = k"
  by (metis month_index_begin)

lemma range_from_begin: "month_begin j \<in> set (range_from (month_begin k) until) \<longleftrightarrow> k \<le> j \<and> month_begin j < until"
proof (induction "month_begin k" until arbitrary: k rule: range_from.induct)
  case (1 until)
  show ?case
  proof (cases "month_begin k < until")
    case True
    have "month_begin j \<in> set (range_from (month_begin (k + 1)) until) \<longleftrightarrow> k + 1 \<le> j \<and> month_begin j < until"
      using 1 [OF True] next_month_begin by blast
    moreover have "range_from (month_begin k) until = month_begin k # range_from (month_begin (k + 1)) until"
      using True by (subst range_from.simps) (simp add: next_month_begin)
    ultimately show ?thesis using True by (cases "j = k") (auto simp: month_begin_eq)
  next
    case False
    then show ?thesis using month_begin_mono [of k j] by (subst range_from.simps) auto
  qed
qed

lemma text_year_index: "month_index s = month_index t \<Longrightarrow> text_year s = text_year t"
proof -
  have year: "fst (civil (day_of t)) = month_index t div 12" for t
    using civil_bounds [of "day_of t"] by (cases "civil (day_of t)") (auto simp: month_index_def)
  show "month_index s = month_index t \<Longrightarrow> text_year s = text_year t" by (simp add: text_year_def year)
qed

lemma range_months_cover:
  assumes "100 \<le> fst (civil (day_of start))" "start \<le> t" "t < until" "text_year t"
  shows "month_text t \<in> set (range_months start until)"
proof -
  let ?m = "month_begin (month_index t)"
  have "month_index start \<le> month_index t"
    using month_begin_le [of "month_index start" t] month_bracket [of start] assms(2) by simp
  moreover have "?m < until" using month_bracket [of t] assms(3) by simp
  ultimately have "?m \<in> set (range_from (month_first start 0) until)"
    by (simp add: month_first_begin [OF assms(1)] range_from_begin)
  moreover have "month_text ?m = month_text t"
    using month_text_eq [of ?m t] text_year_index [of ?m t] assms(4) by simp
  ultimately show ?thesis unfolding range_months_def by (metis image_eqI set_map)
qed

text \<open>The replica's record of a month, \<open>device_prefs\<close> from the month to the text of the time it is good until.\<close>

type_synonym history_rows = "(string \<times> string) list"

definition record_ms :: int where "record_ms = 23 * 60 * 60 * 1000"

definition record_history :: "int \<Rightarrow> string list \<Rightarrow> (string, string) js_map \<Rightarrow> (string, string) js_map" where
  "record_history now months prefs =
    foldl (\<lambda>p month. AList.update (''sync.history:'' @ month) (int_string (now + record_ms)) p) prefs months"

definition history_covered :: "int \<Rightarrow> history_rows \<Rightarrow> string list \<Rightarrow> bool" where
  "history_covered now rows months \<longleftrightarrow>
    (\<forall>month\<in>set months. \<exists>r\<in>set rows. fst r = ''sync.history:'' @ month
      \<and> (case js_number (snd r) of Some n \<Rightarrow> now < n | None \<Rightarrow> False))"

lemma map_of_record: "map_of (record_history now months prefs)
    = (\<lambda>k. if k \<in> (@) ''sync.history:'' ` set months then Some (int_string (now + record_ms)) else map_of prefs k)"
  unfolding record_history_def
  by (induction months arbitrary: prefs) (auto simp: fun_eq_iff update_conv)

text \<open>What was recorded counts as covered for twenty-three hours.\<close>

lemma recorded_months_covered:
  assumes "0 \<le> now" "later < now + record_ms"
  shows "history_covered later (record_history now months prefs) months"
proof -
  have "js_number (int_string (now + record_ms)) = Some (now + record_ms)"
    using int_string_number(1) [of "now + record_ms"] assms(1) by (simp add: record_ms_def)
  moreover have "(''sync.history:'' @ month, int_string (now + record_ms)) \<in> set (record_history now months prefs)"
    if "month \<in> set months" for month
    using that by (intro map_of_SomeD) (simp add: map_of_record)
  ultimately show ?thesis
    using assms(2) unfolding history_covered_def
    by (intro ballI bexI [of _ "(''sync.history:'' @ m, int_string (now + record_ms))" for m]) auto
qed

text \<open>A page that shows a range as covered has an unexpired record for the month of every instant in it.\<close>

lemma covered_range_complete:
  assumes "history_covered now rows (range_months start until)"
    and "100 \<le> fst (civil (day_of start))" "start \<le> t" "t < until" "text_year t"
  shows "\<exists>r\<in>set rows. fst r = ''sync.history:'' @ month_text t \<and> (\<exists>n. js_number (snd r) = Some n \<and> now < n)"
  using assms(1) range_months_cover [OF assms(2-5)] unfolding history_covered_def by (fastforce split: option.splits)

section \<open>The upkeep of the streams\<close>

text \<open>
  \<open>maintainHistory\<close>: \<open>refresh\<close> runs at once and every minute, one at a time (\<open>busy\<close>), and \<open>stop\<close> may come during
  any of its waits. \<open>up_live\<close> are the streams handed to it that nobody has given up.
\<close>

datatype upkeep_wait = Subscribing "string list" | Syncing "string list" | Recording int "string list"

record upkeep =
  up_streams :: "nat list"
  up_key :: string
  up_stopped :: bool
  up_wait :: "upkeep_wait option"
  up_live :: "nat list"
  up_next :: nat
  up_prefs :: "(string, string) js_map"

definition fresh_streams :: "nat \<Rightarrow> nat list" where
  "fresh_streams n = [n, n + 1, n + 2]"

definition give_up :: "nat list \<Rightarrow> nat list \<Rightarrow> nat list" where
  "give_up subs live = filter (\<lambda>n. n \<notin> set subs) live"

definition refresh_begin :: "int \<Rightarrow> upkeep \<Rightarrow> upkeep" where
  "refresh_begin now s =
    (if up_wait s \<noteq> None \<or> up_stopped s then s
     else let months = history_months now
          in s\<lparr>up_wait := Some (if up_key s \<noteq> join_with '','' months then Subscribing months else Syncing months)\<rparr>)"

definition refresh_subscribed :: "bool \<Rightarrow> string list \<Rightarrow> upkeep \<Rightarrow> upkeep" where
  "refresh_subscribed ok months s =
    (if \<not> ok then s\<lparr>up_wait := None\<rparr>
     else let new = fresh_streams (up_next s); s1 = s\<lparr>up_next := up_next s + 3, up_live := up_live s @ new\<rparr>
          in if up_stopped s then s1\<lparr>up_live := give_up new (up_live s1), up_wait := None\<rparr>
             else s1\<lparr>up_live := give_up (up_streams s) (up_live s1), up_streams := new,
                     up_key := join_with '','' months, up_wait := Some (Syncing months)\<rparr>)"

definition refresh_synced :: "bool \<Rightarrow> int \<Rightarrow> string list \<Rightarrow> upkeep \<Rightarrow> upkeep" where
  "refresh_synced ok now months s =
    s\<lparr>up_wait := (if ok \<and> \<not> up_stopped s then Some (Recording now months) else None)\<rparr>"

definition refresh_recorded :: "bool \<Rightarrow> int \<Rightarrow> string list \<Rightarrow> upkeep \<Rightarrow> upkeep" where
  "refresh_recorded ok started months s =
    s\<lparr>up_prefs := (if ok then record_history started months (up_prefs s) else up_prefs s), up_wait := None\<rparr>"

definition upkeep_stop :: "upkeep \<Rightarrow> upkeep" where
  "upkeep_stop s = s\<lparr>up_stopped := True, up_live := give_up (up_streams s) (up_live s)\<rparr>"

definition upkeep_start :: "int \<Rightarrow> (string, string) js_map \<Rightarrow> upkeep" where
  "upkeep_start now prefs = refresh_begin now
    \<lparr>up_streams = [], up_key = [], up_stopped = False, up_wait = None, up_live = [], up_next = 0, up_prefs = prefs\<rparr>"

inductive upkeep_step :: "upkeep \<Rightarrow> upkeep \<Rightarrow> bool" where
  "upkeep_step s (refresh_begin now s)"
| "up_wait s = Some (Subscribing months) \<Longrightarrow> upkeep_step s (refresh_subscribed ok months s)"
| "up_wait s = Some (Syncing months) \<Longrightarrow> upkeep_step s (refresh_synced ok now months s)"
| "up_wait s = Some (Recording started months) \<Longrightarrow> upkeep_step s (refresh_recorded ok started months s)"
| "upkeep_step s (upkeep_stop s)"

definition upkeep_started :: "upkeep \<Rightarrow> bool" where
  "upkeep_started s \<longleftrightarrow> (\<exists>now prefs. s = upkeep_start now prefs)"

text \<open>The streams held are those of the last refresh, and none after the stop.\<close>

definition upkeep_inv :: "upkeep \<Rightarrow> bool" where
  "upkeep_inv s \<longleftrightarrow> up_live s = (if up_stopped s then [] else up_streams s) \<and> (\<forall>n\<in>set (up_live s). n < up_next s)"

lemma give_up_own [simp]: "give_up subs subs = []" "give_up subs [] = []"
  by (simp_all add: give_up_def filter_empty_conv)

lemma give_up_older: "(\<forall>n\<in>set subs. n < k) \<Longrightarrow> give_up subs (subs @ fresh_streams k) = fresh_streams k"
  by (auto simp: give_up_def fresh_streams_def filter_empty_conv)

interpretation upkeep: inductive_invariant upkeep_started upkeep_step upkeep_inv
proof
  fix s assume "upkeep_started s"
  then show "upkeep_inv s" by (auto simp: upkeep_started_def upkeep_start_def refresh_begin_def upkeep_inv_def Let_def)
next
  fix s t assume inv: "upkeep_inv s" and step: "upkeep_step s t"
  from step show "upkeep_inv t"
  proof cases
    case (2 months ok)
    then show ?thesis
      using inv give_up_older [of "up_streams s" "up_next s"]
      by (auto simp: refresh_subscribed_def upkeep_inv_def Let_def fresh_streams_def split: if_splits)
  qed (use inv in \<open>auto simp: refresh_begin_def refresh_synced_def refresh_recorded_def upkeep_stop_def upkeep_inv_def Let_def split: if_splits\<close>)
qed

text \<open>Once stopped, no stream is left, also when the stop came while streams were being subscribed.\<close>

lemma stopped_upkeep_holds_nothing:
  "reach upkeep_started upkeep_step s \<Longrightarrow> up_stopped s \<Longrightarrow> up_live s = []"
  using upkeep.reach_inv by (auto simp: upkeep_inv_def)

section \<open>Loading a range\<close>

text \<open>The effect of \<open>useHistoryRange\<close> for one key; \<open>timer\<close> is its thirty seconds, \<open>failed\<close> is \<open>failed === key\<close>.\<close>

datatype range_wait = Range_Subscribing | Range_Syncing | Range_Recording int

record range_load =
  rl_streams :: "nat list"
  rl_live :: "nat list"
  rl_next :: nat
  rl_aborted :: bool
  rl_disposed :: bool
  rl_timer :: bool
  rl_loaded :: bool
  rl_failed :: bool
  rl_wait :: "range_wait option"
  rl_prefs :: "(string, string) js_map"

definition range_begin :: "(string, string) js_map \<Rightarrow> range_load" where
  "range_begin prefs = \<lparr>rl_streams = [], rl_live = [], rl_next = 0, rl_aborted = False, rl_disposed = False, rl_timer = True,
     rl_loaded = False, rl_failed = False, rl_wait = Some Range_Subscribing, rl_prefs = prefs\<rparr>"

definition range_failed :: "range_load \<Rightarrow> range_load" where
  "range_failed s = s\<lparr>rl_wait := None, rl_failed := (rl_failed s \<or> \<not> rl_disposed s)\<rparr>"

definition range_subscribed :: "bool \<Rightarrow> range_load \<Rightarrow> range_load" where
  "range_subscribed ok s =
    (if \<not> ok then range_failed s
     else let new = fresh_streams (rl_next s); s1 = s\<lparr>rl_next := rl_next s + 3, rl_streams := new, rl_live := rl_live s @ new\<rparr>
          in if rl_aborted s then s1\<lparr>rl_live := give_up new (rl_live s1), rl_wait := None\<rparr>
             else s1\<lparr>rl_wait := Some Range_Syncing\<rparr>)"

definition range_synced :: "bool \<Rightarrow> int \<Rightarrow> range_load \<Rightarrow> range_load" where
  "range_synced ok now s =
    (if \<not> ok then range_failed s else s\<lparr>rl_wait := (if rl_aborted s then None else Some (Range_Recording now))\<rparr>)"

definition range_recorded :: "bool \<Rightarrow> int \<Rightarrow> string list \<Rightarrow> range_load \<Rightarrow> range_load" where
  "range_recorded ok started months s =
    (if \<not> ok then range_failed s
     else s\<lparr>rl_wait := None, rl_prefs := record_history started months (rl_prefs s), rl_loaded := True, rl_timer := False\<rparr>)"

definition range_timeout :: "range_load \<Rightarrow> range_load" where
  "range_timeout s = (if rl_timer s then s\<lparr>rl_timer := False, rl_aborted := True\<rparr> else s)"

definition range_refreshed :: "int \<Rightarrow> string list \<Rightarrow> range_load \<Rightarrow> range_load" where
  "range_refreshed now months s =
    (if rl_loaded s \<and> \<not> rl_disposed s then s\<lparr>rl_prefs := record_history now months (rl_prefs s)\<rparr> else s)"

definition range_cleanup :: "range_load \<Rightarrow> range_load" where
  "range_cleanup s = s\<lparr>rl_disposed := True, rl_aborted := True, rl_timer := False, rl_live := give_up (rl_streams s) (rl_live s)\<rparr>"

text \<open>\<open>unavailable\<close> and \<open>isLoading\<close>.\<close>

definition range_unavailable :: "bool \<Rightarrow> bool \<Rightarrow> bool \<Rightarrow> range_load \<Rightarrow> bool" where
  "range_unavailable reading covered online s \<longleftrightarrow> \<not> reading \<and> \<not> covered \<and> (\<not> online \<or> rl_failed s)"

definition range_loading :: "bool \<Rightarrow> bool \<Rightarrow> bool \<Rightarrow> range_load \<Rightarrow> bool" where
  "range_loading reading covered online s \<longleftrightarrow> \<not> covered \<and> \<not> range_unavailable reading covered online s"

inductive range_step :: "string list \<Rightarrow> range_load \<Rightarrow> range_load \<Rightarrow> bool" for months :: "string list" where
  "rl_wait s = Some Range_Subscribing \<Longrightarrow> range_step months s (range_subscribed ok s)"
| "rl_wait s = Some Range_Syncing \<Longrightarrow> (ok \<longrightarrow> \<not> rl_aborted s) \<Longrightarrow> range_step months s (range_synced ok now s)"
| "rl_wait s = Some (Range_Recording started) \<Longrightarrow> range_step months s (range_recorded ok started months s)"
| "range_step months s (range_timeout s)"
| "range_step months s (range_refreshed now months s)"
| "range_step months s (range_cleanup s)"

definition range_started :: "range_load \<Rightarrow> bool" where
  "range_started s \<longleftrightarrow> (\<exists>prefs. s = range_begin prefs)"

definition range_inv :: "range_load \<Rightarrow> bool" where
  "range_inv s \<longleftrightarrow> (rl_disposed s \<longrightarrow> rl_aborted s \<and> rl_live s = []) \<and> rl_live s \<in> {[], rl_streams s}
    \<and> (rl_wait s = Some Range_Subscribing \<longrightarrow> rl_live s = [])"

interpretation range: inductive_invariant range_started "range_step months" range_inv for months
proof
  fix s assume "range_started s"
  then show "range_inv s" by (auto simp: range_started_def range_begin_def range_inv_def)
next
  fix s t assume inv: "range_inv s" and step: "range_step months s t"
  from step show "range_inv t"
    by cases (use inv in \<open>auto simp: range_inv_def range_subscribed_def range_synced_def range_recorded_def range_failed_def
      range_timeout_def range_refreshed_def range_cleanup_def Let_def split: if_splits\<close>)
qed

text \<open>A range that is no longer shown holds no streams.\<close>

lemma disposed_range_holds_nothing:
  "reach range_started (range_step months) s \<Longrightarrow> rl_disposed s \<Longrightarrow> rl_live s = []"
  using range.reach_inv by (auto simp: range_inv_def)

text \<open>
  When the thirty seconds pass while the streams are still being subscribed, \<open>load\<close> returns without a failure: the
  range stays loading for as long as the page is online, and no retry is offered.
\<close>

lemma silent_timeout_stays:
  assumes "(range_step months)\<^sup>*\<^sup>* s t" "rl_wait s = None" "\<not> rl_failed s" "\<not> rl_loaded s"
  shows "rl_wait t = None \<and> \<not> rl_failed t \<and> \<not> rl_loaded t"
  using assms
proof (induction rule: rtranclp_induct)
  case (step t u)
  then have t: "rl_wait t = None \<and> \<not> rl_failed t \<and> \<not> rl_loaded t" by blast
  show ?case
    using step.hyps(2) by cases (use t in \<open>auto simp: range_timeout_def range_refreshed_def range_cleanup_def\<close>)
qed simp

lemma timed_out_range_loads_forever:
  assumes "rl_wait s = Some Range_Subscribing" "rl_timer s" "\<not> rl_failed s" "\<not> rl_loaded s"
    and "(range_step months)\<^sup>*\<^sup>* (range_subscribed True (range_timeout s)) t"
  shows "range_loading False False True t"
  using silent_timeout_stays [OF assms(5)] assms(1-4)
  by (simp add: range_subscribed_def range_timeout_def Let_def range_loading_def range_unavailable_def)

section \<open>A new year's eve\<close>

lemma demo_now: "day_of 1767225599999 = make_day 2025 12 31" "valid_date 2025 12 31"
  by code_simp+

lemma demo_civil: "civil (day_of 1767225599999) = (2025, 12, 31)"
  by (simp add: demo_now civil_make_day)

theorem history_window_witness: "month_text 1767225599999 \<in> set (history_months 1767225599999)"
proof -
  have now: "100 \<le> fst (civil (day_of 1767225599999))" "fst (civil (day_of 1767225599999)) \<le> 9990" "text_year 1767225599999"
    by (simp_all add: demo_civil text_year_def)
  have after: "\<not> month_begin (month_index 1767225599999 + 25) \<le> 1767225599999" by (simp add: month_begin_le)
  have "history_start 1767225599999 \<le> 1767225599999" "1767225599999 < month_first 1767225599999 (months_ahead + 1)"
    unfolding history_start_def month_first_begin [OF now(1)] months_back_def months_ahead_def
    using after by (simp_all add: month_begin_le not_le [symmetric] del: not_le)
  then show ?thesis using history_window [OF now] by blast
qed

end
