(* ===== verification/Replica_Session.thy ===== *)
theory Replica_Session
  imports Attempts
begin

text \<open>
  Which replica the app shows (\<open>useReplicaSession\<close> in \<open>app-core/src/domain/sync.ts\<close>), the state of its outbox
  (\<open>useSyncState\<close>), the one notice a shell shows and the arrivals a screen waits for. A run of the session waits for
  the caller's \<open>restore\<close>, \<open>discard\<close> or \<open>clearCredentials\<close> at most thirty seconds; runs overlap, and only the latest
  may change what is shown. Texts are keys of the string catalogue with their arguments.
\<close>

section \<open>The session's state\<close>

datatype session_action = Load_Replica | Discard_Replica | Reauthenticate

datatype session_failure = Load_Failed | Discard_Failed | Reauthenticate_Failed | Offline_Expired | Replica_Stuck

datatype restored = Restored nat | Unverified_Session | No_Session

text \<open>
  Runs and pauses that have not settled, by the generation they started with. A run keeps its \<open>cancelled\<close> in the
  list of the cancelled ones.
\<close>

record replica_session =
  rs_db :: "nat option"
  rs_loading :: bool
  rs_failed :: "session_failure option"
  rs_unverified :: bool
  rs_generation :: nat
  rs_runs :: "(nat \<times> session_action) list"
  rs_pauses :: "nat list"
  rs_cancelled :: "nat list"
  rs_mounted :: bool
  rs_paused :: nat \<comment> \<open>how often \<open>options.pause\<close> was called\<close>

definition session_opened :: replica_session where
  "session_opened = \<lparr>rs_db = None, rs_loading = True, rs_failed = None, rs_unverified = False, rs_generation = 0,
     rs_runs = [], rs_pauses = [], rs_cancelled = [], rs_mounted = True, rs_paused = 0\<rparr>"

text \<open>What every new action does first.\<close>

definition session_reset :: "replica_session \<Rightarrow> replica_session" where
  "session_reset s = s\<lparr>rs_generation := rs_generation s + 1, rs_db := None, rs_loading := True, rs_failed := None, rs_unverified := False\<rparr>"

definition run_begin :: "session_action \<Rightarrow> replica_session \<Rightarrow> replica_session" where
  "run_begin a s = (let s1 = session_reset s in s1\<lparr>rs_runs := rs_runs s1 @ [(rs_generation s1, a)]\<rparr>)"

definition run_stale :: "nat \<Rightarrow> replica_session \<Rightarrow> bool" where
  "run_stale g s \<longleftrightarrow> g \<in> set (rs_cancelled s) \<or> g \<noteq> rs_generation s"

text \<open>A load answers with what it restored; the two others with \<open>null\<close>.\<close>

definition run_resolved :: "nat \<Rightarrow> session_action \<Rightarrow> restored \<Rightarrow> replica_session \<Rightarrow> replica_session" where
  "run_resolved g a r s =
    (let next = (if a = Load_Replica then r else No_Session); s1 = s\<lparr>rs_runs := remove1 (g, a) (rs_runs s)\<rparr>
     in if g = rs_generation s
        then s1\<lparr>rs_db := (case next of Restored d \<Rightarrow> Some d | _ \<Rightarrow> None), rs_unverified := (next = Unverified_Session), rs_loading := False\<rparr>
        else s1)"

definition refused_transiently :: "json \<Rightarrow> bool" where
  "refused_transiently e \<longleftrightarrow> (case failed_status e of Some st \<Rightarrow> st \<noteq> 401 | None \<Rightarrow> False)"

definition action_failure :: "session_action \<Rightarrow> session_failure" where
  "action_failure a = (case a of Load_Replica \<Rightarrow> Load_Failed | Discard_Replica \<Rightarrow> Discard_Failed | Reauthenticate \<Rightarrow> Reauthenticate_Failed)"

definition session_failure_of :: "json \<Rightarrow> session_action \<Rightarrow> session_failure" where
  "session_failure_of e a =
    (if failed_code e = Some ''offline_access_expired'' then Offline_Expired
     else if failed_code e = Some ''replica_stuck'' then Replica_Stuck else action_failure a)"

text \<open>A run that failed, or that \<open>bounded\<close> gave up.\<close>

definition run_failed :: "nat \<Rightarrow> session_action \<Rightarrow> json \<Rightarrow> replica_session \<Rightarrow> replica_session" where
  "run_failed g a e s =
    (let s1 = s\<lparr>rs_runs := remove1 (g, a) (rs_runs s), rs_cancelled := g # rs_cancelled s\<rparr>
     in if g = rs_generation s
        then (let f = session_failure_of e a
              in s1\<lparr>rs_failed := Some f, rs_loading := False, rs_paused := (if f \<noteq> Replica_Stuck then rs_paused s + 1 else rs_paused s)\<rparr>)
        else s1)"

text \<open>The session ended (\<open>options.subscribe\<close>): the replica is paused.\<close>

definition session_ended :: "replica_session \<Rightarrow> replica_session" where
  "session_ended s = (let s1 = session_reset s in s1\<lparr>rs_pauses := rs_generation s1 # rs_pauses s1, rs_paused := rs_paused s1 + 1\<rparr>)"

definition pause_settled :: "bool \<Rightarrow> nat \<Rightarrow> replica_session \<Rightarrow> replica_session" where
  "pause_settled ok g s =
    (let s1 = s\<lparr>rs_pauses := remove1 g (rs_pauses s)\<rparr>
     in if g = rs_generation s
        then s1\<lparr>rs_failed := (if ok then rs_failed s else Some Load_Failed), rs_loading := False\<rparr> else s1)"

definition session_unmounted :: "replica_session \<Rightarrow> replica_session" where
  "session_unmounted s = s\<lparr>rs_mounted := False, rs_generation := rs_generation s + 1, rs_paused := rs_paused s + 1\<rparr>"

text \<open>A check of the session that started in the generation \<open>g\<close> with the replica \<open>d\<close> failed.\<close>

definition validate_failed :: "nat \<Rightarrow> nat \<Rightarrow> json \<Rightarrow> replica_session \<Rightarrow> replica_session" where
  "validate_failed g d e s =
    (if \<not> refused_transiently e \<and> rs_db s = Some d \<and> g = rs_generation s then run_begin Load_Replica s else s)"

definition session_retry :: "replica_session \<Rightarrow> replica_session" where
  "session_retry s =
    (case rs_failed s of
       Some Discard_Failed \<Rightarrow> run_begin Discard_Replica s
     | Some Reauthenticate_Failed \<Rightarrow> run_begin Reauthenticate s
     | _ \<Rightarrow> run_begin Load_Replica s)"

inductive replica_session_step :: "replica_session \<Rightarrow> replica_session \<Rightarrow> bool" where
  run: "replica_session_step s (run_begin a s)"
| resolved: "(g, a) \<in> set (rs_runs s) \<Longrightarrow> replica_session_step s (run_resolved g a r s)"
| failed: "(g, a) \<in> set (rs_runs s) \<Longrightarrow> replica_session_step s (run_failed g a e s)"
| ended: "replica_session_step s (session_ended s)"
| paused: "g \<in> set (rs_pauses s) \<Longrightarrow> replica_session_step s (pause_settled ok g s)"
| unmounted: "replica_session_step s (session_unmounted s)"
| validated: "replica_session_step s (validate_failed g d e s)"
| retried: "replica_session_step s (session_retry s)"

definition session_mounted :: "replica_session \<Rightarrow> bool" where
  "session_mounted s \<longleftrightarrow> s = run_begin Load_Replica session_opened"

section \<open>Only the latest action is shown, and it ends\<close>

text \<open>Nobody waits for a generation to come, and as long as the session is loading somebody waits for this one.\<close>

definition session_ok :: "replica_session \<Rightarrow> bool" where
  "session_ok s \<longleftrightarrow> (\<forall>g\<in>fst ` set (rs_runs s). g \<le> rs_generation s) \<and> (\<forall>g\<in>set (rs_pauses s). g \<le> rs_generation s)
    \<and> (rs_mounted s \<and> rs_loading s \<longrightarrow> (\<exists>a. (rs_generation s, a) \<in> set (rs_runs s)) \<or> rs_generation s \<in> set (rs_pauses s))"

lemma session_ok_reset: "session_ok s \<Longrightarrow> session_ok (run_begin a s)" "session_ok s \<Longrightarrow> session_ok (session_ended s)"
  by (auto simp: session_ok_def run_begin_def session_ended_def session_reset_def Let_def)

lemma set_remove1_other: "x \<noteq> y \<Longrightarrow> x \<in> set (remove1 y xs) \<longleftrightarrow> x \<in> set xs"
  by (induction xs) auto

lemma session_ok_settled:
  assumes "session_ok s"
  shows "session_ok (run_resolved g a r s)" "session_ok (run_failed g a e s)" "session_ok (pause_settled ok g s)"
proof -
  have runs: "\<forall>g\<in>fst ` set (remove1 x (rs_runs s)). g \<le> rs_generation s" for x
    using assms set_remove1_subset [of x "rs_runs s"] by (fastforce simp: session_ok_def)
  have pauses: "\<forall>h\<in>set (remove1 g (rs_pauses s)). h \<le> rs_generation s"
    using assms set_remove1_subset [of g "rs_pauses s"] by (auto simp: session_ok_def)
  show "session_ok (run_resolved g a r s)" "session_ok (run_failed g a e s)" "session_ok (pause_settled ok g s)"
    using assms runs pauses
    by (auto simp: session_ok_def run_resolved_def run_failed_def pause_settled_def Let_def set_remove1_other)
qed

interpretation replica_session: inductive_invariant session_mounted replica_session_step session_ok
proof
  show "session_mounted s \<Longrightarrow> session_ok s" for s
    by (auto simp: session_mounted_def session_ok_def session_opened_def run_begin_def session_reset_def Let_def)
next
  fix s t assume "session_ok s" "replica_session_step s t"
  then show "session_ok t"
    by (auto elim!: replica_session_step.cases intro!: session_ok_reset session_ok_settled
        simp: validate_failed_def session_retry_def split: option.splits session_failure.splits)
      (auto simp: session_unmounted_def session_ok_def)
qed

text \<open>The session never stays on loading: while it is mounted and loading, a run or a pause of its own generation
  is under way, each of which settles within thirty seconds and then ends the loading.\<close>

theorem session_loading_ends:
  assumes "reach session_mounted replica_session_step s" "rs_mounted s" "rs_loading s"
  shows "(\<exists>a. (rs_generation s, a) \<in> set (rs_runs s)
      \<and> (\<forall>r e. \<not> rs_loading (run_resolved (rs_generation s) a r s) \<and> \<not> rs_loading (run_failed (rs_generation s) a e s)))
    \<or> (rs_generation s \<in> set (rs_pauses s) \<and> (\<forall>ok. \<not> rs_loading (pause_settled ok (rs_generation s) s)))"
  using replica_session.reach_inv [OF assms(1)] assms(2,3)
  by (auto simp: session_ok_def run_resolved_def run_failed_def pause_settled_def Let_def)

text \<open>What holds from an action of generation \<open>g\<close> on that brings no replica.\<close>

definition hidden_since :: "nat \<Rightarrow> replica_session \<Rightarrow> bool" where
  "hidden_since g s \<longleftrightarrow> g \<le> rs_generation s \<and> (\<forall>g\<in>fst ` set (rs_runs s). g \<le> rs_generation s)
    \<and> (rs_generation s = g \<longrightarrow> rs_db s = None \<and> (g, Load_Replica) \<notin> set (rs_runs s))"

lemma hidden_step:
  assumes "hidden_since g s" "replica_session_step s t"
  shows "hidden_since g t"
  using assms(2)
proof cases
  case (resolved h a r)
  then show ?thesis
    using assms(1) set_remove1_subset [of "(h, a)" "rs_runs s"]
    by (auto simp: hidden_since_def run_resolved_def Let_def split: restored.splits)
next
  case (failed h a e)
  then show ?thesis
    using assms(1) set_remove1_subset [of "(h, a)" "rs_runs s"] by (auto simp: hidden_since_def run_failed_def Let_def)
qed (use assms(1) in \<open>auto simp: hidden_since_def run_begin_def session_ended_def session_reset_def pause_settled_def session_unmounted_def
    validate_failed_def session_retry_def Let_def split: option.splits session_failure.splits\<close>)

lemma hidden_steps: "replica_session_step\<^sup>*\<^sup>* s t \<Longrightarrow> hidden_since g s \<Longrightarrow> hidden_since g t"
  by (induction rule: rtranclp_induct) (auto intro: hidden_step)

text \<open>C35: after a sign-out, a discard or the end of the session, no answer of an earlier run brings the replica back:
  until another action starts, none is shown, whatever restores, checks and pauses were under way.\<close>

theorem signed_out_shows_nothing:
  assumes "reach session_mounted replica_session_step s" "s0 \<in> {run_begin Discard_Replica s, run_begin Reauthenticate s, session_ended s}"
    and "replica_session_step\<^sup>*\<^sup>* s0 t" "rs_generation t = rs_generation s0"
  shows "rs_db t = None"
proof -
  have "session_ok s" by (rule replica_session.reach_inv [OF assms(1)])
  then have "hidden_since (rs_generation s0) s0"
    using assms(2) by (fastforce simp: hidden_since_def session_ok_def run_begin_def session_ended_def session_reset_def Let_def)
  from hidden_steps [OF assms(3) this] show ?thesis using assms(4) by (simp add: hidden_since_def)
qed

theorem signed_out_shows_nothing_witness:
  "rs_db (run_resolved 1 Load_Replica (Restored 7) (run_begin Discard_Replica (run_begin Load_Replica session_opened))) = None"
proof -
  let ?s = "run_begin Load_Replica session_opened"
  let ?t = "run_resolved 1 Load_Replica (Restored 7) (run_begin Discard_Replica ?s)"
  have "reach session_mounted replica_session_step ?s" by (rule reach_init) (simp add: session_mounted_def)
  moreover have "(1, Load_Replica) \<in> set (rs_runs (run_begin Discard_Replica ?s))"
    by (simp add: run_begin_def session_reset_def session_opened_def Let_def)
  then have "replica_session_step\<^sup>*\<^sup>* (run_begin Discard_Replica ?s) ?t" by (intro r_into_rtranclp resolved)
  moreover have "rs_generation ?t = rs_generation (run_begin Discard_Replica ?s)"
    by (simp add: run_resolved_def Let_def)
  ultimately show ?thesis by (intro signed_out_shows_nothing [of ?s "run_begin Discard_Replica ?s" ?t]) simp_all
qed

theorem session_loading_ends_witness:
  "\<exists>a. (1, a) \<in> set (rs_runs (run_begin Load_Replica session_opened))"
proof -
  let ?s = "run_begin Load_Replica session_opened"
  have "reach session_mounted replica_session_step ?s" by (rule reach_init) (simp add: session_mounted_def)
  moreover have s: "rs_mounted ?s" "rs_loading ?s" "rs_generation ?s = 1" "rs_pauses ?s = []"
    by (simp_all add: run_begin_def session_reset_def session_opened_def Let_def)
  ultimately show ?thesis using session_loading_ends [of ?s] by auto
qed

section \<open>Arrivals\<close>

text \<open>A command's result is expected on the device: \<open>arrived\<close> says when it is there.\<close>

record expectation =
  ex_arrived :: "int \<Rightarrow> bool"
  ex_started :: int

datatype arrival = Arriving | Late

definition arrival_timeout_ms :: int where "arrival_timeout_ms = 15000"
definition arrival_forget_ms :: int where "arrival_forget_ms = 120000"

definition arrival_state :: "expectation option \<Rightarrow> int \<Rightarrow> int \<Rightarrow> arrival option" where
  "arrival_state e current now =
    (case e of
       None \<Rightarrow> None
     | Some x \<Rightarrow>
         if ex_arrived x current then None
         else let waited = now - ex_started x
              in if waited < arrival_timeout_ms then Some Arriving else if waited < arrival_forget_ms then Some Late else None)"

definition expect_arrival :: "string \<Rightarrow> (int \<Rightarrow> bool) \<Rightarrow> int \<Rightarrow> (string \<Rightarrow> expectation option) \<Rightarrow> (string \<Rightarrow> expectation option)" where
  "expect_arrival key arrived now es = es(key \<mapsto> \<lparr>ex_arrived = arrived, ex_started = now\<rparr>)"

text \<open>\<open>useArrival\<close>: the state shown at \<open>now\<close>, and the expectations after its effect.\<close>

definition use_arrival :: "string option \<Rightarrow> int \<Rightarrow> int \<Rightarrow> (string \<Rightarrow> expectation option) \<Rightarrow> arrival option \<times> (string \<Rightarrow> expectation option)" where
  "use_arrival key current now es =
    (let state = arrival_state (Option.bind key es) current now
     in (state, case key of Some k \<Rightarrow> if state = None then es(k := None) else es | None \<Rightarrow> es))"

text \<open>A notice of a result that never comes turns late and then goes away for good.\<close>

lemma arrival_forgotten:
  assumes "ex_started x + arrival_forget_ms \<le> now"
  shows "use_arrival (Some k) current now (es(k \<mapsto> x)) = (None, es(k := None))"
  using assms by (simp add: use_arrival_def arrival_state_def Let_def arrival_timeout_ms_def arrival_forget_ms_def)

lemma arrival_only_later:
  assumes "arrival_state (Some x) current now = None" "\<not> ex_arrived x current'" "now \<le> later"
    and "\<not> ex_arrived x current"
  shows "arrival_state (Some x) current' later = None"
  using assms by (auto simp: arrival_state_def Let_def arrival_timeout_ms_def arrival_forget_ms_def split: if_splits)

section \<open>The outbox and the one notice\<close>

datatype sync_problem = Storage_Problem | Full_Problem | Upload_Problem | Download_Problem

definition sync_problem_of :: "bool \<Rightarrow> bool \<Rightarrow> bool \<Rightarrow> bool \<Rightarrow> sync_problem option" where
  "sync_problem_of storage_failed upload_failed download_failed storage_full =
    (if storage_failed then Some Storage_Problem else if storage_full then Some Full_Problem
     else if upload_failed then Some Upload_Problem else if download_failed then Some Download_Problem else None)"

text \<open>The totals of \<open>readOutbox\<close>: how many changes wait, how many of them were accepted or refused, and the oldest.\<close>

record outbox_total =
  ot_count :: int
  ot_awaiting :: int
  ot_failed :: int
  ot_oldest :: "int option" \<comment> \<open>\<open>Date.parse(total.oldest)\<close>\<close>

record sync_view =
  sv_pending :: int
  sv_awaiting :: int
  sv_known :: bool
  sv_queue_failed :: bool
  sv_outbox_failed :: bool
  sv_rejected :: int
  sv_now :: int
  sv_since :: "int option"

definition sync_view_reset :: "sync_view \<Rightarrow> sync_view" where
  "sync_view_reset v = v\<lparr>sv_known := False, sv_queue_failed := False, sv_outbox_failed := False, sv_pending := 0\<rparr>"

text \<open>An answer of the queue: what it returns to its caller, and the view if the effect that asked is still live.\<close>

definition outbox_read :: "bool \<Rightarrow> outbox_total option \<Rightarrow> int \<Rightarrow> sync_view \<Rightarrow> int option \<times> sync_view" where
  "outbox_read live answer now v =
    (case answer of
       None \<Rightarrow> (None, if live then v\<lparr>sv_known := False, sv_queue_failed := True\<rparr> else v)
     | Some t \<Rightarrow>
         (Some (ot_count t),
          if live
          then v\<lparr>sv_since := (if ot_count t = 0 then None else Some (case ot_oldest t of None \<Rightarrow> now | Some o' \<Rightarrow> o')),
                 sv_now := now, sv_pending := ot_count t, sv_awaiting := ot_awaiting t,
                 sv_outbox_failed := (0 < ot_failed t), sv_rejected := ot_failed t, sv_known := True, sv_queue_failed := False\<rparr>
          else v))"

text \<open>What PowerSync reports: its connection, the first sync, and the errors of either direction (\<open>Some full\<close>).\<close>

record sync_report =
  sr_online :: bool
  sr_synced :: bool
  sr_stalled :: bool
  sr_download :: "bool option"
  sr_upload :: "bool option"
  sr_last :: "string option"

definition problem_shown :: "sync_report \<Rightarrow> sync_view \<Rightarrow> sync_problem option" where
  "problem_shown r v = sync_problem_of (sv_queue_failed v) (sv_outbox_failed v \<or> sr_upload r \<noteq> None)
     (sr_synced r \<and> sr_download r \<noteq> None) (sr_download r = Some True \<or> sr_upload r = Some True)"

definition first_sync_failed :: "sync_report \<Rightarrow> bool" where
  "first_sync_failed r \<longleftrightarrow> \<not> sr_synced r \<and> (sr_stalled r \<or> sr_download r \<noteq> None)"

datatype sync_notice =
    Problem_Notice sync_problem
  | First_Sync_Notice
  | Offline_Notice int "string option"
  | Awaiting_Notice
  | Uploading_Notice int

definition upload_notice_after_ms :: int where "upload_notice_after_ms = 15000"

definition sync_notice_of :: "sync_report \<Rightarrow> sync_view \<Rightarrow> sync_notice option" where
  "sync_notice_of r v =
    (case problem_shown r v of
       Some p \<Rightarrow> Some (Problem_Notice p)
     | None \<Rightarrow>
         if \<not> sr_synced r \<and> first_sync_failed r then Some First_Sync_Notice
         else if \<not> sr_online r \<and> sr_synced r then Some (Offline_Notice (sv_pending v - sv_awaiting v) (sr_last r))
         else case sv_since v of
                Some t \<Rightarrow>
                  if sr_online r \<and> sv_pending v > 0 \<and> sv_now v - t \<ge> upload_notice_after_ms
                  then Some (if sv_awaiting v > 0 then Awaiting_Notice else Uploading_Notice (sv_pending v)) else None
              | None \<Rightarrow> None)"

definition notice_retries :: "sync_notice \<Rightarrow> bool" where
  "notice_retries n \<longleftrightarrow> n = Problem_Notice Download_Problem \<or> n = First_Sync_Notice"

text \<open>
  No refused or unreadable change goes unnoticed: without a notice the last answer of the queue was read and held no
  refused change, and what it held was younger than fifteen seconds, or the device never synced.
\<close>

lemma no_notice_is_quiet:
  assumes "sync_notice_of r (snd (outbox_read True answer now v)) = None"
  shows "\<exists>t. answer = Some t \<and> ot_failed t \<le> 0
    \<and> (sr_online r \<longrightarrow> ot_count t \<le> 0 \<or> (\<exists>o'. ot_oldest t = Some o' \<and> now - o' < upload_notice_after_ms) \<or> ot_oldest t = None)
    \<and> (\<not> sr_online r \<longrightarrow> \<not> sr_synced r)"
  using assms
  by (cases answer)
    (auto simp: outbox_read_def sync_notice_of_def problem_shown_def sync_problem_of_def first_sync_failed_def
      split: option.splits if_splits)

end
