(* ===== verification/View_Hooks.thy ===== *)
theory View_Hooks
  imports Zones Attempts
begin

text \<open>
  What every screen builds on (\<open>packages/app-core/src/hooks.ts\<close>): figures fetched from the server (\<open>useRemote\<close>),
  the one load state of a screen (\<open>useLoad\<close>), edits over a record that is synced meanwhile (\<open>useSyncedDraft\<close>),
  repeating rows (\<open>useDraftList\<close>, \<open>typedRows\<close>) and the state of a date picker (\<open>useMonthGrid\<close>).
\<close>

section \<open>Figures from the server\<close>

text \<open>
  A request is known by its number, the generation it started with, and the key it was made for (\<open>load\<close> is the one of the
  last render); an answer is kept with that key. \<open>rm_key\<close> is the key of the last render, \<open>rm_ran\<close> the one the effect last
  ran for: between a render with another key and its effect the screen is up, answers may come in and a retry may be
  asked for. React runs the effects of a render before it renders again.
\<close>

record 'a remote =
  rm_key :: string
  rm_ran :: "string option"
  rm_data :: "(string \<times> 'a) option"
  rm_error :: "string option"
  rm_loading :: bool
  rm_generation :: nat
  rm_pending :: "(nat \<times> string) list"
  rm_mounted :: bool

definition remote_refresh :: "'a remote \<Rightarrow> 'a remote" where
  "remote_refresh s = s\<lparr>rm_generation := rm_generation s + 1, rm_loading := True, rm_error := None,
     rm_pending := (rm_generation s + 1, rm_key s) # rm_pending s\<rparr>"

definition remote_cleanup :: "'a remote \<Rightarrow> 'a remote" where
  "remote_cleanup s = s\<lparr>rm_generation := rm_generation s + 1\<rparr>"

definition remote_first :: "string \<Rightarrow> 'a remote" where
  "remote_first key = \<lparr>rm_key = key, rm_ran = None, rm_data = None, rm_error = None, rm_loading = True,
     rm_generation = 0, rm_pending = [], rm_mounted = True\<rparr>"

definition remote_render :: "string \<Rightarrow> 'a remote \<Rightarrow> 'a remote" where
  "remote_render key s = s\<lparr>rm_key := key\<rparr>"

text \<open>The effect runs when the key is not the one it last ran for, after the clean-up of that run.\<close>

definition remote_effect :: "'a remote \<Rightarrow> 'a remote" where
  "remote_effect s =
    (if rm_ran s = Some (rm_key s) then s
     else let s1 = (if rm_ran s = None then s else remote_cleanup s)
          in remote_refresh (s1\<lparr>rm_ran := Some (rm_key s), rm_data := None\<rparr>))"

definition remote_unmount :: "'a remote \<Rightarrow> 'a remote" where
  "remote_unmount s = (remote_cleanup s)\<lparr>rm_mounted := False\<rparr>"

definition remote_answer :: "nat \<Rightarrow> string \<Rightarrow> string + 'a \<Rightarrow> 'a remote \<Rightarrow> 'a remote" where
  "remote_answer g key answer s =
    (let s1 = s\<lparr>rm_pending := remove1 (g, key) (rm_pending s)\<rparr>
     in if g \<noteq> rm_generation s then s1
        else (case answer of
                Inr x \<Rightarrow> s1\<lparr>rm_data := Some (key, x), rm_loading := False\<rparr>
              | Inl e \<Rightarrow> s1\<lparr>rm_error := Some e, rm_loading := False\<rparr>))"

inductive remote_step :: "'a remote \<Rightarrow> 'a remote \<Rightarrow> bool" where
  refreshed: "remote_step s (remote_refresh s)"
| rendered: "rm_mounted s \<Longrightarrow> rm_ran s = Some (rm_key s) \<Longrightarrow> remote_step s (remote_render key s)"
| effect_run: "rm_mounted s \<Longrightarrow> remote_step s (remote_effect s)"
| unmounted: "remote_step s (remote_unmount s)"
| answered: "(g, key) \<in> set (rm_pending s) \<Longrightarrow> remote_step s (remote_answer g key answer s)"

definition remote_initial :: "'a remote \<Rightarrow> bool" where
  "remote_initial s \<longleftrightarrow> (\<exists>key. s = remote_first key)"

definition remote_inv :: "'a remote \<Rightarrow> bool" where
  "remote_inv s \<longleftrightarrow> (\<forall>(g, key)\<in>set (rm_pending s). g \<le> rm_generation s \<and> (g = rm_generation s \<longrightarrow> Some key = rm_ran s \<or> key = rm_key s))
    \<and> (\<forall>d. rm_data s = Some d \<longrightarrow> Some (fst d) = rm_ran s \<or> fst d = rm_key s)
    \<and> (rm_mounted s \<and> rm_loading s \<and> rm_ran s \<noteq> None \<longrightarrow> (\<exists>key. (rm_generation s, key) \<in> set (rm_pending s)))"

lemma remote_invI:
  assumes "\<And>g key. (g, key) \<in> set (rm_pending s) \<Longrightarrow> g < rm_generation s \<or> g = rm_generation s \<and> (Some key = rm_ran s \<or> key = rm_key s)"
    and "\<And>key x. rm_data s = Some (key, x) \<Longrightarrow> Some key = rm_ran s \<or> key = rm_key s"
    and "rm_mounted s \<Longrightarrow> rm_loading s \<Longrightarrow> rm_ran s \<noteq> None \<Longrightarrow> \<exists>key. (rm_generation s, key) \<in> set (rm_pending s)"
  shows "remote_inv s"
  using assms unfolding remote_inv_def by fastforce

lemma remote_invD:
  assumes "remote_inv s"
  shows "(g, key) \<in> set (rm_pending s) \<Longrightarrow> g < rm_generation s \<or> g = rm_generation s \<and> (Some key = rm_ran s \<or> key = rm_key s)"
    "rm_data s = Some (key, x) \<Longrightarrow> Some key = rm_ran s \<or> key = rm_key s"
    "rm_mounted s \<Longrightarrow> rm_loading s \<Longrightarrow> rm_ran s \<noteq> None \<Longrightarrow> \<exists>key. (rm_generation s, key) \<in> set (rm_pending s)"
  using assms unfolding remote_inv_def by fastforce+

lemma remote_inv_refresh: "remote_inv s \<Longrightarrow> remote_inv (remote_refresh s)"
  by (rule remote_invI) (auto simp: remote_refresh_def dest: remote_invD(1,2))

lemma remote_inv_effect: "remote_inv s \<Longrightarrow> remote_inv (remote_effect s)"
  by (rule remote_invI) (auto simp: remote_effect_def remote_refresh_def remote_cleanup_def Let_def dest: remote_invD split: if_splits)

lemma remote_inv_render: "remote_inv s \<Longrightarrow> rm_ran s = Some (rm_key s) \<Longrightarrow> remote_inv (remote_render key s)"
  by (rule remote_invI) (auto simp: remote_render_def dest: remote_invD)

lemma remote_inv_answer:
  assumes "remote_inv s" "(g, key) \<in> set (rm_pending s)"
  shows "remote_inv (remote_answer g key answer s)"
proof -
  have "set (remove1 (g, key) (rm_pending s)) \<subseteq> set (rm_pending s)" by (rule set_remove1_subset)
  moreover have "(h, k) \<in> set (remove1 (g, key) (rm_pending s))" if "(h, k) \<in> set (rm_pending s)" "h \<noteq> g" for h k
    using that by simp
  ultimately show ?thesis
    using assms unfolding remote_inv_def remote_answer_def Let_def by (auto split: sum.splits)
qed

interpretation remote: inductive_invariant remote_initial remote_step remote_inv
proof
  fix s :: "'a remote" assume "remote_initial s"
  then show "remote_inv s" by (auto simp: remote_initial_def remote_inv_def remote_first_def)
next
  fix s t :: "'a remote" assume "remote_inv s" "remote_step s t"
  then show "remote_inv t"
    by (auto elim!: remote_step.cases intro: remote_inv_refresh remote_inv_effect remote_inv_render remote_inv_answer)
      (auto simp: remote_inv_def remote_unmount_def remote_cleanup_def)
qed

text \<open>C12: whatever requests overlap, retries and late answers come in: once the effect of a render has run, the figure on
  the screen is the answer to a request made for the key on the screen, no answer to a request made for another key
  changes the screen any more, and while it is loading a request for that key is under way whose answer will end the
  loading. Only in the commit before its effect may a render with a new key show the figure of the key before it;
  the effect takes that figure away.\<close>

theorem remote_shows_its_key:
  assumes "reach remote_initial remote_step s"
  shows "(rm_ran s = Some (rm_key s) \<longrightarrow>
        (\<forall>key x. rm_data s = Some (key, x) \<longrightarrow> key = rm_key s)
      \<and> (\<forall>g key answer. (g, key) \<in> set (rm_pending s) \<and> key \<noteq> rm_key s \<longrightarrow>
          remote_answer g key answer s = s\<lparr>rm_pending := remove1 (g, key) (rm_pending s)\<rparr>)
      \<and> (rm_mounted s \<and> rm_loading s \<longrightarrow> (rm_generation s, rm_key s) \<in> set (rm_pending s)
          \<and> (\<forall>answer. \<not> rm_loading (remote_answer (rm_generation s) (rm_key s) answer s))))
    \<and> (rm_ran s \<noteq> Some (rm_key s) \<longrightarrow>
        (\<forall>key x. rm_data s = Some (key, x) \<longrightarrow> key = rm_key s \<or> Some key = rm_ran s)
      \<and> rm_data (remote_effect s) = None \<and> rm_loading (remote_effect s) \<and> rm_ran (remote_effect s) = Some (rm_key s))"
proof (intro conjI impI allI)
  note inv = remote.reach_inv [OF assms, unfolded remote_inv_def]
  show "remote_answer g key answer s = s\<lparr>rm_pending := remove1 (g, key) (rm_pending s)\<rparr>"
    if "rm_ran s = Some (rm_key s)" "(g, key) \<in> set (rm_pending s) \<and> key \<noteq> rm_key s" for g key answer
    using inv that by (auto simp: remote_answer_def Let_def)
  show "\<not> rm_loading (remote_answer (rm_generation s) (rm_key s) answer s)" for answer
    by (simp add: remote_answer_def Let_def split: sum.split)
  show "rm_loading (remote_effect s)" "rm_ran (remote_effect s) = Some (rm_key s)" "rm_data (remote_effect s) = None"
    if "rm_ran s \<noteq> Some (rm_key s)"
    using that by (auto simp: remote_effect_def remote_refresh_def remote_cleanup_def Let_def)
qed (use remote.reach_inv [OF assms, unfolded remote_inv_def] in \<open>fastforce+\<close>)

lemma late_commit_shows_old_figure:
  "rm_data s = Some (key, x) \<Longrightarrow> rm_data (remote_render key' s) = Some (key, x) \<and> rm_key (remote_render key' s) = key'"
  by (simp add: remote_render_def)

definition demo_remote :: "int remote" where
  "demo_remote = remote_effect (remote_render ''b'' (remote_effect (remote_first ''a'')))"

theorem remote_shows_its_key_witness:
  "rm_data (remote_answer 1 ''a'' (Inr 5) demo_remote) = None \<and> (3, ''b'') \<in> set (rm_pending demo_remote)"
proof -
  let ?a = "remote_effect (remote_first ''a'') :: int remote"
  note defs = remote_effect_def remote_refresh_def remote_cleanup_def remote_render_def remote_first_def Let_def
  have "reach remote_initial remote_step ?a"
    by (rule reach_step [where s = "remote_first ''a''"], rule reach_init, simp add: remote_initial_def, metis)
      (rule effect_run, simp add: remote_first_def)
  then have "reach remote_initial remote_step (remote_render ''b'' ?a)"
    by (rule reach_step) (rule rendered, simp_all add: defs)
  then have "reach remote_initial remote_step demo_remote"
    unfolding demo_remote_def by (rule reach_step) (rule effect_run, simp add: defs)
  from remote_shows_its_key [OF this] have shown: "rm_ran demo_remote = Some (rm_key demo_remote) \<Longrightarrow> (1, ''a'') \<in> set (rm_pending demo_remote)
      \<Longrightarrow> ''a'' \<noteq> rm_key demo_remote \<Longrightarrow> rm_data (remote_answer 1 ''a'' (Inr 5) demo_remote) = rm_data demo_remote" by auto
  have "rm_ran demo_remote = Some (rm_key demo_remote)" "(1, ''a'') \<in> set (rm_pending demo_remote)"
    "''a'' \<noteq> rm_key demo_remote" "rm_data demo_remote = None" "(3, ''b'') \<in> set (rm_pending demo_remote)"
    by (simp_all add: demo_remote_def defs)
  with shown show ?thesis by simp
qed

text \<open>\<open>useLoad\<close>: loading until every source answers, error if any failed.\<close>

datatype load_state = Load_Error | Load_Loading | Load_Empty | Load_Ready

record load_source =
  so_loading :: bool
  so_failed :: bool

definition use_load :: "load_source list \<Rightarrow> bool \<Rightarrow> load_state" where
  "use_load sources none =
    (if \<exists>s\<in>set sources. so_failed s then Load_Error else if \<exists>s\<in>set sources. so_loading s then Load_Loading
     else if none then Load_Empty else Load_Ready)"

definition load_has_data :: "load_state \<Rightarrow> bool" where
  "load_has_data s \<longleftrightarrow> s = Load_Ready \<or> s = Load_Empty"

lemma load_has_data_iff: "load_has_data (use_load sources none) \<longleftrightarrow> (\<forall>s\<in>set sources. \<not> so_failed s \<and> \<not> so_loading s)"
  by (auto simp: load_has_data_def use_load_def)

section \<open>Edits over a synced record\<close>

datatype draft_value = Draft_Text string | Draft_Texts "string list"

type_synonym draft_fields = "(string, draft_value) js_map"

text \<open>
  An edit keeps the value it was typed over. What a save answered is kept with the record it was saved over, by
  which the code's \<open>storedKey\<close> stands (\<open>JSON.stringify\<close> tells records of the same fields apart).
\<close>

record synced_draft =
  sd_confirmed :: "(draft_fields option \<times> draft_fields) option"
  sd_draft :: "(string, draft_value \<times> draft_value option) js_map"

definition blank_draft :: synced_draft where
  "blank_draft = \<lparr>sd_confirmed = None, sd_draft = []\<rparr>"

text \<open>A render over another stored record forgets the confirmed one.\<close>

definition draft_render :: "draft_fields option \<Rightarrow> synced_draft \<Rightarrow> synced_draft" where
  "draft_render stored s =
    (case sd_confirmed s of Some (k, _) \<Rightarrow> if k \<noteq> stored then s\<lparr>sd_confirmed := None\<rparr> else s | None \<Rightarrow> s)"

definition draft_base :: "draft_fields option \<Rightarrow> synced_draft \<Rightarrow> draft_fields option" where
  "draft_base stored s = (case sd_confirmed s of Some (k, v) \<Rightarrow> if k = stored then Some v else stored | None \<Rightarrow> stored)"

definition draft_set :: "draft_fields option \<Rightarrow> string \<Rightarrow> draft_value + (draft_value \<Rightarrow> draft_value) \<Rightarrow> synced_draft \<Rightarrow> synced_draft" where
  "draft_set stored key v s =
    (let over = Option.bind (draft_base stored s) (\<lambda>b. map_of b key);
         current = (case map_of (sd_draft s) key of
                      None \<Rightarrow> over | Some (x, o') \<Rightarrow> if o' = Some x then over else Some x);
         next = (case v of Inl x \<Rightarrow> Some x | Inr f \<Rightarrow> map_option f current)
     in case next of None \<Rightarrow> s | Some x \<Rightarrow> s\<lparr>sd_draft := AList.update key (x, over) (sd_draft s)\<rparr>)"

definition draft_settle :: "draft_fields option \<Rightarrow> draft_fields \<Rightarrow> draft_fields option \<Rightarrow> synced_draft \<Rightarrow> synced_draft" where
  "draft_settle stored sent saved s =
    s\<lparr>sd_draft := filter (\<lambda>(key, v, _). map_of sent key \<noteq> Some v) (sd_draft s),
      sd_confirmed := (case saved of Some v \<Rightarrow> Some (stored, v) | None \<Rightarrow> sd_confirmed s)\<rparr>"

definition draft_edits :: "synced_draft \<Rightarrow> draft_fields" where
  "draft_edits s = map (\<lambda>(key, v, _). (key, v)) (filter (\<lambda>(key, v, o'). o' \<noteq> Some v) (sd_draft s))"

definition draft_changes :: "draft_fields option \<Rightarrow> synced_draft \<Rightarrow> draft_fields" where
  "draft_changes stored s = filter
    (\<lambda>(key, v). case draft_base stored s of None \<Rightarrow> True | Some b \<Rightarrow> map_of b key \<noteq> Some v) (draft_edits s)"

definition draft_values :: "draft_fields option \<Rightarrow> synced_draft \<Rightarrow> draft_fields option" where
  "draft_values stored s = map_option (\<lambda>b. foldl (\<lambda>m (k, v). AList.update k v m) b (draft_edits s)) (draft_base stored s)"

inductive draft_step :: "synced_draft \<Rightarrow> synced_draft \<Rightarrow> bool" where
  rendered: "draft_step s (draft_render stored s)"
| edited: "draft_step s (draft_set stored key v s)"
| settled: "draft_step s (draft_settle stored sent saved s)"

definition draft_ok :: "synced_draft \<Rightarrow> bool" where
  "draft_ok s \<longleftrightarrow> distinct (map fst (sd_draft s))"

interpretation draft: inductive_invariant "\<lambda>s. s = blank_draft" draft_step draft_ok
proof
  fix s t assume ok: "draft_ok s" and step: "draft_step s t"
  from step show "draft_ok t"
    by cases (use ok in \<open>auto simp: draft_ok_def draft_render_def draft_set_def draft_settle_def Let_def distinct_update
      distinct_map_filter split: option.splits\<close>)
qed (simp add: draft_ok_def blank_draft_def)

lemma map_of_updates: "map_of (foldl (\<lambda>m (k, v). AList.update k v m) b es) k
    = (case map_of (rev es) k of Some v \<Rightarrow> Some v | None \<Rightarrow> map_of b k)"
  by (induction es rule: rev_induct) (auto simp: update_conv split: option.splits)

lemma map_of_rev_distinct: "distinct (map fst xs) \<Longrightarrow> map_of (rev xs) = map_of xs"
  by (rule map_of_eqI) (auto simp: rev_map [symmetric])

lemma map_of_edits:
  assumes "distinct (map fst d)"
  shows "map_of (map (\<lambda>(key, v, _). (key, v)) (filter P d)) k
    = (case map_of d k of Some (v, o') \<Rightarrow> if P (k, v, o') then Some v else None | None \<Rightarrow> None)"
  using assms
proof (induction d)
  case (Cons e d)
  then have "map_of d (fst e) = None" by (simp add: map_of_eq_None_iff)
  with Cons show ?case by (cases e) (auto split: option.splits)
qed simp

lemma distinct_edits: "distinct (map fst d) \<Longrightarrow> distinct (map fst (map (\<lambda>(key, v, _). (key, v)) (filter P d)))"
  by (induction d) (force simp: image_iff)+

text \<open>A save loses no edit. When a save answers, every field whose edit the save did not carry (typed while it was
  under way, or left out) keeps that edit, and every other field shows what the save answered, until the replica
  moves on; a field that nobody edited follows the replica then.\<close>

theorem settle_keeps_other_edits:
  assumes "reach (\<lambda>s. s = blank_draft) draft_step s"
  shows "map_option (\<lambda>values. map_of values k) (draft_values stored (draft_settle stored sent (Some saved) s))
    = Some (case map_of (draft_edits s) k of
              None \<Rightarrow> map_of saved k | Some v \<Rightarrow> if map_of sent k = Some v then map_of saved k else Some v)"
proof -
  have d: "distinct (map fst (sd_draft s))" using draft.reach_inv [OF assms] by (simp add: draft_ok_def)
  let ?t = "draft_settle stored sent (Some saved) s"
  have base: "draft_base stored ?t = Some saved" by (simp add: draft_base_def draft_settle_def)
  have edits: "draft_edits ?t = map (\<lambda>(key, v, _). (key, v))
      (filter (\<lambda>(key, v, o'). o' \<noteq> Some v \<and> map_of sent key \<noteq> Some v) (sd_draft s))"
    unfolding draft_edits_def draft_settle_def by (simp add: filter_filter) (intro arg_cong [where f = "map _"] filter_cong refl, auto)
  have rev: "map_of (rev (draft_edits ?t)) k = map_of (draft_edits ?t) k"
    using map_of_rev_distinct [OF distinct_edits [OF d]] by (simp add: edits)
  have later: "map_of (draft_edits ?t) k = (case map_of (sd_draft s) k of
      Some (v, o') \<Rightarrow> if o' \<noteq> Some v \<and> map_of sent k \<noteq> Some v then Some v else None | None \<Rightarrow> None)"
    unfolding edits by (simp add: map_of_edits [OF d] cong: option.case_cong split: option.splits)
  have before: "map_of (draft_edits s) k = (case map_of (sd_draft s) k of
      Some (v, o') \<Rightarrow> if o' \<noteq> Some v then Some v else None | None \<Rightarrow> None)"
    unfolding draft_edits_def by (simp add: map_of_edits [OF d] split: option.splits)
  show ?thesis
    by (simp add: draft_values_def base map_of_updates rev) (simp add: later before split: option.splits)
qed

text \<open>
  A value typed back, while a save is under way, to what the field held when the save began counts as no edit: the
  save's answer replaces what was typed last.
\<close>

lemma typed_back_during_save_is_lost:
  assumes "old \<noteq> typed" "stored = Some [(''name'', old)]"
  defines "s \<equiv> draft_set stored ''name'' (Inl old) (draft_set stored ''name'' (Inl typed) blank_draft)"
  shows "draft_values stored s = Some [(''name'', old)]"
    and "draft_values stored (draft_settle stored [(''name'', typed)] (Some [(''name'', typed)]) s) = Some [(''name'', typed)]"
  using assms
  by (simp_all add: draft_set_def draft_settle_def draft_values_def draft_base_def draft_edits_def blank_draft_def Let_def)

theorem settle_keeps_other_edits_witness:
  "map_option (\<lambda>values. map_of values ''b'') (draft_values None (draft_settle None [(''a'', Draft_Text ''x'')]
     (Some [(''a'', Draft_Text ''x''), (''b'', Draft_Text [])]) (draft_set (Some []) ''b'' (Inl (Draft_Text ''y'')) blank_draft)))
   = Some (Some (Draft_Text ''y''))"
proof -
  let ?s = "draft_set (Some []) ''b'' (Inl (Draft_Text ''y'')) blank_draft"
  have "reach (\<lambda>s. s = blank_draft) draft_step ?s"
    by (rule reach_step, rule reach_init, rule refl, rule edited)
  then show ?thesis
    by (subst settle_keeps_other_edits) (simp_all add: draft_set_def draft_edits_def draft_base_def blank_draft_def)
qed

section \<open>Repeating rows\<close>

type_synonym draft_row = "(string, string) js_map"

definition draft_rows :: "draft_row list option \<Rightarrow> draft_row list option \<Rightarrow> draft_row list option" where
  "draft_rows stored edited = (case stored of None \<Rightarrow> None | Some rows \<Rightarrow> (case edited of Some e \<Rightarrow> Some e | None \<Rightarrow> Some rows))"

definition row_add :: "string list \<Rightarrow> nat \<Rightarrow> draft_row list option \<Rightarrow> draft_row list option \<Rightarrow> draft_row list option" where
  "row_add keys mx stored edited =
    (case draft_rows stored edited of
       None \<Rightarrow> edited | Some rows \<Rightarrow> if mx \<le> length rows then edited else Some (rows @ [map (\<lambda>k. (k, [])) keys]))"

definition row_set :: "nat \<Rightarrow> string \<Rightarrow> string \<Rightarrow> draft_row list option \<Rightarrow> draft_row list option \<Rightarrow> draft_row list option" where
  "row_set i key v stored edited =
    (case draft_rows stored edited of
       None \<Rightarrow> edited | Some rows \<Rightarrow> Some (if i < length rows then rows[i := AList.update key v (rows ! i)] else rows))"

definition row_remove :: "nat \<Rightarrow> draft_row list option \<Rightarrow> draft_row list option \<Rightarrow> draft_row list option" where
  "row_remove i stored edited =
    (case draft_rows stored edited of None \<Rightarrow> edited | Some rows \<Rightarrow> Some (take i rows @ drop (Suc i) rows))"

definition row_value :: "draft_row \<Rightarrow> string \<Rightarrow> string" where
  "row_value r k = (case map_of r k of Some v \<Rightarrow> v | None \<Rightarrow> [])"

definition typed_rows :: "string list \<Rightarrow> draft_row list option \<Rightarrow> draft_row list" where
  "typed_rows keys rows =
    filter (\<lambda>r. r \<noteq> [])
      (map (\<lambda>r. filter (\<lambda>(k, v). v \<noteq> []) (map (\<lambda>k. (k, js_trim (row_value r k))) keys))
        (case rows of Some rs \<Rightarrow> rs | None \<Rightarrow> []))"

lemma rows_within_max:
  "draft_rows stored edited = Some rows \<Longrightarrow> length rows \<le> mx \<Longrightarrow> draft_rows stored (row_add keys mx stored edited) = Some rows'
    \<Longrightarrow> length rows' \<le> mx"
  by (auto simp: row_add_def draft_rows_def split: option.splits if_splits)

lemma typed_rows_filled: "r \<in> set (typed_rows keys rows) \<Longrightarrow> (k, v) \<in> set r \<Longrightarrow> v \<noteq> [] \<and> k \<in> set keys"
  by (auto simp: typed_rows_def)

section \<open>A date picker\<close>

datatype day_move = By_Day | By_Week | By_Month | By_Year | Week_Edge

record month_picker =
  mp_active :: string
  mp_years :: bool \<comment> \<open>the view of the years\<close>

definition bound_set :: "string option \<Rightarrow> string option" where
  "bound_set b = (case b of Some (c # cs) \<Rightarrow> Some (c # cs) | _ \<Rightarrow> None)"

definition picker_start :: "offsets \<Rightarrow> string \<Rightarrow> string \<Rightarrow> string option \<Rightarrow> string option \<Rightarrow> int \<Rightarrow> string" where
  "picker_start off key zone mn mx now =
    (let today = date_key off now zone; from = (if parse_date_key off key zone \<noteq> None then key else today)
     in case bound_set mn of
          Some a \<Rightarrow> if from < a then a else (case bound_set mx of Some b \<Rightarrow> if from > b then b else from | None \<Rightarrow> from)
        | None \<Rightarrow> (case bound_set mx of Some b \<Rightarrow> if from > b then b else from | None \<Rightarrow> from))"

definition picker_reset :: "offsets \<Rightarrow> string \<Rightarrow> string \<Rightarrow> string option \<Rightarrow> string option \<Rightarrow> int \<Rightarrow> month_picker" where
  "picker_reset off key zone mn mx now = \<lparr>mp_active = picker_start off key zone mn mx now, mp_years = False\<rparr>"

definition readable :: "offsets \<Rightarrow> string \<Rightarrow> string option \<Rightarrow> string option" where
  "readable off zone b = (case b of Some k \<Rightarrow> if parse_date_key off k zone \<noteq> None then Some k else None | None \<Rightarrow> None)"

definition set_active :: "offsets \<Rightarrow> string \<Rightarrow> string option \<Rightarrow> string option \<Rightarrow> string \<Rightarrow> month_picker \<Rightarrow> month_picker" where
  "set_active off zone mn mx key p =
    (if parse_date_key off key zone = None then p
     else case readable off zone mn of
            Some a \<Rightarrow> if key < a then p\<lparr>mp_active := a\<rparr>
              else (case readable off zone mx of Some b \<Rightarrow> p\<lparr>mp_active := (if key > b then b else key)\<rparr> | None \<Rightarrow> p\<lparr>mp_active := key\<rparr>)
          | None \<Rightarrow> (case readable off zone mx of Some b \<Rightarrow> p\<lparr>mp_active := (if key > b then b else key)\<rparr> | None \<Rightarrow> p\<lparr>mp_active := key\<rparr>))"

definition picker_day :: "offsets \<Rightarrow> string \<Rightarrow> int \<Rightarrow> month_picker \<Rightarrow> int" where
  "picker_day off zone now p = (case parse_date_key off (mp_active p) zone of Some d \<Rightarrow> d | None \<Rightarrow> now)"

definition picker_move :: "offsets \<Rightarrow> string \<Rightarrow> string option \<Rightarrow> string option \<Rightarrow> int \<Rightarrow> day_move \<Rightarrow> int \<Rightarrow> month_picker \<Rightarrow> month_picker" where
  "picker_move off zone mn mx now by dir p =
    (let day = picker_day off zone now p;
         next = (case by of By_Day \<Rightarrow> add_days off day dir zone | By_Week \<Rightarrow> add_days off day (dir * 7) zone
                 | By_Month \<Rightarrow> add_months off day dir zone | By_Year \<Rightarrow> add_months off day (dir * 12) zone
                 | Week_Edge \<Rightarrow> add_days off (start_of_week off day zone) (if dir = 1 then 6 else 0) zone)
     in set_active off zone mn mx (date_key off next zone) p)"

definition pick_year :: "offsets \<Rightarrow> string \<Rightarrow> string option \<Rightarrow> string option \<Rightarrow> int \<Rightarrow> int \<Rightarrow> month_picker \<Rightarrow> month_picker" where
  "pick_year off zone mn mx now year p =
    (let day = picker_day off zone now p
     in (set_active off zone mn mx (date_key off (add_months off day ((year - year_of off day zone) * 12) zone) zone) p)\<lparr>mp_years := False\<rparr>)"

definition picker_can_prev :: "offsets \<Rightarrow> string \<Rightarrow> string option \<Rightarrow> int \<Rightarrow> month_picker \<Rightarrow> bool" where
  "picker_can_prev off zone mn now p =
    (case bound_set mn of None \<Rightarrow> True | Some a \<Rightarrow> a < date_key off (start_of_month off (picker_day off zone now p) zone) zone)"

definition picker_can_next :: "offsets \<Rightarrow> string \<Rightarrow> string option \<Rightarrow> int \<Rightarrow> month_picker \<Rightarrow> bool" where
  "picker_can_next off zone mx now p =
    (case bound_set mx of
       None \<Rightarrow> True
     | Some b \<Rightarrow> b > date_key off (add_days off (add_months off (start_of_month off (picker_day off zone now p) zone) 1 zone) (- 1) zone) zone)"

definition picker_years :: "offsets \<Rightarrow> string \<Rightarrow> string option \<Rightarrow> string option \<Rightarrow> int \<Rightarrow> int list" where
  "picker_years off zone mn mx now =
    (let this = year_of off now zone; day = (\<lambda>b. Option.bind b (\<lambda>k. parse_date_key off k zone));
         first = (case day mn of None \<Rightarrow> this - 100 | Some d \<Rightarrow> year_of off d zone);
         last = (case day mx of None \<Rightarrow> this + 10 | Some d \<Rightarrow> year_of off d zone)
     in [first..last])"

inductive picker_step :: "offsets \<Rightarrow> string \<Rightarrow> string option \<Rightarrow> string option \<Rightarrow> month_picker \<Rightarrow> month_picker \<Rightarrow> bool"
  for off zone mn mx where
  "picker_step off zone mn mx p (set_active off zone mn mx key p)"
| "picker_step off zone mn mx p (picker_move off zone mn mx now by dir p)"
| "picker_step off zone mn mx p (pick_year off zone mn mx now year p)"
| "picker_step off zone mn mx p (p\<lparr>mp_years := v\<rparr>)"
| "picker_step off zone mn mx p (picker_reset off key zone mn mx now)"

text \<open>Bounds that are read as days, or are not given.\<close>

definition picker_bounds :: "offsets \<Rightarrow> string \<Rightarrow> string option \<Rightarrow> string option \<Rightarrow> bool" where
  "picker_bounds off zone mn mx \<longleftrightarrow> readable off zone mn = bound_set mn \<and> readable off zone mx = bound_set mx
    \<and> (\<forall>a b. bound_set mn = Some a \<and> bound_set mx = Some b \<longrightarrow> a \<le> b)"

definition picker_ok :: "string option \<Rightarrow> string option \<Rightarrow> month_picker \<Rightarrow> bool" where
  "picker_ok mn mx p \<longleftrightarrow> (\<forall>a. bound_set mn = Some a \<longrightarrow> a \<le> mp_active p) \<and> (\<forall>b. bound_set mx = Some b \<longrightarrow> mp_active p \<le> b)"

lemma set_active_ok: "picker_bounds off zone mn mx \<Longrightarrow> picker_ok mn mx p \<Longrightarrow> picker_ok mn mx (set_active off zone mn mx key p)"
  by (auto simp: picker_bounds_def picker_ok_def set_active_def split: option.splits)

lemma picker_reset_ok: "picker_bounds off zone mn mx \<Longrightarrow> picker_ok mn mx (picker_reset off key zone mn mx now)"
  by (auto simp: picker_bounds_def picker_ok_def picker_reset_def picker_start_def Let_def split: option.splits)

text \<open>The day under the keyboard focus stays within the bounds, wherever it is moved.\<close>

lemma picker_stays_in_bounds:
  assumes "reach (\<lambda>p. \<exists>key now. p = picker_reset off key zone mn mx now) (picker_step off zone mn mx) p" "picker_bounds off zone mn mx"
  shows "picker_ok mn mx p"
  using assms(1)
proof induction
  case (reach_step p q)
  from reach_step(2) show ?case
    by cases (use reach_step(3) assms(2) set_active_ok picker_reset_ok in
      \<open>auto simp: picker_move_def pick_year_def picker_ok_def Let_def\<close>)
qed (use picker_reset_ok [OF assms(2)] in auto)

end
