(* ===== verification/Refunds.thy ===== *)
theory Refunds
  imports View_Hooks Amounts Timestamps
begin

text \<open>
  Refunds (\<open>app-core/src/domain/refunds.ts\<close>): what of a payment is left to refund, composing a refund with the
  server's preview of it (\<open>useRefundComposer\<close>), the credit notes of a month and the disputes. The server's answers
  are arguments; captions are keys of the string catalogue, and how amounts print is left out.
\<close>

section \<open>Payments\<close>

record subject_fields =
  sf_invoice :: "int option"
  sf_order :: "int option"
  sf_gift :: "string option"
  sf_package :: "string option"
  sf_booking :: "string option"

datatype payment_subject = Invoice_Subject int | Sale_Subject int | Gift_Subject string | Package_Subject string | Deposit_Subject | Payment_Subject

definition payment_subject :: "'a subject_fields_scheme \<Rightarrow> payment_subject" where
  "payment_subject p =
    (case sf_invoice p of Some n \<Rightarrow> Invoice_Subject n | None \<Rightarrow>
     case sf_order p of Some n \<Rightarrow> Sale_Subject n | None \<Rightarrow>
     case sf_gift p of Some c \<Rightarrow> Gift_Subject c | None \<Rightarrow>
     case sf_package p of Some n \<Rightarrow> Package_Subject n | None \<Rightarrow>
     case sf_booking p of Some _ \<Rightarrow> Deposit_Subject | None \<Rightarrow> Payment_Subject)"

record refundable = subject_fields +
  rf_id :: string
  rf_client :: "string option"
  rf_method :: string
  rf_amount :: int
  rf_refunded :: int
  rf_fee :: int
  rf_paid_at :: "string option"
  rf_created_at :: string

datatype refund_state = Paid | Partly_Refunded | Refunded

definition refund_state :: "refundable \<Rightarrow> refund_state" where
  "refund_state p = (if rf_refunded p \<le> 0 then Paid else if rf_refunded p \<ge> rf_amount p then Refunded else Partly_Refunded)"

datatype intent = Neutral | Warning | Success | Danger

definition refund_state_intent :: "refund_state \<Rightarrow> intent" where
  "refund_state_intent s = (case s of Refunded \<Rightarrow> Neutral | Partly_Refunded \<Rightarrow> Warning | Paid \<Rightarrow> Success)"

record refund_summary =
  su_payment :: refundable
  su_subject :: payment_subject
  su_when :: "int option"
  su_state :: refund_state
  su_left :: int

definition summarize :: "(string \<Rightarrow> int option) \<Rightarrow> refundable \<Rightarrow> refund_summary" where
  "summarize other p = \<lparr>su_payment = p, su_subject = payment_subject p,
     su_when = parse_timestamp other (case rf_paid_at p of Some t \<Rightarrow> t | None \<Rightarrow> rf_created_at p),
     su_state = refund_state p, su_left = max 0 (rf_amount p - rf_refunded p)\<rparr>"

text \<open>The rows of the desk; \<open>word\<close> prints a subject and \<open>method\<close> a payment method.\<close>

definition refund_rows :: "(payment_subject \<Rightarrow> string) \<Rightarrow> (string \<Rightarrow> string) \<Rightarrow> string \<Rightarrow> refund_summary list \<Rightarrow> refund_summary list" where
  "refund_rows word method q summaries =
    (let t = map lower_char (js_trim q)
     in if t = [] then summaries
        else filter (\<lambda>r. \<exists>v\<in>{case rf_client (su_payment r) of Some c \<Rightarrow> c | None \<Rightarrow> [], word (su_subject r), method (rf_method (su_payment r))}.
               includes_text t (map lower_char v)) summaries)"

lemma left_to_refund:
  "rf_refunded p \<le> rf_amount p \<Longrightarrow> 0 < rf_amount p \<Longrightarrow> 0 \<le> rf_refunded p \<Longrightarrow>
    su_left (summarize other p) = rf_amount p - rf_refunded p
    \<and> (su_left (summarize other p) = 0 \<longleftrightarrow> su_state (summarize other p) = Refunded)"
  by (auto simp: summarize_def refund_state_def)

section \<open>Composing a refund\<close>

datatype refund_mode = Full_Refund | Part_Refund

record refund_part =
  pt_category :: string
  pt_code :: string
  pt_cents :: int

record refund_preview =
  pv_blocked :: "string option"
  pv_whole_only :: bool
  pv_by_hand :: bool
  pv_next_note :: string
  pv_fee :: int
  pv_parts :: "refund_part list"

record refund_body =
  rb_amount :: int
  rb_reason :: string
  rb_notify :: bool

datatype refund_issued = Refund_Done int string | Refund_Pending

record refund_composer =
  rc_mode :: refund_mode
  rc_amount :: string
  rc_reason :: string
  rc_notify :: bool
  rc_issued :: "refund_issued option"
  rc_action :: async_action
  rc_key :: "(string \<times> refund_body) attempt option"

definition blank_refund :: "string \<Rightarrow> refund_composer" where
  "blank_refund reason = \<lparr>rc_mode = Full_Refund, rc_amount = [], rc_reason = reason, rc_notify = True, rc_issued = None,
     rc_action = idle_action, rc_key = None\<rparr>"

definition refund_cents :: "amount_locale \<Rightarrow> refund_summary \<Rightarrow> refund_composer \<Rightarrow> int" where
  "refund_cents lo su s =
    (case rc_mode s of Full_Refund \<Rightarrow> su_left su | Part_Refund \<Rightarrow> (case parse_cents lo (rc_amount s) of Some c \<Rightarrow> c | None \<Rightarrow> 0))"

definition refund_valid :: "amount_locale \<Rightarrow> refund_summary \<Rightarrow> refund_composer \<Rightarrow> bool" where
  "refund_valid lo su s \<longleftrightarrow> 0 < refund_cents lo su s \<and> refund_cents lo su s \<le> su_left su"

text \<open>The query of the preview and the key it is fetched for.\<close>

definition preview_query :: "amount_locale \<Rightarrow> refund_summary \<Rightarrow> refund_composer \<Rightarrow> string" where
  "preview_query lo su s =
    (if rc_mode s = Part_Refund \<and> refund_valid lo su s then ''?amount_cents='' @ int_string (refund_cents lo su s) else [])"

definition preview_key :: "amount_locale \<Rightarrow> refund_summary \<Rightarrow> refund_composer \<Rightarrow> string" where
  "preview_key lo su s = rf_id (su_payment su) @ preview_query lo su s @ int_string (rf_refunded (su_payment su))"

text \<open>The reasons that block a refund, as the catalogue of texts names them. A block with another code has no text, and
  where there is no text nothing is blocked.\<close>

definition refund_blocks :: "string list" where
  "refund_blocks = [''not_succeeded'', ''already_refunded'', ''gift_card_expired'', ''gift_card_redeemed'', ''package_expired'',
     ''package_used'', ''payment_disputed'', ''whole_only'']"

definition refund_blocked :: "refund_preview option \<Rightarrow> string option" where
  "refund_blocked data = Option.bind data (\<lambda>d. Option.bind (pv_blocked d) (\<lambda>b. if b \<in> set refund_blocks then Some b else None))"

definition set_mode :: "refund_mode \<Rightarrow> refund_composer \<Rightarrow> refund_composer" where
  "set_mode m s = s\<lparr>rc_key := None, rc_action := action_set_error None (rc_action s), rc_mode := m\<rparr>"

definition set_amount :: "string \<Rightarrow> refund_composer \<Rightarrow> refund_composer" where
  "set_amount v s = s\<lparr>rc_key := None, rc_amount := v\<rparr>"

definition refund_lines :: "amount_locale \<Rightarrow> refund_summary \<Rightarrow> refund_preview option \<Rightarrow> refund_composer \<Rightarrow> (string \<times> int) list" where
  "refund_lines lo su data s =
    (case data of
       None \<Rightarrow> []
     | Some d \<Rightarrow> if \<not> refund_valid lo su s then []
         else map (\<lambda>p. (pt_category p @ '':'' @ pt_code p, pt_cents p)) (pv_parts d) @ [(''total'', refund_cents lo su s)])"

text \<open>\<open>submit\<close> up to its request: the composer, and the key and body that go out.\<close>

definition refund_begin ::
  "amount_locale \<Rightarrow> string \<Rightarrow> string \<Rightarrow> refund_summary \<Rightarrow> refund_preview option \<Rightarrow> refund_composer \<Rightarrow> refund_composer \<times> (string \<times> refund_body) option" where
  "refund_begin lo fresh amount_error su data s =
    (if \<not> refund_valid lo su s \<or> refund_blocked data \<noteq> None then (s\<lparr>rc_action := action_set_error (Some amount_error) (rc_action s)\<rparr>, None)
     else let body = \<lparr>rb_amount = refund_cents lo su s, rb_reason = rc_reason s, rb_notify = rc_notify s\<rparr>;
              (key, ref) = attempt_key fresh (rc_key s) (rf_id (su_payment su), body); s1 = s\<lparr>rc_key := ref\<rparr>
          in case action_start (rc_action s) of
               None \<Rightarrow> (s1, None) | Some a \<Rightarrow> (s1\<lparr>rc_action := a\<rparr>, Some (key, body)))"

record refund_result =
  rr_status :: string
  rr_note :: "string option"

text \<open>The answer; \<open>cents\<close> and \<open>next_note\<close> are those of the render that submitted.\<close>

definition refund_end :: "string \<Rightarrow> (json \<Rightarrow> string) \<Rightarrow> int \<Rightarrow> string \<Rightarrow> json + refund_result \<Rightarrow> refund_composer \<Rightarrow> refund_composer" where
  "refund_end failed word cents next_note answer s =
    (case answer of
       Inl e \<Rightarrow> s\<lparr>rc_action := action_end (Some (word e)) (rc_action s)\<rparr>
     | Inr out \<Rightarrow>
         (let s1 = s\<lparr>rc_key := None\<rparr>
          in if rr_status out \<in> {''failed'', ''canceled''}
             then s1\<lparr>rc_action := action_end None (action_set_error (Some failed) (rc_action s1))\<rparr>
             else s1\<lparr>rc_amount := [], rc_mode := Full_Refund,
                    rc_issued := Some (if rr_status out = ''succeeded''
                      then Refund_Done cents (case rr_note out of Some n \<Rightarrow> n | None \<Rightarrow> next_note) else Refund_Pending),
                    rc_action := action_end None (rc_action s1)\<rparr>))"

text \<open>The message of a refused refund: the block its code names, else the failure's own.\<close>

definition refund_failure :: "json \<Rightarrow> string + message" where
  "refund_failure e =
    (case failed_code e of
       Some c \<Rightarrow> if c \<in> set refund_blocks then Inl c else Inr (failure_message e ''refundError'')
     | None \<Rightarrow> Inr (failure_message e ''refundError''))"

lemma refund_begin_sent:
  assumes "refund_begin lo fresh err su data s = (s', Some (key, body))"
  shows "refund_valid lo su s" "refund_blocked data = None"
    "body = \<lparr>rb_amount = refund_cents lo su s, rb_reason = rc_reason s, rb_notify = rc_notify s\<rparr>"
    "attempt_key fresh (rc_key s) (rf_id (su_payment su), body) = (key, rc_key s')" "rc_mode s' = rc_mode s" "rc_amount s' = rc_amount s"
    "rc_reason s' = rc_reason s" "rc_notify s' = rc_notify s" "\<not> aa_running (rc_action s)"
  using assms by (auto simp: refund_begin_def Let_def action_start_def split: if_splits prod.splits option.splits)

text \<open>C18: a refund never asks for more than is left: whatever was typed, a request goes out only for a positive amount
  of at most what the payment still holds, in full mode for exactly that, and never while the preview on the screen
  gives one of the reasons that block a refund. (No preview yet, or a reason the texts do not name, blocks nothing.)\<close>

theorem refund_within_left:
  assumes "su = summarize other p" "refund_begin lo fresh err su data s = (s', Some (key, body))"
  shows "0 < rb_amount body \<and> rf_refunded p + rb_amount body \<le> rf_amount p
    \<and> (rc_mode s = Full_Refund \<longrightarrow> rf_refunded p + rb_amount body = rf_amount p)
    \<and> (\<forall>d b. data = Some d \<and> pv_blocked d = Some b \<longrightarrow> b \<notin> {''not_succeeded'', ''already_refunded'', ''gift_card_expired'',
        ''gift_card_redeemed'', ''package_expired'', ''package_used'', ''payment_disputed'', ''whole_only''})"
proof -
  note sent = refund_begin_sent(1-3) [OF assms(2)]
  have "b \<notin> set refund_blocks" if "data = Some d" "pv_blocked d = Some b" for d b
    using sent(2) that by (auto simp: refund_blocked_def split: if_splits)
  then have "\<forall>d b. data = Some d \<and> pv_blocked d = Some b \<longrightarrow> b \<notin> {''not_succeeded'', ''already_refunded'', ''gift_card_expired'',
        ''gift_card_redeemed'', ''package_expired'', ''package_used'', ''payment_disputed'', ''whole_only''}"
    by (simp add: refund_blocks_def)
  moreover have "0 < rb_amount body \<and> rf_refunded p + rb_amount body \<le> rf_amount p
      \<and> (rc_mode s = Full_Refund \<longrightarrow> rf_refunded p + rb_amount body = rf_amount p)"
    using sent(1,3)
    by (auto simp: refund_valid_def refund_cents_def assms(1) summarize_def max_def split: refund_mode.splits if_splits)
  ultimately show ?thesis by blast
qed

text \<open>A refund whose answer was lost is asked for again under its key, so the money goes back once.\<close>

lemma lost_refund_repeats:
  assumes "refund_begin lo f1 err su data s = (s1, Some (key, body))"
  shows "snd (refund_begin lo f2 err su data (refund_end failed word cents note (Inl e) s1)) = Some (key, body)"
proof -
  note sent = refund_begin_sent [OF assms]
  let ?s = "refund_end failed word cents note (Inl e) s1"
  have same: "rc_mode ?s = rc_mode s" "rc_amount ?s = rc_amount s" "rc_reason ?s = rc_reason s" "rc_notify ?s = rc_notify s"
    "rc_key ?s = rc_key s1" "\<not> aa_running (rc_action ?s)"
    using sent by (simp_all add: refund_end_def action_end_def)
  then have cents: "refund_cents lo su ?s = refund_cents lo su s" by (simp add: refund_cents_def split: refund_mode.split)
  then have valid: "refund_valid lo su ?s" using sent(1) by (simp add: refund_valid_def)
  have "\<exists>a. rc_key s1 = Some a \<and> at_key a = key \<and> at_request a = (rf_id (su_payment su), body)"
    using sent(4) by (rule attempt_key_cases) auto
  then obtain a where "rc_key s1 = Some a" "at_key a = key" "at_request a = (rf_id (su_payment su), body)" by blast
  then show ?thesis
    using valid same sent(2,3) by (simp add: refund_begin_def cents attempt_key_def Let_def action_start_def)
qed

definition demo_payment :: refundable where
  "demo_payment = \<lparr>sf_invoice = Some 12, sf_order = None, sf_gift = None, sf_package = None, sf_booking = None, rf_id = ''p1'',
     rf_client = Some ''Ann'', rf_method = ''card'', rf_amount = 10000, rf_refunded = 2500, rf_fee = 0, rf_paid_at = None,
     rf_created_at = ''2026-03-02T10:00:00Z''\<rparr>"

theorem refund_within_left_witness:
  "rf_refunded demo_payment + rb_amount (snd (the (snd (refund_begin canadian ''k'' [] (summarize (\<lambda>_. None) demo_payment) None
     ((blank_refund ''other'')\<lparr>rc_mode := Part_Refund, rc_amount := ''75''\<rparr>))))) \<le> 10000"
proof -
  let ?su = "summarize (\<lambda>_. None) demo_payment" and ?s = "(blank_refund ''other'')\<lparr>rc_mode := Part_Refund, rc_amount := ''75''\<rparr>"
  have cents: "parse_cents canadian ''75'' = Some 7500" by code_simp
  have valid: "refund_valid canadian ?su ?s"
    by (simp add: refund_valid_def refund_cents_def cents summarize_def demo_payment_def)
  then have "\<exists>s' body. refund_begin canadian ''k'' [] ?su None ?s = (s', Some (''k'', body))"
    by (simp add: refund_begin_def refund_blocked_def attempt_key_def blank_refund_def idle_action_def action_start_def Let_def)
  then obtain s' body where sent: "refund_begin canadian ''k'' [] ?su None ?s = (s', Some (''k'', body))" by blast
  from refund_within_left [OF refl sent] show ?thesis by (simp add: sent) (simp add: demo_payment_def)
qed

section \<open>Credit notes and disputes\<close>

record refund_row = subject_fields +
  rw_id :: string
  rw_payment :: string
  rw_amount :: int
  rw_paid :: "string option"
  rw_created :: string
  rw_reason :: "string option"
  rw_note :: "string option"
  rw_status :: string
  rw_client :: "string option"

record credit_note =
  nt_id :: string
  nt_number :: string
  nt_subject :: payment_subject
  nt_cents :: int

text \<open>The notes of the refunds that went through, and the sum of those since the start of the month.\<close>

definition credit_notes :: "refund_row list \<Rightarrow> credit_note list" where
  "credit_notes refunds =
    map (\<lambda>r. \<lparr>nt_id = rw_id r, nt_number = (case rw_note r of Some n \<Rightarrow> n | None \<Rightarrow> []), nt_subject = payment_subject r, nt_cents = rw_amount r\<rparr>)
      (filter (\<lambda>r. rw_status r = ''succeeded'') refunds)"

definition refund_time :: "(string \<Rightarrow> int option) \<Rightarrow> refund_row \<Rightarrow> int option" where
  "refund_time other r = parse_timestamp other (case rw_paid r of Some t \<Rightarrow> t | None \<Rightarrow> rw_created r)"

definition refunded_this_month :: "offsets \<Rightarrow> (string \<Rightarrow> int option) \<Rightarrow> string \<Rightarrow> int \<Rightarrow> refund_row list \<Rightarrow> int" where
  "refunded_this_month off other zone now refunds =
    sum_list (map rw_amount (filter (\<lambda>r. rw_status r = ''succeeded''
      \<and> (case refund_time other r of Some t \<Rightarrow> t \<ge> start_of_month off now zone | None \<Rightarrow> False)) refunds))"

lemma month_within_notes:
  assumes "\<forall>r\<in>set refunds. 0 \<le> rw_amount r"
  shows "refunded_this_month off other zone now refunds \<le> sum_list (map nt_cents (credit_notes refunds))"
  using assms by (induction refunds) (auto simp: refunded_this_month_def credit_notes_def add_increasing)

record dispute_row = subject_fields +
  dr_id :: string
  dr_amount :: int
  dr_status :: string
  dr_respond_by :: "string option"
  dr_withdrawn :: int
  dr_fee :: int

datatype dispute_deadline = Respond_By "int option" "int option" | Won_Note | Lost_Note | Review_Note

definition dispute_open :: "dispute_row \<Rightarrow> bool" where
  "dispute_open d \<longleftrightarrow> dr_status d \<in> {''needs_response'', ''under_review''}"

definition dispute_intent :: "string \<Rightarrow> intent" where
  "dispute_intent status =
    (if status = ''needs_response'' then Danger else if status = ''under_review'' then Warning
     else if status = ''won'' then Success else Neutral)"

text \<open>The deadline with the days that are left; what the bank holds: the amount withdrawn and its fee.\<close>

definition dispute_deadline :: "offsets \<Rightarrow> (string \<Rightarrow> int option) \<Rightarrow> string \<Rightarrow> int \<Rightarrow> dispute_row \<Rightarrow> dispute_deadline" where
  "dispute_deadline off other zone now d =
    (case (dr_status d = ''needs_response'', dr_respond_by d) of
       (True, Some t) \<Rightarrow> (let due = parse_timestamp other t
          in Respond_By due (map_option (max 0) (Option.bind due (\<lambda>x. days_until off x zone now))))
     | _ \<Rightarrow> if dr_status d = ''won'' then Won_Note else if dr_status d = ''lost'' then Lost_Note else Review_Note)"

definition dispute_held :: "dispute_row \<Rightarrow> (string \<times> int) list" where
  "dispute_held d =
    (let withdrawn = (if dr_withdrawn d > 0 then dr_withdrawn d else dr_amount d)
     in [(''withdrawn'', withdrawn), (''fee'', dr_fee d), (''held'', withdrawn + dr_fee d)])"

definition use_disputes :: "dispute_row list \<Rightarrow> dispute_row list \<times> dispute_row list" where
  "use_disputes rows = (filter dispute_open rows, filter (\<lambda>d. \<not> dispute_open d) rows)"

lemma disputes_split: "mset (fst (use_disputes rows)) + mset (snd (use_disputes rows)) = mset rows"
  by (induction rows) (auto simp: use_disputes_def)

end
