(* ===== verification/Documents.thy ===== *)
theory Documents
  imports Pricing Sale Attempts Amounts Timestamps
begin

text \<open>
  Invoices and estimates as the desks show them (\<open>app-core/src/domain/billing.ts\<close>): the status a person reads,
  segments, search and money summary, the record of a document with its totals and the actions its state allows,
  and the commands on it. Rows come from the replica's queries and are arguments; so is how dates and amounts print.
\<close>

section \<open>Rows\<close>

record line_row =
  lr_id :: string
  lr_item :: "string option"
  lr_booking :: "string option"
  lr_staff :: "string option"
  lr_description :: string
  lr_quantity :: rat
  lr_unit :: int
  lr_amount :: int
  lr_tax :: int
  lr_class :: string
  lr_optional :: "int option"
  lr_selected :: "int option"
  lr_discount_kind :: "string option"
  lr_discount_value :: "rat option"
  lr_discount_reason :: "string option"

record invoice_row =
  iv_id :: string
  iv_client :: string
  iv_client_name :: "string option"
  iv_number :: "int option"
  iv_status :: string
  iv_subtotal :: "int option"
  iv_total :: "int option"
  iv_balance :: "int option"
  iv_paid :: "int option"
  iv_tip :: int
  iv_issued :: "string option"
  iv_due :: "string option"
  iv_paid_at :: "string option"
  iv_voided :: "string option"
  iv_pay_token :: "string option"
  iv_notes :: "string option"
  iv_discount_kind :: "string option"
  iv_discount_value :: "rat option"
  iv_discount_reason :: "string option"
  iv_created :: string

record estimate_row =
  es_id :: string
  es_client :: string
  es_client_name :: "string option"
  es_number :: "int option"
  es_status :: string
  es_subtotal :: "int option"
  es_total :: "int option"
  es_valid_until :: "string option"
  es_accepted :: "string option"
  es_declined :: "string option"
  es_view_token :: "string option"
  es_invoice :: "string option"
  es_invoice_number :: "int option"
  es_notes :: "string option"
  es_discount_kind :: "string option"
  es_discount_value :: "rat option"
  es_discount_reason :: "string option"
  es_created :: string
  es_booking :: "string option"
  es_booking_starts :: "string option"

text \<open>The clock a desk reads: the zone's offsets, the zone, now, and \<open>Date.parse\<close> outside ISO texts.\<close>

record doc_clock =
  ck_offsets :: offsets
  ck_zone :: string
  ck_now :: int
  ck_parse :: "string \<Rightarrow> int option"

definition stamp_of :: "doc_clock \<Rightarrow> string \<Rightarrow> int option" where
  "stamp_of ck = parse_timestamp (ck_parse ck)"

text \<open>\<open>shortDate\<close>: the day a stored text is shown as.\<close>

definition shown_day :: "doc_clock \<Rightarrow> string option \<Rightarrow> int option" where
  "shown_day ck t = Option.bind t (\<lambda>x. read_date (ck_offsets ck) (ck_parse ck) x (ck_zone ck))"

section \<open>The status of an invoice\<close>

datatype invoice_status = Draft_Invoice | Sent_Invoice | Partial_Invoice | Overdue_Invoice | Paid_Invoice | Refunded_Invoice | Void_Invoice

definition open_statuses :: "string list" where
  "open_statuses = [''sent'', ''partial'', ''overdue'']"

text \<open>\<open>None\<close> is the \<open>NaN\<close> of an unreadable due date.\<close>

definition days_overdue :: "doc_clock \<Rightarrow> invoice_row \<Rightarrow> int option" where
  "days_overdue ck row =
    (case iv_due row of
       None \<Rightarrow> Some 0
     | Some due \<Rightarrow>
         if (case iv_balance row of Some b \<Rightarrow> b | None \<Rightarrow> 0) \<le> 0 \<or> iv_status row \<notin> set open_statuses then Some 0
         else map_option (\<lambda>n. max 0 (- n)) (Option.bind (stamp_of ck due) (\<lambda>d. days_until (ck_offsets ck) d (ck_zone ck) (ck_now ck))))"

definition is_late :: "doc_clock \<Rightarrow> invoice_row \<Rightarrow> bool" where
  "is_late ck row \<longleftrightarrow> (case days_overdue ck row of Some n \<Rightarrow> 0 < n | None \<Rightarrow> False)"

definition status_of_text :: "string \<Rightarrow> invoice_status" where
  "status_of_text t =
    (if t = ''draft'' then Draft_Invoice else if t = ''partial'' then Partial_Invoice else if t = ''overdue'' then Overdue_Invoice
     else if t = ''paid'' then Paid_Invoice else if t = ''refunded'' then Refunded_Invoice else if t = ''void'' then Void_Invoice
     else Sent_Invoice)"

definition invoice_status_of :: "doc_clock \<Rightarrow> invoice_row \<Rightarrow> invoice_status" where
  "invoice_status_of ck row = (if iv_status row = ''sent'' \<and> is_late ck row then Overdue_Invoice else status_of_text (iv_status row))"

datatype due_label = Not_Sent | Voided_On "int option" | Paid_On "int option" | Overdue_By int | No_Due | Due_Today | Due_On "int option"

definition due_label_of :: "doc_clock \<Rightarrow> invoice_row \<Rightarrow> invoice_status \<Rightarrow> due_label" where
  "due_label_of ck row status =
    (case status of
       Draft_Invoice \<Rightarrow> Not_Sent
     | Void_Invoice \<Rightarrow> Voided_On (shown_day ck (Some (case iv_voided row of Some t \<Rightarrow> t | None \<Rightarrow> iv_created row)))
     | Paid_Invoice \<Rightarrow> Paid_On (shown_day ck (iv_paid_at row))
     | Refunded_Invoice \<Rightarrow> Paid_On (shown_day ck (iv_paid_at row))
     | _ \<Rightarrow>
         if is_late ck row then Overdue_By (the (days_overdue ck row))
         else (case iv_due row of
                 None \<Rightarrow> No_Due
               | Some due \<Rightarrow>
                   if Option.bind (stamp_of ck due) (\<lambda>d. days_until (ck_offsets ck) d (ck_zone ck) (ck_now ck)) = Some 0 then Due_Today
                   else Due_On (shown_day ck (Some due))))"

section \<open>The invoice desk\<close>

datatype invoice_segment = All_Invoices | Open_Invoices | Overdue_Invoices | Draft_Invoices | Paid_Invoices | Void_Invoices

record invoice_list_row =
  il_row :: invoice_row
  il_status :: invoice_status
  il_due :: due_label
  il_late :: bool
  il_total :: int

definition or_zero :: "int option \<Rightarrow> int" where
  "or_zero x = (case x of Some n \<Rightarrow> n | None \<Rightarrow> 0)"

definition list_row :: "doc_clock \<Rightarrow> invoice_row \<Rightarrow> invoice_list_row" where
  "list_row ck row =
    (let status = invoice_status_of ck row
     in \<lparr>il_row = row, il_status = status, il_due = due_label_of ck row status, il_late = is_late ck row,
         il_total = or_zero (iv_total row) + iv_tip row\<rparr>)"

definition open_invoice :: "invoice_status \<Rightarrow> bool" where
  "open_invoice status \<longleftrightarrow> status \<in> {Sent_Invoice, Partial_Invoice, Overdue_Invoice}"

fun in_segment :: "invoice_segment \<Rightarrow> invoice_list_row \<Rightarrow> bool" where
  "in_segment All_Invoices r \<longleftrightarrow> il_status r \<noteq> Void_Invoice"
| "in_segment Open_Invoices r \<longleftrightarrow> open_invoice (il_status r)"
| "in_segment Overdue_Invoices r \<longleftrightarrow> il_late r"
| "in_segment Draft_Invoices r \<longleftrightarrow> il_status r = Draft_Invoice"
| "in_segment Paid_Invoices r \<longleftrightarrow> il_status r = Paid_Invoice \<or> il_status r = Refunded_Invoice"
| "in_segment Void_Invoices r \<longleftrightarrow> il_status r = Void_Invoice"

definition row_balance :: "invoice_list_row \<Rightarrow> int" where
  "row_balance r = or_zero (iv_balance (il_row r))"

text \<open>Outstanding and overdue cents.\<close>

definition invoice_stats :: "invoice_list_row list \<Rightarrow> int \<times> int" where
  "invoice_stats rows =
    (sum_list (map row_balance (filter (in_segment Open_Invoices) rows)), sum_list (map row_balance (filter il_late rows)))"

text \<open>The search over a desk's rows, by the client's name or the number; one leading \<open>#\<close> is dropped.\<close>

definition search_rows :: "('r \<Rightarrow> string option) \<Rightarrow> ('r \<Rightarrow> int option) \<Rightarrow> 'r list \<Rightarrow> string \<Rightarrow> 'r list" where
  "search_rows name number rows q =
    (let t0 = map lower_char (js_trim q); t = (if take 1 t0 = ''#'' then drop 1 t0 else t0)
     in if t = [] then rows
        else filter (\<lambda>r. includes_text t (map lower_char (case name r of Some c \<Rightarrow> c | None \<Rightarrow> []))
               \<or> (case number r of Some n \<Rightarrow> includes_text t (int_string n) | None \<Rightarrow> False)) rows)"

definition desk_rows :: "invoice_segment \<Rightarrow> string \<Rightarrow> invoice_list_row list \<Rightarrow> invoice_list_row list" where
  "desk_rows seg q all = search_rows (iv_client_name \<circ> il_row) (iv_number \<circ> il_row) (filter (in_segment seg) all) q"

definition segment_count :: "invoice_segment \<Rightarrow> invoice_list_row list \<Rightarrow> nat option" where
  "segment_count seg all =
    (let n = length (filter (in_segment seg) all) in if seg \<noteq> All_Invoices \<and> 0 < n then Some n else None)"

lemma late_is_open: "is_late ck row \<Longrightarrow> open_invoice (invoice_status_of ck row)"
  by (auto simp: is_late_def days_overdue_def invoice_status_of_def open_invoice_def status_of_text_def open_statuses_def
        split: option.splits if_splits)

lemma late_owes: "is_late ck row \<Longrightarrow> 0 < or_zero (iv_balance row)"
  by (auto simp: is_late_def days_overdue_def or_zero_def split: option.splits if_splits)

text \<open>Every invoice that is not void is in exactly one of the segments for open invoices, drafts and paid ones.\<close>

lemma segments_partition:
  "mset (filter (in_segment Open_Invoices) all) + mset (filter (in_segment Draft_Invoices) all) + mset (filter (in_segment Paid_Invoices) all)
    = mset (filter (in_segment All_Invoices) all)"
proof (induction all)
  case (Cons r rs)
  then show ?case by (cases "il_status r") (auto simp: open_invoice_def)
qed simp

text \<open>The money summary is consistent: what is overdue is part of what is outstanding, every overdue invoice is
  listed among the open ones and still owes something, so the overdue sum never exceeds the outstanding one as long
  as no open invoice has a negative balance.\<close>

theorem overdue_within_outstanding:
  assumes "\<forall>r\<in>set rows. 0 \<le> or_zero (iv_balance r)"
  shows "snd (invoice_stats (map (list_row ck) rows)) \<le> fst (invoice_stats (map (list_row ck) rows))
    \<and> set (filter (in_segment Overdue_Invoices) (map (list_row ck) rows)) \<subseteq> set (filter (in_segment Open_Invoices) (map (list_row ck) rows))
    \<and> (0 < snd (invoice_stats (map (list_row ck) rows)) \<longleftrightarrow> (\<exists>r\<in>set rows. is_late ck r))"
proof -
  have "0 \<le> snd (invoice_stats (map (list_row ck) rows))
      \<and> snd (invoice_stats (map (list_row ck) rows)) \<le> fst (invoice_stats (map (list_row ck) rows))
      \<and> (0 < snd (invoice_stats (map (list_row ck) rows)) \<longleftrightarrow> (\<exists>r\<in>set rows. is_late ck r))"
    using assms
  proof (induction rows)
    case (Cons r rows)
    have "open_invoice (invoice_status_of ck r)" "0 < or_zero (iv_balance r)" if "is_late ck r"
      using late_is_open [OF that] late_owes [OF that] .
    then show ?case
      using Cons by (auto simp: invoice_stats_def list_row_def row_balance_def Let_def)
  qed (simp add: invoice_stats_def)
  moreover have "set (filter (in_segment Overdue_Invoices) (map (list_row ck) rows)) \<subseteq> set (filter (in_segment Open_Invoices) (map (list_row ck) rows))"
    using late_is_open by (auto simp: list_row_def Let_def)
  ultimately show ?thesis by blast
qed

definition demo_invoice :: "string \<Rightarrow> string \<Rightarrow> int \<Rightarrow> invoice_row" where
  "demo_invoice status due balance = \<lparr>iv_id = ''i1'', iv_client = ''c1'', iv_client_name = Some ''Ann'', iv_number = Some 7,
     iv_status = status, iv_subtotal = Some balance, iv_total = Some balance, iv_balance = Some balance, iv_paid = Some 0, iv_tip = 0,
     iv_issued = Some ''2026-03-02T10:00:00Z'', iv_due = Some due, iv_paid_at = None, iv_voided = None, iv_pay_token = Some ''t'',
     iv_notes = None, iv_discount_kind = None, iv_discount_value = None, iv_discount_reason = None, iv_created = ''2026-03-01T10:00:00Z''\<rparr>"

text \<open>A clock at 20 March 2026 in UTC.\<close>

definition demo_clock :: doc_clock where
  "demo_clock = \<lparr>ck_offsets = (\<lambda>_ _. 0), ck_zone = ''UTC'', ck_now = 1774000000000, ck_parse = (\<lambda>_. None)\<rparr>"

definition demo_invoices :: "invoice_row list" where
  "demo_invoices = [demo_invoice ''sent'' ''2026-03-10T10:00:00Z'' 9000, demo_invoice ''sent'' ''2026-04-10T10:00:00Z'' 4000]"

lemma sent_is_open: "iv_status r = ''sent'' \<Longrightarrow> open_invoice (invoice_status_of ck r)"
  by (auto simp: invoice_status_of_def open_invoice_def status_of_text_def)

theorem overdue_within_outstanding_witness:
  "snd (invoice_stats (map (list_row demo_clock) demo_invoices)) \<le> 13000"
proof -
  have "fst (invoice_stats (map (list_row demo_clock) demo_invoices)) = 13000"
    by (simp add: demo_invoices_def invoice_stats_def list_row_def Let_def sent_is_open row_balance_def)
       (simp add: demo_invoice_def sent_is_open or_zero_def)
  moreover have "\<forall>r\<in>set demo_invoices. 0 \<le> or_zero (iv_balance r)" by (simp add: demo_invoices_def demo_invoice_def or_zero_def)
  ultimately show ?thesis using overdue_within_outstanding [of demo_invoices demo_clock] by simp
qed

section \<open>The record of an invoice\<close>

definition open_rates :: "tax_setup \<Rightarrow> doc_rate list" where
  "open_rates tax = doc_rates (ts_rates tax) (ts_registered tax)"

text \<open>\<open>documentRates\<close>: \<open>issued\<close> is \<open>None\<close> for a document that is still open, else the stamp of its issue.\<close>

definition document_rates :: "doc_clock \<Rightarrow> tax_setup \<Rightarrow> line_row list \<Rightarrow> string option \<Rightarrow> doc_rate list" where
  "document_rates ck tax lines issued =
    (case issued of
       None \<Rightarrow> open_rates tax
     | Some t \<Rightarrow>
         (let day = (case stamp_of ck t of Some d \<Rightarrow> date_key (ck_offsets ck) d (ck_zone ck) | None \<Rightarrow> ''NaN-NaN-NaN'')
          in doc_rates (rates_on (ts_province tax) day) (\<exists>l\<in>set lines. 0 < lr_tax l)))"

definition priced_rows :: "(line_row \<Rightarrow> bool) \<Rightarrow> line_row list \<Rightarrow> priced_line list" where
  "priced_rows included lines =
    map (\<lambda>l. \<lparr>pl_amount = lr_amount l, pl_class = as_tax_class (Some (lr_class l)), pl_included = included l\<rparr>) lines"

record credit_row =
  cr_id :: string
  cr_event :: string
  cr_cents :: int
  cr_at :: "string option"
  cr_method :: "string option"

record doc_payment =
  dp_id :: string
  dp_kind :: string
  dp_amount :: int
  dp_status :: string
  dp_paid_at :: "string option"
  dp_created :: string

record payment_view =
  pw_id :: string
  pw_cents :: int
  pw_pending :: bool
  pw_refund :: bool

record timeline_entry =
  te_key :: string
  te_at :: "int option" \<comment> \<open>no time is the empty text\<close>
  te_cents :: "int option"

record invoice_record =
  ir_status :: invoice_status
  ir_taxes :: "doc_tax list"
  ir_totals :: "total_line list"
  ir_balance :: int
  ir_payments :: "payment_view list"
  ir_timeline :: "timeline_entry list"
  ir_pay_token :: "string option"
  ir_can_edit :: bool
  ir_can_remind :: bool
  ir_can_record :: bool
  ir_can_void :: bool

text \<open>The texts a document prints: captions, a tax's label and name, the caption of a credit.\<close>

record doc_words =
  dw_caption :: "string \<Rightarrow> string"
  dw_rate :: "string \<Rightarrow> rat \<Rightarrow> string"
  dw_tax :: "string \<Rightarrow> string"
  dw_credit :: "credit_row \<Rightarrow> string"

definition tax_rows :: "doc_tax list \<Rightarrow> total_line list" where
  "tax_rows taxes = map (\<lambda>t. total_row (dt_code t) (dt_label t) (dt_cents t) Tax_Row) taxes"

definition invoice_totals :: "doc_words \<Rightarrow> invoice_row \<Rightarrow> doc_tax list \<Rightarrow> credit_row list \<Rightarrow> total_line list" where
  "invoice_totals d row taxes credits =
    total_row ''subtotal'' (dw_caption d ''subtotal'') (or_zero (iv_subtotal row)) Subtotal_Row # tax_rows taxes
    @ (if 0 < iv_tip row then [total_row ''tip'' (dw_caption d ''tip'') (iv_tip row) Tax_Row] else [])
    @ [total_row ''total'' (dw_caption d ''total'') (or_zero (iv_total row) + iv_tip row) Total_Row]
    @ map (\<lambda>c. total_row (cr_id c) (dw_credit d c) (cr_cents c) Credit_Row) credits
    @ (if iv_status row \<noteq> ''draft'' then [total_row ''balance'' (dw_caption d ''balanceDue'') (or_zero (iv_balance row)) Balance_Row] else [])"

definition payment_views :: "doc_payment list \<Rightarrow> payment_view list" where
  "payment_views payments =
    map (\<lambda>p. \<lparr>pw_id = dp_id p, pw_cents = dp_amount p, pw_pending = (dp_status p = ''pending''), pw_refund = (dp_kind p = ''refund'')\<rparr>)
      (filter (\<lambda>p. dp_status p \<noteq> ''failed'' \<and> dp_status p \<noteq> ''canceled'') payments)"

definition invoice_timeline :: "doc_clock \<Rightarrow> invoice_row \<Rightarrow> credit_row list \<Rightarrow> doc_payment list \<Rightarrow> timeline_entry list" where
  "invoice_timeline ck row credits payments =
    (let entry = (\<lambda>k t c. \<lparr>te_key = k, te_at = Option.bind t (stamp_of ck), te_cents = c\<rparr>)
     in entry ''created'' (Some (iv_created row)) None
        # (if iv_issued row \<noteq> None then [entry ''sent'' (iv_issued row) None] else [])
        @ map (\<lambda>c. entry (''c-'' @ cr_id c) (cr_at c) (Some (cr_cents c))) credits
        @ map (\<lambda>p. entry (''r-'' @ dp_id p) (Some (case dp_paid_at p of Some t \<Rightarrow> t | None \<Rightarrow> dp_created p)) (Some (dp_amount p)))
            (filter (\<lambda>p. dp_kind p = ''refund'' \<and> dp_status p = ''succeeded'') payments)
        @ (if iv_voided row \<noteq> None then [entry ''void'' (iv_voided row) None] else []))"

text \<open>\<open>useInvoiceRecord\<close>; \<open>arriving\<close> says that a payment just recorded has not reached the device yet.\<close>

definition invoice_record_of ::
  "doc_clock \<Rightarrow> doc_words \<Rightarrow> tax_setup \<Rightarrow> bool \<Rightarrow> line_row list \<Rightarrow> (string \<times> int) list \<Rightarrow> credit_row list \<Rightarrow> doc_payment list \<Rightarrow> invoice_row
    \<Rightarrow> invoice_record" where
  "invoice_record_of ck d tax arriving lines journal credits payments row =
    (let status = invoice_status_of ck row; draft = (iv_status row = ''draft'');
         issued = (if draft then None else Some (case iv_issued row of Some t \<Rightarrow> t | None \<Rightarrow> iv_created row));
         pricing = price_doc (dw_rate d) (priced_rows (\<lambda>_. True) lines) (document_rates ck tax lines issued) False;
         taxes = (if draft then dp_taxes pricing else issued_taxes (dw_tax d) (dp_taxes pricing) journal);
         balance = or_zero (iv_balance row); is_open = open_invoice status
     in \<lparr>ir_status = status, ir_taxes = taxes, ir_totals = invoice_totals d row taxes credits, ir_balance = balance,
         ir_payments = payment_views payments, ir_timeline = invoice_timeline ck row credits payments,
         ir_pay_token = (if is_open then iv_pay_token row else None), ir_can_edit = draft, ir_can_remind = is_open,
         ir_can_record = (is_open \<and> 0 < balance \<and> \<not> arriving),
         ir_can_void = (draft \<or> status \<notin> {Void_Invoice, Paid_Invoice, Refunded_Invoice, Partial_Invoice} \<and> or_zero (iv_paid row) = 0)\<rparr>)"

text \<open>What an invoice's state allows: a draft is edited, sent or voided; reminders, payments and the pay link are for open
  ones; nothing that money was paid on is voided; a void or settled invoice allows nothing.\<close>

lemma invoice_actions_by_state:
  "let r = invoice_record_of ck d tax arriving lines journal credits payments row
   in (ir_can_edit r \<longrightarrow> ir_can_void r \<and> \<not> ir_can_remind r \<and> \<not> ir_can_record r \<and> ir_pay_token r = None)
    \<and> (ir_can_record r \<longrightarrow> ir_can_remind r \<and> 0 < ir_balance r)
    \<and> (ir_can_void r \<and> \<not> ir_can_edit r \<longrightarrow> ir_can_remind r \<and> or_zero (iv_paid row) = 0)
    \<and> (ir_status r \<in> {Void_Invoice, Paid_Invoice, Refunded_Invoice} \<longrightarrow>
        \<not> ir_can_edit r \<and> \<not> ir_can_remind r \<and> \<not> ir_can_record r \<and> \<not> ir_can_void r \<and> ir_pay_token r = None)"
  by (cases "invoice_status_of ck row")
    (auto simp: invoice_record_of_def Let_def open_invoice_def invoice_status_of_def status_of_text_def split: if_splits)

lemma invoice_balance_row:
  "iv_status row \<noteq> ''draft'' \<Longrightarrow> last (invoice_totals d row taxes credits) = total_row ''balance'' (dw_caption d ''balanceDue'') (or_zero (iv_balance row)) Balance_Row"
  by (simp add: invoice_totals_def)

section \<open>Estimates\<close>

datatype estimate_segment = All_Estimates | Draft_Estimates | Sent_Estimates | Accepted_Estimates | Closed_Estimates

definition estimate_shown :: "estimate_row \<Rightarrow> string" where
  "estimate_shown row = (if es_invoice row \<noteq> None then ''converted'' else es_status row)"

datatype valid_label = Converted_To "int option" | Accepted_On "int option" | Declined_On "int option" | Unsent | Expired_On "int option"
  | Expires_In int | Valid_Until "int option"

text \<open>\<open>valid_until\<close> is a stored day; the estimate holds to its last minute.\<close>

definition valid_label_of :: "doc_clock \<Rightarrow> estimate_row \<Rightarrow> string \<Rightarrow> valid_label" where
  "valid_label_of ck row status =
    (let when = shown_day ck
     in if status = ''converted'' then Converted_To (es_invoice_number row)
        else if status = ''accepted'' then Accepted_On (when (es_accepted row))
        else if status = ''declined'' then Declined_On (when (es_declined row))
        else case es_valid_until row of
          None \<Rightarrow> Unsent
        | Some t \<Rightarrow>
            if status = ''expired'' then Expired_On (when (Some t))
            else (let left = Option.bind (key_fields t) (\<lambda>(y, m, d).
                     days_until (ck_offsets ck) (zoned_date (ck_offsets ck) y m d 23 59 (ck_zone ck)) (ck_zone ck) (ck_now ck))
                  in case left of
                       Some n \<Rightarrow> if status = ''sent'' \<and> n \<le> 7 then Expires_In (max 0 n) else Valid_Until (when (Some t))
                     | None \<Rightarrow> Valid_Until (when (Some t))))"

fun in_estimate_segment :: "estimate_segment \<Rightarrow> string \<Rightarrow> bool" where
  "in_estimate_segment All_Estimates st \<longleftrightarrow> True"
| "in_estimate_segment Draft_Estimates st \<longleftrightarrow> st = ''draft''"
| "in_estimate_segment Sent_Estimates st \<longleftrightarrow> st = ''sent''"
| "in_estimate_segment Accepted_Estimates st \<longleftrightarrow> st = ''accepted''"
| "in_estimate_segment Closed_Estimates st \<longleftrightarrow> st \<in> {''converted'', ''declined'', ''expired''}"

definition estimate_desk :: "estimate_segment \<Rightarrow> string \<Rightarrow> estimate_row list \<Rightarrow> estimate_row list" where
  "estimate_desk seg q all =
    search_rows es_client_name es_number (filter (\<lambda>r. in_estimate_segment seg (estimate_shown r)) all) q"

definition estimates_waiting :: "estimate_row list \<Rightarrow> int" where
  "estimates_waiting all = sum_list (map (\<lambda>r. or_zero (es_total r)) (filter (\<lambda>r. estimate_shown r = ''sent'') all))"

definition estimate_convertible :: "string \<Rightarrow> estimate_row \<Rightarrow> bool" where
  "estimate_convertible status row \<longleftrightarrow> (status = ''sent'' \<or> status = ''accepted'') \<and> es_invoice row = None"

definition estimate_can_convert :: "string \<Rightarrow> estimate_row \<Rightarrow> bool" where
  "estimate_can_convert status row \<longleftrightarrow> estimate_convertible status row \<and> es_booking row = None"

definition estimate_can_book :: "string \<Rightarrow> estimate_row \<Rightarrow> bool" where
  "estimate_can_book status row \<longleftrightarrow> status = ''accepted'' \<and> es_invoice row = None \<and> es_booking row = None"

definition estimate_totals :: "doc_words \<Rightarrow> estimate_row \<Rightarrow> doc_pricing \<Rightarrow> total_line list" where
  "estimate_totals d row pricing =
    (let is_open = (es_accepted row = None)
     in total_row ''subtotal'' (dw_caption d ''subtotal'') (if is_open then dp_subtotal pricing else or_zero (es_subtotal row)) Subtotal_Row
        # tax_rows (dp_taxes pricing)
        @ [total_row ''total'' (dw_caption d ''total'') (if is_open then dp_total pricing else or_zero (es_total row)) Total_Row])"

text \<open>Whether a line counts, and the note of an add-on.\<close>

definition line_included :: "line_row \<Rightarrow> bool" where
  "line_included l \<longleftrightarrow> lr_optional l \<noteq> Some 1 \<or> lr_selected l = Some 1"

datatype addon_note = Picked | Not_Picked | Offered

definition addon_note_of :: "estimate_row \<Rightarrow> line_row \<Rightarrow> addon_note option" where
  "addon_note_of row l =
    (let answered = (es_status row = ''accepted'' \<or> es_invoice row \<noteq> None)
     in if lr_optional l \<noteq> Some 1 then None
        else Some (if answered then (if lr_selected l = Some 1 then Picked else Not_Picked) else Offered))"

record estimate_record =
  er_status :: string
  er_label :: valid_label
  er_taxes :: "doc_tax list"
  er_totals :: "total_line list"
  er_notes :: "addon_note option list"
  er_can_edit :: bool
  er_can_send :: bool
  er_can_mark :: bool
  er_can_convert :: bool
  er_on_visit :: bool
  er_can_book :: bool
  er_booked :: "(string \<times> int option) option"

definition estimate_record_of :: "doc_clock \<Rightarrow> doc_words \<Rightarrow> tax_setup \<Rightarrow> line_row list \<Rightarrow> estimate_row \<Rightarrow> estimate_record" where
  "estimate_record_of ck d tax lines row =
    (let status = estimate_shown row;
         pricing = price_doc (dw_rate d) (priced_rows line_included lines) (document_rates ck tax lines (es_accepted row)) False
     in \<lparr>er_status = status, er_label = valid_label_of ck row status, er_taxes = dp_taxes pricing, er_totals = estimate_totals d row pricing,
         er_notes = map (addon_note_of row) lines,
         er_can_edit = (status = ''draft'' \<or> status = ''sent''), er_can_send = (status = ''draft''), er_can_mark = (status = ''sent''),
         er_can_convert = estimate_can_convert status row,
         er_on_visit = (estimate_convertible status row \<and> es_booking row \<noteq> None),
         er_can_book = estimate_can_book status row,
         er_booked = (case (es_booking row, es_booking_starts row) of (Some b, Some t) \<Rightarrow> Some (b, stamp_of ck t) | _ \<Rightarrow> None)\<rparr>)"

text \<open>An estimate bills once: converted or booked, it is neither converted nor booked again, and while its visit keeps it
  from being converted the record says so.\<close>

lemma estimate_bills_once:
  "let r = estimate_record_of ck d tax lines row
   in (es_invoice row \<noteq> None \<or> es_booking row \<noteq> None \<longrightarrow> \<not> er_can_convert r \<and> \<not> er_can_book r)
    \<and> (er_can_book r \<longrightarrow> er_can_convert r)
    \<and> (er_on_visit r \<longrightarrow> es_booking row \<noteq> None \<and> \<not> er_can_convert r)"
  by (auto simp: estimate_record_of_def estimate_can_convert_def estimate_convertible_def estimate_can_book_def estimate_shown_def Let_def)

text \<open>The totals of an open estimate add up to the cent.\<close>

lemma open_estimate_adds_up:
  "es_accepted row = None \<Longrightarrow>
    tl_cents (last (er_totals (estimate_record_of ck d tax lines row)))
      = sum_list (map tl_cents (butlast (er_totals (estimate_record_of ck d tax lines row))))"
  by (simp add: estimate_record_of_def estimate_totals_def Let_def butlast_append tax_rows_def total_row_def price_doc_def comp_def)

section \<open>Commands on a document\<close>

text \<open>\<open>useInvoiceActions\<close>: one command at a time, each with the key of its path until it has been answered.\<close>

record 'r doc_actions =
  da_action :: async_action
  da_notice :: "string option"
  da_attempt :: "'r attempt option"

definition command_begin :: "string \<Rightarrow> 'r \<Rightarrow> 'r doc_actions \<Rightarrow> 'r doc_actions \<times> string option" where
  "command_begin fresh path s =
    (let (key, ref) = attempt_key fresh (da_attempt s) path; s1 = s\<lparr>da_notice := None, da_attempt := ref\<rparr>
     in case action_start (da_action s1) of None \<Rightarrow> (s1, None) | Some a \<Rightarrow> (s1\<lparr>da_action := a\<rparr>, Some key))"

text \<open>\<open>actionFailure\<close>: a lost connection may have reached the server, so only a refusal says that nothing changed;
  \<open>lost\<close> is \<open>isConnectionFailure\<close>.\<close>

definition action_failed :: "(json \<Rightarrow> bool) \<Rightarrow> json \<Rightarrow> message" where
  "action_failed lost e = (if lost e then Caption ''actionUnconfirmed'' else failure_message e ''actionError'')"

definition command_end :: "(message \<Rightarrow> string) \<Rightarrow> (json \<Rightarrow> bool) \<Rightarrow> ('a \<Rightarrow> string) \<Rightarrow> json + 'a \<Rightarrow> 'r doc_actions \<Rightarrow> 'r doc_actions" where
  "command_end word lost message answer s =
    (case answer of
       Inl e \<Rightarrow> s\<lparr>da_action := action_end (Some (word (action_failed lost e))) (da_action s)\<rparr>
     | Inr x \<Rightarrow> s\<lparr>da_attempt := None, da_notice := Some (message x), da_action := action_end None (da_action s)\<rparr>)"

definition command_dismiss :: "'r doc_actions \<Rightarrow> 'r doc_actions" where
  "command_dismiss s = s\<lparr>da_notice := None, da_action := action_set_error None (da_action s)\<rparr>"

text \<open>A command whose answer was lost goes out again under its key; after an answer the next one gets a new key.\<close>

lemma lost_command_repeats:
  assumes "command_begin f1 path s = (s1, Some key)"
  shows "snd (command_begin f2 path (command_dismiss (command_end word lost msg (Inl e) s1))) = Some key"
proof -
  have k: "attempt_key f1 (da_attempt s) path = (key, da_attempt s1)"
    using assms by (auto simp: command_begin_def Let_def split: prod.splits option.splits)
  have "\<exists>a. da_attempt s1 = Some a \<and> at_key a = key \<and> at_request a = path" using k by (rule attempt_key_cases) auto
  then show ?thesis
    by (auto simp: command_begin_def command_end_def command_dismiss_def action_end_def action_set_error_def action_start_def attempt_key_def Let_def)
qed

lemma answered_command_is_over:
  "snd (command_begin f2 path (command_end word lost msg (Inr x) s)) = Some f2"
  by (simp add: command_begin_def command_end_def action_end_def action_start_def attempt_key_def Let_def)

text \<open>\<open>useEstimateActions\<close>: sending and converting keep a key each, accepting and declining send none.\<close>

datatype estimate_command = Send_Estimate | Accept_Estimate | Decline_Estimate | Convert_Estimate

record estimate_actions =
  ea_action :: async_action
  ea_notice :: "string option"
  ea_send_key :: "string attempt option"
  ea_convert_key :: "string attempt option"

definition estimate_key :: "string \<Rightarrow> estimate_command \<Rightarrow> string \<Rightarrow> estimate_actions \<Rightarrow> string option \<times> estimate_actions" where
  "estimate_key fresh c i s =
    (case c of
       Send_Estimate \<Rightarrow> (let (key, ref) = attempt_key fresh (ea_send_key s) i in (Some key, s\<lparr>ea_send_key := ref\<rparr>))
     | Convert_Estimate \<Rightarrow> (let (key, ref) = attempt_key fresh (ea_convert_key s) i in (Some key, s\<lparr>ea_convert_key := ref\<rparr>))
     | _ \<Rightarrow> (None, s))"

definition estimate_begin :: "string \<Rightarrow> estimate_command \<Rightarrow> string \<Rightarrow> estimate_actions \<Rightarrow> estimate_actions \<times> (estimate_command \<times> string \<times> string option) option" where
  "estimate_begin fresh c i s =
    (let (key, s1) = estimate_key fresh c i s; s2 = s1\<lparr>ea_notice := None\<rparr>
     in case action_start (ea_action s2) of None \<Rightarrow> (s2, None) | Some a \<Rightarrow> (s2\<lparr>ea_action := a\<rparr>, Some (c, i, key)))"

definition estimate_end ::
  "(message \<Rightarrow> string) \<Rightarrow> (json \<Rightarrow> bool) \<Rightarrow> ('a \<Rightarrow> string) \<Rightarrow> estimate_command \<Rightarrow> json + 'a \<Rightarrow> estimate_actions \<Rightarrow> estimate_actions" where
  "estimate_end word lost message c answer s =
    (case answer of
       Inl e \<Rightarrow> s\<lparr>ea_action := action_end (Some (word (action_failed lost e))) (ea_action s)\<rparr>
     | Inr x \<Rightarrow>
         (let s1 = s\<lparr>ea_notice := Some (message x), ea_action := action_end None (ea_action s)\<rparr>
          in case c of Send_Estimate \<Rightarrow> s1\<lparr>ea_send_key := None\<rparr> | Convert_Estimate \<Rightarrow> s1\<lparr>ea_convert_key := None\<rparr> | _ \<Rightarrow> s1))"

text \<open>A conversion whose answer was lost is repeated under its key even after the estimate was sent, accepted or declined in
  between, so it makes one invoice.\<close>

lemma lost_conversion_repeats:
  assumes "estimate_begin f1 Convert_Estimate i s = (s1, Some (c, j, key))"
    and "s2 = estimate_end word lost msg Convert_Estimate (Inl e) s1" "c' \<noteq> Convert_Estimate"
  shows "snd (estimate_begin f3 Convert_Estimate i (estimate_end word lost msg c' answer (fst (estimate_begin f2 c' i s2)))) = Some (Convert_Estimate, i, key)"
proof -
  obtain k ref where k: "attempt_key f1 (ea_convert_key s) i = (k, ref)" by fastforce
  then have "\<exists>a. ref = Some a \<and> at_key a = k \<and> at_request a = i" by (auto elim: attempt_key_cases)
  moreover have "key = Some k" "ea_convert_key s1 = ref"
    using assms(1) k by (auto simp: estimate_begin_def estimate_key_def Let_def split: option.splits)
  moreover have kept: "ea_convert_key (fst (estimate_begin f2 c' i s2)) = ea_convert_key s1"
    using assms(2,3) by (cases c') (auto simp: estimate_begin_def estimate_key_def estimate_end_def Let_def split: option.splits prod.splits)
  moreover have "ea_convert_key (estimate_end word lost msg c' answer t) = ea_convert_key t"
      "\<not> aa_running (ea_action (estimate_end word lost msg c' answer t))" for t
    using assms(3) by (cases c'; auto simp: estimate_end_def action_end_def Let_def split: sum.split)+
  ultimately show ?thesis
    by (auto simp: estimate_begin_def [of f3] estimate_key_def attempt_key_def action_start_def Let_def)
qed

end
