(* ===== verification/Composer.thy ===== *)
theory Composer
  imports Documents
begin

text \<open>
  The invoice and estimate composer (\<open>useDocComposer\<close>, \<open>app-core/src/domain/billing.ts\<close>): its lines with their live
  totals, saving a draft and sending it. A handler that awaits is split there; the kind is a property of the hook
  that the phone's editor lets the person change while composing.
\<close>

section \<open>Drafts\<close>

datatype doc_kind = Invoice_Doc | Estimate_Doc

datatype doc_terms = On_Receipt | In_7_Days | In_14_Days | In_30_Days

fun term_days :: "doc_terms \<Rightarrow> int" where
  "term_days On_Receipt = 0" | "term_days In_7_Days = 7" | "term_days In_14_Days = 14" | "term_days In_30_Days = 30"

record draft_line =
  ln_description :: string
  ln_quantity :: string
  ln_unit :: string
  ln_item :: "string option"
  ln_booking :: "string option"
  ln_staff :: "string option"
  ln_class :: item_tax_class
  ln_optional :: bool
  ln_discount :: "sale_discount option"

record keyed_line = draft_line +
  ln_key :: string

record doc_draft =
  dd_id :: string
  dd_number :: "int option"
  dd_client :: string
  dd_notes :: string
  dd_discount :: "sale_discount option"
  dd_lines :: "draft_line list"

definition draft_line_of :: "amount_locale \<Rightarrow> (rat \<Rightarrow> string) \<Rightarrow> line_row \<Rightarrow> draft_line" where
  "draft_line_of lo print l = \<lparr>ln_description = lr_description l, ln_quantity = print (lr_quantity l),
     ln_unit = format_amount_input lo (lr_unit l), ln_item = lr_item l, ln_booking = lr_booking l, ln_staff = lr_staff l,
     ln_class = as_tax_class (Some (lr_class l)), ln_optional = (lr_optional l = Some 1),
     ln_discount = stored_discount (lr_discount_kind l) (lr_discount_value l) (lr_discount_reason l)\<rparr>"

text \<open>\<open>docDraft\<close> of an invoice and of an estimate; \<open>print\<close> is \<open>formatNumber\<close> without grouping.\<close>

definition invoice_draft :: "amount_locale \<Rightarrow> (rat \<Rightarrow> string) \<Rightarrow> invoice_row \<Rightarrow> line_row list \<Rightarrow> doc_draft" where
  "invoice_draft lo print row lines = \<lparr>dd_id = iv_id row, dd_number = iv_number row, dd_client = iv_client row,
     dd_notes = (case iv_notes row of Some n \<Rightarrow> n | None \<Rightarrow> []),
     dd_discount = stored_discount (iv_discount_kind row) (iv_discount_value row) (iv_discount_reason row),
     dd_lines = map (draft_line_of lo print) lines\<rparr>"

definition estimate_draft :: "amount_locale \<Rightarrow> (rat \<Rightarrow> string) \<Rightarrow> estimate_row \<Rightarrow> line_row list \<Rightarrow> doc_draft" where
  "estimate_draft lo print row lines = \<lparr>dd_id = es_id row, dd_number = es_number row, dd_client = es_client row,
     dd_notes = (case es_notes row of Some n \<Rightarrow> n | None \<Rightarrow> []),
     dd_discount = stored_discount (es_discount_kind row) (es_discount_value row) (es_discount_reason row),
     dd_lines = map (draft_line_of lo print) lines\<rparr>"

text \<open>\<open>keyed\<close>: the next key of the module's counter.\<close>

definition keyed :: "nat \<Rightarrow> draft_line \<Rightarrow> keyed_line" where
  "keyed n l = draft_line.extend l \<lparr>ln_key = ''l'' @ int_string (int n)\<rparr>"

definition blank_fields :: draft_line where
  "blank_fields = \<lparr>ln_description = [], ln_quantity = ''1'', ln_unit = [], ln_item = None, ln_booking = None, ln_staff = None,
     ln_class = Standard, ln_optional = False, ln_discount = None\<rparr>"

definition qty_of :: "amount_locale \<Rightarrow> 'a draft_line_scheme \<Rightarrow> rat" where
  "qty_of lo l = (case parse_number lo (ln_quantity l) of Some q \<Rightarrow> q | None \<Rightarrow> 0)"

definition unit_of :: "amount_locale \<Rightarrow> 'a draft_line_scheme \<Rightarrow> int" where
  "unit_of lo l = (case parse_cents lo (ln_unit l) of Some c \<Rightarrow> c | None \<Rightarrow> 0)"

definition is_blank :: "'a draft_line_scheme \<Rightarrow> bool" where
  "is_blank l \<longleftrightarrow> js_trim (ln_description l) = [] \<and> js_trim (ln_unit l) = []"

section \<open>State and surroundings\<close>

record body_line =
  bl_description :: string
  bl_quantity :: rat
  bl_unit :: int
  bl_item :: "string option"
  bl_booking :: "string option"
  bl_staff :: "string option"
  bl_class :: item_tax_class
  bl_discount :: "sale_discount option"
  bl_optional :: "bool option" \<comment> \<open>absent in an invoice\<close>

datatype due_field = Due_At string | Valid_To string

record doc_body =
  db_client :: "string option" \<comment> \<open>absent once the document exists\<close>
  db_lines :: "body_line list"
  db_discount :: "sale_discount option option" \<comment> \<open>absent when untouched\<close>
  db_notes :: "string option"
  db_due :: due_field

record composer =
  cp_client :: string
  cp_lines :: "keyed_line list"
  cp_seq :: nat
  cp_chosen :: bool
  cp_message :: string
  cp_discount :: "sale_discount option"
  cp_discount_touched :: bool
  cp_terms :: doc_terms
  cp_attempted :: bool
  cp_dirty :: bool
  cp_saved :: "string option"
  cp_sent :: "doc_kind option"
  cp_doc :: "string option"
  cp_save :: async_action
  cp_send :: async_action
  cp_key :: "(doc_kind \<times> doc_body) attempt option"
  cp_send_key :: "(doc_kind \<times> string) attempt option"

text \<open>What the hook reads: how amounts are typed, the rates in force, the clock.\<close>

record composer_env =
  ev_locale :: amount_locale
  ev_rates :: "doc_rate list"
  ev_offsets :: offsets
  ev_zone :: string
  ev_now :: int

definition open_composer :: "nat \<Rightarrow> doc_draft option \<Rightarrow> composer" where
  "open_composer n draft =
    (let ls = (case draft of Some d \<Rightarrow> dd_lines d | None \<Rightarrow> [])
     in \<lparr>cp_client = (case draft of Some d \<Rightarrow> dd_client d | None \<Rightarrow> []), cp_lines = map2 keyed [n + 1..<n + 1 + length ls] ls,
         cp_seq = n + length ls, cp_chosen = False, cp_message = (case draft of Some d \<Rightarrow> dd_notes d | None \<Rightarrow> []),
         cp_discount = Option.bind draft dd_discount, cp_discount_touched = False, cp_terms = In_14_Days, cp_attempted = False,
         cp_dirty = False, cp_saved = None, cp_sent = None, cp_doc = map_option dd_id draft, cp_save = idle_action, cp_send = idle_action,
         cp_key = None, cp_send_key = None\<rparr>)"

section \<open>The live totals\<close>

definition line_gross :: "amount_locale \<Rightarrow> 'a draft_line_scheme \<Rightarrow> int" where
  "line_gross lo l = js_round (qty_of lo l * of_int (unit_of lo l))"

definition line_off :: "amount_locale \<Rightarrow> 'a draft_line_scheme \<Rightarrow> int" where
  "line_off lo l = discount_cents (line_gross lo l) (ln_discount l)"

definition line_base :: "amount_locale \<Rightarrow> 'a draft_line_scheme \<Rightarrow> int" where
  "line_base lo l = line_gross lo l - line_off lo l"

definition line_counted :: "'a draft_line_scheme \<Rightarrow> bool" where
  "line_counted l \<longleftrightarrow> \<not> is_blank l \<and> \<not> ln_optional l"

definition doc_weights :: "amount_locale \<Rightarrow> composer \<Rightarrow> int list" where
  "doc_weights lo s = map (\<lambda>l. if line_counted l then line_base lo l else 0) (cp_lines s)"

definition doc_base :: "amount_locale \<Rightarrow> composer \<Rightarrow> int" where
  "doc_base lo s = sum_list (doc_weights lo s)"

definition doc_off :: "amount_locale \<Rightarrow> composer \<Rightarrow> int" where
  "doc_off lo s = discount_cents (doc_base lo s) (cp_discount s)"

definition line_nets :: "amount_locale \<Rightarrow> composer \<Rightarrow> int list" where
  "line_nets lo s = map2 (-) (map (line_base lo) (cp_lines s)) (allocate (doc_off lo s) (doc_weights lo s))"

definition composer_pricing :: "(string \<Rightarrow> rat \<Rightarrow> string) \<Rightarrow> composer_env \<Rightarrow> composer \<Rightarrow> doc_pricing" where
  "composer_pricing label env s =
    price_doc label (map2 (\<lambda>l net. \<lparr>pl_amount = net, pl_class = ln_class l, pl_included = line_counted l\<rparr>) (cp_lines s) (line_nets (ev_locale env) s))
      (ev_rates env) False"

definition line_discounts :: "amount_locale \<Rightarrow> composer \<Rightarrow> int" where
  "line_discounts lo s = sum_list (map (\<lambda>l. if line_counted l then line_off lo l else 0) (cp_lines s))"

definition composer_totals :: "doc_words \<Rightarrow> composer_env \<Rightarrow> composer \<Rightarrow> total_line list" where
  "composer_totals d env s =
    (let pricing = composer_pricing (dw_rate d) env s; lo = ev_locale env; lines = line_discounts lo s; off = doc_off lo s
     in (if 0 < lines + off then
           total_row ''gross'' (dw_caption d ''itemsTotal'') (dp_subtotal pricing + lines + off) Subtotal_Row
           # (if 0 < lines then [total_row ''lineDisc'' (dw_caption d ''lineDiscounts'') lines Credit_Row] else [])
           @ (if 0 < off then [(total_row ''docDisc'' (dw_caption d ''docDiscount'') off Credit_Row)
                                 \<lparr>tl_hint := Option.bind (cp_discount s) disc_reason\<rparr>] else [])
         else [])
      @ total_row ''subtotal'' (dw_caption d ''subtotal'') (dp_subtotal pricing) Subtotal_Row # tax_rows (dp_taxes pricing)
      @ [total_row ''total'' (dw_caption d ''total'') (dp_total pricing) Total_Row])"

section \<open>What is sent\<close>

definition filled_lines :: "composer \<Rightarrow> keyed_line list" where
  "filled_lines s = filter (\<lambda>l. \<not> is_blank l) (cp_lines s)"

definition line_incomplete :: "amount_locale \<Rightarrow> 'a draft_line_scheme \<Rightarrow> bool" where
  "line_incomplete lo l \<longleftrightarrow> \<not> is_blank l \<and> (js_trim (ln_description l) = [] \<or> unit_of lo l \<le> 0 \<or> qty_of lo l \<le> 0)"

definition composer_valid :: "amount_locale \<Rightarrow> composer \<Rightarrow> bool" where
  "composer_valid lo s \<longleftrightarrow> cp_client s \<noteq> [] \<and> (\<exists>l\<in>set (filled_lines s). \<not> ln_optional l)
    \<and> \<not> (\<exists>l\<in>set (cp_lines s). \<not> is_blank l \<and> (js_trim (ln_description l) = [] \<or> line_gross lo l \<le> 0))"

text \<open>Only invoices offer the pay-now term.\<close>

definition terms_of :: "doc_kind \<Rightarrow> composer \<Rightarrow> doc_terms" where
  "terms_of kind s = (if kind = Estimate_Doc \<and> cp_terms s = On_Receipt then In_14_Days else cp_terms s)"

definition body_line_of :: "amount_locale \<Rightarrow> doc_kind \<Rightarrow> keyed_line \<Rightarrow> body_line" where
  "body_line_of lo kind l = \<lparr>bl_description = js_trim (ln_description l), bl_quantity = qty_of lo l, bl_unit = unit_of lo l, bl_item = ln_item l,
     bl_booking = ln_booking l, bl_staff = ln_staff l, bl_class = ln_class l, bl_discount = ln_discount l,
     bl_optional = (if kind = Estimate_Doc then Some (ln_optional l) else None)\<rparr>"

definition doc_body_of :: "doc_kind \<Rightarrow> doc_draft option \<Rightarrow> composer_env \<Rightarrow> composer \<Rightarrow> doc_body" where
  "doc_body_of kind draft env s =
    (let due = to_iso (add_days (ev_offsets env) (ev_now env) (term_days (terms_of kind s)) (ev_zone env))
     in \<lparr>db_client = (if draft = None \<and> cp_doc s = None then Some (cp_client s) else None),
         db_lines = map (body_line_of (ev_locale env) kind) (filled_lines s),
         db_discount = (if cp_discount_touched s \<or> cp_doc s = None then Some (cp_discount s) else None),
         db_notes = blank_to_null (cp_message s),
         db_due = (if kind = Invoice_Doc then Due_At due else Valid_To (take 10 due))\<rparr>)"

datatype doc_request = Create_Doc doc_kind doc_body string | Change_Doc doc_kind string doc_body

text \<open>\<open>saveDraft\<close> and \<open>send\<close> up to their request: the key is the one of this document's path and body.\<close>

definition composer_request :: "doc_kind \<Rightarrow> doc_body \<Rightarrow> string \<Rightarrow> composer \<Rightarrow> doc_request" where
  "composer_request kind body key s = (case cp_doc s of Some i \<Rightarrow> Change_Doc kind i body | None \<Rightarrow> Create_Doc kind body key)"

definition save_draft_begin :: "doc_kind \<Rightarrow> doc_draft option \<Rightarrow> composer_env \<Rightarrow> string \<Rightarrow> composer \<Rightarrow> composer \<times> doc_request option" where
  "save_draft_begin kind draft env fresh s =
    (let s1 = s\<lparr>cp_attempted := True\<rparr>
     in if \<not> composer_valid (ev_locale env) s then (s1, None)
        else let body = doc_body_of kind draft env s; (key, ref) = attempt_key fresh (cp_key s) (kind, body); s2 = s1\<lparr>cp_key := ref\<rparr>
             in case action_start (cp_save s2) of
                  None \<Rightarrow> (s2, None) | Some a \<Rightarrow> (s2\<lparr>cp_save := a\<rparr>, Some (composer_request kind body key s)))"

definition send_begin :: "doc_kind \<Rightarrow> doc_draft option \<Rightarrow> composer_env \<Rightarrow> string \<Rightarrow> composer \<Rightarrow> composer \<times> doc_request option" where
  "send_begin kind draft env fresh s =
    (let s1 = s\<lparr>cp_attempted := True\<rparr>
     in if \<not> composer_valid (ev_locale env) s then (s1, None)
        else let body = doc_body_of kind draft env s; (key, ref) = attempt_key fresh (cp_key s) (kind, body); s2 = s1\<lparr>cp_key := ref\<rparr>
             in case action_start (cp_send s2) of
                  None \<Rightarrow> (s2, None) | Some a \<Rightarrow> (s2\<lparr>cp_send := a\<rparr>, Some (composer_request kind body key s)))"

text \<open>Their answers: a creation carries the new id. \<open>send\<close> then asks for a review of that document.\<close>

fun answered_id :: "doc_request \<Rightarrow> string \<Rightarrow> string" where
  "answered_id (Create_Doc kind body key) i = i"
| "answered_id (Change_Doc kind j body) i = j"

fun keep_id :: "doc_request \<Rightarrow> string \<Rightarrow> composer \<Rightarrow> composer" where
  "keep_id (Create_Doc kind body key) i s = s\<lparr>cp_doc := Some i\<rparr>"
| "keep_id (Change_Doc kind j body) i s = s"

definition save_draft_end :: "string \<Rightarrow> string \<Rightarrow> doc_request \<Rightarrow> json + string \<Rightarrow> composer \<Rightarrow> composer" where
  "save_draft_end save_error draft_saved r answer s =
    (case answer of
       Inl e \<Rightarrow> s\<lparr>cp_save := action_end (Some save_error) (cp_save s)\<rparr>
     | Inr i \<Rightarrow> (keep_id r i s)\<lparr>cp_dirty := False, cp_saved := Some draft_saved, cp_save := action_end None (cp_save s)\<rparr>)"

definition send_saved :: "string \<Rightarrow> doc_request \<Rightarrow> json + string \<Rightarrow> composer \<Rightarrow> composer \<times> string option" where
  "send_saved send_error r answer s =
    (case answer of
       Inl e \<Rightarrow> (s\<lparr>cp_send := action_end (Some send_error) (cp_send s)\<rparr>, None)
     | Inr i \<Rightarrow> ((keep_id r i s)\<lparr>cp_dirty := False, cp_send := action_end None (cp_send s)\<rparr>, Some (answered_id r i)))"

text \<open>\<open>deliver\<close>, once the review was confirmed.\<close>

definition deliver_begin :: "doc_kind \<Rightarrow> string \<Rightarrow> string \<Rightarrow> composer \<Rightarrow> composer \<times> (doc_kind \<times> string \<times> string) option" where
  "deliver_begin kind i fresh s =
    (let (key, ref) = attempt_key fresh (cp_send_key s) (kind, i); s1 = s\<lparr>cp_send_key := ref\<rparr>
     in case action_start (cp_send s1) of None \<Rightarrow> (s1, None) | Some a \<Rightarrow> (s1\<lparr>cp_send := a\<rparr>, Some (kind, i, key)))"

definition deliver_end :: "string \<Rightarrow> doc_kind \<Rightarrow> json + unit \<Rightarrow> composer \<Rightarrow> composer" where
  "deliver_end send_error kind answer s =
    (case answer of
       Inl e \<Rightarrow> s\<lparr>cp_send := action_end (Some send_error) (cp_send s)\<rparr>
     | Inr u \<Rightarrow> s\<lparr>cp_send_key := None, cp_sent := Some kind, cp_send := action_end None (cp_send s)\<rparr>)"

section \<open>Editing\<close>

definition touch :: "composer \<Rightarrow> composer" where
  "touch s = s\<lparr>cp_dirty := True, cp_saved := None, cp_key := None\<rparr>"

definition set_client :: "string \<Rightarrow> composer \<Rightarrow> composer" where
  "set_client i s = (touch s)\<lparr>cp_chosen := True, cp_client := i\<rparr>"

text \<open>A patch of a line's fields leaves its key.\<close>

definition set_line :: "string \<Rightarrow> (draft_line \<Rightarrow> draft_line) \<Rightarrow> composer \<Rightarrow> composer" where
  "set_line k f s = (touch s)\<lparr>cp_lines := map (\<lambda>l. if ln_key l = k then draft_line.extend (f (draft_line.truncate l)) \<lparr>ln_key = k\<rparr> else l) (cp_lines s)\<rparr>"

definition add_line :: "composer \<Rightarrow> composer" where
  "add_line s = (touch s)\<lparr>cp_seq := cp_seq s + 1, cp_lines := cp_lines s @ [keyed (cp_seq s + 1) blank_fields]\<rparr>"

definition remove_line :: "string \<Rightarrow> composer \<Rightarrow> composer" where
  "remove_line k s = (touch s)\<lparr>cp_lines := filter (\<lambda>l. ln_key l \<noteq> k) (cp_lines s)\<rparr>"

definition set_line_discount :: "string \<Rightarrow> sale_discount option \<Rightarrow> composer \<Rightarrow> composer" where
  "set_line_discount k d s = (touch s)\<lparr>cp_lines := map (\<lambda>l. if ln_key l = k then l\<lparr>ln_discount := d\<rparr> else l) (cp_lines s)\<rparr>"

definition set_doc_discount :: "sale_discount option \<Rightarrow> composer \<Rightarrow> composer" where
  "set_doc_discount d s = (touch s)\<lparr>cp_discount_touched := True, cp_discount := d\<rparr>"

definition set_terms :: "doc_terms \<Rightarrow> composer \<Rightarrow> composer" where
  "set_terms t s = (touch s)\<lparr>cp_terms := t\<rparr>"

definition set_message :: "string \<Rightarrow> composer \<Rightarrow> composer" where
  "set_message v s = (touch s)\<lparr>cp_message := v\<rparr>"

record catalog_pick =
  ct_id :: string
  ct_kind :: string
  ct_name :: string
  ct_price :: "int option"
  ct_class :: string

definition picked_line :: "amount_locale \<Rightarrow> int option \<Rightarrow> catalog_pick \<Rightarrow> draft_line" where
  "picked_line lo member item = \<lparr>ln_description = ct_name item, ln_quantity = ''1'', ln_unit = format_amount_input lo (or_zero (ct_price item)),
     ln_item = Some (ct_id item), ln_booking = None, ln_staff = None, ln_class = as_tax_class (Some (ct_class item)), ln_optional = False,
     ln_discount = (if ct_kind item = ''product'' then map_option member_discount member else None)\<rparr>"

definition add_catalog_item :: "amount_locale \<Rightarrow> int option \<Rightarrow> catalog_pick \<Rightarrow> composer \<Rightarrow> composer" where
  "add_catalog_item lo member item s =
    (let line = keyed (cp_seq s + 1) (picked_line lo member item); ls = cp_lines s
     in (touch s)\<lparr>cp_seq := cp_seq s + 1, cp_lines := (if ls \<noteq> [] \<and> is_blank (last ls) then butlast ls @ [line] else ls @ [line])\<rparr>)"

text \<open>The effect that runs when the member discount of the client or the retail items change.\<close>

definition member_effect :: "string set \<Rightarrow> int option \<Rightarrow> composer \<Rightarrow> composer" where
  "member_effect retail bps s =
    (if \<not> cp_chosen s then s
     else s\<lparr>cp_lines := map (\<lambda>l. l\<lparr>ln_discount := with_member_discount (ln_discount l) (case ln_item l of Some i \<Rightarrow> i \<in> retail | None \<Rightarrow> False) bps\<rparr>)
               (cp_lines s)\<rparr>)"

definition start_over :: "composer \<Rightarrow> composer" where
  "start_over s = s\<lparr>cp_sent := None, cp_saved := None, cp_attempted := False, cp_dirty := False, cp_doc := None, cp_client := [],
     cp_message := [], cp_discount := None, cp_discount_touched := False, cp_lines := [], cp_key := None\<rparr>"

section \<open>What is shown is what is sent\<close>

text \<open>What the lines of a request come to, before the document's own discount.\<close>

definition body_line_base :: "body_line \<Rightarrow> int" where
  "body_line_base l = (let gross = js_round (bl_quantity l * of_int (bl_unit l)) in gross - discount_cents gross (bl_discount l))"

definition body_base :: "doc_body \<Rightarrow> int" where
  "body_base b = sum_list (map body_line_base (filter (\<lambda>l. bl_optional l \<noteq> Some True) (db_lines b)))"

lemma body_line_base_of: "body_line_base (body_line_of lo kind l) = line_base lo l"
  by (simp add: body_line_base_def body_line_of_def line_base_def line_off_def line_gross_def Let_def)

lemma line_base_nonneg: "0 \<le> line_gross lo l \<Longrightarrow> 0 \<le> line_base lo l"
  by (simp add: line_base_def line_off_def discount_cents_le)

lemma counted_gross: "composer_valid lo s \<Longrightarrow> l \<in> set (cp_lines s) \<Longrightarrow> line_counted l \<Longrightarrow> 0 < line_gross lo l"
  by (force simp: composer_valid_def line_counted_def)

lemma doc_weights_nonneg: "composer_valid lo s \<Longrightarrow> w \<in> set (doc_weights lo s) \<Longrightarrow> 0 \<le> w"
  using counted_gross by (force simp: doc_weights_def intro: line_base_nonneg)

lemma length_doc_weights [simp]: "length (doc_weights lo s) = length (cp_lines s)"
  by (simp add: doc_weights_def)

lemma doc_off_bounds:
  assumes "composer_valid lo s"
  shows "0 \<le> doc_off lo s" "doc_off lo s \<le> doc_base lo s"
proof -
  have "0 \<le> doc_base lo s" unfolding doc_base_def using doc_weights_nonneg [OF assms] by (rule sum_list_int_nonneg)
  then show "0 \<le> doc_off lo s" "doc_off lo s \<le> doc_base lo s"
    by (simp_all add: doc_off_def discount_cents_bounds discount_cents_le)
qed

text \<open>A line that does not count takes no share of the document's discount.\<close>

lemma counted_nets:
  fixes f :: "'a \<Rightarrow> int" and shares :: "int list"
  assumes "length shares = length ls" "\<And>j. j < length ls \<Longrightarrow> 0 \<le> shares ! j \<and> shares ! j \<le> (if P (ls ! j) then f (ls ! j) else 0)"
  shows "sum_list (map snd (filter (P \<circ> fst) (zip ls (map2 (-) (map f ls) shares))))
    = sum_list (map (\<lambda>l. if P l then f l else 0) ls) - sum_list shares"
  using assms
proof (induction shares ls rule: list_induct2)
  case (Cons x xs y ys)
  have "0 \<le> xs ! j \<and> xs ! j \<le> (if P (ys ! j) then f (ys ! j) else 0)" if "j < length ys" for j
    using Cons.prems [of "Suc j"] that by (auto split: if_splits)
  moreover have "0 \<le> x \<and> x \<le> (if P y then f y else 0)" using Cons.prems [of 0] by (auto split: if_splits)
  ultimately show ?case using Cons.IH by (auto split: if_splits)
qed simp

lemma composer_subtotal:
  assumes "composer_valid (ev_locale env) s"
  shows "dp_subtotal (composer_pricing label env s) = doc_base (ev_locale env) s - doc_off (ev_locale env) s"
proof -
  let ?lo = "ev_locale env" and ?w = "doc_weights (ev_locale env) s" and ?ls = "cp_lines s"
  let ?shares = "allocate (doc_off ?lo s) ?w" and ?nets = "line_nets ?lo s"
  have amounts: "map pl_amount (filter pl_included (map2 (\<lambda>l net. \<lparr>pl_amount = net, pl_class = ln_class l, pl_included = line_counted l\<rparr>) ls ns))
      = map snd (filter (line_counted \<circ> fst) (zip ls ns))" for ls :: "keyed_line list" and ns
    by (induction ls ns rule: list_induct2') auto
  note w = doc_weights_nonneg [OF assms]
  have off: "0 \<le> doc_off ?lo s" "doc_off ?lo s \<le> sum_list ?w" using doc_off_bounds [OF assms] by (simp_all add: doc_base_def)
  have "0 \<le> ?shares ! j \<and> ?shares ! j \<le> (if line_counted (?ls ! j) then line_base ?lo (?ls ! j) else 0)" if "j < length ?ls" for j
    using alloc.split_part [OF w off, of j] that by (simp add: doc_weights_def)
  then have "sum_list (map snd (filter (line_counted \<circ> fst) (zip ?ls ?nets))) = sum_list ?w - sum_list ?shares"
    unfolding line_nets_def doc_weights_def by (intro counted_nets) (simp_all add: doc_weights_def)
  then show ?thesis
    unfolding composer_pricing_def price_doc_base_subtotal amounts
    using alloc.split_sum [OF w off] by (simp add: doc_base_def)
qed

lemma sum_if_cong: "(\<And>x. x \<in> set xs \<Longrightarrow> f x = g x) \<Longrightarrow> sum_list (map f xs) = sum_list (map g xs :: int list)"
  by (induction xs) auto

lemma doc_base_of_body:
  assumes "kind = Estimate_Doc \<or> (\<forall>l\<in>set (filled_lines s). \<not> ln_optional l)"
  shows "body_base (doc_body_of kind draft env s) = doc_base (ev_locale env) s"
proof -
  have "bl_optional (body_line_of lo kind l) \<noteq> Some True \<longleftrightarrow> line_counted l" if "l \<in> set (filled_lines s)" for l lo
    using that assms by (auto simp: body_line_of_def line_counted_def filled_lines_def)
  then have "filter (\<lambda>l. bl_optional (body_line_of (ev_locale env) kind l) \<noteq> Some True) (filled_lines s) = filter line_counted (filled_lines s)"
    by (intro filter_cong) auto
  also have "\<dots> = filter line_counted (cp_lines s)" by (auto simp: filled_lines_def line_counted_def intro: filter_cong)
  finally show ?thesis
    by (simp add: body_base_def doc_body_of_def Let_def filter_map comp_def body_line_base_of doc_base_def doc_weights_def sum_list_map_if)
qed

text \<open>What the document's discount is once a request is answered: the one it carries, or where it carries none the one the
  server has on record. A discount that was not touched is the one on record: so it is when a draft is opened, and no
  other edit changes it.\<close>

definition billed_discount :: "sale_discount option \<Rightarrow> doc_body \<Rightarrow> sale_discount option" where
  "billed_discount recorded b = (case db_discount b of Some d \<Rightarrow> d | None \<Rightarrow> recorded)"

definition shows_record :: "sale_discount option \<Rightarrow> composer \<Rightarrow> bool" where
  "shows_record recorded s \<longleftrightarrow> (cp_doc s \<noteq> None \<and> \<not> cp_discount_touched s \<longrightarrow> cp_discount s = recorded)"

lemma opened_shows_record: "shows_record (Option.bind draft dd_discount) (open_composer seq draft)"
  by (simp add: shows_record_def open_composer_def Let_def split: option.split)

lemma edits_show_record:
  assumes "shows_record recorded s"
  shows "shows_record recorded (set_client c s)" "shows_record recorded (set_line k f s)" "shows_record recorded (add_line s)"
    "shows_record recorded (remove_line k s)" "shows_record recorded (set_line_discount k d s)" "shows_record recorded (set_doc_discount d s)"
    "shows_record recorded (set_terms t s)" "shows_record recorded (set_message m s)" "shows_record recorded (add_catalog_item lo bps pick s)"
    "shows_record recorded (member_effect ids bps s)" "shows_record recorded (start_over s)"
  using assms
  by (simp_all add: shows_record_def set_client_def touch_def set_line_def add_line_def remove_line_def set_line_discount_def set_doc_discount_def
      set_terms_def set_message_def add_catalog_item_def member_effect_def start_over_def Let_def split: option.split)

text \<open>Until it is changed again, a document that was saved shows what its save left on record.\<close>

lemma saved_shows_record:
  assumes "save_draft_begin kind draft env fresh s = (s1, Some r)" "shows_record recorded s"
  shows "shows_record (billed_discount recorded (doc_body_of kind draft env s)) (save_draft_end err ok r (Inr i) s1)"
  using assms
  by (cases r) (auto simp: shows_record_def billed_discount_def doc_body_of_def save_draft_begin_def save_draft_end_def composer_request_def Let_def
      split: if_splits option.splits prod.splits)

text \<open>C19: the composer shows what it sends: for every document that may be saved, an estimate or an invoice without
  optional lines, the subtotal on screen is what the lines of the request come to with their discounts, less the
  discount the document has once the request is answered; the rows add up (items less the discounts shown is the
  subtotal, and that with the taxes the total), and no discount takes more than it is taken from.\<close>

theorem composer_shows_what_it_sends:
  assumes "composer_valid (ev_locale env) s" "kind = Estimate_Doc \<or> (\<forall>l\<in>set (filled_lines s). \<not> ln_optional l)"
    and "p = composer_pricing label env s" "body = doc_body_of kind draft env s" "shows_record recorded s"
  shows "dp_subtotal p = body_base body - discount_cents (body_base body) (billed_discount recorded body)
    \<and> dp_subtotal p + line_discounts (ev_locale env) s + discount_cents (body_base body) (billed_discount recorded body)
        = sum_list (map (line_gross (ev_locale env)) (filter line_counted (cp_lines s)))
    \<and> dp_total p = dp_subtotal p + sum_list (map dt_cents (dp_taxes p)) \<and> 0 \<le> dp_subtotal p
    \<and> 0 \<le> line_discounts (ev_locale env) s \<and> 0 \<le> discount_cents (body_base body) (billed_discount recorded body)"
proof -
  let ?lo = "ev_locale env"
  note sub = composer_subtotal [OF assms(1), of label, folded assms(3)]
  have "billed_discount recorded body = cp_discount s"
    using assms(5) by (auto simp: assms(4) billed_discount_def doc_body_of_def shows_record_def Let_def)
  then have off: "discount_cents (body_base body) (billed_discount recorded body) = doc_off ?lo s"
    by (simp add: assms(4) doc_base_of_body [OF assms(2)] doc_off_def)
  have base: "body_base body = doc_base ?lo s" by (simp add: assms(4) doc_base_of_body [OF assms(2)])
  have "doc_base ?lo s + line_discounts ?lo s = sum_list (map (\<lambda>l. if line_counted l then line_gross ?lo l else 0) (cp_lines s))"
    unfolding doc_base_def doc_weights_def line_discounts_def sum_list_map_add [symmetric]
    by (rule sum_if_cong) (simp add: line_base_def)
  then have "dp_subtotal p + line_discounts ?lo s + doc_off ?lo s = sum_list (map (line_gross ?lo) (filter line_counted (cp_lines s)))"
    by (simp add: sub sum_list_map_if)
  moreover have "dp_total p = dp_subtotal p + sum_list (map dt_cents (dp_taxes p))"
    by (simp add: assms(3) composer_pricing_def price_doc_def Let_def)
  moreover have "0 \<le> line_discounts ?lo s"
    unfolding line_discounts_def by (rule sum_list_map_nonneg) (simp add: line_off_def discount_cents_bounds)
  ultimately show ?thesis using sub doc_off_bounds [OF assms(1)] by (simp only: off) (simp add: base)
qed

definition demo_line :: "string \<Rightarrow> string \<Rightarrow> bool \<Rightarrow> draft_line" where
  "demo_line d u opt = blank_fields\<lparr>ln_description := d, ln_unit := u, ln_optional := opt\<rparr>"

definition demo_env :: composer_env where
  "demo_env = \<lparr>ev_locale = canadian, ev_rates = [], ev_offsets = (\<lambda>_ _. 0), ev_zone = ''UTC'', ev_now = 0\<rparr>"

text \<open>A grooming for 90.00 and, as an option, a shampoo for 24.00, for the client \<open>c1\<close>.\<close>

definition demo_doc :: composer where
  "demo_doc = set_client ''c1'' (open_composer 0 None)\<lparr>cp_lines := [keyed 1 (demo_line ''Groom'' ''90'' False), keyed 2 (demo_line ''Shampoo'' ''24'' True)]\<rparr>"

lemma demo_amounts [simp]: "parse_cents canadian ''90'' = Some 9000" "parse_cents canadian ''24'' = Some 2400" "parse_number canadian ''1'' = Some 1"
  by code_simp+

lemma demo_doc_simps [simp]:
  "cp_client demo_doc = ''c1''" "cp_doc demo_doc = None" "cp_discount demo_doc = None" "cp_key demo_doc = None"
  "\<not> aa_running (cp_save demo_doc)" "\<not> aa_running (cp_send demo_doc)"
  "cp_lines demo_doc = [keyed 1 (demo_line ''Groom'' ''90'' False), keyed 2 (demo_line ''Shampoo'' ''24'' True)]"
  by (simp_all add: demo_doc_def set_client_def touch_def open_composer_def idle_action_def)

lemma demo_line_simps [simp]:
  "line_gross canadian (keyed n (demo_line d ''90'' opt)) = 9000" "line_gross canadian (keyed n (demo_line d ''24'' opt)) = 2400"
  "line_base canadian (keyed n (demo_line d ''90'' opt)) = 9000" "line_base canadian (keyed n (demo_line d ''24'' opt)) = 2400"
  "is_blank (keyed n (demo_line d u opt)) \<longleftrightarrow> js_trim d = [] \<and> js_trim u = []" "ln_optional (keyed n (demo_line d u opt)) = opt"
  "ln_description (keyed n (demo_line d u opt)) = d"
  using js_round_of_int [of 9000] js_round_of_int [of 2400]
  by (simp_all add: keyed_def draft_line.defs demo_line_def blank_fields_def line_gross_def line_base_def line_off_def discount_cents_def qty_of_def
      unit_of_def is_blank_def)

lemma demo_trims [simp]: "js_trim ''Groom'' \<noteq> []" "js_trim ''Shampoo'' \<noteq> []"
  by code_simp+

lemma demo_doc_valid: "composer_valid canadian demo_doc"
  by (simp add: composer_valid_def filled_lines_def)

text \<open>Ten dollars off the document.\<close>

definition ten_off :: sale_discount where
  "ten_off = \<lparr>disc_kind = Amount, disc_value = 1000, disc_reason = None\<rparr>"

theorem composer_shows_what_it_sends_witness:
  "dp_subtotal (composer_pricing (\<lambda>c _. c) demo_env (set_doc_discount (Some ten_off) demo_doc)) = 8000
    \<and> db_discount (doc_body_of Estimate_Doc None demo_env (set_doc_discount (Some ten_off) demo_doc)) = Some (Some ten_off)"
proof -
  let ?s = "set_doc_discount (Some ten_off) demo_doc" and ?body = "doc_body_of Estimate_Doc None demo_env (set_doc_discount (Some ten_off) demo_doc)"
  have env: "ev_locale demo_env = canadian" by (simp add: demo_env_def)
  have s: "cp_lines ?s = cp_lines demo_doc" "cp_client ?s = cp_client demo_doc" by (simp_all add: set_doc_discount_def touch_def)
  then have valid: "composer_valid canadian ?s" using demo_doc_valid by (simp add: composer_valid_def filled_lines_def)
  have "shows_record None ?s" by (simp add: shows_record_def set_doc_discount_def touch_def)
  with composer_shows_what_it_sends [of demo_env ?s Estimate_Doc _ "\<lambda>c _. c" ?body None None, OF _ _ refl refl] valid env
  have sub: "dp_subtotal (composer_pricing (\<lambda>c _. c) demo_env ?s) = body_base ?body - discount_cents (body_base ?body) (billed_discount None ?body)" by simp
  have discount: "db_discount ?body = Some (Some ten_off)" by (simp add: doc_body_of_def set_doc_discount_def touch_def Let_def)
  have "body_base ?body = doc_base canadian ?s" using doc_base_of_body [of Estimate_Doc ?s None demo_env] env by simp
  also have "\<dots> = 9000" by (simp add: doc_base_def doc_weights_def s line_counted_def)
  finally have base: "body_base ?body = 9000" .
  have "discount_cents 9000 (Some ten_off) = 1000" by code_simp
  with sub discount base show ?thesis by (simp add: billed_discount_def)
qed

text \<open>An optional line stays optional when the phone's editor switches the estimate to an invoice: the total leaves it
  out, the invoice that is sent bills it.\<close>

lemma optional_line_billed:
  "dp_subtotal (composer_pricing label demo_env demo_doc) = 9000 \<and> composer_valid canadian demo_doc
    \<and> body_base (doc_body_of Invoice_Doc None demo_env demo_doc) = 11400"
proof -
  have "ev_locale demo_env = canadian" by (simp add: demo_env_def)
  then have "dp_subtotal (composer_pricing label demo_env demo_doc) = 9000"
    using composer_subtotal [of demo_env demo_doc label] demo_doc_valid
    by (simp add: doc_base_def doc_weights_def doc_off_def line_counted_def discount_cents_def)
  moreover have "body_base (doc_body_of Invoice_Doc None demo_env demo_doc) = 11400"
    by (simp add: body_base_def doc_body_of_def Let_def filled_lines_def body_line_base_of demo_env_def)
       (simp add: body_line_of_def)
  ultimately show ?thesis using demo_doc_valid by blast
qed

section \<open>A document is created once\<close>

datatype doc_verb = Save_Verb | Send_Verb

fun submit :: "doc_verb \<Rightarrow> doc_kind \<Rightarrow> doc_draft option \<Rightarrow> composer_env \<Rightarrow> string \<Rightarrow> composer \<Rightarrow> composer \<times> doc_request option" where
  "submit Save_Verb = save_draft_begin" | "submit Send_Verb = send_begin"

fun submit_lost :: "doc_verb \<Rightarrow> string \<Rightarrow> doc_request \<Rightarrow> json \<Rightarrow> composer \<Rightarrow> composer" where
  "submit_lost Save_Verb err r e s = save_draft_end err [] r (Inl e) s"
| "submit_lost Send_Verb err r e s = fst (send_saved err r (Inl e) s)"

definition same_document :: "composer \<Rightarrow> composer \<Rightarrow> bool" where
  "same_document s t \<longleftrightarrow> cp_client s = cp_client t \<and> cp_lines s = cp_lines t \<and> cp_message s = cp_message t \<and> cp_discount s = cp_discount t
    \<and> cp_discount_touched s = cp_discount_touched t \<and> cp_terms s = cp_terms t \<and> cp_doc s = cp_doc t"

lemma same_document_sends:
  assumes "same_document s t"
  shows "doc_body_of kind draft env s = doc_body_of kind draft env t" "composer_valid lo s = composer_valid lo t"
    "composer_request kind body key s = composer_request kind body key t"
  using assms by (simp_all add: same_document_def doc_body_of_def filled_lines_def terms_of_def composer_valid_def composer_request_def)

lemma submit_cases:
  assumes "submit v kind draft env fresh s = (s', Some r)"
  obtains key where "composer_valid (ev_locale env) s" "attempt_key fresh (cp_key s) (kind, doc_body_of kind draft env s) = (key, cp_key s')"
    "r = composer_request kind (doc_body_of kind draft env s) key s" "same_document s' s"
proof (cases "attempt_key fresh (cp_key s) (kind, doc_body_of kind draft env s)")
  case (Pair key ref)
  from assms Pair have "composer_valid (ev_locale env) s \<and> cp_key s' = ref \<and> r = composer_request kind (doc_body_of kind draft env s) key s
      \<and> same_document s' s"
    by (cases v) (auto simp: save_draft_begin_def send_begin_def Let_def same_document_def split: if_splits option.splits)
  with Pair show thesis by (intro that [of key]) auto
qed

lemma submit_lost_same: "same_document (submit_lost v err r e s) s" "cp_key (submit_lost v err r e s) = cp_key s"
  by (cases v; simp add: save_draft_end_def send_saved_def same_document_def)+

lemma submit_idle:
  assumes "submit v kind draft env fresh s = (s', Some r)" "\<not> aa_running (cp_save s)" "\<not> aa_running (cp_send s)"
  shows "\<not> aa_running (cp_save (submit_lost v err r e s'))" "\<not> aa_running (cp_send (submit_lost v err r e s'))"
  using assms by (cases v; auto simp: save_draft_begin_def send_begin_def save_draft_end_def send_saved_def Let_def action_end_def
      split: if_splits prod.splits option.splits)+

lemma submit_again:
  assumes "composer_valid (ev_locale env) s" "\<not> aa_running (cp_save s)" "\<not> aa_running (cp_send s)"
    and "cp_key s = Some a" "at_request a = (kind, doc_body_of kind draft env s)"
  shows "snd (submit v kind draft env fresh s) = Some (composer_request kind (doc_body_of kind draft env s) (at_key a) s)"
  using assms by (cases v) (simp_all add: save_draft_begin_def send_begin_def Let_def attempt_key_def action_start_def)

lemma same_day_body:
  assumes "env' = env\<lparr>ev_now := t\<rparr>" "\<And>n. add_days (ev_offsets env) t n (ev_zone env) = add_days (ev_offsets env) (ev_now env) n (ev_zone env)"
  shows "doc_body_of kind draft env' s = doc_body_of kind draft env s"
  using assms by (simp add: doc_body_of_def)

text \<open>C20: a document whose creation was not answered is not created twice: saved or sent, failed, and saved or sent again
  on the same day without an edit in between, it goes out as the same request under the same key, so the server
  returns the document it has already made. (At midnight the due date moves on, and with it the key.)\<close>

theorem lost_document_repeats:
  assumes "submit v kind draft env f1 s = (s1, Some (Create_Doc kind body key))" "\<not> aa_running (cp_save s)" "\<not> aa_running (cp_send s)"
    and "env' = env\<lparr>ev_now := t\<rparr>" "\<And>n. add_days (ev_offsets env) t n (ev_zone env) = add_days (ev_offsets env) (ev_now env) n (ev_zone env)"
  shows "snd (submit v' kind draft env' f2 (submit_lost v err (Create_Doc kind body key) e s1)) = Some (Create_Doc kind body key)"
proof -
  let ?s = "submit_lost v err (Create_Doc kind body key) e s1"
  obtain k where k: "composer_valid (ev_locale env) s" "attempt_key f1 (cp_key s) (kind, doc_body_of kind draft env s) = (k, cp_key s1)"
    "Create_Doc kind body key = composer_request kind (doc_body_of kind draft env s) k s" "same_document s1 s"
    using assms(1) by (rule submit_cases)
  from k(3) have r: "cp_doc s = None" "body = doc_body_of kind draft env s" "key = k" by (auto simp: composer_request_def split: option.splits)
  have same: "same_document ?s s" using submit_lost_same(1) [of v err _ e s1] k(4) by (simp add: same_document_def)
  have "\<exists>a. cp_key s1 = Some a \<and> at_key a = k \<and> at_request a = (kind, body)" using k(2) r(2) by (auto elim: attempt_key_cases)
  then obtain a where a: "cp_key ?s = Some a" "at_key a = key" "at_request a = (kind, body)" using r(3) submit_lost_same(2) by metis
  have b: "doc_body_of kind draft env' ?s = body"
    using same_day_body [OF assms(4,5)] same_document_sends(1) [OF same] r(2) by simp
  have "composer_valid (ev_locale env') ?s" using k(1) same_document_sends(2) [OF same] assms(4) by simp
  from submit_again [OF this submit_idle [OF assms(1-3)] a(1), of kind draft v' f2] a(2,3) b same r(1)
  show ?thesis by (simp add: composer_request_def same_document_def)
qed

theorem lost_document_repeats_witness:
  "snd (submit Send_Verb Invoice_Doc None demo_env ''k2'' (submit_lost Save_Verb [] (Create_Doc Invoice_Doc (doc_body_of Invoice_Doc None demo_env demo_doc) ''k1'') J_Null
      (fst (submit Save_Verb Invoice_Doc None demo_env ''k1'' demo_doc))))
    = Some (Create_Doc Invoice_Doc (doc_body_of Invoice_Doc None demo_env demo_doc) ''k1'')"
proof -
  have "ev_locale demo_env = canadian" by (simp add: demo_env_def)
  then have "snd (submit Save_Verb Invoice_Doc None demo_env ''k1'' demo_doc) = Some (Create_Doc Invoice_Doc (doc_body_of Invoice_Doc None demo_env demo_doc) ''k1'')"
    using demo_doc_valid by (simp add: save_draft_begin_def Let_def attempt_key_def action_start_def composer_request_def)
  then have sent: "submit Save_Verb Invoice_Doc None demo_env ''k1'' demo_doc = (fst (submit Save_Verb Invoice_Doc None demo_env ''k1'' demo_doc),
      Some (Create_Doc Invoice_Doc (doc_body_of Invoice_Doc None demo_env demo_doc) ''k1''))" by (metis prod.collapse)
  have "demo_env = demo_env\<lparr>ev_now := ev_now demo_env\<rparr>" by simp
  from lost_document_repeats [OF sent demo_doc_simps(5,6) this refl] show ?thesis .
qed

section \<open>What a saved document no longer takes\<close>

text \<open>A new draft keeps the client it was saved with: another one picked afterwards is shown, but not sent.\<close>

lemma client_change_not_sent:
  assumes "cp_doc s = Some i" "submit v kind draft env fresh (set_client c s) = (s', Some r)"
  shows "\<exists>body. r = Change_Doc kind i body \<and> db_client body = None \<and> cp_client s' = c"
  using assms by (cases v) (auto simp: save_draft_begin_def send_begin_def set_client_def touch_def Let_def composer_request_def doc_body_of_def
      split: if_splits prod.splits option.splits)

text \<open>Saved as one kind and switched to the other, a document is looked for among the documents of the new kind.\<close>

lemma switched_kind_misses_document:
  assumes "submit Save_Verb Estimate_Doc None env f1 s = (s1, Some r)" "cp_doc s = None"
    and "submit v Invoice_Doc None env f2 (save_draft_end err note r (Inr i) s1) = (s2, Some r2)"
  shows "\<exists>body. r2 = Change_Doc Invoice_Doc i body"
proof -
  have "\<exists>b k. r = Create_Doc Estimate_Doc b k" using assms(1,2)
    by (auto simp: save_draft_begin_def Let_def composer_request_def split: if_splits prod.splits option.splits)
  then have "cp_doc (save_draft_end err note r (Inr i) s1) = Some i" by (auto simp: save_draft_end_def)
  then show ?thesis using assms(3)
    by (cases v) (auto simp: save_draft_begin_def send_begin_def Let_def composer_request_def split: if_splits prod.splits option.splits)
qed

text \<open>Started over after an edited draft was sent, the next document is created without its client.\<close>

lemma started_over_without_client:
  assumes "cp_doc s = None" "submit v kind (Some draft) env fresh s = (s', Some r)"
  shows "\<exists>body key. r = Create_Doc kind body key \<and> db_client body = None"
  using assms by (cases v) (auto simp: save_draft_begin_def send_begin_def Let_def composer_request_def doc_body_of_def
      split: if_splits prod.splits option.splits)

text \<open>What is typed while a save is under way is not in it, but its answer declares the composer saved: the editor then
  closes without asking.\<close>

lemma edit_during_save_unguarded:
  "\<not> cp_dirty (save_draft_end err note r (Inr i) (set_message v s)) \<and> cp_saved (save_draft_end err note r (Inr i) (set_message v s)) = Some note
    \<and> cp_message (save_draft_end err note r (Inr i) (set_message v s)) = v"
  by (cases r) (simp_all add: save_draft_end_def set_message_def touch_def)

text \<open>A draft does not bring its terms along: opened again, any edit sends a due date two weeks from now.\<close>

lemma reopened_draft_loses_terms:
  "db_due (doc_body_of Invoice_Doc (Some d) env (set_message v (open_composer n (Some d))))
    = Due_At (to_iso (add_days (ev_offsets env) (ev_now env) 14 (ev_zone env)))"
  by (simp add: doc_body_of_def terms_of_def set_message_def touch_def open_composer_def Let_def)

section \<open>Every line keeps a key of its own\<close>

inductive composer_step :: "composer \<Rightarrow> composer \<Rightarrow> bool" where
  client: "composer_step s (set_client c s)"
| line: "composer_step s (set_line k f s)"
| added: "composer_step s (add_line s)"
| removed: "composer_step s (remove_line k s)"
| line_discount: "composer_step s (set_line_discount k d s)"
| doc_discount: "composer_step s (set_doc_discount d s)"
| terms: "composer_step s (set_terms t s)"
| message: "composer_step s (set_message v s)"
| picked: "composer_step s (add_catalog_item lo member item s)"
| member: "composer_step s (member_effect retail bps s)"
| submitted: "composer_step s (fst (submit v kind draft env fresh s))"
| save_answered: "composer_step s (save_draft_end err note r answer s)"
| send_answered: "composer_step s (fst (send_saved err r answer s))"
| delivered: "composer_step s (fst (deliver_begin kind i fresh s))"
| delivery_answered: "composer_step s (deliver_end err kind reply s)"
| restarted: "composer_step s (start_over s)"

definition doc_line_key :: "nat \<Rightarrow> string" where
  "doc_line_key n = ''l'' @ int_string (int n)"

definition keys_ok :: "composer \<Rightarrow> bool" where
  "keys_ok s \<longleftrightarrow> distinct (map ln_key (cp_lines s)) \<and> set (map ln_key (cp_lines s)) \<subseteq> doc_line_key ` {..cp_seq s}"

lemma doc_line_key_inj [simp]: "doc_line_key m = doc_line_key n \<longleftrightarrow> m = n"
  by (auto simp: doc_line_key_def int_string_def dest: dec_inj)

lemma ln_key_keyed [simp]: "ln_key (keyed n l) = doc_line_key n"
  by (simp add: keyed_def doc_line_key_def draft_line.defs)

lemma keys_ok_lines: "keys_ok s \<Longrightarrow> map ln_key (cp_lines t) = map ln_key (cp_lines s) \<Longrightarrow> cp_seq t = cp_seq s \<Longrightarrow> keys_ok t"
  by (simp add: keys_ok_def)

lemma keys_ok_subset:
  assumes "keys_ok s" "distinct (map ln_key (cp_lines t))" "set (map ln_key (cp_lines t)) \<subseteq> set (map ln_key (cp_lines s))" "cp_seq t = cp_seq s"
  shows "keys_ok t"
  using assms by (auto simp: keys_ok_def)

lemma keys_ok_append:
  assumes "keys_ok s" "distinct (map ln_key ls)" "set (map ln_key ls) \<subseteq> set (map ln_key (cp_lines s))"
    and "cp_lines t = ls @ [keyed (cp_seq s + 1) l]" "cp_seq t = cp_seq s + 1"
  shows "keys_ok t"
proof -
  have "set (map ln_key ls) \<subseteq> doc_line_key ` {..cp_seq s}" using assms(1,3) by (auto simp: keys_ok_def)
  moreover from this have "doc_line_key (cp_seq s + 1) \<notin> set (map ln_key ls)" by auto
  ultimately show ?thesis using assms(2,4,5) by (auto simp: keys_ok_def)
qed

lemma keys_ok_touched:
  "cp_lines s' = cp_lines s \<Longrightarrow> cp_seq s' = cp_seq s \<Longrightarrow> keys_ok s' \<longleftrightarrow> keys_ok s"
  by (simp add: keys_ok_def)

lemma submit_keeps_lines [simp]: "cp_lines (fst (submit v kind draft env fresh s)) = cp_lines s" "cp_seq (fst (submit v kind draft env fresh s)) = cp_seq s"
  by (cases v; simp add: save_draft_begin_def send_begin_def Let_def split: prod.splits option.splits)+

lemma answers_keep_lines [simp]:
  "cp_lines (save_draft_end err note r answer s) = cp_lines s" "cp_seq (save_draft_end err note r answer s) = cp_seq s"
  "cp_lines (fst (send_saved err r answer s)) = cp_lines s" "cp_seq (fst (send_saved err r answer s)) = cp_seq s"
  "cp_lines (fst (deliver_begin kind i fresh s)) = cp_lines s" "cp_seq (fst (deliver_begin kind i fresh s)) = cp_seq s"
  "cp_lines (deliver_end err kind reply s) = cp_lines s" "cp_seq (deliver_end err kind reply s) = cp_seq s"
  by (cases r; simp add: save_draft_end_def send_saved_def deliver_begin_def deliver_end_def Let_def split: sum.split prod.split option.split)+

lemma keys_ok_step:
  assumes "keys_ok s" "composer_step s t"
  shows "keys_ok t"
  using assms(2)
proof cases
  case (line k f)
  then show ?thesis
    by (intro keys_ok_lines [OF assms(1)]) (auto simp: set_line_def touch_def draft_line.defs)
next
  case added
  then show ?thesis using assms(1) by (intro keys_ok_append [OF assms(1), of "cp_lines s"]) (auto simp: add_line_def touch_def keys_ok_def)
next
  case (removed k)
  then show ?thesis using assms(1)
    by (intro keys_ok_subset [OF assms(1)]) (auto simp: remove_line_def touch_def keys_ok_def distinct_map_filter)
next
  case (picked lo member item)
  have "distinct (map ln_key (butlast (cp_lines s)))" using assms(1) by (simp add: keys_ok_def map_butlast distinct_butlast)
  with picked show ?thesis using assms(1)
    by (intro keys_ok_append [OF assms(1), of "if cp_lines s \<noteq> [] \<and> is_blank (last (cp_lines s)) then butlast (cp_lines s) else cp_lines s"])
      (auto simp: add_catalog_item_def touch_def keys_ok_def Let_def dest: in_set_butlastD)
next
  case (line_discount k d)
  then show ?thesis by (intro keys_ok_lines [OF assms(1)]) (auto simp: set_line_discount_def touch_def)
next
  case (member retail bps)
  then show ?thesis by (intro keys_ok_lines [OF assms(1)]) (auto simp: member_effect_def)
next
  case restarted
  then show ?thesis by (simp add: start_over_def keys_ok_def)
qed (use assms(1) in \<open>simp_all add: keys_ok_def set_client_def set_doc_discount_def set_terms_def set_message_def touch_def\<close>)

lemma keys_ok_open: "keys_ok (open_composer n draft)"
proof -
  have "map ln_key (map2 keyed [n + 1..<n + 1 + length ls] ls) = map doc_line_key [n + 1..<n + 1 + length ls]" for ls
    by (rule nth_equalityI) (auto simp del: upt_Suc)
  then show ?thesis
    by (auto simp: keys_ok_def open_composer_def Let_def distinct_map inj_on_def simp del: upt_Suc)
qed

interpretation composing: inductive_invariant "\<lambda>s. \<exists>n draft. s = open_composer n draft" composer_step keys_ok
  by unfold_locales (auto simp: keys_ok_open intro: keys_ok_step)

text \<open>However a document is composed, its lines have distinct keys, so an edit changes the line it is made on and no other.\<close>

lemma composer_lines_distinct:
  "reach (\<lambda>s. \<exists>n draft. s = open_composer n draft) composer_step s \<Longrightarrow> distinct (map ln_key (cp_lines s))"
  using composing.reach_inv by (auto simp: keys_ok_def)

end
