(* ===== verification/Identity.thy ===== *)
theory Identity
  imports Attempts
begin

text \<open>
  Signing in over the auth service (\<open>app-core/src/domain/auth.ts\<close>): reading its flows, the checks a form makes before it
  submits, what a form does with each step of a flow, the session this device holds (\<open>checkSession\<close>) and the
  clean-up of a password reset that was left before its password was saved. The auth service and the WebAuthn API
  are arguments.
\<close>

section \<open>Flows\<close>

record flow_message =
  fm_id :: int
  fm_type :: string

record flow_node =
  nd_group :: string
  nd_name :: string
  nd_value :: json
  nd_messages :: "flow_message list"

record auth_flow =
  af_id :: string
  af_kind :: string
  af_state :: "string option"
  af_messages :: "flow_message list"
  af_nodes :: "flow_node list"

text \<open>A step: done (a session token on the phone, the flow that follows), the flow again, a redirect, re-authentication, or
  a restart (\<open>True\<close> when wrong codes used the flow up).\<close>

datatype flow_step = Flow_Done "string option" "(string \<times> string) option" | Flow_Again auth_flow | Flow_Redirect string | Flow_Reauth
  | Flow_Restart bool

text \<open>Catalog texts by message id; the service's own English is never shown.\<close>

record auth_words =
  wd_messages :: "int \<Rightarrow> string option"
  wd_provider_error :: string

definition is_error :: "flow_message \<Rightarrow> bool" where
  "is_error m \<longleftrightarrow> fm_type m = ''error''"

definition flow_message_text :: "auth_words \<Rightarrow> flow_message \<Rightarrow> string option" where
  "flow_message_text w m =
    (case wd_messages w (fm_id m) of Some t \<Rightarrow> Some t | None \<Rightarrow> if is_error m then Some (wd_provider_error w) else None)"

text \<open>The form's error and the fields' (a later node of a name replaces an earlier one).\<close>

definition flow_errors :: "auth_words \<Rightarrow> auth_flow \<Rightarrow> string option \<times> (string \<times> string) list" where
  "flow_errors w f =
    (Option.bind (find is_error (af_messages f)) (flow_message_text w),
     foldl (\<lambda>fields n. case find is_error (nd_messages n) of
         None \<Rightarrow> fields
       | Some m \<Rightarrow> AList.update (nd_name n) (case flow_message_text w m of Some t \<Rightarrow> t | None \<Rightarrow> wd_provider_error w) fields) [] (af_nodes f))"

definition node_value :: "auth_flow option \<Rightarrow> string \<Rightarrow> string" where
  "node_value f name =
    (case Option.bind f (\<lambda>x. find (\<lambda>n. nd_name n = name) (af_nodes x)) of
       Some n \<Rightarrow> (case nd_value n of J_Str t \<Rightarrow> t | _ \<Rightarrow> []) | None \<Rightarrow> [])"

definition flow_notice :: "auth_words \<Rightarrow> auth_flow \<Rightarrow> string option" where
  "flow_notice w f = Option.bind (find (\<lambda>m. \<not> is_error m) (af_messages f)) (flow_message_text w)"

text \<open>An error is always told in the catalog's words, and told whenever the service reports one.\<close>

lemma errors_are_told:
  "fst (flow_errors w f) \<noteq> None \<longleftrightarrow> (\<exists>m\<in>set (af_messages f). is_error m)"
  by (auto simp: flow_errors_def flow_message_text_def find_None_iff split: option.splits bind_splits dest: find_SomeD)

text \<open>\<open>queryParam\<close>: the value after the first \<open>?name=\<close> or \<open>&name=\<close>, up to the next \<open>&\<close> or \<open>#\<close>; \<open>decode\<close> is
  \<open>decodeURIComponent\<close>.\<close>

fun raw_param :: "string \<Rightarrow> string \<Rightarrow> string option" where
  "raw_param name [] = None"
| "raw_param name (c # cs) =
    (if c \<in> {CHR ''?'', CHR ''&''} \<and> take (length name + 1) cs = name @ ''=''
     then Some (takeWhile (\<lambda>x. x \<noteq> CHR ''&'' \<and> x \<noteq> CHR ''#'') (drop (length name + 1) cs))
     else raw_param name cs)"

definition query_param :: "(string \<Rightarrow> string) \<Rightarrow> string \<Rightarrow> string \<Rightarrow> string option" where
  "query_param decode url name = map_option decode (raw_param name url)"

text \<open>\<open>/\/login(\?|$)/\<close>.\<close>

fun is_login_url :: "string \<Rightarrow> bool" where
  "is_login_url [] \<longleftrightarrow> False"
| "is_login_url (c # cs) \<longleftrightarrow> take 6 (c # cs) = ''/login'' \<and> (drop 6 (c # cs) = [] \<or> take 1 (drop 6 (c # cs)) = ''?'') \<or> is_login_url cs"

section \<open>Checks before a submission\<close>

text \<open>\<open>/^[^\s@]+@[^\s@]+\.[^\s@]+$/\<close>.\<close>

definition plain_part :: "string \<Rightarrow> bool" where
  "plain_part s \<longleftrightarrow> s \<noteq> [] \<and> (\<forall>c\<in>set s. \<not> is_space c \<and> c \<noteq> CHR ''@'')"

definition email_ok :: "string \<Rightarrow> bool" where
  "email_ok s \<longleftrightarrow>
    (let local = takeWhile (\<lambda>c. c \<noteq> CHR ''@'') s; host = drop (length local + 1) s
     in plain_part local \<and> length local < length s
        \<and> (\<exists>i\<in>set [0..<length host]. host ! i = CHR ''.'' \<and> plain_part (take i host) \<and> plain_part (drop (i + 1) host)))"

datatype auth_mode = Sign_In | Sign_Up | Mfa

datatype mfa_method = Totp | Webauthn | Lookup_Secret

definition code_missing :: "mfa_method \<Rightarrow> string \<Rightarrow> bool" where
  "code_missing m code \<longleftrightarrow> m \<noteq> Webauthn \<and> js_trim code = []"

text \<open>The field errors that keep the form from submitting: field and caption.\<close>

definition auth_errors :: "auth_mode \<Rightarrow> string \<Rightarrow> string \<Rightarrow> string \<Rightarrow> mfa_method \<Rightarrow> string \<Rightarrow> (string \<times> string) list" where
  "auth_errors mode name email password method code =
    (if mode = Mfa then (if code_missing method code then [(''code'', ''codeRequired'')] else [])
     else (if js_trim email = [] then [(''email'', ''emailRequired'')]
           else if \<not> email_ok (js_trim email) then [(''email'', ''emailInvalid'')] else [])
        @ (if mode = Sign_Up \<and> js_trim name = [] then [(''name'', ''nameRequired'')] else [])
        @ (if mode = Sign_In \<and> password = [] then [(''password'', ''passwordRequired'')] else [])
        @ (if mode = Sign_Up \<and> length password < 8 then [(''password'', ''passwordShort'')] else []))"

definition mfa_methods_of :: "auth_flow option \<Rightarrow> bool \<Rightarrow> mfa_method list" where
  "mfa_methods_of f webauthn =
    (let groups = (case f of Some x \<Rightarrow> map nd_group (af_nodes x) | None \<Rightarrow> [])
     in (if ''totp'' \<in> set groups then [Totp] else []) @ (if ''webauthn'' \<in> set groups \<and> webauthn then [Webauthn] else [])
        @ (if ''lookup_secret'' \<in> set groups then [Lookup_Secret] else []))"

definition first_method :: "auth_flow \<Rightarrow> bool \<Rightarrow> mfa_method" where
  "first_method f webauthn = (case mfa_methods_of (Some f) webauthn of m # ms \<Rightarrow> m | [] \<Rightarrow> Totp)"

definition password_save_outcome :: "flow_step \<Rightarrow> string" where
  "password_save_outcome s =
    (case s of
       Flow_Done t n \<Rightarrow> ''saved''
     | Flow_Again f \<Rightarrow> if af_state f = Some ''success'' then ''saved'' else ''retry''
     | _ \<Rightarrow> ''restart'')"

text \<open>How this identity can confirm it's them: by password, with Google.\<close>

definition reauth_methods :: "auth_flow \<Rightarrow> bool \<Rightarrow> bool \<times> bool" where
  "reauth_methods f can_open_url =
    (''password'' \<in> set (map nd_group (af_nodes f)),
     can_open_url \<and> (\<exists>n\<in>set (af_nodes f). nd_group n = ''oidc'' \<and> nd_value n = J_Str ''google''))"

section \<open>What the sign-in form does with a step\<close>

datatype auth_next = Show_Flow auth_flow | Flow_Expired | Start_Second_Factor | Resume_Login string | Open_Url string
  | Verification_Started string "string option" | Finish_Sign_In "string option"

text \<open>\<open>handle\<close>; a redirect to a second-factor login, the service's own or the app's, continues with that login.\<close>

definition handle_step :: "(string \<Rightarrow> string) \<Rightarrow> flow_step \<Rightarrow> auth_next" where
  "handle_step decode s =
    (case s of
       Flow_Again f \<Rightarrow> Show_Flow f
     | Flow_Restart often \<Rightarrow> Flow_Expired
     | Flow_Reauth \<Rightarrow> Flow_Expired
     | Flow_Redirect url \<Rightarrow>
         (if query_param decode url ''aal'' = Some ''aal2'' then Start_Second_Factor
          else case query_param decode url ''flow'' of
                 Some i \<Rightarrow> if i \<noteq> [] \<and> is_login_url url then Resume_Login i else Open_Url url
               | None \<Rightarrow> Open_Url url)
     | Flow_Done token next \<Rightarrow>
         (case next of
            Some (kind, i) \<Rightarrow> if kind = ''verification'' then Verification_Started i token else Finish_Sign_In token
          | None \<Rightarrow> Finish_Sign_In token))"

datatype session_state = Active_Session | Second_Factor_Session | No_Live_Session

text \<open>\<open>finish\<close>: a session that still owes a second factor is never handed on as signed in.\<close>

datatype finish_next = Ask_Second_Factor | Signed_In

definition finish_sign_in :: "session_state \<Rightarrow> finish_next" where
  "finish_sign_in st = (if st = Second_Factor_Session then Ask_Second_Factor else Signed_In)"

section \<open>A session this browser still holds\<close>

text \<open>\<open>clearingLeftover\<close>: each call answers with a failure or a result and leaves the service in a state.\<close>

definition clearing_leftover ::
  "('s \<Rightarrow> (json + 'a) \<times> 's) \<Rightarrow> ('s \<Rightarrow> (json + unit) \<times> 's) \<Rightarrow> ('s \<Rightarrow> (json + 'a) \<times> 's) \<Rightarrow> 's \<Rightarrow> (json + 'a) \<times> 's" where
  "clearing_leftover work sign_out again s =
    (case work s of
       (Inr x, s1) \<Rightarrow> (Inr x, s1)
     | (Inl e, s1) \<Rightarrow>
         if failed_code e \<noteq> Some ''session_already_available'' then (Inl e, s1)
         else (case sign_out s1 of (Inl e2, s2) \<Rightarrow> (Inl e2, s2) | (Inr u, s2) \<Rightarrow> again s2))"

text \<open>\<open>mailCode\<close>: the code is sent on the flow at hand, or on a new one when that can't go on.\<close>

definition mail_code ::
  "('s \<Rightarrow> (json + auth_flow) \<times> 's) \<Rightarrow> (auth_flow \<Rightarrow> 's \<Rightarrow> (json + flow_step) \<times> 's) \<Rightarrow> auth_flow option \<Rightarrow> 's \<Rightarrow> (json + flow_step) \<times> 's" where
  "mail_code start submit current s =
    (let fresh = (\<lambda>s. case start s of (Inl e, s1) \<Rightarrow> (Inl e, s1) | (Inr f, s1) \<Rightarrow> submit f s1)
     in case (case current of Some f \<Rightarrow> submit f s | None \<Rightarrow> fresh s) of
          (Inr (Flow_Restart often), s1) \<Rightarrow> fresh s1
        | r \<Rightarrow> r)"

section \<open>The session check\<close>

datatype session_check = User_Session string "int option" | None_Session | Unverified_Email

definition offline_days_ms :: int where
  "offline_days_ms = 7 * 24 * 60 * 60 * 1000"

text \<open>\<open>checkSession\<close>, from the answer to \<open>/v1/me\<close> (its deadline of eight seconds is a failure without a status) at the time
  \<open>now\<close>. A stored time that is no finite number is \<open>None\<close>.\<close>

definition check_session :: "string option \<Rightarrow> int option \<Rightarrow> int \<Rightarrow> json + (string \<times> bool) \<Rightarrow> json + session_check" where
  "check_session remembered verified now answer =
    (case answer of
       Inr (user, confirmed) \<Rightarrow> if \<not> confirmed then Inr Unverified_Email else Inr (User_Session user (Some now))
     | Inl e \<Rightarrow>
         if (case failed_status e of None \<Rightarrow> True | Some st \<Rightarrow> 500 \<le> st) then
           (case remembered of
              None \<Rightarrow> Inr None_Session
            | Some u \<Rightarrow>
                (case verified of
                   None \<Rightarrow> Inl (J_Obj [(''code'', J_Str ''offline_access_expired'')])
                 | Some v \<Rightarrow>
                     if v \<le> 0 \<or> now - v < 0 \<or> offline_days_ms \<le> now - v then Inl (J_Obj [(''code'', J_Str ''offline_access_expired'')])
                     else Inr (User_Session u (Some v))))
         else if failed_status e = Some 401 then Inr None_Session
         else if failed_code e = Some ''email_in_use'' then Inr Unverified_Email
         else Inl e)"

text \<open>C37: access without the server is bounded: a user stands only when the server has just named them with a confirmed
  email, or when it could not be reached and this device remembers them from a check less than seven days ago. An
  offline check never renews that time, a clock set back ends it, and any refusal of the server grants nobody.\<close>

theorem offline_access_bounded:
  assumes "check_session remembered verified now answer = Inr (User_Session u t)"
  shows "answer = Inr (u, True) \<and> t = Some now
    \<or> (\<exists>e v. answer = Inl e \<and> (failed_status e = None \<or> (\<exists>st. failed_status e = Some st \<and> 500 \<le> st)) \<and> remembered = Some u
        \<and> verified = Some v \<and> t = Some v \<and> 0 < v \<and> v \<le> now \<and> now < v + offline_days_ms)"
  using assms by (auto simp: check_session_def split: sum.splits prod.splits option.splits if_splits)

theorem offline_access_bounded_witness:
  "\<exists>e v. (Inl J_Null :: json + string \<times> bool) = Inl e \<and> Some (1000 :: int) = Some v \<and> v \<le> 5000 \<and> 5000 < v + offline_days_ms"
proof -
  have "check_session (Some ''u1'') (Some 1000) 5000 (Inl J_Null) = Inr (User_Session ''u1'' (Some 1000))"
    by (simp add: check_session_def failed_status_def failure_field_def offline_days_ms_def)
  from offline_access_bounded [OF this] show ?thesis by auto
qed

section \<open>A reset left before its password was saved\<close>

text \<open>\<open>noteReset\<close>: a storage that refuses is ignored. The storage is the mark it keeps; \<open>ok\<close> says whether it works.\<close>

definition note_reset :: "bool \<Rightarrow> string option \<Rightarrow> string option \<Rightarrow> string option" where
  "note_reset ok session mark = (if ok then session else mark)"

text \<open>\<open>endAbandonedReset\<close>: whether it signs out the session this browser holds, from the mark, the session's state and the id
  the session names itself with (\<open>None\<close> when it cannot).\<close>

definition ends_reset :: "string option \<Rightarrow> session_state \<Rightarrow> string option \<Rightarrow> bool" where
  "ends_reset mark st me \<longleftrightarrow>
    (case mark of
       None \<Rightarrow> False
     | Some m \<Rightarrow> if st = Second_Factor_Session then m = [] else st = Active_Session \<and> m \<noteq> [] \<and> me = Some m)"

text \<open>Someone who signed in with a password is never signed out by the clean-up: it ends the marked session, or one stopped at
  its second factor under an empty mark.\<close>

lemma clean_up_spares_others:
  "ends_reset (Some m) Active_Session (Some i) \<Longrightarrow> i = m"
  by (simp add: ends_reset_def split: if_splits)

end
