(* ===== verification/Recovery.thy ===== *)
theory Recovery
  imports Identity
begin

text \<open>
  Resetting a password (\<open>useRecoveryForm\<close>, \<open>app-core/src/domain/auth.ts\<close>). The emailed code opens a session before the
  new password is saved; the form holds that session and has to end it when the person leaves, cancels or the reset
  cannot go on. The form's one running action is cut at its awaits; the sign-outs that \<open>endHeld\<close> starts run beside it.
\<close>

section \<open>The form\<close>

datatype recovery_step = Email_Step | Code_Step | Mfa_Step | Password_Step

datatype after_hold = After_Code | After_Factor

datatype recovery_await = Await_Mail bool | Await_Code | Await_Noted after_hold | Await_State | Await_Login | Await_Password_Flow
  | Await_Factor | Await_Save | Await_Over "string option" | Await_Signed_In

record recovery =
  ry_step :: recovery_step
  ry_email :: string
  ry_code :: string
  ry_password :: string
  ry_errors :: "(string \<times> string) list"
  ry_notice :: "string option"
  ry_cooldown :: int
  ry_flow :: "auth_flow option"
  ry_method :: mfa_method
  ry_token :: "string option"
  ry_holding :: bool
  ry_closed :: bool
  ry_settings :: string
  ry_action :: async_action
  ry_await :: "recovery_await option"
  ry_ends :: "string option list" \<comment> \<open>the tokens of the sign-outs under way\<close>
  ry_storage :: bool \<comment> \<open>the browser's storage is given and works\<close>
  ry_mark :: "string option"

definition resend_seconds :: int where
  "resend_seconds = 30"

definition fresh_recovery :: "bool \<Rightarrow> string option \<Rightarrow> string \<Rightarrow> recovery" where
  "fresh_recovery storage mark email = \<lparr>ry_step = Email_Step, ry_email = email, ry_code = [], ry_password = [], ry_errors = [], ry_notice = None,
     ry_cooldown = 0, ry_flow = None, ry_method = Totp, ry_token = None, ry_holding = False, ry_closed = False, ry_settings = [],
     ry_action = idle_action, ry_await = None, ry_ends = [], ry_storage = storage, ry_mark = mark\<rparr>"

definition note_mark :: "string option \<Rightarrow> recovery \<Rightarrow> recovery" where
  "note_mark m s = s\<lparr>ry_mark := note_reset (ry_storage s) m (ry_mark s)\<rparr>"

definition code_field_error :: "(string \<times> string) list \<Rightarrow> string option" where
  "code_field_error fs =
    (case map_of fs ''totp_code'' of Some t \<Rightarrow> Some t | None \<Rightarrow>
     case map_of fs ''lookup_secret'' of Some t \<Rightarrow> Some t | None \<Rightarrow> map_of fs ''code'')"

definition show_recovery :: "auth_words \<Rightarrow> auth_flow \<Rightarrow> recovery \<Rightarrow> recovery" where
  "show_recovery w f s =
    (let (form, fs) = flow_errors w f
     in s\<lparr>ry_flow := Some f,
          ry_errors := List.map_filter (\<lambda>(k, v). map_option (Pair k) v)
            [(''email'', map_of fs ''email''), (''code'', code_field_error fs), (''password'', map_of fs ''password'')],
          ry_action := action_set_error form (ry_action s), ry_notice := flow_notice w f\<rparr>)"

section \<open>The running action\<close>

text \<open>The end of the action; a failure shows \<open>fallback\<close>, or that there were too many attempts.\<close>

definition finish_run :: "recovery \<Rightarrow> recovery" where
  "finish_run s = s\<lparr>ry_await := None, ry_action := action_end None (ry_action s)\<rparr>"

definition refusal_text :: "string \<Rightarrow> json \<Rightarrow> string" where
  "refusal_text fallback e = (if failed_status e = Some 429 then ''tooManyAttempts'' else fallback)"

definition fail_run :: "string \<Rightarrow> json \<Rightarrow> recovery \<Rightarrow> recovery" where
  "fail_run fallback e s = s\<lparr>ry_await := None, ry_action := action_end (Some (refusal_text fallback e)) (ry_action s)\<rparr>"

definition wait_for :: "recovery_await \<Rightarrow> recovery \<Rightarrow> recovery" where
  "wait_for a s = s\<lparr>ry_await := Some a\<rparr>"

definition end_held :: "recovery \<Rightarrow> recovery" where
  "end_held s = s\<lparr>ry_ends := ry_ends s @ [ry_token s]\<rparr>"

definition release :: "bool \<Rightarrow> recovery \<Rightarrow> recovery" where
  "release ended s = (let s1 = s\<lparr>ry_token := None, ry_holding := False\<rparr> in if ended then note_mark None s1 else s1)"

fun after_held :: "after_hold \<Rightarrow> recovery \<Rightarrow> recovery" where
  "after_held After_Code s = wait_for Await_State s"
| "after_held After_Factor s = wait_for Await_Password_Flow (s\<lparr>ry_code := []\<rparr>)"

definition hold :: "string option \<Rightarrow> after_hold \<Rightarrow> recovery \<Rightarrow> recovery" where
  "hold token after s =
    (let s1 = s\<lparr>ry_token := token, ry_holding := True\<rparr>
     in if ry_closed s then after_held after (end_held s1)
        else if \<not> ry_storage s then after_held after s1
        else wait_for (Await_Noted after) s1)"

definition recovery_errors :: "recovery \<Rightarrow> (string \<times> string) list" where
  "recovery_errors s =
    (case ry_step s of
       Email_Step \<Rightarrow> if email_ok (js_trim (ry_email s)) then [] else [(''email'', ''emailInvalid'')]
     | Code_Step \<Rightarrow> if js_trim (ry_code s) = [] then [(''code'', ''codeRequired'')] else []
     | Mfa_Step \<Rightarrow> if code_missing (ry_method s) (ry_code s) then [(''code'', ''codeRequired'')] else []
     | Password_Step \<Rightarrow> if length (ry_password s) < 8 then [(''password'', ''passwordShort'')] else [])"

text \<open>\<open>submit\<close>: what each step waits for first; without its flow a step is over at once.\<close>

definition first_await :: "recovery_step \<Rightarrow> recovery_await" where
  "first_await st = (case st of Email_Step \<Rightarrow> Await_Mail False | Code_Step \<Rightarrow> Await_Code | Mfa_Step \<Rightarrow> Await_Factor | Password_Step \<Rightarrow> Await_Save)"

definition recovery_submit :: "recovery \<Rightarrow> recovery" where
  "recovery_submit s =
    (if ry_step s = Code_Step \<and> ry_flow s = None then s
     else let s1 = s\<lparr>ry_errors := recovery_errors s\<rparr>
          in if recovery_errors s \<noteq> [] then s1
             else case action_start (ry_action s) of
                    None \<Rightarrow> s1
                  | Some a \<Rightarrow>
                      if ry_step s \<noteq> Email_Step \<and> ry_flow s = None then finish_run (s1\<lparr>ry_action := a\<rparr>)
                      else wait_for (first_await (ry_step s)) (s1\<lparr>ry_action := a\<rparr>))"

definition recovery_resend :: "recovery \<Rightarrow> recovery" where
  "recovery_resend s =
    (if 0 < ry_cooldown s then s
     else case action_start (ry_action s) of None \<Rightarrow> s | Some a \<Rightarrow> wait_for (Await_Mail True) (s\<lparr>ry_action := a\<rparr>))"

definition recovery_cancel :: "recovery \<Rightarrow> recovery" where
  "recovery_cancel s =
    (case action_start (ry_action s) of None \<Rightarrow> s | Some a \<Rightarrow> wait_for (Await_Over None) (s\<lparr>ry_action := a\<rparr>))"

text \<open>The answers of each await.\<close>

definition mail_answered :: "auth_words \<Rightarrow> bool \<Rightarrow> json + flow_step \<Rightarrow> recovery \<Rightarrow> recovery" where
  "mail_answered w again answer s =
    (case answer of
       Inl e \<Rightarrow> fail_run ''resendFailed'' e s
     | Inr r \<Rightarrow>
         (if again then
            finish_run ((case r of Flow_Again f \<Rightarrow> show_recovery w f s | _ \<Rightarrow> s)\<lparr>ry_code := [], ry_cooldown := resend_seconds\<rparr>)
          else case r of
                 Flow_Again f \<Rightarrow>
                   finish_run (if af_state f = Some ''sent_email''
                     then (show_recovery w f s)\<lparr>ry_step := Code_Step, ry_cooldown := resend_seconds\<rparr> else show_recovery w f s)
               | _ \<Rightarrow> fail_run ''resendFailed'' J_Null s))"

definition code_answered :: "auth_words \<Rightarrow> json + flow_step \<Rightarrow> recovery \<Rightarrow> recovery" where
  "code_answered w answer s =
    (case answer of
       Inl e \<Rightarrow> fail_run ''unavailable'' e s
     | Inr (Flow_Again f) \<Rightarrow> finish_run (show_recovery w f s)
     | Inr (Flow_Restart often) \<Rightarrow>
         finish_run (s\<lparr>ry_flow := None, ry_cooldown := 0,
           ry_action := action_set_error (Some (if often then ''codeTooOften'' else ''codeExpired'')) (ry_action s)\<rparr>)
     | Inr (Flow_Done token (Some (kind, i))) \<Rightarrow>
         if kind = ''settings'' then hold token After_Code (s\<lparr>ry_settings := i\<rparr>) else fail_run ''unavailable'' J_Null s
     | _ \<Rightarrow> fail_run ''unavailable'' J_Null s)"

definition noted_answered :: "after_hold \<Rightarrow> string option \<Rightarrow> recovery \<Rightarrow> recovery" where
  "noted_answered after me s = after_held after (note_mark (Some (case me of Some i \<Rightarrow> i | None \<Rightarrow> [])) s)"

definition state_answered :: "json + session_state \<Rightarrow> recovery \<Rightarrow> recovery" where
  "state_answered answer s =
    (case answer of
       Inl e \<Rightarrow> wait_for (Await_Over (Some ''unavailable'')) s
     | Inr st \<Rightarrow> wait_for (if st = Second_Factor_Session then Await_Login else Await_Password_Flow) s)"

definition login_answered :: "auth_words \<Rightarrow> bool \<Rightarrow> json + auth_flow \<Rightarrow> recovery \<Rightarrow> recovery" where
  "login_answered w webauthn answer s =
    (case answer of
       Inl e \<Rightarrow> wait_for (Await_Over (Some ''unavailable'')) s
     | Inr f \<Rightarrow> finish_run ((show_recovery w f (s\<lparr>ry_method := first_method f webauthn, ry_code := []\<rparr>))\<lparr>ry_step := Mfa_Step\<rparr>))"

definition password_flow_answered :: "json + auth_flow \<Rightarrow> recovery \<Rightarrow> recovery" where
  "password_flow_answered answer s =
    (case answer of
       Inl e \<Rightarrow> wait_for (Await_Over (Some ''unavailable'')) s
     | Inr f \<Rightarrow> finish_run (s\<lparr>ry_flow := Some f, ry_errors := [], ry_notice := None, ry_step := Password_Step\<rparr>))"

definition over_answered :: "string option \<Rightarrow> bool \<Rightarrow> recovery \<Rightarrow> recovery" where
  "over_answered message ended s =
    (let s1 = release ended s
     in finish_run (s1\<lparr>ry_flow := None, ry_code := [], ry_password := [], ry_errors := [], ry_notice := None, ry_step := Email_Step,
          ry_action := action_set_error message (ry_action s1)\<rparr>))"

text \<open>The second factor: \<open>None\<close> when the browser refused the security key.\<close>

definition key_refusal :: "auth_words \<Rightarrow> auth_flow \<Rightarrow> string option" where
  "key_refusal w f = (if fst (flow_errors w f) \<noteq> None \<or> snd (flow_errors w f) \<noteq> [] then Some ''mfaKeyRefused'' else None)"

definition factor_answered :: "auth_words \<Rightarrow> json + flow_step option \<Rightarrow> recovery \<Rightarrow> recovery" where
  "factor_answered w answer s =
    (case answer of
       Inl e \<Rightarrow> fail_run ''unavailable'' e s
     | Inr None \<Rightarrow> finish_run (s\<lparr>ry_action := action_set_error (Some ''mfaKeyRefused'') (ry_action s)\<rparr>)
     | Inr (Some (Flow_Again f)) \<Rightarrow>
         (let s1 = show_recovery w f s
          in finish_run (if ry_method s = Webauthn then s1\<lparr>ry_action := action_set_error (key_refusal w f) (ry_action s1)\<rparr> else s1))
     | Inr (Some (Flow_Done token n)) \<Rightarrow> hold (case token of Some t \<Rightarrow> Some t | None \<Rightarrow> ry_token s) After_Factor s
     | _ \<Rightarrow> wait_for (Await_Over (Some ''flowExpired'')) s)"

text \<open>Saving the password; the second part of the result is the session handed to \<open>onSignedIn\<close>.\<close>

definition save_answered :: "auth_words \<Rightarrow> json + flow_step \<Rightarrow> recovery \<Rightarrow> recovery \<times> string option option" where
  "save_answered w answer s =
    (case answer of
       Inl e \<Rightarrow> (fail_run ''savePasswordFailed'' e s, None)
     | Inr r \<Rightarrow>
         if password_save_outcome r = ''saved'' then
           (let s1 = release True s
            in if ry_closed s then (finish_run s1, None) else (wait_for Await_Signed_In s1, Some (ry_token s)))
         else (case r of
                 Flow_Again f \<Rightarrow> (finish_run (show_recovery w f s), None)
               | _ \<Rightarrow> (wait_for (Await_Over (Some ''flowExpired'')) s, None)))"

definition signed_in_answered :: "json + unit \<Rightarrow> recovery \<Rightarrow> recovery" where
  "signed_in_answered answer s = (case answer of Inl e \<Rightarrow> fail_run ''savePasswordFailed'' e s | Inr u \<Rightarrow> finish_run s)"

text \<open>Leaving the screen, and the end of a sign-out that \<open>endHeld\<close> started.\<close>

definition recovery_leave :: "recovery \<Rightarrow> recovery" where
  "recovery_leave s = (let s1 = s\<lparr>ry_closed := True\<rparr> in if ry_holding s then end_held s1 else s1)"

definition end_answered :: "bool \<Rightarrow> recovery \<Rightarrow> recovery" where
  "end_answered ended s = (let s1 = s\<lparr>ry_ends := tl (ry_ends s)\<rparr> in if ended then note_mark None s1 else s1)"

definition resumed :: "auth_words \<Rightarrow> auth_flow \<Rightarrow> recovery \<Rightarrow> recovery" where
  "resumed w f s = (if af_state f = Some ''sent_email'' then (show_recovery w f s)\<lparr>ry_step := Code_Step\<rparr> else show_recovery w f s)"

definition tick :: "recovery \<Rightarrow> recovery" where
  "tick s = (if 0 < ry_cooldown s then s\<lparr>ry_cooldown := ry_cooldown s - 1\<rparr> else s)"

definition set_mfa_method :: "mfa_method \<Rightarrow> recovery \<Rightarrow> recovery" where
  "set_mfa_method m s = s\<lparr>ry_method := m, ry_code := [], ry_errors := [], ry_action := action_set_error None (ry_action s)\<rparr>"

section \<open>The browser and its session\<close>

text \<open>
  On the web the session is the browser's cookie and no token is passed. The world adds the cookie's session, the reset
  sessions whose password is not saved yet, those of them whose code was accepted after the screen was left, those
  that a failed sign-out was to end, and the people signed in by the form. An accepted code sets the cookie; a second
  factor raises the session it has; \<open>whoami\<close> answers with the id of the cookie's session or, when the session still
  needs its second factor or the question fails, with none; another tab may sign somebody in or out at any time.
\<close>

record reset_world =
  rz_form :: recovery
  rz_cookie :: "string option"
  rz_unsaved :: "string set"
  rz_signed :: "string list"
  rz_late :: "string set"
  rz_named :: bool \<comment> \<open>the last \<open>whoami\<close> named the session\<close>
  rz_failed :: "string set"

definition on_form :: "(recovery \<Rightarrow> recovery) \<Rightarrow> reset_world \<Rightarrow> reset_world" where
  "on_form f w = w\<lparr>rz_form := f (rz_form w)\<rparr>"

definition signed_out :: "reset_world \<Rightarrow> reset_world" where
  "signed_out w = w\<lparr>rz_unsaved := rz_unsaved w - set_option (rz_cookie w), rz_cookie := None\<rparr>"

definition sign_out_ended :: "bool \<Rightarrow> reset_world \<Rightarrow> reset_world" where
  "sign_out_ended ended w = (if ended then signed_out w else w\<lparr>rz_failed := rz_failed w \<union> set_option (rz_cookie w)\<rparr>)"

definition is_grant :: "json + flow_step \<Rightarrow> bool" where
  "is_grant answer \<longleftrightarrow> (\<exists>i. answer = Inr (Flow_Done None (Some (''settings'', i))))"

definition granted :: "string \<Rightarrow> reset_world \<Rightarrow> reset_world" where
  "granted sid w = w\<lparr>rz_cookie := Some sid, rz_unsaved := insert sid (rz_unsaved w), rz_failed := rz_failed w - {sid},
     rz_late := (if ry_closed (rz_form w) then insert sid (rz_late w) else rz_late w - {sid})\<rparr>"

definition saved_password :: "json + flow_step \<Rightarrow> bool" where
  "saved_password answer \<longleftrightarrow> (\<exists>r. answer = Inr r \<and> password_save_outcome r = ''saved'')"

definition password_saved :: "reset_world \<Rightarrow> reset_world" where
  "password_saved w = w\<lparr>rz_unsaved := rz_unsaved w - set_option (rz_cookie w),
     rz_signed := (if ry_closed (rz_form w) then [] else (case rz_cookie w of Some i \<Rightarrow> [i] | None \<Rightarrow> [])) @ rz_signed w\<rparr>"

definition awaits :: "recovery_await \<Rightarrow> reset_world \<Rightarrow> bool" where
  "awaits a w \<longleftrightarrow> ry_await (rz_form w) = Some a"

inductive reset_step :: "auth_words \<Rightarrow> reset_world \<Rightarrow> reset_world \<Rightarrow> bool" for wd where
  typed: "reset_step wd w (on_form (\<lambda>s. s\<lparr>ry_email := e, ry_code := c, ry_password := p\<rparr>) w)"
| factor_method: "reset_step wd w (on_form (set_mfa_method m) w)"
| ticked: "reset_step wd w (on_form tick w)"
| resumed_flow: "reset_step wd w (on_form (resumed wd f) w)"
| submitted: "reset_step wd w (on_form recovery_submit w)"
| resent: "reset_step wd w (on_form recovery_resend w)"
| cancelled: "reset_step wd w (on_form recovery_cancel w)"
| left: "reset_step wd w (on_form recovery_leave w)"
| mailed: "awaits (Await_Mail again) w \<Longrightarrow> reset_step wd w (on_form (mail_answered wd again answer) (if cleared then signed_out w else w))"
| code_refused: "awaits Await_Code w \<Longrightarrow> \<not> is_grant answer \<Longrightarrow> (\<And>t n. answer \<noteq> Inr (Flow_Done (Some t) n)) \<Longrightarrow>
    reset_step wd w (on_form (code_answered wd answer) w)"
| code_accepted: "awaits Await_Code w \<Longrightarrow> sid \<notin> rz_unsaved w \<Longrightarrow>
    reset_step wd w (on_form (code_answered wd (Inr (Flow_Done None (Some (''settings'', i))))) (granted sid w))"
| noted: "awaits (Await_Noted after) w \<Longrightarrow> me = None \<or> me = rz_cookie w \<Longrightarrow>
    reset_step wd w (on_form (noted_answered after me) (w\<lparr>rz_named := (me \<noteq> None)\<rparr>))"
| state_known: "awaits Await_State w \<Longrightarrow> reset_step wd w (on_form (state_answered st) w)"
| login_started: "awaits Await_Login w \<Longrightarrow> reset_step wd w (on_form (login_answered wd webauthn login) w)"
| password_flow: "awaits Await_Password_Flow w \<Longrightarrow> reset_step wd w (on_form (password_flow_answered login) w)"
| factor: "awaits Await_Factor w \<Longrightarrow> (\<And>t n. reply \<noteq> Inr (Some (Flow_Done (Some t) n))) \<Longrightarrow> reset_step wd w (on_form (factor_answered wd reply) w)"
| save_refused: "awaits Await_Save w \<Longrightarrow> \<not> saved_password answer \<Longrightarrow> reset_step wd w (on_form (\<lambda>s. fst (save_answered wd answer s)) w)"
| save_accepted: "awaits Await_Save w \<Longrightarrow> saved_password answer \<Longrightarrow>
    reset_step wd w (on_form (\<lambda>s. fst (save_answered wd answer s)) (password_saved w))"
| signed_in: "awaits Await_Signed_In w \<Longrightarrow> reset_step wd w (on_form (signed_in_answered ok) w)"
| over: "awaits (Await_Over m) w \<Longrightarrow> reset_step wd w (on_form (over_answered m ended) (sign_out_ended ended w))"
| end_over: "ry_ends (rz_form w) \<noteq> [] \<Longrightarrow> reset_step wd w (on_form (end_answered ended) (sign_out_ended ended w))"
| elsewhere: "set_option c \<inter> rz_unsaved w = {} \<Longrightarrow> reset_step wd w (w\<lparr>rz_cookie := c\<rparr>)"

section \<open>The reset's session is never lost sight of\<close>

definition reset_opened :: "reset_world \<Rightarrow> bool" where
  "reset_opened w \<longleftrightarrow> (\<exists>mark email c. rz_form w = fresh_recovery True mark email \<and> rz_cookie w = c \<and> rz_unsaved w = {} \<and> rz_signed w = [])"

fun noting :: "recovery_await option \<Rightarrow> bool" where
  "noting (Some (Await_Noted a)) \<longleftrightarrow> True"
| "noting _ \<longleftrightarrow> False"

fun going_over :: "recovery_await option \<Rightarrow> bool" where
  "going_over (Some (Await_Over m)) \<longleftrightarrow> True"
| "going_over _ \<longleftrightarrow> False"

text \<open>A reset's session in the browser is held by the open form, being signed out, or its sign-out failed.\<close>

definition accounted :: "reset_world \<Rightarrow> bool" where
  "accounted w \<longleftrightarrow> set_option (rz_cookie w) \<inter> rz_unsaved w = {} \<or> (ry_holding (rz_form w) \<and> \<not> ry_closed (rz_form w)) \<or> ry_ends (rz_form w) \<noteq> []
    \<or> going_over (ry_await (rz_form w)) \<or> set_option (rz_cookie w) \<inter> rz_failed w \<noteq> {}"

text \<open>Storage has its mark: its id, or the empty mark when it did not name itself.\<close>

definition session_mark :: "bool \<Rightarrow> string \<Rightarrow> string option" where
  "session_mark named sid = Some (if named then sid else [])"

definition marked :: "reset_world \<Rightarrow> bool" where
  "marked w \<longleftrightarrow> (\<forall>sid. rz_cookie w = Some sid \<longrightarrow> sid \<in> rz_unsaved w \<longrightarrow> sid \<notin> rz_late w \<longrightarrow>
     awaits (Await_Noted After_Code) w \<or> ry_mark (rz_form w) = session_mark (rz_named w) sid)"

definition form_ok :: "recovery \<Rightarrow> bool" where
  "form_ok s \<longleftrightarrow> ry_storage s \<and> (ry_await s \<noteq> None \<longrightarrow> aa_running (ry_action s)) \<and> (ry_ends s \<noteq> [] \<longrightarrow> ry_closed s)"

definition reset_inv :: "reset_world \<Rightarrow> bool" where
  "reset_inv w \<longleftrightarrow> form_ok (rz_form w) \<and> accounted w \<and> marked w"

lemmas recovery_defs = on_form_def awaits_def finish_run_def fail_run_def wait_for_def end_held_def release_def note_mark_def note_reset_def
  action_end_def action_set_error_def action_start_def

lemma show_recovery_simps [simp]:
  "ry_token (show_recovery w f s) = ry_token s" "ry_holding (show_recovery w f s) = ry_holding s" "ry_closed (show_recovery w f s) = ry_closed s"
  "ry_await (show_recovery w f s) = ry_await s" "ry_ends (show_recovery w f s) = ry_ends s" "ry_storage (show_recovery w f s) = ry_storage s"
  "ry_mark (show_recovery w f s) = ry_mark s" "aa_running (ry_action (show_recovery w f s)) = aa_running (ry_action s)"
  by (simp_all add: show_recovery_def action_set_error_def split: prod.split)

text \<open>The part of a form the invariant reads: whether an action runs, what it waits for, what is held.\<close>

definition same_hold :: "recovery \<Rightarrow> recovery \<Rightarrow> bool" where
  "same_hold s t \<longleftrightarrow> ry_holding t = ry_holding s \<and> ry_closed t = ry_closed s \<and> ry_ends t = ry_ends s \<and> ry_storage t = ry_storage s \<and> ry_mark t = ry_mark s"

lemma quiet_step:
  assumes inv: "reset_inv w" and same: "same_hold (rz_form w) t" and running: "ry_await t \<noteq> None \<longrightarrow> aa_running (ry_action t)"
    and waits: "ry_await t = ry_await (rz_form w) \<or> \<not> noting (ry_await t) \<and> \<not> noting (ry_await (rz_form w)) \<and> \<not> going_over (ry_await (rz_form w))"
  shows "reset_inv (w\<lparr>rz_form := t\<rparr>)"
proof -
  have "going_over (ry_await (rz_form w)) \<Longrightarrow> going_over (ry_await t)"
    and "ry_await (rz_form w) = Some (Await_Noted After_Code) \<Longrightarrow> ry_await t = Some (Await_Noted After_Code)"
    using waits by auto
  then show ?thesis using inv same running by (auto simp: reset_inv_def form_ok_def accounted_def marked_def awaits_def same_hold_def)
qed

lemma same_hold_refl [simp]: "same_hold s s"
  by (simp add: same_hold_def)

lemma same_hold_show [simp]: "same_hold s (show_recovery w f s)"
  by (simp add: same_hold_def)

lemma quiet_starts: "same_hold s (recovery_submit s)" "same_hold s (recovery_resend s)" "same_hold s (recovery_cancel s)"
  by (simp_all add: same_hold_def recovery_submit_def recovery_resend_def recovery_cancel_def finish_run_def wait_for_def Let_def split: option.split)

lemma quiet_mail: "same_hold s (mail_answered w again answer s)"
  by (cases answer; cases "projr answer") (simp_all add: same_hold_def mail_answered_def finish_run_def fail_run_def)

lemma quiet_answers:
  "same_hold s (state_answered st s)" "same_hold s (login_answered w webauthn login s)" "same_hold s (password_flow_answered login s)"
  "same_hold s (signed_in_answered ok s)" "same_hold s (resumed w f s)"
  by (simp_all add: same_hold_def state_answered_def login_answered_def password_flow_answered_def signed_in_answered_def resumed_def
      finish_run_def fail_run_def wait_for_def split: sum.split)

text \<open>What a handler started may wait for, and what an answer leaves to wait for.\<close>

definition may_follow :: "recovery \<Rightarrow> recovery \<Rightarrow> bool" where
  "may_follow s t \<longleftrightarrow> (ry_await t \<noteq> None \<longrightarrow> aa_running (ry_action t))
    \<and> (ry_await t = ry_await s \<or> \<not> noting (ry_await t) \<and> \<not> noting (ry_await s) \<and> \<not> going_over (ry_await s))"

lemma starts_follow:
  assumes "ry_await s \<noteq> None \<longrightarrow> aa_running (ry_action s)"
  shows "may_follow s (recovery_submit s)" "may_follow s (recovery_resend s)" "may_follow s (recovery_cancel s)"
proof -
  show "may_follow s (recovery_submit s)"
    using assms by (cases "aa_running (ry_action s)"; cases "ry_step s")
      (auto simp: may_follow_def recovery_submit_def first_await_def finish_run_def wait_for_def action_start_def action_end_def Let_def)
  show "may_follow s (recovery_resend s)" "may_follow s (recovery_cancel s)"
    using assms by (cases "aa_running (ry_action s)"; simp add: may_follow_def recovery_resend_def recovery_cancel_def wait_for_def action_start_def)+
qed

lemma answers_follow:
  assumes "\<not> noting (ry_await s)" "\<not> going_over (ry_await s)" "aa_running (ry_action s)"
  shows "may_follow s (mail_answered w again answer s)" "may_follow s (state_answered st s)" "may_follow s (login_answered w webauthn login s)"
    "may_follow s (password_flow_answered login s)" "may_follow s (signed_in_answered ok s)"
proof -
  show "may_follow s (mail_answered w again answer s)"
    using assms by (cases answer; cases "projr answer") (auto simp: may_follow_def mail_answered_def finish_run_def fail_run_def)
  show "may_follow s (state_answered st s)" "may_follow s (login_answered w webauthn login s)"
    "may_follow s (password_flow_answered login s)" "may_follow s (signed_in_answered ok s)"
    using assms by (auto simp: may_follow_def state_answered_def login_answered_def password_flow_answered_def signed_in_answered_def
        finish_run_def fail_run_def wait_for_def split: sum.split)
qed

lemma quiet: "reset_inv w \<Longrightarrow> same_hold (rz_form w) (f (rz_form w)) \<Longrightarrow> may_follow (rz_form w) (f (rz_form w)) \<Longrightarrow> reset_inv (on_form f w)"
  unfolding on_form_def may_follow_def by (elim conjE) (rule quiet_step)

lemma waiting_runs: "reset_inv w \<Longrightarrow> awaits a w \<Longrightarrow> aa_running (ry_action (rz_form w))"
  by (simp add: reset_inv_def form_ok_def awaits_def)

lemma quiet_answer:
  assumes "reset_inv w" "awaits a w" "\<not> noting (Some a)" "\<not> going_over (Some a)"
    and "same_hold (rz_form w) (f (rz_form w))"
    and "\<not> noting (ry_await (rz_form w)) \<Longrightarrow> \<not> going_over (ry_await (rz_form w)) \<Longrightarrow> aa_running (ry_action (rz_form w)) \<Longrightarrow> may_follow (rz_form w) (f (rz_form w))"
  shows "reset_inv (on_form f w)"
  using assms waiting_runs [OF assms(1,2)] by (intro quiet) (auto simp: awaits_def)

text \<open>The session that is held changes hands only here.\<close>

lemma inv_signed_out: "reset_inv w \<Longrightarrow> reset_inv (signed_out w)"
  by (auto simp: reset_inv_def signed_out_def accounted_def marked_def)

lemma held_after [simp]:
  "ry_holding (after_held a s) = ry_holding s" "ry_closed (after_held a s) = ry_closed s" "ry_ends (after_held a s) = ry_ends s"
  "ry_storage (after_held a s) = ry_storage s" "ry_mark (after_held a s) = ry_mark s" "ry_action (after_held a s) = ry_action s"
  "\<not> noting (ry_await (after_held a s))" "ry_await (after_held a s) \<noteq> None"
  by (cases a; simp add: wait_for_def)+

lemma inv_hold:
  assumes "form_ok (rz_form w)" "aa_running (ry_action (rz_form w))"
    and "after = After_Code \<Longrightarrow> ry_closed (rz_form w) \<Longrightarrow> set_option (rz_cookie w) \<subseteq> rz_late w"
    and "after = After_Factor \<Longrightarrow> marked w \<and> \<not> awaits (Await_Noted After_Code) w"
  shows "reset_inv (w\<lparr>rz_form := hold token after (rz_form w)\<rparr>)"
  using assms
  by (cases after) (auto simp: reset_inv_def form_ok_def accounted_def marked_def awaits_def hold_def Let_def end_held_def wait_for_def)

lemma inv_noted:
  assumes "reset_inv w" "awaits (Await_Noted after) w" "me = None \<or> me = rz_cookie w"
  shows "reset_inv (on_form (noted_answered after me) (w\<lparr>rz_named := (me \<noteq> None)\<rparr>))"
  using assms waiting_runs [OF assms(1,2)]
  by (auto simp: reset_inv_def form_ok_def accounted_def marked_def session_mark_def on_form_def noted_answered_def note_mark_def note_reset_def
      awaits_def split: option.splits)

lemma inv_leave: "reset_inv w \<Longrightarrow> reset_inv (on_form recovery_leave w)"
  by (auto simp: reset_inv_def form_ok_def accounted_def marked_def awaits_def on_form_def recovery_leave_def end_held_def Let_def)

lemma inv_end:
  assumes "reset_inv w" "ry_ends (rz_form w) \<noteq> []"
  shows "reset_inv (on_form (end_answered ended) (sign_out_ended ended w))"
  using assms by (cases ended) (auto simp: reset_inv_def form_ok_def accounted_def marked_def awaits_def on_form_def end_answered_def sign_out_ended_def
      signed_out_def note_mark_def note_reset_def Let_def tl_Nil)

lemma inv_over:
  assumes "reset_inv w" "awaits (Await_Over m) w"
  shows "reset_inv (on_form (over_answered m ended) (sign_out_ended ended w))"
  using assms by (cases ended) (auto simp: reset_inv_def form_ok_def accounted_def marked_def awaits_def on_form_def over_answered_def
      sign_out_ended_def signed_out_def release_def note_mark_def note_reset_def finish_run_def Let_def)

lemma inv_typing:
  assumes "reset_inv w" "same_hold (rz_form w) (f (rz_form w))" "ry_await (f (rz_form w)) = ry_await (rz_form w)"
    and "aa_running (ry_action (f (rz_form w))) = aa_running (ry_action (rz_form w))"
  shows "reset_inv (on_form f w)"
  using assms by (intro quiet) (auto simp: may_follow_def reset_inv_def form_ok_def)

lemma inv_code_refused:
  assumes "reset_inv w" "awaits Await_Code w" "\<not> is_grant answer" "\<And>t n. answer \<noteq> Inr (Flow_Done (Some t) n)"
  shows "reset_inv (on_form (code_answered wd answer) w)"
proof (rule quiet_answer [OF assms(1,2)])
  have plain: "code_answered wd answer s = (case answer of Inl e \<Rightarrow> fail_run ''unavailable'' e s | Inr (Flow_Again f) \<Rightarrow> finish_run (show_recovery wd f s)
      | Inr (Flow_Restart often) \<Rightarrow> finish_run (s\<lparr>ry_flow := None, ry_cooldown := 0,
          ry_action := action_set_error (Some (if often then ''codeTooOften'' else ''codeExpired'')) (ry_action s)\<rparr>)
      | _ \<Rightarrow> fail_run ''unavailable'' J_Null s)" for s
  proof -
    show ?thesis
      using assms(3) assms(4) [of "the (case answer of Inr (Flow_Done t n) \<Rightarrow> t | _ \<Rightarrow> None)" "case answer of Inr (Flow_Done t n) \<Rightarrow> n | _ \<Rightarrow> None"]
      by (auto simp: code_answered_def is_grant_def split: sum.split flow_step.split option.split)
  qed
  show "same_hold (rz_form w) (code_answered wd answer (rz_form w))"
    by (simp add: plain same_hold_def fail_run_def finish_run_def split: sum.split flow_step.split)
  show "may_follow (rz_form w) (code_answered wd answer (rz_form w))"
    if "\<not> noting (ry_await (rz_form w))" "\<not> going_over (ry_await (rz_form w))"
    using that by (simp add: plain may_follow_def fail_run_def finish_run_def split: sum.split flow_step.split)
qed simp_all

lemma inv_code_accepted:
  assumes "reset_inv w" "awaits Await_Code w"
  shows "reset_inv (on_form (code_answered wd (Inr (Flow_Done None (Some (''settings'', i))))) (granted sid w))"
proof -
  let ?s = "(rz_form w)\<lparr>ry_settings := i\<rparr>"
  have "form_ok ?s" "aa_running (ry_action ?s)" using assms(1) waiting_runs [OF assms] by (simp_all add: reset_inv_def form_ok_def)
  then have "reset_inv ((granted sid w)\<lparr>rz_form := hold None After_Code ?s\<rparr>)"
    using inv_hold [of "(granted sid w)\<lparr>rz_form := ?s\<rparr>" After_Code None] by (simp add: granted_def)
  then show ?thesis by (simp add: on_form_def code_answered_def granted_def)
qed

lemma inv_factor:
  assumes "reset_inv w" "awaits Await_Factor w"
  shows "reset_inv (on_form (factor_answered wd reply) w)"
proof (cases "\<exists>t n. reply = Inr (Some (Flow_Done t n))")
  case True
  then obtain t n where "reply = Inr (Some (Flow_Done t n))" by blast
  then show ?thesis
    using inv_hold [of w After_Factor] assms waiting_runs [OF assms] by (simp add: on_form_def factor_answered_def reset_inv_def awaits_def)
next
  case False
  show ?thesis
  proof (rule quiet_answer [OF assms])
    show "same_hold (rz_form w) (factor_answered wd reply (rz_form w))"
      using False by (cases reply; cases "projr reply"; cases "the (projr reply)")
        (auto simp: same_hold_def factor_answered_def fail_run_def finish_run_def wait_for_def Let_def)
    show "may_follow (rz_form w) (factor_answered wd reply (rz_form w))"
      if "\<not> noting (ry_await (rz_form w))" "\<not> going_over (ry_await (rz_form w))" "aa_running (ry_action (rz_form w))"
      using False that by (cases reply; cases "projr reply"; cases "the (projr reply)")
        (auto simp: may_follow_def factor_answered_def fail_run_def finish_run_def wait_for_def Let_def)
  qed simp_all
qed

lemma inv_save_refused:
  assumes "reset_inv w" "awaits Await_Save w" "\<not> saved_password answer"
  shows "reset_inv (on_form (\<lambda>s. fst (save_answered wd answer s)) w)"
proof (rule quiet_answer [OF assms(1,2)])
  have plain: "fst (save_answered wd answer s) = (case answer of Inl e \<Rightarrow> fail_run ''savePasswordFailed'' e s
      | Inr (Flow_Again f) \<Rightarrow> finish_run (show_recovery wd f s) | Inr r \<Rightarrow> wait_for (Await_Over (Some ''flowExpired'')) s)" for s
    using assms(3) by (auto simp: save_answered_def saved_password_def split: sum.split flow_step.split)
  show "same_hold (rz_form w) (fst (save_answered wd answer (rz_form w)))"
    by (simp add: plain same_hold_def fail_run_def finish_run_def wait_for_def split: sum.split flow_step.split)
  show "may_follow (rz_form w) (fst (save_answered wd answer (rz_form w)))"
    if "\<not> noting (ry_await (rz_form w))" "\<not> going_over (ry_await (rz_form w))" "aa_running (ry_action (rz_form w))"
    using that by (simp add: plain may_follow_def fail_run_def finish_run_def wait_for_def split: sum.split flow_step.split)
qed simp_all

lemma inv_save_accepted:
  assumes "reset_inv w" "awaits Await_Save w" "saved_password answer"
  shows "reset_inv (on_form (\<lambda>s. fst (save_answered wd answer s)) (password_saved w))"
proof -
  obtain r where r: "answer = Inr r" "password_save_outcome r = ''saved''" using assms(3) by (auto simp: saved_password_def)
  have "set_option (rz_cookie w) \<inter> (rz_unsaved w - set_option (rz_cookie w)) = {}" by blast
  with assms(1) waiting_runs [OF assms(1,2)] show ?thesis
    by (auto simp: r save_answered_def reset_inv_def form_ok_def accounted_def marked_def on_form_def password_saved_def release_def note_mark_def note_reset_def
        finish_run_def wait_for_def Let_def)
qed

lemma inv_elsewhere: "reset_inv w \<Longrightarrow> set_option c \<inter> rz_unsaved w = {} \<Longrightarrow> reset_inv (w\<lparr>rz_cookie := c\<rparr>)"
  by (auto simp: reset_inv_def accounted_def marked_def)

lemma inv_mailed:
  assumes "reset_inv w" "awaits (Await_Mail again) w"
  shows "reset_inv (on_form (mail_answered wd again answer) (if cleared then signed_out w else w))"
proof -
  let ?w = "if cleared then signed_out w else w"
  have "reset_inv ?w" "awaits (Await_Mail again) ?w" using assms inv_signed_out by (simp_all add: awaits_def signed_out_def)
  then show ?thesis by (rule quiet_answer) (simp_all add: quiet_mail answers_follow)
qed

lemma reset_inv_step:
  assumes inv: "reset_inv w" and step: "reset_step wd w w'"
  shows "reset_inv w'"
proof -
  have running: "ry_await (rz_form w) \<noteq> None \<longrightarrow> aa_running (ry_action (rz_form w))" using inv by (simp add: reset_inv_def form_ok_def)
  from step show ?thesis
  proof cases
    case (typed e c p)
    then show ?thesis using inv by (simp add: inv_typing same_hold_def)
  next
    case (factor_method m)
    then show ?thesis using inv by (simp add: inv_typing same_hold_def set_mfa_method_def action_set_error_def)
  next
    case ticked
    then show ?thesis using inv by (simp add: inv_typing same_hold_def tick_def)
  next
    case (resumed_flow f)
    then show ?thesis using inv by (simp add: inv_typing quiet_answers(5)) (simp add: inv_typing resumed_def same_hold_def)
  next
    case submitted
    then show ?thesis using quiet [OF inv, of recovery_submit] by (simp add: quiet_starts starts_follow [OF running])
  next
    case resent
    then show ?thesis using quiet [OF inv, of recovery_resend] by (simp add: quiet_starts starts_follow [OF running])
  next
    case cancelled
    then show ?thesis using quiet [OF inv, of recovery_cancel] by (simp add: quiet_starts starts_follow [OF running])
  next
    case (state_known st)
    show ?thesis unfolding state_known(1) by (rule quiet_answer [OF inv state_known(2)]) (simp_all add: quiet_answers answers_follow)
  next
    case (login_started webauthn login)
    show ?thesis unfolding login_started(1) by (rule quiet_answer [OF inv login_started(2)]) (simp_all add: quiet_answers answers_follow)
  next
    case (password_flow login)
    show ?thesis unfolding password_flow(1) by (rule quiet_answer [OF inv password_flow(2)]) (simp_all add: quiet_answers answers_follow)
  next
    case (signed_in ok)
    show ?thesis unfolding signed_in(1) by (rule quiet_answer [OF inv signed_in(2)]) (simp_all add: quiet_answers answers_follow)
  next
    case mailed
    show ?thesis unfolding mailed(1) by (rule inv_mailed [OF inv mailed(2)])
  next
    case code_refused
    show ?thesis unfolding code_refused(1) by (rule inv_code_refused [OF inv code_refused(2-4)])
  next
    case code_accepted
    show ?thesis unfolding code_accepted(1) by (rule inv_code_accepted [OF inv code_accepted(2)])
  next
    case noted
    show ?thesis unfolding noted(1) by (rule inv_noted [OF inv noted(2,3)])
  next
    case factor
    show ?thesis unfolding factor(1) by (rule inv_factor [OF inv factor(2)])
  next
    case save_refused
    show ?thesis unfolding save_refused(1) by (rule inv_save_refused [OF inv save_refused(2-3)])
  next
    case save_accepted
    show ?thesis unfolding save_accepted(1) by (rule inv_save_accepted [OF inv save_accepted(2-3)])
  next
    case over
    show ?thesis unfolding over(1) by (rule inv_over [OF inv over(2)])
  next
    case end_over
    show ?thesis unfolding end_over(1) by (rule inv_end [OF inv end_over(2)])
  next
    case left
    show ?thesis unfolding left(1) by (rule inv_leave [OF inv])
  next
    case elsewhere
    show ?thesis unfolding elsewhere(1) by (rule inv_elsewhere [OF inv elsewhere(2)])
  qed
qed

interpretation reset: inductive_invariant reset_opened "reset_step wd" reset_inv
proof
  show "reset_inv s" if "reset_opened s" for s
    using that by (auto simp: reset_opened_def reset_inv_def form_ok_def accounted_def marked_def fresh_recovery_def)
  show "reset_inv t" if "reset_inv s" "reset_step wd s t" for s t
    using that by (rule reset_inv_step)
qed

lemma noting_iff: "noting x \<longleftrightarrow> (\<exists>a. x = Some (Await_Noted a))"
  by (cases x rule: noting.cases) simp_all

lemma going_over_iff: "going_over x \<longleftrightarrow> (\<exists>m. x = Some (Await_Over m))"
  by (cases x rule: going_over.cases) simp_all


definition demo_words :: auth_words where
  "demo_words = \<lparr>wd_messages = (\<lambda>_. None), wd_provider_error = ''providerError''\<rparr>"

definition demo_flow :: auth_flow where
  "demo_flow = \<lparr>af_id = ''f1'', af_kind = ''recovery'', af_state = Some ''sent_email'', af_messages = [], af_nodes = []\<rparr>"

definition demo_typed :: reset_world where
  "demo_typed = on_form (\<lambda>s. s\<lparr>ry_email := ''a@b.c'', ry_code := ''123456'', ry_password := []\<rparr>)
     \<lparr>rz_form = fresh_recovery True None [], rz_cookie = None, rz_unsaved = {}, rz_signed = [], rz_late = {}, rz_named = False, rz_failed = {}\<rparr>"

definition demo_mailed :: reset_world where
  "demo_mailed = on_form (mail_answered demo_words False (Inr (Flow_Again demo_flow))) (on_form recovery_submit demo_typed)"

definition demo_reset :: reset_world where
  "demo_reset = on_form (code_answered demo_words (Inr (Flow_Done None (Some (''settings'', ''f2''))))) (granted ''s1'' (on_form recovery_submit demo_mailed))"

lemma demo_email: "email_ok (js_trim ''a@b.c'')" "js_trim ''123456'' \<noteq> []"
  by code_simp+

lemma demo_sent: "awaits (Await_Mail False) (on_form recovery_submit demo_typed)"
  by (simp add: awaits_def on_form_def demo_typed_def recovery_submit_def recovery_errors_def fresh_recovery_def demo_email action_start_def idle_action_def
      wait_for_def first_await_def Let_def)

lemma demo_mailed_form:
  "ry_step (rz_form demo_mailed) = Code_Step" "ry_flow (rz_form demo_mailed) = Some demo_flow" "ry_code (rz_form demo_mailed) = ''123456''"
  "\<not> aa_running (ry_action (rz_form demo_mailed))" "\<not> ry_closed (rz_form demo_mailed)" "ry_storage (rz_form demo_mailed)" "ry_ends (rz_form demo_mailed) = []"
  "ry_mark (rz_form demo_mailed) = None" "rz_unsaved demo_mailed = {}" "rz_failed demo_mailed = {}" "rz_late demo_mailed = {}"
  by (simp_all add: demo_mailed_def demo_typed_def on_form_def recovery_submit_def recovery_errors_def fresh_recovery_def demo_email action_start_def idle_action_def
      wait_for_def first_await_def Let_def mail_answered_def finish_run_def show_recovery_def flow_errors_def demo_flow_def action_end_def action_set_error_def)

lemma demo_code_sent:
  "awaits Await_Code (on_form recovery_submit demo_mailed)" "\<not> ry_closed (rz_form (on_form recovery_submit demo_mailed))"
  "ry_storage (rz_form (on_form recovery_submit demo_mailed))" "rz_unsaved (on_form recovery_submit demo_mailed) = {}"
  "ry_ends (rz_form (on_form recovery_submit demo_mailed)) = []" "ry_mark (rz_form (on_form recovery_submit demo_mailed)) = None"
  "rz_failed (on_form recovery_submit demo_mailed) = {}" "rz_late (on_form recovery_submit demo_mailed) = {}"
  by (simp_all add: awaits_def on_form_def recovery_submit_def recovery_errors_def demo_mailed_form demo_email action_start_def wait_for_def first_await_def Let_def)

lemma demo_reset_reach: "reach reset_opened (reset_step demo_words) demo_reset"
proof -
  let ?w0 = "\<lparr>rz_form = fresh_recovery True None [], rz_cookie = None, rz_unsaved = {}, rz_signed = [], rz_late = {}, rz_named = False, rz_failed = {}\<rparr>"
  have "reach reset_opened (reset_step demo_words) ?w0" by (rule reach_init) (auto simp: reset_opened_def)
  then have "reach reset_opened (reset_step demo_words) demo_typed"
    unfolding demo_typed_def by (rule reach_step) (rule typed)
  then have "reach reset_opened (reset_step demo_words) (on_form recovery_submit demo_typed)" by (rule reach_step) (rule submitted)
  then have "reach reset_opened (reset_step demo_words) demo_mailed"
    by (rule reach_step) (use mailed [OF demo_sent, of demo_words _ False] in \<open>simp add: demo_mailed_def\<close>)
  then have "reach reset_opened (reset_step demo_words) (on_form recovery_submit demo_mailed)" by (rule reach_step) (rule submitted)
  then show ?thesis
    by (rule reach_step) (use code_accepted [OF demo_code_sent(1), of "''s1''" demo_words "''f2''"] demo_code_sent(4) in \<open>simp add: demo_reset_def\<close>)
qed

definition demo_named :: reset_world where
  "demo_named = on_form (noted_answered After_Code (Some ''s1'')) (demo_reset\<lparr>rz_named := True\<rparr>)"

lemma demo_reset_form:
  "rz_cookie demo_reset = Some ''s1''" "rz_unsaved demo_reset = {''s1''}" "rz_failed demo_reset = {}" "rz_late demo_reset = {}"
  "awaits (Await_Noted After_Code) demo_reset" "ry_ends (rz_form demo_reset) = []"
  using demo_code_sent by (simp_all add: demo_reset_def on_form_def granted_def code_answered_def hold_def wait_for_def awaits_def Let_def)

lemma demo_named_reach: "reach reset_opened (reset_step demo_words) demo_named"
  using noted [OF demo_reset_form(5), of "Some ''s1''" demo_words] demo_reset_form(1)
  by (intro reach_step [OF demo_reset_reach]) (simp add: demo_named_def)


section \<open>What the mark misses\<close>

text \<open>A code accepted after the screen was left opens a session that is signed out but never marked: when that sign-out fails,
  the next load does not know of it.\<close>

lemma closed_reset_unmarked:
  assumes "ry_closed s" "ry_ends s = []" "ry_mark s = None"
  shows "let t = end_answered False (code_answered w (Inr (Flow_Done None (Some (''settings'', i)))) s)
    in ry_ends t = [] \<and> ry_mark t = None \<and> \<not> ends_reset (ry_mark t) Active_Session me"
  using assms by (simp add: code_answered_def hold_def end_held_def wait_for_def end_answered_def ends_reset_def Let_def)

text \<open>A session that could not name itself because the question failed gets the empty mark of one stopped at its second factor;
  the next load then leaves it signed in, with its password never saved.\<close>

lemma unnamed_reset_survives:
  "ry_storage s \<Longrightarrow> ry_mark (noted_answered After_Code None s) = Some [] \<and> \<not> ends_reset (Some []) Active_Session me"
  by (simp add: noted_answered_def note_mark_def note_reset_def ends_reset_def wait_for_def)

end
