(* ===== verification/Catalog.thy ===== *)
theory Catalog
  imports Amounts Taxes Attempts Moves
begin

text \<open>
  The catalogue (\<open>app-core/src/domain/catalog.ts\<close>): services, products and plans as rows, their stock, how the lists
  are filtered, grouped and sorted, and the editor of an item: its fields, the checks, the request it makes and the
  figures beside it. Rows come from the replica's queries; how amounts and texts print is left out.
\<close>

section \<open>Items\<close>

record catalog_item =
  ct_id :: string
  ct_parent :: "string option"
  ct_variant :: "string option"
  ct_kind :: string
  ct_name :: string
  ct_description :: "string option"
  ct_category :: "string option"
  ct_price :: "int option"
  ct_duration :: "int option"
  ct_capacity :: "int option"
  ct_active :: int
  ct_online :: int
  ct_before :: int
  ct_after :: int
  ct_deposit :: string
  ct_deposit_value :: "rat option"
  ct_sessions :: "int option"
  ct_validity :: "int option"
  ct_interval :: "int option"
  ct_frequency :: "string option"
  ct_tax :: string
  ct_sku :: "string option"
  ct_cost :: "int option"
  ct_track :: int
  ct_sell_online :: int
  ct_on_hand :: "int option"
  ct_low_at :: "int option"
  ct_covers :: "string option"
  ct_visits :: "int option"
  ct_discount :: "int option"
  ct_gifts :: "string option"
  ct_staff :: "string option"
  ct_resources :: "string option"
  ct_addon :: "int option"

text \<open>What the code takes from the engine: the locale, \<open>JSON.parse\<close>, \<open>Number\<close>, the key
  \<open>localeCompare\<close> sorts by, and the section names of the string catalogue.\<close>

record catalog_env =
  ce_locale :: amount_locale
  ce_parse :: "string \<Rightarrow> json option"
  ce_number :: "string \<Rightarrow> rat option"
  ce_collate :: "string \<Rightarrow> int"
  ce_group :: "string \<Rightarrow> string option"

definition filter_items :: "string \<Rightarrow> catalog_item list \<Rightarrow> catalog_item list" where
  "filter_items q rows =
    (let t = map lower_char (js_trim q); has = (\<lambda>v. includes_text t (map lower_char v))
     in if t = [] then rows
        else filter (\<lambda>i. has (ct_name i) \<or> has (case ct_category i of Some c \<Rightarrow> c | None \<Rightarrow> [])
               \<or> has (case ct_sku i of Some k \<Rightarrow> k | None \<Rightarrow> [])) rows)"

definition is_active :: "catalog_item \<Rightarrow> bool" where
  "is_active i \<longleftrightarrow> ct_active i = 1"

definition kind_order :: "string list" where
  "kind_order = [''service'', ''class'', ''product'', ''package'', ''subscription'', ''gift'']"

definition bookable_kinds :: "string list" where
  "bookable_kinds = [''service'', ''class'']"

definition line_kinds :: "string list" where
  "line_kinds = [''service'', ''class'', ''product'']"

definition entitlement_kinds :: "string list" where
  "entitlement_kinds = [''gift'', ''package'', ''subscription'']"

definition bookable_items :: "catalog_item list \<Rightarrow> catalog_item list" where
  "bookable_items = filter (\<lambda>i. is_active i \<and> ct_kind i \<in> set bookable_kinds)"

definition sellable_items :: "catalog_item list \<Rightarrow> catalog_item list" where
  "sellable_items = filter (\<lambda>i. is_active i \<and> ct_price i \<noteq> None \<and> ct_kind i \<in> set line_kinds)"

definition subscription_plans :: "catalog_item list \<Rightarrow> catalog_item list" where
  "subscription_plans = filter (\<lambda>i. is_active i \<and> ct_kind i = ''subscription'')"

definition package_offerings :: "catalog_item list \<Rightarrow> catalog_item list" where
  "package_offerings = filter (\<lambda>i. is_active i \<and> ct_kind i = ''package'')"

definition gift_items :: "catalog_item list \<Rightarrow> catalog_item list" where
  "gift_items = filter (\<lambda>i. is_active i \<and> ct_kind i = ''gift'')"

text \<open>The suggested amounts of a gift card, kept as the text of an array.\<close>

definition strip_brackets :: "string \<Rightarrow> string" where
  "strip_brackets s =
    (let s1 = (if take 1 s = ''['' \<or> take 1 s = ''{'' then drop 1 s else s)
     in if s1 \<noteq> [] \<and> (List.last s1 = CHR '']'' \<or> List.last s1 = CHR ''}'') then butlast s1 else s1)"

definition gift_amounts :: "catalog_env \<Rightarrow> string option \<Rightarrow> int list" where
  "gift_amounts env stored =
    (let raw = js_trim (case stored of Some t \<Rightarrow> t | None \<Rightarrow> [])
     in if raw = [] then []
        else List.map_filter (\<lambda>v. case ce_number env (js_trim v) of
                 Some n \<Rightarrow> if n = of_int \<lfloor>n\<rfloor> \<and> n > 0 then Some \<lfloor>n\<rfloor> else None | None \<Rightarrow> None)
               (split_on (CHR '','') (strip_brackets raw)))"

section \<open>Stock\<close>

datatype stock_state = Untracked | In_Stock | Low_Stock | Out_Of_Stock

definition on_hand :: "catalog_item \<Rightarrow> int" where
  "on_hand i = (case ct_on_hand i of Some n \<Rightarrow> n | None \<Rightarrow> 0)"

definition stock_state_of :: "catalog_item \<Rightarrow> stock_state" where
  "stock_state_of i =
    (if ct_track i \<noteq> 1 then Untracked
     else if on_hand i \<le> 0 then Out_Of_Stock
     else case ct_low_at i of Some at_most \<Rightarrow> if on_hand i \<le> at_most then Low_Stock else In_Stock | None \<Rightarrow> In_Stock)"

definition is_low :: "catalog_item \<Rightarrow> bool" where
  "is_low i \<longleftrightarrow> stock_state_of i \<in> {Low_Stock, Out_Of_Stock}"

definition stock_scale :: "int \<Rightarrow> int option \<Rightarrow> int" where
  "stock_scale held low = max 1 ((case low of Some l \<Rightarrow> l | None \<Rightarrow> max held 1) * 2)"

datatype item_status = Archived | Stock_Status stock_state int

definition item_status_of :: "catalog_item \<Rightarrow> item_status option" where
  "item_status_of i =
    (if \<not> is_active i then Some Archived
     else if is_low i then Some (Stock_Status (stock_state_of i) (on_hand i)) else None)"

definition sells_online :: "catalog_item \<Rightarrow> bool" where
  "sells_online i \<longleftrightarrow> (if ct_kind i \<in> set bookable_kinds then ct_online i = 1 else ct_kind i = ''product'' \<and> ct_sell_online i = 1)"

section \<open>Lists\<close>

datatype catalog_group = Services_Group | Plans_Group
datatype catalog_status = Active_Items | Archived_Items

fun group_kinds :: "catalog_group \<Rightarrow> string list" where
  "group_kinds Services_Group = bookable_kinds"
| "group_kinds Plans_Group = entitlement_kinds"

definition matches_filter :: "catalog_group \<Rightarrow> catalog_status \<Rightarrow> catalog_item \<Rightarrow> bool" where
  "matches_filter g st i \<longleftrightarrow> ct_kind i \<in> set (group_kinds g) \<and> is_active i = (st = Active_Items)"

definition kind_rank :: "string \<Rightarrow> nat" where
  "kind_rank kind = length (takeWhile (\<lambda>k. k \<noteq> kind) kind_order)"

definition section_key :: "catalog_env \<Rightarrow> catalog_item \<Rightarrow> string" where
  "section_key env i =
    (case ct_category i of Some c \<Rightarrow> c
     | None \<Rightarrow> (case ce_group env (ct_kind i) of Some g \<Rightarrow> g | None \<Rightarrow> ct_kind i))"

definition sections_map :: "catalog_env \<Rightarrow> catalog_item list \<Rightarrow> (string, catalog_item list) js_map" where
  "sections_map env items =
    foldl (\<lambda>m i. AList.update (section_key env i) ((case map_of m (section_key env i) of Some xs \<Rightarrow> xs | None \<Rightarrow> []) @ [i]) m) [] items"

definition section_rank :: "catalog_item list \<Rightarrow> nat" where
  "section_rank rows = Min (set (map (\<lambda>r. kind_rank (ct_kind r)) rows))"

text \<open>The comparison is by rank and then by title; both sorts are stable.\<close>

definition group_by_category :: "catalog_env \<Rightarrow> catalog_item list \<Rightarrow> (string \<times> catalog_item list) list" where
  "group_by_category env items =
    sort_key (\<lambda>(k, rows). section_rank rows) (sort_key (\<lambda>(k, rows). ce_collate env k) (sections_map env items))"

definition catalog_sections :: "catalog_env \<Rightarrow> catalog_group \<Rightarrow> catalog_status \<Rightarrow> string \<Rightarrow> catalog_item list \<Rightarrow> (string \<times> catalog_item list) list" where
  "catalog_sections env g st q items =
    group_by_category env (filter_items q (filter (matches_filter g st) (filter (\<lambda>i. ct_kind i \<in> set (group_kinds g)) items)))"

definition catalog_count :: "catalog_group \<Rightarrow> catalog_status \<Rightarrow> catalog_item list \<Rightarrow> nat" where
  "catalog_count g st items = length (filter (matches_filter g st) (filter (\<lambda>i. ct_kind i \<in> set (group_kinds g)) items))"

datatype product_filter = All_Products | Low_Products | Offline_Products | Archived_Products
datatype product_sort = By_Name | By_Margin | By_Stock

fun matches_product :: "product_filter \<Rightarrow> catalog_item \<Rightarrow> bool" where
  "matches_product Archived_Products i \<longleftrightarrow> \<not> is_active i"
| "matches_product Low_Products i \<longleftrightarrow> is_active i \<and> is_low i"
| "matches_product Offline_Products i \<longleftrightarrow> is_active i \<and> ct_sell_online i \<noteq> 1"
| "matches_product All_Products i \<longleftrightarrow> is_active i"

record product_row =
  pw_item :: catalog_item
  pw_margin :: "int option"
  pw_stock :: "stock_state option"
  pw_on_hand :: "int option"
  pw_sold :: int

definition margin_percent :: "int \<Rightarrow> int \<Rightarrow> int" where
  "margin_percent price cost = js_round (of_int (price - cost) / of_int price * 100)"

definition product_row_of :: "catalog_item \<Rightarrow> int \<Rightarrow> product_row" where
  "product_row_of i sold =
    (let p = (case ct_price i of Some c \<Rightarrow> c | None \<Rightarrow> 0); st = stock_state_of i
     in \<lparr>pw_item = i, pw_margin = (case ct_cost i of None \<Rightarrow> None | Some c \<Rightarrow> if p = 0 then None else Some (margin_percent p c)),
         pw_stock = (if st = Untracked then None else Some st),
         pw_on_hand = (if ct_track i = 1 then Some (on_hand i) else None), pw_sold = sold\<rparr>)"

fun product_key :: "catalog_env \<Rightarrow> product_sort \<Rightarrow> product_row \<Rightarrow> int" where
  "product_key env By_Margin r = - (case pw_margin r of Some m \<Rightarrow> m | None \<Rightarrow> - 1)"
| "product_key env By_Stock r = (case pw_on_hand r of Some n \<Rightarrow> n | None \<Rightarrow> 2 ^ 53 - 1)"
| "product_key env By_Name r = ce_collate env (ct_name (pw_item r))"

definition product_rows :: "catalog_env \<Rightarrow> (string \<Rightarrow> int option) \<Rightarrow> product_filter \<Rightarrow> product_sort \<Rightarrow> string \<Rightarrow> catalog_item list \<Rightarrow> product_row list" where
  "product_rows env sold f order q items =
    sort_key (product_key env order)
      (map (\<lambda>i. product_row_of i (case sold (ct_id i) of Some n \<Rightarrow> n | None \<Rightarrow> 0))
        (filter_items q (filter (matches_product f) (filter (\<lambda>i. ct_kind i = ''product'') items))))"

definition cost_value :: "catalog_item list \<Rightarrow> int" where
  "cost_value items =
    sum_list (map (\<lambda>i. if ct_track i = 1 then max 0 (on_hand i) * (case ct_cost i of Some c \<Rightarrow> c | None \<Rightarrow> 0) else 0)
      (filter is_active (filter (\<lambda>i. ct_kind i = ''product'') items)))"

section \<open>Inventory\<close>

record stock_row =
  sw_item :: catalog_item
  sw_on_hand :: int
  sw_low_at :: "int option"
  sw_low :: bool
  sw_days :: "int option"
  sw_suggested :: int

definition stock_row_of :: "catalog_item \<Rightarrow> int \<Rightarrow> stock_row" where
  "stock_row_of i sold =
    (let held = on_hand i; target = max ((case ct_low_at i of Some l \<Rightarrow> l | None \<Rightarrow> 0) * 2) sold
     in \<lparr>sw_item = i, sw_on_hand = held, sw_low_at = ct_low_at i, sw_low = is_low i,
         sw_days = (if sold = 0 then None else Some \<lfloor>of_int (max 0 held) / ((of_int sold :: rat) / 30)\<rfloor>), sw_suggested = max 0 (target - held)\<rparr>)"

definition tracked_rows :: "(string \<Rightarrow> int option) \<Rightarrow> catalog_item list \<Rightarrow> stock_row list" where
  "tracked_rows sold items =
    map (\<lambda>i. stock_row_of i (case sold (ct_id i) of Some n \<Rightarrow> n | None \<Rightarrow> 0))
      (filter (\<lambda>i. is_active i \<and> ct_kind i = ''product'' \<and> ct_track i = 1) items)"

definition days_left :: "(string \<Rightarrow> int option) \<Rightarrow> stock_row \<Rightarrow> rat" where
  "days_left sold r =
    (let per_day = of_int (case sold (ct_id (sw_item r)) of Some n \<Rightarrow> n | None \<Rightarrow> 0) / 30
     in if sw_on_hand r \<le> 0 then - 1 else if per_day = 0 then 2 ^ 53 - 1 else of_int (sw_on_hand r) / per_day)"

definition attention_rows :: "(string \<Rightarrow> int option) \<Rightarrow> stock_row list \<Rightarrow> stock_row list" where
  "attention_rows sold rows = sort_key (days_left sold) (filter sw_low rows)"

definition other_rows :: "catalog_env \<Rightarrow> stock_row list \<Rightarrow> stock_row list" where
  "other_rows env rows = sort_key (\<lambda>r. ce_collate env (ct_name (sw_item r))) (filter (\<lambda>r. \<not> sw_low r) rows)"

record stock_stats =
  ss_tracked :: nat
  ss_low :: nat
  ss_out :: nat
  ss_cost :: int
  ss_retail :: int

definition shelf :: "stock_row \<Rightarrow> int option \<Rightarrow> int" where
  "shelf r cents = max 0 (sw_on_hand r) * (case cents of Some c \<Rightarrow> c | None \<Rightarrow> 0)"

definition stock_stats_of :: "stock_row list \<Rightarrow> stock_stats" where
  "stock_stats_of rows =
    \<lparr>ss_tracked = length rows, ss_low = length (filter (\<lambda>r. sw_low r \<and> 0 < sw_on_hand r) rows),
     ss_out = length (filter (\<lambda>r. sw_on_hand r \<le> 0) rows),
     ss_cost = sum_list (map (\<lambda>r. shelf r (ct_cost (sw_item r))) rows), ss_retail = sum_list (map (\<lambda>r. shelf r (ct_price (sw_item r))) rows)\<rparr>"

text \<open>Every tracked product is under one heading, and what is out of stock needs attention.\<close>

lemma inventory_split:
  "mset (attention_rows sold rows) + mset (other_rows env rows) = mset rows"
  by (simp add: attention_rows_def other_rows_def mset_filter flip: multiset_partition)

lemma stock_stats_split:
  assumes "rows = tracked_rows sold items"
  shows "ss_low (stock_stats_of rows) + ss_out (stock_stats_of rows) = length (attention_rows sold rows)"
proof -
  have "sw_low r" if "r \<in> set rows" "sw_on_hand r \<le> 0" for r
    using that by (auto simp: assms tracked_rows_def stock_row_of_def is_low_def stock_state_of_def Let_def)
  then have "filter (\<lambda>r. sw_on_hand r \<le> 0) rows = filter (\<lambda>r. \<not> 0 < sw_on_hand r) (filter sw_low rows)"
    by (auto intro!: filter_cong simp: not_less)
  then show ?thesis
    using sum_length_filter_compl [of "\<lambda>r. 0 < sw_on_hand r" "filter sw_low rows"]
    by (simp add: stock_stats_of_def attention_rows_def conj_commute)
qed

text \<open>What a delivery of the suggested size leaves is no longer low.\<close>

lemma suggested_restocks:
  assumes "0 \<le> sold" "ct_low_at i = Some low" "0 < low" "0 < sw_suggested (stock_row_of i sold)"
  shows "low < on_hand i + sw_suggested (stock_row_of i sold)"
  using assms by (simp add: stock_row_of_def Let_def max_def split: if_splits)

end
