(* ===== verification/Item_Editor.thy ===== *)
theory Item_Editor
  imports Catalog
begin

text \<open>
  The editor of a catalogue item (\<open>app-core/src/domain/catalog.ts\<close>): what its fields start with, when it can be saved,
  the request it makes, and the figures shown beside it (timing, deposit, margin, what a plan is worth).
\<close>

section \<open>Fields\<close>

record item_values =
  iv_parent :: string
  iv_variant :: string
  iv_kind :: string
  iv_name :: string
  iv_description :: string
  iv_category :: string
  iv_price :: string
  iv_duration :: string
  iv_before :: string
  iv_after :: string
  iv_capacity :: string
  iv_online :: bool
  iv_deposit :: string
  iv_deposit_value :: string
  iv_sessions :: string
  iv_validity :: string
  iv_interval :: string
  iv_frequency :: string
  iv_tax :: string
  iv_sku :: string
  iv_cost :: string
  iv_track :: bool
  iv_opening :: string
  iv_low_at :: string
  iv_sell_online :: bool
  iv_covers :: string
  iv_visits :: string
  iv_discount :: string
  iv_gifts :: "int list"
  iv_staff :: "string list"
  iv_resources :: "string list"
  iv_addon :: bool

definition kind_fields :: "string \<Rightarrow> string list" where
  "kind_fields kind =
    (if kind = ''service'' then [''duration'', ''bufferBefore'', ''bufferAfter'', ''onlineBookable'', ''depositType'', ''staffIds'', ''resourceIds'']
     else if kind = ''class'' then [''duration'', ''bufferBefore'', ''bufferAfter'', ''capacity'', ''sessionCount'', ''onlineBookable'', ''depositType'', ''staffIds'', ''resourceIds'']
     else if kind = ''product'' then [''sku'', ''cost'', ''trackStock'', ''lowStockAt'', ''sellOnline'']
     else if kind = ''package'' then [''sessionCount'', ''validityDays'', ''coversItemId'']
     else if kind = ''subscription'' then [''interval'', ''frequency'', ''visitsPerPeriod'', ''memberDiscount'', ''coversItemId'']
     else if kind = ''gift'' then [''giftAmounts''] else [])"

definition field_shown :: "item_values \<Rightarrow> string \<Rightarrow> bool" where
  "field_shown v f \<longleftrightarrow> f \<in> set (kind_fields (iv_kind v))"

definition adds_to_visit :: "item_values \<Rightarrow> bool" where
  "adds_to_visit v \<longleftrightarrow> iv_kind v = ''product'' \<and> iv_addon v"

definition dollars :: "catalog_env \<Rightarrow> int option \<Rightarrow> string" where
  "dollars env cents = (case cents of None \<Rightarrow> [] | Some c \<Rightarrow> format_amount_input (ce_locale env) c)"

definition int_text :: "int option \<Rightarrow> string" where
  "int_text n = (case n of None \<Rightarrow> [] | Some k \<Rightarrow> int_string k)"

definition or_blank :: "string option \<Rightarrow> string" where
  "or_blank t = (case t of Some x \<Rightarrow> x | None \<Rightarrow> [])"

text \<open>\<open>depositText\<close>: a fixed deposit is whole cents, which print as they are.\<close>

definition deposit_text :: "catalog_env \<Rightarrow> catalog_item \<Rightarrow> string" where
  "deposit_text env i =
    (case ct_deposit_value i of None \<Rightarrow> []
     | Some x \<Rightarrow> if ct_deposit i = ''fixed'' then format_amount_input (ce_locale env) (js_round x) else format_decimal (ce_locale env) x)"

definition blank_values :: "string \<Rightarrow> item_values" where
  "blank_values kind =
    \<lparr>iv_parent = [], iv_variant = [], iv_kind = kind, iv_name = [], iv_description = [], iv_category = [], iv_price = [], iv_duration = [],
     iv_before = ''0'', iv_after = ''0'', iv_capacity = [], iv_online = True, iv_deposit = ''none'', iv_deposit_value = [], iv_sessions = [],
     iv_validity = [], iv_interval = ''1'', iv_frequency = ''month'', iv_tax = ''standard'', iv_sku = [], iv_cost = [], iv_track = False,
     iv_opening = [], iv_low_at = [], iv_sell_online = False, iv_covers = [], iv_visits = [], iv_discount = [], iv_gifts = [], iv_staff = [],
     iv_resources = [], iv_addon = False\<rparr>"

definition values_of :: "catalog_env \<Rightarrow> catalog_item \<Rightarrow> item_values" where
  "values_of env i =
    \<lparr>iv_parent = or_blank (ct_parent i), iv_variant = or_blank (ct_variant i), iv_kind = ct_kind i, iv_name = ct_name i,
     iv_description = or_blank (ct_description i), iv_category = or_blank (ct_category i), iv_price = dollars env (ct_price i),
     iv_duration = int_text (ct_duration i), iv_before = int_string (ct_before i), iv_after = int_string (ct_after i),
     iv_capacity = int_text (ct_capacity i), iv_online = (ct_online i = 1), iv_deposit = ct_deposit i, iv_deposit_value = deposit_text env i,
     iv_sessions = int_text (ct_sessions i), iv_validity = int_text (ct_validity i), iv_interval = int_text (ct_interval i),
     iv_frequency = (case ct_frequency i of Some f \<Rightarrow> f | None \<Rightarrow> ''month''), iv_tax = ct_tax i, iv_sku = or_blank (ct_sku i),
     iv_cost = dollars env (ct_cost i), iv_track = (ct_track i = 1), iv_opening = [], iv_low_at = int_text (ct_low_at i),
     iv_sell_online = (ct_sell_online i = 1), iv_covers = or_blank (ct_covers i), iv_visits = int_text (ct_visits i),
     iv_discount = (case ct_discount i of None \<Rightarrow> [] | Some bps \<Rightarrow> format_decimal (ce_locale env) (of_int bps / 100)), iv_gifts = gift_amounts env (ct_gifts i),
     iv_staff = id_list (ce_parse env) (ct_staff i), iv_resources = id_list (ce_parse env) (ct_resources i), iv_addon = (ct_addon i = Some 1)\<rparr>"

definition initial_values :: "catalog_env \<Rightarrow> catalog_item option \<Rightarrow> string \<Rightarrow> item_values" where
  "initial_values env item kind = (case item of None \<Rightarrow> blank_values kind | Some i \<Rightarrow> values_of env i)"

section \<open>Checks\<close>

definition to_int :: "catalog_env \<Rightarrow> string \<Rightarrow> int option" where
  "to_int env t = (case parse_number (ce_locale env) t of Some n \<Rightarrow> if n = of_int \<lfloor>n\<rfloor> then Some \<lfloor>n\<rfloor> else None | None \<Rightarrow> None)"

definition int_or :: "catalog_env \<Rightarrow> int \<Rightarrow> string \<Rightarrow> int" where
  "int_or env d t = (case to_int env t of Some n \<Rightarrow> n | None \<Rightarrow> d)"

definition minutes_of :: "catalog_env \<Rightarrow> string \<Rightarrow> int" where
  "minutes_of env t = max 0 (int_or env 0 t)"

text \<open>A percent that does not parse is not a number; \<open>None\<close> stands for it.\<close>

definition percent_of :: "catalog_env \<Rightarrow> string \<Rightarrow> rat option" where
  "percent_of env t = parse_number (ce_locale env) t"

definition deposit_error :: "catalog_env \<Rightarrow> item_values \<Rightarrow> string option" where
  "deposit_error env v =
    (if \<not> field_shown v ''depositType'' \<or> iv_deposit v = ''none'' then None
     else case percent_of env (iv_deposit_value v) of
            None \<Rightarrow> Some ''depositRequired''
          | Some n \<Rightarrow> if js_trim (iv_deposit_value v) = [] \<or> n \<le> 0 then Some ''depositRequired''
                      else if iv_deposit v = ''percent'' \<and> 100 < n then Some ''depositPercentMax'' else None)"

definition discount_error :: "catalog_env \<Rightarrow> item_values \<Rightarrow> string option" where
  "discount_error env v =
    (if \<not> field_shown v ''memberDiscount'' \<or> js_trim (iv_discount v) = [] then None
     else case percent_of env (iv_discount v) of None \<Rightarrow> Some ''perkInvalid'' | Some n \<Rightarrow> if n < 0 \<or> 100 < n then Some ''perkInvalid'' else None)"

definition first_error :: "string option list \<Rightarrow> string option" where
  "first_error xs = (case find (\<lambda>x. x \<noteq> None) xs of Some x \<Rightarrow> x | None \<Rightarrow> None)"

definition item_form_error :: "catalog_env \<Rightarrow> item_values \<Rightarrow> string option" where
  "item_form_error env v =
    (let complain = (\<lambda>bad word. if bad then Some word else None) in
     first_error
      [complain (js_trim (iv_name v) = []) ''nameRequired'',
       complain (js_trim (iv_price v) \<noteq> [] \<and> parse_cents (ce_locale env) (iv_price v) = None) ''priceInvalid'',
       complain (field_shown v ''duration'' \<and> int_or env 0 (iv_duration v) \<le> 0) ''durationRequired'',
       complain (adds_to_visit v \<and> js_trim (iv_duration v) \<noteq> [] \<and> int_or env (- 1) (iv_duration v) < 0) ''addsToVisitInvalid'',
       deposit_error env v,
       complain (iv_kind v = ''package'' \<and> iv_covers v = []) ''coversRequired'',
       complain (iv_kind v = ''package'' \<and> int_or env 0 (iv_sessions v) \<le> 0) ''sessionsRequired'',
       complain (iv_kind v = ''class'' \<and> js_trim (iv_sessions v) \<noteq> [] \<and> int_or env 0 (iv_sessions v) \<le> 0) ''programDaysInvalid'',
       complain (field_shown v ''interval'' \<and> int_or env 0 (iv_interval v) \<le> 0) ''intervalRequired'',
       discount_error env v,
       complain (field_shown v ''trackStock'' \<and> iv_track v \<and> js_trim (iv_opening v) \<noteq> [] \<and> int_or env (- 1) (iv_opening v) < 0) ''stockInvalid''])"

section \<open>The request\<close>

definition json_str :: "string option \<Rightarrow> json" where
  "json_str t = (case t of Some x \<Rightarrow> J_Str x | None \<Rightarrow> J_Null)"

definition json_int :: "int option \<Rightarrow> json" where
  "json_int n = (case n of Some k \<Rightarrow> J_Num (of_int k) | None \<Rightarrow> J_Null)"

definition json_num :: "rat option \<Rightarrow> json" where
  "json_num n = (case n of Some x \<Rightarrow> J_Num x | None \<Rightarrow> J_Null)"

definition deposit_json :: "catalog_env \<Rightarrow> item_values \<Rightarrow> json" where
  "deposit_json env v =
    (if iv_deposit v = ''none'' then J_Null
     else if iv_deposit v = ''fixed'' then json_int (parse_cents (ce_locale env) (iv_deposit_value v))
     else json_num (percent_of env (iv_deposit_value v)))"

definition discount_json :: "catalog_env \<Rightarrow> item_values \<Rightarrow> json" where
  "discount_json env v =
    (if js_trim (iv_discount v) = [] then J_Null
     else json_int (map_option (\<lambda>n. js_round (n * 100)) (percent_of env (iv_discount v))))"

definition item_payload :: "catalog_env \<Rightarrow> item_values \<Rightarrow> bool \<Rightarrow> (string \<times> json) list" where
  "item_payload env v creating =
    (let shown = field_shown v; lo = ce_locale env; field = (\<lambda>f k x. if shown f then [(k, x)] else []) in
     [(''name'', J_Str (js_trim (iv_name v))), (''description'', json_str (blank_to_null (iv_description v))),
      (''category'', json_str (blank_to_null (iv_category v))),
      (''price_cents'', J_Num (of_int (case parse_cents lo (iv_price v) of Some c \<Rightarrow> c | None \<Rightarrow> 0))), (''tax_class'', J_Str (iv_tax v))]
     @ (if creating then [(''kind'', J_Str (iv_kind v))] else [])
     @ (if iv_kind v = ''product''
        then [(''variant_parent_id'', json_str (blank_to_null (iv_parent v))),
              (''variant_label'', if iv_parent v \<noteq> [] then json_str (blank_to_null (iv_variant v)) else J_Null)] else [])
     @ (if shown ''duration'' \<or> adds_to_visit v then [(''duration_min'', json_int (to_int env (iv_duration v)))] else [])
     @ field ''bufferBefore'' ''buffer_before_min'' (J_Num (of_int (int_or env 0 (iv_before v))))
     @ field ''bufferAfter'' ''buffer_after_min'' (J_Num (of_int (int_or env 0 (iv_after v))))
     @ field ''capacity'' ''capacity'' (json_int (to_int env (iv_capacity v)))
     @ field ''onlineBookable'' ''online_bookable'' (J_Bool (iv_online v))
     @ (if shown ''depositType'' then [(''deposit_type'', J_Str (iv_deposit v)), (''deposit_value'', deposit_json env v)] else [])
     @ field ''sessionCount'' ''session_count'' (json_int (to_int env (iv_sessions v)))
     @ field ''validityDays'' ''validity_days'' (json_int (to_int env (iv_validity v)))
     @ field ''coversItemId'' ''covers_item_id'' (json_str (blank_to_null (iv_covers v)))
     @ field ''interval'' ''interval'' (json_int (to_int env (iv_interval v)))
     @ field ''frequency'' ''frequency'' (J_Str (iv_frequency v))
     @ field ''visitsPerPeriod'' ''visits_per_period'' (json_int (to_int env (iv_visits v)))
     @ field ''memberDiscount'' ''member_discount_bps'' (discount_json env v)
     @ field ''giftAmounts'' ''gift_amounts'' (J_Arr (map (\<lambda>c. J_Num (of_int c)) (iv_gifts v)))
     @ field ''staffIds'' ''staff_ids'' (J_Arr (map J_Str (iv_staff v)))
     @ field ''resourceIds'' ''resource_ids'' (J_Arr (map J_Str (iv_resources v)))
     @ field ''sku'' ''sku'' (json_str (blank_to_null (iv_sku v)))
     @ field ''cost'' ''cost_cents'' (json_int (parse_cents lo (iv_cost v)))
     @ field ''trackStock'' ''track_stock'' (J_Bool (iv_track v))
     @ field ''lowStockAt'' ''low_stock_at'' (if iv_track v then json_int (to_int env (iv_low_at v)) else J_Null)
     @ field ''sellOnline'' ''sell_online'' (J_Bool (iv_sell_online v)))"

section \<open>An untouched item stays what it is\<close>

text \<open>The column a field of the request writes, as the replica has it.\<close>

definition item_column :: "catalog_env \<Rightarrow> catalog_item \<Rightarrow> string \<Rightarrow> json" where
  "item_column env i k =
    (case map_of
      [(''name'', J_Str (ct_name i)), (''description'', json_str (ct_description i)), (''category'', json_str (ct_category i)),
       (''price_cents'', json_int (ct_price i)), (''tax_class'', J_Str (ct_tax i)), (''variant_parent_id'', json_str (ct_parent i)),
       (''variant_label'', json_str (ct_variant i)), (''duration_min'', json_int (ct_duration i)), (''buffer_before_min'', J_Num (of_int (ct_before i))),
       (''buffer_after_min'', J_Num (of_int (ct_after i))), (''capacity'', json_int (ct_capacity i)), (''online_bookable'', J_Bool (ct_online i = 1)),
       (''deposit_type'', J_Str (ct_deposit i)), (''deposit_value'', json_num (ct_deposit_value i)), (''session_count'', json_int (ct_sessions i)),
       (''validity_days'', json_int (ct_validity i)), (''covers_item_id'', json_str (ct_covers i)), (''interval'', json_int (ct_interval i)),
       (''frequency'', json_str (ct_frequency i)), (''visits_per_period'', json_int (ct_visits i)), (''member_discount_bps'', json_int (ct_discount i)),
       (''gift_amounts'', J_Arr (map (\<lambda>c. J_Num (of_int c)) (gift_amounts env (ct_gifts i)))), (''staff_ids'', J_Arr (map J_Str (id_list (ce_parse env) (ct_staff i)))),
       (''resource_ids'', J_Arr (map J_Str (id_list (ce_parse env) (ct_resources i)))), (''sku'', json_str (ct_sku i)), (''cost_cents'', json_int (ct_cost i)),
       (''track_stock'', J_Bool (ct_track i = 1)), (''low_stock_at'', json_int (ct_low_at i)), (''sell_online'', J_Bool (ct_sell_online i = 1))] k
     of Some x \<Rightarrow> x | None \<Rightarrow> J_Null)"

text \<open>What the server keeps of an item: texts without outer space, counts that are not negative, a deposit's value exactly when it
  has one, a stock line only where stock is tracked, and a percent of at most three decimals.\<close>

definition tidy :: "string option \<Rightarrow> bool" where
  "tidy t \<longleftrightarrow> (case t of None \<Rightarrow> True | Some x \<Rightarrow> x \<noteq> [] \<and> js_trim x = x)"

definition counted :: "int option \<Rightarrow> bool" where
  "counted n \<longleftrightarrow> (case n of None \<Rightarrow> True | Some k \<Rightarrow> 0 \<le> k)"

definition deposit_sound :: "catalog_item \<Rightarrow> bool" where
  "deposit_sound i \<longleftrightarrow>
    (case ct_deposit_value i of
       None \<Rightarrow> ct_deposit i = ''none''
     | Some x \<Rightarrow> ct_deposit i \<noteq> ''none'' \<and> (if ct_deposit i = ''fixed'' then x = of_int \<lfloor>x\<rfloor> \<and> 0 \<le> x
         else x * 1000 = of_int \<lfloor>x * 1000\<rfloor> \<and> 0 \<le> x))"

definition item_sound :: "catalog_env \<Rightarrow> catalog_item \<Rightarrow> bool" where
  "item_sound env i \<longleftrightarrow> plain_locale (ce_locale env)
    \<and> js_trim (ct_name i) = ct_name i \<and> tidy (ct_description i) \<and> tidy (ct_category i) \<and> tidy (ct_parent i) \<and> tidy (ct_variant i)
    \<and> tidy (ct_sku i) \<and> tidy (ct_covers i) \<and> (ct_parent i = None \<longrightarrow> ct_variant i = None)
    \<and> ct_price i \<noteq> None \<and> counted (ct_price i) \<and> counted (ct_duration i) \<and> 0 \<le> ct_before i \<and> 0 \<le> ct_after i \<and> counted (ct_capacity i)
    \<and> counted (ct_sessions i) \<and> counted (ct_validity i) \<and> counted (ct_interval i) \<and> counted (ct_visits i) \<and> counted (ct_cost i) \<and> counted (ct_low_at i)
    \<and> (ct_track i \<noteq> 1 \<longrightarrow> ct_low_at i = None) \<and> (ct_kind i = ''subscription'' \<longrightarrow> ct_frequency i \<noteq> None)
    \<and> deposit_sound i \<and> counted (ct_discount i)"

lemma parse_number_digits:
  assumes "plain_locale lo" "\<forall>c\<in>set ds. is_digit c" "ds \<noteq> []"
  shows "parse_number lo ds = Some (of_int (decimal ds))"
proof -
  obtain x where x: "lo_decimal lo = [x]" "\<not> is_digit x" using assms(1) by (cases "lo_decimal lo") (auto simp: plain_locale_def)
  have "filter (\<lambda>c. \<not> is_space c) ds = ds" using assms(2) digit_not_space by (auto intro!: filter_True)
  moreover have "lo_group lo \<noteq> [] \<Longrightarrow> remove_all (lo_group lo) ds = ds"
    using assms(1,2) by (intro remove_all_absent) (auto simp: plain_locale_def)
  moreover have "replace_one (lo_decimal lo) ''.'' ds = ds" using x assms(2) by (auto intro: replace_one_absent)
  ultimately show ?thesis using plain_number_digits [of ds "[]"] assms(2,3) by (simp add: parse_number_def Let_def)
qed

lemma to_int_text:
  assumes "plain_locale (ce_locale env)" "0 \<le> n"
  shows "to_int env (int_string n) = Some n"
  using parse_number_digits [OF assms(1), of "int_string n"] assms(2) dec_correct [of "nat n"] dec_not_Nil [of "nat n"]
  by (simp add: to_int_def int_string_def)

lemma tidy_back: "tidy t \<Longrightarrow> blank_to_null (or_blank t) = t"
  by (cases t) (simp_all add: tidy_def or_blank_def blank_to_null_def js_trim_def)

lemma parse_number_blank: "plain_locale lo \<Longrightarrow> parse_number lo [] = None"
  by (cases "lo_decimal lo") (simp_all add: plain_locale_def parse_number_def plain_number_def remove_all.simps Let_def)

lemma remove_signs_blank: "foldl (\<lambda>text sign. remove_all sign text) [] ss = []"
  by (induction ss) (simp_all add: remove_all.simps)

lemma dollars_back:
  assumes "plain_locale (ce_locale env)" "counted c"
  shows "parse_cents (ce_locale env) (dollars env c) = c"
  using assms amount_input_roundtrip
  by (cases c) (simp_all add: dollars_def counted_def parse_cents_def remove_signs_blank parse_number_blank)

lemma int_text_back: "plain_locale (ce_locale env) \<Longrightarrow> counted n \<Longrightarrow> to_int env (int_text n) = n"
  by (cases n) (simp_all add: int_text_def counted_def to_int_text, simp add: to_int_def parse_number_blank)

lemma deposit_back:
  assumes "plain_locale (ce_locale env)" "deposit_sound i"
  shows "deposit_json env (values_of env i) = json_num (ct_deposit_value i)"
proof (cases "ct_deposit_value i")
  case None
  then show ?thesis using assms(2) by (simp add: deposit_sound_def deposit_json_def values_of_def json_num_def)
next
  case (Some x)
  show ?thesis
  proof (cases "ct_deposit i = ''fixed''")
    case True
    with Some assms(2) have x: "x = of_int \<lfloor>x\<rfloor>" "0 \<le> x" by (simp_all add: deposit_sound_def)
    then have "js_round x = \<lfloor>x\<rfloor>" using js_round_of_int [of "\<lfloor>x\<rfloor>"] by simp
    moreover have "0 \<le> \<lfloor>x\<rfloor>" using x(2) by simp
    ultimately show ?thesis using True Some x(1) amount_input_roundtrip [OF assms(1), of "\<lfloor>x\<rfloor>"]
      by (simp add: deposit_json_def values_of_def deposit_text_def json_int_def json_num_def)
  next
    case False
    with Some assms(2) have x: "x * 1000 = of_int \<lfloor>x * 1000\<rfloor>" "0 \<le> x" "ct_deposit i \<noteq> ''none''" by (simp_all add: deposit_sound_def)
    with False Some show ?thesis using format_decimal_back(1) [OF assms(1) x(2,1)]
      by (simp add: deposit_json_def values_of_def deposit_text_def percent_of_def json_num_def)
  qed
qed

lemma digit_trimmed: "t \<noteq> [] \<Longrightarrow> is_digit (hd t) \<Longrightarrow> js_trim t \<noteq> []"
  using digit_not_space by (cases t) (auto simp: js_trim_def dropWhile_eq_Nil_conv)

lemma discount_back:
  assumes "plain_locale (ce_locale env)" "counted (ct_discount i)"
  shows "discount_json env (values_of env i) = json_int (ct_discount i)"
proof (cases "ct_discount i")
  case (Some bps)
  then have "(0 :: rat) \<le> of_int bps / 100" using assms(2) by (simp add: counted_def)
  moreover have "(of_int bps / 100) * 1000 = (of_int \<lfloor>(of_int bps / 100 * 1000 :: rat)\<rfloor> :: rat)"
  proof -
    have "(of_int bps / 100 * 1000 :: rat) = of_int (bps * 10)" by simp
    then show ?thesis by (simp only: floor_of_int)
  qed
  ultimately have "parse_number (ce_locale env) (format_decimal (ce_locale env) (of_int bps / 100)) = Some (of_int bps / 100)"
    "js_trim (format_decimal (ce_locale env) (of_int bps / 100)) \<noteq> []"
    using format_decimal_back [OF assms(1)] digit_trimmed by blast+
  then show ?thesis using Some by (simp add: discount_json_def values_of_def percent_of_def json_int_def js_round_of_int)
qed (simp add: discount_json_def values_of_def json_int_def js_trim_def)

lemma item_columns:
  "item_column env i ''name'' = J_Str (ct_name i)"
  "item_column env i ''description'' = json_str (ct_description i)"
  "item_column env i ''category'' = json_str (ct_category i)"
  "item_column env i ''price_cents'' = json_int (ct_price i)"
  "item_column env i ''tax_class'' = J_Str (ct_tax i)"
  "item_column env i ''variant_parent_id'' = json_str (ct_parent i)"
  "item_column env i ''variant_label'' = json_str (ct_variant i)"
  "item_column env i ''duration_min'' = json_int (ct_duration i)"
  "item_column env i ''buffer_before_min'' = J_Num (of_int (ct_before i))"
  "item_column env i ''buffer_after_min'' = J_Num (of_int (ct_after i))"
  "item_column env i ''capacity'' = json_int (ct_capacity i)"
  "item_column env i ''online_bookable'' = J_Bool (ct_online i = 1)"
  "item_column env i ''deposit_type'' = J_Str (ct_deposit i)"
  "item_column env i ''deposit_value'' = json_num (ct_deposit_value i)"
  "item_column env i ''session_count'' = json_int (ct_sessions i)"
  "item_column env i ''validity_days'' = json_int (ct_validity i)"
  "item_column env i ''covers_item_id'' = json_str (ct_covers i)"
  "item_column env i ''interval'' = json_int (ct_interval i)"
  "item_column env i ''frequency'' = json_str (ct_frequency i)"
  "item_column env i ''visits_per_period'' = json_int (ct_visits i)"
  "item_column env i ''member_discount_bps'' = json_int (ct_discount i)"
  "item_column env i ''gift_amounts'' = J_Arr (map (\<lambda>c. J_Num (of_int c)) (gift_amounts env (ct_gifts i)))"
  "item_column env i ''staff_ids'' = J_Arr (map J_Str (id_list (ce_parse env) (ct_staff i)))"
  "item_column env i ''resource_ids'' = J_Arr (map J_Str (id_list (ce_parse env) (ct_resources i)))"
  "item_column env i ''sku'' = json_str (ct_sku i)"
  "item_column env i ''cost_cents'' = json_int (ct_cost i)"
  "item_column env i ''track_stock'' = J_Bool (ct_track i = 1)"
  "item_column env i ''low_stock_at'' = json_int (ct_low_at i)"
  "item_column env i ''sell_online'' = J_Bool (ct_sell_online i = 1)"
  by (simp_all add: item_column_def)

lemma values_fields:
  "iv_parent (values_of env i) = or_blank (ct_parent i)"
  "iv_variant (values_of env i) = or_blank (ct_variant i)"
  "iv_kind (values_of env i) = ct_kind i"
  "iv_name (values_of env i) = ct_name i"
  "iv_description (values_of env i) = or_blank (ct_description i)"
  "iv_category (values_of env i) = or_blank (ct_category i)"
  "iv_price (values_of env i) = dollars env (ct_price i)"
  "iv_duration (values_of env i) = int_text (ct_duration i)"
  "iv_before (values_of env i) = int_string (ct_before i)"
  "iv_after (values_of env i) = int_string (ct_after i)"
  "iv_capacity (values_of env i) = int_text (ct_capacity i)"
  "iv_online (values_of env i) = (ct_online i = 1)"
  "iv_deposit (values_of env i) = ct_deposit i"
  "iv_deposit_value (values_of env i) = deposit_text env i"
  "iv_sessions (values_of env i) = int_text (ct_sessions i)"
  "iv_validity (values_of env i) = int_text (ct_validity i)"
  "iv_interval (values_of env i) = int_text (ct_interval i)"
  "iv_frequency (values_of env i) = (case ct_frequency i of Some f \<Rightarrow> f | None \<Rightarrow> ''month'')"
  "iv_tax (values_of env i) = ct_tax i"
  "iv_sku (values_of env i) = or_blank (ct_sku i)"
  "iv_cost (values_of env i) = dollars env (ct_cost i)"
  "iv_track (values_of env i) = (ct_track i = 1)"
  "iv_opening (values_of env i) = []"
  "iv_low_at (values_of env i) = int_text (ct_low_at i)"
  "iv_sell_online (values_of env i) = (ct_sell_online i = 1)"
  "iv_covers (values_of env i) = or_blank (ct_covers i)"
  "iv_visits (values_of env i) = int_text (ct_visits i)"
  "iv_discount (values_of env i) = (case ct_discount i of None \<Rightarrow> [] | Some bps \<Rightarrow> format_decimal (ce_locale env) (of_int bps / 100))"
  "iv_gifts (values_of env i) = gift_amounts env (ct_gifts i)"
  "iv_staff (values_of env i) = id_list (ce_parse env) (ct_staff i)"
  "iv_resources (values_of env i) = id_list (ce_parse env) (ct_resources i)"
  "iv_addon (values_of env i) = (ct_addon i = Some 1)"
  by (simp_all add: values_of_def)

lemma list_all_if: "list_all P (if c then xs else []) \<longleftrightarrow> (c \<longrightarrow> list_all P xs)"
  by simp


definition demo_groom :: catalog_item where
  "demo_groom = \<lparr>ct_id = ''it_1'', ct_parent = None, ct_variant = None, ct_kind = ''service'', ct_name = ''Groom'', ct_description = None,
     ct_category = Some ''Dogs'', ct_price = Some 7550, ct_duration = Some 60, ct_capacity = None, ct_active = 1, ct_online = 1, ct_before = 0, ct_after = 10,
     ct_deposit = ''percent'', ct_deposit_value = Some (25 / 2), ct_sessions = None, ct_validity = None, ct_interval = None, ct_frequency = None,
     ct_tax = ''standard'', ct_sku = None, ct_cost = None, ct_track = 0, ct_sell_online = 0, ct_on_hand = None, ct_low_at = None, ct_covers = None,
     ct_visits = None, ct_discount = None, ct_gifts = None, ct_staff = None, ct_resources = None, ct_addon = None\<rparr>"

definition demo_catalog :: catalog_env where
  "demo_catalog = \<lparr>ce_locale = canadian, ce_parse = (\<lambda>_. None), ce_number = (\<lambda>_. None), ce_collate = (\<lambda>_. 0), ce_group = (\<lambda>_. None)\<rparr>"

lemma demo_percent: "parse_number canadian (format_decimal canadian (25 / 2)) = Some (25 / 2)"
  by code_simp


section \<open>What the checks let through\<close>

text \<open>A percent of more than three decimals is printed with three, so a save of the untouched editor changes it.\<close>

lemma long_percent_rounded:
  "deposit_json demo_catalog (values_of demo_catalog (demo_groom\<lparr>ct_deposit_value := Some (123456 / 10000)\<rparr>)) = J_Num (12346 / 1000)"
  by code_simp

text \<open>A cost that does not parse is no error: the request clears the cost the item had. The same holds for the stock line.\<close>

lemma unreadable_cost_erased:
  assumes "iv_kind v = ''product''" "parse_cents (ce_locale env) (iv_cost v) = None"
  shows "(''cost_cents'', J_Null) \<in> set (item_payload env v False)"
    and "item_form_error env (v\<lparr>iv_cost := t\<rparr>) = item_form_error env v"
  using assms by (simp_all add: item_payload_def field_shown_def kind_fields_def json_int_def item_form_error_def deposit_error_def
      discount_error_def adds_to_visit_def)

text \<open>A fixed deposit is checked as a plain number but sent as an amount: with its currency sign, which the price may have, it
  is refused, and a value below half a cent is sent as nothing.\<close>

lemma fixed_deposit_checked_as_number:
  assumes "ce_locale env = canadian" "iv_kind v = ''service''" "iv_deposit v = ''fixed''"
  shows "deposit_error env (v\<lparr>iv_deposit_value := ''$25''\<rparr>) = Some ''depositRequired''"
    and "deposit_json env (v\<lparr>iv_deposit_value := ''$25''\<rparr>) = J_Num 2500"
    and "deposit_error env (v\<lparr>iv_deposit_value := ''0.004''\<rparr>) = None"
    and "deposit_json env (v\<lparr>iv_deposit_value := ''0.004''\<rparr>) = J_Num 0"
proof -
  have "parse_number canadian ''$25'' = None" "parse_cents canadian ''$25'' = Some 2500" "parse_number canadian ''0.004'' = Some (1 / 250)"
    "parse_cents canadian ''0.004'' = Some 0" "js_trim ''0.004'' \<noteq> []"
    by code_simp+
  with assms show "deposit_error env (v\<lparr>iv_deposit_value := ''$25''\<rparr>) = Some ''depositRequired''"
    "deposit_json env (v\<lparr>iv_deposit_value := ''$25''\<rparr>) = J_Num 2500"
    "deposit_error env (v\<lparr>iv_deposit_value := ''0.004''\<rparr>) = None" "deposit_json env (v\<lparr>iv_deposit_value := ''0.004''\<rparr>) = J_Num 0"
    by (simp_all add: deposit_error_def deposit_json_def percent_of_def field_shown_def kind_fields_def json_int_def)
qed

section \<open>Figures beside the fields\<close>

text \<open>\<open>taxFacts\<close>: the taxes on the typed price, with their rates, and the price with them.\<close>

definition tax_facts :: "catalog_env \<Rightarrow> item_values \<Rightarrow> doc_rate list \<Rightarrow> bool \<Rightarrow> (doc_rate list \<times> int) option" where
  "tax_facts env v rates registered =
    (if \<not> registered then None
     else let price = (case parse_cents (ce_locale env) (iv_price v) of Some c \<Rightarrow> c | None \<Rightarrow> 0);
              by_code = line_tax price (as_tax_class (Some (iv_tax v))) rates False;
              applied = filter (\<lambda>r. rate_code r \<in> fst ` set by_code) rates
          in if applied = [] then Some ([], price) else Some (applied, price + sum_list (map snd by_code)))"

definition tax_options :: "doc_rate list \<Rightarrow> (string \<times> string list) list" where
  "tax_options rates =
    [(''federal_only'', map rate_code (filter (\<lambda>r. rate_code r \<in> set federal_tax_codes) rates)), (''standard'', map rate_code rates), (''exempt'', [])]"

text \<open>The minutes before, of and after a visit as the bar draws them, and their total.\<close>

definition item_timing :: "catalog_env \<Rightarrow> item_values \<Rightarrow> (int \<times> int \<times> int) \<times> int" where
  "item_timing env v =
    (let before = minutes_of env (iv_before v); main = minutes_of env (iv_duration v); after = minutes_of env (iv_after v)
     in ((before, max main 1, after), before + main + after))"

definition half_to_even :: "rat \<Rightarrow> int" where
  "half_to_even x = (if x - of_int \<lfloor>x\<rfloor> \<noteq> 1 / 2 then js_round x else if \<lfloor>x\<rfloor> mod 2 = 0 then \<lfloor>x\<rfloor> else \<lfloor>x\<rfloor> + 1)"

definition deposit_cents :: "int \<Rightarrow> string \<Rightarrow> rat option \<Rightarrow> int" where
  "deposit_cents price typ val =
    (case val of None \<Rightarrow> 0
     | Some x \<Rightarrow> if typ = ''none'' then 0
        else let raw = (if typ = ''fixed'' then (if x < 0 then \<lceil>x\<rceil> else \<lfloor>x\<rfloor>) else half_to_even (of_int price * x / 100)) in max 0 (min raw price))"

text \<open>The deposit and what is left to pay, or \<open>None\<close> where none is taken.\<close>

definition deposit_summary :: "catalog_env \<Rightarrow> item_values \<Rightarrow> (int \<times> int) option" where
  "deposit_summary env v =
    (let price = (case parse_cents (ce_locale env) (iv_price v) of Some c \<Rightarrow> c | None \<Rightarrow> 0)
     in if iv_deposit v = ''none'' then None
        else let deposit = deposit_cents price (iv_deposit v)
               (Some (if iv_deposit v = ''percent'' then (case parse_number (ce_locale env) (iv_deposit_value v) of Some n \<Rightarrow> n | None \<Rightarrow> 0)
                      else of_int (case parse_cents (ce_locale env) (iv_deposit_value v) of Some c \<Rightarrow> c | None \<Rightarrow> 0)))
             in Some (deposit, price - deposit))"

definition low_margin_percent :: int where "low_margin_percent = 30"

definition margin_facts :: "catalog_env \<Rightarrow> string \<Rightarrow> string \<Rightarrow> (int \<times> int \<times> bool) option" where
  "margin_facts env price cost =
    (case (parse_cents (ce_locale env) price, parse_cents (ce_locale env) cost) of
       (Some p, Some c) \<Rightarrow> if p = 0 then None else Some (p - c, margin_percent p c, margin_percent p c < low_margin_percent)
     | _ \<Rightarrow> None)"

text \<open>Choosing from a list whose empty choice means all of it.\<close>

definition pick_listed :: "string \<Rightarrow> string list \<Rightarrow> string list" where
  "pick_listed key listed =
    (if key = ''all'' then [] else if key \<in> set listed then filter (\<lambda>x. x \<noteq> key) listed else listed @ [key])"

definition parent_options :: "catalog_item option \<Rightarrow> catalog_item list \<Rightarrow> catalog_item list" where
  "parent_options item products =
    filter (\<lambda>p. ct_kind p = ''product'' \<and> ct_active p = 1 \<and> (ct_parent p = None \<or> ct_parent p = Some []) \<and> map_option ct_id item \<noteq> Some (ct_id p)) products"

definition gift_choices :: "int list \<Rightarrow> int list" where
  "gift_choices amounts = sort (js_unique ([2500, 5000, 7500, 10000, 15000, 20000] @ amounts))"

definition toggle_gift :: "int \<Rightarrow> int list \<Rightarrow> int list" where
  "toggle_gift cents amounts = (if cents \<in> set amounts then filter (\<lambda>c. c \<noteq> cents) amounts else sort (amounts @ [cents]))"

definition per_year :: "string \<Rightarrow> int" where
  "per_year f = (if f = ''day'' then 365 else if f = ''week'' then 52 else if f = ''year'' then 1 else 12)"

datatype plan_facts =
    Package_Incomplete
  | Package_Facts int (per_visit: "int option") (saving: "int option") \<comment> \<open>visits, cents of a visit unless free, cents saved\<close>
  | Membership_Facts int (yearly: "int option") bool
  | Gift_Facts

definition plan_facts_of :: "catalog_env \<Rightarrow> item_values \<Rightarrow> catalog_item option \<Rightarrow> bool \<Rightarrow> plan_facts" where
  "plan_facts_of env v covers editing =
    (let price = (case parse_cents (ce_locale env) (iv_price v) of Some c \<Rightarrow> c | None \<Rightarrow> 0)
     in if iv_kind v = ''package''
        then (let visits = minutes_of env (iv_sessions v)
              in case covers of
                   None \<Rightarrow> Package_Incomplete
                 | Some c \<Rightarrow> if visits = 0 then Package_Incomplete
                     else Package_Facts visits (if price = 0 then None else Some (js_round (of_int price / of_int visits)))
                       (case ct_price c of None \<Rightarrow> None | Some p \<Rightarrow> Some (max 0 (p * visits - price))))
        else if iv_kind v = ''subscription''
        then Membership_Facts price
               (if price = 0 then None
                else Some (js_round (of_int (price * per_year (iv_frequency v)) / of_int (max 1 (int_or env 1 (iv_interval v)))))) editing
        else Gift_Facts)"

definition cover_options :: "catalog_item list \<Rightarrow> catalog_item list" where
  "cover_options = bookable_items"

definition choose_cover :: "string \<Rightarrow> item_values \<Rightarrow> item_values" where
  "choose_cover key v = v\<lparr>iv_covers := (if key = ''any'' then [] else key)\<rparr>"

definition kind_options :: "string list \<Rightarrow> string list" where
  "kind_options kinds = filter (\<lambda>k. k \<in> set kinds) kind_order"

text \<open>The deposit shown is never more than the price, and rounds to the nearest cent, a half to the even one.\<close>

lemma deposit_cents_bounds: "0 \<le> price \<Longrightarrow> 0 \<le> deposit_cents price typ val \<and> deposit_cents price typ val \<le> price"
  by (auto simp: deposit_cents_def Let_def split: option.splits)

lemma half_to_even_nearest:
  "\<bar>of_int (half_to_even x) - x\<bar> \<le> 1 / 2 \<and> (\<bar>of_int (half_to_even x) - x\<bar> = 1 / 2 \<longrightarrow> half_to_even x mod 2 = 0)"
proof (cases "x - of_int \<lfloor>x\<rfloor> = 1 / 2")
  case True
  then have x: "x = of_int \<lfloor>x\<rfloor> + 1 / 2" by simp
  show ?thesis
    using x by (cases "\<lfloor>x\<rfloor> mod 2 = 0") (simp_all add: half_to_even_def True, presburger+)
next
  case False
  define f where "f = \<lfloor>x\<rfloor>"
  have f: "of_int f \<le> x" "x < of_int f + 1" using floor_correct [of x] by (simp_all add: f_def)
  have h: "half_to_even x = \<lfloor>x + 1 / 2\<rfloor>" using False by (simp add: half_to_even_def js_round_def)
  show ?thesis
  proof (cases "x < of_int f + 1 / 2")
    case True
    then have "\<lfloor>x + 1 / 2\<rfloor> = f" using f(1) by (intro floor_unique) auto
    then show ?thesis using True f by (simp add: h abs_if)
  next
    case far: False
    then have "\<lfloor>x + 1 / 2\<rfloor> = f + 1" using f(2) by (intro floor_unique) auto
    moreover have "x \<noteq> of_int f + 1 / 2" using False by (simp add: f_def)
    ultimately show ?thesis using far f by (simp add: h abs_if)
  qed
qed

end
