(* ===== verification/Item_Form.thy ===== *)
theory Item_Form
  imports Item_Editor
begin

text \<open>
  Saving an item (\<open>useItemForm\<close>, \<open>app-core/src/domain/catalog.ts\<close>). A new item takes up to three requests: its creation, its
  fields once more when earlier answers were lost, and its opening stock as a restock. The form remembers what was
  acknowledged and what is uncertain, so that trying again finishes the job instead of doing it twice. The one
  running action is cut at its awaits; the server is the record of what the form's requests did there.
\<close>

section \<open>The form\<close>

type_synonym body = "(string \<times> json) list"

record stock_command =
  sk_quantity :: int
  sk_key :: string

record created_item =
  cr_id :: string
  cr_opening :: int
  cr_pending :: "stock_command option"

text \<open>What the running action waits for, with the values of the submission and whether it is a retry.\<close>

datatype item_await =
    Await_Edit
  | Await_Create item_values bool
  | Await_Stock item_values bool
  | Await_Fields item_values
  | Await_Opening item_values

datatype item_request =
    Create_Item body string
  | Patch_Item string body
  | Restock_Item string int string

record item_form =
  if_values :: item_values
  if_action :: async_action
  if_create :: "(body \<times> string) option"
  if_created :: "created_item option"
  if_await :: "item_await option"

definition open_form :: "catalog_env \<Rightarrow> catalog_item option \<Rightarrow> string \<Rightarrow> item_form" where
  "open_form env item kind = \<lparr>if_values = initial_values env item kind, if_action = idle_action, if_create = None, if_created = None, if_await = None\<rparr>"

definition set_values :: "(item_values \<Rightarrow> item_values) \<Rightarrow> item_form \<Rightarrow> item_form" where
  "set_values f s = s\<lparr>if_values := f (if_values s), if_action := action_set_error None (if_action s)\<rparr>"

text \<open>What a handler leads to: a request, the end of a successful save, or nothing that goes out.\<close>

datatype item_outcome = Sends item_request | Saved | Quiet

definition ended :: "string option \<Rightarrow> item_form \<Rightarrow> item_form" where
  "ended failure s = s\<lparr>if_action := action_end failure (if_action s), if_await := None\<rparr>"

definition refused_create :: "json \<Rightarrow> bool" where
  "refused_create e \<longleftrightarrow>
    (failed_status e = Some 422 \<and> failed_code e \<in> {Some ''invalid_request'', Some ''unprocessable''})
    \<or> (failed_status e = Some 409 \<and> failed_code e = Some ''conflict'') \<or> (failed_status e = Some 404 \<and> failed_code e = Some ''not_found'')"

text \<open>The last part of a save: the difference to the typed opening stock.\<close>

definition adjust_stock :: "catalog_env \<Rightarrow> string \<Rightarrow> item_values \<Rightarrow> created_item \<Rightarrow> item_form \<Rightarrow> item_form \<times> item_outcome" where
  "adjust_stock env fresh v c s =
    (let delta = int_or env 0 (iv_opening v) - cr_opening c
     in if iv_track v \<and> delta \<noteq> 0
        then (s\<lparr>if_created := Some (c\<lparr>cr_pending := Some \<lparr>sk_quantity = delta, sk_key = fresh\<rparr>\<rparr>), if_await := Some (Await_Opening v)\<rparr>,
              Sends (Restock_Item (cr_id c) delta fresh))
        else (ended None s, Saved))"

definition after_stock :: "catalog_env \<Rightarrow> string \<Rightarrow> item_values \<Rightarrow> bool \<Rightarrow> created_item \<Rightarrow> item_form \<Rightarrow> item_form \<times> item_outcome" where
  "after_stock env fresh v retrying c s =
    (if retrying then (s\<lparr>if_await := Some (Await_Fields v)\<rparr>, Sends (Patch_Item (cr_id c) (item_payload env v False)))
     else adjust_stock env fresh v c s)"

definition after_created :: "catalog_env \<Rightarrow> string \<Rightarrow> item_values \<Rightarrow> bool \<Rightarrow> created_item \<Rightarrow> item_form \<Rightarrow> item_form \<times> item_outcome" where
  "after_created env fresh v retrying c s =
    (case cr_pending c of
       Some p \<Rightarrow> (s\<lparr>if_await := Some (Await_Stock v retrying)\<rparr>, Sends (Restock_Item (cr_id c) (sk_quantity p) (sk_key p)))
     | None \<Rightarrow> after_stock env fresh v retrying c s)"

definition item_submit :: "catalog_env \<Rightarrow> (string \<Rightarrow> string) \<Rightarrow> string option \<Rightarrow> string \<Rightarrow> item_form \<Rightarrow> item_form \<times> item_outcome" where
  "item_submit env caption item fresh s =
    (let v = if_values s
     in case item_form_error env v of
          Some problem \<Rightarrow> (s\<lparr>if_action := action_set_error (Some (caption problem)) (if_action s)\<rparr>, Quiet)
        | None \<Rightarrow>
            (case action_start (if_action s) of
               None \<Rightarrow> (s, Quiet)
             | Some a \<Rightarrow>
                 (let s1 = s\<lparr>if_action := a\<rparr>; retrying = (if_created s \<noteq> None \<or> if_create s \<noteq> None)
                  in case item of
                       Some i \<Rightarrow> (s1\<lparr>if_await := Some Await_Edit\<rparr>, Sends (Patch_Item i (item_payload env v False)))
                     | None \<Rightarrow>
                         (case if_created s of
                            Some c \<Rightarrow> after_created env fresh v retrying c s1
                          | None \<Rightarrow>
                              (let (body, key) = (case if_create s of Some p \<Rightarrow> p | None \<Rightarrow> (item_payload env v True, fresh))
                               in (s1\<lparr>if_create := Some (body, key), if_await := Some (Await_Create v retrying)\<rparr>, Sends (Create_Item body key)))))))"

text \<open>An answer to what the action waits for: a failure, or success with the id of the item.\<close>

definition stock_done :: "created_item \<Rightarrow> created_item" where
  "stock_done c = c\<lparr>cr_opening := cr_opening c + (case cr_pending c of Some p \<Rightarrow> sk_quantity p | None \<Rightarrow> 0), cr_pending := None\<rparr>"

definition item_answered :: "catalog_env \<Rightarrow> (json \<Rightarrow> string) \<Rightarrow> string \<Rightarrow> json + string \<Rightarrow> item_form \<Rightarrow> item_form \<times> item_outcome" where
  "item_answered env word fresh answer s =
    (case answer of
       Inl e \<Rightarrow>
         (let s1 = (case if_await s of Some (Await_Create v r) \<Rightarrow> if refused_create e then s\<lparr>if_create := None\<rparr> else s | _ \<Rightarrow> s)
          in (ended (Some (word e)) s1, Quiet))
     | Inr i \<Rightarrow>
         (case (if_await s, if_created s) of
            (Some Await_Edit, _) \<Rightarrow> (ended None s, Saved)
          | (Some (Await_Create v r), _) \<Rightarrow>
              (let c = \<lparr>cr_id = i, cr_opening = 0, cr_pending = None\<rparr>
               in after_created env fresh v r c (s\<lparr>if_created := Some c, if_create := None\<rparr>))
          | (Some (Await_Stock v r), Some c) \<Rightarrow> after_stock env fresh v r (stock_done c) (s\<lparr>if_created := Some (stock_done c)\<rparr>)
          | (Some (Await_Fields v), Some c) \<Rightarrow> adjust_stock env fresh v c s
          | (Some (Await_Opening v), Some c) \<Rightarrow> (ended None (s\<lparr>if_created := Some (stock_done c)\<rparr>), Saved)
          | _ \<Rightarrow> (s, Quiet)))"

text \<open>\<open>archive\<close> and \<open>restore\<close>, of an item that exists.\<close>

definition toggle_active :: "string option \<Rightarrow> bool \<Rightarrow> item_form \<Rightarrow> item_form \<times> item_outcome" where
  "toggle_active item active s =
    (case item of None \<Rightarrow> (s, Quiet)
     | Some i \<Rightarrow> (case action_start (if_action s) of None \<Rightarrow> (s, Quiet)
         | Some a \<Rightarrow> (s\<lparr>if_action := a, if_await := Some Await_Edit\<rparr>, Sends (Patch_Item i [(''active'', J_Bool active)]))))"

section \<open>A form and its server\<close>

text \<open>What the form's requests did at the server: the items made, and the stock moved, each under the key of its command,
  which the server carries out once. A request may be carried out late, and more than once, while its answer is
  lost. A definite refusal of a creation says that its key makes no item.\<close>

record item_world =
  iw_form :: item_form
  iw_items :: "(string \<times> string) list"
  iw_moves :: "(string \<times> string \<times> int) list"
  iw_flight :: "item_request list"
  iw_current :: "item_request option"
  iw_keys :: "string list"
  iw_saved :: "item_values option"

fun serve :: "string \<Rightarrow> item_request \<Rightarrow> item_world \<Rightarrow> item_world" where
  "serve new (Create_Item b k) w = (if k \<in> fst ` set (iw_items w) then w else w\<lparr>iw_items := (k, new) # iw_items w\<rparr>)"
| "serve new (Restock_Item i q k) w = (if k \<in> fst ` set (iw_moves w) then w else w\<lparr>iw_moves := (k, i, q) # iw_moves w\<rparr>)"
| "serve new (Patch_Item i b) w = w"

text \<open>The answer to a request that was carried out.\<close>

fun served_id :: "item_request \<Rightarrow> item_world \<Rightarrow> string option" where
  "served_id (Create_Item b k) w = map_of (iw_items w) k"
| "served_id (Restock_Item i q k) w = (if k \<in> fst ` set (iw_moves w) then Some i else None)"
| "served_id (Patch_Item i b) w = Some i"

definition route :: "item_values \<Rightarrow> string \<Rightarrow> item_form \<times> item_outcome \<Rightarrow> item_world \<Rightarrow> item_world" where
  "route v fresh r w =
    (let w1 = w\<lparr>iw_form := fst r, iw_keys := fresh # iw_keys w\<rparr>
     in case snd r of
          Sends q \<Rightarrow> w1\<lparr>iw_flight := q # iw_flight w, iw_current := Some q\<rparr>
        | Saved \<Rightarrow> w1\<lparr>iw_current := None, iw_saved := Some v\<rparr>
        | Quiet \<Rightarrow> w1)"

fun await_values :: "item_await \<Rightarrow> item_values option" where
  "await_values Await_Edit = None"
| "await_values (Await_Create v r) = Some v"
| "await_values (Await_Stock v r) = Some v"
| "await_values (Await_Fields v) = Some v"
| "await_values (Await_Opening v) = Some v"

inductive item_step :: "catalog_env \<Rightarrow> item_world \<Rightarrow> item_world \<Rightarrow> bool" for env where
  typed: "iw_saved w = None \<Longrightarrow> item_step env w (w\<lparr>iw_form := set_values f (iw_form w)\<rparr>)"
| submitted: "iw_saved w = None \<Longrightarrow> fresh \<notin> set (iw_keys w) \<Longrightarrow>
    item_step env w (route (if_values (iw_form w)) fresh (item_submit env caption None fresh (iw_form w)) w)"
| carried_out: "r \<in> set (iw_flight w) \<Longrightarrow> item_step env w (serve new r w)"
| answered: "iw_current w = Some r \<Longrightarrow> served_id r w = Some i \<Longrightarrow> fresh \<notin> set (iw_keys w) \<Longrightarrow>
    Option.bind (if_await (iw_form w)) await_values = Some v \<Longrightarrow>
    item_step env w (route v fresh (item_answered env word fresh (Inr i) (iw_form w)) w)"
| failed: "iw_current w = Some r \<Longrightarrow> \<not> (refused_create e \<and> (\<exists>b k. r = Create_Item b k)) \<Longrightarrow>
    item_step env w (w\<lparr>iw_form := fst (item_answered env word fresh (Inl e) (iw_form w)), iw_current := None\<rparr>)"
| refused: "iw_current w = Some (Create_Item b k) \<Longrightarrow> refused_create e \<Longrightarrow> k \<notin> fst ` set (iw_items w) \<Longrightarrow>
    item_step env w (w\<lparr>iw_form := fst (item_answered env word fresh (Inl e) (iw_form w)), iw_current := None,
      iw_flight := filter (\<lambda>r. r \<noteq> Create_Item b k) (iw_flight w)\<rparr>)"

definition item_opened :: "catalog_env \<Rightarrow> item_world \<Rightarrow> bool" where
  "item_opened env w \<longleftrightarrow> (\<exists>kind. w = \<lparr>iw_form = open_form env None kind, iw_items = [], iw_moves = [], iw_flight = [], iw_current = None,
     iw_keys = [], iw_saved = None\<rparr>)"

section \<open>One item, with the stock that was typed\<close>

definition moved_stock :: "item_world \<Rightarrow> int" where
  "moved_stock w = sum_list (map (snd \<circ> snd) (iw_moves w))"

definition applied_pending :: "item_world \<Rightarrow> created_item \<Rightarrow> int" where
  "applied_pending w c =
    (case cr_pending c of Some p \<Rightarrow> if sk_key p \<in> fst ` set (iw_moves w) then sk_quantity p else 0 | None \<Rightarrow> 0)"

text \<open>Before the creation is acknowledged: at most one item, of the remembered creation, and no stock moved.\<close>

definition uncreated_ok :: "item_world \<Rightarrow> (body \<times> string) option \<Rightarrow> bool" where
  "uncreated_ok w create \<longleftrightarrow> iw_moves w = [] \<and> length (iw_items w) \<le> 1
    \<and> (\<forall>r\<in>set (iw_flight w). \<exists>b k. create = Some (b, k) \<and> r = Create_Item b k)
    \<and> (\<forall>x\<in>set (iw_items w). \<exists>b. create = Some (b, fst x))"

text \<open>Afterwards: that item alone, and stock moved by what was acknowledged and, if it was carried out, the uncertain command.\<close>

definition flight_ok :: "item_world \<Rightarrow> created_item \<Rightarrow> bool" where
  "flight_ok w c \<longleftrightarrow> (\<forall>i q k. Restock_Item i q k \<in> set (iw_flight w) \<longrightarrow>
     i = cr_id c \<and> (k \<in> fst ` set (iw_moves w) \<or> cr_pending c = Some \<lparr>sk_quantity = q, sk_key = k\<rparr>))"

definition created_ok :: "item_world \<Rightarrow> created_item \<Rightarrow> bool" where
  "created_ok w c \<longleftrightarrow>
    (\<exists>k. iw_items w = [(k, cr_id c)] \<and> (\<forall>b k'. Create_Item b k' \<in> set (iw_flight w) \<longrightarrow> k' = k))
    \<and> (\<forall>m\<in>set (iw_moves w). fst (snd m) = cr_id c \<and> fst m \<in> set (iw_keys w))
    \<and> flight_ok w c
    \<and> (\<forall>p. cr_pending c = Some p \<longrightarrow> sk_key p \<in> set (iw_keys w))
    \<and> moved_stock w = cr_opening c + applied_pending w c"

definition target_stock :: "catalog_env \<Rightarrow> item_values \<Rightarrow> int" where
  "target_stock env v = int_or env 0 (iv_opening v)"

definition restocks :: "item_world \<Rightarrow> created_item \<Rightarrow> bool" where
  "restocks w c \<longleftrightarrow> (\<exists>p. cr_pending c = Some p \<and> iw_current w = Some (Restock_Item (cr_id c) (sk_quantity p) (sk_key p)))"

definition await_ok :: "catalog_env \<Rightarrow> item_world \<Rightarrow> item_form \<Rightarrow> bool" where
  "await_ok env w s \<longleftrightarrow> aa_running (if_action s) = (if_await s \<noteq> None) \<and>
    (case if_await s of
       None \<Rightarrow> iw_current w = None
     | Some Await_Edit \<Rightarrow> False
     | Some (Await_Create v r) \<Rightarrow> if_created s = None \<and> (\<exists>b k. if_create s = Some (b, k) \<and> iw_current w = Some (Create_Item b k))
     | Some (Await_Stock v r) \<Rightarrow> (\<exists>c. if_created s = Some c \<and> restocks w c)
     | Some (Await_Fields v) \<Rightarrow> (\<exists>c. if_created s = Some c \<and> cr_pending c = None \<and> (\<exists>b. iw_current w = Some (Patch_Item (cr_id c) b)))
     | Some (Await_Opening v) \<Rightarrow> (\<exists>c p. if_created s = Some c \<and> restocks w c \<and> cr_pending c = Some p \<and> cr_opening c + sk_quantity p = target_stock env v))"

definition saved_ok :: "catalog_env \<Rightarrow> item_world \<Rightarrow> item_form \<Rightarrow> bool" where
  "saved_ok env w s \<longleftrightarrow>
    (\<forall>v. iw_saved w = Some v \<longrightarrow> if_await s = None \<and> (\<exists>c. if_created s = Some c \<and> cr_pending c = None \<and> (iv_track v \<longrightarrow> cr_opening c = target_stock env v)))"

definition made_ok :: "item_world \<Rightarrow> item_form \<Rightarrow> bool" where
  "made_ok w s \<longleftrightarrow> (case if_created s of None \<Rightarrow> uncreated_ok w (if_create s) | Some c \<Rightarrow> created_ok w c)"

definition item_inv :: "catalog_env \<Rightarrow> item_world \<Rightarrow> bool" where
  "item_inv env w \<longleftrightarrow> made_ok w (iw_form w) \<and> await_ok env w (iw_form w) \<and> saved_ok env w (iw_form w)"

lemma action_simps [simp]:
  "aa_running (action_set_error m a) = aa_running a" "\<not> aa_running (action_end f a)"
  "action_start a = Some b \<Longrightarrow> aa_running b \<and> \<not> aa_running a"
  by (auto simp: action_set_error_def action_end_def action_start_def split: if_splits)

lemma created_ok_send:
  assumes "created_ok w c" "\<forall>b k. r \<noteq> Create_Item b k"
    and "\<forall>i q k. r = Restock_Item i q k \<longrightarrow> i = cr_id c \<and> cr_pending c = Some \<lparr>sk_quantity = q, sk_key = k\<rparr>"
    and "set (iw_keys w) \<subseteq> set (iw_keys w')" "iw_items w' = iw_items w" "iw_moves w' = iw_moves w" "iw_flight w' = r # iw_flight w"
  shows "created_ok w' c"
proof -
  have "flight_ok w' c" using assms(1,3,6,7) unfolding created_ok_def flight_ok_def by (metis set_ConsD)
  moreover have "\<And>b k'. Create_Item b k' \<in> set (iw_flight w') \<Longrightarrow> Create_Item b k' \<in> set (iw_flight w)" using assms(2,7) by auto
  moreover have "moved_stock w' = moved_stock w" "applied_pending w' c = applied_pending w c"
    unfolding moved_stock_def applied_pending_def assms(6) by (rule refl)+
  ultimately show ?thesis using assms(1,4) unfolding created_ok_def assms(5,6) by (auto; blast)
qed

lemma created_ok_same:
  assumes "created_ok w c" "set (iw_keys w) \<subseteq> set (iw_keys w')" "iw_items w' = iw_items w" "iw_moves w' = iw_moves w" "set (iw_flight w') \<subseteq> set (iw_flight w)"
  shows "created_ok w' c"
proof -
  have "flight_ok w' c" using assms(1,4,5) unfolding created_ok_def flight_ok_def by (metis subsetD)
  moreover have "moved_stock w' = moved_stock w" "applied_pending w' c = applied_pending w c"
    unfolding moved_stock_def applied_pending_def assms(4) by (rule refl)+
  ultimately show ?thesis using assms(1,2,5) unfolding created_ok_def assms(3,4) by (auto; blast)
qed

text \<open>A new stock command, under a key not used before.\<close>

lemma created_ok_command:
  assumes "created_ok w c" "cr_pending c = None" "fresh \<notin> set (iw_keys w)"
  shows "created_ok (w\<lparr>iw_keys := fresh # iw_keys w\<rparr>) (c\<lparr>cr_pending := Some \<lparr>sk_quantity = q, sk_key = fresh\<rparr>\<rparr>)"
proof -
  have "fresh \<notin> fst ` set (iw_moves w)" using assms(1,3) by (auto simp: created_ok_def)
  with assms show ?thesis by (auto simp: created_ok_def moved_stock_def applied_pending_def flight_ok_def)
qed

lemma stock_done_ok:
  assumes "created_ok w c" "cr_pending c = Some p" "sk_key p \<in> fst ` set (iw_moves w)"
  shows "created_ok w (stock_done c)" "cr_pending (stock_done c) = None" "cr_opening (stock_done c) = cr_opening c + sk_quantity p" "cr_id (stock_done c) = cr_id c"
proof -
  show rest: "cr_pending (stock_done c) = None" "cr_opening (stock_done c) = cr_opening c + sk_quantity p" "cr_id (stock_done c) = cr_id c"
    using assms(2) by (simp_all add: stock_done_def)
  have "flight_ok w (stock_done c)"
    using assms unfolding created_ok_def flight_ok_def rest(3) by (metis option.inject stock_command.select_convs(2))
  moreover have "moved_stock w = cr_opening (stock_done c) + applied_pending w (stock_done c)"
    using assms rest by (simp add: created_ok_def applied_pending_def)
  ultimately show "created_ok w (stock_done c)" using assms(1) rest unfolding created_ok_def by simp
qed

section \<open>The handlers keep it\<close>

lemma adjust_stock_inv:
  assumes "created_ok w c" "cr_pending c = None" "fresh \<notin> set (iw_keys w)" "if_created s = Some c" "aa_running (if_action s)" "iw_saved w = None"
  shows "item_inv env (route v fresh (adjust_stock env fresh v c s) w)"
proof (cases "iv_track v \<and> int_or env 0 (iv_opening v) - cr_opening c \<noteq> 0")
  case True
  let ?q = "int_or env 0 (iv_opening v) - cr_opening c"
  let ?c = "c\<lparr>cr_pending := Some \<lparr>sk_quantity = ?q, sk_key = fresh\<rparr>\<rparr>"
  have r: "route v fresh (adjust_stock env fresh v c s) w =
    w\<lparr>iw_form := s\<lparr>if_created := Some ?c, if_await := Some (Await_Opening v)\<rparr>, iw_keys := fresh # iw_keys w,
      iw_flight := Restock_Item (cr_id c) ?q fresh # iw_flight w, iw_current := Some (Restock_Item (cr_id c) ?q fresh)\<rparr>"
    using True by (simp add: route_def adjust_stock_def Let_def)
  have "created_ok (w\<lparr>iw_keys := fresh # iw_keys w\<rparr>) ?c" by (rule created_ok_command [OF assms(1-3)])
  then have "created_ok (route v fresh (adjust_stock env fresh v c s) w) ?c"
    by (rule created_ok_send [where r = "Restock_Item (cr_id c) ?q fresh"]) (simp_all add: r)
  then show ?thesis using assms(5,6)
    by (simp add: item_inv_def made_ok_def await_ok_def saved_ok_def r restocks_def target_stock_def)
next
  case False
  have r: "route v fresh (adjust_stock env fresh v c s) w =
    w\<lparr>iw_form := ended None s, iw_keys := fresh # iw_keys w, iw_current := None, iw_saved := Some v\<rparr>"
    using False by (auto simp: route_def adjust_stock_def Let_def)
  have "created_ok (route v fresh (adjust_stock env fresh v c s) w) c"
    by (rule created_ok_same [OF assms(1)]) (auto simp: r)
  then show ?thesis using assms(2,4) False
    by (auto simp: item_inv_def made_ok_def await_ok_def saved_ok_def r ended_def target_stock_def)
qed

lemma after_stock_inv:
  assumes "created_ok w c" "cr_pending c = None" "fresh \<notin> set (iw_keys w)" "if_created s = Some c" "aa_running (if_action s)" "iw_saved w = None"
  shows "item_inv env (route v fresh (after_stock env fresh v r c s) w)"
proof (cases r)
  case True
  let ?w = "route v fresh (after_stock env fresh v r c s) w"
  have w: "?w = w\<lparr>iw_form := s\<lparr>if_await := Some (Await_Fields v)\<rparr>, iw_keys := fresh # iw_keys w,
      iw_flight := Patch_Item (cr_id c) (item_payload env v False) # iw_flight w, iw_current := Some (Patch_Item (cr_id c) (item_payload env v False))\<rparr>"
    using True by (simp add: route_def after_stock_def Let_def)
  have "created_ok ?w c"
    by (rule created_ok_send [OF assms(1), where r = "Patch_Item (cr_id c) (item_payload env v False)"]) (auto simp: w)
  then show ?thesis using assms(2,4-6) by (simp add: item_inv_def made_ok_def await_ok_def saved_ok_def w)
next
  case False
  then show ?thesis using adjust_stock_inv [OF assms] by (simp add: after_stock_def)
qed

lemma after_created_inv:
  assumes "created_ok w c" "fresh \<notin> set (iw_keys w)" "if_created s = Some c" "aa_running (if_action s)" "iw_saved w = None"
  shows "item_inv env (route v fresh (after_created env fresh v r c s) w)"
proof (cases "cr_pending c")
  case None
  then show ?thesis using after_stock_inv [OF assms(1) None assms(2-5)] by (simp add: after_created_def)
next
  case (Some p)
  let ?w = "route v fresh (after_created env fresh v r c s) w" and ?r = "Restock_Item (cr_id c) (sk_quantity p) (sk_key p)"
  have w: "?w = w\<lparr>iw_form := s\<lparr>if_await := Some (Await_Stock v r)\<rparr>, iw_keys := fresh # iw_keys w, iw_flight := ?r # iw_flight w, iw_current := Some ?r\<rparr>"
    using Some by (simp add: route_def after_created_def Let_def)
  have "created_ok ?w c"
    by (rule created_ok_send [OF assms(1), where r = ?r]) (auto simp: w Some)
  then show ?thesis using assms(3-5) Some by (simp add: item_inv_def made_ok_def await_ok_def saved_ok_def w restocks_def)
qed

lemma uncreated_ok_same:
  "uncreated_ok w create \<Longrightarrow> iw_items w' = iw_items w \<Longrightarrow> iw_moves w' = iw_moves w \<Longrightarrow> set (iw_flight w') \<subseteq> set (iw_flight w) \<Longrightarrow> uncreated_ok w' create"
  unfolding uncreated_ok_def by (metis subsetD)

text \<open>What is neither typed nor sent changes nothing of it.\<close>

lemma item_inv_same:
  assumes "item_inv env w" "aa_running (if_action (iw_form w')) = aa_running (if_action (iw_form w))" "if_await (iw_form w') = if_await (iw_form w)"
    and "if_created (iw_form w') = if_created (iw_form w)" "if_create (iw_form w') = if_create (iw_form w)"
    and "iw_current w' = iw_current w" "iw_saved w' = iw_saved w" "iw_items w' = iw_items w" "iw_moves w' = iw_moves w" "iw_flight w' = iw_flight w"
    and "set (iw_keys w) \<subseteq> set (iw_keys w')"
  shows "item_inv env w'"
proof -
  have "made_ok w' (iw_form w')"
    using assms(1,4,5,8-11) by (auto simp: item_inv_def made_ok_def intro: created_ok_same uncreated_ok_same split: option.splits)
  moreover have "await_ok env w' (iw_form w')" "saved_ok env w' (iw_form w')"
    using assms(1) unfolding item_inv_def await_ok_def saved_ok_def restocks_def assms(2-7) by blast+
  ultimately show ?thesis by (simp add: item_inv_def)
qed

lemma item_submit_inv:
  assumes "item_inv env w" "iw_saved w = None" "fresh \<notin> set (iw_keys w)"
  shows "item_inv env (route (if_values (iw_form w)) fresh (item_submit env caption None fresh (iw_form w)) w)"
proof -
  let ?s = "iw_form w" and ?v = "if_values (iw_form w)"
  have inv: "made_ok w ?s" "await_ok env w ?s" using assms(1) by (simp_all add: item_inv_def)
  show ?thesis
  proof (cases "item_form_error env ?v")
    case (Some p)
    show ?thesis
      by (rule item_inv_same [OF assms(1)]) (use Some in \<open>auto simp: item_submit_def route_def Let_def\<close>)
  next
    case ok: None
    show ?thesis
    proof (cases "action_start (if_action ?s)")
      case None
      show ?thesis
        by (rule item_inv_same [OF assms(1)]) (use None ok in \<open>auto simp: item_submit_def route_def Let_def\<close>)
    next
      case (Some a)
      then have idle: "if_await ?s = None" "iw_current w = None" "aa_running a" using inv(2) by (auto simp: await_ok_def)
      show ?thesis
      proof (cases "if_created ?s")
        case created: (Some c)
        let ?s1 = "?s\<lparr>if_action := a\<rparr>"
        have "item_submit env caption None fresh ?s = after_created env fresh ?v True c ?s1"
          using ok Some created by (simp add: item_submit_def Let_def)
        moreover have "created_ok w c" using inv(1) created by (simp add: made_ok_def)
        ultimately show ?thesis using after_created_inv [of w c fresh ?s1] assms(2,3) created idle by simp
      next
        case None
        define p where "p = (case if_create ?s of Some p \<Rightarrow> p | None \<Rightarrow> (item_payload env ?v True, fresh))"
        have sub: "item_submit env caption None fresh ?s =
          (?s\<lparr>if_action := a, if_create := Some p, if_await := Some (Await_Create ?v (if_create ?s \<noteq> None))\<rparr>, Sends (Create_Item (fst p) (snd p)))"
          using ok Some None by (simp add: item_submit_def Let_def p_def split: prod.splits)
        have old: "uncreated_ok w (if_create ?s)" using inv(1) None by (simp add: made_ok_def)
        have "uncreated_ok (route ?v fresh (item_submit env caption None fresh ?s) w) (Some p)"
          using old by (cases "if_create ?s") (auto simp: uncreated_ok_def route_def sub p_def)
        then show ?thesis using None idle assms(2)
          by (simp add: item_inv_def made_ok_def await_ok_def saved_ok_def route_def sub)
      qed
    qed
  qed
qed

lemma item_answered_inv:
  assumes "item_inv env w" "iw_current w = Some r" "served_id r w = Some i" "fresh \<notin> set (iw_keys w)"
    and "Option.bind (if_await (iw_form w)) await_values = Some v"
  shows "item_inv env (route v fresh (item_answered env word fresh (Inr i) (iw_form w)) w)"
proof -
  let ?s = "iw_form w"
  have inv: "made_ok w ?s" "await_ok env w ?s" using assms(1) by (simp_all add: item_inv_def)
  obtain a where a: "if_await ?s = Some a" "await_values a = Some v" using assms(5) by (cases "if_await ?s") auto
  have running: "aa_running (if_action ?s)" using inv(2) a(1) by (simp add: await_ok_def)
  have unsaved: "iw_saved w = None" using assms(1) a(1) by (cases "iw_saved w") (auto simp: item_inv_def saved_ok_def)
  have pending: "created_ok w (stock_done c)" "cr_pending (stock_done c) = None"
    if "if_created ?s = Some c" "restocks w c" for c
  proof -
    note waits = that
    obtain p where p: "cr_pending c = Some p" "iw_current w = Some (Restock_Item (cr_id c) (sk_quantity p) (sk_key p))"
      using waits(2) by (auto simp: restocks_def)
    have "sk_key p \<in> fst ` set (iw_moves w)" using assms(2,3) p(2) by (auto split: if_splits)
    moreover have "created_ok w c" using inv(1) waits(1) by (simp add: made_ok_def)
    ultimately show "created_ok w (stock_done c)" "cr_pending (stock_done c) = None" using stock_done_ok [OF _ p(1)] by simp_all
  qed
  show ?thesis
  proof (cases a)
    case Await_Edit
    with a(2) show ?thesis by simp
  next
    case (Await_Create v' x)
    with inv(2) a obtain b k where c: "if_created ?s = None" "if_create ?s = Some (b, k)" "r = Create_Item b k"
      using assms(2) by (auto simp: await_ok_def)
    let ?c = "\<lparr>cr_id = i, cr_opening = 0, cr_pending = None\<rparr>"
    have old: "uncreated_ok w (Some (b, k))" using inv(1) c by (simp add: made_ok_def)
    have "iw_items w = [(k, i)]"
      using old assms(3) c(3) by (cases "iw_items w") (auto simp: uncreated_ok_def split: if_splits)
    then have "created_ok w ?c" using old by (auto simp: created_ok_def uncreated_ok_def flight_ok_def moved_stock_def applied_pending_def)
    then show ?thesis
      using after_created_inv [of w ?c fresh "?s\<lparr>if_created := Some ?c, if_create := None\<rparr>"] Await_Create a running unsaved assms(4)
      by (simp add: item_answered_def Let_def)
  next
    case (Await_Stock v' x)
    with inv(2) a obtain c where c: "if_created ?s = Some c" "restocks w c" by (auto simp: await_ok_def)
    then show ?thesis
      using after_stock_inv [OF pending(1,2) assms(4), of c "?s\<lparr>if_created := Some (stock_done c)\<rparr>"] Await_Stock a running unsaved
      by (simp add: item_answered_def)
  next
    case (Await_Fields v')
    with inv(2) a obtain c where c: "if_created ?s = Some c" "cr_pending c = None" by (auto simp: await_ok_def)
    then have "created_ok w c" using inv(1) by (simp add: made_ok_def)
    with c show ?thesis using adjust_stock_inv [of w c fresh ?s] assms(4) Await_Fields a running unsaved by (simp add: item_answered_def)
  next
    case (Await_Opening v')
    with inv(2) a obtain c p where c: "if_created ?s = Some c" "restocks w c" "cr_pending c = Some p" "cr_opening c + sk_quantity p = target_stock env v"
      by (auto simp: await_ok_def)
    let ?w = "route v fresh (item_answered env word fresh (Inr i) ?s) w"
    have w: "?w = w\<lparr>iw_form := ended None (?s\<lparr>if_created := Some (stock_done c)\<rparr>), iw_keys := fresh # iw_keys w, iw_current := None, iw_saved := Some v\<rparr>"
      using c(1) Await_Opening a by (simp add: item_answered_def route_def)
    have "created_ok ?w (stock_done c)" by (rule created_ok_same [OF pending(1) [OF c(1,2)]]) (auto simp: w)
    then show ?thesis using c pending(2) [OF c(1,2)]
      by (simp add: item_inv_def made_ok_def await_ok_def saved_ok_def w ended_def) (simp add: stock_done_def)
  qed
qed

lemma carried_out_inv:
  assumes "item_inv env w" "r \<in> set (iw_flight w)"
  shows "item_inv env (serve new r w)"
proof -
  let ?s = "iw_form w"
  have form: "iw_form (serve new r w) = ?s" "iw_current (serve new r w) = iw_current w" "iw_saved (serve new r w) = iw_saved w"
    "iw_flight (serve new r w) = iw_flight w" "iw_keys (serve new r w) = iw_keys w"
    by (cases r; simp)+
  have rest: "await_ok env (serve new r w) ?s" "saved_ok env (serve new r w) ?s"
    using assms(1) unfolding item_inv_def await_ok_def saved_ok_def restocks_def form by blast+
  have "made_ok (serve new r w) ?s"
  proof (cases "if_created ?s")
    case None
    then have "uncreated_ok w (if_create ?s)" using assms(1) by (simp add: item_inv_def made_ok_def)
    then show ?thesis using None assms(2) by (cases r; cases "iw_items w") (auto simp: made_ok_def uncreated_ok_def)
  next
    case (Some c)
    then have ok: "created_ok w c" using assms(1) by (simp add: item_inv_def made_ok_def)
    have "created_ok (serve new r w) c"
    proof (cases r)
      case (Create_Item b k)
      then have "k \<in> fst ` set (iw_items w)" using ok assms(2) by (auto simp: created_ok_def)
      with Create_Item ok show ?thesis by simp
    next
      case (Patch_Item i b)
      with ok show ?thesis by simp
    next
      case (Restock_Item i q k)
      show ?thesis
      proof (cases "k \<in> fst ` set (iw_moves w)")
        case False
        then have new: "i = cr_id c" "cr_pending c = Some \<lparr>sk_quantity = q, sk_key = k\<rparr>"
          using ok assms(2) Restock_Item unfolding created_ok_def flight_ok_def by blast+
        have "flight_ok (serve new r w) c" using ok False unfolding created_ok_def flight_ok_def Restock_Item by (auto; blast)
        then show ?thesis using ok new False
          by (auto simp: created_ok_def Restock_Item moved_stock_def applied_pending_def)
      qed (use Restock_Item ok in simp)
    qed
    with Some show ?thesis by (simp add: made_ok_def)
  qed
  with rest show ?thesis by (simp add: item_inv_def form)
qed

lemma failed_inv:
  assumes "item_inv env w" "iw_current w = Some r" "\<not> (refused_create e \<and> (\<exists>b k. r = Create_Item b k))"
  shows "item_inv env (w\<lparr>iw_form := fst (item_answered env word fresh (Inl e) (iw_form w)), iw_current := None\<rparr>)"
proof -
  let ?s = "iw_form w"
  have inv: "made_ok w ?s" "await_ok env w ?s" using assms(1) by (simp_all add: item_inv_def)
  have "\<not> refused_create e" if "if_await ?s = Some (Await_Create v x)" for v x
    using inv(2) that assms(2,3) by (auto simp: await_ok_def)
  then have f: "fst (item_answered env word fresh (Inl e) ?s) = ended (Some (word e)) ?s"
    by (simp add: item_answered_def split: option.splits item_await.splits)
  have "iw_saved w = None" using assms(1,2) by (cases "iw_saved w") (auto simp: item_inv_def saved_ok_def await_ok_def)
  moreover have "made_ok (w\<lparr>iw_form := t, iw_current := None\<rparr>) (ended (Some (word e)) ?s)" for t
    using inv(1) by (auto simp: made_ok_def ended_def intro: created_ok_same uncreated_ok_same split: option.splits)
  ultimately show ?thesis
    by (simp add: item_inv_def f await_ok_def saved_ok_def) (simp add: ended_def)
qed

lemma refused_inv:
  assumes "item_inv env w" "iw_current w = Some (Create_Item b k)" "refused_create e" "k \<notin> fst ` set (iw_items w)"
  shows "item_inv env (w\<lparr>iw_form := fst (item_answered env word fresh (Inl e) (iw_form w)), iw_current := None,
    iw_flight := filter (\<lambda>r. r \<noteq> Create_Item b k) (iw_flight w)\<rparr>)"
proof -
  let ?s = "iw_form w"
  have inv: "made_ok w ?s" "await_ok env w ?s" using assms(1) by (simp_all add: item_inv_def)
  obtain v x where a: "if_await ?s = Some (Await_Create v x)" "if_created ?s = None" "if_create ?s = Some (b, k)"
    using inv(2) assms(2) by (auto simp: await_ok_def restocks_def split: option.splits item_await.splits)
  have f: "fst (item_answered env word fresh (Inl e) ?s) = ended (Some (word e)) (?s\<lparr>if_create := None\<rparr>)"
    using a assms(3) by (simp add: item_answered_def)
  have "iw_saved w = None" using assms(1) a(1) by (cases "iw_saved w") (auto simp: item_inv_def saved_ok_def)
  moreover have "uncreated_ok w (Some (b, k))" using inv(1) a by (simp add: made_ok_def)
  ultimately show ?thesis using a assms(4)
    by (auto simp: item_inv_def f await_ok_def saved_ok_def made_ok_def ended_def uncreated_ok_def)
qed

lemma item_step_inv: "item_step env w w' \<Longrightarrow> item_inv env w \<Longrightarrow> item_inv env w'"
proof (induction rule: item_step.induct)
  case (typed w f)
  show ?case by (rule item_inv_same [OF typed(2)]) (simp_all add: set_values_def)
qed (simp_all add: item_submit_inv carried_out_inv item_answered_inv failed_inv refused_inv)

interpretation saving: inductive_invariant "item_opened env" "item_step env" "item_inv env" for env
proof
  show "item_inv env w" if "item_opened env w" for w
    using that by (auto simp: item_opened_def open_form_def item_inv_def made_ok_def uncreated_ok_def await_ok_def saved_ok_def idle_action_def)
  show "item_inv env w'" if "item_inv env w" "item_step env w w'" for w w'
    using that by (blast intro: item_step_inv)
qed

text \<open>C29: adding an item makes one item, with the stock that was typed. However often saving is tried, whichever answers are
  lost while their requests are carried out (at once, late, or not at all), and whatever is typed between the tries:
  when the form reports success the server has exactly one new item, every stock movement of the form is on it, and
  where stock is tracked they add up to the opening stock of that last try.\<close>

theorem added_item_has_typed_stock:
  assumes "reach (item_opened env) (item_step env) w" "iw_saved w = Some v"
  shows "\<exists>k i. iw_items w = [(k, i)] \<and> fst ` snd ` set (iw_moves w) \<subseteq> {i}
    \<and> (iv_track v \<longrightarrow> sum_list (map (snd \<circ> snd) (iw_moves w)) = target_stock env v)"
proof -
  have inv: "made_ok w (iw_form w)" "saved_ok env w (iw_form w)"
    using saving.reach_inv [OF assms(1)] by (simp_all add: item_inv_def)
  from inv(2) assms(2) obtain c where c: "if_created (iw_form w) = Some c" "cr_pending c = None" "iv_track v \<longrightarrow> cr_opening c = target_stock env v"
    unfolding saved_ok_def by blast
  with inv(1) have "created_ok w c" by (simp add: made_ok_def)
  with c show ?thesis by (auto simp: created_ok_def moved_stock_def applied_pending_def)
qed

text \<open>A run whose creation is carried out while its answer is lost; the second try finds the item and books its stock.\<close>

definition brush_typed :: item_values where
  "brush_typed = (blank_values ''product'')\<lparr>iv_name := ''Brush'', iv_price := ''12'', iv_track := True, iv_opening := ''5''\<rparr>"

definition brush_body :: body where
  "brush_body = item_payload demo_catalog brush_typed True"

definition brush_form :: item_form where
  "brush_form = \<lparr>if_values = brush_typed, if_action = idle_action, if_create = None, if_created = None, if_await = None\<rparr>"

definition brush_page :: item_world where
  "brush_page = \<lparr>iw_form = brush_form, iw_items = [], iw_moves = [], iw_flight = [], iw_current = None, iw_keys = [], iw_saved = None\<rparr>"

definition busy_action :: async_action where
  "busy_action = \<lparr>aa_running = True, aa_busy = True, aa_error = None\<rparr>"

definition lost_form :: item_form where
  "lost_form = brush_form\<lparr>if_action := \<lparr>aa_running = False, aa_busy = False, aa_error = Some []\<rparr>, if_create := Some (brush_body, ''k1'')\<rparr>"

definition brush_lost :: item_world where
  "brush_lost = brush_page\<lparr>iw_form := lost_form, iw_items := [(''k1'', ''it_1'')], iw_flight := [Create_Item brush_body ''k1''], iw_keys := [''k1'']\<rparr>"

definition brush_found :: item_world where
  "brush_found = brush_lost\<lparr>iw_form := lost_form\<lparr>if_action := busy_action, if_create := None, if_created := Some \<lparr>cr_id = ''it_1'', cr_opening = 0, cr_pending = None\<rparr>,
       if_await := Some (Await_Fields brush_typed)\<rparr>,
     iw_flight := [Patch_Item ''it_1'' (item_payload demo_catalog brush_typed False), Create_Item brush_body ''k1'', Create_Item brush_body ''k1''],
     iw_current := Some (Patch_Item ''it_1'' (item_payload demo_catalog brush_typed False)), iw_keys := [''k3'', ''k2'', ''k1'']\<rparr>"

definition brush_stocking :: item_world where
  "brush_stocking = brush_found\<lparr>iw_form := (iw_form brush_found)\<lparr>if_created := Some \<lparr>cr_id = ''it_1'', cr_opening = 0, cr_pending = Some \<lparr>sk_quantity = 5, sk_key = ''k4''\<rparr>\<rparr>,
       if_await := Some (Await_Opening brush_typed)\<rparr>,
     iw_moves := [(''k4'', ''it_1'', 5)], iw_flight := Restock_Item ''it_1'' 5 ''k4'' # iw_flight brush_found,
     iw_current := Some (Restock_Item ''it_1'' 5 ''k4''), iw_keys := ''k4'' # iw_keys brush_found\<rparr>"

definition brush_saved :: item_world where
  "brush_saved = route brush_typed ''k5'' (item_answered demo_catalog (\<lambda>_. []) ''k5'' (Inr ''it_1'') (iw_form brush_stocking)) brush_stocking"

lemmas brush_defs = brush_stocking_def brush_found_def brush_lost_def lost_form_def brush_form_def brush_page_def

lemma brush_typed_ok: "item_form_error demo_catalog brush_typed = None"
  by code_simp

lemma brush_typed_stock: "int_or demo_catalog 0 (iv_opening brush_typed) = 5" "iv_track brush_typed"
  by code_simp+

lemma brush_sent: "item_submit demo_catalog caption None ''k1'' brush_form =
    (brush_form\<lparr>if_action := busy_action, if_create := Some (brush_body, ''k1''), if_await := Some (Await_Create brush_typed False)\<rparr>, Sends (Create_Item brush_body ''k1''))"
  by (simp add: item_submit_def brush_form_def brush_typed_ok action_start_def idle_action_def busy_action_def brush_body_def)

lemma brush_again: "item_submit demo_catalog caption None ''k2'' lost_form =
    (lost_form\<lparr>if_action := busy_action, if_await := Some (Await_Create brush_typed True)\<rparr>, Sends (Create_Item brush_body ''k1''))"
  by (simp add: item_submit_def lost_form_def brush_form_def brush_typed_ok action_start_def busy_action_def)

lemma brush_saved_reach: "reach (item_opened demo_catalog) (item_step demo_catalog) brush_saved"
proof -
  let ?r = "reach (item_opened demo_catalog) (item_step demo_catalog)"
  let ?w0 = "brush_page\<lparr>iw_form := open_form demo_catalog None ''product''\<rparr>"
  have "?r ?w0" by (rule reach_init) (auto simp: item_opened_def brush_page_def)
  then have "?r (?w0\<lparr>iw_form := set_values (\<lambda>_. brush_typed) (iw_form ?w0)\<rparr>)" by (rule reach_step) (rule typed, simp add: brush_page_def)
  also have "?w0\<lparr>iw_form := set_values (\<lambda>_. brush_typed) (iw_form ?w0)\<rparr> = brush_page"
    by (simp add: brush_page_def set_values_def open_form_def brush_form_def action_set_error_def idle_action_def)
  finally have "?r (route (if_values (iw_form brush_page)) ''k1'' (item_submit demo_catalog (\<lambda>p. p) None ''k1'' (iw_form brush_page)) brush_page)"
    by (rule reach_step) (rule submitted, simp_all add: brush_page_def)
  then have sent: "?r (brush_page\<lparr>iw_form := brush_form\<lparr>if_action := busy_action, if_create := Some (brush_body, ''k1''), if_await := Some (Await_Create brush_typed False)\<rparr>,
      iw_flight := [Create_Item brush_body ''k1''], iw_current := Some (Create_Item brush_body ''k1''), iw_keys := [''k1'']\<rparr>)" (is "reach _ _ ?sent")
    by (simp add: route_def brush_page_def brush_sent)
  then have "?r (serve ''it_1'' (Create_Item brush_body ''k1'') ?sent)" by (rule reach_step) (rule carried_out, simp)
  then have "?r (?sent\<lparr>iw_items := [(''k1'', ''it_1'')]\<rparr>)" (is "reach _ _ ?made") by (simp add: brush_page_def)
  then have "?r (?made\<lparr>iw_form := fst (item_answered demo_catalog (\<lambda>_. []) [] (Inl J_Null) (iw_form ?made)), iw_current := None\<rparr>)"
    by (rule reach_step) (rule failed, simp_all add: refused_create_def failed_status_def failed_code_def failure_field_def)
  then have "?r brush_lost"
    by (simp add: item_answered_def ended_def action_end_def busy_action_def refused_create_def failed_status_def failed_code_def failure_field_def
        brush_lost_def lost_form_def brush_form_def brush_page_def)
  then have "?r (route (if_values (iw_form brush_lost)) ''k2'' (item_submit demo_catalog (\<lambda>p. p) None ''k2'' (iw_form brush_lost)) brush_lost)"
    by (rule reach_step) (rule submitted, simp_all add: brush_defs)
  then have "?r (brush_lost\<lparr>iw_form := lost_form\<lparr>if_action := busy_action, if_await := Some (Await_Create brush_typed True)\<rparr>,
      iw_flight := [Create_Item brush_body ''k1'', Create_Item brush_body ''k1''], iw_current := Some (Create_Item brush_body ''k1''), iw_keys := [''k2'', ''k1'']\<rparr>)" (is "reach _ _ ?again")
    by (simp add: route_def brush_lost_def brush_again brush_page_def)
  then have "?r (route brush_typed ''k3'' (item_answered demo_catalog (\<lambda>_. []) ''k3'' (Inr ''it_1'') (iw_form ?again)) ?again)"
    by (rule reach_step) (rule answered [of _ "Create_Item brush_body ''k1''"], simp_all add: brush_defs)
  then have "?r brush_found"
    by (simp add: route_def item_answered_def after_created_def after_stock_def brush_defs)
  then have "?r (route brush_typed ''k4'' (item_answered demo_catalog (\<lambda>_. []) ''k4'' (Inr ''it_1'') (iw_form brush_found)) brush_found)"
    by (rule reach_step) (rule answered [of _ "Patch_Item ''it_1'' (item_payload demo_catalog brush_typed False)"], simp_all add: brush_defs)
  then have "?r (brush_stocking\<lparr>iw_moves := []\<rparr>)"
    by (simp add: route_def item_answered_def adjust_stock_def brush_typed_stock brush_defs)
  then have "?r (serve [] (Restock_Item ''it_1'' 5 ''k4'') (brush_stocking\<lparr>iw_moves := []\<rparr>))"
    by (rule reach_step) (rule carried_out, simp add: brush_defs)
  then have "?r brush_stocking" by (simp add: brush_defs)
  then show ?thesis unfolding brush_saved_def
    by (rule reach_step) (rule answered [of _ "Restock_Item ''it_1'' 5 ''k4''"], simp_all add: brush_defs)
qed

theorem added_item_has_typed_stock_witness:
  "\<exists>k i. iw_items brush_saved = [(k, i)] \<and> sum_list (map (snd \<circ> snd) (iw_moves brush_saved)) = 5"
proof -
  have "iw_saved brush_saved = Some brush_typed"
    by (simp add: brush_saved_def brush_defs route_def item_answered_def)
  from added_item_has_typed_stock [OF brush_saved_reach this] show ?thesis
    using brush_typed_stock by (auto simp: target_stock_def)
qed

section \<open>A refused opening stock\<close>

text \<open>The uncertain stock command is kept whatever its failure. One that the server refuses for good is sent again before anything
  typed since, so the save fails the same way however the count is corrected.\<close>

lemma refused_stock_repeats:
  assumes "if_created s = Some c" "cr_pending c = Some p" "if_await s = Some (Await_Opening v)"
    and "item_form_error env (f (if_values s)) = None"
  shows "snd (item_submit env caption None fresh' (set_values f (fst (item_answered env word fresh (Inl e) s))))
    = Sends (Restock_Item (cr_id c) (sk_quantity p) (sk_key p))"
proof -
  have "fst (item_answered env word fresh (Inl e) s) = ended (Some (word e)) s" using assms(3) by (simp add: item_answered_def)
  then show ?thesis using assms
    by (simp add: item_submit_def ended_def set_values_def action_start_def after_created_def Let_def)
qed

end
