(* ===== verification/Deliveries.thy ===== *)
theory Deliveries
  imports Item_Editor
begin

text \<open>
  Stock that comes in (\<open>useRestockForm\<close> and \<open>useReceiveDelivery\<close>, \<open>app-core/src/domain/catalog.ts\<close>): a correction of one
  product, and a delivery of several in one save, where each line is a restock under a key of its own.
\<close>

section \<open>One product\<close>

record restock_body =
  rb_quantity :: int
  rb_note :: "string option"
  rb_cost :: "int option" \<comment> \<open>left out by the form of one product\<close>

record restock_form =
  rf_quantity :: string
  rf_note :: string
  rf_key :: "(string \<times> restock_body) attempt option"
  rf_action :: async_action

definition open_restock :: restock_form where
  "open_restock = \<lparr>rf_quantity = [], rf_note = [], rf_key = None, rf_action = idle_action\<rparr>"

definition set_restock_quantity :: "string \<Rightarrow> restock_form \<Rightarrow> restock_form" where
  "set_restock_quantity t s = s\<lparr>rf_key := None, rf_action := action_set_error None (rf_action s), rf_quantity := t\<rparr>"

definition set_restock_note :: "string \<Rightarrow> restock_form \<Rightarrow> restock_form" where
  "set_restock_note t s = s\<lparr>rf_note := t\<rparr>"

definition restock_after :: "catalog_env \<Rightarrow> catalog_item \<Rightarrow> restock_form \<Rightarrow> int" where
  "restock_after env i s = on_hand i + int_or env 0 (rf_quantity s)"

definition restock_begin :: "catalog_env \<Rightarrow> catalog_item \<Rightarrow> string \<Rightarrow> restock_form \<Rightarrow> restock_form \<times> (restock_body \<times> string) option" where
  "restock_begin env i fresh s =
    (case to_int env (rf_quantity s) of
       None \<Rightarrow> (s\<lparr>rf_action := action_set_error (Some ''restockInvalid'') (rf_action s)\<rparr>, None)
     | Some q \<Rightarrow>
         if q = 0 then (s\<lparr>rf_action := action_set_error (Some ''restockInvalid'') (rf_action s)\<rparr>, None)
         else let body = \<lparr>rb_quantity = q, rb_note = blank_to_null (rf_note s), rb_cost = None\<rparr>;
                  (key, ref) = attempt_key fresh (rf_key s) (ct_id i, body); s1 = s\<lparr>rf_key := ref\<rparr>
              in case action_start (rf_action s1) of None \<Rightarrow> (s1, None) | Some a \<Rightarrow> (s1\<lparr>rf_action := a\<rparr>, Some (body, key)))"

definition restock_end :: "json + unit \<Rightarrow> restock_form \<Rightarrow> restock_form" where
  "restock_end answer s =
    (case answer of
       Inl e \<Rightarrow> s\<lparr>rf_action := action_end (Some ''restockError'') (rf_action s)\<rparr>
     | Inr u \<Rightarrow> s\<lparr>rf_key := None, rf_quantity := [], rf_note := [], rf_action := action_end None (rf_action s)\<rparr>)"

section \<open>A delivery\<close>

record delivery_line =
  dl_item :: catalog_item
  dl_quantity :: string
  dl_cost :: string

record delivery =
  dv_supplier :: string
  dv_reference :: string
  dv_q :: string
  dv_done :: "nat option"
  dv_lines :: "delivery_line list option"
  dv_keys :: "string \<Rightarrow> restock_body attempt option"
  dv_action :: async_action

definition open_delivery :: delivery where
  "open_delivery = \<lparr>dv_supplier = [], dv_reference = [], dv_q = [], dv_done = None, dv_lines = None, dv_keys = (\<lambda>_. None), dv_action = idle_action\<rparr>"

definition tracked_items :: "catalog_item list \<Rightarrow> catalog_item list" where
  "tracked_items = filter (\<lambda>i. is_active i \<and> ct_kind i = ''product'' \<and> ct_track i = 1)"

definition line_qty :: "catalog_env \<Rightarrow> delivery_line \<Rightarrow> int option" where
  "line_qty env l = (case to_int env (dl_quantity l) of Some n \<Rightarrow> if n \<le> 0 then None else Some n | None \<Rightarrow> None)"

definition units_of :: "catalog_env \<Rightarrow> delivery_line \<Rightarrow> int" where
  "units_of env l = (case line_qty env l of Some n \<Rightarrow> n | None \<Rightarrow> 0)"

definition unit_cost :: "catalog_env \<Rightarrow> delivery_line \<Rightarrow> int" where
  "unit_cost env l = (case parse_cents (ce_locale env) (dl_cost l) of Some c \<Rightarrow> c | None \<Rightarrow> 0)"

definition delivery_line_of :: "catalog_env \<Rightarrow> catalog_item \<Rightarrow> int \<Rightarrow> delivery_line" where
  "delivery_line_of env i quantity =
    \<lparr>dl_item = i, dl_quantity = int_string quantity, dl_cost = dollars env (Some (case ct_cost i of Some c \<Rightarrow> c | None \<Rightarrow> 0))\<rparr>"

text \<open>The lines shown: those edited, or until then those the page was opened with.\<close>

definition delivery_lines :: "catalog_env \<Rightarrow> catalog_item list \<Rightarrow> (string \<times> int) list \<Rightarrow> delivery \<Rightarrow> delivery_line list" where
  "delivery_lines env items seed s =
    (case dv_lines s of
       Some ls \<Rightarrow> ls
     | None \<Rightarrow> List.map_filter (\<lambda>(i, n). map_option (\<lambda>x. delivery_line_of env x n) (find (\<lambda>x. ct_id x = i) (tracked_items items))) seed)"

definition edit_delivery :: "(delivery_line list \<Rightarrow> delivery_line list) \<Rightarrow> delivery_line list \<Rightarrow> delivery \<Rightarrow> delivery" where
  "edit_delivery f ls s = s\<lparr>dv_done := None, dv_action := action_set_error None (dv_action s), dv_lines := Some (f ls)\<rparr>"

definition add_delivery :: "catalog_env \<Rightarrow> catalog_item \<Rightarrow> delivery_line list \<Rightarrow> delivery \<Rightarrow> delivery" where
  "add_delivery env i ls s =
    (let s1 = s\<lparr>dv_q := []\<rparr>
     in if ct_id i \<in> (ct_id \<circ> dl_item) ` set ls then s1
        else edit_delivery (\<lambda>xs. xs @ [delivery_line_of env i (max 1 (sw_suggested (stock_row_of i 0)))]) ls s1)"

definition remove_delivery :: "string \<Rightarrow> delivery_line list \<Rightarrow> delivery \<Rightarrow> delivery" where
  "remove_delivery i = edit_delivery (filter (\<lambda>l. ct_id (dl_item l) \<noteq> i))"

definition set_line_quantity :: "string \<Rightarrow> string \<Rightarrow> delivery_line list \<Rightarrow> delivery \<Rightarrow> delivery" where
  "set_line_quantity i t ls s =
    edit_delivery (map (\<lambda>l. if ct_id (dl_item l) = i then l\<lparr>dl_quantity := t\<rparr> else l)) ls (s\<lparr>dv_keys := (dv_keys s)(i := None)\<rparr>)"

definition set_line_cost :: "string \<Rightarrow> string \<Rightarrow> delivery_line list \<Rightarrow> delivery \<Rightarrow> delivery" where
  "set_line_cost i t ls s =
    edit_delivery (map (\<lambda>l. if ct_id (dl_item l) = i then l\<lparr>dl_cost := t\<rparr> else l)) ls (s\<lparr>dv_keys := (dv_keys s)(i := None)\<rparr>)"

definition set_supplier :: "string \<Rightarrow> delivery \<Rightarrow> delivery" where
  "set_supplier t s = s\<lparr>dv_supplier := t\<rparr>"

definition set_reference :: "string \<Rightarrow> delivery \<Rightarrow> delivery" where
  "set_reference t s = s\<lparr>dv_reference := t\<rparr>"

definition delivery_candidates :: "catalog_item list \<Rightarrow> delivery_line list \<Rightarrow> delivery \<Rightarrow> catalog_item list" where
  "delivery_candidates items ls s =
    (let t = map lower_char (js_trim (dv_q s)); has = (\<lambda>v. includes_text t (map lower_char v))
     in if t = [] then []
        else take 6 (filter (\<lambda>i. ct_id i \<notin> (ct_id \<circ> dl_item) ` set ls \<and> (has (ct_name i) \<or> has (or_blank (ct_sku i)))) (tracked_items items)))"

definition delivery_units :: "catalog_env \<Rightarrow> delivery_line list \<Rightarrow> int" where
  "delivery_units env ls = sum_list (map (units_of env) ls)"

definition line_cost :: "catalog_env \<Rightarrow> delivery_line \<Rightarrow> int" where
  "line_cost env l = units_of env l * unit_cost env l"

definition delivery_cost :: "catalog_env \<Rightarrow> delivery_line list \<Rightarrow> int" where
  "delivery_cost env ls = sum_list (map (line_cost env) ls)"

definition stock_after :: "catalog_env \<Rightarrow> delivery_line \<Rightarrow> int" where
  "stock_after env l = on_hand (dl_item l) + units_of env l"

definition still_low :: "catalog_env \<Rightarrow> delivery_line \<Rightarrow> bool" where
  "still_low env l \<longleftrightarrow> (case ct_low_at (dl_item l) of None \<Rightarrow> False | Some low \<Rightarrow> stock_after env l \<le> low)"

section \<open>Saving it\<close>

definition delivery_note :: "string \<Rightarrow> delivery \<Rightarrow> string option" where
  "delivery_note separator s = blank_to_null (format_parts separator [Some (js_trim (dv_supplier s)), Some (js_trim (dv_reference s))])"

definition line_body :: "catalog_env \<Rightarrow> string option \<Rightarrow> delivery_line \<Rightarrow> restock_body" where
  "line_body env remark l = \<lparr>rb_quantity = units_of env l, rb_note = remark, rb_cost = parse_cents (ce_locale env) (dl_cost l)\<rparr>"

text \<open>One request per line, each under the key kept for its product and body; the keys drawn are numbered.\<close>

fun send_lines :: "catalog_env \<Rightarrow> string option \<Rightarrow> (nat \<Rightarrow> string) \<Rightarrow> nat \<Rightarrow> (string \<Rightarrow> restock_body attempt option) \<Rightarrow> delivery_line list
    \<Rightarrow> (string \<Rightarrow> restock_body attempt option) \<times> (string \<times> restock_body \<times> string) list" where
  "send_lines env remark fresh n keys [] = (keys, [])"
| "send_lines env remark fresh n keys (l # ls) =
    (let i = ct_id (dl_item l); body = line_body env remark l; (key, ref) = attempt_key (fresh n) (keys i) body;
         (keys', rs) = send_lines env remark fresh (n + 1) (keys(i := ref)) ls
     in (keys', (i, body, key) # rs))"

definition delivery_begin :: "catalog_env \<Rightarrow> string \<Rightarrow> (nat \<Rightarrow> string) \<Rightarrow> delivery_line list \<Rightarrow> delivery \<Rightarrow> delivery \<times> (string \<times> restock_body \<times> string) list" where
  "delivery_begin env separator fresh ls s =
    (if ls = [] \<or> (\<exists>l\<in>set ls. line_qty env l = None)
     then (s\<lparr>dv_action := action_set_error (Some ''receiveInvalid'') (dv_action s)\<rparr>, [])
     else case action_start (dv_action s) of
            None \<Rightarrow> (s, [])
          | Some a \<Rightarrow> (let (keys, rs) = send_lines env (delivery_note separator s) fresh 0 (dv_keys s) ls
                      in (s\<lparr>dv_action := a, dv_keys := keys\<rparr>, rs)))"

text \<open>All lines went through, or one failed.\<close>

definition delivery_end :: "nat \<Rightarrow> json + unit \<Rightarrow> delivery \<Rightarrow> delivery" where
  "delivery_end sent answer s =
    (case answer of
       Inl e \<Rightarrow> s\<lparr>dv_action := action_end (Some ''receiveError'') (dv_action s)\<rparr>
     | Inr u \<Rightarrow> s\<lparr>dv_keys := (\<lambda>_. None), dv_done := Some sent, dv_lines := Some [], dv_reference := [], dv_action := action_end None (dv_action s)\<rparr>)"

section \<open>A delivery sent again\<close>

lemma attempt_kept:
  assumes "attempt_key fresh r b = (k, r')"
  shows "attempt_key fresh2 r' b = (k, r')" "\<exists>a. r' = Some a \<and> at_request a = b"
  using assms by (cases r; auto simp: attempt_key_def split: if_splits)+

lemma send_lines_kept:
  "i \<notin> (ct_id \<circ> dl_item) ` set ls \<Longrightarrow> fst (send_lines env remark fresh n keys ls) i = keys i"
  by (induction ls arbitrary: n keys) (auto simp: Let_def split: prod.splits, metis fst_conv fun_upd_apply)

lemma send_lines_again:
  assumes "distinct (map (ct_id \<circ> dl_item) ls)" "send_lines env remark fresh n keys ls = (keys', rs)"
    and "\<forall>l\<in>set ls. keys2 (ct_id (dl_item l)) = keys' (ct_id (dl_item l))"
  shows "snd (send_lines env remark fresh2 n2 keys2 ls) = rs"
  using assms
proof (induction ls arbitrary: n n2 keys keys2 rs)
  case (Cons l ls)
  let ?i = "ct_id (dl_item l)" and ?body = "line_body env remark l"
  obtain key ref where k: "attempt_key (fresh n) (keys ?i) ?body = (key, ref)" by (cases "attempt_key (fresh n) (keys ?i) ?body") auto
  obtain rs' where rest: "send_lines env remark fresh (n + 1) (keys(?i := ref)) ls = (keys', rs')" "rs = (?i, ?body, key) # rs'"
    using Cons.prems(2) k by (auto simp: Let_def split: prod.splits)
  have out: "?i \<notin> (ct_id \<circ> dl_item) ` set ls" using Cons.prems(1) by (auto simp: image_iff)
  have "keys' ?i = ref" using send_lines_kept [OF out, of env remark fresh "n + 1" "keys(?i := ref)"] rest(1) by simp
  then have ref: "keys2 ?i = ref" using Cons.prems(3) by simp
  have "attempt_key (fresh2 n2) ref ?body = (key, ref)" using attempt_kept(1) [OF k] .
  moreover have "snd (send_lines env remark fresh2 (n2 + 1) (keys2(?i := ref)) ls) = rs'"
    using Cons.prems out ref rest(1) by (intro Cons.IH) (auto simp: image_iff)
  ultimately show ?case by (simp add: ref rest(2) Let_def split: prod.splits) (metis snd_conv)
qed simp

text \<open>A delivery of which some lines went through while another failed is sent again request for request: no product is counted
  twice.\<close>

lemma failed_delivery_repeats:
  assumes "distinct (map (ct_id \<circ> dl_item) ls)" "delivery_begin env separator fresh ls s = (t, rs)" "rs \<noteq> []"
  shows "snd (delivery_begin env separator fresh2 ls (delivery_end n (Inl e) t)) = rs"
proof -
  from assms(2,3) obtain a keys where a: "ls \<noteq> []" "\<not> (\<exists>l\<in>set ls. line_qty env l = None)" "action_start (dv_action s) = Some a"
    "send_lines env (delivery_note separator s) fresh 0 (dv_keys s) ls = (keys, rs)" "t = s\<lparr>dv_action := a, dv_keys := keys\<rparr>"
    by (auto simp: delivery_begin_def split: if_splits option.splits prod.splits)
  let ?t = "delivery_end n (Inl e) t"
  have t: "dv_keys ?t = keys" "delivery_note separator ?t = delivery_note separator s" "\<exists>b. action_start (dv_action ?t) = Some b"
    by (simp_all add: delivery_end_def a(5) delivery_note_def action_end_def action_start_def)
  have "snd (send_lines env (delivery_note separator s) fresh2 0 keys ls) = rs"
    by (rule send_lines_again [OF assms(1) a(4)]) simp
  with t a(1,2) show ?thesis by (auto simp: delivery_begin_def split: prod.splits)
qed

text \<open>But the note is part of every line's body. Once the supplier or the reference is completed after such a failure, all lines
  go out under new keys, those that went through included, and their stock is counted a second time.\<close>

lemma send_lines_noted:
  assumes "distinct (map (ct_id \<circ> dl_item) ls)" "send_lines env remark fresh n keys ls = (keys', rs)" "other \<noteq> remark"
    and "\<forall>l\<in>set ls. keys2 (ct_id (dl_item l)) = keys' (ct_id (dl_item l))"
  shows "map (snd \<circ> snd) (snd (send_lines env other fresh2 n2 keys2 ls)) = map fresh2 [n2..<n2 + length ls]"
  using assms
proof (induction ls arbitrary: n n2 keys keys2 rs)
  case (Cons l ls)
  let ?i = "ct_id (dl_item l)"
  obtain key ref where k: "attempt_key (fresh n) (keys ?i) (line_body env remark l) = (key, ref)"
    by (cases "attempt_key (fresh n) (keys ?i) (line_body env remark l)") auto
  obtain rs' where rest: "send_lines env remark fresh (n + 1) (keys(?i := ref)) ls = (keys', rs')"
    using Cons.prems(2) k by (auto simp: Let_def split: prod.splits)
  have out: "?i \<notin> (ct_id \<circ> dl_item) ` set ls" using Cons.prems(1) by (auto simp: image_iff)
  have "keys' ?i = ref" using send_lines_kept [OF out, of env remark fresh "n + 1" "keys(?i := ref)"] rest by simp
  then have ref: "keys2 ?i = ref" using Cons.prems(4) by simp
  have "\<exists>a. ref = Some a \<and> at_request a = line_body env remark l" using attempt_kept(2) [OF k] .
  then have "attempt_key (fresh2 n2) ref (line_body env other l) = (fresh2 n2, Some \<lparr>at_key = fresh2 n2, at_request = line_body env other l\<rparr>)"
    using Cons.prems(3) by (auto simp: attempt_key_def line_body_def)
  moreover
  let ?keys = "keys2(?i := Some \<lparr>at_key = fresh2 n2, at_request = line_body env other l\<rparr>)"
  have "map (snd \<circ> snd) (snd (send_lines env other fresh2 (n2 + 1) ?keys ls)) = map fresh2 [n2 + 1..<n2 + 1 + length ls]"
    using Cons.prems out rest by (intro Cons.IH) (auto simp: image_iff)
  moreover obtain k2 rs2 where "send_lines env other fresh2 (n2 + 1) ?keys ls = (k2, rs2)" by (rule prod.exhaust)
  ultimately show ?case using ref by (simp add: Let_def upt_rec [of n2] comp_def del: upt_Suc)
qed simp

lemma noted_delivery_counts_again:
  assumes "distinct (map (ct_id \<circ> dl_item) ls)" "delivery_begin env separator fresh ls s = (t, rs)" "rs \<noteq> []"
    and "delivery_note separator (set_reference x t) \<noteq> delivery_note separator s"
  shows "map (snd \<circ> snd) (snd (delivery_begin env separator fresh2 ls (set_reference x (delivery_end n (Inl e) t)))) = map fresh2 [0..<length ls]"
proof -
  from assms(2,3) obtain a keys where a: "ls \<noteq> []" "\<not> (\<exists>l\<in>set ls. line_qty env l = None)" "action_start (dv_action s) = Some a"
    "send_lines env (delivery_note separator s) fresh 0 (dv_keys s) ls = (keys, rs)" "t = s\<lparr>dv_action := a, dv_keys := keys\<rparr>"
    by (auto simp: delivery_begin_def split: if_splits option.splits prod.splits)
  let ?t = "set_reference x (delivery_end n (Inl e) t)"
  have t: "dv_keys ?t = keys" "delivery_note separator ?t = delivery_note separator (set_reference x t)" "\<exists>b. action_start (dv_action ?t) = Some b"
    by (simp_all add: delivery_end_def a(5) delivery_note_def action_end_def action_start_def set_reference_def)
  have "map (snd \<circ> snd) (snd (send_lines env (delivery_note separator ?t) fresh2 0 keys ls)) = map fresh2 [0..<0 + length ls]"
    by (rule send_lines_noted [OF assms(1) a(4)]) (use assms(4) t(2) in simp_all)
  with t a(1,2) show ?thesis by (auto simp: delivery_begin_def split: prod.splits)
qed

text \<open>What is added to the delivery while it is being saved is wiped by its success.\<close>

lemma line_added_during_save_is_lost:
  "dv_lines (delivery_end n (Inr ()) (edit_delivery f ls s)) = Some []"
  by (simp add: delivery_end_def)

end
