(* ===== verification/Clients.thy ===== *)
theory Clients
  imports Booking_Flow View_Hooks
begin

text \<open>
  Clients (\<open>app-core/src/domain/clients.ts\<close>): the directory with its search and tags, the editor of a client with its
  check for duplicates, the selection of several clients, merging two of them, notes, visits and saved cards. Rows
  come from the replica's queries; what \<open>normalize("NFD")\<close> without its marks makes of a text is a parameter.
\<close>

section \<open>The directory\<close>

record client_row =
  cw_id :: string
  cw_name :: string
  cw_phone :: "string option"
  cw_archived :: bool
  cw_tags :: "string list"
  cw_subjects :: "string list"

record client_env =
  cv_plain :: "string \<Rightarrow> string"
  cv_parse :: "string \<Rightarrow> json option"
  cv_collate :: "string \<Rightarrow> int"

definition fold_text :: "client_env \<Rightarrow> string \<Rightarrow> string" where
  "fold_text env v = map lower_char (js_trim (cv_plain env v))"

definition phone_text :: "string option \<Rightarrow> string" where
  "phone_text p = (case p of Some t \<Rightarrow> t | None \<Rightarrow> [])"

text \<open>Tags kept as text: a JSON array, or what reads like a Postgres array.\<close>

definition strip_one :: "char \<Rightarrow> char \<Rightarrow> string \<Rightarrow> string" where
  "strip_one a b s = (let s1 = (if take 1 s = [a] then drop 1 s else s) in if s1 \<noteq> [] \<and> List.last s1 = b then butlast s1 else s1)"

definition parse_tags :: "client_env \<Rightarrow> string option \<Rightarrow> string list" where
  "parse_tags env raw = (case raw of None \<Rightarrow> [] | Some s \<Rightarrow>
     if s = [] then []
     else case cv_parse env s of
       Some (J_Arr vs) \<Rightarrow> List.map_filter (\<lambda>v. case v of J_Str t \<Rightarrow> Some t | _ \<Rightarrow> None) vs
     | Some _ \<Rightarrow> []
     | None \<Rightarrow> filter (\<lambda>t. t \<noteq> []) (map (\<lambda>t. js_trim (strip_one (CHR 0x22) (CHR 0x22) t)) (split_on (CHR '','') (strip_one (CHR ''{'') (CHR ''}'') s))))"

definition reads_as_number :: "string \<Rightarrow> bool" where
  "reads_as_number t \<longleftrightarrow> t \<noteq> [] \<and> (\<forall>c\<in>set t. is_digit c \<or> is_space c \<or> c \<in> set ''+().-'')"

definition client_matches :: "client_env \<Rightarrow> client_row \<Rightarrow> string \<Rightarrow> bool" where
  "client_matches env c q =
    (let t = fold_text env q; digits = (if reads_as_number (js_trim q) then phone_digits q else [])
     in t = [] \<or> includes_text t (fold_text env (cw_name c))
        \<or> (3 \<le> length digits \<and> includes_text digits (phone_digits (phone_text (cw_phone c))))
        \<or> (\<exists>n\<in>set (cw_subjects c). includes_text t (fold_text env n)) \<or> (\<exists>n\<in>set (cw_tags c). includes_text t (fold_text env n)))"

definition filter_clients :: "client_env \<Rightarrow> string \<Rightarrow> client_row list \<Rightarrow> client_row list" where
  "filter_clients env q rows = (if fold_text env q = [] then rows else filter (\<lambda>c. client_matches env c q) rows)"

definition directory_rows :: "client_env \<Rightarrow> bool \<Rightarrow> string \<Rightarrow> client_row list \<Rightarrow> client_row list" where
  "directory_rows env archived q rows = filter (\<lambda>c. archived = cw_archived c \<and> client_matches env c q) rows"

definition directory_counts :: "client_row list \<Rightarrow> nat \<times> nat" where
  "directory_counts rows = (length (filter (\<lambda>c. \<not> cw_archived c) rows), length (filter cw_archived rows))"

definition tag_counts :: "client_row list \<Rightarrow> (string, nat) js_map" where
  "tag_counts rows = foldl (\<lambda>m t. AList.update t ((case map_of m t of Some n \<Rightarrow> n | None \<Rightarrow> 0) + 1) m) [] (concat (map cw_tags rows))"

text \<open>Most used first, then by name; both sorts are stable.\<close>

definition tag_directory :: "client_env \<Rightarrow> client_row list \<Rightarrow> (string \<times> nat) list" where
  "tag_directory env rows = sort_key (\<lambda>(t, n). - int n) (sort_key (\<lambda>(t, n). cv_collate env t) (tag_counts rows))"

fun single_spaces :: "string \<Rightarrow> string" where
  "single_spaces [] = []"
| "single_spaces [c] = [if is_space c then CHR '' '' else c]"
| "single_spaces (c # d # cs) = (if is_space c \<and> is_space d then single_spaces (d # cs) else (if is_space c then CHR '' '' else c) # single_spaces (d # cs))"

definition clean_tag :: "string \<Rightarrow> string" where
  "clean_tag t = single_spaces (map lower_char (js_trim t))"

section \<open>Duplicates and checks\<close>

record client_draft =
  cf_name :: string
  cf_phone :: string
  cf_tags :: "string list"
  cf_consent :: bool
  cf_subject :: string
  cf_detail :: string

definition empty_client :: client_draft where
  "empty_client = \<lparr>cf_name = [], cf_phone = [], cf_tags = [], cf_consent = False, cf_subject = [], cf_detail = []\<rparr>"

text \<open>Other clients with the phone (which then is taken), then those with the exact name.\<close>

definition find_duplicates :: "client_env \<Rightarrow> client_draft \<Rightarrow> client_row list \<Rightarrow> string option \<Rightarrow> (client_row \<times> bool) list" where
  "find_duplicates env d rows except =
    (let phone = normalize_phone (cf_phone d); name = fold_text env (cf_name d); others = filter (\<lambda>c. Some (cw_id c) \<noteq> except) rows
     in map (\<lambda>c. (c, True)) (filter (\<lambda>c. phone \<noteq> None \<and> normalize_phone (phone_text (cw_phone c)) = phone) others)
        @ map (\<lambda>c. (c, False)) (filter (\<lambda>c. 3 < length name \<and> fold_text env (cw_name c) = name) others))"

definition taken_match :: "(string \<times> string) option \<Rightarrow> string \<Rightarrow> client_row list \<Rightarrow> (client_row \<times> bool) option" where
  "taken_match taken phone rows =
    (case taken of
       None \<Rightarrow> None
     | Some (p, i) \<Rightarrow> if Some p \<noteq> normalize_phone phone then None else map_option (\<lambda>c. (c, True)) (find (\<lambda>c. cw_id c = i) rows))"

definition validate_client :: "client_draft \<Rightarrow> (string \<times> string) list" where
  "validate_client d =
    (if js_trim (cf_name d) = [] then [(''name'', ''nameRequired'')] else if name_too_long (cf_name d) then [(''name'', ''nameTooLong'')] else [])
    @ (if name_too_long (cf_subject d) then [(''subject'', ''tooLong'')] else [])
    @ (if js_trim (cf_phone d) \<noteq> [] \<and> normalize_phone (cf_phone d) = None then [(''phone'', ''phoneInvalid'')] else [])
    @ (if js_trim (cf_phone d) = [] then [(''contact'', ''contactRequired'')] else [])"

section \<open>The editor\<close>

text \<open>What is written: a new client, or the changed fields of one.\<close>

record new_client =
  nw_name :: string
  nw_phone :: "string option"
  nw_tags :: "string list"
  nw_consent :: bool
  nw_subject :: "(string \<times> string option) option" \<comment> \<open>its name and lead detail\<close>

record client_change =
  cc_name :: "string option"
  cc_phone :: "string option option"
  cc_tags :: "string list option"
  cc_consent :: "bool option"

datatype client_request = Add_Client new_client | Change_Client string client_change

record client_editor =
  ed_added :: client_draft
  ed_sync :: synced_draft
  ed_consent :: "bool option"
  ed_tried :: bool
  ed_ignored :: bool
  ed_taken :: "(string \<times> string) option"
  ed_action :: async_action
  ed_attempt :: "client_request attempt option"

definition open_editor :: client_editor where
  "open_editor = \<lparr>ed_added = empty_client, ed_sync = blank_draft, ed_consent = None, ed_tried = False, ed_ignored = False, ed_taken = None,
     ed_action = idle_action, ed_attempt = None\<rparr>"

text \<open>What a render sees: the directory, the client edited, whether the business has a kind of subject, the consent on record.\<close>

record editor_view =
  vw_rows :: "client_row list"
  vw_client :: "string option"
  vw_kind :: bool
  vw_agreed :: bool

definition edited_client :: "editor_view \<Rightarrow> client_row option" where
  "edited_client v = find (\<lambda>c. Some (cw_id c) = vw_client v) (vw_rows v)"

definition contact_of :: "string \<Rightarrow> string option \<Rightarrow> string list \<Rightarrow> draft_fields" where
  "contact_of name phone tags = [(''name'', Draft_Text name), (''phone'', Draft_Text (format_phone (phone_text phone))), (''tags'', Draft_Texts tags)]"

definition stored_contact :: "editor_view \<Rightarrow> draft_fields option" where
  "stored_contact v = map_option (\<lambda>c. contact_of (cw_name c) (cw_phone c) (cw_tags c)) (edited_client v)"

definition field_text :: "draft_fields \<Rightarrow> string \<Rightarrow> string \<Rightarrow> string" where
  "field_text m k d = (case map_of m k of Some (Draft_Text t) \<Rightarrow> t | _ \<Rightarrow> d)"

definition field_texts :: "draft_fields \<Rightarrow> string \<Rightarrow> string list \<Rightarrow> string list" where
  "field_texts m k d = (case map_of m k of Some (Draft_Texts t) \<Rightarrow> t | _ \<Rightarrow> d)"

definition client_draft_of :: "editor_view \<Rightarrow> client_editor \<Rightarrow> client_draft" where
  "client_draft_of v s =
    (let d = ed_added s; shown = (case draft_values (stored_contact v) (ed_sync s) of
                  None \<Rightarrow> d
                | Some m \<Rightarrow> d\<lparr>cf_name := field_text m ''name'' (cf_name d), cf_phone := field_text m ''phone'' (cf_phone d), cf_tags := field_texts m ''tags'' (cf_tags d)\<rparr>)
     in shown\<lparr>cf_consent := (case ed_consent s of Some c \<Rightarrow> c | None \<Rightarrow> vw_agreed v)\<rparr>)"

definition client_changes :: "editor_view \<Rightarrow> client_editor \<Rightarrow> draft_fields" where
  "client_changes v s = draft_changes (stored_contact v) (ed_sync s)"

definition consent_changed :: "editor_view \<Rightarrow> client_editor \<Rightarrow> bool" where
  "consent_changed v s \<longleftrightarrow> ed_consent s \<noteq> None \<and> ed_consent s \<noteq> Some (vw_agreed v)"

definition contact_changed :: "editor_view \<Rightarrow> client_editor \<Rightarrow> bool" where
  "contact_changed v s \<longleftrightarrow> edited_client v = None \<or> map_of (client_changes v s) ''name'' \<noteq> None \<or> map_of (client_changes v s) ''phone'' \<noteq> None"

definition editor_duplicates :: "client_env \<Rightarrow> editor_view \<Rightarrow> client_editor \<Rightarrow> (client_row \<times> bool) list" where
  "editor_duplicates env v s =
    (let d = client_draft_of v s;
         found = (if contact_changed v s then find_duplicates env d (vw_rows v) (vw_client v) else []);
         refused = taken_match (ed_taken s) (cf_phone d) (vw_rows v)
     in (case refused of Some m \<Rightarrow> if \<exists>x\<in>set found. snd x then [] else [m] | None \<Rightarrow> [])
        @ filter (\<lambda>x. snd x \<or> \<not> ed_ignored s) found)"

definition editor_dirty :: "editor_view \<Rightarrow> client_editor \<Rightarrow> bool" where
  "editor_dirty v s \<longleftrightarrow> consent_changed v s \<or> (if edited_client v = None then ed_added s \<noteq> empty_client else client_changes v s \<noteq> [])"

text \<open>Typing: the contact of a client who exists goes to the draft over the synced record.\<close>

definition set_contact :: "editor_view \<Rightarrow> string \<Rightarrow> draft_value \<Rightarrow> client_editor \<Rightarrow> client_editor" where
  "set_contact v key x s =
    (let s1 = s\<lparr>ed_action := action_set_error None (ed_action s)\<rparr>
     in if edited_client v \<noteq> None then s1\<lparr>ed_sync := draft_set (stored_contact v) key (Inl x) (ed_sync s)\<rparr>
        else s1\<lparr>ed_added := (case x of
               Draft_Text t \<Rightarrow> if key = ''name'' then (ed_added s)\<lparr>cf_name := t\<rparr> else if key = ''phone'' then (ed_added s)\<lparr>cf_phone := t\<rparr> else ed_added s
             | Draft_Texts ts \<Rightarrow> if key = ''tags'' then (ed_added s)\<lparr>cf_tags := ts\<rparr> else ed_added s)\<rparr>)"

definition set_consent :: "bool \<Rightarrow> client_editor \<Rightarrow> client_editor" where
  "set_consent c s = s\<lparr>ed_consent := Some c, ed_action := action_set_error None (ed_action s)\<rparr>"

definition set_first_subject :: "string \<Rightarrow> string \<Rightarrow> client_editor \<Rightarrow> client_editor" where
  "set_first_subject name detail s =
    s\<lparr>ed_added := (ed_added s)\<lparr>cf_subject := name, cf_detail := detail\<rparr>, ed_action := action_set_error None (ed_action s)\<rparr>"

definition ignore_duplicates :: "client_editor \<Rightarrow> client_editor" where
  "ignore_duplicates s = s\<lparr>ed_ignored := True\<rparr>"

definition client_request_of :: "editor_view \<Rightarrow> client_editor \<Rightarrow> client_request" where
  "client_request_of v s =
    (let d = client_draft_of v s; name = js_trim (cf_name d); phone = normalize_phone (cf_phone d); subject = js_trim (cf_subject d); sent = client_changes v s
     in case edited_client v of
          None \<Rightarrow> Add_Client \<lparr>nw_name = name, nw_phone = phone, nw_tags = cf_tags d, nw_consent = cf_consent d,
                    nw_subject = (if \<not> vw_kind v \<or> subject = [] then None else Some (subject, blank_to_null (cf_detail d)))\<rparr>
        | Some c \<Rightarrow> Change_Client (cw_id c)
            \<lparr>cc_name = map_option (\<lambda>_. name) (map_of sent ''name''), cc_phone = map_option (\<lambda>_. phone) (map_of sent ''phone''),
             cc_tags = map_option (\<lambda>_. cf_tags d) (map_of sent ''tags''), cc_consent = (if consent_changed v s then Some (cf_consent d) else None)\<rparr>)"

definition editor_begin :: "client_env \<Rightarrow> editor_view \<Rightarrow> string \<Rightarrow> client_editor \<Rightarrow> client_editor \<times> (client_request \<times> string) option" where
  "editor_begin env v fresh s =
    (let s1 = s\<lparr>ed_tried := True\<rparr>
     in if validate_client (client_draft_of v s) \<noteq> [] \<or> (\<exists>x\<in>set (editor_duplicates env v s). snd x) then (s1, None)
        else case action_start (ed_action s) of
               None \<Rightarrow> (s1, None)
             | Some a \<Rightarrow> (let r = client_request_of v s; (key, ref) = attempt_key fresh (ed_attempt s) r
                         in (s1\<lparr>ed_action := a, ed_attempt := ref\<rparr>, Some (r, key))))"

text \<open>The answer to what the render \<open>v\<close> of the state \<open>s0\<close> sent. A refusal that names a client of this device shows as that match.\<close>

definition editor_end :: "(json \<Rightarrow> string) \<Rightarrow> editor_view \<Rightarrow> client_editor \<Rightarrow> json + (string \<times> string option \<times> string list) \<Rightarrow> client_editor \<Rightarrow> client_editor" where
  "editor_end word v s0 answer s =
    (case answer of
       Inr (name, phone, tags) \<Rightarrow>
         (let s1 = s\<lparr>ed_attempt := None, ed_action := action_end None (ed_action s)\<rparr>
          in if edited_client v = None then s1
             else s1\<lparr>ed_sync := draft_settle (stored_contact v) (client_changes v s0) (Some (contact_of name phone tags)) (ed_sync s)\<rparr>)
     | Inl e \<Rightarrow>
         (case (normalize_phone (cf_phone (client_draft_of v s0)), map_of (rev (failed_detail e)) ''client_id'') of
            (Some p, Some (J_Str i)) \<Rightarrow>
              if failed_code e = Some ''phone_taken''
              then s\<lparr>ed_taken := Some (p, i),
                     ed_action := action_end (if \<exists>c\<in>set (vw_rows v). cw_id c = i then None else Some (word e)) (ed_action s)\<rparr>
              else s\<lparr>ed_action := action_end (Some (word e)) (ed_action s)\<rparr>
          | _ \<Rightarrow> s\<lparr>ed_action := action_end (Some (word e)) (ed_action s)\<rparr>))"

text \<open>The phone a request gives a client.\<close>

definition request_phone :: "client_request \<Rightarrow> string option" where
  "request_phone r = (case r of Add_Client n \<Rightarrow> nw_phone n | Change_Client i c \<Rightarrow> (case cc_phone c of Some p \<Rightarrow> p | None \<Rightarrow> None))"

text \<open>C33: a phone number is not given to a second client. Whatever was typed, and whether or not the hint at clients of the same
  name was dismissed: a request that leaves the editor with a phone number has one that no other client of the
  directory holds, in whatever form either is written.\<close>

theorem sent_phone_is_free:
  assumes "editor_begin env v fresh s = (t, Some (r, key))" "request_phone r = Some p"
  shows "list_all (\<lambda>c. normalize_phone (phone_text (cw_phone c)) = Some p \<longrightarrow> Some (cw_id c) = vw_client v) (vw_rows v)"
proof -
  let ?d = "client_draft_of v s"
  have free: "\<not> snd x" if "x \<in> set (editor_duplicates env v s)" for x
    using assms(1) that by (auto simp: editor_begin_def Let_def split: if_splits)
  have r: "r = client_request_of v s" using assms(1) by (auto simp: editor_begin_def Let_def split: if_splits option.splits prod.splits)
  have changed: "contact_changed v s" and phone: "normalize_phone (cf_phone ?d) = Some p"
    using assms(2) by (auto simp: r client_request_of_def request_phone_def contact_changed_def Let_def split: option.splits)
  have "Some (cw_id c) = vw_client v" if "c \<in> set (vw_rows v)" "normalize_phone (phone_text (cw_phone c)) = Some p" for c
  proof (rule ccontr)
    assume "Some (cw_id c) \<noteq> vw_client v"
    then have "(c, True) \<in> set (find_duplicates env ?d (vw_rows v) (vw_client v))"
      using that phone by (simp add: find_duplicates_def Let_def)
    then have "(c, True) \<in> set (editor_duplicates env v s)" using changed by (simp add: editor_duplicates_def Let_def)
    from free [OF this] show False by simp
  qed
  then show ?thesis by (auto simp: list_all_iff)
qed

definition plain_clients :: client_env where
  "plain_clients = \<lparr>cv_plain = (\<lambda>t. t), cv_parse = (\<lambda>_. None), cv_collate = (\<lambda>_. 0)\<rparr>"

definition kim_view :: editor_view where
  "kim_view = \<lparr>vw_rows = [\<lparr>cw_id = ''cl_1'', cw_name = ''Kim'', cw_phone = Some ''+12505550101'', cw_archived = False, cw_tags = [], cw_subjects = []\<rparr>],
     vw_client = None, vw_kind = False, vw_agreed = False\<rparr>"

definition kim_editor :: client_editor where
  "kim_editor = ignore_duplicates (set_contact kim_view ''phone'' (Draft_Text ''(250) 555-0102'') (set_contact kim_view ''name'' (Draft_Text ''Kim'') open_editor))"

lemma kim_sends: "snd (editor_begin plain_clients kim_view ''k1'' kim_editor)
    = Some (Add_Client \<lparr>nw_name = ''Kim'', nw_phone = Some ''+12505550102'', nw_tags = [], nw_consent = False, nw_subject = None\<rparr>, ''k1'')"
  by code_simp

theorem sent_phone_is_free_witness:
  "list_all (\<lambda>c. normalize_phone (phone_text (cw_phone c)) \<noteq> Some ''+12505550102'') (vw_rows kim_view)"
proof -
  obtain t where "editor_begin plain_clients kim_view ''k1'' kim_editor
    = (t, Some (Add_Client \<lparr>nw_name = ''Kim'', nw_phone = Some ''+12505550102'', nw_tags = [], nw_consent = False, nw_subject = None\<rparr>, ''k1''))"
    using kim_sends by (metis prod.collapse)
  from sent_phone_is_free [OF this, of "''+12505550102''"] show ?thesis
    by (simp add: request_phone_def list_all_iff kim_view_def)
qed

text \<open>An edit sends the fields that were touched and no other, so what was synced meanwhile is not written over.\<close>

lemma change_carries_touched:
  assumes "client_request_of v s = Change_Client i c"
  shows "cc_name c = None \<longleftrightarrow> map_of (client_changes v s) ''name'' = None" "cc_phone c = None \<longleftrightarrow> map_of (client_changes v s) ''phone'' = None"
    "cc_tags c = None \<longleftrightarrow> map_of (client_changes v s) ''tags'' = None" "cc_consent c = None \<longleftrightarrow> \<not> consent_changed v s"
  using assms by (auto simp: client_request_of_def Let_def split: option.splits if_splits)

section \<open>Archiving\<close>

record lifecycle =
  lc_action :: async_action
  lc_attempt :: "(string \<times> string) attempt option"

text \<open>\<open>archive\<close> and \<open>restore\<close> of one client; \<open>path\<close> says which.\<close>

definition lifecycle_begin :: "string option \<Rightarrow> string \<Rightarrow> string \<Rightarrow> lifecycle \<Rightarrow> lifecycle \<times> (string \<times> string \<times> string) option" where
  "lifecycle_begin client path fresh s =
    (case client of None \<Rightarrow> (s, None)
     | Some i \<Rightarrow> (let (key, ref) = attempt_key fresh (lc_attempt s) (i, path); s1 = s\<lparr>lc_attempt := ref\<rparr>
                 in case action_start (lc_action s1) of None \<Rightarrow> (s1, None) | Some a \<Rightarrow> (s1\<lparr>lc_action := a\<rparr>, Some (i, path, key))))"

definition lifecycle_end :: "string \<Rightarrow> bool \<Rightarrow> lifecycle \<Rightarrow> lifecycle" where
  "lifecycle_end message ok s =
    (if ok then s\<lparr>lc_attempt := None, lc_action := action_end None (lc_action s)\<rparr> else s\<lparr>lc_action := action_end (Some message) (lc_action s)\<rparr>)"

section \<open>Several clients\<close>

record selection =
  sl_ids :: "string list"
  sl_pending :: "(string, bool) js_map"
  sl_extra :: "string list"
  sl_done :: "(string \<times> nat) option"
  sl_tag_ref :: "(string list \<times> (string, bool) js_map) attempt option"
  sl_archive_ref :: "string list attempt option"
  sl_tagging :: async_action
  sl_archiving :: async_action

definition open_selection :: selection where
  "open_selection = \<lparr>sl_ids = [], sl_pending = [], sl_extra = [], sl_done = None, sl_tag_ref = None, sl_archive_ref = None,
     sl_tagging = idle_action, sl_archiving = idle_action\<rparr>"

definition tags_of :: "client_row list \<Rightarrow> string \<Rightarrow> string list" where
  "tags_of rows i = (case find (\<lambda>r. cw_id r = i) rows of Some r \<Rightarrow> cw_tags r | None \<Rightarrow> [])"

definition tag_names :: "client_env \<Rightarrow> client_row list \<Rightarrow> selection \<Rightarrow> string list" where
  "tag_names env rows s = (let known = map fst (tag_directory env rows) in known @ filter (\<lambda>t. t \<notin> set known) (sl_extra s))"

definition tagged_count :: "client_row list \<Rightarrow> selection \<Rightarrow> string \<Rightarrow> nat" where
  "tagged_count rows s tag = length (filter (\<lambda>i. tag \<in> set (tags_of rows i)) (sl_ids s))"

definition tag_state :: "client_env \<Rightarrow> client_row list \<Rightarrow> selection \<Rightarrow> (string \<times> nat \<times> nat) list" where
  "tag_state env rows s =
    map (\<lambda>t. (t, (case map_of (tag_directory env rows) t of Some n \<Rightarrow> n | None \<Rightarrow> 0), tagged_count rows s t)) (tag_names env rows s)"

definition select_toggle :: "string \<Rightarrow> selection \<Rightarrow> selection" where
  "select_toggle i s = s\<lparr>sl_done := None, sl_ids := (if i \<in> set (sl_ids s) then filter (\<lambda>y. y \<noteq> i) (sl_ids s) else sl_ids s @ [i])\<rparr>"

definition select_all :: "string list \<Rightarrow> selection \<Rightarrow> selection" where
  "select_all ids s = s\<lparr>sl_done := None, sl_ids := ids\<rparr>"

definition select_clear :: "selection \<Rightarrow> selection" where
  "select_clear s = s\<lparr>sl_ids := [], sl_pending := []\<rparr>"

text \<open>A tag not decided on yet starts from whether all the selected have it.\<close>

definition toggle_tag :: "client_env \<Rightarrow> client_row list \<Rightarrow> string \<Rightarrow> selection \<Rightarrow> selection" where
  "toggle_tag env rows tag s =
    (let current = (case map_of (sl_pending s) tag of Some b \<Rightarrow> b
           | None \<Rightarrow> (if tag \<in> set (tag_names env rows s) then tagged_count rows s tag else 0) = length (sl_ids s))
     in s\<lparr>sl_pending := AList.update tag (\<not> current) (sl_pending s)\<rparr>)"

definition add_tag :: "client_env \<Rightarrow> client_row list \<Rightarrow> string \<Rightarrow> selection \<Rightarrow> selection" where
  "add_tag env rows raw s =
    (let tag = clean_tag raw
     in if tag = [] then s
        else s\<lparr>sl_extra := (if tag \<in> set (tag_names env rows s) then sl_extra s else sl_extra s @ [tag]), sl_pending := AList.update tag True (sl_pending s)\<rparr>)"

definition select_reset :: "string \<times> nat \<Rightarrow> selection \<Rightarrow> selection" where
  "select_reset message s = s\<lparr>sl_ids := [], sl_pending := [], sl_extra := [], sl_done := Some message\<rparr>"

definition tags_begin :: "string \<Rightarrow> selection \<Rightarrow> selection \<times> (string list \<times> (string, bool) js_map \<times> string) option" where
  "tags_begin fresh s =
    (let (key, ref) = attempt_key fresh (sl_tag_ref s) (sl_ids s, sl_pending s); s1 = s\<lparr>sl_tag_ref := ref\<rparr>
     in case action_start (sl_tagging s1) of None \<Rightarrow> (s1, None) | Some a \<Rightarrow> (s1\<lparr>sl_tagging := a\<rparr>, Some (sl_ids s, sl_pending s, key)))"

definition tags_end :: "nat \<Rightarrow> bool \<Rightarrow> selection \<Rightarrow> selection" where
  "tags_end n ok s =
    (if ok then select_reset (''tagsUpdated'', n) (s\<lparr>sl_tag_ref := None, sl_tagging := action_end None (sl_tagging s)\<rparr>)
     else s\<lparr>sl_tagging := action_end (Some ''tagError'') (sl_tagging s)\<rparr>)"

definition archive_begin :: "string \<Rightarrow> selection \<Rightarrow> selection \<times> (string list \<times> string) option" where
  "archive_begin fresh s =
    (let (key, ref) = attempt_key fresh (sl_archive_ref s) (sl_ids s); s1 = s\<lparr>sl_archive_ref := ref\<rparr>
     in case action_start (sl_archiving s1) of None \<Rightarrow> (s1, None) | Some a \<Rightarrow> (s1\<lparr>sl_archiving := a\<rparr>, Some (sl_ids s, key)))"

definition archive_end :: "nat \<Rightarrow> bool \<Rightarrow> selection \<Rightarrow> selection" where
  "archive_end n ok s =
    (if ok then select_reset (''archived'', n) (s\<lparr>sl_archive_ref := None, sl_archiving := action_end None (sl_archiving s)\<rparr>)
     else s\<lparr>sl_archiving := action_end (Some ''archiveError'') (sl_archiving s)\<rparr>)"

definition can_merge :: "selection \<Rightarrow> bool" where
  "can_merge s \<longleftrightarrow> length (sl_ids s) = 2"

text \<open>The first touch of a tag that only some of the selected have gives it to all of them, the second takes it from all.\<close>

lemma toggle_partial_tag:
  assumes "map_of (sl_pending s) tag = None" "tagged_count rows s tag < length (sl_ids s)"
  shows "map_of (sl_pending (toggle_tag env rows tag s)) tag = Some True"
    and "map_of (sl_pending (toggle_tag env rows tag (toggle_tag env rows tag s))) tag = Some False"
  using assms by (auto simp: toggle_tag_def Let_def update_conv)

text \<open>What is picked while the tags of a selection are being saved is dropped by its success.\<close>

lemma picked_during_tagging_is_lost:
  "sl_ids (tags_end n True (select_toggle i s)) = [] \<and> sl_pending (tags_end n True (toggle_tag env rows t s)) = []"
  by (simp add: tags_end_def select_reset_def)

end
