(* ===== verification/Client_Records.thy ===== *)
theory Client_Records
  imports Clients
begin

text \<open>
  One client (\<open>app-core/src/domain/clients.ts\<close>): merging two records, notes, what the record counts of the visits, and the
  saved cards with their expiry. Visits come from the replica, the visits before its window from the server.
\<close>

section \<open>Merging two clients\<close>

datatype side = Side_A | Side_B

definition other_side :: "side \<Rightarrow> side" where
  "other_side d = (case d of Side_A \<Rightarrow> Side_B | Side_B \<Rightarrow> Side_A)"

datatype merge_field = Merge_Name | Merge_Phone

record merge =
  mr_keep :: side
  mr_picks :: "merge_field \<Rightarrow> side option"
  mr_action :: async_action
  mr_attempt :: "(string \<times> string \<times> (merge_field \<times> string \<times> string \<times> side) list \<times> side) attempt option"

definition open_merge :: merge where
  "open_merge = \<lparr>mr_keep = Side_A, mr_picks = (\<lambda>_. None), mr_action = idle_action, mr_attempt = None\<rparr>"

definition merge_value :: "client_row \<Rightarrow> merge_field \<Rightarrow> string" where
  "merge_value c k = (case k of Merge_Phone \<Rightarrow> format_phone (phone_text (cw_phone c)) | Merge_Name \<Rightarrow> cw_name c)"

definition on_side :: "side \<Rightarrow> 'a \<Rightarrow> 'a \<Rightarrow> 'a" where
  "on_side d a b = (case d of Side_A \<Rightarrow> a | Side_B \<Rightarrow> b)"

text \<open>A field starts with the kept record's value, or with the other's where that is empty.\<close>

definition chosen_side :: "client_row \<Rightarrow> client_row \<Rightarrow> merge \<Rightarrow> merge_field \<Rightarrow> side" where
  "chosen_side a b s k =
    (case mr_picks s k of
       Some d \<Rightarrow> d
     | None \<Rightarrow> if merge_value (on_side (mr_keep s) a b) k = [] then other_side (mr_keep s) else mr_keep s)"

definition merge_fields :: "client_row \<Rightarrow> client_row \<Rightarrow> merge \<Rightarrow> (merge_field \<times> string \<times> string \<times> side) list" where
  "merge_fields a b s = map (\<lambda>k. (k, merge_value a k, merge_value b k, chosen_side a b s k)) [Merge_Name, Merge_Phone]"

definition kept_row :: "client_row \<Rightarrow> client_row \<Rightarrow> merge \<Rightarrow> client_row" where
  "kept_row a b s = on_side (mr_keep s) a b"

definition gone_row :: "client_row \<Rightarrow> client_row \<Rightarrow> merge \<Rightarrow> client_row" where
  "gone_row a b s = on_side (other_side (mr_keep s)) a b"

definition kept_name :: "client_row \<Rightarrow> client_row \<Rightarrow> merge \<Rightarrow> string" where
  "kept_name a b s =
    (let v = merge_value (on_side (chosen_side a b s Merge_Name) a b) Merge_Name in if v \<noteq> [] then v else cw_name (kept_row a b s))"

definition set_keep :: "side \<Rightarrow> merge \<Rightarrow> merge" where
  "set_keep d s = s\<lparr>mr_keep := d, mr_picks := (\<lambda>_. None)\<rparr>"

definition choose_field :: "merge_field \<Rightarrow> side \<Rightarrow> merge \<Rightarrow> merge" where
  "choose_field k d s = s\<lparr>mr_picks := (mr_picks s)(k := Some d)\<rparr>"

record footprint =
  fp_bookings :: int
  fp_subjects :: "string option"
  fp_messages :: int
  fp_notes :: int
  fp_money :: int
  fp_methods :: int

definition merge_moves :: "footprint option \<Rightarrow> (string \<times> int) list" where
  "merge_moves f =
    (case f of None \<Rightarrow> []
     | Some p \<Rightarrow> (if fp_bookings p > 0 then [(''bookings'', fp_bookings p)] else [])
        @ (if fp_subjects p \<noteq> None \<and> fp_subjects p \<noteq> Some [] then [(''subjects'', 0)] else [])
        @ (if fp_messages p > 0 then [(''messages'', fp_messages p)] else []) @ (if fp_notes p > 0 then [(''notes'', fp_notes p)] else []))"

definition merge_blocked :: "footprint option \<Rightarrow> string option" where
  "merge_blocked f =
    (case f of None \<Rightarrow> None
     | Some p \<Rightarrow> if fp_money p > 0 then Some ''blockedMoney'' else if fp_methods p > 0 then Some ''blockedMethods'' else None)"

text \<open>The request: the record kept, the record that goes, and whose value each field takes.\<close>

definition merge_begin :: "client_row \<Rightarrow> client_row \<Rightarrow> string \<Rightarrow> merge \<Rightarrow> merge \<times> (string \<times> string \<times> (merge_field \<times> bool) list \<times> string) option" where
  "merge_begin a b fresh s =
    (let kept = cw_id (kept_row a b s); gone = cw_id (gone_row a b s); fs = merge_fields a b s;
         (key, ref) = attempt_key fresh (mr_attempt s) (kept, gone, fs, mr_keep s); s1 = s\<lparr>mr_attempt := ref\<rparr>
     in case action_start (mr_action s1) of
          None \<Rightarrow> (s1, None)
        | Some x \<Rightarrow> (s1\<lparr>mr_action := x\<rparr>, Some (kept, gone, map (\<lambda>(k, _, _, d). (k, d = mr_keep s)) fs, key)))"

definition merge_end :: "bool \<Rightarrow> merge \<Rightarrow> merge" where
  "merge_end ok s =
    (if ok then s\<lparr>mr_attempt := None, mr_action := action_end None (mr_action s)\<rparr> else s\<lparr>mr_action := action_end (Some ''mergeError'') (mr_action s)\<rparr>)"

text \<open>What the server makes of the request on the name, and that it is the name shown: a merge never leaves the name of neither.\<close>

lemma merged_name_shown:
  assumes "merge_begin a b fresh s = (t, Some (kept_id, gone, choices, key))" "map_of choices Merge_Name = Some mine"
    and "cw_name a \<noteq> []" "cw_name b \<noteq> []"
  shows "kept_name a b s = cw_name (if mine then kept_row a b s else gone_row a b s)"
proof -
  have "mine = (chosen_side a b s Merge_Name = mr_keep s)"
    using assms(1,2) by (auto simp: merge_begin_def merge_fields_def Let_def split: prod.splits option.splits)
  then show ?thesis using assms(3,4)
    by (cases "chosen_side a b s Merge_Name"; cases "mr_keep s")
      (simp_all add: kept_name_def merge_value_def kept_row_def gone_row_def on_side_def other_side_def Let_def)
qed

section \<open>Notes\<close>

record note_composer =
  nc_open :: bool
  nc_body :: string
  nc_pinned :: bool
  nc_about :: string
  nc_action :: async_action

definition open_notes :: "string \<Rightarrow> note_composer" where
  "open_notes about = \<lparr>nc_open = False, nc_body = [], nc_pinned = False, nc_about = about, nc_action = idle_action\<rparr>"

definition note_show :: "note_composer \<Rightarrow> note_composer" where
  "note_show s = s\<lparr>nc_open := True\<rparr>"

definition note_cancel :: "note_composer \<Rightarrow> note_composer" where
  "note_cancel s = s\<lparr>nc_open := False, nc_body := [], nc_pinned := False, nc_action := action_set_error None (nc_action s)\<rparr>"

definition note_type :: "string \<Rightarrow> note_composer \<Rightarrow> note_composer" where
  "note_type v s = s\<lparr>nc_body := v, nc_action := action_set_error None (nc_action s)\<rparr>"

datatype note_target = Of_Client string | Of_Booking string

definition note_parent :: "note_target \<Rightarrow> string \<Rightarrow> string \<times> string" where
  "note_parent target about =
    (case target of
       Of_Booking b \<Rightarrow> (''booking'', b)
     | Of_Client c \<Rightarrow> if about \<noteq> ''client'' then (''subject'', about) else (''client'', c))"

text \<open>The note goes out without a key.\<close>

definition note_submit :: "note_target \<Rightarrow> note_composer \<Rightarrow> note_composer \<times> ((string \<times> string) \<times> string \<times> bool) option" where
  "note_submit target s =
    (if js_trim (nc_body s) = [] then (s\<lparr>nc_action := action_set_error (Some ''noteRequired'') (nc_action s)\<rparr>, None)
     else case action_start (nc_action s) of
            None \<Rightarrow> (s, None)
          | Some a \<Rightarrow> (s\<lparr>nc_action := a\<rparr>, Some (note_parent target (nc_about s), js_trim (nc_body s), nc_pinned s)))"

definition note_saved :: "bool \<Rightarrow> note_composer \<Rightarrow> note_composer" where
  "note_saved ok s =
    (if ok then s\<lparr>nc_body := [], nc_pinned := False, nc_open := False, nc_action := action_end None (nc_action s)\<rparr>
     else s\<lparr>nc_action := action_end (Some ''noteError'') (nc_action s)\<rparr>)"

lemma typed_during_note_is_lost: "nc_body (note_saved True (note_type v s)) = []"
  by (simp add: note_saved_def note_type_def)

text \<open>Changing notes: one at a time, with the note it is about.\<close>

record note_actions =
  na_id :: "string option"
  na_action :: async_action

datatype note_change = Pin_Note bool | Edit_Note string | Remove_Note

definition note_act :: "string \<Rightarrow> note_change \<Rightarrow> note_actions \<Rightarrow> note_actions \<times> (string \<times> note_change) option" where
  "note_act i c s =
    (let s1 = s\<lparr>na_id := Some i\<rparr>
     in case action_start (na_action s1) of None \<Rightarrow> (s1, None) | Some a \<Rightarrow> (s1\<lparr>na_action := a\<rparr>, Some (i, c)))"

definition edit_note :: "string \<Rightarrow> string \<Rightarrow> note_actions \<Rightarrow> note_actions \<times> (string \<times> note_change) option" where
  "edit_note i body s = (if js_trim body = [] then (s, None) else note_act i (Edit_Note (js_trim body)) s)"

definition busy_note :: "note_actions \<Rightarrow> string option" where
  "busy_note s = (if aa_busy (na_action s) then na_id s else None)"

definition note_acted :: "bool \<Rightarrow> note_actions \<Rightarrow> note_actions" where
  "note_acted ok s = s\<lparr>na_action := action_end (if ok then None else Some ''noteChangeError'') (na_action s)\<rparr>"

text \<open>A change of a second note while one is on its way is not sent, but that note is then shown as the busy one.\<close>

lemma refused_change_looks_busy:
  assumes "aa_running (na_action s)" "aa_busy (na_action s)"
  shows "snd (note_act i c s) = None \<and> busy_note (fst (note_act i c s)) = Some i"
  using assms by (simp add: note_act_def busy_note_def action_start_def)

section \<open>Visits of the record\<close>

record client_visit =
  cv_status :: string
  cv_subject :: "string option"
  cv_start :: int
  cv_end :: int
  cv_deposit :: int
  cv_deposit_status :: string

definition is_ahead :: "int \<Rightarrow> client_visit \<Rightarrow> bool" where
  "is_ahead now v \<longleftrightarrow> cv_end v > now \<and> (cv_status v = ''confirmed'' \<or> cv_status v = ''pending'')"

datatype visit_pill = In_Progress | Deposit_Settled int | Deposit_Owed int

definition visit_pill_of :: "int \<Rightarrow> client_visit \<Rightarrow> visit_pill option" where
  "visit_pill_of now v =
    (if cv_start v \<le> now then Some In_Progress
     else if cv_deposit v \<le> 0 then None
     else if cv_deposit_status v = ''collected'' \<or> cv_deposit_status v = ''applied'' then Some (Deposit_Settled (cv_deposit v))
     else Some (Deposit_Owed (cv_deposit v)))"

text \<open>Completed visits before the device's window are counted by the server; those on the device from the window on.\<close>

record earlier_visits =
  ev_before :: int
  ev_completed :: nat
  ev_last :: "int option"

definition record_done :: "earlier_visits option \<Rightarrow> client_visit list \<Rightarrow> client_visit list" where
  "record_done earlier visits =
    filter (\<lambda>v. cv_status v = ''completed'' \<and> (case earlier of None \<Rightarrow> True | Some e \<Rightarrow> ev_before e \<le> cv_start v)) visits"

definition record_visits :: "earlier_visits option \<Rightarrow> client_visit list \<Rightarrow> nat" where
  "record_visits earlier visits = length (record_done earlier visits) + (case earlier of None \<Rightarrow> 0 | Some e \<Rightarrow> ev_completed e)"

definition record_last :: "earlier_visits option \<Rightarrow> client_visit list \<Rightarrow> int option" where
  "record_last earlier visits =
    (case record_done earlier visits of v # vs \<Rightarrow> Some (cv_start v) | [] \<Rightarrow> Option.bind earlier ev_last)"

definition record_upcoming :: "int \<Rightarrow> client_visit list \<Rightarrow> client_visit list" where
  "record_upcoming now visits = rev (filter (is_ahead now) visits)"

text \<open>No visit is counted twice: the server's count and the device's partition the completed visits, whatever the device
  still holds from before the window.\<close>

lemma record_counts_each_visit:
  assumes "\<forall>v\<in>set window. v \<in> set device \<or> cv_start v < ev_before e" "distinct window" "distinct device"
    and "\<forall>v\<in>set device. ev_before e \<le> cv_start v \<longrightarrow> v \<in> set window"
    and "ev_completed e = length (filter (\<lambda>v. cv_status v = ''completed'' \<and> cv_start v < ev_before e) window)"
  shows "record_visits (Some e) device = length (filter (\<lambda>v. cv_status v = ''completed'') window)"
proof -
  let ?done = "\<lambda>v. cv_status v = ''completed''"
  have "set (record_done (Some e) device) = set (filter (\<lambda>v. ?done v \<and> \<not> cv_start v < ev_before e) window)"
    using assms(1,4) by (auto simp: record_done_def not_less)
  moreover have "distinct (record_done (Some e) device)" using assms(3) by (simp add: record_done_def)
  moreover have "distinct (filter (\<lambda>v. ?done v \<and> \<not> cv_start v < ev_before e) window)" using assms(2) by simp
  ultimately have "length (record_done (Some e) device) = length (filter (\<lambda>v. ?done v \<and> \<not> cv_start v < ev_before e) window)"
    by (simp only: distinct_card [symmetric])
  moreover have "length (filter ?done window) = length (filter (\<lambda>v. ?done v \<and> cv_start v < ev_before e) window)
      + length (filter (\<lambda>v. ?done v \<and> \<not> cv_start v < ev_before e) window)"
    using sum_length_filter_compl [of "\<lambda>v. cv_start v < ev_before e" "filter ?done window"] by (simp add: conj_commute)
  ultimately show ?thesis using assms(5) by (simp add: record_visits_def)
qed

record subject_card =
  su_visits :: nat
  su_last :: "int option"
  su_next :: "int option"

definition subject_card_of :: "int \<Rightarrow> string \<Rightarrow> client_visit list \<Rightarrow> subject_card" where
  "subject_card_of now subject visits =
    (let own = filter (\<lambda>v. cv_subject v = Some subject) visits; past = filter (\<lambda>v. cv_status v = ''completed'') own;
         ahead = sort_key cv_start (filter (is_ahead now) own)
     in \<lparr>su_visits = length past, su_last = (case past of v # vs \<Rightarrow> Some (cv_start v) | [] \<Rightarrow> None),
         su_next = (case ahead of v # vs \<Rightarrow> Some (cv_start v) | [] \<Rightarrow> None)\<rparr>)"

section \<open>Saved cards\<close>

record method_row =
  mw_id :: string
  mw_method :: string
  mw_preferred :: bool
  mw_mandate :: string
  mw_month :: "int option"
  mw_year :: "int option"
  mw_pays :: "string option"

definition is_mandate :: "method_row \<Rightarrow> bool" where
  "is_mandate m \<longleftrightarrow> mw_method m = ''bank_eft''"

definition is_chargeable :: "method_row \<Rightarrow> bool" where
  "is_chargeable m \<longleftrightarrow> mw_method m = ''card'' \<or> (is_mandate m \<and> mw_mandate m = ''active'')"

definition is_default_method :: "method_row \<Rightarrow> bool" where
  "is_default_method m \<longleftrightarrow> mw_preferred m \<and> is_chargeable m"

definition can_be_default :: "method_row \<Rightarrow> bool" where
  "can_be_default m \<longleftrightarrow> \<not> mw_preferred m \<and> is_chargeable m"

text \<open>The start of the last day a card is good for, and the milliseconds to it.\<close>

definition last_day :: "offsets \<Rightarrow> string \<Rightarrow> method_row \<Rightarrow> int option" where
  "last_day off zone m =
    (case (mw_month m, mw_year m) of (Some mo, Some y) \<Rightarrow> Some (zoned_date off y (mo + 1) 0 0 0 zone) | _ \<Rightarrow> None)"

datatype expiry = Expired | Expires_Soon | Expires

definition expiry_of :: "offsets \<Rightarrow> string \<Rightarrow> int \<Rightarrow> method_row \<Rightarrow> expiry option" where
  "expiry_of off zone now m =
    map_option (\<lambda>d. let left = of_int (d - now) / (86400000 :: rat) in if left < 0 then Expired else if left < 45 then Expires_Soon else Expires)
      (last_day off zone m)"

definition expiring_soon :: "offsets \<Rightarrow> string \<Rightarrow> int \<Rightarrow> method_row \<Rightarrow> bool" where
  "expiring_soon off zone now m \<longleftrightarrow> (case last_day off zone m of None \<Rightarrow> False | Some d \<Rightarrow> of_int (d - now) / (86400000 :: rat) < 45)"

definition first_expiring :: "offsets \<Rightarrow> string \<Rightarrow> int \<Rightarrow> method_row list \<Rightarrow> method_row option" where
  "first_expiring off zone now ms = find (expiring_soon off zone now) ms"

text \<open>What removing a method does to the plans it pays: which method takes over.\<close>

datatype removal = Pays_Nothing | Last_Method | Taken_Over string

definition removal_of :: "method_row list \<Rightarrow> method_row \<Rightarrow> removal" where
  "removal_of ms m =
    (if (case mw_pays m of None \<Rightarrow> True | Some p \<Rightarrow> p = []) then Pays_Nothing
     else let others = filter (\<lambda>x. mw_id x \<noteq> mw_id m \<and> is_chargeable x) ms
          in if others = [] then Last_Method
             else Taken_Over (mw_id (case find is_default_method others of Some x \<Rightarrow> x | None \<Rightarrow> List.last others)))"

lemma removal_taken_over:
  "removal_of ms m = Taken_Over i \<Longrightarrow> \<exists>x\<in>set ms. mw_id x = i \<and> is_chargeable x \<and> i \<noteq> mw_id m"
  using last_in_set [of "filter (\<lambda>x. mw_id x \<noteq> mw_id m \<and> is_chargeable x) ms"]
  by (auto simp: removal_of_def Let_def split: if_splits option.splits dest!: find_SomeD)

text \<open>The time left is counted to the start of the last day, so on that day, while the card is still good, it reads as expired.\<close>

lemma expired_on_its_last_day:
  assumes "off = (\<lambda>_ _. 0)" "mw_month m = Some 12" "mw_year m = Some 2026"
  shows "expiry_of off ''UTC'' (date_utc 2026 12 31 12 0) m = Some Expired"
proof -
  have d: "date_utc 2026 13 0 0 0 = 1798675200000" "date_utc 2026 12 31 12 0 = 1798718400000" by code_simp+
  show ?thesis using assms by (simp add: expiry_of_def last_day_def zoned_date_def d)
qed

end
