(* ===== verification/Spec2Isabelle.thy ===== *)
theory Spec2Isabelle
  imports Taxes Pricing Sale Hours_Outbox Hours_Guarantees Hours_Queue Calendar Datetime Timestamps Zones Attempts Checkout Register
    Register_Guarantees Schedule Slots Moves Board Recurrences Week_Editor Session Shop Booking_Flow Manage_Booking Json_Texts Replica History Replica_Session Amounts View_Hooks Refunds Documents Composer Identity Recovery
    Catalog Item_Editor Item_Form Deliveries Clients Client_Records
begin

text \<open>
  \<^bold>\<open>The shared client core of clientbridge.\<close>

  clientbridge runs a service business: its calendar, its register, its bills, and the public pages its clients
  book and buy on. The web and the mobile app share one core under \<open>src/frontend/packages\<close>: \<open>app-core\<close> holds
  the view models (one file per part of the product under \<open>app-core/src/domain\<close>), \<open>api-client\<close> the session
  with the server, \<open>sync\<close> what is written while offline. The components render what the view models return.
  This development models that core. State that a hook keeps in \<open>useState\<close> and \<open>useRef\<close> is a record; a
  handler is a function on it, split where the code awaits: the function up to the wait returns what is sent,
  the next one takes the answer. Whatever may happen in between is a step of an inductive relation, so other
  handlers run in the gaps as they do in the browser. Errors are values (\<open>Inl\<close>, \<open>None\<close>, or the error field
  of the state), an error's text the key of the string catalogue with its arguments.

  \<^bold>\<open>Shared vocabulary.\<close> \<open>Prelude\<close>: JavaScript's rounding and remainder, insertion-ordered maps as
  association lists, lemmas on lists, reachability (\<open>reach\<close>) and the locale \<open>inductive_invariant\<close>, which
  every step relation below interprets with its own invariant.

  \<^bold>\<open>Money\<close> (\<open>domain/taxes.ts\<close>, \<open>taxRates.ts\<close>, \<open>domain/billing.ts\<close>, \<open>domain/pos.ts\<close>).
  \<^item> \<open>Taxes\<close>: the generated table of rates, \<open>ratesOn\<close>, \<open>lineTax\<close>, the tax setup. Its lemmas say which rate is
    in force on a day, that a line's tax is the exact tax rounded half away from zero, and what the table holds.
  \<^item> \<open>Pricing\<close>: \<open>docRates\<close>, the discounts, \<open>allocate\<close>, \<open>priceDoc\<close>, \<open>issuedTaxes\<close>. The locale \<open>fair_split\<close>
    states what a split of cents owes its shares; \<open>allocate\<close> is its instance, and pricing rests on it.
  \<^item> \<open>Amounts\<close> (\<open>format.ts\<close>): amounts and numbers as typed in the active locale, phone numbers, names. An amount
    that fills a field reads back as itself, a decimal up to the third digit.
  \<^item> \<open>Sale\<close>: \<open>priceSale\<close>, \<open>issuedSale\<close>, \<open>tipShares\<close>, the totals of a ticket.
  \<^item> \<open>Register\<close>, \<open>Register_Guarantees\<close>: the state of \<open>useSale\<close> and its handlers. A ticket's lines have
    distinct ids; a ticket is saved as one order however often saving is tried; a charge that is repeated is sent
    again byte for byte under the key of the first; a held sale resumes as it was saved on a register where no
    client was chosen before.
  \<^item> \<open>Documents\<close>: the desks of invoices and estimates, the record of a document and the commands on it. \<open>Composer\<close>:
    \<open>useDocComposer\<close>, its lines, totals, saving and sending. The totals shown are those of the document that is
    sent, its discount included, and a document whose answer was lost is sent again under its key.
  \<^item> \<open>Refunds\<close> (\<open>domain/refunds.ts\<close>): the desk, the composer with the server's preview, credit notes, disputes.
    A refund that goes out never exceeds what is left of its payment and was not blocked for a reason the catalogue words.
  \<^item> \<open>Checkout\<close> (\<open>domain/checkout.ts\<close>): charging a payment method, with the key that outlives a lost answer.
  \<^item> \<open>Attempts\<close> (\<open>api.ts\<close>, \<open>hooks.ts\<close>): failures and their messages, \<open>attemptKey\<close>, \<open>sendAttempt\<close>,
    \<open>useAsyncAction\<close>. Every component that writes to the server uses it. \<open>View_Hooks\<close> (\<open>hooks.ts\<close>): \<open>useRemote\<close>,
    \<open>useLoad\<close>, \<open>useSyncedDraft\<close>, \<open>useDraftList\<close>, \<open>useMonthGrid\<close>; a render with its effect run shows the
    figure of its own key, the commit before that may still show the old one.

  \<^bold>\<open>The catalogue\<close> (\<open>domain/catalog.ts\<close>). \<open>Catalog\<close>: items, stock, the lists and the inventory. \<open>Item_Editor\<close>: the fields
  of an item, their checks and the request; an item that is saved untouched stays what it is. \<open>Item_Form\<close>: saving a new
  item over lost answers; in the end there is one item, with the opening stock that was typed. \<open>Deliveries\<close>: restocks
  and deliveries.

  \<^bold>\<open>Clients\<close> (\<open>domain/clients.ts\<close>). \<open>Clients\<close>: the directory with its search and tags, the editor with its check for
  duplicates (a phone number is not given to a second client), the selection of several clients. \<open>Client_Records\<close>:
  merging two clients, notes, visits, saved cards.

  \<^bold>\<open>Time\<close> (\<open>datetime.ts\<close>, \<open>zones.ts\<close>).
  \<^item> \<open>Calendar\<close>: the day arithmetic of ECMA-262's dates. \<open>Datetime\<close>: the search for a zone's rule, wall times
    and instants, day keys, the month grid. The locales \<open>zone_clock\<close> and \<open>midnight_clock\<close> say what is asked of
    a zone for wall times to read back; \<open>Zones\<close> has the thirteen bundled zones and interprets both on them.
  \<^item> \<open>Timestamps\<close>: \<open>parseTimestamp\<close>, \<open>readDate\<close>, \<open>toISOString\<close> and their round trip.

  \<^bold>\<open>The schedule\<close> (\<open>domain/bookings.ts\<close>, \<open>domain/hours.ts\<close>, \<open>domain/recurrences.ts\<close>).
  \<^item> \<open>Schedule\<close>: \<open>layoutDay\<close>, which puts overlapping events side by side. \<open>Slots\<close>: availability, the checks
    before a visit is booked (\<open>slotProblem\<close>, \<open>freeResources\<close>) and \<open>planMove\<close>, with exactness: a problem is
    reported if and only if there is one, and the one reported is real.
  \<^item> \<open>Moves\<close>: \<open>useMoveEvent\<close> with its review, undo and pending moves. \<open>Board\<close>: lanes, windows, the board.
  \<^item> \<open>Week_Editor\<close>: \<open>useWeekEditor\<close>, its seeds, edits, conflicts and \<open>rebaseWeek\<close>; saving goes to the outbox.
  \<^item> \<open>Recurrences\<close>: the dates of a pattern, clashes and suggestions, composing and changing a series.

  \<^bold>\<open>Offline hours\<close> (\<open>sync/src/hours.ts\<close>). \<open>Hours_Outbox\<close>: the local tables, \<open>enqueueHours\<close>, discarding,
  observing, claiming, the server's answer, retrying, each a transaction, and the system of writers as a step
  relation. \<open>Hours_Guarantees\<close>: weeks go out in order, one at a time, and a settled week stays settled.
  \<open>Hours_Queue\<close>: the abstract queue of the weeks that wait, with events for putting in, dropping and settling; the
  locale \<open>refinement\<close> states that the queue after a run is the one its events make, and an interpretation shows it
  for the transactions; a queue drains while the server answers.

  \<^bold>\<open>The replica\<close> (\<open>sync/src/lifecycle.ts\<close>, \<open>history.ts\<close>, \<open>tabs.ts\<close>, \<open>connector.ts\<close>, \<open>files.ts\<close>, \<open>domain/sync.ts\<close>).
  \<open>Replica\<close>: the controller's actions, cut at their awaits, over the databases and the files. A replica that is
  open holds only rows of the person it is open for, also where files of no one are left over. \<open>History\<close>: the months kept,
  the upkeep of their streams, the range a page asks for. \<open>Replica_Session\<close>: which replica the app shows; after a
  sign-out nothing is, and loading ends. \<open>Json_Texts\<close>: the texts a file is claimed with, and that they read back.

  \<^bold>\<open>The session\<close> (\<open>api-client/src/session.ts\<close>, \<open>epochs.ts\<close>). \<open>Session\<close>: requests in flight while people sign in
  and out. Nothing an earlier session still waits for reaches its caller, a request bound to a session carries
  that user's credentials, and only a refusal that came while its session was the current one signs out.

  \<^bold>\<open>Signing in\<close> (\<open>domain/auth.ts\<close>). \<open>Identity\<close>: the flows of the auth service, the checks of the forms, the session
  check with its bound on working offline. \<open>Recovery\<close>: the password reset, which holds a session before the
  password is saved; that session is always held, being ended, or known to have failed to end, and storage has its
  mark.

  \<^bold>\<open>Public pages.\<close>
  \<^item> \<open>Shop\<close> (\<open>domain/publicShop.ts\<close>, \<open>publicResource.ts\<close>): cart, order, the pending order in the browser's storage.
  \<^item> \<open>Booking_Flow\<close> (\<open>usePublicBookingFlow\<close> in \<open>domain/publicBooking.ts\<close>): the visitor's choices, the effects
    that load days, times and programs, booking and the deposit. \<open>Manage_Booking\<close> (\<open>useManageBooking\<close>): moving and
    cancelling a booking, the deposit, messages. What is booked or moved to is a time the server offered.

  \<^bold>\<open>Bounds and fuel.\<close> No model takes fuel. The recursions that are not structural (\<open>rule_search\<close>, \<open>steps_between\<close>,
  \<open>back_into_month\<close>, \<open>quarter_starts\<close>, \<open>range_from\<close>, \<open>remove_all\<close>, \<open>hex_text\<close>, and the readers \<open>read_quoted\<close> and
  \<open>read_strings\<close>) have termination proofs by a measure. \<open>flow_settle\<close>
  commits four times because the effects have come to rest by then (\<open>flow_settles\<close>: a further pass changes
  nothing). Amounts are whole cents in JavaScript numbers; they stay far below \<open>2 ^ 53\<close>, where these are exact,
  and are \<open>int\<close> here. Rates and unusual JSON numbers are \<open>rat\<close>.

  \<^bold>\<open>Parameters.\<close> What the source does not contain is an argument: the answers of the server and the queries of
  the replica, the engine's clock, random identifiers, \<open>Intl\<close>, \<open>Date.parse\<close> outside ISO texts, the wording of
  captions. No axiom is stated about them; where a theorem needs a law, it is a hypothesis with a witness.

  \<^bold>\<open>Not modelled.\<close> The generated API client, the string catalogue, icons and tokens (data without behaviour); the
  React components of the two apps and the platform's storage; labels that only format text; the screens that
  list replicated rows through SQL queries (staff, earnings, the timeline and plans of a client); the
  forms of second factors, security settings and account deletion in \<open>auth.ts\<close>; \<open>useList\<close>, the calendar files, the
  settings of online booking and of reminders; how documents print; the Python backend.
\<close>

end
